(* ===== verification/Hedge_Prelude.thy ===== *)
theory Hedge_Prelude
  imports Complex_Main "HOL-Library.Word" "HOL-Library.Signed_Division"
begin

text \<open>
  Shared vocabulary of the development: the integer types of Rust and the operations
  of its standard library the sources use (saturating, checked and wrapping arithmetic,
  casts, big-endian byte arrays, decimal and hexadecimal formatting), and the ordered
  maps (\<open>BTreeMap\<close>) as sorted association lists.

  Unsigned integers are words of their width. Signed integers are \<^typ>\<open>int\<close>, with
  the range predicate \<open>in_i64\<close> and the wrap-around of a cast (\<open>wrap_i64\<close>) or the
  clamping of a saturating operation (\<open>sat_i64\<close>) written out at every place where the
  source has one. Division of signed integers is \<open>sdiv\<close>, which truncates towards zero as
  Rust does. The build the model follows is the release profile of \<open>Cargo.toml\<close>, which
  leaves \<open>overflow-checks\<close> at its default (off): a plain \<open>+\<close>, \<open>-\<close> or \<open>*\<close> wraps.
\<close>

type_synonym u8 = "8 word"
type_synonym u16 = "16 word"
type_synonym u32 = "32 word"
type_synonym u64 = "64 word"
type_synonym u128 = "128 word"
type_synonym i64 = int
type_synonym i128 = int

named_theorems rust_int "definitions of the fixed-width operations"
named_theorems range_intros "facts that a value lies in the range of its machine type"

section \<open>Signed integers\<close>

definition i64_max :: int where
  "i64_max = 9223372036854775807"

definition i64_min :: int where
  "i64_min = - 9223372036854775808"

definition in_i64 :: "int \<Rightarrow> bool" where
  "in_i64 x \<longleftrightarrow> i64_min \<le> x \<and> x \<le> i64_max"

definition wrap_i64 :: "int \<Rightarrow> int" where
  "wrap_i64 x = (x + 9223372036854775808) mod 18446744073709551616 - 9223372036854775808"

definition sat_i64 :: "int \<Rightarrow> int" where
  "sat_i64 x = (if x > i64_max then i64_max else if x < i64_min then i64_min else x)"

definition i128_max :: int where
  "i128_max = 170141183460469231731687303715884105727"

definition i128_min :: int where
  "i128_min = - 170141183460469231731687303715884105728"

definition in_i128 :: "int \<Rightarrow> bool" where
  "in_i128 x \<longleftrightarrow> i128_min \<le> x \<and> x \<le> i128_max"

definition wrap_i128 :: "int \<Rightarrow> int" where
  "wrap_i128 x = (x + 170141183460469231731687303715884105728)
     mod 340282366920938463463374607431768211456 - 170141183460469231731687303715884105728"

definition sat_i128 :: "int \<Rightarrow> int" where
  "sat_i128 x = (if x > i128_max then i128_max else if x < i128_min then i128_min else x)"

lemmas i64_defs = in_i64_def i64_max_def i64_min_def
lemmas i128_defs = in_i128_def i128_max_def i128_min_def

declare i64_defs [rust_int] i128_defs [rust_int] wrap_i64_def [rust_int] sat_i64_def [rust_int]
  wrap_i128_def [rust_int] sat_i128_def [rust_int]

lemma wrap_i64_range [range_intros, simp]: "in_i64 (wrap_i64 x)"
proof -
  have "0 \<le> (x + 9223372036854775808) mod 18446744073709551616"
    and "(x + 9223372036854775808) mod 18446744073709551616 < 18446744073709551616"
    by simp_all
  then show ?thesis
    unfolding wrap_i64_def i64_defs by linarith
qed

lemma sat_i64_range [range_intros, simp]: "in_i64 (sat_i64 x)"
  by (simp add: sat_i64_def i64_defs)

lemma wrap_i64_id [simp]: "in_i64 x \<Longrightarrow> wrap_i64 x = x"
  by (simp add: wrap_i64_def i64_defs mod_pos_pos_trivial)

lemma sat_i64_id [simp]: "in_i64 x \<Longrightarrow> sat_i64 x = x"
  by (simp add: sat_i64_def i64_defs)

lemma wrap_i128_id [simp]: "in_i128 x \<Longrightarrow> wrap_i128 x = x"
  by (simp add: wrap_i128_def i128_defs mod_pos_pos_trivial)

lemma sat_i128_id [simp]: "in_i128 x \<Longrightarrow> sat_i128 x = x"
  by (simp add: sat_i128_def i128_defs)

lemma sat_i64_mono: "x \<le> y \<Longrightarrow> sat_i64 x \<le> sat_i64 y"
  by (auto simp: sat_i64_def i64_defs)

lemma in_i64_zero [range_intros, simp]: "in_i64 0"
  by (simp add: i64_defs)

lemma in_i64_imp_i128 [range_intros]: "in_i64 x \<Longrightarrow> in_i128 x"
  by (simp add: i64_defs i128_defs)

text \<open>\<open>i64::from(x: u32) * 100\<close>: rupees to paise, which never overflows.\<close>

definition inr_to_paise :: "u32 \<Rightarrow> int" where
  "inr_to_paise x = uint x * 100"

lemma uint_u32_bound: "uint (x :: u32) < 4294967296"
  using uint_lt2p [of x] by simp

lemma uint_u64_bound: "uint (x :: u64) < 18446744073709551616"
  using uint_lt2p [of x] by simp

lemma inr_to_paise_nonneg [simp]: "0 \<le> inr_to_paise x"
  by (simp add: inr_to_paise_def)

lemma inr_to_paise_bound: "inr_to_paise x \<le> 429496729500"
  using uint_u32_bound [of x] by (simp add: inr_to_paise_def)

lemma inr_to_paise_range [range_intros, simp]: "in_i64 (inr_to_paise x)"
  using inr_to_paise_bound [of x] inr_to_paise_nonneg [of x]
  unfolding i64_defs by linarith

lemma unat_less_len: "unat (x :: 'a::len word) < 2 ^ LENGTH('a)"
  by (rule unsigned_less)

lemma unat_u64_bound: "unat (x :: u64) < 18446744073709551616"
  using unat_less_len [of x] by simp

lemma unat_minus_one: "unat (- 1 :: 'a::len word) = 2 ^ LENGTH('a) - 1"
  by (simp add: unsigned_minus_1_eq_mask mask_eq_exp_minus_1)

section \<open>Unsigned saturating and checked operations\<close>

definition usat_add :: "'a::len word \<Rightarrow> 'a word \<Rightarrow> 'a word" where
  "usat_add a b = (if unat a + unat b < 2 ^ LENGTH('a) then a + b else - 1)"

definition usat_sub :: "'a::len word \<Rightarrow> 'a word \<Rightarrow> 'a word" where
  "usat_sub a b = (if b \<le> a then a - b else 0)"

definition usat_mul :: "'a::len word \<Rightarrow> 'a word \<Rightarrow> 'a word" where
  "usat_mul a b = (if unat a * unat b < 2 ^ LENGTH('a) then a * b else - 1)"

definition uchecked_add :: "'a::len word \<Rightarrow> 'a word \<Rightarrow> 'a word option" where
  "uchecked_add a b = (if unat a + unat b < 2 ^ LENGTH('a) then Some (a + b) else None)"

declare usat_add_def [rust_int] usat_sub_def [rust_int] usat_mul_def [rust_int]
  uchecked_add_def [rust_int]

lemma unat_usat_add:
  "unat (usat_add a b :: 'a::len word) = min (unat a + unat b) (2 ^ LENGTH('a) - 1)"
  by (auto simp: usat_add_def unat_word_ariths unat_minus_one)

lemma unat_usat_sub: "unat (usat_sub a b) = unat a - unat b"
  by (auto simp: usat_sub_def unat_sub word_le_nat_alt)

lemma unat_usat_mul:
  "unat (usat_mul a b :: 'a::len word) = min (unat a * unat b) (2 ^ LENGTH('a) - 1)"
  by (auto simp: usat_mul_def unat_word_ariths unat_minus_one)

lemma usat_add_ge: "a \<le> usat_add a b"
proof -
  have "unat a \<le> 2 ^ LENGTH('a) - 1"
    using unat_less_len [of a] by linarith
  then show ?thesis
    by (simp add: word_le_nat_alt unat_usat_add)
qed

lemma word_eq_minus_one_iff: "c = (- 1 :: 'a::len word) \<longleftrightarrow> unat c = 2 ^ LENGTH('a) - 1"
  by (metis unat_minus_one unsigned_word_eqI)

lemma usat_add_le_iff:
  "usat_add a b \<le> (c :: 'a::len word) \<longleftrightarrow> unat a + unat b \<le> unat c \<or> c = - 1"
proof -
  have "unat c \<le> 2 ^ LENGTH('a) - 1"
    using unat_less_len [of c] by linarith
  then show ?thesis
    unfolding word_le_nat_alt unat_usat_add word_eq_minus_one_iff by linarith
qed

section \<open>Big-endian byte arrays\<close>

text \<open>
  \<open>to_be_bytes\<close> of an \<open>8 * n\<close>-bit integer with (unsigned) value \<open>v\<close>, and
  \<open>from_be_bytes\<close>. \<open>u64_be\<close> and \<open>i64_be\<close> are the instances of the source.
\<close>

fun be_bytes :: "nat \<Rightarrow> nat \<Rightarrow> u8 list" where
  "be_bytes 0 v = []"
| "be_bytes (Suc n) v = be_bytes n (v div 256) @ [of_nat v]"

definition from_be :: "u8 list \<Rightarrow> nat" where
  "from_be bs = foldl (\<lambda>a b. a * 256 + unat b) 0 bs"

definition u32_be :: "u32 \<Rightarrow> u8 list" where
  "u32_be w = be_bytes 4 (unat w)"

definition u64_be :: "u64 \<Rightarrow> u8 list" where
  "u64_be w = be_bytes 8 (unat w)"

definition u128_be :: "u128 \<Rightarrow> u8 list" where
  "u128_be w = be_bytes 16 (unat w)"

definition i64_be :: "i64 \<Rightarrow> u8 list" where
  "i64_be x = be_bytes 8 (nat (x mod 18446744073709551616))"

lemma length_be_bytes [simp]: "length (be_bytes n v) = n"
  by (induction n arbitrary: v) auto

lemma length_fixed_be [simp]:
  "length (u32_be a) = 4" "length (u64_be b) = 8" "length (u128_be c) = 16" "length (i64_be d) = 8"
  by (simp_all add: u32_be_def u64_be_def u128_be_def i64_be_def)

lemma from_be_snoc: "from_be (bs @ [b]) = from_be bs * 256 + unat b"
  by (simp add: from_be_def)

lemma from_be_bytes: "v < 256 ^ n \<Longrightarrow> from_be (be_bytes n v) = v"
proof (induction n arbitrary: v)
  case 0
  then show ?case by (simp add: from_be_def)
next
  case (Suc n)
  have "v div 256 < 256 ^ n"
    using Suc.prems by (simp add: less_mult_imp_div_less mult.commute)
  then have "from_be (be_bytes n (v div 256)) = v div 256"
    by (rule Suc.IH)
  moreover have "unat (of_nat v :: u8) = v mod 256"
    by (simp add: unat_of_nat)
  ultimately show ?case
    by (simp add: from_be_snoc)
qed

lemma from_be_bound: "from_be bs < 256 ^ length bs"
proof (induction bs rule: rev_induct)
  case Nil
  then show ?case by (simp add: from_be_def)
next
  case (snoc b bs)
  have "unat b < 256" using unat_less_len [of b] by simp
  moreover have "from_be bs * 256 + 256 \<le> 256 ^ length bs * 256"
    using snoc.IH by (metis Suc_leI add.commute mult_Suc mult_le_mono1 mult.commute)
  ultimately show ?case by (simp add: from_be_snoc mult.commute)
qed

lemma be_bytes_from_be: "be_bytes (length bs) (from_be bs) = bs"
proof (induction bs rule: rev_induct)
  case Nil
  then show ?case by simp
next
  case (snoc b bs)
  have "unat b < 256" using unat_less_len [of b] by simp
  then have d: "(from_be bs * 256 + unat b) div 256 = from_be bs" by simp
  have "unat (of_nat (from_be bs * 256 + unat b) :: u8) = (from_be bs * 256 + unat b) mod 256"
    by (simp only: unat_of_nat) simp
  also have "\<dots> = unat b"
    using \<open>unat b < 256\<close> by simp
  finally have "(of_nat (from_be bs * 256 + unat b) :: u8) = b"
    by (rule unsigned_word_eqI)
  with d snoc.IH show ?case
    by (simp only: from_be_snoc length_append_singleton be_bytes.simps)
qed

lemma be_bytes_inj: "u < 256 ^ n \<Longrightarrow> v < 256 ^ n \<Longrightarrow> be_bytes n u = be_bytes n v \<longleftrightarrow> u = v"
  by (metis from_be_bytes)

lemma u32_be_inj [simp]: "u32_be a = u32_be b \<longleftrightarrow> a = b"
proof -
  have "unat x < 256 ^ 4" for x :: u32 using unat_less_len [of x] by simp
  then show ?thesis by (simp add: u32_be_def be_bytes_inj word_unat_eq_iff)
qed

lemma u64_be_inj [simp]: "u64_be a = u64_be b \<longleftrightarrow> a = b"
proof -
  have "unat x < 256 ^ 8" for x :: u64 using unat_less_len [of x] by simp
  then show ?thesis by (simp add: u64_be_def be_bytes_inj word_unat_eq_iff)
qed

lemma i64_be_inj: "in_i64 a \<Longrightarrow> in_i64 b \<Longrightarrow> i64_be a = i64_be b \<longleftrightarrow> a = b"
proof -
  assume r: "in_i64 a" "in_i64 b"
  have n: "nat (x mod 18446744073709551616) < 256 ^ 8" for x :: int
    by (simp add: nat_less_iff)
  have "a = b" if "nat (a mod 18446744073709551616) = nat (b mod 18446744073709551616)"
  proof -
    from that have "a mod 18446744073709551616 = b mod 18446744073709551616"
      by (simp add: eq_nat_nat_iff)
    then have "(a + 9223372036854775808) mod 18446744073709551616
        = (b + 9223372036854775808) mod 18446744073709551616"
      by (rule mod_add_cong) (rule refl)
    then have "wrap_i64 a = wrap_i64 b"
      by (simp only: wrap_i64_def)
    with r show ?thesis by simp
  qed
  then show ?thesis
    unfolding i64_be_def be_bytes_inj [OF n n] by blast
qed

section \<open>Formatting\<close>

definition digit_char :: "nat \<Rightarrow> char" where
  "digit_char d = (if d < 10 then char_of (48 + d) else char_of (87 + d))"

text \<open>\<open>format!("{}", n)\<close> of an unsigned integer.\<close>

fun show_nat :: "nat \<Rightarrow> string" where
  "show_nat n = (if n < 10 then [digit_char n] else show_nat (n div 10) @ [digit_char (n mod 10)])"

declare show_nat.simps [simp del]

text \<open>\<open>format!("{:02x}", b)\<close> of a byte.\<close>

definition hex2 :: "u8 \<Rightarrow> string" where
  "hex2 b = [digit_char (unat b div 16), digit_char (unat b mod 16)]"

definition read_nat :: "string \<Rightarrow> nat" where
  "read_nat s = foldl (\<lambda>a c. a * 10 + (of_char c - 48)) 0 s"

lemma of_digit_char: "d < 10 \<Longrightarrow> of_char (digit_char d) = (48 + d :: nat)"
  by (simp add: digit_char_def)

lemma read_show_nat [simp]: "read_nat (show_nat n) = n"
proof (induction n rule: show_nat.induct)
  case (1 n)
  show ?case
  proof (cases "n < 10")
    case True
    then show ?thesis by (subst show_nat.simps) (simp add: read_nat_def of_digit_char)
  next
    case False
    with 1 have "read_nat (show_nat (n div 10)) = n div 10" by simp
    with False show ?thesis
      by (subst show_nat.simps) (simp add: read_nat_def of_digit_char)
  qed
qed

lemma show_nat_inj [simp]: "show_nat m = show_nat n \<longleftrightarrow> m = n"
  by (metis read_show_nat)

subsection \<open>Truncating division\<close>

lemma sdiv_between:
  fixes n q a b :: int
  assumes "0 < q" "a * q \<le> n" "n \<le> b * q"
  shows "a \<le> n sdiv q" "n sdiv q \<le> b"
proof -
  have lo: "a \<le> n sdiv q \<and> n sdiv q \<le> b" if "0 \<le> n"
  proof -
    have "n sdiv q = n div q"
      using that assms(1) by (cases "n = 0") (simp_all add: signed_divide_int_def sgn_if)
    moreover have "a * q div q \<le> n div q" "n div q \<le> b * q div q"
      using zdiv_mono1 [OF assms(2,1)] zdiv_mono1 [OF assms(3,1)] by blast+
    ultimately show ?thesis using assms(1) by simp
  qed
  have hi: "a \<le> n sdiv q \<and> n sdiv q \<le> b" if "n < 0"
  proof -
    have "n sdiv q = - ((- n) div q)"
      using that assms(1) by (simp add: signed_divide_int_def sgn_if)
    moreover have "(- b) * q div q \<le> (- n) div q" "(- n) div q \<le> (- a) * q div q"
      using zdiv_mono1 [OF _ assms(1), of "(- b) * q" "- n"] zdiv_mono1 [OF _ assms(1), of "- n" "(- a) * q"]
        assms(2,3) by simp_all
    moreover have "(- b) * q div q = - b" "(- a) * q div q = - a"
      using assms(1) nonzero_mult_div_cancel_right [of q "- b"] nonzero_mult_div_cancel_right [of q "- a"] by simp_all
    ultimately show ?thesis by linarith
  qed
  show "a \<le> n sdiv q" "n sdiv q \<le> b" using lo hi by (cases "0 \<le> n"; simp)+
qed

lemma sdiv_error:
  fixes n q :: int
  assumes "0 < q"
  shows "\<bar>n - (n sdiv q) * q\<bar> < q"
proof (cases "0 \<le> n")
  case True
  then have "n sdiv q = n div q"
    using assms by (cases "n = 0") (simp_all add: signed_divide_int_def sgn_if)
  then have "n - (n sdiv q) * q = n mod q" by (simp add: minus_div_mult_eq_mod)
  then show ?thesis using assms pos_mod_bound [OF assms, of n] pos_mod_sign [OF assms, of n] by simp
next
  case False
  then have "n sdiv q = - ((- n) div q)" using assms by (simp add: signed_divide_int_def sgn_if)
  then have "n - (n sdiv q) * q = - ((- n) mod q)"
    using minus_div_mult_eq_mod [of "- n" q] by simp
  then show ?thesis using assms pos_mod_bound [OF assms, of "- n"] pos_mod_sign [OF assms, of "- n"] by simp
qed

end
