(* ===== verification/Core_Types.thy ===== *)
theory Core_Types
  imports Hedge_Prelude
begin

text \<open>
  The shared vocabulary of the Hot_Path: \<open>hedge-core\<close> (fixed-point prices \<open>Px\<close>,
  identifiers, quantities, the byte-tagged enums) and the wire discriminants of
  \<open>hedge-schemas\<close> (order states, latency stages, strategies, rejection reasons), with the
  records of the FlatBuffers tables the engines exchange.
\<close>

section \<open>Prices in paise (hedge-core/src/price.rs)\<close>

type_synonym px = i64

definition PAISE_PER_INR :: int where
  "PAISE_PER_INR = 100"

definition px_zero :: px where
  "px_zero = 0"

definition px_from_inr :: "i64 \<Rightarrow> px" where
  "px_from_inr rupees = wrap_i64 (rupees * PAISE_PER_INR)"

definition px_to_inr :: "px \<Rightarrow> i64" where
  "px_to_inr p = p sdiv PAISE_PER_INR"

definition px_saturating_add :: "px \<Rightarrow> px \<Rightarrow> px" where
  "px_saturating_add a b = sat_i64 (a + b)"

definition px_saturating_sub :: "px \<Rightarrow> px \<Rightarrow> px" where
  "px_saturating_sub a b = sat_i64 (a - b)"

definition px_checked_add :: "px \<Rightarrow> px \<Rightarrow> px option" where
  "px_checked_add a b = (if in_i64 (a + b) then Some (a + b) else None)"

definition px_checked_sub :: "px \<Rightarrow> px \<Rightarrow> px option" where
  "px_checked_sub a b = (if in_i64 (a - b) then Some (a - b) else None)"

definition px_checked_mul_scalar :: "px \<Rightarrow> i64 \<Rightarrow> px option" where
  "px_checked_mul_scalar a k = (if in_i64 (a * k) then Some (a * k) else None)"

definition px_is_non_negative :: "px \<Rightarrow> bool" where
  "px_is_non_negative a \<longleftrightarrow> 0 \<le> a"

definition px_abs :: "px \<Rightarrow> px" where
  "px_abs a = sat_i64 \<bar>a\<bar>"

text \<open>The operators \<open>+\<close>, \<open>-\<close>, \<open>*\<close> and negation wrap in the release build; \<open>/\<close> panics
  (\<^term>\<open>None\<close>) on a zero divisor and on the one overflowing quotient.\<close>

definition px_add :: "px \<Rightarrow> px \<Rightarrow> px" where
  "px_add a b = wrap_i64 (a + b)"

definition px_sub :: "px \<Rightarrow> px \<Rightarrow> px" where
  "px_sub a b = wrap_i64 (a - b)"

definition px_mul :: "px \<Rightarrow> i64 \<Rightarrow> px" where
  "px_mul a k = wrap_i64 (a * k)"

definition px_neg :: "px \<Rightarrow> px" where
  "px_neg a = wrap_i64 (- a)"

definition px_div :: "px \<Rightarrow> i64 \<Rightarrow> px option" where
  "px_div a k = (if k = 0 \<or> (a = i64_min \<and> k = - 1) then None else Some (a sdiv k))"

text \<open>\<open>Display\<close>: sign, the rupee glyph (three UTF-8 bytes), rupees, a dot, two digits.\<close>

definition rupee_glyph :: string where
  "rupee_glyph = map char_of [0xE2, 0x82, 0xB9 :: nat]"

definition px_display :: "px \<Rightarrow> string" where
  "px_display p =
     (let sign = (if p < 0 then ''-'' else '''');
          magnitude = nat \<bar>p\<bar>;
          rupees = magnitude div 100;
          frac = magnitude mod 100
      in sign @ rupee_glyph @ show_nat rupees @ ''.'' @
         [digit_char (frac div 10), digit_char (frac mod 10)])"

lemmas px_defs = px_zero_def px_from_inr_def px_to_inr_def px_saturating_add_def
  px_saturating_sub_def px_checked_add_def px_checked_sub_def px_checked_mul_scalar_def
  px_is_non_negative_def px_abs_def px_add_def px_sub_def px_mul_def px_neg_def px_div_def
  PAISE_PER_INR_def

section \<open>Enums (hedge-core/src/enums.rs)\<close>

datatype side = Buy | Sell

fun side_opposite :: "side \<Rightarrow> side" where
  "side_opposite Buy = Sell"
| "side_opposite Sell = Buy"

fun side_as_u8 :: "side \<Rightarrow> u8" where
  "side_as_u8 Buy = 0"
| "side_as_u8 Sell = 1"

datatype regime = Trending | Sideways | Panic | HighVolatility | NewsDriven
  | LiquidityCrisis | LowParticipation

fun regime_as_u8 :: "regime \<Rightarrow> u8" where
  "regime_as_u8 Trending = 0"
| "regime_as_u8 Sideways = 1"
| "regime_as_u8 Panic = 2"
| "regime_as_u8 HighVolatility = 3"
| "regime_as_u8 NewsDriven = 4"
| "regime_as_u8 LiquidityCrisis = 5"
| "regime_as_u8 LowParticipation = 6"

datatype broker_id = Zerodha | Dhan | Shoonya | AngelOne | Upstox | Simulated

fun broker_as_u8 :: "broker_id \<Rightarrow> u8" where
  "broker_as_u8 Zerodha = 0"
| "broker_as_u8 Dhan = 1"
| "broker_as_u8 Shoonya = 2"
| "broker_as_u8 AngelOne = 3"
| "broker_as_u8 Upstox = 4"
| "broker_as_u8 Simulated = 255"

datatype priority = P1 | P2 | P3 | P4

fun priority_as_u8 :: "priority \<Rightarrow> u8" where
  "priority_as_u8 P1 = 1"
| "priority_as_u8 P2 = 2"
| "priority_as_u8 P3 = 3"
| "priority_as_u8 P4 = 4"

text \<open>\<open>BrokerId\<close> and \<open>Priority\<close> derive \<open>Ord\<close>: the order of the discriminants.\<close>

lemma broker_as_u8_inj: "broker_as_u8 a = broker_as_u8 b \<longleftrightarrow> a = b"
  by (cases a; cases b) simp_all

lemma priority_as_u8_inj: "priority_as_u8 a = priority_as_u8 b \<longleftrightarrow> a = b"
  by (cases a; cases b) simp_all

instantiation broker_id :: linorder
begin

definition less_eq_broker_id :: "broker_id \<Rightarrow> broker_id \<Rightarrow> bool" where
  "less_eq_broker_id a b \<longleftrightarrow> broker_as_u8 a \<le> broker_as_u8 b"

definition less_broker_id :: "broker_id \<Rightarrow> broker_id \<Rightarrow> bool" where
  "less_broker_id a b \<longleftrightarrow> broker_as_u8 a < broker_as_u8 b"

instance
  by standard (auto simp: less_eq_broker_id_def less_broker_id_def broker_as_u8_inj less_le)

end

instantiation priority :: linorder
begin

definition less_eq_priority :: "priority \<Rightarrow> priority \<Rightarrow> bool" where
  "less_eq_priority a b \<longleftrightarrow> priority_as_u8 a \<le> priority_as_u8 b"

definition less_priority :: "priority \<Rightarrow> priority \<Rightarrow> bool" where
  "less_priority a b \<longleftrightarrow> priority_as_u8 a < priority_as_u8 b"

instance
  by standard (auto simp: less_eq_priority_def less_priority_def priority_as_u8_inj less_le)

end

section \<open>Identifiers and quantities (hedge-core/src/ids.rs)\<close>

text \<open>\<open>SymbolId(u32)\<close>, \<open>CorrelationId(u128)\<close>, \<open>SessionId(u64)\<close> and \<open>Qty(u64)\<close> are
  transparent newtypes.\<close>

type_synonym symbol_id = u32
type_synonym correlation_id = u128
type_synonym session_id = u64
type_synonym qty = u64

definition CID_NIL :: correlation_id where
  "CID_NIL = 0"

definition qty_saturating_add :: "qty \<Rightarrow> qty \<Rightarrow> qty" where
  "qty_saturating_add a b = usat_add a b"

definition qty_saturating_sub :: "qty \<Rightarrow> qty \<Rightarrow> qty" where
  "qty_saturating_sub a b = usat_sub a b"

definition qty_checked_add :: "qty \<Rightarrow> qty \<Rightarrow> qty option" where
  "qty_checked_add a b = uchecked_add a b"

text \<open>\<open>u128::from_be_bytes\<close> of the 16-byte correlation id of a wire record.\<close>

definition cid_of_bytes :: "u8 list \<Rightarrow> correlation_id" where
  "cid_of_bytes bs = of_nat (from_be bs)"

lemma cid_bytes_roundtrip: "length bs = 16 \<Longrightarrow> u128_be (cid_of_bytes bs) = bs"
proof -
  assume l: "length bs = 16"
  then have "from_be bs < 2 ^ 128" using from_be_bound [of bs] by simp
  then have "unat (of_nat (from_be bs) :: u128) = from_be bs" by (simp add: unat_of_nat)
  then show ?thesis using be_bytes_from_be [of bs] l by (simp add: u128_be_def cid_of_bytes_def)
qed

lemma cid_of_bytes_inj:
  "length as = 16 \<Longrightarrow> length bs = 16 \<Longrightarrow> cid_of_bytes as = cid_of_bytes bs \<longleftrightarrow> as = bs"
  by (metis cid_bytes_roundtrip)

section \<open>Wire discriminants (hedge-schemas/src/lib.rs)\<close>

datatype stage = TickIngest | FeatureExtraction | AiScoringFetch | RiskCheck
  | ExecutionRouting | BrokerSubmit

fun stage_as_u8 :: "stage \<Rightarrow> u8" where
  "stage_as_u8 TickIngest = 0"
| "stage_as_u8 FeatureExtraction = 1"
| "stage_as_u8 AiScoringFetch = 2"
| "stage_as_u8 RiskCheck = 3"
| "stage_as_u8 ExecutionRouting = 4"
| "stage_as_u8 BrokerSubmit = 5"

definition stage_from_u8 :: "u8 \<Rightarrow> stage option" where
  "stage_from_u8 b =
     (if b = 0 then Some TickIngest else if b = 1 then Some FeatureExtraction
      else if b = 2 then Some AiScoringFetch else if b = 3 then Some RiskCheck
      else if b = 4 then Some ExecutionRouting else if b = 5 then Some BrokerSubmit else None)"

text \<open>A latency record, and what the engines hand to their latency emitter.\<close>

record latency_record =
  lr_correlation_id :: "u8 list"
  lr_stage :: u8
  lr_nanos :: u64
  lr_budget_nanos :: u64
  lr_breach :: bool

datatype latency_emit = EmitRecord stage latency_record | EmitBreach stage latency_record

datatype order_state = New | Submitted | PartiallyFilled | Filled | Cancelled | Rejected

fun order_state_as_u8 :: "order_state \<Rightarrow> u8" where
  "order_state_as_u8 New = 0"
| "order_state_as_u8 Submitted = 1"
| "order_state_as_u8 PartiallyFilled = 2"
| "order_state_as_u8 Filled = 3"
| "order_state_as_u8 Cancelled = 4"
| "order_state_as_u8 Rejected = 5"

definition order_state_from_u8 :: "u8 \<Rightarrow> order_state option" where
  "order_state_from_u8 b =
     (if b = 0 then Some New else if b = 1 then Some Submitted
      else if b = 2 then Some PartiallyFilled else if b = 3 then Some Filled
      else if b = 4 then Some Cancelled else if b = 5 then Some Rejected else None)"

fun order_state_as_str :: "order_state \<Rightarrow> string" where
  "order_state_as_str New = ''New''"
| "order_state_as_str Submitted = ''Submitted''"
| "order_state_as_str PartiallyFilled = ''PartiallyFilled''"
| "order_state_as_str Filled = ''Filled''"
| "order_state_as_str Cancelled = ''Cancelled''"
| "order_state_as_str Rejected = ''Rejected''"

fun is_terminal :: "order_state \<Rightarrow> bool" where
  "is_terminal Filled = True"
| "is_terminal Cancelled = True"
| "is_terminal Rejected = True"
| "is_terminal _ = False"

datatype strategy_id = OpeningRangeBreakout | VwapPullback | MomentumBreakout
  | LiquiditySweepReversal | OptionsOiExpansionBreakout | VolatilityCompressionBreakout
  | CompositeAlphaBreakout

fun strategy_as_u8 :: "strategy_id \<Rightarrow> u8" where
  "strategy_as_u8 OpeningRangeBreakout = 0"
| "strategy_as_u8 VwapPullback = 1"
| "strategy_as_u8 MomentumBreakout = 2"
| "strategy_as_u8 LiquiditySweepReversal = 3"
| "strategy_as_u8 OptionsOiExpansionBreakout = 4"
| "strategy_as_u8 VolatilityCompressionBreakout = 5"
| "strategy_as_u8 CompositeAlphaBreakout = 6"

definition strategy_from_u8 :: "u8 \<Rightarrow> strategy_id option" where
  "strategy_from_u8 b =
     (if b = 0 then Some OpeningRangeBreakout else if b = 1 then Some VwapPullback
      else if b = 2 then Some MomentumBreakout else if b = 3 then Some LiquiditySweepReversal
      else if b = 4 then Some OptionsOiExpansionBreakout
      else if b = 5 then Some VolatilityCompressionBreakout
      else if b = 6 then Some CompositeAlphaBreakout else None)"

datatype rejection_reason = ReasonApproved | SessionClosed | MaxDailyLoss | MaxPosition
  | MaxLeverage | MaxDrawdown | TradeFrequency | MaxExposure | SlippageCooldown
  | VolatilityBlock | BrokerLatencyBlock | ProfitTargetReached | KillSwitchEngaged
  | RegimeBlocked | NewsBlocked | WarModeConfidenceTooLow | AdaptiveRiskZero
  | ReasonInvalidApprovalToken | InternalError

fun reason_as_u8 :: "rejection_reason \<Rightarrow> u8" where
  "reason_as_u8 ReasonApproved = 0"
| "reason_as_u8 SessionClosed = 1"
| "reason_as_u8 MaxDailyLoss = 2"
| "reason_as_u8 MaxPosition = 3"
| "reason_as_u8 MaxLeverage = 4"
| "reason_as_u8 MaxDrawdown = 5"
| "reason_as_u8 TradeFrequency = 6"
| "reason_as_u8 MaxExposure = 7"
| "reason_as_u8 SlippageCooldown = 8"
| "reason_as_u8 VolatilityBlock = 9"
| "reason_as_u8 BrokerLatencyBlock = 10"
| "reason_as_u8 ProfitTargetReached = 11"
| "reason_as_u8 KillSwitchEngaged = 12"
| "reason_as_u8 RegimeBlocked = 13"
| "reason_as_u8 NewsBlocked = 14"
| "reason_as_u8 WarModeConfidenceTooLow = 15"
| "reason_as_u8 AdaptiveRiskZero = 16"
| "reason_as_u8 ReasonInvalidApprovalToken = 17"
| "reason_as_u8 InternalError = 18"

definition reason_from_u8 :: "u8 \<Rightarrow> rejection_reason option" where
  "reason_from_u8 b =
     (if b = 0 then Some ReasonApproved else if b = 1 then Some SessionClosed
      else if b = 2 then Some MaxDailyLoss else if b = 3 then Some MaxPosition
      else if b = 4 then Some MaxLeverage else if b = 5 then Some MaxDrawdown
      else if b = 6 then Some TradeFrequency else if b = 7 then Some MaxExposure
      else if b = 8 then Some SlippageCooldown else if b = 9 then Some VolatilityBlock
      else if b = 10 then Some BrokerLatencyBlock else if b = 11 then Some ProfitTargetReached
      else if b = 12 then Some KillSwitchEngaged else if b = 13 then Some RegimeBlocked
      else if b = 14 then Some NewsBlocked else if b = 15 then Some WarModeConfidenceTooLow
      else if b = 16 then Some AdaptiveRiskZero
      else if b = 17 then Some ReasonInvalidApprovalToken
      else if b = 18 then Some InternalError else None)"

fun stage_as_str :: "stage \<Rightarrow> string" where
  "stage_as_str TickIngest = ''TickIngest''"
| "stage_as_str FeatureExtraction = ''FeatureExtraction''"
| "stage_as_str AiScoringFetch = ''AiScoringFetch''"
| "stage_as_str RiskCheck = ''RiskCheck''"
| "stage_as_str ExecutionRouting = ''ExecutionRouting''"
| "stage_as_str BrokerSubmit = ''BrokerSubmit''"

fun strategy_as_str :: "strategy_id \<Rightarrow> string" where
  "strategy_as_str OpeningRangeBreakout = ''OpeningRangeBreakout''"
| "strategy_as_str VwapPullback = ''VwapPullback''"
| "strategy_as_str MomentumBreakout = ''MomentumBreakout''"
| "strategy_as_str LiquiditySweepReversal = ''LiquiditySweepReversal''"
| "strategy_as_str OptionsOiExpansionBreakout = ''OptionsOiExpansionBreakout''"
| "strategy_as_str VolatilityCompressionBreakout = ''volatility_compression''"
| "strategy_as_str CompositeAlphaBreakout = ''composite_alpha''"

fun reason_as_str :: "rejection_reason \<Rightarrow> string" where
  "reason_as_str ReasonApproved = ''approved''"
| "reason_as_str SessionClosed = ''session_closed''"
| "reason_as_str MaxDailyLoss = ''max_daily_loss''"
| "reason_as_str MaxPosition = ''max_position''"
| "reason_as_str MaxLeverage = ''max_leverage''"
| "reason_as_str MaxDrawdown = ''max_drawdown''"
| "reason_as_str TradeFrequency = ''trade_frequency''"
| "reason_as_str MaxExposure = ''max_exposure''"
| "reason_as_str SlippageCooldown = ''slippage_cooldown''"
| "reason_as_str VolatilityBlock = ''volatility_block''"
| "reason_as_str BrokerLatencyBlock = ''broker_latency_block''"
| "reason_as_str ProfitTargetReached = ''profit_target_reached''"
| "reason_as_str KillSwitchEngaged = ''kill_switch_engaged''"
| "reason_as_str RegimeBlocked = ''regime_blocked''"
| "reason_as_str NewsBlocked = ''news_blocked''"
| "reason_as_str WarModeConfidenceTooLow = ''war_mode_confidence_too_low''"
| "reason_as_str AdaptiveRiskZero = ''adaptive_risk_zero''"
| "reason_as_str ReasonInvalidApprovalToken = ''invalid_approval_token''"
| "reason_as_str InternalError = ''internal_error''"

section \<open>Lemmas\<close>

lemma side_opposite_involutive [simp]: "side_opposite (side_opposite s) = s"
  by (cases s) simp_all

lemma stage_decode_encode: "stage_from_u8 (stage_as_u8 s) = Some s"
  by (cases s) (simp_all add: stage_from_u8_def)

lemma order_state_decode_encode: "order_state_from_u8 (order_state_as_u8 s) = Some s"
  by (cases s) (simp_all add: order_state_from_u8_def)

lemma strategy_decode_encode: "strategy_from_u8 (strategy_as_u8 s) = Some s"
  by (cases s) (simp_all add: strategy_from_u8_def)

lemma reason_decode_encode: "reason_from_u8 (reason_as_u8 r) = Some r"
  by (cases r) (simp_all add: reason_from_u8_def)

lemma stage_encode_decode: "stage_from_u8 b = Some s \<longleftrightarrow> stage_as_u8 s = b"
  by (cases s) (auto simp: stage_from_u8_def split: if_splits)

lemma order_state_encode_decode: "order_state_from_u8 b = Some s \<longleftrightarrow> order_state_as_u8 s = b"
  by (cases s) (auto simp: order_state_from_u8_def split: if_splits)

lemma strategy_encode_decode: "strategy_from_u8 b = Some s \<longleftrightarrow> strategy_as_u8 s = b"
  by (cases s) (auto simp: strategy_from_u8_def split: if_splits)

lemma reason_encode_decode: "reason_from_u8 b = Some r \<longleftrightarrow> reason_as_u8 r = b"
  by (cases r) (auto simp: reason_from_u8_def split: if_splits)

text \<open>Reading a displayed price back: the inverse of \<open>Display\<close>.\<close>

definition px_read :: "string \<Rightarrow> int" where
  "px_read s =
     (let neg = (take 1 s = ''-'');
          body = drop 3 (if neg then drop 1 s else s);
          rupees = read_nat (takeWhile (\<lambda>c. c \<noteq> CHR ''.'') body);
          frac = read_nat (drop 1 (dropWhile (\<lambda>c. c \<noteq> CHR ''.'') body));
          magnitude = int (rupees * 100 + frac)
      in if neg then - magnitude else magnitude)"

lemma digit_not_dot: "d < 10 \<Longrightarrow> digit_char d \<noteq> CHR ''.''"
  using of_digit_char [of d] by auto

lemma show_nat_no_dot: "CHR ''.'' \<notin> set (show_nat n)"
proof (induction n rule: show_nat.induct)
  case (1 n)
  have "digit_char (n mod 10) \<noteq> CHR ''.''" "n < 10 \<Longrightarrow> digit_char n \<noteq> CHR ''.''"
    by (simp_all add: digit_not_dot)
  with 1 show ?case by (subst show_nat.simps) auto
qed

lemma span_show_nat:
  "takeWhile (\<lambda>c. c \<noteq> CHR ''.'') (show_nat n @ CHR ''.'' # r) = show_nat n"
  "dropWhile (\<lambda>c. c \<noteq> CHR ''.'') (show_nat n @ CHR ''.'' # r) = CHR ''.'' # r"
proof -
  have all: "\<And>c. c \<in> set (show_nat n) \<Longrightarrow> c \<noteq> CHR ''.''"
    using show_nat_no_dot by blast
  show "takeWhile (\<lambda>c. c \<noteq> CHR ''.'') (show_nat n @ CHR ''.'' # r) = show_nat n"
    using all by (simp add: takeWhile_append2)
  show "dropWhile (\<lambda>c. c \<noteq> CHR ''.'') (show_nat n @ CHR ''.'' # r) = CHR ''.'' # r"
    using all by (simp add: dropWhile_append2)
qed

lemma read_two_digits:
  "f < 100 \<Longrightarrow> read_nat [digit_char (f div 10), digit_char (f mod 10)] = f"
  by (simp add: read_nat_def of_digit_char)

lemma px_read_body:
  "read_nat (takeWhile (\<lambda>c. c \<noteq> CHR ''.'') (show_nat (m div 100) @ CHR ''.'' # [digit_char (m mod 100 div 10), digit_char (m mod 100 mod 10)])) * 100
   + read_nat (drop 1 (dropWhile (\<lambda>c. c \<noteq> CHR ''.'') (show_nat (m div 100) @ CHR ''.'' # [digit_char (m mod 100 div 10), digit_char (m mod 100 mod 10)]))) = m"
  by (simp only: span_show_nat read_show_nat drop_Suc_Cons drop0 One_nat_def)
    (subst read_two_digits, simp_all)

lemma px_read_px_display: "px_read (px_display p) = p"
proof -
  define m where "m = nat \<bar>p\<bar>"
  define body where "body = show_nat (m div 100) @ CHR ''.'' # [digit_char (m mod 100 div 10), digit_char (m mod 100 mod 10)]"
  have d: "px_display p = (if p < 0 then ''-'' else []) @ rupee_glyph @ body"
    by (simp add: px_display_def Let_def m_def body_def)
  have neg: "take 1 (px_display p) = ''-'' \<longleftrightarrow> p < 0"
    by (simp add: d rupee_glyph_def char_of_def)
  have rest: "drop 3 (if p < 0 then drop 1 (px_display p) else px_display p) = body"
    by (simp add: d rupee_glyph_def)
  have "px_read (px_display p) = (if p < 0 then - int m else int m)"
    using px_read_body [of m] by (simp only: px_read_def Let_def neg rest body_def)
  then show ?thesis by (simp add: m_def)
qed

end
