(* ===== verification/Ring_Window.thy ===== *)
theory Ring_Window
  imports Hedge_Prelude
begin

text \<open>
  \<open>RingWindow<T, N>\<close> of \<open>hedge-core/src/window.rs\<close>: the inline rolling window behind the
  Risk_Engine's frequency counters. The const generic \<open>N\<close> is the length of the backing
  array. The locale \<open>rolling_window\<close> is what a client may rely on; the window implements it
  by refinement to a bounded FIFO list (\<open>fifo_push\<close>).
\<close>

section \<open>The window\<close>

record 'a ring_window =
  rw_buf :: "'a list"
  rw_head :: nat
  rw_len :: nat

text \<open>\<open>new\<close> panics (\<^term>\<open>None\<close>) when \<open>N = 0\<close>; \<open>dflt\<close> is \<open>T::default()\<close>.\<close>

definition rw_new :: "nat \<Rightarrow> 'a \<Rightarrow> 'a ring_window option" where
  "rw_new n dflt =
     (if n = 0 then None else Some \<lparr>rw_buf = replicate n dflt, rw_head = 0, rw_len = 0\<rparr>)"

definition rw_capacity :: "'a ring_window \<Rightarrow> nat" where
  "rw_capacity w = length (rw_buf w)"

definition rw_is_empty :: "'a ring_window \<Rightarrow> bool" where
  "rw_is_empty w \<longleftrightarrow> rw_len w = 0"

definition rw_is_full :: "'a ring_window \<Rightarrow> bool" where
  "rw_is_full w \<longleftrightarrow> rw_len w = rw_capacity w"

definition rw_push :: "'a \<Rightarrow> 'a ring_window \<Rightarrow> 'a ring_window" where
  "rw_push v w =
     (if rw_is_full w
      then w\<lparr>rw_buf := (rw_buf w)[rw_head w := v],
             rw_head := (rw_head w + 1) mod rw_capacity w\<rparr>
      else w\<lparr>rw_buf := (rw_buf w)[(rw_head w + rw_len w) mod rw_capacity w := v],
             rw_len := rw_len w + 1\<rparr>)"

definition rw_clear :: "'a ring_window \<Rightarrow> 'a ring_window" where
  "rw_clear w = w\<lparr>rw_head := 0, rw_len := 0\<rparr>"

definition rw_latest :: "'a ring_window \<Rightarrow> 'a option" where
  "rw_latest w =
     (if rw_is_empty w then None
      else Some (rw_buf w ! ((rw_head w + rw_len w + rw_capacity w - 1) mod rw_capacity w)))"

definition rw_oldest :: "'a ring_window \<Rightarrow> 'a option" where
  "rw_oldest w = (if rw_is_empty w then None else Some (rw_buf w ! rw_head w))"

definition rw_iter :: "'a ring_window \<Rightarrow> 'a list" where
  "rw_iter w =
     (if rw_is_full w then drop (rw_head w) (rw_buf w) @ take (rw_head w) (rw_buf w)
      else take (rw_len w) (drop (rw_head w) (rw_buf w)))"

definition rw_iter_recent :: "nat \<Rightarrow> 'a ring_window \<Rightarrow> 'a list" where
  "rw_iter_recent k w = drop (rw_len w - min k (rw_len w)) (rw_iter w)"

text \<open>Well-formed: while filling, \<open>head\<close> is zero; when full it is a valid index.\<close>

definition rw_ok :: "'a ring_window \<Rightarrow> bool" where
  "rw_ok w \<longleftrightarrow> 0 < rw_capacity w \<and> rw_len w \<le> rw_capacity w \<and> rw_head w < rw_capacity w
     \<and> (rw_len w < rw_capacity w \<longrightarrow> rw_head w = 0)"

section \<open>The contract\<close>

text \<open>The reference: a FIFO list that forgets its oldest element beyond the capacity.\<close>

definition fifo_push :: "nat \<Rightarrow> 'a \<Rightarrow> 'a list \<Rightarrow> 'a list" where
  "fifo_push n v xs = drop (length xs + 1 - n) (xs @ [v])"

definition last_n :: "nat \<Rightarrow> 'a list \<Rightarrow> 'a list" where
  "last_n n xs = drop (length xs - n) xs"

lemma last_n_id [simp]: "length xs \<le> n \<Longrightarrow> last_n n xs = xs"
  by (simp add: last_n_def)

lemma length_last_n: "length (last_n n xs) = min n (length xs)"
  by (simp add: last_n_def)

lemma set_last_n: "set (last_n n xs) \<subseteq> set xs"
  by (simp add: last_n_def set_drop_subset)

lemma fifo_push_last_n: "0 < n \<Longrightarrow> fifo_push n v (last_n n xs) = last_n n (xs @ [v])"
  by (cases "length xs < n") (auto simp: fifo_push_def last_n_def Suc_diff_le)

locale rolling_window =
  fixes cap :: "'w \<Rightarrow> nat"
    and items :: "'w \<Rightarrow> 'a list"
    and push :: "'a \<Rightarrow> 'w \<Rightarrow> 'w"
    and clear :: "'w \<Rightarrow> 'w"
    and ok :: "'w \<Rightarrow> bool"
  assumes ok_push: "ok w \<Longrightarrow> ok (push v w)"
    and ok_clear: "ok w \<Longrightarrow> ok (clear w)"
    and cap_push: "cap (push v w) = cap w"
    and cap_clear: "cap (clear w) = cap w"
    and cap_pos: "ok w \<Longrightarrow> 0 < cap w"
    and items_bound: "ok w \<Longrightarrow> length (items w) \<le> cap w"
    and items_push: "ok w \<Longrightarrow> items (push v w) = fifo_push (cap w) v (items w)"
    and items_clear: "ok w \<Longrightarrow> items (clear w) = []"
begin

lemma push_all:
  "ok w \<Longrightarrow> ok (fold push vs w) \<and> cap (fold push vs w) = cap w
     \<and> items (fold push vs w) = last_n (cap w) (items w @ vs)"
proof (induction vs rule: rev_induct)
  case Nil
  then show ?case by (simp add: items_bound)
next
  case (snoc v vs)
  then show ?case
    using fifo_push_last_n [of "cap w" v "items w @ vs"]
    by (simp add: ok_push cap_push items_push cap_pos)
qed

lemma items_after_clear:
  "ok w \<Longrightarrow> items (fold push vs (clear w)) = last_n (cap w) vs"
  using push_all [of "clear w" vs] by (simp add: ok_clear cap_clear items_clear)

lemma latest_pushed: "ok w \<Longrightarrow> items (push v w) \<noteq> [] \<and> last (items (push v w)) = v"
  using cap_pos [of w] items_bound [of w] by (simp add: items_push fifo_push_def last_drop)

lemma items_push_mem: "ok w \<Longrightarrow> x \<in> set (items (push v w)) \<Longrightarrow> x = v \<or> x \<in> set (items w)"
  using set_drop_subset [of _ "items w @ [v]"] by (fastforce simp: items_push fifo_push_def)

end

section \<open>The window implements the contract\<close>

lemma rw_new_ok: "rw_new n d = Some w \<Longrightarrow> rw_ok w \<and> rw_iter w = [] \<and> rw_capacity w = n"
  by (auto simp: rw_new_def rw_ok_def rw_iter_def rw_is_full_def rw_capacity_def split: if_splits)

lemma rw_capacity_push: "rw_capacity (rw_push v w) = rw_capacity w"
  by (simp add: rw_push_def rw_capacity_def)

lemma rw_ok_push: "rw_ok w \<Longrightarrow> rw_ok (rw_push v w)"
  by (auto simp: rw_push_def rw_ok_def rw_is_full_def rw_capacity_def)

lemma length_rw_iter: "rw_ok w \<Longrightarrow> length (rw_iter w) = rw_len w"
  by (auto simp: rw_iter_def rw_ok_def rw_is_full_def rw_capacity_def)

lemma rw_iter_push_filling:
  assumes "rw_ok w" "\<not> rw_is_full w"
  shows "rw_iter (rw_push v w) = rw_iter w @ [v]"
proof -
  have h: "rw_head w = 0" "rw_len w < length (rw_buf w)"
    using assms by (auto simp: rw_ok_def rw_is_full_def rw_capacity_def)
  then have "take (Suc (rw_len w)) ((rw_buf w)[rw_len w := v]) = take (rw_len w) (rw_buf w) @ [v]"
    by (simp add: take_Suc_conv_app_nth)
  with h assms(2) show ?thesis
    by (auto simp: rw_push_def rw_iter_def rw_is_full_def rw_capacity_def)
qed

lemma rw_iter_push_full:
  assumes "rw_ok w" "rw_is_full w"
  shows "rw_iter (rw_push v w) = tl (rw_iter w) @ [v]"
proof -
  let ?b = "rw_buf w" and ?h = "rw_head w"
  have h: "?h < length ?b" "rw_len w = length ?b"
    using assms by (auto simp: rw_ok_def rw_is_full_def rw_capacity_def)
  have split: "?b[?h := v] = take ?h ?b @ v # drop (Suc ?h) ?b"
    using h by (simp add: upd_conv_take_nth_drop)
  have old: "tl (rw_iter w) = drop (Suc ?h) ?b @ take ?h ?b"
    using assms(2) h by (simp add: rw_iter_def drop_Suc tl_drop Cons_nth_drop_Suc [symmetric])
  show ?thesis
  proof (cases "Suc ?h = length ?b")
    case True
    then show ?thesis
      using assms(2) h old split
      by (simp add: rw_push_def rw_iter_def rw_is_full_def rw_capacity_def)
  next
    case False
    then have sh: "Suc ?h < length ?b" using h by simp
    have "rw_iter (rw_push v w) = drop (Suc ?h) (?b[?h := v]) @ take (Suc ?h) (?b[?h := v])"
      using assms(2) sh by (simp add: rw_push_def rw_iter_def rw_is_full_def rw_capacity_def)
    also have "\<dots> = drop (Suc ?h) ?b @ take ?h ?b @ [v]"
      using sh by (simp add: take_Suc_conv_app_nth)
    finally show ?thesis using old by simp
  qed
qed

lemma rw_iter_push: "rw_ok w \<Longrightarrow> rw_iter (rw_push v w) = fifo_push (rw_capacity w) v (rw_iter w)"
proof (cases "rw_is_full w")
  case True
  assume ok: "rw_ok w"
  then have l: "length (rw_iter w) = rw_capacity w" "rw_iter w \<noteq> []"
    using True length_rw_iter [OF ok] by (auto simp: rw_is_full_def rw_ok_def)
  have "0 < rw_capacity w" using ok by (simp add: rw_ok_def)
  with l show ?thesis
    using rw_iter_push_full [OF ok True] l by (simp add: fifo_push_def drop_Suc)
next
  case False
  assume ok: "rw_ok w"
  then have "length (rw_iter w) < rw_capacity w"
    using False length_rw_iter [OF ok] by (auto simp: rw_is_full_def rw_ok_def)
  then show ?thesis
    using rw_iter_push_filling [OF ok False] by (simp add: fifo_push_def)
qed

lemma rw_clear_ok:
  "rw_capacity (rw_clear w) = rw_capacity w"
  "rw_ok w \<Longrightarrow> rw_ok (rw_clear w)"
  "rw_ok w \<Longrightarrow> rw_iter (rw_clear w) = []"
  by (auto simp: rw_clear_def rw_ok_def rw_capacity_def rw_iter_def rw_is_full_def)

lemma rw_ok_bounds: "rw_ok w \<Longrightarrow> 0 < rw_capacity w" "rw_ok w \<Longrightarrow> rw_len w \<le> rw_capacity w"
  by (auto simp: rw_ok_def)

interpretation rw: rolling_window rw_capacity rw_iter rw_push rw_clear rw_ok
  by unfold_locales
    (simp_all only: rw_ok_push rw_capacity_push rw_iter_push length_rw_iter rw_clear_ok rw_ok_bounds)

lemma rw_latest_last: "rw_ok w \<Longrightarrow> rw_latest w = (if rw_iter w = [] then None else Some (last (rw_iter w)))"
proof -
  assume ok: "rw_ok w"
  let ?b = "rw_buf w" and ?h = "rw_head w" and ?n = "rw_capacity w"
  have e: "rw_is_empty w \<longleftrightarrow> rw_iter w = []"
    using length_rw_iter [OF ok] by (auto simp: rw_is_empty_def)
  have "rw_buf w ! ((?h + rw_len w + ?n - 1) mod ?n) = last (rw_iter w)" if ne: "rw_iter w \<noteq> []"
  proof (cases "rw_is_full w")
    case True
    have "(?h + rw_len w + ?n - 1) mod ?n = (?h + ?n - 1) mod ?n"
    proof -
      have "?h + rw_len w + ?n - 1 = (?h + ?n - 1) + ?n"
        using True ok by (simp add: rw_is_full_def rw_ok_def)
      then show ?thesis by simp
    qed
    also have "\<dots> = (if ?h = 0 then ?n - 1 else ?h - 1)"
      using ok by (auto simp: rw_ok_def mod_if)
    finally show ?thesis
      using True ok by (auto simp: rw_iter_def rw_ok_def rw_capacity_def last_conv_nth min_def nth_append)
  next
    case False
    then have "?h = 0" "rw_len w < ?n" using ok by (auto simp: rw_ok_def rw_is_full_def)
    moreover have "0 < rw_len w" using ne length_rw_iter [OF ok] by (cases "rw_len w") auto
    moreover from calculation have "(rw_len w + ?n - 1) mod ?n = rw_len w - 1"
      by (simp add: mod_if)
    ultimately show ?thesis
      using False ne by (simp add: rw_iter_def last_conv_nth rw_capacity_def min_def)
  qed
  with e show ?thesis by (simp add: rw_latest_def)
qed

lemma rw_oldest_hd: "rw_ok w \<Longrightarrow> rw_oldest w = (if rw_iter w = [] then None else Some (hd (rw_iter w)))"
  using length_rw_iter [of w]
  by (auto simp: rw_oldest_def rw_is_empty_def rw_iter_def rw_ok_def rw_capacity_def rw_is_full_def
      hd_append hd_drop_conv_nth hd_conv_nth [symmetric])

lemma rw_iter_recent_last_n: "rw_ok w \<Longrightarrow> rw_iter_recent k w = last_n k (rw_iter w)"
  by (simp add: rw_iter_recent_def last_n_def length_rw_iter min_def)

end
