(* ===== verification/Ordered_Map.thy ===== *)
theory Ordered_Map
  imports Hedge_Prelude
begin

text \<open>
  The standard library's \<open>BTreeMap\<close>: a finite map whose iteration order is the order of
  the keys, modelled as an association list with strictly increasing keys (\<open>bt_ok\<close>).
  \<open>bt_get\<close>, \<open>bt_insert\<close>, \<open>bt_remove\<close> are \<open>get\<close>, \<open>insert\<close>, \<open>remove\<close>; the list
  itself is the iteration. The locale \<open>key_value\<close> is the contract the clients use.
\<close>

type_synonym ('k, 'v) btree = "('k \<times> 'v) list"

definition bt_ok :: "('k::linorder, 'v) btree \<Rightarrow> bool" where
  "bt_ok m \<longleftrightarrow> sorted_wrt (<) (map fst m)"

definition bt_get :: "('k, 'v) btree \<Rightarrow> 'k \<Rightarrow> 'v option" where
  "bt_get m k = map_of m k"

fun bt_insert :: "'k::linorder \<Rightarrow> 'v \<Rightarrow> ('k, 'v) btree \<Rightarrow> ('k, 'v) btree" where
  "bt_insert k v [] = [(k, v)]"
| "bt_insert k v (e # m) =
     (if k < fst e then (k, v) # e # m
      else if fst e < k then e # bt_insert k v m
      else (k, v) # m)"

definition bt_remove :: "'k \<Rightarrow> ('k, 'v) btree \<Rightarrow> ('k, 'v) btree" where
  "bt_remove k m = filter (\<lambda>e. fst e \<noteq> k) m"

definition bt_keys :: "('k, 'v) btree \<Rightarrow> 'k list" where
  "bt_keys m = map fst m"

lemma bt_ok_Nil [simp]: "bt_ok []"
  by (simp add: bt_ok_def)

lemma bt_ok_Cons: "bt_ok (e # m) \<longleftrightarrow> bt_ok m \<and> (\<forall>x \<in> set m. fst e < fst x)"
  by (auto simp: bt_ok_def)

lemma bt_ok_distinct: "bt_ok m \<Longrightarrow> distinct (map fst m)"
  by (simp add: bt_ok_def strict_sorted_iff)

lemma set_bt_insert_subset: "set (bt_insert k v m) \<subseteq> insert (k, v) (set m)"
  by (induction m) auto

lemma bt_ok_insert: "bt_ok m \<Longrightarrow> bt_ok (bt_insert k v m)"
proof (induction m)
  case Nil
  then show ?case by (simp add: bt_ok_Cons)
next
  case (Cons e m)
  have sub: "set (bt_insert k v m) \<subseteq> insert (k, v) (set m)"
    by (rule set_bt_insert_subset)
  from Cons show ?case
    using sub by (force simp: bt_ok_Cons)
qed

lemma bt_ok_filter: "bt_ok m \<Longrightarrow> bt_ok (filter P m)"
  by (induction m) (auto simp: bt_ok_Cons)

lemma bt_ok_remove: "bt_ok m \<Longrightarrow> bt_ok (bt_remove k m)"
  by (simp add: bt_remove_def bt_ok_filter)

lemma bt_get_Nil [simp]: "bt_get [] k = None"
  by (simp add: bt_get_def)

lemma bt_get_notin: "k \<notin> fst ` set m \<Longrightarrow> bt_get m k = None"
  by (force simp: bt_get_def map_of_eq_None_iff)

lemma bt_get_insert: "bt_ok m \<Longrightarrow> bt_get (bt_insert k v m) k' = (if k' = k then Some v else bt_get m k')"
proof (induction m)
  case Nil
  then show ?case by (auto simp: bt_get_def)
next
  case (Cons e m)
  then show ?case by (cases e) (auto simp: bt_get_def bt_ok_Cons)
qed

lemma bt_get_remove: "bt_get (bt_remove k m) k' = (if k' = k then None else bt_get m k')"
  by (induction m) (auto simp: bt_get_def bt_remove_def)

lemma bt_get_SomeD: "bt_get m k = Some v \<Longrightarrow> (k, v) \<in> set m"
  by (auto simp: bt_get_def dest: map_of_SomeD)

lemma bt_get_Some_iff: "bt_ok m \<Longrightarrow> bt_get m k = Some v \<longleftrightarrow> (k, v) \<in> set m"
  by (simp add: bt_get_def bt_ok_distinct)

lemma bt_get_filter_keys:
  "bt_ok m \<Longrightarrow> bt_get (filter P m) k =
     (case bt_get m k of None \<Rightarrow> None | Some v \<Rightarrow> if P (k, v) then Some v else None)"
proof (induction m)
  case Nil
  then show ?case by simp
next
  case (Cons e m)
  have "bt_get m (fst e) = None"
    using Cons.prems by (intro bt_get_notin) (auto simp: bt_ok_Cons)
  with Cons show ?case
    by (cases e) (auto simp: bt_get_def bt_ok_Cons split: option.splits)
qed

section \<open>The contract of a keyed store\<close>

locale key_value =
  fixes empty :: 'm
    and get :: "'m \<Rightarrow> 'k \<Rightarrow> 'v option"
    and ins :: "'k \<Rightarrow> 'v \<Rightarrow> 'm \<Rightarrow> 'm"
    and del :: "'k \<Rightarrow> 'm \<Rightarrow> 'm"
    and ok :: "'m \<Rightarrow> bool"
  assumes ok_empty: "ok empty"
    and get_empty: "get empty k = None"
    and ok_ins: "ok m \<Longrightarrow> ok (ins k v m)"
    and ok_del: "ok m \<Longrightarrow> ok (del k m)"
    and get_ins: "ok m \<Longrightarrow> get (ins k v m) k' = (if k' = k then Some v else get m k')"
    and get_del: "ok m \<Longrightarrow> get (del k m) k' = (if k' = k then None else get m k')"
begin

text \<open>Removing a list of keys one after the other, as the loops of the clients do.\<close>

lemma ok_fold_del: "ok m \<Longrightarrow> ok (fold del ks m)"
  by (induction ks arbitrary: m) (simp_all add: ok_del)

lemma get_fold_del:
  "ok m \<Longrightarrow> get (fold del ks m) k = (if k \<in> set ks then None else get m k)"
proof (induction ks arbitrary: m)
  case Nil
  then show ?case by simp
next
  case (Cons a ks)
  then show ?case by (simp add: ok_del get_del)
qed

lemma get_ins_ins: "ok m \<Longrightarrow> get (ins k v (ins k u m)) j = get (ins k v m) j"
  by (simp add: ok_ins get_ins)

lemma get_ins_commute:
  "ok m \<Longrightarrow> k \<noteq> l \<Longrightarrow> get (ins k v (ins l u m)) j = get (ins l u (ins k v m)) j"
  by (auto simp: ok_ins get_ins)

end

interpretation bt: key_value "[]" bt_get bt_insert bt_remove bt_ok
  by unfold_locales (simp_all add: bt_ok_insert bt_ok_remove bt_get_insert bt_get_remove)

lemmas bt_simps = bt_ok_insert bt_ok_remove bt_get_insert bt_get_remove

end
