(* ===== verification/Hedge_Float.thy ===== *)
theory Hedge_Float
  imports Hedge_Prelude
begin

text \<open>
  The floating-point types \<open>f32\<close> and \<open>f64\<close> of the language, as the sources use them: a
  value is not-a-number, an infinity or a finite rational, an operation computes the exact
  rational result and rounds it to nearest, ties to even, in its format (24 or 53 bits of
  precision, subnormals included, overflow to infinity). The two zeros are one value: no
  modelled code divides by a float that can be zero or inspects the sign of a zero.
  Everything is executable. The lemmas are the ones the components need: rounding is
  exact on representable values, monotone, and within half a unit of the last place.
\<close>

datatype flt = NaN | PInf | NInf | Fin rat

datatype ffmt = F32 | F64

fun prec :: "ffmt \<Rightarrow> int" where
  "prec F32 = 24"
| "prec F64 = 53"

fun emin :: "ffmt \<Rightarrow> int" where
  "emin F32 = - 149"
| "emin F64 = - 1074"

fun ftop :: "ffmt \<Rightarrow> rat" where
  "ftop F32 = (2 ^ 24 - 1) * 2 ^ 104"
| "ftop F64 = (2 ^ 53 - 1) * 2 ^ 971"

section \<open>Binary exponents\<close>

fun nlog2 :: "nat \<Rightarrow> nat" where
  "nlog2 n = (if n \<le> 1 then 0 else Suc (nlog2 (n div 2)))"

declare nlog2.simps [simp del]

definition clog2 :: "nat \<Rightarrow> nat" where
  "clog2 n = (if n \<le> 1 then 0 else Suc (nlog2 (n - 1)))"

definition ilog2 :: "rat \<Rightarrow> int" where
  "ilog2 q = (if 1 \<le> q then int (nlog2 (nat \<lfloor>q\<rfloor>)) else - int (clog2 (nat \<lceil>1 / q\<rceil>)))"

abbreviation pow2 :: "int \<Rightarrow> rat" where
  "pow2 e \<equiv> 2 powi e"

lemma pow2_pos [simp]: "0 < pow2 e"
  by simp

lemma pow2_add: "pow2 (a + b) = pow2 a * pow2 b"
  by (simp add: power_int_add)

lemma pow2_mono: "a \<le> b \<Longrightarrow> pow2 a \<le> pow2 b"
  by (simp add: power_int_increasing)

lemma pow2_less_iff [simp]: "pow2 a < pow2 b \<longleftrightarrow> a < b"
proof
  assume "pow2 a < pow2 b"
  then show "a < b" using pow2_mono [of b a] by (meson not_less)
next
  assume "a < b"
  then have "pow2 (a + 1) \<le> pow2 b" by (intro pow2_mono) simp
  then have "pow2 a * 2 \<le> pow2 b" by (simp add: pow2_add)
  then show "pow2 a < pow2 b" using pow2_pos [of a] by linarith
qed

lemma pow2_int: "0 \<le> e \<Longrightarrow> \<exists>k. pow2 e = of_int k"
proof -
  assume "0 \<le> e"
  then have "pow2 e = of_int (2 ^ nat e)"
    by (simp add: power_int_def)
  then show ?thesis by blast
qed

lemma nlog2_bounds: "0 < n \<Longrightarrow> 2 ^ nlog2 n \<le> n \<and> n < 2 ^ Suc (nlog2 n)"
proof (induction n rule: nlog2.induct)
  case (1 n)
  show ?case
  proof (cases "n \<le> 1")
    case True
    with 1 show ?thesis by (subst (1 2) nlog2.simps) simp
  next
    case False
    then have "0 < n div 2" by simp
    with False 1 have ih: "2 ^ nlog2 (n div 2) \<le> n div 2" "n div 2 < 2 ^ Suc (nlog2 (n div 2))"
      by blast+
    have "nlog2 n = Suc (nlog2 (n div 2))"
      using False by (subst nlog2.simps) simp
    moreover have "2 * (n div 2) \<le> n" "n < 2 * (n div 2) + 2" by linarith+
    ultimately show ?thesis using ih by (simp only: power_Suc) linarith
  qed
qed

lemma clog2_bounds: "1 < n \<Longrightarrow> 2 ^ (clog2 n - 1) < n \<and> n \<le> 2 ^ clog2 n \<and> 0 < clog2 n"
proof -
  assume "1 < n"
  then have "0 < n - 1" by simp
  from nlog2_bounds [OF this] have "2 ^ nlog2 (n - 1) \<le> n - 1" "n - 1 < 2 ^ Suc (nlog2 (n - 1))"
    by blast+
  moreover have "clog2 n = Suc (nlog2 (n - 1))" using \<open>1 < n\<close> by (simp add: clog2_def)
  ultimately show ?thesis using \<open>1 < n\<close> by (simp only: diff_Suc_1) linarith
qed

lemma ilog2_ge_one:
  assumes "1 \<le> q"
  shows "pow2 (ilog2 q) \<le> q" "q < pow2 (ilog2 q + 1)"
proof -
  define n where "n = nat \<lfloor>q\<rfloor>"
  have n1: "1 \<le> \<lfloor>q\<rfloor>" using assms by simp
  then have n: "0 < n" and nq: "of_int \<lfloor>q\<rfloor> = (of_nat n :: rat)"
    by (auto simp: n_def)
  have b: "2 ^ nlog2 n \<le> n" "n + 1 \<le> 2 ^ Suc (nlog2 n)"
    using nlog2_bounds [OF n] by auto
  have i: "ilog2 q = int (nlog2 n)" using assms by (simp add: ilog2_def n_def)
  have "(2 ^ nlog2 n :: rat) = of_nat (2 ^ nlog2 n)" by simp
  also have "\<dots> \<le> of_nat n" using b(1) by (simp only: of_nat_le_iff)
  also have "\<dots> \<le> q" using nq of_int_floor_le [of q] by simp
  finally show "pow2 (ilog2 q) \<le> q" by (simp add: i)
  have "q < of_int (\<lfloor>q\<rfloor> + 1)" by linarith
  also have "\<dots> = of_nat (n + 1)" using nq by simp
  also have "\<dots> \<le> of_nat (2 ^ Suc (nlog2 n))" using b(2) by (simp only: of_nat_le_iff)
  finally have "q < 2 ^ Suc (nlog2 n)" by simp
  moreover have "pow2 (ilog2 q + 1) = 2 ^ Suc (nlog2 n)"
    by (simp add: i power_int_add)
  ultimately show "q < pow2 (ilog2 q + 1)" by simp
qed

lemma ilog2_lt_one:
  assumes "0 < q" "q < 1"
  shows "pow2 (ilog2 q) \<le> q" "q < pow2 (ilog2 q + 1)"
proof -
  define n where "n = nat \<lceil>1 / q\<rceil>"
  have q1: "1 < 1 / q" using assms by simp
  then have c: "1 < \<lceil>1 / q\<rceil>" by (simp add: less_ceiling_iff)
  then have n: "1 < n" and nq: "of_int \<lceil>1 / q\<rceil> = (of_nat n :: rat)"
    by (auto simp: n_def)
  have b: "2 ^ (clog2 n - 1) \<le> n - 1" "n \<le> 2 ^ clog2 n" "0 < clog2 n"
    using clog2_bounds [OF n] by auto
  have i: "ilog2 q = - int (clog2 n)" using assms by (simp add: ilog2_def n_def)
  have "1 / q \<le> of_nat n" using nq le_of_int_ceiling [of "1 / q"] by simp
  also have "\<dots> \<le> of_nat (2 ^ clog2 n)" using b(2) by (simp only: of_nat_le_iff)
  finally have "1 / q \<le> 2 ^ clog2 n" by simp
  then have "1 / 2 ^ clog2 n \<le> q" using assms by (simp add: field_simps)
  then show "pow2 (ilog2 q) \<le> q" by (simp add: i power_int_minus_divide)
  have "(2 ^ (clog2 n - 1) :: rat) = of_nat (2 ^ (clog2 n - 1))" by simp
  also have "\<dots> \<le> of_nat (n - 1)" using b(1) by (simp only: of_nat_le_iff)
  also have "\<dots> = of_int (\<lceil>1 / q\<rceil> - 1)" using n nq by (simp add: of_nat_diff)
  also have "\<dots> < 1 / q" by linarith
  finally have "q < 1 / 2 ^ (clog2 n - 1)" using assms by (simp add: field_simps)
  moreover have "ilog2 q + 1 = - int (clog2 n - 1)" using b(3) by (simp add: i)
  ultimately show "q < pow2 (ilog2 q + 1)" by (simp add: power_int_minus_divide)
qed

lemma ilog2_bounds:
  assumes "0 < q"
  shows "pow2 (ilog2 q) \<le> q" "q < pow2 (ilog2 q + 1)"
  using assms ilog2_ge_one [of q] ilog2_lt_one [of q] by (cases "1 \<le> q"; simp)+

lemma ilog2_mono: "0 < p \<Longrightarrow> p \<le> q \<Longrightarrow> ilog2 p \<le> ilog2 q"
proof -
  assume "0 < p" "p \<le> q"
  then have "pow2 (ilog2 p) < pow2 (ilog2 q + 1)"
    using ilog2_bounds [of p] ilog2_bounds [of q] by linarith
  then show ?thesis by simp
qed

lemma ilog2_less: "0 < q \<Longrightarrow> q < pow2 e \<Longrightarrow> ilog2 q < e"
proof -
  assume "0 < q" "q < pow2 e"
  then have "pow2 (ilog2 q) < pow2 e" using ilog2_bounds(1) [of q] by linarith
  then show ?thesis by simp
qed

section \<open>Rounding to nearest, ties to even\<close>

definition rne :: "rat \<Rightarrow> int" where
  "rne x = (let f = \<lfloor>x\<rfloor>; d = x - of_int f
            in if d < 1 / 2 then f else if 1 / 2 < d then f + 1 else if even f then f else f + 1)"

definition ulp_exp :: "ffmt \<Rightarrow> rat \<Rightarrow> int" where
  "ulp_exp fmt q = max (emin fmt) (ilog2 \<bar>q\<bar> - prec fmt + 1)"

definition rnd_rat :: "ffmt \<Rightarrow> rat \<Rightarrow> rat" where
  "rnd_rat fmt q = (if q = 0 then 0 else
     (let u = pow2 (ulp_exp fmt q) in of_int (rne (q / u)) * u))"

definition rnd :: "ffmt \<Rightarrow> rat \<Rightarrow> flt" where
  "rnd fmt q = (let r = rnd_rat fmt q in
     if r > ftop fmt then PInf else if r < - ftop fmt then NInf else Fin r)"

lemma rne_of_int [simp]: "rne (of_int n) = n"
  by (simp add: rne_def)

lemma rne_bounds: "\<lfloor>x\<rfloor> \<le> rne x" "rne x \<le> \<lfloor>x\<rfloor> + 1"
  by (simp_all add: rne_def Let_def)

lemma rne_error: "\<bar>of_int (rne x) - x\<bar> \<le> 1 / 2"
proof -
  have "of_int \<lfloor>x\<rfloor> \<le> x" "x < of_int \<lfloor>x\<rfloor> + 1" by linarith+
  then show ?thesis by (simp add: rne_def Let_def)
qed

lemma rne_mono: "x \<le> y \<Longrightarrow> rne x \<le> rne y"
proof -
  assume xy: "x \<le> y"
  then have "\<lfloor>x\<rfloor> \<le> \<lfloor>y\<rfloor>" by (rule floor_mono)
  then consider "\<lfloor>x\<rfloor> + 1 \<le> \<lfloor>y\<rfloor>" | "\<lfloor>x\<rfloor> = \<lfloor>y\<rfloor>" by linarith
  then show ?thesis
  proof cases
    case 1
    then show ?thesis using rne_bounds [of x] rne_bounds [of y] by linarith
  next
    case 2
    with xy show ?thesis by (simp add: rne_def Let_def)
  qed
qed

lemma rne_minus: "rne (- x) = - rne x"
proof (cases "x = of_int \<lfloor>x\<rfloor>")
  case True
  then have "rne x = \<lfloor>x\<rfloor>" "rne (- x) = - \<lfloor>x\<rfloor>"
    by (metis rne_of_int, metis of_int_minus rne_of_int)
  then show ?thesis by simp
next
  case False
  have "\<lfloor>- x\<rfloor> = - \<lfloor>x\<rfloor> - 1"
  proof -
    have "of_int \<lfloor>x\<rfloor> < x" "x < of_int \<lfloor>x\<rfloor> + 1" using False by linarith+
    then show ?thesis by (intro floor_unique) auto
  qed
  then show ?thesis by (auto simp: rne_def Let_def)
qed

lemma rnd_rat_zero [simp]: "rnd_rat fmt 0 = 0"
  by (simp add: rnd_rat_def)

lemma ulp_exp_minus [simp]: "ulp_exp fmt (- q) = ulp_exp fmt q"
  by (simp add: ulp_exp_def)

lemma rnd_rat_minus: "rnd_rat fmt (- q) = - rnd_rat fmt q"
proof -
  have "rne (- (q / u)) = - rne (q / u)" for u by (rule rne_minus)
  then show ?thesis by (simp add: rnd_rat_def Let_def)
qed

lemma prec_ge: "24 \<le> prec fmt" and emin_le: "emin fmt \<le> - 149"
  by (cases fmt; simp)+

lemma rnd_rat_error: "\<bar>rnd_rat fmt q - q\<bar> \<le> pow2 (ulp_exp fmt q) / 2"
proof (cases "q = 0")
  case True
  then show ?thesis by simp
next
  case False
  define u where "u = pow2 (ulp_exp fmt q)"
  have u: "0 < u" by (simp add: u_def)
  have "rnd_rat fmt q - q = (of_int (rne (q / u)) - q / u) * u"
    using False u by (simp add: rnd_rat_def Let_def u_def field_simps)
  then have "\<bar>rnd_rat fmt q - q\<bar> = \<bar>of_int (rne (q / u)) - q / u\<bar> * u"
    using u by (simp add: abs_mult)
  also have "\<dots> \<le> (1 / 2) * u"
    using rne_error [of "q / u"] u by (intro mult_right_mono) auto
  finally show ?thesis by (simp add: u_def)
qed

subsection \<open>Representable values\<close>

text \<open>A value with at most \<open>prec\<close> significant bits above the least exponent is a fixed point.\<close>

lemma rnd_rat_exact_aux:
  assumes "q = of_int k * pow2 e" "emin fmt \<le> e" "\<bar>of_int k\<bar> < pow2 (prec fmt)"
  shows "rnd_rat fmt q = q"
proof (cases "q = 0")
  case True
  then show ?thesis by simp
next
  case False
  have "\<bar>q\<bar> = \<bar>of_int k\<bar> * pow2 e" by (simp add: assms(1) abs_mult)
  also have "\<dots> < pow2 (prec fmt) * pow2 e" using assms(3) by simp
  finally have "\<bar>q\<bar> < pow2 (prec fmt + e)" by (simp add: pow2_add)
  then have "ilog2 \<bar>q\<bar> < prec fmt + e" using False by (intro ilog2_less) auto
  then have le: "ulp_exp fmt q \<le> e" using assms(2) by (simp add: ulp_exp_def)
  then obtain j where j: "pow2 (e - ulp_exp fmt q) = of_int j"
    using pow2_int [of "e - ulp_exp fmt q"] by auto
  define u where "u = pow2 (ulp_exp fmt q)"
  have "pow2 e = of_int j * u"
    using j pow2_add [of "e - ulp_exp fmt q" "ulp_exp fmt q"] by (simp add: u_def)
  then have qu: "q = of_int (k * j) * u" by (simp add: assms(1))
  have u: "0 < u" by (simp add: u_def)
  have "q / u = of_int (k * j)" by (subst qu) (use u in simp)
  then have "rne (q / u) = k * j" by (metis rne_of_int)
  moreover have "rnd_rat fmt q = of_int (rne (q / u)) * u"
    using False by (simp add: rnd_rat_def Let_def u_def)
  ultimately show ?thesis using qu by simp
qed

lemma rnd_rat_exact:
  assumes "q = of_int k * pow2 e" "emin fmt \<le> e" "\<bar>of_int k\<bar> \<le> pow2 (prec fmt)"
  shows "rnd_rat fmt q = q"
proof (cases "\<bar>of_int k\<bar> < pow2 (prec fmt)")
  case True
  with assms show ?thesis by (intro rnd_rat_exact_aux)
next
  case False
  define h where "h = sgn k * 2 ^ nat (prec fmt - 1)"
  have p: "1 \<le> prec fmt" using prec_ge [of fmt] by simp
  have "pow2 (prec fmt) = 2 * pow2 (prec fmt - 1)"
    using pow2_add [of 1 "prec fmt - 1"] by simp
  moreover have "pow2 (prec fmt - 1) = of_int (2 ^ nat (prec fmt - 1))"
    using p by (simp add: power_int_def)
  ultimately have "\<bar>of_int k\<bar> = (2 * of_int (2 ^ nat (prec fmt - 1)) :: rat)"
    using False assms(3) by linarith
  then have "of_int \<bar>k\<bar> = (of_int (2 * 2 ^ nat (prec fmt - 1)) :: rat)"
    by simp
  then have "\<bar>k\<bar> = 2 * 2 ^ nat (prec fmt - 1)"
    by (simp only: of_int_eq_iff)
  then have "k = 2 * h" unfolding h_def by (metis mult.left_commute mult_sgn_abs)
  then have q: "q = of_int h * pow2 (e + 1)" by (simp add: assms(1) pow2_add)
  have "\<bar>h\<bar> \<le> 2 ^ nat (prec fmt - 1)" by (simp add: h_def abs_mult abs_sgn_eq)
  then have "\<bar>of_int h\<bar> \<le> (of_int (2 ^ nat (prec fmt - 1)) :: rat)"
    by (metis of_int_abs of_int_le_iff)
  also have "\<dots> = pow2 (prec fmt - 1)" using p by (simp add: power_int_def)
  also have "\<dots> < pow2 (prec fmt)" by simp
  finally show ?thesis using q assms(2) by (intro rnd_rat_exact_aux [where k = h and e = "e + 1"]) auto
qed

text \<open>Integers of at most \<open>2^24\<close> (or \<open>2^53\<close>) are exact.\<close>

lemma rnd_rat_int: "\<bar>of_int n\<bar> \<le> pow2 (prec fmt) \<Longrightarrow> rnd_rat fmt (of_int n) = of_int n"
  using emin_le [of fmt] by (intro rnd_rat_exact [where e = 0]) auto

lemma rnd_F64_int: "\<bar>n\<bar> \<le> 9007199254740992 \<Longrightarrow> rnd F64 (of_int n) = Fin (of_int n)"
proof -
  assume n: "\<bar>n\<bar> \<le> 9007199254740992"
  then have "of_int \<bar>n\<bar> \<le> (of_int 9007199254740992 :: rat)" by (simp only: of_int_le_iff)
  then have b: "\<bar>of_int n\<bar> \<le> (9007199254740992 :: rat)" by simp
  then have "rnd_rat F64 (of_int n) = of_int n" by (intro rnd_rat_int) simp
  moreover have "(9007199254740992 :: rat) \<le> ftop F64" by simp
  ultimately show ?thesis using b unfolding rnd_def Let_def by (simp del: ftop.simps) linarith
qed

lemma rnd_F64_zero [simp]: "rnd F64 0 = Fin 0"
  using rnd_F64_int [of 0] by simp

subsection \<open>Monotonicity\<close>

lemma rnd_rat_nonneg: "0 \<le> q \<Longrightarrow> 0 \<le> rnd_rat fmt q"
proof -
  assume "0 \<le> q"
  then have "0 \<le> rne (q / pow2 (ulp_exp fmt q))"
    using rne_mono [of 0 "q / pow2 (ulp_exp fmt q)"] rne_of_int [of 0] by simp
  then show ?thesis by (simp add: rnd_rat_def Let_def)
qed

text \<open>Rounding does not leave the binade: powers of two are fixed points on either side.\<close>

lemma rnd_rat_le_pow2:
  assumes "0 < q" "q \<le> pow2 e" "ulp_exp fmt q \<le> e"
  shows "rnd_rat fmt q \<le> pow2 e"
proof -
  define u where "u = pow2 (ulp_exp fmt q)"
  have u: "0 < u" by (simp add: u_def)
  obtain j where "pow2 (e - ulp_exp fmt q) = of_int j"
    using assms(3) pow2_int [of "e - ulp_exp fmt q"] by auto
  then have j: "pow2 e = of_int j * u"
    using pow2_add [of "e - ulp_exp fmt q" "ulp_exp fmt q"] by (simp add: u_def)
  have "q / u \<le> of_int j" using assms(2) j u by (simp add: field_simps)
  then have "rne (q / u) \<le> j" using rne_mono [of "q / u" "of_int j"] by simp
  then have "of_int (rne (q / u)) * u \<le> of_int j * u" using u by simp
  then show ?thesis using assms(1) j by (simp add: rnd_rat_def Let_def u_def)
qed

lemma rnd_rat_ge_pow2:
  assumes "0 < q" "pow2 e \<le> q" "ulp_exp fmt q \<le> e"
  shows "pow2 e \<le> rnd_rat fmt q"
proof -
  define u where "u = pow2 (ulp_exp fmt q)"
  have u: "0 < u" by (simp add: u_def)
  obtain j where "pow2 (e - ulp_exp fmt q) = of_int j"
    using assms(3) pow2_int [of "e - ulp_exp fmt q"] by auto
  then have j: "pow2 e = of_int j * u"
    using pow2_add [of "e - ulp_exp fmt q" "ulp_exp fmt q"] by (simp add: u_def)
  have "of_int j \<le> q / u" using assms(2) j u by (simp add: field_simps)
  then have "j \<le> rne (q / u)" using rne_mono [of "of_int j" "q / u"] by simp
  then have "of_int j * u \<le> of_int (rne (q / u)) * u" using u by simp
  then show ?thesis using assms(1) j by (simp add: rnd_rat_def Let_def u_def)
qed

lemma rnd_rat_mono_pos:
  assumes "0 < p" "p \<le> q"
  shows "rnd_rat fmt p \<le> rnd_rat fmt q"
proof -
  have le: "ulp_exp fmt p \<le> ulp_exp fmt q"
    using assms ilog2_mono [of p q] by (simp add: ulp_exp_def)
  show ?thesis
  proof (cases "ulp_exp fmt p = ulp_exp fmt q")
    case True
    then have "rne (p / pow2 (ulp_exp fmt q)) \<le> rne (q / pow2 (ulp_exp fmt q))"
      using assms by (intro rne_mono divide_right_mono) auto
    with assms True show ?thesis by (simp add: rnd_rat_def Let_def)
  next
    case False
    with le have q: "ulp_exp fmt q = ilog2 q - prec fmt + 1" "emin fmt < ulp_exp fmt q"
      using assms by (auto simp: ulp_exp_def max_def split: if_splits)
    have lt: "ulp_exp fmt p < ulp_exp fmt q" using False le by simp
    then have pq: "ilog2 p < ilog2 q" using assms q by (simp add: ulp_exp_def)
    have uq: "ulp_exp fmt q \<le> ilog2 q" using q prec_ge [of fmt] by simp
    have "p \<le> pow2 (ilog2 q)"
      using ilog2_bounds(2) [OF assms(1)] pow2_mono [of "ilog2 p + 1" "ilog2 q"] pq by linarith
    then have "rnd_rat fmt p \<le> pow2 (ilog2 q)"
      using assms lt uq by (intro rnd_rat_le_pow2) auto
    also have "\<dots> \<le> rnd_rat fmt q"
      using assms uq ilog2_bounds(1) [of q] by (intro rnd_rat_ge_pow2) auto
    finally show ?thesis .
  qed
qed

lemma rnd_rat_mono: "p \<le> q \<Longrightarrow> rnd_rat fmt p \<le> rnd_rat fmt q"
proof -
  assume pq: "p \<le> q"
  consider "0 < p" | "p \<le> 0" "0 \<le> q" | "q < 0" by linarith
  then show ?thesis
  proof cases
    case 1
    with pq show ?thesis by (intro rnd_rat_mono_pos)
  next
    case 2
    then have "0 \<le> rnd_rat fmt (- p)" "0 \<le> rnd_rat fmt q" by (auto intro: rnd_rat_nonneg)
    then show ?thesis by (simp add: rnd_rat_minus)
  next
    case 3
    with pq have "rnd_rat fmt (- q) \<le> rnd_rat fmt (- p)" by (intro rnd_rat_mono_pos) auto
    then show ?thesis by (simp add: rnd_rat_minus)
  qed
qed

section \<open>Operations\<close>

definition is_flt :: "ffmt \<Rightarrow> flt \<Rightarrow> bool" where
  "is_flt fmt x = (case x of Fin q \<Rightarrow> rnd fmt q = Fin q | _ \<Rightarrow> True)"

definition is_finite_flt :: "flt \<Rightarrow> bool" where
  "is_finite_flt x = (case x of Fin _ \<Rightarrow> True | _ \<Rightarrow> False)"

text \<open>\<open>a < b\<close> and \<open>a <= b\<close>; a comparison with NaN is false.\<close>

fun flt_lt :: "flt \<Rightarrow> flt \<Rightarrow> bool" where
  "flt_lt NaN _ = False"
| "flt_lt _ NaN = False"
| "flt_lt _ NInf = False"
| "flt_lt NInf _ = True"
| "flt_lt PInf _ = False"
| "flt_lt _ PInf = True"
| "flt_lt (Fin a) (Fin b) = (a < b)"

fun flt_le :: "flt \<Rightarrow> flt \<Rightarrow> bool" where
  "flt_le NaN _ = False"
| "flt_le _ NaN = False"
| "flt_le NInf _ = True"
| "flt_le _ NInf = False"
| "flt_le _ PInf = True"
| "flt_le PInf _ = False"
| "flt_le (Fin a) (Fin b) = (a \<le> b)"

fun fadd :: "ffmt \<Rightarrow> flt \<Rightarrow> flt \<Rightarrow> flt" where
  "fadd fmt NaN _ = NaN"
| "fadd fmt _ NaN = NaN"
| "fadd fmt (Fin a) (Fin b) = rnd fmt (a + b)"
| "fadd fmt PInf NInf = NaN"
| "fadd fmt NInf PInf = NaN"
| "fadd fmt PInf _ = PInf"
| "fadd fmt _ PInf = PInf"
| "fadd fmt NInf _ = NInf"
| "fadd fmt _ NInf = NInf"

fun fneg :: "flt \<Rightarrow> flt" where
  "fneg NaN = NaN"
| "fneg PInf = NInf"
| "fneg NInf = PInf"
| "fneg (Fin a) = Fin (- a)"

fun flt_abs :: "flt \<Rightarrow> flt" where
  "flt_abs NaN = NaN"
| "flt_abs PInf = PInf"
| "flt_abs NInf = PInf"
| "flt_abs (Fin a) = Fin \<bar>a\<bar>"

definition fsub :: "ffmt \<Rightarrow> flt \<Rightarrow> flt \<Rightarrow> flt" where
  "fsub fmt a b = fadd fmt a (fneg b)"

text \<open>The infinity with the sign of a non-zero rational; zero times infinity is NaN.\<close>

definition inf_of :: "rat \<Rightarrow> flt" where
  "inf_of s = (if s > 0 then PInf else if s < 0 then NInf else NaN)"

fun fsign :: "flt \<Rightarrow> rat" where
  "fsign NaN = 0"
| "fsign PInf = 1"
| "fsign NInf = - 1"
| "fsign (Fin a) = sgn a"

fun fmul :: "ffmt \<Rightarrow> flt \<Rightarrow> flt \<Rightarrow> flt" where
  "fmul fmt NaN _ = NaN"
| "fmul fmt _ NaN = NaN"
| "fmul fmt (Fin a) (Fin b) = rnd fmt (a * b)"
| "fmul fmt a b = inf_of (fsign a * fsign b)"

fun fdiv :: "ffmt \<Rightarrow> flt \<Rightarrow> flt \<Rightarrow> flt" where
  "fdiv fmt NaN _ = NaN"
| "fdiv fmt _ NaN = NaN"
| "fdiv fmt (Fin a) (Fin b) = (if b = 0 then inf_of a else rnd fmt (a / b))"
| "fdiv fmt (Fin a) _ = Fin 0"
| "fdiv fmt a (Fin b) = inf_of (fsign a * (if b = 0 then 1 else sgn b))"
| "fdiv fmt _ _ = NaN"

text \<open>\<open>f64::min\<close> and \<open>f64::max\<close> return the other operand when one is NaN.\<close>

definition flt_min :: "flt \<Rightarrow> flt \<Rightarrow> flt" where
  "flt_min a b = (if a = NaN then b else if b = NaN then a else if flt_le a b then a else b)"

definition flt_max :: "flt \<Rightarrow> flt \<Rightarrow> flt" where
  "flt_max a b = (if a = NaN then b else if b = NaN then a else if flt_le a b then b else a)"

text \<open>\<open>f64::clamp(lo, hi)\<close> with non-NaN bounds: a NaN stays NaN.\<close>

definition flt_clamp :: "flt \<Rightarrow> flt \<Rightarrow> flt \<Rightarrow> flt" where
  "flt_clamp x lo hi = (if flt_lt x lo then lo else if flt_lt hi x then hi else x)"

text \<open>Conversions. \<open>as\<close> from a float truncates towards zero and saturates; NaN gives 0.\<close>

definition flt_of_int :: "ffmt \<Rightarrow> int \<Rightarrow> flt" where
  "flt_of_int fmt n = rnd fmt (of_int n)"

definition trunc_rat :: "rat \<Rightarrow> int" where
  "trunc_rat q = (if 0 \<le> q then \<lfloor>q\<rfloor> else \<lceil>q\<rceil>)"

definition flt_to_i64 :: "flt \<Rightarrow> int" where
  "flt_to_i64 x = (case x of NaN \<Rightarrow> 0 | PInf \<Rightarrow> i64_max | NInf \<Rightarrow> i64_min
     | Fin q \<Rightarrow> sat_i64 (trunc_rat q))"

text \<open>The saturating conversion to an unsigned type with greatest value \<open>hi\<close>.\<close>

definition flt_to_nat :: "nat \<Rightarrow> flt \<Rightarrow> nat" where
  "flt_to_nat hi x = (case x of NaN \<Rightarrow> 0 | PInf \<Rightarrow> hi | NInf \<Rightarrow> 0
     | Fin q \<Rightarrow> min hi (nat (trunc_rat q)))"

definition flt_to_u64 :: "flt \<Rightarrow> u64" where
  "flt_to_u64 x = of_nat (flt_to_nat 18446744073709551615 x)"

definition flt_to_u32 :: "flt \<Rightarrow> u32" where
  "flt_to_u32 x = of_nat (flt_to_nat 4294967295 x)"

definition flt_ceil :: "flt \<Rightarrow> flt" where
  "flt_ceil x = (case x of Fin q \<Rightarrow> Fin (of_int \<lceil>q\<rceil>) | _ \<Rightarrow> x)"

text \<open>\<open>f32::round\<close>: half away from zero.\<close>

definition flt_round :: "flt \<Rightarrow> flt" where
  "flt_round x = (case x of
     Fin q \<Rightarrow> Fin (of_int (if 0 \<le> q then \<lfloor>q + 1 / 2\<rfloor> else - \<lfloor>- q + 1 / 2\<rfloor>)) | _ \<Rightarrow> x)"

text \<open>Narrowing \<open>as f32\<close>; widening an \<open>f32\<close> to \<open>f64\<close> keeps the value.\<close>

definition f64_to_f32 :: "flt \<Rightarrow> flt" where
  "f64_to_f32 x = (case x of Fin q \<Rightarrow> rnd F32 q | _ \<Rightarrow> x)"

subsection \<open>Facts\<close>

lemma flt_lt_Fin_iff: "flt_lt (Fin a) x \<longleftrightarrow> x = PInf \<or> (\<exists>b. x = Fin b \<and> a < b)"
  by (cases x) auto

lemma flt_le_refl: "x \<noteq> NaN \<Longrightarrow> flt_le x x"
  by (cases x) auto

lemma not_flt_lt: "a \<noteq> NaN \<Longrightarrow> b \<noteq> NaN \<Longrightarrow> \<not> flt_lt a b \<longleftrightarrow> flt_le b a"
  by (cases a; cases b) auto

lemma rnd_not_NaN [simp]: "rnd fmt q \<noteq> NaN"
  by (simp add: rnd_def Let_def)

lemma rnd_FinD: "rnd fmt q = Fin r \<Longrightarrow> r = rnd_rat fmt q \<and> \<bar>r\<bar> \<le> ftop fmt"
  by (auto simp: rnd_def Let_def split: if_splits)

lemma ftop_pos: "0 < ftop fmt"
  by (cases fmt) simp_all

lemma rnd_mono: "p \<le> q \<Longrightarrow> flt_le (rnd fmt p) (rnd fmt q)"
  using rnd_rat_mono [of p q fmt] ftop_pos [of fmt] unfolding rnd_def Let_def
  by (auto simp del: ftop.simps)

text \<open>An \<open>f32\<close> value is an \<open>f64\<close> value: widening is exact.\<close>

lemma rnd_rat_form: "\<exists>k e. rnd_rat fmt q = of_int k * pow2 e \<and> emin fmt \<le> e \<and> \<bar>of_int k\<bar> \<le> pow2 (prec fmt)"
proof (cases "q = 0")
  case True
  then show ?thesis by (intro exI [of _ 0] exI [of _ "emin fmt"]) simp
next
  case False
  define u where "u = pow2 (ulp_exp fmt q)"
  have u: "0 < u" by (simp add: u_def)
  have "\<bar>q\<bar> < pow2 (ilog2 \<bar>q\<bar> + 1)" using False by (intro ilog2_bounds) auto
  also have "\<dots> \<le> pow2 (prec fmt + ulp_exp fmt q)" by (intro pow2_mono) (simp add: ulp_exp_def)
  also have "\<dots> = pow2 (prec fmt) * u" by (simp add: u_def pow2_add)
  finally have qu: "\<bar>q / u\<bar> \<le> pow2 (prec fmt)" using u by (simp add: field_simps)
  obtain j where j: "pow2 (prec fmt) = of_int j"
    using pow2_int [of "prec fmt"] prec_ge [of fmt] by auto
  have "q / u \<le> of_int j" "of_int (- j) \<le> q / u" using qu j by (simp_all only: abs_le_iff of_int_minus) linarith+
  then have "rne (q / u) \<le> j" "- j \<le> rne (q / u)"
    using rne_mono [of "q / u" "of_int j"] rne_mono [of "of_int (- j)" "q / u"]
    by (simp_all del: of_int_minus)
  then have "\<bar>rne (q / u)\<bar> \<le> j" by simp
  then have "\<bar>of_int (rne (q / u))\<bar> \<le> pow2 (prec fmt)"
    unfolding j by (metis of_int_abs of_int_le_iff)
  then show ?thesis
    using False by (intro exI [of _ "rne (q / u)"] exI [of _ "ulp_exp fmt q"])
      (simp add: rnd_rat_def Let_def u_def ulp_exp_def)
qed

lemma is_flt_widen: "is_flt F32 x \<Longrightarrow> is_flt F64 x"
proof (cases x)
  case (Fin q)
  assume "is_flt F32 x"
  with Fin have r: "rnd_rat F32 q = q" and top: "\<bar>q\<bar> \<le> ftop F32"
    by (auto simp: is_flt_def dest: rnd_FinD)
  obtain k e where "q = of_int k * pow2 e" "emin F32 \<le> e" "\<bar>of_int k\<bar> \<le> pow2 (prec F32)"
    using rnd_rat_form [of F32 q] r by auto
  moreover have "pow2 (prec F32) \<le> pow2 (prec F64)" by (intro pow2_mono) simp
  ultimately have "rnd_rat F64 q = q"
    by (intro rnd_rat_exact [where k = k and e = e]) auto
  moreover have "ftop F32 \<le> ftop F64" by simp
  ultimately show ?thesis using top Fin
    by (auto simp: is_flt_def rnd_def Let_def simp del: ftop.simps)
qed (simp_all add: is_flt_def)

lemma trunc_rat_of_int [simp]: "trunc_rat (of_int n) = n"
  by (simp add: trunc_rat_def)

lemma trunc_rat_le: "0 \<le> q \<Longrightarrow> q \<le> of_int n \<Longrightarrow> trunc_rat q \<le> n"
  by (simp add: trunc_rat_def floor_le_iff)

lemma flt_min_le: "b \<noteq> NaN \<Longrightarrow> flt_le (flt_min a b) b"
  by (cases a; cases b) (auto simp: flt_min_def)

lemma flt_of_int_exact:
  "0 \<le> n \<Longrightarrow> n \<le> 9007199254740992 \<Longrightarrow> flt_of_int F64 n = Fin (of_int n)"
  unfolding flt_of_int_def by (rule rnd_F64_int) simp

text \<open>Rounding keeps a value inside an interval with representable ends.\<close>

lemma rnd_F64_between:
  assumes "of_int a \<le> q" "q \<le> of_int b" "\<bar>a\<bar> \<le> 9007199254740992" "\<bar>b\<bar> \<le> 9007199254740992"
  shows "\<exists>x. rnd F64 q = Fin x \<and> of_int a \<le> x \<and> x \<le> of_int b"
proof -
  have "flt_le (Fin (of_int a)) (rnd F64 q)" "flt_le (rnd F64 q) (Fin (of_int b))"
    using rnd_mono [OF assms(1), of F64] rnd_mono [OF assms(2), of F64] rnd_F64_int [OF assms(3)]
      rnd_F64_int [OF assms(4)] by simp_all
  then show ?thesis by (cases "rnd F64 q") auto
qed

end
