(* ===== verification/Config_Models.thy ===== *)
theory Config_Models
  imports Hedge_Float
begin

text \<open>
  The parts of the typed configuration surface (\<open>hedge-config/src/models.rs\<close>) that the
  Risk_Engine and the session controllers read, and their defaults
  (\<open>hedge-config/src/defaults.rs\<close>). \<open>NaiveTime\<close> values are parsed from \<open>HH:MM:SS\<close>, so a
  time of day is its number of seconds since midnight.
\<close>

type_synonym naive_time = nat

datatype post_target_policy = ReduceSizeToZero | StopForSession | HalveSize | ContinueTrading

record capital_config =
  base_inr :: u32
  daily_profit_target_min_inr :: u32
  daily_profit_target_max_inr :: u32
  post_target_policy :: post_target_policy

record risk_config =
  max_daily_loss_inr :: u32
  max_position_per_symbol :: u32
  max_position_portfolio :: u32
  max_leverage_per_symbol :: flt
  max_leverage_account :: flt
  max_drawdown_inr :: u32
  max_trades_per_minute :: u32
  max_trades_per_hour :: u32
  max_trades_per_session :: u32
  max_exposure_per_symbol_inr :: u32
  max_exposure_per_sector_inr :: u32
  slippage_threshold_bps :: u32
  slippage_cooldown_ms :: u32
  volatility_block_threshold :: flt
  broker_latency_block_ms :: u32
  base_risk_per_trade_inr :: u32

record session_config =
  start_ist :: naive_time
  end_ist :: naive_time

record war_mode_config =
  wm_start_ist :: naive_time
  wm_end_ist :: naive_time
  min_confidence :: flt
  scan_multiplier :: flt

text \<open>\<open>NaiveTime::from_hms_opt\<close>: out-of-range components give no time.\<close>

definition from_hms_opt :: "nat \<Rightarrow> nat \<Rightarrow> nat \<Rightarrow> naive_time option" where
  "from_hms_opt h m s = (if h < 24 \<and> m < 60 \<and> s < 60 then Some (h * 3600 + m * 60 + s) else None)"

definition ist_0915 :: naive_time where
  "ist_0915 = the (from_hms_opt 9 15 0)"

definition ist_0945 :: naive_time where
  "ist_0945 = the (from_hms_opt 9 45 0)"

definition ist_1530 :: naive_time where
  "ist_1530 = the (from_hms_opt 15 30 0)"

definition default_capital :: capital_config where
  "default_capital = \<lparr>base_inr = 20000, daily_profit_target_min_inr = 300,
     daily_profit_target_max_inr = 1000, post_target_policy = ReduceSizeToZero\<rparr>"

definition default_risk :: risk_config where
  "default_risk = \<lparr>max_daily_loss_inr = 600, max_position_per_symbol = 200,
     max_position_portfolio = 500, max_leverage_per_symbol = Fin 5, max_leverage_account = Fin 5,
     max_drawdown_inr = 1000, max_trades_per_minute = 4, max_trades_per_hour = 30,
     max_trades_per_session = 60, max_exposure_per_symbol_inr = 20000,
     max_exposure_per_sector_inr = 30000, slippage_threshold_bps = 25,
     slippage_cooldown_ms = 60000, volatility_block_threshold = rnd F32 (6 / 100),
     broker_latency_block_ms = 250, base_risk_per_trade_inr = 100\<rparr>"

definition default_session :: session_config where
  "default_session = \<lparr>start_ist = ist_0915, end_ist = ist_1530\<rparr>"

definition default_war_mode :: war_mode_config where
  "default_war_mode = \<lparr>wm_start_ist = ist_0915, wm_end_ist = ist_0945,
     min_confidence = rnd F32 (6 / 10), scan_multiplier = Fin 2\<rparr>"

lemma ist_times [simp]: "ist_0915 = 33300" "ist_0945 = 35100" "ist_1530 = 55800"
  by (simp_all add: ist_0915_def ist_0945_def ist_1530_def from_hms_opt_def)

end
