(* ===== verification/Kill_Switch.thy ===== *)
theory Kill_Switch
  imports Hedge_Prelude
begin

text \<open>
  The Kill_Switch of \<open>hedge-risk/src/kill_switch.rs\<close>, first as a sequential object and
  then with the two atomic actions of \<open>activate\<close> (the compare-exchange and the write of the
  reason under the lock) interleaved between threads. The locale \<open>edge_latch\<close> is the
  exactly-once emission contract shared by the Kill_Switch and the profit-target tracker.
\<close>

section \<open>The switch\<close>

datatype kill_reason = KillMaxDrawdown | TraderRequest | PsychologyCritical | SupervisorHalt
  | AiGovernanceCritical

fun kill_reason_as_str :: "kill_reason \<Rightarrow> string" where
  "kill_reason_as_str KillMaxDrawdown = ''max_drawdown''"
| "kill_reason_as_str TraderRequest = ''trader_request''"
| "kill_reason_as_str PsychologyCritical = ''psychology_critical''"
| "kill_reason_as_str SupervisorHalt = ''supervisor_halt''"
| "kill_reason_as_str AiGovernanceCritical = ''ai_governance_critical''"

record kill_switch =
  ks_active :: bool
  ks_reason :: "kill_reason option"

definition ks_new :: kill_switch where
  "ks_new = \<lparr>ks_active = False, ks_reason = None\<rparr>"

text \<open>The compare-exchange and the store of the reason: the two atomic actions of \<open>activate\<close>.\<close>

definition ks_cas :: "kill_switch \<Rightarrow> kill_switch \<times> bool" where
  "ks_cas k = (if ks_active k then (k, False) else (k\<lparr>ks_active := True\<rparr>, True))"

definition ks_set_reason :: "kill_reason option \<Rightarrow> kill_switch \<Rightarrow> kill_switch" where
  "ks_set_reason r k = k\<lparr>ks_reason := r\<rparr>"

definition ks_activate :: "kill_reason \<Rightarrow> kill_switch \<Rightarrow> kill_switch \<times> bool" where
  "ks_activate r k =
     (let (k', transitioned) = ks_cas k
      in (if transitioned then ks_set_reason (Some r) k' else k', transitioned))"

definition ks_reset :: "kill_switch \<Rightarrow> kill_switch" where
  "ks_reset k = (ks_set_reason None k)\<lparr>ks_active := False\<rparr>"

section \<open>Edge-triggered emission\<close>

text \<open>A latch is stepped with inputs; a step emits exactly when it moves the latch. \<open>run_latch\<close>
  collects the emissions of a sequence of calls.\<close>

fun run_latch :: "('i \<Rightarrow> 's \<Rightarrow> 's \<times> bool) \<Rightarrow> 'i list \<Rightarrow> 's \<Rightarrow> 's \<times> bool list" where
  "run_latch step [] s = (s, [])"
| "run_latch step (i # is) s =
     (let (s', e) = step i s; (s'', es) = run_latch step is s' in (s'', e # es))"

locale edge_latch =
  fixes step :: "'i \<Rightarrow> 's \<Rightarrow> 's \<times> bool"
    and latched :: "'s \<Rightarrow> bool"
    and triggers :: "'s \<Rightarrow> 'i \<Rightarrow> bool"
  assumes emits: "snd (step i s) \<longleftrightarrow> \<not> latched s \<and> triggers s i"
    and moves: "latched (fst (step i s)) \<longleftrightarrow> latched s \<or> triggers s i"
    and stable: "triggers (fst (step i s)) j \<longleftrightarrow> triggers s j"
begin

lemma silent_when_latched: "latched s \<Longrightarrow> True \<notin> set (snd (run_latch step is s))"
proof (induction "is" arbitrary: s)
  case Nil
  then show ?case by simp
next
  case (Cons i "is")
  then show ?case
    using emits [of i s] moves [of i s] Cons.IH [of "fst (step i s)"]
    by (simp add: case_prod_beta Let_def)
qed

lemma emission_count:
  "length (filter (\<lambda>b. b) (snd (run_latch step is s)))
     = (if \<not> latched s \<and> (\<exists>i \<in> set is. triggers s i) then 1 else 0)"
proof (induction "is" arbitrary: s)
  case Nil
  then show ?case by simp
next
  case (Cons i "is")
  let ?s = "fst (step i s)"
  have quiet: "filter (\<lambda>b. b) (snd (run_latch step is ?s)) = []" if "latched ?s"
    using silent_when_latched [OF that, of "is"] by (auto simp: filter_empty_conv)
  show ?case
  proof (cases "latched ?s")
    case True
    then show ?thesis
      using quiet emits [of i s] moves [of i s] by (auto simp: case_prod_beta Let_def)
  next
    case False
    then show ?thesis
      using Cons.IH [of ?s] emits [of i s] moves [of i s] stable [of i s]
      by (auto simp: case_prod_beta Let_def)
  qed
qed

lemma latched_after:
  "latched (fst (run_latch step is s)) \<longleftrightarrow> latched s \<or> (\<exists>i \<in> set is. triggers s i)"
  by (induction "is" arbitrary: s) (auto simp: case_prod_beta Let_def moves stable)

end

interpretation ks: edge_latch ks_activate ks_active "\<lambda>_ _. True"
  by unfold_locales (simp_all add: ks_activate_def ks_cas_def ks_set_reason_def)

lemma ks_reason_kept:
  "ks_active k \<Longrightarrow> fst (run_latch ks_activate rs k) = k"
  by (induction rs arbitrary: k) (simp_all add: ks_activate_def ks_cas_def case_prod_beta Let_def)

section \<open>Concurrent activation\<close>

text \<open>A thread calling \<open>activate\<close> is before its compare-exchange, between it and the store
  of the reason, or has returned; a thread calling \<open>reset\<close> likewise.\<close>

datatype ks_thread = Activating kill_reason | Storing kill_reason | Returned kill_reason bool
  | Resetting | Clearing | ResetDone

fun thread_step :: "ks_thread \<Rightarrow> kill_switch \<Rightarrow> (ks_thread \<times> kill_switch) option" where
  "thread_step (Activating r) k =
     (let (k', won) = ks_cas k in Some (if won then Storing r else Returned r False, k'))"
| "thread_step (Storing r) k = Some (Returned r True, ks_set_reason (Some r) k)"
| "thread_step (Returned r b) k = None"
| "thread_step Resetting k = Some (Clearing, ks_set_reason None k)"
| "thread_step Clearing k = Some (ResetDone, k\<lparr>ks_active := False\<rparr>)"
| "thread_step ResetDone k = None"

inductive ks_step :: "ks_thread list \<times> kill_switch \<Rightarrow> ks_thread list \<times> kill_switch \<Rightarrow> bool" where
  run_thread: "i < length ts \<Longrightarrow> thread_step (ts ! i) k = Some (t', k') \<Longrightarrow>
     ks_step (ts, k) (ts[i := t'], k')"

inductive_cases ks_stepE: "ks_step c c'"

fun is_winner :: "ks_thread \<Rightarrow> bool" where
  "is_winner (Storing r) = True"
| "is_winner (Returned r b) = b"
| "is_winner _ = False"

fun thread_reason :: "ks_thread \<Rightarrow> kill_reason option" where
  "thread_reason (Activating r) = Some r"
| "thread_reason (Storing r) = Some r"
| "thread_reason (Returned r b) = Some r"
| "thread_reason _ = None"

definition ks_start :: "kill_reason list \<Rightarrow> ks_thread list \<times> kill_switch" where
  "ks_start rs = (map Activating rs, ks_new)"

fun returned :: "ks_thread \<Rightarrow> bool" where
  "returned (Returned r b) = True"
| "returned _ = False"

text \<open>What a single activator may know: a winner that has returned has stored its reason, a
  loser has seen the switch engaged.\<close>

fun thread_ok :: "kill_switch \<Rightarrow> ks_thread \<Rightarrow> bool" where
  "thread_ok k (Activating r) = True"
| "thread_ok k (Storing r) = ks_active k"
| "thread_ok k (Returned r b) = (ks_active k \<and> (b \<longrightarrow> ks_reason k = Some r))"
| "thread_ok k _ = False"

fun ks_inv :: "ks_thread list \<times> kill_switch \<Rightarrow> bool" where
  "ks_inv (ts, k) \<longleftrightarrow> list_all (thread_ok k) ts
     \<and> length (filter is_winner ts) = (if ks_active k then 1 else 0)"

lemma length_filter_update:
  "i < length xs \<Longrightarrow> length (filter P (xs[i := x])) + (if P (xs ! i) then 1 else 0)
     = length (filter P xs) + (if P x then 1 else 0)"
proof (induction xs arbitrary: i)
  case Nil
  then show ?case by simp
next
  case (Cons a xs)
  then show ?case using Cons.IH [of "i - 1"] by (cases i) auto
qed

lemma lone_filter:
  "length (filter P xs) = Suc 0 \<Longrightarrow> x \<in> set xs \<Longrightarrow> P x \<Longrightarrow> y \<in> set xs \<Longrightarrow> P y \<Longrightarrow> x = y"
  by (induction xs) (auto split: if_splits simp: filter_empty_conv)

lemma list_all_update: "list_all P xs \<Longrightarrow> P x \<Longrightarrow> list_all P (xs[i := x])"
  by (induction xs arbitrary: i) (auto split: nat.splits)

lemma ks_inv_start: "ks_inv (ks_start rs)"
  by (induction rs) (auto simp: ks_start_def ks_new_def)

lemma ks_inv_step: "ks_step c c' \<Longrightarrow> ks_inv c \<Longrightarrow> ks_inv c'"
proof (induction rule: ks_step.induct)
  case (run_thread i ts k t' k')
  have ok: "list_all (thread_ok k) ts"
    and win: "length (filter is_winner ts) = (if ks_active k then 1 else 0)"
    using run_thread.prems by auto
  have cnt: "length (filter is_winner (ts[i := t'])) + (if is_winner (ts ! i) then 1 else 0)
      = length (filter is_winner ts) + (if is_winner t' then 1 else 0)"
    using run_thread.hyps(1) by (rule length_filter_update)
  have here: "thread_ok k (ts ! i)" and t'_in: "t' \<in> set (ts[i := t'])"
    using ok run_thread.hyps(1) by (auto simp: list_all_length set_update_memI)
  show ?case
  proof (cases "ts ! i")
    case (Activating r)
    show ?thesis
    proof (cases "ks_active k")
      case True
      then show ?thesis
        using Activating run_thread.hyps cnt win ok by (auto simp: ks_cas_def intro: list_all_update)
    next
      case False
      then have "list_all (\<lambda>t. \<exists>r. t = Activating r) ts"
        using ok by (auto simp: list_all_iff elim: thread_ok.elims)
      then have "list_all (thread_ok (k\<lparr>ks_active := True\<rparr>)) ts"
        by (auto simp: list_all_iff)
      then show ?thesis
        using False Activating run_thread.hyps cnt win by (auto simp: ks_cas_def intro: list_all_update)
    qed
  next
    case (Storing r)
    then have on: "ks_active k" and t': "t' = Returned r True" and k': "k' = ks_set_reason (Some r) k"
      using here run_thread.hyps by auto
    have one: "length (filter is_winner (ts[i := t'])) = Suc 0"
      using cnt win Storing on t' by simp
    have "thread_ok k' t" if "t \<in> set (ts[i := t'])" for t
    proof (cases "is_winner t")
      case True
      then have "t = t'" using lone_filter [OF one that _ t'_in] t' by simp
      then show ?thesis using on t' k' by (simp add: ks_set_reason_def)
    next
      case False
      then have "t \<in> set ts" using that t' set_update_subset_insert [of ts i t'] by auto
      then have "thread_ok k t" using ok by (simp add: list_all_iff)
      then show ?thesis using False k' by (cases t) (auto simp: ks_set_reason_def)
    qed
    then show ?thesis using one on k' by (simp add: list_all_iff ks_set_reason_def)
  next
    case (Returned r b)
    then show ?thesis using run_thread.hyps by simp
  qed (use here in auto)
qed

lemma ks_reach_inv: "ks_step\<^sup>*\<^sup>* (ks_start rs) c \<Longrightarrow> ks_inv c"
  by (induction rule: rtranclp_induct) (auto intro: ks_inv_start ks_inv_step)

lemma ks_step_length: "ks_step c c' \<Longrightarrow> length (fst c') = length (fst c)"
  by (auto elim: ks_stepE)

lemma ks_reach_length: "ks_step\<^sup>*\<^sup>* c c' \<Longrightarrow> length (fst c') = length (fst c)"
  by (induction rule: rtranclp_induct) (auto simp: ks_step_length)

lemma all_returned_wins:
  "ks_inv (ts, k) \<Longrightarrow> ts \<noteq> [] \<Longrightarrow> list_all returned ts \<Longrightarrow> ks_active k"
  by (cases ts) (auto elim!: returned.elims)

section \<open>Properties\<close>

text \<open>C32: Concurrent activations of the Kill_Switch. Whatever the interleaving of the
  compare-exchanges and reason stores of any positive number of \<open>activate\<close> calls on a fresh
  switch, once all have returned the switch is engaged, exactly one call returned \<open>true\<close> (so
  \<open>risk.killswitch.activated\<close> is emitted exactly once), and the recorded reason is that call's.\<close>

theorem ks_concurrent_exactly_once:
  assumes "ks_step\<^sup>*\<^sup>* (ks_start rs) (ts, k)" and "rs \<noteq> []" and "list_all returned ts"
  shows "ks_active k \<and> length (filter is_winner ts) = 1
    \<and> (\<forall>r. Returned r True \<in> set ts \<longrightarrow> ks_reason k = Some r)"
proof -
  have inv: "ks_inv (ts, k)" using assms(1) by (rule ks_reach_inv)
  have "ts \<noteq> []" using ks_reach_length [OF assms(1)] assms(2) by (auto simp: ks_start_def)
  then have "ks_active k" using all_returned_wins inv assms(3) by blast
  with inv show ?thesis by (auto simp: list_all_iff)
qed

lemma ks_two_thread_run:
  "ks_step\<^sup>*\<^sup>* (ks_start [TraderRequest, SupervisorHalt])
     ([Returned TraderRequest False, Returned SupervisorHalt True],
      \<lparr>ks_active = True, ks_reason = Some SupervisorHalt\<rparr>)"
proof -
  have "ks_step (ks_start [TraderRequest, SupervisorHalt])
      ([Activating TraderRequest, Storing SupervisorHalt], \<lparr>ks_active = True, ks_reason = None\<rparr>)"
    using run_thread [of 1 "[Activating TraderRequest, Activating SupervisorHalt]" ks_new]
    by (simp add: ks_start_def ks_new_def ks_cas_def)
  moreover have "ks_step ([Activating TraderRequest, Storing SupervisorHalt], \<lparr>ks_active = True, ks_reason = None\<rparr>)
      ([Returned TraderRequest False, Storing SupervisorHalt], \<lparr>ks_active = True, ks_reason = None\<rparr>)"
    using run_thread [of 0 "[Activating TraderRequest, Storing SupervisorHalt]"
        "\<lparr>ks_active = True, ks_reason = None\<rparr>"]
    by (simp add: ks_cas_def)
  moreover have "ks_step ([Returned TraderRequest False, Storing SupervisorHalt], \<lparr>ks_active = True, ks_reason = None\<rparr>)
      ([Returned TraderRequest False, Returned SupervisorHalt True], \<lparr>ks_active = True, ks_reason = Some SupervisorHalt\<rparr>)"
    using run_thread [of 1 "[Returned TraderRequest False, Storing SupervisorHalt]"
        "\<lparr>ks_active = True, ks_reason = None\<rparr>"]
    by (simp add: ks_set_reason_def)
  ultimately show ?thesis
    by (meson converse_rtranclp_into_rtranclp rtranclp.rtrancl_refl)
qed

theorem ks_concurrent_exactly_once_witness:
  "ks_active \<lparr>ks_active = True, ks_reason = Some SupervisorHalt\<rparr>
   \<and> length (filter is_winner [Returned TraderRequest False, Returned SupervisorHalt True]) = 1"
  using ks_concurrent_exactly_once [OF ks_two_thread_run] by simp

text \<open>The comment in \<open>reset\<close> (\<open>a concurrent reader that observes active = false cannot observe a
  stale reason\<close>) does not hold when \<open>reset\<close> runs between the two actions of an \<open>activate\<close>: the
  switch ends inactive with a reason recorded.\<close>

theorem ks_reset_race:
  "\<exists>ts k. ks_step\<^sup>*\<^sup>* ([Activating TraderRequest, Resetting], ks_new) (ts, k)
     \<and> ts = [Returned TraderRequest True, ResetDone] \<and> \<not> ks_active k \<and> ks_reason k = Some TraderRequest"
proof -
  let ?k = "\<lambda>a r. \<lparr>ks_active = a, ks_reason = r\<rparr>"
  have "ks_step ([Activating TraderRequest, Resetting], ks_new) ([Storing TraderRequest, Resetting], ?k True None)"
    using run_thread [of 0 "[Activating TraderRequest, Resetting]" ks_new] by (simp add: ks_cas_def ks_new_def)
  moreover have "ks_step ([Storing TraderRequest, Resetting], ?k True None) ([Storing TraderRequest, Clearing], ?k True None)"
    using run_thread [of 1 "[Storing TraderRequest, Resetting]" "?k True None"] by (simp add: ks_set_reason_def)
  moreover have "ks_step ([Storing TraderRequest, Clearing], ?k True None) ([Storing TraderRequest, ResetDone], ?k False None)"
    using run_thread [of 1 "[Storing TraderRequest, Clearing]" "?k True None"] by simp
  moreover have "ks_step ([Storing TraderRequest, ResetDone], ?k False None)
      ([Returned TraderRequest True, ResetDone], ?k False (Some TraderRequest))"
    using run_thread [of 0 "[Storing TraderRequest, ResetDone]" "?k False None"] by (simp add: ks_set_reason_def)
  ultimately have "ks_step\<^sup>*\<^sup>* ([Activating TraderRequest, Resetting], ks_new)
      ([Returned TraderRequest True, ResetDone], ?k False (Some TraderRequest))"
    by (meson converse_rtranclp_into_rtranclp rtranclp.rtrancl_refl)
  then show ?thesis by fastforce
qed

end
