(* ===== verification/Risk_State.thy ===== *)
theory Risk_State
  imports Core_Types Ring_Window Ordered_Map Config_Models Kill_Switch
begin

text \<open>
  The mutable half of the Risk_Engine (\<open>hedge-risk/src\<close>): the slippage-cooldown registry
  (\<open>cooldown.rs\<close>), the trade-frequency counters (\<open>frequency.rs\<close>), the profit-target tracker
  (\<open>target.rs\<close>), the volatility table (\<open>volatility.rs\<close>) and the aggregate with its PnL and
  drawdown bookkeeping (\<open>state.rs\<close>).
\<close>

section \<open>Cooldowns (cooldown.rs)\<close>

datatype cooldown_reason = Slippage | PsychologyCooldown

fun cooldown_reason_as_str :: "cooldown_reason \<Rightarrow> string" where
  "cooldown_reason_as_str Slippage = ''slippage''"
| "cooldown_reason_as_str PsychologyCooldown = ''psychology_cooldown''"

datatype cooldown_transition = Engaged | Extended

type_synonym cooldown_registry = "(symbol_id, u64 \<times> cooldown_reason) btree"

definition cd_new :: cooldown_registry where
  "cd_new = []"

definition cd_is_cooling :: "cooldown_registry \<Rightarrow> symbol_id \<Rightarrow> u64 \<Rightarrow> bool" where
  "cd_is_cooling c symbol now_ns =
     (case bt_get c symbol of Some (expiry, _) \<Rightarrow> expiry > now_ns | None \<Rightarrow> False)"

definition cd_engage ::
  "symbol_id \<Rightarrow> u64 \<Rightarrow> cooldown_reason \<Rightarrow> cooldown_registry \<Rightarrow> cooldown_registry \<times> cooldown_transition"
where
  "cd_engage symbol expiry_ns reason c =
     (case bt_get c symbol of
        Some entry \<Rightarrow>
          (if expiry_ns > fst entry then bt_insert symbol (expiry_ns, reason) c else c, Extended)
      | None \<Rightarrow> (bt_insert symbol (expiry_ns, reason) c, Engaged))"

definition cd_expired :: "u64 \<Rightarrow> cooldown_registry \<Rightarrow> symbol_id list" where
  "cd_expired now_ns c = map fst (filter (\<lambda>e. fst (snd e) \<le> now_ns) c)"

definition cd_prune :: "u64 \<Rightarrow> cooldown_registry \<Rightarrow> cooldown_registry \<times> symbol_id list" where
  "cd_prune now_ns c =
     (let expired = cd_expired now_ns c in (fold bt_remove expired c, expired))"

definition cd_active_count :: "cooldown_registry \<Rightarrow> nat" where
  "cd_active_count c = length c"

definition cd_reason_for :: "cooldown_registry \<Rightarrow> symbol_id \<Rightarrow> cooldown_reason option" where
  "cd_reason_for c symbol = map_option snd (bt_get c symbol)"

section \<open>Trade frequency (frequency.rs)\<close>

definition PER_MINUTE_CAP :: nat where "PER_MINUTE_CAP = 8"
definition PER_HOUR_CAP :: nat where "PER_HOUR_CAP = 64"
definition PER_SESSION_CAP :: nat where "PER_SESSION_CAP = 128"
definition NS_PER_MINUTE :: u64 where "NS_PER_MINUTE = 60 * 1000000000"
definition NS_PER_HOUR :: u64 where "NS_PER_HOUR = 60 * NS_PER_MINUTE"

lemmas freq_caps = PER_MINUTE_CAP_def PER_HOUR_CAP_def PER_SESSION_CAP_def

record frequency_counters =
  fc_minute :: "u64 ring_window"
  fc_hour :: "u64 ring_window"
  fc_session :: "u64 ring_window"
  cached_minute_count :: u32
  cached_hour_count :: u32
  cached_session_count :: u32

definition fc_new :: frequency_counters where
  "fc_new = \<lparr>fc_minute = the (rw_new PER_MINUTE_CAP 0), fc_hour = the (rw_new PER_HOUR_CAP 0),
     fc_session = the (rw_new PER_SESSION_CAP 0), cached_minute_count = 0,
     cached_hour_count = 0, cached_session_count = 0\<rparr>"

definition live_count :: "u64 ring_window \<Rightarrow> u64 \<Rightarrow> u64 \<Rightarrow> u32" where
  "live_count ring now_ns window_ns =
     foldl (\<lambda>count ts. if usat_sub now_ns ts \<le> window_ns then count + 1 else count) 0 (rw_iter ring)"

definition would_breach ::
  "u64 \<Rightarrow> u32 \<Rightarrow> u32 \<Rightarrow> u32 \<Rightarrow> frequency_counters \<Rightarrow> frequency_counters \<times> bool" where
  "would_breach now_ns max_per_minute max_per_hour max_per_session fc =
     (let m = live_count (fc_minute fc) now_ns NS_PER_MINUTE;
          h = live_count (fc_hour fc) now_ns NS_PER_HOUR;
          s = of_nat (rw_len (fc_session fc))
      in (fc\<lparr>cached_minute_count := m, cached_hour_count := h, cached_session_count := s\<rparr>,
          m + 1 > max_per_minute \<or> h + 1 > max_per_hour \<or> s + 1 > max_per_session))"

definition fc_record :: "u64 \<Rightarrow> frequency_counters \<Rightarrow> frequency_counters" where
  "fc_record now_ns fc =
     (let minute = rw_push now_ns (fc_minute fc); hour = rw_push now_ns (fc_hour fc);
          session = rw_push now_ns (fc_session fc)
      in fc\<lparr>fc_minute := minute, fc_hour := hour, fc_session := session,
           cached_minute_count := live_count minute now_ns NS_PER_MINUTE,
           cached_hour_count := live_count hour now_ns NS_PER_HOUR,
           cached_session_count := of_nat (rw_len session)\<rparr>)"

definition fc_reset_session :: "frequency_counters \<Rightarrow> frequency_counters" where
  "fc_reset_session fc = fc\<lparr>fc_session := rw_clear (fc_session fc), cached_session_count := 0\<rparr>"

section \<open>Profit target (target.rs)\<close>

datatype target_transition = TargetSteady | TargetCrossed

record target_state =
  tg_realized_pnl_paise :: i64
  tg_upper_band_paise :: i64
  tg_crossed :: bool
  tg_policy :: post_target_policy

definition tg_new :: "u32 \<Rightarrow> post_target_policy \<Rightarrow> target_state" where
  "tg_new upper_band_inr policy = \<lparr>tg_realized_pnl_paise = 0,
     tg_upper_band_paise = inr_to_paise upper_band_inr, tg_crossed = False, tg_policy = policy\<rparr>"

definition tg_reset_session :: "target_state \<Rightarrow> target_state" where
  "tg_reset_session t = t\<lparr>tg_realized_pnl_paise := 0, tg_crossed := False\<rparr>"

definition record_realized :: "i64 \<Rightarrow> target_state \<Rightarrow> target_state \<times> target_transition" where
  "record_realized realized t =
     (let t = t\<lparr>tg_realized_pnl_paise := realized\<rparr>
      in if \<not> tg_crossed t \<and> realized \<ge> tg_upper_band_paise t
         then (t\<lparr>tg_crossed := True\<rparr>, TargetCrossed) else (t, TargetSteady))"

definition should_reject :: "target_state \<Rightarrow> bool" where
  "should_reject t \<longleftrightarrow> tg_crossed t \<and> (tg_policy t = ReduceSizeToZero \<or> tg_policy t = StopForSession)"

definition should_halve :: "target_state \<Rightarrow> bool" where
  "should_halve t \<longleftrightarrow> tg_crossed t \<and> tg_policy t = HalveSize"

section \<open>Volatility (volatility.rs)\<close>

datatype volatility_transition = VolSteady | VolBlocked | VolUnblocked

type_synonym volatility_table = "(symbol_id, flt) btree"

definition vt_update ::
  "symbol_id \<Rightarrow> flt \<Rightarrow> flt \<Rightarrow> volatility_table \<Rightarrow> volatility_table \<times> volatility_transition" where
  "vt_update symbol vol threshold v =
     (let prior = bt_get v symbol;
          was_blocked = (case prior of Some p \<Rightarrow> flt_lt threshold p | None \<Rightarrow> False);
          now_blocked = flt_lt threshold vol
      in (bt_insert symbol vol v,
          if \<not> was_blocked \<and> now_blocked then VolBlocked
          else if was_blocked \<and> \<not> now_blocked then VolUnblocked else VolSteady))"

definition vt_is_blocked :: "volatility_table \<Rightarrow> symbol_id \<Rightarrow> flt \<Rightarrow> bool" where
  "vt_is_blocked v symbol threshold =
     (case bt_get v symbol of Some x \<Rightarrow> flt_lt threshold x | None \<Rightarrow> False)"

definition vt_realized_vol :: "volatility_table \<Rightarrow> symbol_id \<Rightarrow> flt option" where
  "vt_realized_vol v symbol = bt_get v symbol"

section \<open>The aggregate (state.rs)\<close>

type_synonym broker_latency_table = "(broker_id, u32) btree"

definition bl_record :: "broker_id \<Rightarrow> u32 \<Rightarrow> broker_latency_table \<Rightarrow> broker_latency_table" where
  "bl_record broker latency_ms b = bt_insert broker latency_ms b"

definition bl_is_blocked :: "broker_latency_table \<Rightarrow> broker_id \<Rightarrow> u32 \<Rightarrow> bool" where
  "bl_is_blocked b broker threshold_ms =
     (case bt_get b broker of Some v \<Rightarrow> v > threshold_ms | None \<Rightarrow> False)"

definition bl_latency_ms :: "broker_latency_table \<Rightarrow> broker_id \<Rightarrow> u32 option" where
  "bl_latency_ms b broker = bt_get b broker"

record risk_state =
  rs_realized_pnl_paise :: i64
  rs_unrealized_pnl_paise :: i64
  rs_drawdown_paise :: i64
  rs_peak_equity_paise :: i64
  portfolio_position :: u64
  per_symbol_position :: "(symbol_id, u64) btree"
  per_symbol_exposure_paise :: "(symbol_id, i64) btree"
  per_sector_exposure_paise :: "(u32, i64) btree"
  aggregate_notional_paise :: i64
  rs_frequency :: frequency_counters
  rs_cooldowns :: cooldown_registry
  rs_volatility :: volatility_table
  rs_broker_latency :: broker_latency_table
  rs_target :: target_state

definition rs_new :: "capital_config \<Rightarrow> risk_config \<Rightarrow> risk_state" where
  "rs_new capital risk = \<lparr>rs_realized_pnl_paise = 0, rs_unrealized_pnl_paise = 0,
     rs_drawdown_paise = 0, rs_peak_equity_paise = inr_to_paise (base_inr capital),
     portfolio_position = 0, per_symbol_position = [], per_symbol_exposure_paise = [],
     per_sector_exposure_paise = [], aggregate_notional_paise = 0, rs_frequency = fc_new,
     rs_cooldowns = cd_new, rs_volatility = [], rs_broker_latency = [],
     rs_target = tg_new (daily_profit_target_max_inr capital) (post_target_policy capital)\<rparr>"

definition rs_reset_session :: "capital_config \<Rightarrow> risk_state \<Rightarrow> risk_state" where
  "rs_reset_session capital st = st\<lparr>rs_realized_pnl_paise := 0, rs_unrealized_pnl_paise := 0,
     rs_drawdown_paise := 0, rs_peak_equity_paise := inr_to_paise (base_inr capital),
     portfolio_position := 0, per_symbol_position := [], per_symbol_exposure_paise := [],
     per_sector_exposure_paise := [], aggregate_notional_paise := 0,
     rs_frequency := fc_reset_session (rs_frequency st),
     rs_target := tg_reset_session (rs_target st)\<rparr>"

definition rs_update_pnl :: "i64 \<Rightarrow> i64 \<Rightarrow> capital_config \<Rightarrow> risk_state \<Rightarrow> risk_state" where
  "rs_update_pnl realized unrealized capital st =
     (let capital_paise = inr_to_paise (base_inr capital);
          current_equity = sat_i64 (sat_i64 (capital_paise + realized) + unrealized);
          peak = (if current_equity > rs_peak_equity_paise st then current_equity
                  else rs_peak_equity_paise st)
      in st\<lparr>rs_realized_pnl_paise := realized, rs_unrealized_pnl_paise := unrealized,
           rs_peak_equity_paise := peak,
           rs_drawdown_paise := sat_i64 (peak - current_equity)\<rparr>)"

definition total_pnl_paise :: "risk_state \<Rightarrow> i64" where
  "total_pnl_paise st = sat_i64 (rs_realized_pnl_paise st + rs_unrealized_pnl_paise st)"

section \<open>Lemmas\<close>

subsection \<open>Cooldowns\<close>

lemma cd_engage_ok: "bt_ok c \<Longrightarrow> bt_ok (fst (cd_engage s e r c))"
  by (auto simp: cd_engage_def bt_simps split: option.splits)

lemma cd_prune_ok: "bt_ok c \<Longrightarrow> bt_ok (fst (cd_prune n c))"
  by (simp add: cd_prune_def Let_def bt.ok_fold_del)

lemma cd_expired_iff:
  "bt_ok c \<Longrightarrow> s \<in> set (cd_expired n c) \<longleftrightarrow> (\<exists>e r. bt_get c s = Some (e, r) \<and> e \<le> n)"
  by (force simp: cd_expired_def bt_get_Some_iff)

lemma cd_prune_get:
  "bt_ok c \<Longrightarrow> bt_get (fst (cd_prune n c)) s =
     (case bt_get c s of Some (e, r) \<Rightarrow> if e \<le> n then None else Some (e, r) | None \<Rightarrow> None)"
proof -
  assume ok: "bt_ok c"
  show ?thesis
    using cd_expired_iff [OF ok] by (auto simp: cd_prune_def Let_def bt.get_fold_del [OF ok] split: option.splits)
qed

lemma cd_engage_cooling:
  "bt_ok c \<Longrightarrow> cd_is_cooling (fst (cd_engage s e r c)) s' t \<longleftrightarrow>
     cd_is_cooling c s' t \<or> (s' = s \<and> e > t)"
  by (auto simp: cd_engage_def cd_is_cooling_def bt_simps split: option.splits)

lemma cd_prune_cooling: "bt_ok c \<Longrightarrow> n \<le> t \<Longrightarrow> cd_is_cooling (fst (cd_prune n c)) s t \<longleftrightarrow> cd_is_cooling c s t"
  by (auto simp: cd_is_cooling_def cd_prune_get split: option.splits)

subsection \<open>Frequency\<close>

lemma foldl_count:
  "foldl (\<lambda>count ts. if P ts then count + 1 else count) (c :: 'a::len word) xs
     = c + of_nat (length (filter P xs))"
  by (induction xs arbitrary: c) auto

lemma live_count_filter:
  "live_count ring now w = of_nat (length (filter (\<lambda>ts. usat_sub now ts \<le> w) (rw_iter ring)))"
  by (simp add: live_count_def foldl_count)

lemma filter_last_n:
  "sorted xs \<Longrightarrow> (\<And>x y. P x \<Longrightarrow> x \<le> y \<Longrightarrow> P y) \<Longrightarrow> filter P (last_n n xs) = last_n n (filter P xs)"
proof (induction xs)
  case Nil
  then show ?case by (simp add: last_n_def)
next
  case (Cons x xs)
  show ?case
  proof (cases "P x")
    case True
    with Cons.prems have all: "\<forall>y \<in> set (x # xs). P y" by auto
    then have "filter P (last_n n (x # xs)) = last_n n (x # xs)"
      using set_last_n [of n "x # xs"] by (subst filter_id_conv) blast
    moreover have "filter P (x # xs) = x # xs" using all by (subst filter_id_conv) blast
    ultimately show ?thesis by simp
  next
    case False
    then show ?thesis
      using Cons by (cases "length xs < n") (auto simp: last_n_def Suc_diff_le not_less)
  qed
qed

text \<open>The abstract state: the timestamps recorded since construction, and since the last
  session reset. The rings hold their most recent ones.\<close>

definition fc_rep :: "frequency_counters \<Rightarrow> u64 list \<Rightarrow> u64 list \<Rightarrow> bool" where
  "fc_rep fc hist sess \<longleftrightarrow>
     rw_ok (fc_minute fc) \<and> rw_ok (fc_hour fc) \<and> rw_ok (fc_session fc)
     \<and> rw_capacity (fc_minute fc) = PER_MINUTE_CAP \<and> rw_capacity (fc_hour fc) = PER_HOUR_CAP
     \<and> rw_capacity (fc_session fc) = PER_SESSION_CAP
     \<and> rw_iter (fc_minute fc) = last_n PER_MINUTE_CAP hist
     \<and> rw_iter (fc_hour fc) = last_n PER_HOUR_CAP hist
     \<and> rw_iter (fc_session fc) = last_n PER_SESSION_CAP sess"

lemma rw_new_fresh: "0 < n \<Longrightarrow> rw_ok (the (rw_new n d)) \<and> rw_iter (the (rw_new n d)) = [] \<and> rw_capacity (the (rw_new n d)) = n"
  using rw_new_ok [of n d] by (simp add: rw_new_def)

lemma fc_rep_new: "fc_rep fc_new [] []"
  by (simp add: fc_rep_def fc_new_def freq_caps rw_new_fresh)

lemma rw_push_hist:
  "rw_ok w \<Longrightarrow> rw_capacity w = n \<Longrightarrow> rw_iter w = last_n n h \<Longrightarrow> rw_iter (rw_push t w) = last_n n (h @ [t])"
  using fifo_push_last_n [of n t h] rw.cap_pos [of w] by (simp add: rw.items_push)

lemma fc_rep_record: "fc_rep fc h s \<Longrightarrow> fc_rep (fc_record t fc) (h @ [t]) (s @ [t])"
  by (auto simp: fc_rep_def fc_record_def Let_def rw.ok_push rw.cap_push intro: rw_push_hist)

lemma fc_rep_records: "fc_rep fc h s \<Longrightarrow> fc_rep (fold fc_record ts fc) (h @ ts) (s @ ts)"
proof (induction ts arbitrary: fc h s)
  case (Cons t ts)
  then show ?case using Cons.IH [OF fc_rep_record [OF Cons.prems, of t]] by simp
qed simp

lemma fc_rep_reset: "fc_rep fc h s \<Longrightarrow> fc_rep (fc_reset_session fc) h []"
  by (simp add: fc_rep_def fc_reset_session_def rw.ok_clear rw.cap_clear rw.items_clear)

lemma fc_rep_would_breach: "fc_rep fc h s \<Longrightarrow> fc_rep (fst (would_breach t a b c fc)) h s"
  by (simp add: fc_rep_def would_breach_def Let_def)

lemma u32_succ_gt:
  "n \<le> 128 \<Longrightarrow> (of_nat n + 1 :: u32) > m \<longleftrightarrow> n + 1 > unat m"
proof -
  assume n: "n \<le> 128"
  have "(of_nat n + 1 :: u32) = of_nat (n + 1)" by simp
  moreover have "unat (of_nat (n + 1) :: u32) = n + 1"
    using n by (simp only: unat_of_nat) simp
  ultimately have "unat (of_nat n + 1 :: u32) = n + 1" by (simp only:)
  then show ?thesis by (simp only: word_less_nat_alt)
qed

lemma live_upward: "usat_sub now ts \<le> (w :: u64) \<Longrightarrow> ts \<le> ts' \<Longrightarrow> usat_sub now ts' \<le> w"
  by (simp add: word_le_nat_alt unat_usat_sub)

lemma live_count_hist:
  assumes "rw_iter ring = last_n n h" "sorted h"
  shows "live_count ring now w = of_nat (min n (length (filter (\<lambda>ts. usat_sub now ts \<le> w) h)))"
  using assms live_upward
  by (simp add: live_count_filter filter_last_n length_last_n)

text \<open>The counts the three limits are about.\<close>

definition live_in :: "u64 list \<Rightarrow> u64 \<Rightarrow> u64 \<Rightarrow> nat" where
  "live_in h now w = length (filter (\<lambda>ts. usat_sub now ts \<le> w) h)"

lemma would_breach_hist:
  assumes "fc_rep fc h s" "sorted h"
  shows "snd (would_breach now a b c fc) \<longleftrightarrow>
     min PER_MINUTE_CAP (live_in h now NS_PER_MINUTE) + 1 > unat a
     \<or> min PER_HOUR_CAP (live_in h now NS_PER_HOUR) + 1 > unat b
     \<or> min PER_SESSION_CAP (length s) + 1 > unat c"
proof -
  have m: "live_count (fc_minute fc) now NS_PER_MINUTE = of_nat (min PER_MINUTE_CAP (live_in h now NS_PER_MINUTE))"
    and hr: "live_count (fc_hour fc) now NS_PER_HOUR = of_nat (min PER_HOUR_CAP (live_in h now NS_PER_HOUR))"
    using assms by (auto simp: fc_rep_def live_in_def live_count_hist)
  have "rw_len (fc_session fc) = min PER_SESSION_CAP (length s)"
    using assms(1) length_rw_iter [of "fc_session fc"] by (simp add: fc_rep_def length_last_n)
  then show ?thesis
    using u32_succ_gt [of "min PER_MINUTE_CAP (live_in h now NS_PER_MINUTE)" a]
      u32_succ_gt [of "min PER_HOUR_CAP (live_in h now NS_PER_HOUR)" b]
      u32_succ_gt [of "min PER_SESSION_CAP (length s)" c]
    by (simp add: would_breach_def Let_def m hr freq_caps)
qed

subsection \<open>Target and volatility\<close>

interpretation tg: edge_latch "\<lambda>p t. (fst (record_realized p t), snd (record_realized p t) = TargetCrossed)"
  tg_crossed "\<lambda>t p. p \<ge> tg_upper_band_paise t"
  by unfold_locales (auto simp: record_realized_def Let_def)

lemma vt_update_ok: "bt_ok v \<Longrightarrow> bt_ok (fst (vt_update s x th v))"
  by (simp add: vt_update_def Let_def bt_simps)

lemma vt_update_blocked:
  "bt_ok v \<Longrightarrow> vt_is_blocked (fst (vt_update s x th v)) s' th' =
     (if s' = s then flt_lt th' x else vt_is_blocked v s' th')"
  by (simp add: vt_update_def vt_is_blocked_def Let_def bt_simps)

lemma vt_update_transition:
  "snd (vt_update s x th v) =
     (if \<not> vt_is_blocked v s th \<and> flt_lt th x then VolBlocked
      else if vt_is_blocked v s th \<and> \<not> flt_lt th x then VolUnblocked else VolSteady)"
  by (simp add: vt_update_def vt_is_blocked_def Let_def split: option.splits)

subsection \<open>The aggregate\<close>

text \<open>Mark-to-market equity as \<open>update_pnl\<close> computes it.\<close>

definition equity_of :: "capital_config \<Rightarrow> i64 \<Rightarrow> i64 \<Rightarrow> i64" where
  "equity_of capital realized unrealized =
     sat_i64 (sat_i64 (inr_to_paise (base_inr capital) + realized) + unrealized)"

definition rs_ok :: "risk_state \<Rightarrow> bool" where
  "rs_ok st \<longleftrightarrow> bt_ok (per_symbol_position st) \<and> bt_ok (per_symbol_exposure_paise st)
     \<and> bt_ok (rs_cooldowns st) \<and> bt_ok (rs_volatility st) \<and> bt_ok (rs_broker_latency st)
     \<and> (\<exists>h s. fc_rep (rs_frequency st) h s) \<and> 0 \<le> rs_drawdown_paise st"

lemma rs_ok_new: "rs_ok (rs_new capital risk)"
  using fc_rep_new by (auto simp: rs_ok_def rs_new_def cd_new_def)

lemma rs_ok_reset: "rs_ok st \<Longrightarrow> rs_ok (rs_reset_session capital st)"
  by (auto simp: rs_ok_def rs_reset_session_def dest: fc_rep_reset)

lemma sat_i64_nonneg: "0 \<le> x \<Longrightarrow> 0 \<le> sat_i64 x"
  by (auto simp: sat_i64_def i64_defs)

lemma rs_update_pnl_peak:
  "rs_peak_equity_paise (rs_update_pnl r u capital st)
     = max (rs_peak_equity_paise st) (equity_of capital r u)"
  by (simp add: rs_update_pnl_def Let_def equity_of_def)

lemma rs_update_pnl_drawdown:
  "rs_drawdown_paise (rs_update_pnl r u capital st)
     = sat_i64 (max (rs_peak_equity_paise st) (equity_of capital r u) - equity_of capital r u)"
  by (simp add: rs_update_pnl_def Let_def equity_of_def max_def)

lemma rs_ok_update_pnl: "rs_ok st \<Longrightarrow> rs_ok (rs_update_pnl r u capital st)"
proof -
  assume ok: "rs_ok st"
  have "0 \<le> rs_drawdown_paise (rs_update_pnl r u capital st)"
    unfolding rs_update_pnl_drawdown by (rule sat_i64_nonneg) simp
  with ok show ?thesis by (simp add: rs_ok_def rs_update_pnl_def Let_def)
qed

section \<open>Properties\<close>

text \<open>Trade-frequency limits. If timestamps were recorded in order and each limit fits its
  ring (at most 8 per minute, 64 per hour, 128 per session), \<open>would_breach\<close> answers exactly the
  specification over the whole history: one more entry would exceed the number of entries of
  the last minute, of the last hour, or of the session.\<close>

theorem would_breach_exact:
  assumes "fc_rep fc h s" and "sorted h"
    and "unat a \<le> PER_MINUTE_CAP" and "unat b \<le> PER_HOUR_CAP" and "unat c \<le> PER_SESSION_CAP"
  shows "snd (would_breach now a b c fc) \<longleftrightarrow>
    live_in h now NS_PER_MINUTE + 1 > unat a \<or> live_in h now NS_PER_HOUR + 1 > unat b
    \<or> length s + 1 > unat c"
  using would_breach_hist [OF assms(1,2), of now a b c] assms(3-5) by auto

theorem would_breach_exact_witness:
  "snd (would_breach 5000 4 30 60 (fc_record 20 (fc_record 10 fc_new))) \<longleftrightarrow>
    live_in [10, 20] 5000 NS_PER_MINUTE + 1 > unat (4 :: u32)
    \<or> live_in [10, 20] 5000 NS_PER_HOUR + 1 > unat (30 :: u32) \<or> length [10, 20 :: u64] + 1 > unat (60 :: u32)"
  using would_breach_exact [of "fc_record 20 (fc_record 10 fc_new)" "[10, 20]" "[10, 20]" 4 30 60 5000]
    fc_rep_record [OF fc_rep_record [OF fc_rep_new, of 10], of 20]
  by (simp add: freq_caps)

text \<open>The rings cap the counts: with limits above 8 per minute, 64 per hour and 128 per session
  the gate never fires, however many entries were recorded.\<close>

theorem would_breach_ring_limit:
  assumes "fc_rep fc h s" and "sorted h"
    and "PER_MINUTE_CAP < unat a" and "PER_HOUR_CAP < unat b" and "PER_SESSION_CAP < unat c"
  shows "\<not> snd (would_breach now a b c fc)"
  using would_breach_hist [OF assms(1,2), of now a b c] assms(3-5) by (simp add: min_def)

theorem would_breach_ring_limit_witness:
  "\<not> snd (would_breach 9 9 65 129 (fold fc_record (replicate 1000 1) fc_new))"
  using would_breach_ring_limit [of _ "replicate 1000 1" "replicate 1000 1" 9 65 129 9]
    fc_rep_records [OF fc_rep_new, of "replicate 1000 1"]
  by (simp add: freq_caps)

text \<open>Profit target. Over any sequence of cumulative PnL readings since a session start,
  \<open>record_realized\<close> reports the crossing exactly once when some reading reaches the upper band,
  and never otherwise; from then on the target counts as reached.\<close>

theorem target_crossed_exactly_once:
  "length (filter (\<lambda>b. b) (snd (run_latch (\<lambda>p t. (fst (record_realized p t), snd (record_realized p t) = TargetCrossed)) ps (tg_reset_session t))))
     = (if (\<exists>p \<in> set ps. p \<ge> tg_upper_band_paise t) then 1 else 0)
   \<and> (tg_crossed (fst (run_latch (\<lambda>p t. (fst (record_realized p t), snd (record_realized p t) = TargetCrossed)) ps (tg_reset_session t)))
     \<longleftrightarrow> (\<exists>p \<in> set ps. p \<ge> tg_upper_band_paise t))"
  using tg.emission_count [of ps "tg_reset_session t"] tg.latched_after [of ps "tg_reset_session t"]
  by (simp add: tg_reset_session_def)

text \<open>Slippage cooldowns. A registry only ever extends a cooldown: after \<open>engage\<close> a symbol is
  cooling at a time exactly if it was before or the new expiry lies later; after \<open>prune\<close> at
  \<open>n\<close> nothing changes for times from \<open>n\<close> on, and the reported symbols are exactly the
  registered ones whose expiry has passed.\<close>

theorem cooldown_engage_prune:
  assumes "bt_ok c"
  shows "(cd_is_cooling (fst (cd_engage s e r c)) s' t \<longleftrightarrow> cd_is_cooling c s' t \<or> (s' = s \<and> e > t))
    \<and> (n \<le> t \<longrightarrow> (cd_is_cooling (fst (cd_prune n c)) s' t \<longleftrightarrow> cd_is_cooling c s' t))
    \<and> (s' \<in> set (snd (cd_prune n c)) \<longleftrightarrow> bt_get c s' \<noteq> None \<and> \<not> cd_is_cooling c s' n)"
proof -
  have "s' \<in> set (snd (cd_prune n c)) \<longleftrightarrow> bt_get c s' \<noteq> None \<and> \<not> cd_is_cooling c s' n"
    using cd_expired_iff [OF assms]
    by (auto simp: cd_prune_def Let_def cd_is_cooling_def split: option.splits)
  then show ?thesis
    using cd_engage_cooling [OF assms, of s e r s' t] cd_prune_cooling [OF assms, of n t s'] by blast
qed

theorem cooldown_engage_prune_witness:
  "\<not> cd_is_cooling [(7, (100, Slippage))] 7 150
   \<and> cd_is_cooling (fst (cd_engage 7 200 Slippage [(7, (100, Slippage))])) 7 150
   \<and> (7 :: u32) \<in> set (snd (cd_prune 150 [(7, (100, Slippage))]))"
  using cooldown_engage_prune [of "[(7, (100, Slippage))]" 7 200 Slippage 7 150 150]
  by (simp add: bt_ok_def cd_is_cooling_def bt_get_def)

text \<open>Drawdown. After any sequence of \<open>update_pnl\<close> calls the peak is the largest equity seen
  since the session reset (the capital base included), and the drawdown is its distance to
  the current equity (saturated to \<open>i64\<close>), never negative.\<close>

theorem drawdown_is_peak_minus_equity:
  assumes "pnl \<noteq> []"
  shows "let st' = fold (\<lambda>(r, u). rs_update_pnl r u capital) pnl (rs_reset_session capital st);
             eqs = map (\<lambda>(r, u). equity_of capital r u) pnl
         in rs_peak_equity_paise st' = Max (set (inr_to_paise (base_inr capital) # eqs))
            \<and> rs_drawdown_paise st' = sat_i64 (rs_peak_equity_paise st' - last eqs)
            \<and> 0 \<le> rs_drawdown_paise st'"
proof -
  let ?run = "\<lambda>pnl. fold (\<lambda>(r, u). rs_update_pnl r u capital) pnl (rs_reset_session capital st)"
  let ?eqs = "\<lambda>pnl. map (\<lambda>(r, u). equity_of capital r u) pnl"
  have peak: "rs_peak_equity_paise (?run pnl) = Max (set (inr_to_paise (base_inr capital) # ?eqs pnl))" for pnl
  proof (induction pnl rule: rev_induct)
    case Nil
    then show ?case by (simp add: rs_reset_session_def)
  next
    case (snoc p pnl)
    then show ?case
      by (cases p; cases "pnl = []")
        (simp_all add: rs_update_pnl_peak max.commute max.left_commute)
  qed
  obtain pnl' r u where p: "pnl = pnl' @ [(r, u)]"
    using assms by (metis rev_exhaust surj_pair)
  have dd: "rs_drawdown_paise (?run pnl) = sat_i64 (rs_peak_equity_paise (?run pnl) - last (?eqs pnl))"
    by (simp add: p rs_update_pnl_drawdown rs_update_pnl_peak)
  have "last (?eqs pnl) \<le> rs_peak_equity_paise (?run pnl)"
    unfolding peak by (rule Max_ge) (simp_all add: p)
  then have "0 \<le> rs_drawdown_paise (?run pnl)" unfolding dd by (intro sat_i64_nonneg) simp
  with peak [of pnl] dd show ?thesis by (simp only: Let_def)
qed

theorem drawdown_is_peak_minus_equity_witness:
  "rs_drawdown_paise (fold (\<lambda>(r, u). rs_update_pnl r u default_capital) [(5000, 0), (5000, - 2000)]
     (rs_reset_session default_capital (rs_new default_capital default_risk))) = 2000"
  using drawdown_is_peak_minus_equity [of "[(5000, 0), (5000, - 2000)]" default_capital "rs_new default_capital default_risk"]
  by (simp add: Let_def equity_of_def default_capital_def inr_to_paise_def i64_defs sat_i64_def)

end
