(* ===== verification/Approval.thy ===== *)
theory Approval
  imports Core_Types
begin

text \<open>
  Approval tokens (\<open>hedge-risk/src/approval.rs\<close>): the canonical 63-byte encoding of an order
  intent with the engine's extension fields, its MAC, and verification. HMAC-SHA256 is third
  party code: the function \<open>hmac\<close> (key, message, digest) is an argument of the definitions.
  The locale \<open>mac_scheme\<close> is what the Execution_Engine relies on.
\<close>

section \<open>Wire records (hedge-schemas/src/generated)\<close>

text \<open>\<open>exchange\<close> is an \<open>i8\<close>, kept as its bit pattern.\<close>

record order_intent =
  oi_correlation_id :: "u8 list"
  oi_symbol :: u32
  oi_side :: u8
  oi_quantity :: u64
  oi_order_type :: u8
  oi_limit_paise :: i64
  oi_exchange :: u8

text \<open>A Rust \<open>[u8; 16]\<close> and an \<open>i64\<close>.\<close>

definition wf_intent :: "order_intent \<Rightarrow> bool" where
  "wf_intent i \<longleftrightarrow> length (oi_correlation_id i) = 16 \<and> in_i64 (oi_limit_paise i)"

section \<open>Canonical bytes and tokens\<close>

type_synonym approval_token = "u8 list"
type_synonym hmac_fn = "u8 list \<Rightarrow> u8 list \<Rightarrow> u8 list"

definition INTENT_CANONICAL_BYTES :: nat where
  "INTENT_CANONICAL_BYTES = 63"

definition push_canonical :: "u8 list \<Rightarrow> order_intent \<Rightarrow> u64 \<Rightarrow> u64 \<Rightarrow> u64 \<Rightarrow> u8 list" where
  "push_canonical out intent sized_quantity ts_ns seq =
     (let cid = cid_of_bytes (oi_correlation_id intent);
          out = out @ u128_be cid;
          out = out @ u32_be (oi_symbol intent);
          out = out @ [oi_side intent];
          out = out @ u64_be (oi_quantity intent);
          out = out @ [oi_order_type intent];
          out = out @ i64_be (oi_limit_paise intent);
          out = out @ [oi_exchange intent];
          out = out @ u64_be sized_quantity;
          out = out @ u64_be ts_ns
      in out @ u64_be seq)"

definition canonicalize_intent_bytes :: "order_intent \<Rightarrow> u64 \<Rightarrow> u64 \<Rightarrow> u64 \<Rightarrow> u8 list" where
  "canonicalize_intent_bytes intent sized_quantity ts_ns seq =
     push_canonical [] intent sized_quantity ts_ns seq"

text \<open>\<open>buf[off..off + n].copy_from_slice\<close>: overwrite in place; the next offset is returned.\<close>

definition put_slice :: "u8 list \<Rightarrow> u8 list \<times> nat \<Rightarrow> u8 list \<times> nat" where
  "put_slice bs bo =
     (take (snd bo) (fst bo) @ bs @ drop (snd bo + length bs) (fst bo), snd bo + length bs)"

definition write_canonical_to_array :: "u8 list \<Rightarrow> order_intent \<Rightarrow> u64 \<Rightarrow> u64 \<Rightarrow> u64 \<Rightarrow> u8 list" where
  "write_canonical_to_array buf intent sized_quantity ts_ns seq =
     (let cid = cid_of_bytes (oi_correlation_id intent);
          bo = put_slice (u128_be cid) (buf, 0);
          bo = put_slice (u32_be (oi_symbol intent)) bo;
          bo = put_slice [oi_side intent] bo;
          bo = put_slice (u64_be (oi_quantity intent)) bo;
          bo = put_slice [oi_order_type intent] bo;
          bo = put_slice (i64_be (oi_limit_paise intent)) bo;
          bo = put_slice [oi_exchange intent] bo;
          bo = put_slice (u64_be sized_quantity) bo;
          bo = put_slice (u64_be ts_ns) bo;
          bo = put_slice (u64_be seq) bo
      in fst bo)"

definition canonical_array :: "order_intent \<Rightarrow> u64 \<Rightarrow> u64 \<Rightarrow> u64 \<Rightarrow> u8 list" where
  "canonical_array intent sized_quantity ts_ns seq =
     write_canonical_to_array (replicate INTENT_CANONICAL_BYTES 0) intent sized_quantity ts_ns seq"

text \<open>\<open>ApprovalSigner::sign\<close> and \<open>ApprovalVerifier::verify\<close>; \<open>Hmac::verify_slice\<close> succeeds
  exactly when the tag is the digest of the message.\<close>

definition approval_sign :: "hmac_fn \<Rightarrow> u8 list \<Rightarrow> order_intent \<Rightarrow> u64 \<Rightarrow> u64 \<Rightarrow> u64 \<Rightarrow> approval_token"
where
  "approval_sign hmac key intent sized_quantity ts_ns seq =
     hmac key (canonical_array intent sized_quantity ts_ns seq)"

definition approval_verify ::
  "hmac_fn \<Rightarrow> u8 list \<Rightarrow> approval_token \<Rightarrow> order_intent \<Rightarrow> u64 \<Rightarrow> u64 \<Rightarrow> u64 \<Rightarrow> bool" where
  "approval_verify hmac key token intent sized_quantity ts_ns seq \<longleftrightarrow>
     token = hmac key (canonical_array intent sized_quantity ts_ns seq)"

text \<open>\<open>ApprovalToken::to_hex\<close>.\<close>

definition token_to_hex :: "approval_token \<Rightarrow> string" where
  "token_to_hex token = concat (map hex2 token)"

section \<open>Lemmas\<close>

lemma put_slice_step:
  "length acc = off \<Longrightarrow> put_slice bs (acc @ rest, off) = ((acc @ bs) @ drop (length bs) rest, length (acc @ bs))"
  by (simp add: put_slice_def)

lemma length_canonicalize: "length (canonicalize_intent_bytes i q t s) = INTENT_CANONICAL_BYTES"
  by (simp add: canonicalize_intent_bytes_def push_canonical_def Let_def INTENT_CANONICAL_BYTES_def)

lemma canonical_array_eq: "canonical_array i q t s = canonicalize_intent_bytes i q t s"
proof -
  have start: "(replicate INTENT_CANONICAL_BYTES 0, 0) = ([] @ replicate INTENT_CANONICAL_BYTES 0, length ([] :: u8 list))"
    by simp
  show ?thesis
    unfolding canonical_array_def write_canonical_to_array_def canonicalize_intent_bytes_def
      push_canonical_def Let_def start
    by (simp only: put_slice_step [OF refl] fst_conv)
      (simp add: INTENT_CANONICAL_BYTES_def)
qed

lemma canonicalize_inj:
  assumes "wf_intent i" "wf_intent j"
    and eq: "canonicalize_intent_bytes i q t s = canonicalize_intent_bytes j q' t' s'"
  shows "i = j \<and> q = q' \<and> t = t' \<and> s = s'"
proof -
  have cid: "length (oi_correlation_id i) = 16" "length (oi_correlation_id j) = 16"
    using assms by (auto simp: wf_intent_def)
  have "oi_correlation_id i = oi_correlation_id j \<and> oi_symbol i = oi_symbol j \<and> oi_side i = oi_side j
    \<and> oi_quantity i = oi_quantity j \<and> oi_order_type i = oi_order_type j
    \<and> i64_be (oi_limit_paise i) = i64_be (oi_limit_paise j) \<and> oi_exchange i = oi_exchange j
    \<and> q = q' \<and> t = t' \<and> s = s'"
    using eq cid
    by (simp add: canonicalize_intent_bytes_def push_canonical_def Let_def cid_bytes_roundtrip)
  then show ?thesis using assms by (simp add: wf_intent_def i64_be_inj)
qed

section \<open>The contract of the signer and verifier pair\<close>

locale mac_scheme =
  fixes sign :: "'k \<Rightarrow> 'm \<Rightarrow> 't"
    and verify :: "'k \<Rightarrow> 't \<Rightarrow> 'm \<Rightarrow> bool"
  assumes verify_iff: "verify k t m \<longleftrightarrow> t = sign k m"
begin

lemma complete: "verify k (sign k m) m"
  by (simp add: verify_iff)

lemma unique_token: "verify k t m \<Longrightarrow> verify k t' m \<Longrightarrow> t = t'"
  by (simp add: verify_iff)

lemma cross_verify: "verify k (sign k m) m' \<longleftrightarrow> sign k m = sign k m'"
  by (simp add: verify_iff)

end

type_synonym signed_fields = "order_intent \<times> u64 \<times> u64 \<times> u64"

definition sign_fields :: "hmac_fn \<Rightarrow> u8 list \<Rightarrow> signed_fields \<Rightarrow> approval_token" where
  "sign_fields hmac key m = (case m of (i, q, t, s) \<Rightarrow> approval_sign hmac key i q t s)"

definition verify_fields :: "hmac_fn \<Rightarrow> u8 list \<Rightarrow> approval_token \<Rightarrow> signed_fields \<Rightarrow> bool" where
  "verify_fields hmac key token m = (case m of (i, q, t, s) \<Rightarrow> approval_verify hmac key token i q t s)"

interpretation ap: mac_scheme "sign_fields hmac" "verify_fields hmac" for hmac
  by unfold_locales
    (simp add: sign_fields_def verify_fields_def approval_sign_def approval_verify_def split: prod.splits)

section \<open>Properties\<close>

text \<open>Canonical bytes. The allocating encoder \<open>canonicalize_intent_bytes\<close> and the in-place
  encoder used by \<open>sign\<close> and \<open>verify\<close> write the same 63 bytes for every intent.\<close>

theorem canonical_encoders_agree:
  "canonical_array i q t s = canonicalize_intent_bytes i q t s
   \<and> length (canonical_array i q t s) = INTENT_CANONICAL_BYTES"
  by (simp add: canonical_array_eq length_canonicalize)

text \<open>C30: Approval tokens bind. A freshly signed token verifies for its own fields; it verifies
  for any other well-formed intent, quantity, timestamp or sequence number only if HMAC
  collides on two different 63-byte messages under the signing key.\<close>

theorem approval_token_binds:
  assumes "wf_intent i" and "wf_intent j"
  shows "approval_verify hmac key (approval_sign hmac key i q t s) i q t s
    \<and> (approval_verify hmac key (approval_sign hmac key i q t s) j q' t' s' \<longleftrightarrow>
        (j, q', t', s') = (i, q, t, s)
        \<or> (canonicalize_intent_bytes i q t s \<noteq> canonicalize_intent_bytes j q' t' s'
           \<and> hmac key (canonicalize_intent_bytes i q t s) = hmac key (canonicalize_intent_bytes j q' t' s')))"
proof -
  have "approval_verify hmac key (approval_sign hmac key i q t s) i q t s"
    using ap.complete [of hmac key "(i, q, t, s)"] by (simp add: sign_fields_def verify_fields_def)
  moreover have "approval_verify hmac key (approval_sign hmac key i q t s) j q' t' s' \<longleftrightarrow>
      hmac key (canonicalize_intent_bytes i q t s) = hmac key (canonicalize_intent_bytes j q' t' s')"
    using ap.cross_verify [of hmac key "(i, q, t, s)" "(j, q', t', s')"]
    by (simp add: sign_fields_def verify_fields_def approval_sign_def canonical_array_eq)
  ultimately show ?thesis
    using canonicalize_inj [OF assms, of q t s q' t' s'] by auto
qed

definition sample_intent :: "u64 \<Rightarrow> order_intent" where
  "sample_intent q = \<lparr>oi_correlation_id = replicate 16 7, oi_symbol = 3, oi_side = 0, oi_quantity = q,
     oi_order_type = 0, oi_limit_paise = 0, oi_exchange = 0\<rparr>"

lemma wf_sample_intent [simp]: "wf_intent (sample_intent q)"
  by (simp add: wf_intent_def sample_intent_def)

lemma sample_intent_eq [simp]: "sample_intent q = sample_intent r \<longleftrightarrow> q = r"
  by (simp add: sample_intent_def)

theorem approval_token_binds_witness:
  "approval_verify (\<lambda>k m. k @ m) [1] (approval_sign (\<lambda>k m. k @ m) [1] (sample_intent 5) 5 9 1) (sample_intent 5) 5 9 1
   \<and> \<not> approval_verify (\<lambda>k m. k @ m) [1] (approval_sign (\<lambda>k m. k @ m) [1] (sample_intent 5) 5 9 1) (sample_intent 6) 5 9 1"
  using approval_token_binds [of "sample_intent 5" "sample_intent 6" "\<lambda>k m. k @ m" "[1]" 5 9 1 5 9 1]
  by simp

end
