(* ===== verification/Risk_Engine.thy ===== *)
theory Risk_Engine
  imports Risk_State Approval
begin

text \<open>
  The Risk_Engine (\<open>hedge-risk/src/engine.rs\<close>, \<open>decision.rs\<close>, \<open>warmcache.rs\<close>): the fifteen
  steps of \<open>evaluate_inner\<close> in order, with the gate trace, the Kill_Switch side effect, the
  adaptive sizing in IEEE arithmetic and the minting of the token. The wall clock is read four
  times during an evaluation; the readings are an argument.
\<close>

section \<open>Decisions (decision.rs)\<close>

datatype gate_outcome = GatePass | GateReject rejection_reason

record risk_rationale =
  g_kill_switch :: "gate_outcome option"
  g_session_time :: "gate_outcome option"
  g_daily_loss :: "gate_outcome option"
  g_drawdown :: "gate_outcome option"
  g_frequency :: "gate_outcome option"
  g_position_size :: "gate_outcome option"
  g_leverage :: "gate_outcome option"
  g_exposure :: "gate_outcome option"
  g_slippage_cooldown :: "gate_outcome option"
  g_volatility_block :: "gate_outcome option"
  g_broker_latency_block :: "gate_outcome option"
  g_profit_target :: "gate_outcome option"
  g_adaptive_risk :: "gate_outcome option"

definition rationale_default :: risk_rationale where
  "rationale_default = \<lparr>g_kill_switch = None, g_session_time = None, g_daily_loss = None,
     g_drawdown = None, g_frequency = None, g_position_size = None, g_leverage = None,
     g_exposure = None, g_slippage_cooldown = None, g_volatility_block = None,
     g_broker_latency_block = None, g_profit_target = None, g_adaptive_risk = None\<rparr>"

definition rationale_gates :: "risk_rationale \<Rightarrow> gate_outcome option list" where
  "rationale_gates r = [g_kill_switch r, g_session_time r, g_daily_loss r, g_drawdown r,
     g_frequency r, g_position_size r, g_leverage r, g_exposure r, g_slippage_cooldown r,
     g_volatility_block r, g_broker_latency_block r, g_profit_target r, g_adaptive_risk r]"

definition all_passed :: "risk_rationale \<Rightarrow> bool" where
  "all_passed r \<longleftrightarrow> list_ex (\<lambda>g. g \<noteq> None) (rationale_gates r)
     \<and> list_all (\<lambda>g. g = Some GatePass \<or> g = None) (rationale_gates r)"

datatype risk_decision =
    ApprovedDecision approval_token u64 risk_rationale
  | RejectedDecision rejection_reason risk_rationale

fun is_approved :: "risk_decision \<Rightarrow> bool" where
  "is_approved (ApprovedDecision t q r) = True"
| "is_approved (RejectedDecision reason r) = False"

fun decision_reason :: "risk_decision \<Rightarrow> rejection_reason option" where
  "decision_reason (ApprovedDecision t q r) = None"
| "decision_reason (RejectedDecision reason r) = Some reason"

fun decision_token :: "risk_decision \<Rightarrow> approval_token option" where
  "decision_token (ApprovedDecision t q r) = Some t"
| "decision_token (RejectedDecision reason r) = None"

fun decision_quantity :: "risk_decision \<Rightarrow> u64" where
  "decision_quantity (ApprovedDecision t q r) = q"
| "decision_quantity (RejectedDecision reason r) = 0"

fun decision_rationale :: "risk_decision \<Rightarrow> risk_rationale" where
  "decision_rationale (ApprovedDecision t q r) = r"
| "decision_rationale (RejectedDecision reason r) = r"

section \<open>Signals and the warm-cache view\<close>

record risk_profile =
  stop_loss_paise :: i64
  take_profit_paise :: i64
  max_size_qty :: u64
  time_horizon_seconds :: u32

record signal =
  sg_correlation_id :: "u8 list"
  sg_strategy :: u8
  sg_symbol :: u32
  sg_side :: u8
  sg_base_probability :: flt
  sg_confidence :: flt
  sg_risk_profile :: risk_profile
  sg_ts_ns :: u64

text \<open>What the trait \<open>WarmCacheView\<close> offers, and the in-memory implementation of the crate.\<close>

record warm_cache_view =
  wc_market_stability :: flt
  wc_trade_confidence :: "correlation_id \<Rightarrow> flt option"
  wc_trader_stability :: flt

record mock_state =
  mk_market_stability :: flt
  mk_trader_stability :: flt
  mk_trade_confidence :: "correlation_id \<rightharpoonup> flt"
  mk_confidence_stale :: bool

definition mock_neutral :: mock_state where
  "mock_neutral = \<lparr>mk_market_stability = Fin 1, mk_trader_stability = Fin 1,
     mk_trade_confidence = (\<lambda>_. None), mk_confidence_stale = False\<rparr>"

definition mock_set_trade_confidence :: "correlation_id \<Rightarrow> flt \<Rightarrow> mock_state \<Rightarrow> mock_state" where
  "mock_set_trade_confidence cid v m = m\<lparr>mk_trade_confidence := (mk_trade_confidence m)(cid \<mapsto> v)\<rparr>"

definition mock_view :: "mock_state \<Rightarrow> warm_cache_view" where
  "mock_view m = \<lparr>wc_market_stability = mk_market_stability m,
     wc_trade_confidence = (\<lambda>cid. if mk_confidence_stale m then None else mk_trade_confidence m cid),
     wc_trader_stability = mk_trader_stability m\<rparr>"

section \<open>The engine (engine.rs)\<close>

datatype weekday = Mon | Tue | Wed | Thu | Fri | Sat | Sun

text \<open>The readings of one evaluation: the wall clock in \<open>Asia/Kolkata\<close> (conversion by
  \<open>chrono-tz\<close>) and \<open>now_ns()\<close> at steps 5, 9 and 15.\<close>

record eval_clock =
  ist_weekday :: weekday
  ist_hour :: nat
  ist_minute :: nat
  ist_second :: nat
  now_ns_frequency :: u64
  now_ns_cooldown :: u64
  now_ns_mint :: u64

record risk_engine =
  re_capital :: capital_config
  re_risk_cfg :: risk_config
  re_session_cfg :: session_config
  re_signer_key :: "u8 list"
  re_kill_switch :: kill_switch
  re_state :: risk_state
  re_sequence :: u64

definition re_new :: "capital_config \<Rightarrow> risk_config \<Rightarrow> session_config \<Rightarrow> u8 list \<Rightarrow> risk_engine" where
  "re_new capital risk_cfg session_cfg key = \<lparr>re_capital = capital, re_risk_cfg = risk_cfg,
     re_session_cfg = session_cfg, re_signer_key = key, re_kill_switch = ks_new,
     re_state = rs_new capital risk_cfg, re_sequence = 1\<rparr>"

definition is_within_session :: "session_config \<Rightarrow> eval_clock \<Rightarrow> bool" where
  "is_within_session cfg now =
     (if ist_weekday now = Sat \<or> ist_weekday now = Sun then False
      else let now_time = the (from_hms_opt (ist_hour now) (ist_minute now) (ist_second now))
           in now_time \<ge> start_ist cfg \<and> now_time \<le> end_ist cfg)"

definition clamp01 :: "flt \<Rightarrow> flt" where
  "clamp01 v = (if v = NaN \<or> flt_lt v (Fin 0) then Fin 0
                else if flt_lt (Fin 1) v then Fin 1 else v)"

definition any_broker_ok :: "broker_latency_table \<Rightarrow> u32 \<Rightarrow> bool" where
  "any_broker_ok table threshold =
     list_ex (\<lambda>b. case bl_latency_ms table b of Some ms \<Rightarrow> ms \<le> threshold | None \<Rightarrow> True)
       [Zerodha, Dhan, Shoonya, AngelOne, Upstox]"

text \<open>Step 13: \<open>Adaptive_Risk\<close>, the base risk scaled by three factors in \<open>f64\<close>.\<close>

definition adaptive_risk :: "risk_config \<Rightarrow> warm_cache_view \<Rightarrow> signal \<Rightarrow> correlation_id \<Rightarrow> i64" where
  "adaptive_risk cfg wc sig cid =
     (let base = flt_of_int F64 (inr_to_paise (base_risk_per_trade_inr cfg));
          market_stability = clamp01 (wc_market_stability wc);
          signal_confidence = clamp01 (case wc_trade_confidence wc cid of
                                         Some c \<Rightarrow> c | None \<Rightarrow> sg_confidence sig);
          trader_discipline = clamp01 (wc_trader_stability wc);
          scaled = fmul F64 (fmul F64 (fmul F64 base market_stability) signal_confidence) trader_discipline
      in if is_finite_flt scaled \<and> flt_lt (Fin 0) scaled then flt_to_i64 (flt_min scaled base) else 0)"

text \<open>Step 14: the share count.\<close>

definition sized_quantity :: "risk_state \<Rightarrow> i64 \<Rightarrow> i64 \<Rightarrow> u64 \<Rightarrow> u64" where
  "sized_quantity st adaptive_risk_paise entry_price_paise max_size =
     (let q = (if entry_price_paise > 0
               then of_int (adaptive_risk_paise div entry_price_paise) else 0);
          q = (if should_halve (rs_target st) then q div 2 else q);
          q = min q max_size
      in if q = 0 then 1 else q)"

definition prospective_qty :: "signal \<Rightarrow> u64" where
  "prospective_qty sig = max (max_size_qty (sg_risk_profile sig)) 1"

definition get_or :: "('k, 'v) btree \<Rightarrow> 'k \<Rightarrow> 'v \<Rightarrow> 'v" where
  "get_or m k d = (case bt_get m k of Some v \<Rightarrow> v | None \<Rightarrow> d)"

definition position_breach :: "risk_config \<Rightarrow> risk_state \<Rightarrow> signal \<Rightarrow> bool" where
  "position_breach cfg st sig \<longleftrightarrow>
     usat_add (get_or (per_symbol_position st) (sg_symbol sig) 0) (prospective_qty sig)
       > ucast (max_position_per_symbol cfg)
     \<or> usat_add (portfolio_position st) (prospective_qty sig) > ucast (max_position_portfolio cfg)"

definition prospective_exposure :: "signal \<Rightarrow> i64 \<Rightarrow> i64" where
  "prospective_exposure sig entry_price_paise =
     sat_i64 (entry_price_paise * wrap_i64 (uint (prospective_qty sig)))"

definition leverage_breach :: "capital_config \<Rightarrow> risk_config \<Rightarrow> risk_state \<Rightarrow> signal \<Rightarrow> i64 \<Rightarrow> bool" where
  "leverage_breach capital cfg st sig entry_price_paise =
     (let capital_paise = inr_to_paise (base_inr capital);
          notional = sat_i64 (aggregate_notional_paise st + prospective_exposure sig entry_price_paise)
      in capital_paise > 0
         \<and> flt_lt (max_leverage_account cfg)
             (fdiv F64 (flt_of_int F64 notional) (flt_of_int F64 capital_paise)))"

definition exposure_breach :: "risk_config \<Rightarrow> risk_state \<Rightarrow> signal \<Rightarrow> i64 \<Rightarrow> bool" where
  "exposure_breach cfg st sig entry_price_paise \<longleftrightarrow>
     sat_i64 (get_or (per_symbol_exposure_paise st) (sg_symbol sig) 0
                + prospective_exposure sig entry_price_paise)
       > inr_to_paise (max_exposure_per_symbol_inr cfg)"

definition mint :: "hmac_fn \<Rightarrow> risk_engine \<Rightarrow> signal \<Rightarrow> u64 \<Rightarrow> u64 \<Rightarrow> risk_engine \<times> approval_token" where
  "mint hmac e sig q ts_ns =
     (let intent = \<lparr>oi_correlation_id = sg_correlation_id sig, oi_symbol = sg_symbol sig,
            oi_side = sg_side sig, oi_quantity = q, oi_order_type = 0,
            oi_limit_paise = take_profit_paise (sg_risk_profile sig), oi_exchange = 0\<rparr>
      in (e\<lparr>re_sequence := re_sequence e + 1\<rparr>,
          approval_sign hmac (re_signer_key e) intent q ts_ns (re_sequence e)))"

text \<open>Steps 9 to 15, after the exposure gate has passed.\<close>

definition evaluate_tail ::
  "hmac_fn \<Rightarrow> warm_cache_view \<Rightarrow> eval_clock \<Rightarrow> signal \<Rightarrow> i64 \<Rightarrow> correlation_id \<Rightarrow> risk_rationale
     \<Rightarrow> risk_engine \<Rightarrow> risk_engine \<times> risk_decision" where
  "evaluate_tail hmac wc now sig entry_price_paise cid rat e =
     (let cfg = re_risk_cfg e; symbol = sg_symbol sig; st = re_state e
      in if cd_is_cooling (rs_cooldowns st) symbol (now_ns_cooldown now) then
           (e, RejectedDecision SlippageCooldown
                 (rat\<lparr>g_slippage_cooldown := Some (GateReject SlippageCooldown)\<rparr>))
      else let rat = rat\<lparr>g_slippage_cooldown := Some GatePass\<rparr>
      in if vt_is_blocked (rs_volatility st) symbol (volatility_block_threshold cfg) then
           (e, RejectedDecision VolatilityBlock
                 (rat\<lparr>g_volatility_block := Some (GateReject VolatilityBlock)\<rparr>))
      else let rat = rat\<lparr>g_volatility_block := Some GatePass\<rparr>
      in if \<not> any_broker_ok (rs_broker_latency st) (broker_latency_block_ms cfg) then
           (e, RejectedDecision BrokerLatencyBlock
                 (rat\<lparr>g_broker_latency_block := Some (GateReject BrokerLatencyBlock)\<rparr>))
      else let rat = rat\<lparr>g_broker_latency_block := Some GatePass\<rparr>
      in if should_reject (rs_target st) then
           (e, RejectedDecision ProfitTargetReached
                 (rat\<lparr>g_profit_target := Some (GateReject ProfitTargetReached)\<rparr>))
      else let rat = rat\<lparr>g_profit_target := Some GatePass\<rparr>;
               adaptive = adaptive_risk cfg wc sig cid
      in if adaptive \<le> 0 then
           (e, RejectedDecision AdaptiveRiskZero
                 (rat\<lparr>g_adaptive_risk := Some (GateReject AdaptiveRiskZero)\<rparr>))
      else let rat = rat\<lparr>g_adaptive_risk := Some GatePass\<rparr>;
               q = sized_quantity st adaptive entry_price_paise (max_size_qty (sg_risk_profile sig));
               (e, token) = mint hmac e sig q (now_ns_mint now)
      in (e, ApprovedDecision token q rat))"

text \<open>Steps 1 to 8.\<close>

definition evaluate_inner ::
  "hmac_fn \<Rightarrow> warm_cache_view \<Rightarrow> eval_clock \<Rightarrow> signal \<Rightarrow> i64 \<Rightarrow> correlation_id \<Rightarrow> risk_engine
     \<Rightarrow> risk_engine \<times> risk_decision" where
  "evaluate_inner hmac wc now sig entry_price_paise cid e =
     (let rat = rationale_default; cfg = re_risk_cfg e
      in if ks_active (re_kill_switch e) then
           (e, RejectedDecision KillSwitchEngaged (rat\<lparr>g_kill_switch := Some (GateReject KillSwitchEngaged)\<rparr>))
      else let rat = rat\<lparr>g_kill_switch := Some GatePass\<rparr>
      in if \<not> is_within_session (re_session_cfg e) now then
           (e, RejectedDecision SessionClosed (rat\<lparr>g_session_time := Some (GateReject SessionClosed)\<rparr>))
      else let rat = rat\<lparr>g_session_time := Some GatePass\<rparr>; st = re_state e
      in if total_pnl_paise st \<le> - inr_to_paise (max_daily_loss_inr cfg) then
           (e, RejectedDecision MaxDailyLoss (rat\<lparr>g_daily_loss := Some (GateReject MaxDailyLoss)\<rparr>))
      else let rat = rat\<lparr>g_daily_loss := Some GatePass\<rparr>
      in if rs_drawdown_paise st \<ge> inr_to_paise (max_drawdown_inr cfg) then
           (e\<lparr>re_kill_switch := fst (ks_activate KillMaxDrawdown (re_kill_switch e))\<rparr>,
            RejectedDecision MaxDrawdown (rat\<lparr>g_drawdown := Some (GateReject MaxDrawdown)\<rparr>))
      else let rat = rat\<lparr>g_drawdown := Some GatePass\<rparr>;
               (freq, breach) = would_breach (now_ns_frequency now) (max_trades_per_minute cfg)
                  (max_trades_per_hour cfg) (max_trades_per_session cfg) (rs_frequency st);
               st = st\<lparr>rs_frequency := freq\<rparr>; e = e\<lparr>re_state := st\<rparr>
      in if breach then
           (e, RejectedDecision TradeFrequency (rat\<lparr>g_frequency := Some (GateReject TradeFrequency)\<rparr>))
      else let rat = rat\<lparr>g_frequency := Some GatePass\<rparr>
      in if position_breach cfg st sig then
           (e, RejectedDecision MaxPosition (rat\<lparr>g_position_size := Some (GateReject MaxPosition)\<rparr>))
      else let rat = rat\<lparr>g_position_size := Some GatePass\<rparr>
      in if leverage_breach (re_capital e) cfg st sig entry_price_paise then
           (e, RejectedDecision MaxLeverage (rat\<lparr>g_leverage := Some (GateReject MaxLeverage)\<rparr>))
      else let rat = rat\<lparr>g_leverage := Some GatePass\<rparr>
      in if exposure_breach cfg st sig entry_price_paise then
           (e, RejectedDecision MaxExposure (rat\<lparr>g_exposure := Some (GateReject MaxExposure)\<rparr>))
      else evaluate_tail hmac wc now sig entry_price_paise cid (rat\<lparr>g_exposure := Some GatePass\<rparr>) e)"

text \<open>\<open>evaluate\<close> and \<open>evaluate_no_obs\<close> differ only in the latency record they emit.\<close>

definition evaluate :: "hmac_fn \<Rightarrow> warm_cache_view \<Rightarrow> eval_clock \<Rightarrow> signal \<Rightarrow> i64 \<Rightarrow> risk_engine
     \<Rightarrow> risk_engine \<times> risk_decision" where
  "evaluate hmac wc now sig entry_price_paise e =
     evaluate_inner hmac wc now sig entry_price_paise (cid_of_bytes (sg_correlation_id sig)) e"

section \<open>Lemmas\<close>

subsection \<open>Reading the cascade\<close>

text \<open>The gates in order: the reason of the first that rejects.\<close>

definition breach_of :: "eval_clock \<Rightarrow> risk_engine \<Rightarrow> bool" where
  "breach_of now e = snd (would_breach (now_ns_frequency now) (max_trades_per_minute (re_risk_cfg e))
     (max_trades_per_hour (re_risk_cfg e)) (max_trades_per_session (re_risk_cfg e)) (rs_frequency (re_state e)))"

definition gate_checks ::
  "warm_cache_view \<Rightarrow> eval_clock \<Rightarrow> signal \<Rightarrow> i64 \<Rightarrow> risk_engine \<Rightarrow> (bool \<times> rejection_reason) list" where
  "gate_checks wc now sig px e =
     (let cfg = re_risk_cfg e; st = re_state e
      in [(ks_active (re_kill_switch e), KillSwitchEngaged),
          (\<not> is_within_session (re_session_cfg e) now, SessionClosed),
          (total_pnl_paise st \<le> - inr_to_paise (max_daily_loss_inr cfg), MaxDailyLoss),
          (rs_drawdown_paise st \<ge> inr_to_paise (max_drawdown_inr cfg), MaxDrawdown),
          (breach_of now e, TradeFrequency),
          (position_breach cfg st sig, MaxPosition),
          (leverage_breach (re_capital e) cfg st sig px, MaxLeverage),
          (exposure_breach cfg st sig px, MaxExposure),
          (cd_is_cooling (rs_cooldowns st) (sg_symbol sig) (now_ns_cooldown now), SlippageCooldown),
          (vt_is_blocked (rs_volatility st) (sg_symbol sig) (volatility_block_threshold cfg), VolatilityBlock),
          (\<not> any_broker_ok (rs_broker_latency st) (broker_latency_block_ms cfg), BrokerLatencyBlock),
          (should_reject (rs_target st), ProfitTargetReached),
          (adaptive_risk cfg wc sig (cid_of_bytes (sg_correlation_id sig)) \<le> 0, AdaptiveRiskZero)])"

fun first_breach :: "(bool \<times> rejection_reason) list \<Rightarrow> rejection_reason option" where
  "first_breach [] = None"
| "first_breach ((b, r) # gs) = (if b then Some r else first_breach gs)"

fun gate_trace :: "(bool \<times> rejection_reason) list \<Rightarrow> gate_outcome option list" where
  "gate_trace [] = []"
| "gate_trace ((b, r) # gs) =
     (if b then Some (GateReject r) # map (\<lambda>_. None) gs else Some GatePass # gate_trace gs)"

lemma first_breach_None: "first_breach gs = None \<longleftrightarrow> (\<forall>g \<in> set gs. \<not> fst g)"
  by (induction gs rule: first_breach.induct) auto

lemma breach_frame [simp]:
  "position_breach cfg (st\<lparr>rs_frequency := f\<rparr>) sig = position_breach cfg st sig"
  "leverage_breach cap cfg (st\<lparr>rs_frequency := f\<rparr>) sig px = leverage_breach cap cfg st sig px"
  "exposure_breach cfg (st\<lparr>rs_frequency := f\<rparr>) sig px = exposure_breach cfg st sig px"
  "sized_quantity (st\<lparr>rs_frequency := f\<rparr>) a px m = sized_quantity st a px m"
  by (simp_all add: position_breach_def leverage_breach_def exposure_breach_def sized_quantity_def)

lemmas evaluate_unfold = evaluate_def evaluate_inner_def evaluate_tail_def Let_def case_prod_beta gate_checks_def
  breach_of_def mint_def

lemma evaluate_reason:
  "decision_reason (snd (evaluate hmac wc now sig px e)) = first_breach (gate_checks wc now sig px e)"
  by (simp add: evaluate_unfold)

lemma evaluate_trace:
  "rationale_gates (decision_rationale (snd (evaluate hmac wc now sig px e)))
     = gate_trace (gate_checks wc now sig px e)"
  by (simp add: evaluate_unfold rationale_gates_def rationale_default_def)

lemma is_approved_iff: "is_approved d \<longleftrightarrow> decision_reason d = None"
  by (cases d) simp_all

lemma evaluate_approved_iff:
  "is_approved (snd (evaluate hmac wc now sig px e)) \<longleftrightarrow> (\<forall>g \<in> set (gate_checks wc now sig px e). \<not> fst g)"
  by (simp add: is_approved_iff evaluate_reason first_breach_None)

definition minted_intent :: "signal \<Rightarrow> u64 \<Rightarrow> order_intent" where
  "minted_intent sig q = \<lparr>oi_correlation_id = sg_correlation_id sig, oi_symbol = sg_symbol sig,
     oi_side = sg_side sig, oi_quantity = q, oi_order_type = 0,
     oi_limit_paise = take_profit_paise (sg_risk_profile sig), oi_exchange = 0\<rparr>"

definition approved_qty :: "warm_cache_view \<Rightarrow> signal \<Rightarrow> i64 \<Rightarrow> risk_engine \<Rightarrow> u64" where
  "approved_qty wc sig px e = sized_quantity (re_state e)
     (adaptive_risk (re_risk_cfg e) wc sig (cid_of_bytes (sg_correlation_id sig))) px
     (max_size_qty (sg_risk_profile sig))"

lemma evaluate_approved:
  assumes "is_approved (snd (evaluate hmac wc now sig px e))"
  shows "decision_quantity (snd (evaluate hmac wc now sig px e)) = approved_qty wc sig px e"
    and "decision_token (snd (evaluate hmac wc now sig px e)) =
      Some (approval_sign hmac (re_signer_key e) (minted_intent sig (approved_qty wc sig px e))
        (approved_qty wc sig px e) (now_ns_mint now) (re_sequence e))"
    and "re_sequence (fst (evaluate hmac wc now sig px e)) = re_sequence e + 1"
  using assms unfolding evaluate_approved_iff
  by (simp_all add: evaluate_unfold approved_qty_def minted_intent_def)

lemma evaluate_rejected:
  assumes "\<not> is_approved (snd (evaluate hmac wc now sig px e))"
  shows "decision_quantity (snd (evaluate hmac wc now sig px e)) = 0"
    and "decision_token (snd (evaluate hmac wc now sig px e)) = None"
  using assms by (cases "snd (evaluate hmac wc now sig px e)"; simp)+

lemma evaluate_sequence_rejected:
  "\<not> is_approved (snd (evaluate hmac wc now sig px e)) \<Longrightarrow> re_sequence (fst (evaluate hmac wc now sig px e)) = re_sequence e"
  by (simp add: evaluate_unfold split: if_splits)

text \<open>The frame: an evaluation changes only the cached counts, the sequence number and, on a
  drawdown breach, the Kill_Switch.\<close>

lemma evaluate_frame:
  "\<exists>m h s. rs_frequency (re_state (fst (evaluate hmac wc now sig px e))) = (rs_frequency (re_state e))\<lparr>cached_minute_count := m, cached_hour_count := h, cached_session_count := s\<rparr>"
proof -
  have "\<exists>m h s. f = f\<lparr>cached_minute_count := m, cached_hour_count := h, cached_session_count := s\<rparr>" for f :: frequency_counters
    by (intro exI [of _ "cached_minute_count f"] exI [of _ "cached_hour_count f"] exI [of _ "cached_session_count f"]) simp
  moreover have "rs_frequency (re_state (fst (evaluate hmac wc now sig px e))) = rs_frequency (re_state e)
   \<or> rs_frequency (re_state (fst (evaluate hmac wc now sig px e))) = fst (would_breach (now_ns_frequency now) (max_trades_per_minute (re_risk_cfg e))
     (max_trades_per_hour (re_risk_cfg e)) (max_trades_per_session (re_risk_cfg e)) (rs_frequency (re_state e)))"
    by (simp add: evaluate_unfold)
  ultimately show ?thesis unfolding would_breach_def Let_def fst_conv by metis
qed

lemma evaluate_state_frame:
  "(re_state (fst (evaluate hmac wc now sig px e)))\<lparr>rs_frequency := f\<rparr> = (re_state e)\<lparr>rs_frequency := f\<rparr>"
  by (simp add: evaluate_unfold)

lemma evaluate_config_frame:
  "re_capital (fst (evaluate hmac wc now sig px e)) = re_capital e"
  "re_risk_cfg (fst (evaluate hmac wc now sig px e)) = re_risk_cfg e"
  "re_session_cfg (fst (evaluate hmac wc now sig px e)) = re_session_cfg e"
  "re_signer_key (fst (evaluate hmac wc now sig px e)) = re_signer_key e"
  by (simp_all add: evaluate_unfold)

lemma evaluate_kill_switch:
  "ks_active (re_kill_switch (fst (evaluate hmac wc now sig px e))) \<longleftrightarrow>
     ks_active (re_kill_switch e) \<or> decision_reason (snd (evaluate hmac wc now sig px e)) = Some MaxDrawdown"
  by (simp add: evaluate_unfold ks_activate_def ks_cas_def ks_set_reason_def)
subsection \<open>Sizing\<close>

lemma base_risk_exact: "flt_of_int F64 (inr_to_paise b) = Fin (of_int (inr_to_paise b))"
  using inr_to_paise_bound [of b] inr_to_paise_nonneg [of b]
  by (simp add: flt_of_int_def rnd_F64_int)

lemma flt_to_i64_bounds:
  assumes "0 < s" "s \<le> of_int n" "in_i64 n"
  shows "0 \<le> flt_to_i64 (Fin s) \<and> flt_to_i64 (Fin s) \<le> n"
  using assms trunc_rat_le [of s n]
  by (auto simp: flt_to_i64_def trunc_rat_def i64_defs)

lemma adaptive_risk_bounds:
  "0 \<le> adaptive_risk cfg wc sig cid \<and> adaptive_risk cfg wc sig cid \<le> inr_to_paise (base_risk_per_trade_inr cfg)"
proof -
  let ?b = "inr_to_paise (base_risk_per_trade_inr cfg)"
  have key: "0 \<le> flt_to_i64 (flt_min x (Fin (of_int ?b))) \<and> flt_to_i64 (flt_min x (Fin (of_int ?b))) \<le> ?b"
    if "is_finite_flt x" "flt_lt (Fin 0) x" for x
  proof -
    from that(1) obtain s where s: "x = Fin s" by (cases x) (simp_all add: is_finite_flt_def)
    with that(2) have "0 < s" by simp
    note s = s this
    show ?thesis
    proof (cases "s \<le> of_int ?b")
      case True
      then show ?thesis using s flt_to_i64_bounds [of s ?b] by (simp add: flt_min_def)
    next
      case False
      then show ?thesis using s by (simp add: flt_min_def flt_to_i64_def)
    qed
  qed
  show ?thesis
    unfolding adaptive_risk_def Let_def base_risk_exact using key by simp
qed

lemma sized_quantity_bounds:
  "sized_quantity st a px m \<noteq> 0 \<and> sized_quantity st a px m \<le> max m 1"
proof -
  have "1 \<le> max m (1 :: u64)" "min x m \<le> max m 1" for x by (auto simp: min_def max_def)
  then show ?thesis by (simp add: sized_quantity_def Let_def)
qed

lemma u64_div2_le: "q div 2 \<le> (q :: u64)"
  by (simp add: word_le_nat_alt unat_div)

lemma sized_quantity_cost:
  assumes "0 < px" "0 \<le> a" "in_i64 a" "sized_quantity st a px m \<noteq> 1"
  shows "uint (sized_quantity st a px m) * px \<le> a"
proof -
  let ?q = "of_int (a div px) :: u64"
  have d: "0 \<le> a div px" "a div px \<le> a"
    using assms zdiv_mono2 [of a 1 px] by (auto simp: pos_imp_zdiv_nonneg_iff)
  then have q: "uint ?q = a div px"
    using assms(3) by (simp add: i64_defs uint_word_of_int)
  have "sized_quantity st a px m \<le> ?q"
    using assms u64_div2_le [of ?q] by (auto simp: sized_quantity_def Let_def min_def split: if_splits)
  then have "uint (sized_quantity st a px m) \<le> a div px" using q by (simp add: word_le_def)
  then have "uint (sized_quantity st a px m) * px \<le> (a div px) * px" using assms(1) by (simp add: mult_right_mono)
  also have "\<dots> \<le> a" using assms(1) by (simp add: minus_mod_eq_div_mult [symmetric])
  finally show ?thesis .
qed

subsection \<open>Limits\<close>

lemma usat_cap:
  "\<not> usat_add (a :: u64) b > (ucast (m :: u32) :: u64) \<Longrightarrow> unat a + unat b \<le> unat m"
proof -
  assume "\<not> usat_add a b > (ucast m :: u64)"
  then have "unat (usat_add a b) \<le> unat (ucast m :: u64)" by (simp add: word_le_nat_alt not_less)
  moreover have "unat (ucast m :: u64) = unat m" 
    using unat_less_len [of m] by (simp add: unsigned_ucast_eq take_bit_nat_eq_self)
  moreover have "unat m < 4294967296" using unat_less_len [of m] by simp
  ultimately show ?thesis by (auto simp: unat_usat_add min_def split: if_splits)
qed

lemma position_caps:
  assumes "\<not> position_breach cfg st sig" "unat (q :: u64) \<le> unat (prospective_qty sig)"
  shows "unat (get_or (per_symbol_position st) (sg_symbol sig) 0) + unat q \<le> unat (max_position_per_symbol cfg)"
    and "unat (portfolio_position st) + unat q \<le> unat (max_position_portfolio cfg)"
    and "unat (prospective_qty sig) < 4294967296"
  using assms usat_cap [of "max_position_per_symbol cfg" "get_or (per_symbol_position st) (sg_symbol sig) 0" "prospective_qty sig"]
    usat_cap [of "max_position_portfolio cfg" "portfolio_position st" "prospective_qty sig"]
    unat_less_len [of "max_position_per_symbol cfg"]
  by (auto simp: position_breach_def)

lemma exposure_cap:
  assumes "\<not> exposure_breach cfg st sig px" and pq: "unat (prospective_qty sig) < 4294967296"
    and "unat (q :: u64) \<le> unat (prospective_qty sig)" and "0 \<le> px"
    and c: "0 \<le> get_or (per_symbol_exposure_paise st) (sg_symbol sig) 0"
  shows "get_or (per_symbol_exposure_paise st) (sg_symbol sig) 0 + px * uint q
    \<le> inr_to_paise (max_exposure_per_symbol_inr cfg)"
proof -
  let ?c = "get_or (per_symbol_exposure_paise st) (sg_symbol sig) 0"
  let ?lim = "inr_to_paise (max_exposure_per_symbol_inr cfg)"
  let ?p = "uint (prospective_qty sig)"
  have "int (unat (prospective_qty sig)) < 4294967296" using pq by linarith
  then have "?p < 4294967296" by simp
  moreover have "0 \<le> ?p" by simp
  ultimately have "in_i64 ?p" unfolding i64_defs by linarith
  then have w: "wrap_i64 ?p = ?p" by (rule wrap_i64_id)
  have lim: "?lim < i64_max" using inr_to_paise_bound [of "max_exposure_per_symbol_inr cfg"] by (simp add: i64_defs)
  have pos: "0 \<le> px * ?p" using assms(4) by simp
  have nb: "sat_i64 (?c + sat_i64 (px * ?p)) \<le> ?lim"
    using assms(1) by (simp add: exposure_breach_def prospective_exposure_def w not_less)
  then have "px * ?p < i64_max"
    using lim c pos by (auto simp: sat_i64_def i64_defs split: if_splits)
  then have "sat_i64 (px * ?p) = px * ?p" using pos by (simp add: i64_defs)
  with nb lim c pos have "?c + px * ?p \<le> ?lim" by (auto simp: sat_i64_def i64_defs split: if_splits)
  moreover have "uint q \<le> ?p" 
    using assms(3) word_le_nat_alt [of q "prospective_qty sig"] word_le_def [of q "prospective_qty sig"] by blast
  then have "px * uint q \<le> px * ?p" using assms(4) by (intro mult_left_mono)
  ultimately show ?thesis by simp
qed
subsection \<open>Sequences of evaluations\<close>

type_synonym eval_input = "warm_cache_view \<times> eval_clock \<times> signal \<times> i64"

definition eval_step :: "hmac_fn \<Rightarrow> eval_input \<Rightarrow> risk_engine \<Rightarrow> risk_engine" where
  "eval_step hmac i e = (case i of (wc, now, sig, px) \<Rightarrow> fst (evaluate hmac wc now sig px e))"

definition run_evals :: "hmac_fn \<Rightarrow> eval_input list \<Rightarrow> risk_engine \<Rightarrow> risk_engine" where
  "run_evals hmac ins e = fold (eval_step hmac) ins e"

lemma run_evals_key [simp]: "re_signer_key (run_evals hmac ins e) = re_signer_key e"
  by (induction ins arbitrary: e) (auto simp: run_evals_def eval_step_def evaluate_config_frame)

lemma run_evals_cfg [simp]: "re_risk_cfg (run_evals hmac ins e) = re_risk_cfg e"
  by (induction ins arbitrary: e) (auto simp: run_evals_def eval_step_def evaluate_config_frame)

lemma eval_step_sequence:
  "re_sequence (eval_step hmac i e) = re_sequence e \<or> re_sequence (eval_step hmac i e) = re_sequence e + 1"
  using evaluate_approved(3) evaluate_sequence_rejected by (cases i) (fastforce simp: eval_step_def)

lemma run_evals_sequence: "\<exists>n. n \<le> length ins \<and> re_sequence (run_evals hmac ins e) = re_sequence e + of_nat n"
proof (induction ins arbitrary: e)
  case Nil
  then show ?case by (simp add: run_evals_def)
next
  case (Cons i ins)
  obtain n where n: "n \<le> length ins" "re_sequence (run_evals hmac ins (eval_step hmac i e)) = re_sequence (eval_step hmac i e) + of_nat n"
    using Cons.IH by blast
  from eval_step_sequence [of hmac i e] show ?case
  proof
    assume "re_sequence (eval_step hmac i e) = re_sequence e"
    with n show ?thesis by (intro exI [of _ n]) (simp add: run_evals_def)
  next
    assume "re_sequence (eval_step hmac i e) = re_sequence e + 1"
    with n show ?thesis by (intro exI [of _ "Suc n"]) (simp add: run_evals_def add.assoc)
  qed
qed

lemma run_evals_active: "ks_active (re_kill_switch e) \<Longrightarrow> ks_active (re_kill_switch (run_evals hmac ins e))"
  by (induction ins arbitrary: e) (auto simp: run_evals_def eval_step_def evaluate_kill_switch)

lemma fc_rep_cached:
  "fc_rep f h s \<Longrightarrow> fc_rep (f\<lparr>cached_minute_count := a, cached_hour_count := b, cached_session_count := c\<rparr>) h s"
  by (simp add: fc_rep_def)

lemma run_evals_frequency:
  "fc_rep (rs_frequency (re_state e)) h s \<Longrightarrow> fc_rep (rs_frequency (re_state (run_evals hmac ins e))) h s"
proof (induction ins arbitrary: e)
  case Nil
  then show ?case by (simp add: run_evals_def)
next
  case (Cons i ins)
  obtain wc now sig px where i: "i = (wc, now, sig, px)" by (cases i)
  have "fc_rep (rs_frequency (re_state (eval_step hmac i e))) h s"
    using evaluate_frame [of hmac wc now sig px e] fc_rep_cached [OF Cons.prems] by (auto simp: eval_step_def i)
  from Cons.IH [OF this] show ?case by (simp add: run_evals_def)
qed

subsection \<open>A concrete engine\<close>

definition sample_clock :: eval_clock where
  "sample_clock = \<lparr>ist_weekday = Mon, ist_hour = 10, ist_minute = 0, ist_second = 0,
     now_ns_frequency = 1000, now_ns_cooldown = 1001, now_ns_mint = 1002\<rparr>"

definition sample_signal :: signal where
  "sample_signal = \<lparr>sg_correlation_id = replicate 16 7, sg_strategy = 0, sg_symbol = 3, sg_side = 0,
     sg_base_probability = Fin (1 / 2), sg_confidence = Fin 1,
     sg_risk_profile = \<lparr>stop_loss_paise = 0, take_profit_paise = 0, max_size_qty = 10, time_horizon_seconds = 60\<rparr>,
     sg_ts_ns = 0\<rparr>"

definition sample_engine :: risk_engine where
  "sample_engine = re_new default_capital default_risk default_session [1, 2, 3]"


lemma fmul_one: "\<bar>n\<bar> \<le> 9007199254740992 \<Longrightarrow> fmul F64 (Fin (of_int n)) (Fin 1) = Fin (of_int n)"
  by (simp add: rnd_F64_int)

lemma sample_adaptive:
  "adaptive_risk default_risk (mock_view mock_neutral) sample_signal cid = 10000"
proof -
  have b: "inr_to_paise (base_risk_per_trade_inr default_risk) = 10000"
    by (simp add: default_risk_def inr_to_paise_def)
  have f: "fmul F64 (Fin 10000) (Fin 1) = Fin 10000" using fmul_one [of 10000] by simp
  have base: "flt_of_int F64 10000 = Fin 10000" using base_risk_exact [of 100] by (simp add: inr_to_paise_def)
  have t: "trunc_rat 10000 = 10000" using trunc_rat_of_int [of 10000] by simp
  show ?thesis
    unfolding adaptive_risk_def Let_def b base
    by (simp add: mock_view_def mock_neutral_def sample_signal_def clamp01_def f del: fmul.simps)
      (simp add: is_finite_flt_def flt_min_def flt_to_i64_def sat_i64_def i64_defs t)
qed

lemma sample_leverage: "\<not> leverage_breach default_capital default_risk (rs_new c r) sample_signal 5000"
proof -
  have n: "flt_of_int F64 50000 = Fin 50000" "flt_of_int F64 2000000 = Fin 2000000"
    using rnd_F64_int [of 50000] rnd_F64_int [of 2000000] by (simp_all add: flt_of_int_def)
  have five: "rnd F64 5 = Fin 5" using rnd_F64_int [of 5] by simp
  have "flt_le (rnd F64 (1 / 40)) (Fin 5)" using rnd_mono [of "1 / 40" 5 F64] by (simp add: five)
  then have l: "\<not> flt_lt (Fin 5) (rnd F64 (1 / 40))" by (cases "rnd F64 (1 / 40)") auto
  have e: "prospective_exposure sample_signal 5000 = 50000"
    by (simp add: prospective_exposure_def prospective_qty_def sample_signal_def wrap_i64_def sat_i64_def i64_defs)
  show ?thesis
    using l by (simp add: leverage_breach_def Let_def e rs_new_def default_capital_def default_risk_def
        inr_to_paise_def sat_i64_def i64_defs n)
qed
lemma sample_frequency: "\<not> breach_of sample_clock sample_engine" 
  using would_breach_hist [OF fc_rep_new, of 1000 4 30 60]
  by (simp add: breach_of_def sample_clock_def sample_engine_def re_new_def rs_new_def default_risk_def live_in_def)

lemma sample_gates:
  "\<forall>g \<in> set (gate_checks (mock_view mock_neutral) sample_clock sample_signal 5000 sample_engine). \<not> fst g"
  using sample_adaptive sample_leverage sample_frequency
  by (simp add: gate_checks_def Let_def sample_engine_def re_new_def)
    (simp add: rs_new_def ks_new_def is_within_session_def sample_clock_def default_session_def from_hms_opt_def total_pnl_paise_def
      sat_i64_def i64_defs default_risk_def inr_to_paise_def position_breach_def get_or_def prospective_qty_def sample_signal_def
     exposure_breach_def prospective_exposure_def cd_is_cooling_def cd_new_def vt_is_blocked_def any_broker_ok_def bl_latency_ms_def
     should_reject_def tg_new_def usat_add_def wrap_i64_def)

lemma sample_approved: "is_approved (snd (evaluate hmac (mock_view mock_neutral) sample_clock sample_signal 5000 sample_engine))"
  unfolding evaluate_approved_iff by (rule sample_gates)

section \<open>Properties\<close>

text \<open>C5: The Risk_Engine runs its gates in the documented order: the decision is the reason of the
  first gate of the reference list that fails (approval when none does), the trace holds
  \<open>Pass\<close> for the gates before it, the rejection at it and nothing after it, and approval
  coincides with \<open>all_passed\<close>.\<close>

theorem evaluate_gate_order:
  "decision_reason (snd (evaluate hmac wc now sig px e)) = first_breach (gate_checks wc now sig px e)
   \<and> rationale_gates (decision_rationale (snd (evaluate hmac wc now sig px e)))
       = gate_trace (gate_checks wc now sig px e)
   \<and> (is_approved (snd (evaluate hmac wc now sig px e))
       \<longleftrightarrow> all_passed (decision_rationale (snd (evaluate hmac wc now sig px e))))"
proof -
  have "list_all (\<lambda>g. g = Some GatePass \<or> g = None) (gate_trace gs) \<longleftrightarrow> first_breach gs = None" for gs
    by (induction gs rule: gate_trace.induct) auto
  moreover have "list_ex (\<lambda>g. g \<noteq> None) (gate_trace (gate_checks wc now sig px e))"
    by (simp add: gate_checks_def Let_def)
  ultimately show ?thesis
    by (simp add: evaluate_reason evaluate_trace is_approved_iff all_passed_def)
qed

text \<open>C1: Hard limits. For a signal approved at a nonnegative price, with a nonnegative exposure on record for its symbol, every limit holds
  in exact arithmetic for the approved quantity: the switch is disengaged, the session open, losses and drawdown below
  their caps, both position caps and the symbol exposure cap hold after adding the quantity,
  the symbol is neither cooling nor blocked, and the daily target does not reject entries.\<close>

theorem approval_respects_limits:
  fixes hmac :: hmac_fn and wc :: warm_cache_view and now :: eval_clock and sig :: signal
    and e :: risk_engine and px :: int
  defines "q \<equiv> decision_quantity (snd (evaluate hmac wc now sig px e))"
    and "st \<equiv> re_state e" and "cfg \<equiv> re_risk_cfg e"
  assumes "is_approved (snd (evaluate hmac wc now sig px e))" and "0 \<le> px"
    and "0 \<le> get_or (per_symbol_exposure_paise st) (sg_symbol sig) 0"
  shows "\<not> ks_active (re_kill_switch e) \<and> is_within_session (re_session_cfg e) now
    \<and> total_pnl_paise st > - inr_to_paise (max_daily_loss_inr cfg)
    \<and> rs_drawdown_paise st < inr_to_paise (max_drawdown_inr cfg)
    \<and> unat (get_or (per_symbol_position st) (sg_symbol sig) 0) + unat q \<le> unat (max_position_per_symbol cfg)
    \<and> unat (portfolio_position st) + unat q \<le> unat (max_position_portfolio cfg)
    \<and> get_or (per_symbol_exposure_paise st) (sg_symbol sig) 0 + px * uint q
        \<le> inr_to_paise (max_exposure_per_symbol_inr cfg)
    \<and> \<not> cd_is_cooling (rs_cooldowns st) (sg_symbol sig) (now_ns_cooldown now)
    \<and> \<not> vt_is_blocked (rs_volatility st) (sg_symbol sig) (volatility_block_threshold cfg)
    \<and> \<not> should_reject (rs_target st)"
proof -
  have gates: "\<forall>g \<in> set (gate_checks wc now sig px e). \<not> fst g"
    using assms(4) by (simp only: evaluate_approved_iff)
  then have pos: "\<not> position_breach cfg st sig" and exp: "\<not> exposure_breach cfg st sig px"
    by (simp_all add: gate_checks_def Let_def st_def cfg_def)
  have q: "q = approved_qty wc sig px e" using assms(4) by (simp add: q_def evaluate_approved(1))
  then have le: "unat q \<le> unat (prospective_qty sig)"
    using sized_quantity_bounds by (simp add: approved_qty_def prospective_qty_def word_le_nat_alt)
  note caps = position_caps [OF pos le]
  from gates caps(1,2) exposure_cap [OF exp caps(3) le assms(5,6)]
  show ?thesis by (simp add: gate_checks_def Let_def not_le st_def cfg_def)
qed

text \<open>C9: Sizing. An approved quantity is at least one share and at most the signal's
  \<open>max_size_qty\<close> (one share when that is zero); above one share it costs no more than the base
  risk per trade. The adaptive risk itself never exceeds the base risk, whatever the cached
  factors are (NaN and infinities included).\<close>

theorem approved_size_bounds:
  assumes "is_approved (snd (evaluate hmac wc now sig px e))"
  shows "let q = decision_quantity (snd (evaluate hmac wc now sig px e));
             m = max_size_qty (sg_risk_profile sig);
             base = inr_to_paise (base_risk_per_trade_inr (re_risk_cfg e))
         in 1 \<le> unat q \<and> unat q \<le> max (unat m) 1
            \<and> (1 < unat q \<longrightarrow> uint q * px \<le> base)
            \<and> adaptive_risk (re_risk_cfg e) wc sig (cid_of_bytes (sg_correlation_id sig)) \<le> base"
proof -
  let ?q = "approved_qty wc sig px e" and ?m = "max_size_qty (sg_risk_profile sig)"
  let ?a = "adaptive_risk (re_risk_cfg e) wc sig (cid_of_bytes (sg_correlation_id sig))"
  let ?base = "inr_to_paise (base_risk_per_trade_inr (re_risk_cfg e))"
  have a: "0 \<le> ?a" "?a \<le> ?base" using adaptive_risk_bounds by blast+
  then have ai: "in_i64 ?a" using inr_to_paise_bound [of "base_risk_per_trade_inr (re_risk_cfg e)"] by (simp add: i64_defs)
  have b: "?q \<noteq> 0" "?q \<le> max ?m 1" using sized_quantity_bounds by (auto simp: approved_qty_def)
  have "1 \<le> unat ?q" using b(1) by (simp add: Suc_le_eq unat_gt_0)
  moreover have "unat ?q \<le> max (unat ?m) 1" using b(2) by (simp add: word_le_nat_alt max_def split: if_splits)
  moreover have "uint ?q * px \<le> ?base" if "1 < unat ?q"
  proof (cases "0 < px")
    case True
    have "?q \<noteq> 1" using that by auto
    then show ?thesis using sized_quantity_cost [OF True a(1) ai] a(2) by (fastforce simp: approved_qty_def)
  next
    case False
    then have "uint ?q * px \<le> 0" by (simp add: mult_nonneg_nonpos)
    then show ?thesis using inr_to_paise_nonneg order_trans by blast
  qed
  ultimately show ?thesis using a(2) by (simp add: Let_def evaluate_approved(1) [OF assms])
qed

theorem approval_respects_limits_witness:
  "unat (decision_quantity (snd (evaluate (\<lambda>k m. k @ m) (mock_view mock_neutral) sample_clock sample_signal 5000 sample_engine)))
     \<le> unat (max_position_per_symbol default_risk)"
  using approval_respects_limits [OF sample_approved, of "\<lambda>k m. k @ m"]
  by (simp add: sample_engine_def re_new_def rs_new_def get_or_def)

theorem approved_size_bounds_witness:
  "1 \<le> unat (decision_quantity (snd (evaluate (\<lambda>k m. k @ m) (mock_view mock_neutral) sample_clock sample_signal 5000 sample_engine)))"
  using approved_size_bounds [OF sample_approved, of "\<lambda>k m. k @ m"] by (simp add: Let_def)

text \<open>C10: Kill_Switch. Once an evaluation was rejected for drawdown, or the switch is engaged by
  any other path, every later evaluation, after any further signals, is rejected with
  \<open>KillSwitchEngaged\<close>, mints no token and leaves the engine unchanged.\<close>

theorem kill_switch_blocks_everything:
  assumes "ks_active (re_kill_switch e)
    \<or> decision_reason (snd (evaluate hmac wc0 now0 sig0 px0 e)) = Some MaxDrawdown"
    and "e' = run_evals hmac ins (fst (evaluate hmac wc0 now0 sig0 px0 e))"
  shows "decision_reason (snd (evaluate hmac wc now sig px e')) = Some KillSwitchEngaged
    \<and> decision_token (snd (evaluate hmac wc now sig px e')) = None
    \<and> fst (evaluate hmac wc now sig px e') = e'"
proof -
  have "ks_active (re_kill_switch e')"
    unfolding assms(2) using assms(1) by (intro run_evals_active) (simp add: evaluate_kill_switch)
  then show ?thesis by (simp add: evaluate_unfold)
qed

theorem kill_switch_blocks_everything_witness:
  "decision_reason (snd (evaluate (\<lambda>k m. k @ m) (mock_view mock_neutral) sample_clock sample_signal 5000
     (run_evals (\<lambda>k m. k @ m) [] (fst (evaluate (\<lambda>k m. k @ m) (mock_view mock_neutral) sample_clock sample_signal 5000
        (sample_engine\<lparr>re_kill_switch := fst (ks_activate TraderRequest ks_new)\<rparr>)))))) = Some KillSwitchEngaged"
  using kill_switch_blocks_everything
    [OF _ refl, of "sample_engine\<lparr>re_kill_switch := fst (ks_activate TraderRequest ks_new)\<rparr>" "\<lambda>k m. k @ m"
      "mock_view mock_neutral" sample_clock sample_signal 5000]
  by (simp add: ks_activate_def ks_cas_def ks_new_def ks_set_reason_def)

definition minted_message :: "warm_cache_view \<Rightarrow> eval_clock \<Rightarrow> signal \<Rightarrow> i64 \<Rightarrow> risk_engine \<Rightarrow> u8 list" where
  "minted_message wc now sig px e = canonicalize_intent_bytes (minted_intent sig (approved_qty wc sig px e))
     (approved_qty wc sig px e) (now_ns_mint now) (re_sequence e)"

text \<open>Tokens are single-use. Two approvals of one engine, with fewer than 2^64 evaluations in
  between and whatever the signals, carry different tokens unless HMAC collides on the two
  different messages they sign; each token verifies for the intent that was approved.\<close>

theorem approvals_carry_distinct_tokens:
  assumes "is_approved (snd (evaluate hmac wc now sig px e))"
    and "e' = run_evals hmac ins (fst (evaluate hmac wc now sig px e))"
    and "is_approved (snd (evaluate hmac wc' now' sig' px' e'))"
    and "length ins + 1 < 18446744073709551616"
    and "wf_intent (minted_intent sig 0)" and "wf_intent (minted_intent sig' 0)"
  shows "minted_message wc now sig px e \<noteq> minted_message wc' now' sig' px' e'
    \<and> decision_token (snd (evaluate hmac wc now sig px e))
        = Some (hmac (re_signer_key e) (minted_message wc now sig px e))
    \<and> decision_token (snd (evaluate hmac wc' now' sig' px' e'))
        = Some (hmac (re_signer_key e) (minted_message wc' now' sig' px' e'))
    \<and> approval_verify hmac (re_signer_key e) (the (decision_token (snd (evaluate hmac wc now sig px e))))
        (minted_intent sig (approved_qty wc sig px e)) (approved_qty wc sig px e) (now_ns_mint now) (re_sequence e)"
proof -
  obtain n where n: "n \<le> length ins" "re_sequence e' = re_sequence (fst (evaluate hmac wc now sig px e)) + of_nat n"
    using run_evals_sequence assms(2) by blast
  have eq: "re_sequence e' = re_sequence e + of_nat (n + 1)"
    using n(2) evaluate_approved(3) [OF assms(1)] by (simp add: add.assoc)
  have "unat (of_nat (n + 1) :: u64) = n + 1"
    using n(1) assms(4) by (simp only: unat_of_nat) simp
  then have "(of_nat (n + 1) :: u64) \<noteq> 0" by (metis add_is_0 one_neq_zero unat_0)
  with eq have seq: "re_sequence e \<noteq> re_sequence e'" by (metis add_cancel_left_right)
  have wf: "wf_intent (minted_intent sig a)" "wf_intent (minted_intent sig' b)" for a b
    using assms(5,6) by (simp_all add: wf_intent_def minted_intent_def)
  have "minted_message wc now sig px e \<noteq> minted_message wc' now' sig' px' e'"
    using canonicalize_inj [OF wf] seq unfolding minted_message_def by blast
  moreover have "re_signer_key e' = re_signer_key e" by (simp add: assms(2) evaluate_config_frame)
  ultimately show ?thesis
    using evaluate_approved(2) [OF assms(1)] evaluate_approved(2) [OF assms(3)]
    by (simp add: minted_message_def approval_sign_def approval_verify_def canonical_array_eq)
qed

lemma sample_approved_twice:
  "is_approved (snd (evaluate hmac (mock_view mock_neutral) sample_clock sample_signal 5000
     (fst (evaluate hmac (mock_view mock_neutral) sample_clock sample_signal 5000 sample_engine))))"
proof -
  let ?e = "fst (evaluate hmac (mock_view mock_neutral) sample_clock sample_signal 5000 sample_engine)"
  have "fc_rep (rs_frequency (re_state ?e)) [] []"
    using run_evals_frequency [of sample_engine "[]" "[]" hmac "[(mock_view mock_neutral, sample_clock, sample_signal, 5000)]"] fc_rep_new
    by (simp add: run_evals_def eval_step_def sample_engine_def re_new_def rs_new_def)
  then have b: "\<not> breach_of sample_clock ?e"
    using would_breach_hist [of "rs_frequency (re_state ?e)" "[]" "[]"]
    by (simp add: breach_of_def evaluate_config_frame sample_engine_def re_new_def default_risk_def live_in_def)
  have st: "re_state ?e = (re_state sample_engine)\<lparr>rs_frequency := rs_frequency (re_state ?e)\<rparr>"
    using evaluate_state_frame [of "rs_frequency (re_state ?e)" hmac "mock_view mock_neutral" sample_clock sample_signal 5000 sample_engine] by simp
  have ks: "\<not> ks_active (re_kill_switch ?e)"
    using sample_approved [of hmac] sample_gates by (simp add: evaluate_kill_switch is_approved_iff gate_checks_def Let_def)
  show ?thesis
    unfolding evaluate_approved_iff using sample_gates b ks
    by (simp add: gate_checks_def Let_def evaluate_config_frame total_pnl_paise_def) (subst st, simp)+
qed

theorem approvals_carry_distinct_tokens_witness:
  "minted_message (mock_view mock_neutral) sample_clock sample_signal 5000 sample_engine
   \<noteq> minted_message (mock_view mock_neutral) sample_clock sample_signal 5000
      (fst (evaluate (\<lambda>k m. k @ m) (mock_view mock_neutral) sample_clock sample_signal 5000 sample_engine))"
  using approvals_carry_distinct_tokens
    [OF sample_approved [of "\<lambda>k m. k @ m"] _ sample_approved_twice [of "\<lambda>k m. k @ m"], of "[]"]
  by (simp add: run_evals_def wf_intent_def minted_intent_def sample_signal_def)

text \<open>Admissions are never recorded. No sequence of evaluations adds an entry to the
  frequency counters, so for an engine started with limits of at least one trade per window no
  evaluation ever ends with \<open>TradeFrequency\<close>, however many signals were approved before.\<close>

theorem trade_frequency_never_fires:
  assumes "0 < max_trades_per_minute risk_cfg" and "0 < max_trades_per_hour risk_cfg"
    and "0 < max_trades_per_session risk_cfg"
  shows "decision_reason (snd (evaluate hmac wc now sig px
     (run_evals hmac ins (re_new capital risk_cfg session_cfg key)))) \<noteq> Some TradeFrequency"
proof -
  let ?e = "run_evals hmac ins (re_new capital risk_cfg session_cfg key)"
  have "fc_rep (rs_frequency (re_state ?e)) [] []"
    by (rule run_evals_frequency) (simp add: re_new_def rs_new_def fc_rep_new)
  moreover have "0 < unat (max_trades_per_minute risk_cfg)" "0 < unat (max_trades_per_hour risk_cfg)"
    "0 < unat (max_trades_per_session risk_cfg)"
    using assms by (simp_all add: unat_gt_0 word_greater_zero_iff)
  ultimately have "\<not> breach_of now ?e"
    using would_breach_hist [of "rs_frequency (re_state ?e)" "[]" "[]"]
    by (simp add: breach_of_def re_new_def live_in_def)
  then show ?thesis
    by (simp add: evaluate_reason gate_checks_def Let_def)
qed

theorem trade_frequency_never_fires_witness:
  "decision_reason (snd (evaluate (\<lambda>k m. k @ m) (mock_view mock_neutral) sample_clock sample_signal 5000
     (run_evals (\<lambda>k m. k @ m) (replicate 1000 (mock_view mock_neutral, sample_clock, sample_signal, 5000)) sample_engine)))
   \<noteq> Some TradeFrequency"
  unfolding sample_engine_def
  by (rule trade_frequency_never_fires) (simp_all add: default_risk_def)

text \<open>The floor of one share is applied after the cap: a signal whose profile allows no shares is
  still sized to one.\<close>

lemma size_floor_ignores_profile: "sized_quantity st a px 0 = 1"
  by (simp add: sized_quantity_def Let_def)

end
