(* ===== verification/Broker_Api.thy ===== *)
theory Broker_Api
  imports Core_Types
begin

text \<open>
  The broker interface (\<open>hedge-broker-api/src/lib.rs\<close>): order types, intents, acknowledgements,
  statuses, the error taxonomy with its retry and failover classification, readiness and
  metric labels; and the Execution_Engine's own error type (\<open>hedge-exec/src/error.rs\<close>).
\<close>

section \<open>Orders\<close>

datatype order_type = Market | Limit

fun order_type_as_u8 :: "order_type \<Rightarrow> u8" where
  "order_type_as_u8 Market = 0"
| "order_type_as_u8 Limit = 1"

definition order_type_from_u8 :: "u8 \<Rightarrow> order_type option" where
  "order_type_from_u8 b = (if b = 0 then Some Market else if b = 1 then Some Limit else None)"

datatype exchange = Nse | Bse

text \<open>An \<open>i8\<close> is kept as its bit pattern.\<close>

fun exchange_as_i8 :: "exchange \<Rightarrow> u8" where
  "exchange_as_i8 Nse = 0"
| "exchange_as_i8 Bse = 1"

definition exchange_from_i8 :: "u8 \<Rightarrow> exchange option" where
  "exchange_from_i8 b = (if b = 0 then Some Nse else if b = 1 then Some Bse else None)"

fun exchange_as_str :: "exchange \<Rightarrow> string" where
  "exchange_as_str Nse = ''NSE''"
| "exchange_as_str Bse = ''BSE''"

record broker_intent =
  bi_correlation_id :: correlation_id
  bi_symbol_raw :: u32
  bi_side :: side
  bi_quantity :: qty
  bi_order_type :: order_type
  bi_limit_paise :: i64
  bi_exchange :: exchange

record order_modification =
  om_broker_order_id :: string
  om_new_quantity :: "qty option"
  om_new_limit_paise :: "i64 option"

record submit_ack =
  sa_broker_order_id :: string
  sa_broker_ts_ns :: "u64 option"

record order_status =
  os_broker_order_id :: string
  os_state :: order_state
  os_filled_qty :: qty
  os_avg_fill_paise :: i64
  os_broker_ts_ns :: "u64 option"

section \<open>Errors\<close>

datatype broker_error =
    BrokerNotReady string
  | BrokerRejected string
  | BrokerTransient string
  | BrokerNetwork string
  | BrokerHttp u16 string
  | BrokerAuth string
  | BrokerInvalidToken
  | BrokerUnknownOrderId string
  | BrokerInternal string

fun broker_error_display :: "broker_error \<Rightarrow> string" where
  "broker_error_display (BrokerNotReady s) = ''broker not ready: '' @ s"
| "broker_error_display (BrokerRejected s) = ''broker rejected: '' @ s"
| "broker_error_display (BrokerTransient s) = ''broker transient error: '' @ s"
| "broker_error_display (BrokerNetwork s) = ''network error: '' @ s"
| "broker_error_display (BrokerHttp st body) = ''http '' @ show_nat (unat st) @ '': '' @ body"
| "broker_error_display (BrokerAuth s) = ''auth failure: '' @ s"
| "broker_error_display BrokerInvalidToken = ''invalid approval token''"
| "broker_error_display (BrokerUnknownOrderId s) = ''unknown order id: '' @ s"
| "broker_error_display (BrokerInternal s) = ''internal adapter error: '' @ s"

fun broker_is_retryable :: "broker_error \<Rightarrow> bool" where
  "broker_is_retryable (BrokerTransient _) = True"
| "broker_is_retryable (BrokerNetwork _) = True"
| "broker_is_retryable _ = False"

fun broker_counts_toward_failover :: "broker_error \<Rightarrow> bool" where
  "broker_counts_toward_failover (BrokerTransient _) = True"
| "broker_counts_toward_failover (BrokerNetwork _) = True"
| "broker_counts_toward_failover (BrokerHttp _ _) = True"
| "broker_counts_toward_failover (BrokerRejected _) = True"
| "broker_counts_toward_failover _ = False"

datatype ready_state = ReadyOk | ConfigError string | Disconnected string

fun is_ready :: "ready_state \<Rightarrow> bool" where
  "is_ready ReadyOk = True"
| "is_ready _ = False"

definition is_unready :: "ready_state \<Rightarrow> bool" where
  "is_unready r \<longleftrightarrow> \<not> is_ready r"

fun ready_display :: "ready_state \<Rightarrow> string" where
  "ready_display ReadyOk = ''Ready''"
| "ready_display (ConfigError r) = ''ConfigError('' @ r @ '')''"
| "ready_display (Disconnected r) = ''Disconnected('' @ r @ '')''"

section \<open>Metrics\<close>

datatype broker_op = OpSubmit | OpModify | OpCancel | OpStatus | OpReady

fun broker_op_as_str :: "broker_op \<Rightarrow> string" where
  "broker_op_as_str OpSubmit = ''submit''"
| "broker_op_as_str OpModify = ''modify''"
| "broker_op_as_str OpCancel = ''cancel''"
| "broker_op_as_str OpStatus = ''status''"
| "broker_op_as_str OpReady = ''ready''"

record broker_metric =
  bm_broker_id :: broker_id
  bm_correlation_id :: correlation_id
  bm_op :: broker_op
  bm_latency_ns :: u64
  bm_error :: bool
  bm_http_status :: "u16 option"
  bm_ts_ns :: u64

fun broker_id_token :: "broker_id \<Rightarrow> string" where
  "broker_id_token Zerodha = ''zerodha''"
| "broker_id_token Dhan = ''dhan''"
| "broker_id_token Shoonya = ''shoonya''"
| "broker_id_token AngelOne = ''angel_one''"
| "broker_id_token Upstox = ''upstox''"
| "broker_id_token Simulated = ''simulated''"

definition broker_metric_subject :: "broker_id \<Rightarrow> string" where
  "broker_metric_subject b = ''broker.metric.'' @ broker_id_token b"

section \<open>Execution_Engine errors (hedge-exec/src/error.rs)\<close>

datatype exec_error =
    InvalidApprovalToken string
  | DuplicateToken string
  | InvalidFsmTransition order_state order_state
  | ExecBroker broker_id u32 broker_error
  | ExecBus string
  | ExecConfig string
  | RetryExhausted u32 string
  | ExecInternal string

fun exec_is_retryable :: "exec_error \<Rightarrow> bool" where
  "exec_is_retryable (ExecBroker _ _ source) = broker_is_retryable source"
| "exec_is_retryable _ = False"

fun exec_counts_toward_failover :: "exec_error \<Rightarrow> bool" where
  "exec_counts_toward_failover (ExecBroker _ _ source) = broker_counts_toward_failover source"
| "exec_counts_toward_failover _ = False"

fun exec_error_broker :: "exec_error \<Rightarrow> broker_id option" where
  "exec_error_broker (ExecBroker broker _ _) = Some broker"
| "exec_error_broker _ = None"

fun exec_error_tag :: "exec_error \<Rightarrow> string" where
  "exec_error_tag (InvalidApprovalToken _) = ''invalid_token''"
| "exec_error_tag (DuplicateToken _) = ''duplicate_token''"
| "exec_error_tag (InvalidFsmTransition _ _) = ''invalid_fsm_transition''"
| "exec_error_tag (ExecBroker _ _ source) =
     (case source of
        BrokerNotReady _ \<Rightarrow> ''broker_not_ready''
      | BrokerRejected _ \<Rightarrow> ''broker_rejected''
      | BrokerTransient _ \<Rightarrow> ''broker_transient''
      | BrokerNetwork _ \<Rightarrow> ''broker_network''
      | BrokerHttp _ _ \<Rightarrow> ''broker_http''
      | BrokerAuth _ \<Rightarrow> ''broker_auth''
      | BrokerInvalidToken \<Rightarrow> ''broker_invalid_token''
      | BrokerUnknownOrderId _ \<Rightarrow> ''broker_unknown_order''
      | BrokerInternal _ \<Rightarrow> ''broker_internal'')"
| "exec_error_tag (ExecBus _) = ''bus''"
| "exec_error_tag (ExecConfig _) = ''config''"
| "exec_error_tag (RetryExhausted _ _) = ''retry_exhausted''"
| "exec_error_tag (ExecInternal _) = ''internal''"

section \<open>Lemmas\<close>

lemma order_type_from_as [simp]: "order_type_from_u8 (order_type_as_u8 t) = Some t"
  by (cases t) (simp_all add: order_type_from_u8_def)

lemma exchange_from_as [simp]: "exchange_from_i8 (exchange_as_i8 x) = Some x"
  by (cases x) (simp_all add: exchange_from_i8_def)

lemma retryable_counts: "broker_is_retryable e \<Longrightarrow> broker_counts_toward_failover e"
  by (cases e) simp_all

lemma broker_id_token_inj: "broker_id_token a = broker_id_token b \<longleftrightarrow> a = b"
  by (cases a; cases b) simp_all

end
