(* ===== verification/Order_Lifecycle.thy ===== *)
theory Order_Lifecycle
  imports Broker_Api
begin

text \<open>
  The order lifecycle FSM (\<open>hedge-exec/src/lifecycle.rs\<close>): the tracker, its operations and the
  legal edge set. A sequence of tracker calls is a run of the step relation \<open>tracker_step\<close>;
  its invariants are proved by rule induction.
\<close>

section \<open>The tracker\<close>

record lifecycle_event =
  le_correlation_id :: correlation_id
  le_broker :: broker_id
  le_state :: order_state
  le_filled_qty :: u64
  le_avg_fill_paise :: i64
  le_broker_order_id :: "string option"
  le_ts_ns :: u64

record order_tracker =
  ot_correlation_id :: correlation_id
  ot_broker :: broker_id
  ot_state :: order_state
  ot_requested_qty :: u64
  ot_filled_qty :: u64
  ot_avg_fill_paise :: i64
  ot_broker_order_id :: "string option"

definition ot_new :: "correlation_id \<Rightarrow> broker_id \<Rightarrow> u64 \<Rightarrow> order_tracker" where
  "ot_new cid broker requested_qty = \<lparr>ot_correlation_id = cid, ot_broker = broker, ot_state = New,
     ot_requested_qty = requested_qty, ot_filled_qty = 0, ot_avg_fill_paise = 0,
     ot_broker_order_id = None\<rparr>"

fun is_legal_transition :: "order_state \<Rightarrow> order_state \<Rightarrow> bool" where
  "is_legal_transition New Submitted = True"
| "is_legal_transition Submitted PartiallyFilled = True"
| "is_legal_transition Submitted Filled = True"
| "is_legal_transition Submitted Cancelled = True"
| "is_legal_transition Submitted Rejected = True"
| "is_legal_transition PartiallyFilled PartiallyFilled = True"
| "is_legal_transition PartiallyFilled Filled = True"
| "is_legal_transition PartiallyFilled Cancelled = True"
| "is_legal_transition _ _ = False"

definition ot_event :: "order_tracker \<Rightarrow> u64 \<Rightarrow> lifecycle_event" where
  "ot_event t ts = \<lparr>le_correlation_id = ot_correlation_id t, le_broker = ot_broker t,
     le_state = ot_state t, le_filled_qty = ot_filled_qty t, le_avg_fill_paise = ot_avg_fill_paise t,
     le_broker_order_id = ot_broker_order_id t, le_ts_ns = ts\<rparr>"

definition ot_set_broker_order_id :: "string \<Rightarrow> order_tracker \<Rightarrow> order_tracker" where
  "ot_set_broker_order_id oid t = t\<lparr>ot_broker_order_id := Some oid\<rparr>"

definition transition_no_fill ::
  "order_state \<Rightarrow> u64 \<Rightarrow> string option \<Rightarrow> order_tracker \<Rightarrow> order_tracker \<times> (exec_error + lifecycle_event)" where
  "transition_no_fill target ts oid t =
     (if \<not> is_legal_transition (ot_state t) target then (t, Inl (InvalidFsmTransition (ot_state t) target))
      else let t = (case oid of Some i \<Rightarrow> t\<lparr>ot_broker_order_id := Some i\<rparr> | None \<Rightarrow> t);
               t = t\<lparr>ot_state := target\<rparr>
           in (t, Inr (ot_event t ts)))"

definition ot_submit :: "string option \<Rightarrow> u64 \<Rightarrow> order_tracker \<Rightarrow> order_tracker \<times> (exec_error + lifecycle_event)" where
  "ot_submit oid ts t = transition_no_fill Submitted ts oid t"

definition ot_cancel :: "u64 \<Rightarrow> order_tracker \<Rightarrow> order_tracker \<times> (exec_error + lifecycle_event)" where
  "ot_cancel ts t = transition_no_fill Cancelled ts None t"

definition ot_reject :: "u64 \<Rightarrow> order_tracker \<Rightarrow> order_tracker \<times> (exec_error + lifecycle_event)" where
  "ot_reject ts t = transition_no_fill Rejected ts None t"

definition ot_transition :: "order_state \<Rightarrow> u64 \<Rightarrow> order_tracker \<Rightarrow> order_tracker \<times> (exec_error + lifecycle_event)" where
  "ot_transition target ts t = transition_no_fill target ts None t"

definition ot_partial_fill ::
  "u64 \<Rightarrow> i64 \<Rightarrow> u64 \<Rightarrow> order_tracker \<Rightarrow> order_tracker \<times> (exec_error + lifecycle_event)" where
  "ot_partial_fill cum_filled_qty cum_avg_fill_paise ts t =
     (if cum_filled_qty < ot_filled_qty t then
        (t, Inl (ExecInternal (''fill regression: '' @ show_nat (unat (ot_filled_qty t)) @ '' -> ''
                   @ show_nat (unat cum_filled_qty))))
      else if cum_filled_qty > ot_requested_qty t then
        (t, Inl (ExecInternal (''fill overflow: '' @ show_nat (unat cum_filled_qty) @ '' > requested ''
                   @ show_nat (unat (ot_requested_qty t)))))
      else let target = (if cum_filled_qty \<ge> ot_requested_qty t \<and> ot_requested_qty t > 0
                         then Filled else PartiallyFilled)
           in if \<not> is_legal_transition (ot_state t) target then
                (t, Inl (InvalidFsmTransition (ot_state t) target))
              else let t = t\<lparr>ot_filled_qty := cum_filled_qty, ot_avg_fill_paise := cum_avg_fill_paise,
                             ot_state := target\<rparr>
                   in (t, Inr (ot_event t ts)))"

section \<open>Runs\<close>

text \<open>A public call on a tracker.\<close>

datatype tracker_call = CallSubmit "string option" u64 | CallFill u64 i64 u64 | CallCancel u64
  | CallReject u64 | CallTransition order_state u64 | CallSetId string

fun tracker_apply :: "tracker_call \<Rightarrow> order_tracker \<Rightarrow> order_tracker \<times> (exec_error + lifecycle_event) option" where
  "tracker_apply (CallSubmit oid ts) t = map_prod id Some (ot_submit oid ts t)"
| "tracker_apply (CallFill q p ts) t = map_prod id Some (ot_partial_fill q p ts t)"
| "tracker_apply (CallCancel ts) t = map_prod id Some (ot_cancel ts t)"
| "tracker_apply (CallReject ts) t = map_prod id Some (ot_reject ts t)"
| "tracker_apply (CallTransition s ts) t = map_prod id Some (ot_transition s ts t)"
| "tracker_apply (CallSetId oid) t = (ot_set_broker_order_id oid t, None)"

text \<open>The event, if any, that a call asks the network layer to publish.\<close>

definition call_event :: "(exec_error + lifecycle_event) option \<Rightarrow> lifecycle_event list" where
  "call_event r = (case r of Some (Inr ev) \<Rightarrow> [ev] | _ \<Rightarrow> [])"

inductive tracker_run :: "order_tracker \<Rightarrow> lifecycle_event list \<Rightarrow> order_tracker \<Rightarrow> bool" where
  run_none: "tracker_run t [] t"
| run_call: "tracker_run t evs t' \<Longrightarrow> tracker_apply c t' = (t'', r) \<Longrightarrow>
     tracker_run t (evs @ call_event r) t''"

inductive_cases tracker_runE: "tracker_run t evs t'"

text \<open>A path of the transition diagram.\<close>

fun legal_path :: "order_state \<Rightarrow> order_state list \<Rightarrow> bool" where
  "legal_path s [] = True"
| "legal_path s (s' # ss) = (is_legal_transition s s' \<and> legal_path s' ss)"

definition tracker_inv :: "order_tracker \<Rightarrow> bool" where
  "tracker_inv t \<longleftrightarrow> ot_filled_qty t \<le> ot_requested_qty t
     \<and> (ot_state t \<in> {New, Submitted, Rejected} \<longrightarrow> ot_filled_qty t = 0)"

lemma legal_path_snoc: "legal_path s (ss @ [x]) \<longleftrightarrow> legal_path s ss \<and> is_legal_transition (last (s # ss)) x"
  by (induction ss arbitrary: s) auto

lemma legal_from_terminal: "is_terminal s \<Longrightarrow> \<not> is_legal_transition s s'"
  by (cases s; cases s') simp_all

lemma legal_targets: "is_legal_transition s s' \<Longrightarrow> s' \<noteq> New"
  by (cases s; cases s') simp_all

text \<open>Every call either fails and leaves the state and quantities alone, or takes one legal edge,
  keeps the fill bounds and returns the event of the new state.\<close>

definition failed_call :: "order_tracker \<Rightarrow> order_tracker \<Rightarrow> (exec_error + lifecycle_event) option \<Rightarrow> bool" where
  "failed_call t t' r \<longleftrightarrow> call_event r = [] \<and> ot_state t' = ot_state t
     \<and> ot_filled_qty t' = ot_filled_qty t \<and> ot_requested_qty t' = ot_requested_qty t"

definition edge_call :: "order_tracker \<Rightarrow> order_tracker \<Rightarrow> (exec_error + lifecycle_event) option \<Rightarrow> bool" where
  "edge_call t t' r \<longleftrightarrow> (\<exists>ts. call_event r = [ot_event t' ts])
     \<and> is_legal_transition (ot_state t) (ot_state t') \<and> ot_requested_qty t' = ot_requested_qty t
     \<and> ot_filled_qty t \<le> ot_filled_qty t'
     \<and> (ot_filled_qty t' = ot_filled_qty t
        \<or> (ot_filled_qty t' \<le> ot_requested_qty t \<and> ot_state t' \<in> {PartiallyFilled, Filled}))"

lemma transition_no_fill_cases:
  "transition_no_fill target ts oid t = (t', r) \<Longrightarrow> failed_call t t' (Some r) \<or> edge_call t t' (Some r)"
  by (auto simp: transition_no_fill_def Let_def failed_call_def edge_call_def call_event_def
      split: if_splits option.splits)

lemma partial_fill_cases:
  "ot_partial_fill q p ts t = (t', r) \<Longrightarrow> failed_call t t' (Some r) \<or> edge_call t t' (Some r)"
  unfolding ot_partial_fill_def Let_def
  by (simp split: if_splits; fastforce simp: failed_call_def edge_call_def call_event_def)

lemma map_prod_SomeE: "map_prod id Some x = (t, r) \<longleftrightarrow> (\<exists>y. x = (t, y) \<and> r = Some y)"
  by (cases x) auto

lemma tracker_apply_cases: "tracker_apply c t = (t', r) \<Longrightarrow> failed_call t t' r \<or> edge_call t t' r"
proof (cases c)
  case (CallSetId oid)
  assume "tracker_apply c t = (t', r)"
  with CallSetId show ?thesis by (auto simp: failed_call_def call_event_def ot_set_broker_order_id_def)
qed (simp_all add: map_prod_SomeE ot_submit_def ot_cancel_def ot_reject_def ot_transition_def,
    auto dest: transition_no_fill_cases partial_fill_cases)

lemma tracker_run_inv:
  "tracker_run t0 evs t \<Longrightarrow> tracker_inv t0 \<Longrightarrow>
     tracker_inv t \<and> ot_requested_qty t = ot_requested_qty t0
     \<and> legal_path (ot_state t0) (map le_state evs) \<and> ot_state t = last (ot_state t0 # map le_state evs)
     \<and> sorted (map le_filled_qty evs) \<and> (\<forall>ev \<in> set evs. le_filled_qty ev \<le> ot_filled_qty t)"
proof (induction rule: tracker_run.induct)
  case (run_none t)
  then show ?case by simp
next
  case (run_call t0 evs t' c t'' r)
  from tracker_apply_cases [OF run_call.hyps(2)] show ?case
  proof
    assume "failed_call t' t'' r"
    with run_call show ?thesis by (auto simp: failed_call_def tracker_inv_def)
  next
    assume e: "edge_call t' t'' r"
    then have inv: "tracker_inv t''"
      using run_call legal_targets [of "ot_state t'" "ot_state t''"]
      by (cases "ot_state t'"; cases "ot_state t''") (auto simp: edge_call_def tracker_inv_def)
    with e run_call show ?thesis
      by (fastforce simp: edge_call_def legal_path_snoc ot_event_def sorted_append)
  qed
qed

lemma legal_path_terminal_last:
  "legal_path s ss \<Longrightarrow> i < length ss \<Longrightarrow> is_terminal (ss ! i) \<Longrightarrow> Suc i = length ss"
proof (induction ss arbitrary: s i)
  case (Cons x ss)
  then show ?case
    by (cases i; cases ss) (auto simp: legal_from_terminal)
qed simp

section \<open>Properties\<close>

text \<open>Order lifecycle. Whatever calls are made on a fresh tracker, the published events trace a
  path of the FSM diagram starting at \<open>New\<close>, the tracker is in the state of the last event, no
  event follows a terminal one, the cumulative filled quantities never decrease and never
  exceed the requested quantity.\<close>

theorem lifecycle_events_legal:
  assumes "tracker_run (ot_new cid b q) evs t"
  shows "legal_path New (map le_state evs) \<and> ot_state t = last (New # map le_state evs)
    \<and> (\<forall>i < length evs. is_terminal (le_state (evs ! i)) \<longrightarrow> Suc i = length evs)
    \<and> sorted (map le_filled_qty evs) \<and> (\<forall>ev \<in> set evs. le_filled_qty ev \<le> q)
    \<and> ot_filled_qty t \<le> q"
proof -
  have "tracker_inv (ot_new cid b q)" by (simp add: tracker_inv_def ot_new_def)
  note inv = tracker_run_inv [OF assms this]
  then have path: "legal_path New (map le_state evs)" by (simp add: ot_new_def)
  have "Suc i = length evs" if "i < length evs" "is_terminal (le_state (evs ! i))" for i
    using legal_path_terminal_last [OF path, of i] that by simp
  with inv path show ?thesis by (auto simp: ot_new_def tracker_inv_def intro: order_trans)
qed

lemma sample_tracker_run:
  "tracker_run (ot_new 7 Simulated 10)
     [ot_event ((ot_new 7 Simulated 10)\<lparr>ot_state := Submitted\<rparr>) 1,
      ot_event ((ot_new 7 Simulated 10)\<lparr>ot_state := Filled, ot_filled_qty := 10, ot_avg_fill_paise := 500\<rparr>) 2]
     ((ot_new 7 Simulated 10)\<lparr>ot_state := Filled, ot_filled_qty := 10, ot_avg_fill_paise := 500\<rparr>)"
proof -
  have "tracker_run (ot_new 7 Simulated 10) ([] @ call_event (Some (Inr (ot_event ((ot_new 7 Simulated 10)\<lparr>ot_state := Submitted\<rparr>) 1))))
      ((ot_new 7 Simulated 10)\<lparr>ot_state := Submitted\<rparr>)"
    by (rule run_call [OF run_none, of "CallSubmit None 1"])
      (simp add: ot_submit_def transition_no_fill_def ot_new_def Let_def)
  then have "tracker_run (ot_new 7 Simulated 10)
      (([] @ call_event (Some (Inr (ot_event ((ot_new 7 Simulated 10)\<lparr>ot_state := Submitted\<rparr>) 1))))
       @ call_event (Some (Inr (ot_event ((ot_new 7 Simulated 10)\<lparr>ot_state := Filled, ot_filled_qty := 10, ot_avg_fill_paise := 500\<rparr>) 2))))
      ((ot_new 7 Simulated 10)\<lparr>ot_state := Filled, ot_filled_qty := 10, ot_avg_fill_paise := 500\<rparr>)"
    by (rule run_call [of _ _ _ "CallFill 10 500 2"])
      (simp add: ot_partial_fill_def ot_new_def Let_def)
  then show ?thesis by (simp add: call_event_def)
qed

theorem lifecycle_events_legal_witness:
  "legal_path New [Submitted, Filled] \<and> sorted [0, 10 :: u64]"
  using lifecycle_events_legal [OF sample_tracker_run] by (simp add: ot_event_def ot_new_def)

end
