(* ===== verification/Retry.thy ===== *)
theory Retry
  imports Broker_Api Hedge_Float
begin

text \<open>
  Bounded exponential backoff (\<open>hedge-exec/src/retry.rs\<close>): the policy and its \<open>f64\<close> jitter
  arithmetic, the two jitter sources, and the retry loop over an arbitrary operation. The
  operation threads a state \<open>'s\<close>; the durations passed to the sleeper are collected in order.
  The locale \<open>jitter_source\<close> is the contract of the trait \<open>JitterSource\<close>.
\<close>

unbundle bit_operations_syntax

section \<open>Policy\<close>

record retry_policy =
  max_attempts :: u32
  base_backoff_ns :: u64
  max_backoff_ns :: u64
  jitter_bps :: u32

definition default_retry_policy :: retry_policy where
  "default_retry_policy = \<lparr>max_attempts = 3, base_backoff_ns = 50000000,
     max_backoff_ns = 1000000000, jitter_bps = 2500\<rparr>"

text \<open>The deterministic part: doubling with a saturated shift, capped.\<close>

definition capped_backoff :: "retry_policy \<Rightarrow> u32 \<Rightarrow> u64" where
  "capped_backoff p attempt =
     (let ex = min (unat (attempt - 1)) 31;
          raw = usat_mul (base_backoff_ns p) (push_bit ex 1)
      in min raw (max_backoff_ns p))"

definition backoff_for_attempt :: "retry_policy \<Rightarrow> u32 \<Rightarrow> flt \<Rightarrow> u64" where
  "backoff_for_attempt p attempt jitter_unit =
     (if attempt = 0 then 0
      else let capped = flt_of_int F64 (uint (capped_backoff p attempt));
               unit = (if is_finite_flt jitter_unit then flt_clamp jitter_unit (Fin (- 1)) (Fin 1) else Fin 0);
               pct = fdiv F64 (flt_of_int F64 (uint (jitter_bps p))) (Fin 10000);
               delta = fmul F64 (fmul F64 capped pct) unit;
               with_jitter = fadd F64 capped delta
           in flt_to_u64 (flt_min (flt_max with_jitter (Fin 0)) (flt_of_int F64 (uint (max_backoff_ns p)))))"

section \<open>Jitter sources\<close>

definition no_jitter_next :: "unit \<Rightarrow> flt \<times> unit" where
  "no_jitter_next j = (Fin 0, j)"

definition GOLDEN :: u64 where
  "GOLDEN = 0x9E3779B97F4A7C15"

definition seeded_new :: "u64 \<Rightarrow> u64" where
  "seeded_new seed = seed + GOLDEN"

definition splitmix :: "u64 \<Rightarrow> u64" where
  "splitmix z =
     (let z = (z XOR drop_bit 30 z) * 0xBF58476D1CE4E5B9;
          z = (z XOR drop_bit 27 z) * 0x94D049BB133111EB
      in z XOR drop_bit 31 z)"

definition seeded_next :: "u64 \<Rightarrow> flt \<times> u64" where
  "seeded_next state =
     (let state = state + GOLDEN;
          f = fdiv F64 (flt_of_int F64 (uint (splitmix state))) (flt_of_int F64 18446744073709551615)
      in (fsub F64 (fmul F64 (Fin 2) f) (Fin 1), state))"

section \<open>The loop\<close>

fun broker_debug :: "broker_id \<Rightarrow> string" where
  "broker_debug Zerodha = ''Zerodha''"
| "broker_debug Dhan = ''Dhan''"
| "broker_debug Shoonya = ''Shoonya''"
| "broker_debug AngelOne = ''AngelOne''"
| "broker_debug Upstox = ''Upstox''"
| "broker_debug Simulated = ''Simulated''"

text \<open>\<open>Display\<close> of \<open>ExecError\<close>; the arrow is three UTF-8 bytes.\<close>

fun exec_error_display :: "exec_error \<Rightarrow> string" where
  "exec_error_display (InvalidApprovalToken h) =
     ''approval token HMAC mismatch (intent.correlation_id_hex='' @ h @ '')''"
| "exec_error_display (DuplicateToken h) =
     ''approval token already consumed (intent.correlation_id_hex='' @ h @ '')''"
| "exec_error_display (InvalidFsmTransition a b) = ''invalid FSM transition: '' @ order_state_as_str a
     @ '' '' @ map char_of [0xE2, 0x86, 0x92 :: nat] @ '' '' @ order_state_as_str b"
| "exec_error_display (ExecBroker b n e) = ''broker '' @ broker_debug b @ '' (attempt ''
     @ show_nat (unat n) @ ''): '' @ broker_error_display e"
| "exec_error_display (ExecBus m) = ''bus error: '' @ m"
| "exec_error_display (ExecConfig m) = ''configuration error: '' @ m"
| "exec_error_display (RetryExhausted n m) = ''retry budget exhausted after '' @ show_nat (unat n)
     @ '' attempts; last error: '' @ m"
| "exec_error_display (ExecInternal m) = ''internal error: '' @ m"

text \<open>\<open>for attempt in 1..=max\<close>: \<open>n\<close> attempts remain, the next is \<open>attempt\<close>. The state of the
  operation, the jitter source and the sleeps so far are threaded.\<close>

fun retry_loop ::
  "retry_policy \<Rightarrow> ('j \<Rightarrow> flt \<times> 'j) \<Rightarrow> (u32 \<Rightarrow> 's \<Rightarrow> (exec_error + 'a) \<times> 's) \<Rightarrow> u32 \<Rightarrow> nat \<Rightarrow> u32
     \<Rightarrow> exec_error option \<Rightarrow> 's \<Rightarrow> 'j \<Rightarrow> u64 list \<Rightarrow> (exec_error + 'a) \<times> 's \<times> 'j \<times> u64 list" where
  "retry_loop p next_unit op mx 0 attempt last_err s j sleeps =
     (Inl (RetryExhausted mx (case last_err of Some e \<Rightarrow> exec_error_display e | None \<Rightarrow> ''unknown'')),
      s, j, sleeps)"
| "retry_loop p next_unit op mx (Suc n) attempt last_err s j sleeps =
     (case op attempt s of
        (Inr v, s') \<Rightarrow> (Inr v, s', j, sleeps)
      | (Inl err, s') \<Rightarrow>
          if \<not> exec_is_retryable err then (Inl err, s', j, sleeps)
          else if attempt < mx then
            let (un, j') = next_unit j; dur = backoff_for_attempt p attempt un
            in retry_loop p next_unit op mx n (attempt + 1) (Some err) s' j' (sleeps @ [dur])
          else retry_loop p next_unit op mx n (attempt + 1) (Some err) s' j sleeps)"

definition retry_with_backoff ::
  "retry_policy \<Rightarrow> ('j \<Rightarrow> flt \<times> 'j) \<Rightarrow> (u32 \<Rightarrow> 's \<Rightarrow> (exec_error + 'a) \<times> 's) \<Rightarrow> 's \<Rightarrow> 'j
     \<Rightarrow> (exec_error + 'a) \<times> 's \<times> 'j \<times> u64 list" where
  "retry_with_backoff p next_unit op s j =
     (let mx = max (max_attempts p) 1 in retry_loop p next_unit op mx (unat mx) 1 None s j [])"

section \<open>Lemmas\<close>

lemma unat_flt_to_u64: "unat (flt_to_u64 x) = flt_to_nat 18446744073709551615 x"
proof -
  have "flt_to_nat 18446744073709551615 x < 18446744073709551616"
    by (auto simp: flt_to_nat_def split: flt.splits)
  then show ?thesis by (simp add: flt_to_u64_def unat_of_nat take_bit_nat_eq_self)
qed

lemma flt_to_nat_min_bound:
  "flt_to_nat hi (flt_min x (Fin (of_int m))) \<le> nat m" if "0 \<le> m"
proof (cases x)
  case (Fin q)
  show ?thesis
  proof (cases "q \<le> of_int m")
    case True
    then have "nat (trunc_rat q) \<le> nat m"
      using trunc_rat_le [of q m] that by (cases "0 \<le> q") (auto simp: trunc_rat_def)
    then show ?thesis using Fin True by (simp add: flt_min_def flt_to_nat_def)
  next
    case False
    then show ?thesis using Fin by (simp add: flt_min_def flt_to_nat_def)
  qed
qed (use that in \<open>simp_all add: flt_min_def flt_to_nat_def\<close>)

lemma unat_nat_uint: "unat (w :: u64) = nat (uint w)"
  by (rule unat_eq_nat_uint)

lemma backoff_bound:
  assumes "uint (max_backoff_ns p) \<le> 9007199254740992"
  shows "backoff_for_attempt p a u \<le> max_backoff_ns p"
proof -
  define m where "m = uint (max_backoff_ns p)"
  have m: "0 \<le> m" "unat (max_backoff_ns p) = nat m" by (simp_all only: m_def unat_nat_uint) simp
  have e: "flt_of_int F64 m = Fin (of_int m)" using assms m(1) by (simp only: m_def flt_of_int_exact)
  have "unat (flt_to_u64 (flt_min x (Fin (of_int m)))) \<le> unat (max_backoff_ns p)" for x
    using flt_to_nat_min_bound [OF m(1)] by (simp only: unat_flt_to_u64 m(2))
  then show ?thesis by (simp only: backoff_for_attempt_def Let_def e m_def [symmetric] word_le_nat_alt) simp
qed

lemma capped_le_max: "capped_backoff p a \<le> max_backoff_ns p"
  by (simp add: capped_backoff_def Let_def)

lemma flt_to_u64_int: "0 \<le> n \<Longrightarrow> n < 18446744073709551616 \<Longrightarrow> flt_to_u64 (Fin (of_int n)) = of_int n"
proof -
  assume n: "0 \<le> n" "n < 18446744073709551616"
  then have "nat n \<le> 18446744073709551615" by linarith
  then have "min 18446744073709551615 (nat n) = nat n" by (rule min.absorb2)
  then show ?thesis using n by (simp add: flt_to_u64_def flt_to_nat_def)
qed

text \<open>The jitter fraction is a finite non-negative number.\<close>

lemma jitter_fraction:
  "\<exists>x. fdiv F64 (flt_of_int F64 (uint (w :: u32))) (Fin 10000) = Fin x \<and> 0 \<le> x \<and> x \<le> 4294967296"
proof -
  define n where "n = uint w"
  have n: "0 \<le> n" "n \<le> 4294967296" using uint_u32_bound [of w] by (simp_all add: n_def)
  then have "flt_of_int F64 n = Fin (of_int n)" by (simp add: flt_of_int_exact)
  moreover have "of_int n \<le> (4294967296 :: rat)" "(0 :: rat) \<le> of_int n" using n by simp_all
  then have "(0 :: rat) \<le> of_int n / 10000" "of_int n / 10000 \<le> (4294967296 :: rat)" by linarith+
  ultimately show ?thesis
    using rnd_F64_between [of 0 "of_int n / 10000" 4294967296] by (simp add: n_def)
qed

lemma rnd_F64_finite:
  assumes "0 \<le> q" "q \<le> pow2 85"
  shows "\<exists>y. rnd F64 q = Fin y"
proof -
  have "rnd_rat F64 (pow2 85) = pow2 85"
    by (rule rnd_rat_exact [where k = 1 and e = 85]) simp_all
  then have "rnd F64 (pow2 85) = Fin (pow2 85)" by (simp add: rnd_def Let_def)
  then have "flt_le (rnd F64 q) (Fin (pow2 85))" using rnd_mono [OF assms(2), of F64] by simp
  moreover have "flt_le (Fin 0) (rnd F64 q)" using rnd_mono [OF assms(1), of F64] by simp
  ultimately show ?thesis by (cases "rnd F64 q") auto
qed

lemma jitter_product:
  assumes "0 \<le> c" "c \<le> 9007199254740992" "0 \<le> x" "x \<le> 4294967296"
  shows "\<exists>y. rnd F64 (of_int c * x) = Fin y"
proof (rule rnd_F64_finite)
  have c: "of_int c \<le> (9007199254740992 :: rat)" "(0 :: rat) \<le> of_int c" using assms by simp_all
  then show "0 \<le> of_int c * x" using assms(3) by simp
  have "of_int c * x \<le> 9007199254740992 * 4294967296" using c assms(3,4) by (intro mult_mono) simp_all
  then show "of_int c * x \<le> pow2 85" by simp
qed

text \<open>Without jitter the schedule is the capped doubling itself.\<close>

lemma backoff_no_jitter:
  assumes "uint (max_backoff_ns p) \<le> 9007199254740992" "a \<noteq> 0"
  shows "backoff_for_attempt p a (Fin 0) = capped_backoff p a"
proof -
  define m c where "m = uint (max_backoff_ns p)" and "c = uint (capped_backoff p a)"
  have b: "0 \<le> c" "c \<le> m" "m \<le> 9007199254740992"
    using capped_le_max [of p a] assms(1) by (simp_all add: m_def c_def word_le_def)
  have e: "flt_of_int F64 m = Fin (of_int m)" "flt_of_int F64 c = Fin (of_int c)" "rnd F64 (of_int c) = Fin (of_int c)"
    using b by (simp_all add: flt_of_int_exact rnd_F64_int)
  obtain x where x: "fdiv F64 (flt_of_int F64 (uint (jitter_bps p))) (Fin 10000) = Fin x" "0 \<le> x" "x \<le> 4294967296"
    using jitter_fraction by blast
  obtain y where y: "rnd F64 (of_int c * x) = Fin y" using jitter_product [of c x] b x by auto
  have "flt_to_u64 (Fin (of_int c)) = capped_backoff p a"
    using b by (subst flt_to_u64_int) (simp_all add: c_def)
  moreover from this have "c = 0 \<Longrightarrow> flt_to_u64 (Fin 0) = capped_backoff p a" by simp
  ultimately show ?thesis
    using assms(2) b
    unfolding backoff_for_attempt_def Let_def m_def [symmetric] c_def [symmetric] e x(1)
    by (simp add: flt_clamp_def is_finite_flt_def flt_max_def flt_min_def y e)
qed

lemma capped_backoff_nat:
  "unat (capped_backoff p a) =
     min (min (unat (base_backoff_ns p) * 2 ^ min (unat (a - 1)) 31) 18446744073709551615) (unat (max_backoff_ns p))"
proof -
  have "unat (push_bit k 1 :: u64) = 2 ^ k" if "k \<le> 31" for k
  proof -
    have "(2 :: nat) ^ k < 2 ^ 64" using that by (intro power_strict_increasing) simp_all
    moreover have "(push_bit k 1 :: u64) = of_nat (2 ^ k)" by (simp add: push_bit_eq_mult)
    ultimately show ?thesis by (simp only: unat_of_nat) simp
  qed
  then show ?thesis
    by (simp add: capped_backoff_def Let_def unat_usat_mul min_def word_le_nat_alt)
qed

subsection \<open>Jitter\<close>

locale jitter_source =
  fixes next_unit :: "'j \<Rightarrow> flt \<times> 'j"
  assumes unit_range: "\<exists>x. fst (next_unit j) = Fin x \<and> - 1 \<le> x \<and> x \<le> 1"
begin

lemma clamp_idle:
  "is_finite_flt (fst (next_unit j)) \<and> flt_clamp (fst (next_unit j)) (Fin (- 1)) (Fin 1) = fst (next_unit j)"
  using unit_range [of j] by (auto simp: is_finite_flt_def flt_clamp_def)

end

interpretation no_jitter: jitter_source no_jitter_next
  by unfold_locales (simp add: no_jitter_next_def)

interpretation seeded: jitter_source seeded_next
proof unfold_locales
  fix j :: u64
  define z where "z = uint (splitmix (j + GOLDEN))"
  have "0 \<le> z" "z \<le> 18446744073709551615"
    using uint_u64_bound [of "splitmix (j + GOLDEN)"] by (simp_all add: z_def)
  then have z: "(0 :: rat) \<le> of_int z" "of_int z \<le> (18446744073709551615 :: rat)" by simp_all
  obtain t where t: "rnd F64 18446744073709551615 = Fin t"
    using rnd_F64_finite [of 18446744073709551615] by auto
  have one: "rnd F64 1 = Fin 1" using rnd_F64_int [of 1] by simp
  have t1: "1 \<le> t" using rnd_mono [of 1 18446744073709551615 F64] by (simp add: t one)
  obtain a where a: "rnd F64 (of_int z) = Fin a" "0 \<le> a" "a \<le> t"
    using rnd_mono [OF z(1), of F64] rnd_mono [OF z(2), of F64] t by (cases "rnd F64 (of_int z)") auto
  obtain f where f: "rnd F64 (a / t) = Fin f" "0 \<le> f" "f \<le> 1"
    using rnd_F64_between [of 0 "a / t" 1] a t1 by auto
  obtain g where g: "rnd F64 (2 * f) = Fin g" "0 \<le> g" "g \<le> 2"
    using rnd_F64_between [of 0 "2 * f" 2] f by auto
  obtain h where "rnd F64 (g + - 1) = Fin h" "- 1 \<le> h" "h \<le> 1"
    using rnd_F64_between [of "- 1" "g + - 1" 1] g by auto
  then show "\<exists>x. fst (seeded_next j) = Fin x \<and> - 1 \<le> x \<and> x \<le> 1"
    unfolding seeded_next_def Let_def z_def [symmetric] flt_of_int_def
    using a f g t t1 by (simp add: fsub_def)
qed
subsection \<open>The loop\<close>

text \<open>The results of \<open>n\<close> consecutive calls of the operation, and when the loop stops.\<close>

fun op_results :: "(u32 \<Rightarrow> 's \<Rightarrow> (exec_error + 'a) \<times> 's) \<Rightarrow> u32 \<Rightarrow> nat \<Rightarrow> 's \<Rightarrow> (exec_error + 'a) list" where
  "op_results op attempt 0 s = []"
| "op_results op attempt (Suc n) s = fst (op attempt s) # op_results op (attempt + 1) n (snd (op attempt s))"

fun settled :: "exec_error + 'a \<Rightarrow> bool" where
  "settled (Inr v) = True"
| "settled (Inl e) = (\<not> exec_is_retryable e)"

lemma length_op_results [simp]: "length (op_results op a n s) = n"
  by (induction n arbitrary: a s) simp_all

definition give_up :: "u32 \<Rightarrow> exec_error option \<Rightarrow> exec_error + 'a" where
  "give_up mx last_err =
     Inl (RetryExhausted mx (case last_err of Some e \<Rightarrow> exec_error_display e | None \<Rightarrow> ''unknown''))"

definition last_error :: "exec_error option \<Rightarrow> (exec_error + 'a) list \<Rightarrow> exec_error option" where
  "last_error d rs = (if rs = [] then d else case last rs of Inl e \<Rightarrow> Some e | Inr _ \<Rightarrow> d)"

lemma last_error_Cons:
  "\<not> settled (Inl e :: exec_error + 'a) \<Longrightarrow> last_error (Some e) rs = last_error d (Inl e # rs)" 
  if "list_all (\<lambda>r. \<not> settled r) (rs :: (exec_error + 'a) list)"
  using that by (cases rs rule: rev_cases) (auto simp: last_error_def split: sum.splits)

text \<open>What the loop delivers when \<open>n\<close> attempts remain.\<close>

definition retry_post where
  "retry_post p op n attempt s mx le sleeps res \<longleftrightarrow> (case res of (r, s', j', sl) \<Rightarrow>
      r = (case find settled (op_results op attempt n s) of Some r \<Rightarrow> r
           | None \<Rightarrow> give_up mx (last_error le (op_results op attempt n s)))
      \<and> length sl = length sleeps + min (length (takeWhile (\<lambda>r. \<not> settled r) (op_results op attempt n s))) (n - 1)
      \<and> (\<forall>d \<in> set sl. d \<in> set sleeps \<or> (\<exists>a u. d = backoff_for_attempt p a u)))"

lemma retry_loop_spec:
  assumes "unat attempt + n = unat mx + 1" "attempt \<noteq> 0"
  shows "retry_post p op n attempt s mx le sleeps (retry_loop p nx op mx n attempt le s j sleeps)"
  using assms
proof (induction n arbitrary: attempt le s j sleeps)
  case 0
  then show ?case by (simp add: retry_post_def give_up_def last_error_def)
next
  case (Suc n)
  obtain r s' where op: "op attempt s = (r, s')" by (cases "op attempt s")
  show ?case
  proof (cases "settled r")
    case True
    then show ?thesis using op by (cases r) (simp_all add: retry_post_def)
  next
    case False
    then obtain e where r: "r = Inl e" "exec_is_retryable e" by (cases r) simp_all
    show ?thesis
    proof (cases n)
      case 0
      then show ?thesis using op r Suc.prems
        by (simp add: retry_post_def give_up_def last_error_def word_less_nat_alt)
    next
      case (Suc k)
      then have lt: "attempt < mx" using Suc.prems by (simp add: word_less_nat_alt)
      have nxt: "unat (attempt + 1) = unat attempt + 1"
      proof -
        have "attempt + 1 = of_nat (unat attempt + 1)" by simp
        moreover have "unat attempt + 1 < 2 ^ 32" using lt unat_less_len [of mx] by (simp add: word_less_nat_alt)
        ultimately show ?thesis by (simp only: unat_of_nat) (simp add: take_bit_nat_eq_self)
      qed
      then have a: "unat (attempt + 1) + n = unat mx + 1" "attempt + 1 \<noteq> 0"
        using Suc.prems by auto
      have IH: "retry_post p op n (attempt + 1) s' mx (Some e) (sleeps @ [backoff_for_attempt p attempt (fst (nx j))])
        (retry_loop p nx op mx n (attempt + 1) (Some e) s' (snd (nx j)) (sleeps @ [backoff_for_attempt p attempt (fst (nx j))]))"
        using a by (rule Suc.IH)
      have le: "find settled (op_results op (attempt + 1) n s') = None \<Longrightarrow>
          last_error (Some e) (op_results op (attempt + 1) n s') = last_error le (Inl e # op_results op (attempt + 1) n s')"
        using last_error_Cons [of "op_results op (attempt + 1) n s'" e] r by (auto simp: find_None_iff list_all_iff)
      show ?thesis
        using IH le op r lt Suc
        by (auto simp: retry_post_def case_prod_beta Let_def split: option.splits)
    qed
  qed
qed

section \<open>Properties\<close>

text \<open>Bounded backoff. Whatever the jitter value (NaN, infinite or out of range), the sleep before
  a retry never exceeds \<open>max_backoff_ns\<close>, for caps up to \<open>2^53\<close> nanoseconds (104 days), where
  the \<open>f64\<close> arithmetic of the code is exact.\<close>

theorem backoff_within_cap:
  assumes "uint (max_backoff_ns p) \<le> 9007199254740992"
  shows "backoff_for_attempt p attempt unit \<le> max_backoff_ns p"
  using assms by (rule backoff_bound)

theorem backoff_within_cap_witness:
  "backoff_for_attempt default_retry_policy 3 NaN \<le> 1000000000"
  using backoff_within_cap [of default_retry_policy 3 NaN] by (simp add: default_retry_policy_def)

text \<open>Without jitter the schedule is exact: after failed attempt \<open>a\<close> the sleep is the base
  doubled \<open>a - 1\<close> times (at most 31), saturated at \<open>u64::MAX\<close> and capped; hence it never
  decreases from one attempt to the next.\<close>

theorem backoff_schedule_exact:
  assumes "uint (max_backoff_ns p) \<le> 9007199254740992" and "0 < attempt" and "attempt \<le> attempt'"
  shows "unat (backoff_for_attempt p attempt (fst (no_jitter_next ()))) =
      min (min (unat (base_backoff_ns p) * 2 ^ min (unat attempt - 1) 31) 18446744073709551615) (unat (max_backoff_ns p))
    \<and> backoff_for_attempt p attempt (fst (no_jitter_next ())) \<le> backoff_for_attempt p attempt' (fst (no_jitter_next ()))"
proof -
  have pred: "unat (a - 1) = unat a - 1" if "0 < a" for a :: u32
  proof -
    have "1 \<le> a" using that by (simp add: word_le_nat_alt Suc_le_eq unat_gt_0 word_greater_zero_iff)
    then show ?thesis by (simp add: unat_sub)
  qed
  have nz: "attempt \<noteq> 0" "attempt' \<noteq> 0" using assms(2,3) by auto
  have pos': "0 < attempt'" using assms(2,3) by (rule less_le_trans)
  have le: "min (unat attempt - 1) 31 \<le> min (unat attempt' - 1) (31 :: nat)"
    using assms(3) by (auto simp: word_le_nat_alt)
  then have "unat (base_backoff_ns p) * 2 ^ min (unat attempt - 1) 31 \<le> unat (base_backoff_ns p) * 2 ^ min (unat attempt' - 1) 31"
    by (intro mult_le_mono2 power_increasing) simp_all
  then have "min (min (unat (base_backoff_ns p) * 2 ^ min (unat attempt - 1) 31) k) m
      \<le> min (min (unat (base_backoff_ns p) * 2 ^ min (unat attempt' - 1) 31) k) m" for k m
    by (intro min.mono) simp_all
  then show ?thesis
    by (simp only: no_jitter_next_def fst_conv backoff_no_jitter [OF assms(1) nz(1)]
        backoff_no_jitter [OF assms(1) nz(2)] capped_backoff_nat word_le_nat_alt pred [OF assms(2)] pred [OF pos'])
qed

theorem backoff_schedule_exact_witness:
  "unat (backoff_for_attempt default_retry_policy 3 (fst (no_jitter_next ()))) = 200000000"
  using backoff_schedule_exact [of default_retry_policy 3 3] by (simp add: default_retry_policy_def)

text \<open>C31: The retry loop. With \<open>mx\<close> the configured attempts (at least one), the loop returns the
  first result that is a success or a non-retryable error; if all \<open>mx\<close> attempts fail retryably
  it returns \<open>RetryExhausted\<close> with the number of attempts and the last error. It sleeps once
  after each failed attempt but the last, each time within the backoff cap.\<close>

theorem retry_with_backoff_correct:
  assumes "mx = max (max_attempts p) 1" and "rs = op_results op 1 (unat mx) s"
    and "uint (max_backoff_ns p) \<le> 9007199254740992"
    and "retry_with_backoff p nx op s j = (r, s', j', sleeps)"
  shows "r = (case find settled rs of Some r \<Rightarrow> r
              | None \<Rightarrow> Inl (RetryExhausted mx (case last rs of Inl e \<Rightarrow> exec_error_display e | Inr _ \<Rightarrow> ''unknown'')))
    \<and> length sleeps = min (length (takeWhile (\<lambda>r. \<not> settled r) rs)) (unat mx - 1)
    \<and> (\<forall>d \<in> set sleeps. d \<le> max_backoff_ns p)"
proof -
  have "(1 :: u32) \<le> mx" using assms(1) by simp
  then have mx: "0 < unat mx" by (simp add: word_le_nat_alt)
  have ne: "rs \<noteq> []" using mx assms(2) by (metis length_op_results length_greater_0_conv)
  have "retry_post p op (unat mx) 1 s mx None [] (r, s', j', sleeps)"
    using retry_loop_spec [of 1 "unat mx" mx p op s None "[]" nx j] assms(1,4)
    by (simp add: retry_with_backoff_def Let_def)
  then show ?thesis
    using ne backoff_bound [OF assms(3)] assms(2)
    by (auto simp: retry_post_def give_up_def last_error_def split: option.splits sum.splits)
qed

definition flaky_op :: "u32 \<Rightarrow> nat \<Rightarrow> (exec_error + nat) \<times> nat" where
  "flaky_op attempt s = (if s < 2 then Inl (ExecBroker Dhan attempt (BrokerTransient ''busy'')) else Inr 42, Suc s)"

theorem retry_with_backoff_correct_witness:
  "fst (retry_with_backoff default_retry_policy no_jitter_next flaky_op 0 ()) = Inr 42
   \<and> length (snd (snd (snd (retry_with_backoff default_retry_policy no_jitter_next flaky_op 0 ())))) = 2"
proof -
  let ?R = "retry_with_backoff default_retry_policy no_jitter_next flaky_op 0 ()"
  obtain r s j sl where R: "?R = (r, s, j, sl)" by (cases ?R)
  have rs: "op_results flaky_op 1 3 0 = [Inl (ExecBroker Dhan 1 (BrokerTransient ''busy'')),
      Inl (ExecBroker Dhan 2 (BrokerTransient ''busy'')), Inr 42]"
    by (simp add: flaky_op_def eval_nat_numeral)
  show ?thesis
    using retry_with_backoff_correct [OF refl refl _ R] rs unfolding R
    by (simp add: default_retry_policy_def)
qed

text \<open>Above \<open>2^53\<close> nanoseconds the conversion of the cap to \<open>f64\<close> may round up, and the documented
  bound fails.\<close>

lemma rnd_above_2_53: "rnd F64 9007199254740995 = Fin 9007199254740996"
proof -
  have "nlog2 9007199254740995 = 53" by (simp add: nlog2.simps)
  then have u: "ulp_exp F64 9007199254740995 = 1" by (simp add: ulp_exp_def ilog2_def)
  have "\<lfloor>9007199254740995 / 2 :: rat\<rfloor> = 4503599627370497" by (simp add: floor_eq_iff)
  then have "rne (9007199254740995 / 2) = 4503599627370498" by (simp add: rne_def)
  then have "rnd_rat F64 9007199254740995 = 9007199254740996" by (simp add: rnd_rat_def u)
  then show ?thesis by (simp add: rnd_def Let_def)
qed

lemma backoff_exceeds_cap:
  "uint (backoff_for_attempt \<lparr>max_attempts = 3, base_backoff_ns = 9007199254740995,
     max_backoff_ns = 9007199254740995, jitter_bps = 0\<rparr> 1 (Fin 0)) = 9007199254740996"
proof -
  have e: "flt_of_int F64 9007199254740995 = Fin 9007199254740996"
    by (simp add: flt_of_int_def rnd_above_2_53)
  have z: "flt_of_int F64 0 = Fin 0" by (simp add: flt_of_int_def)
  have x: "rnd F64 9007199254740996 = Fin 9007199254740996"
  proof -
    have "rnd_rat F64 9007199254740996 = 9007199254740996"
      by (rule rnd_rat_exact [where k = 4503599627370498 and e = 1]) simp_all
    then show ?thesis by (simp add: rnd_def Let_def)
  qed
  have c: "uint (capped_backoff \<lparr>max_attempts = 3, base_backoff_ns = 9007199254740995,
     max_backoff_ns = 9007199254740995, jitter_bps = 0\<rparr> 1) = 9007199254740995"
    by (simp add: capped_backoff_def usat_mul_def)
  have t: "trunc_rat 9007199254740996 = 9007199254740996" using trunc_rat_of_int [of 9007199254740996] by simp
  show ?thesis
    by (simp add: backoff_for_attempt_def Let_def c e z x flt_clamp_def is_finite_flt_def flt_max_def flt_min_def
        flt_to_u64_def flt_to_nat_def t)
qed

end
