(* ===== verification/Broker_Router.thy ===== *)
theory Broker_Router
  imports Broker_Api Ring_Window Hedge_Float
begin

text \<open>
  Active/backup routing with failover (\<open>hedge-exec/src/router.rs\<close>): the sliding window of
  outcomes per adapter, its error rate and nearest-rank p99 latency, the threshold check and
  the swap of the active slot. \<open>AdapterStats\<close> implements the contract \<open>rolling_window\<close>. Each
  operation runs to completion here; the compare-exchange of the swap therefore succeeds.
\<close>

section \<open>Adapter statistics\<close>

datatype outcome = Success | Failure

definition WINDOW_SIZE :: nat where
  "WINDOW_SIZE = 64"

record sample =
  sm_tag :: u8
  sm_latency_ms :: u32

record adapter_stats =
  as_capacity :: nat
  as_samples :: "sample list"
  as_pos :: nat
  as_total_recorded :: u64

definition stats_with_capacity :: "nat \<Rightarrow> adapter_stats" where
  "stats_with_capacity capacity = \<lparr>as_capacity = max capacity 1, as_samples = [], as_pos = 0,
     as_total_recorded = 0\<rparr>"

definition outcome_sample :: "outcome \<Rightarrow> u32 \<Rightarrow> sample" where
  "outcome_sample oc latency_ms =
     \<lparr>sm_tag = (case oc of Success \<Rightarrow> 0 | Failure \<Rightarrow> 1), sm_latency_ms = latency_ms\<rparr>"

text \<open>Appending a sample; \<open>pos\<close> is a \<open>usize\<close> below the capacity, so its increment cannot wrap.\<close>

definition stats_push :: "sample \<Rightarrow> adapter_stats \<Rightarrow> adapter_stats" where
  "stats_push s a =
     (let a = (if length (as_samples a) < as_capacity a then a\<lparr>as_samples := as_samples a @ [s]\<rparr>
               else let i = as_pos a mod as_capacity a
                    in a\<lparr>as_samples := (as_samples a)[i := s], as_pos := i + 1\<rparr>)
      in a\<lparr>as_total_recorded := as_total_recorded a + 1\<rparr>)"

definition stats_record :: "outcome \<Rightarrow> u32 \<Rightarrow> adapter_stats \<Rightarrow> adapter_stats" where
  "stats_record oc latency_ms a = stats_push (outcome_sample oc latency_ms) a"

definition error_rate_bps :: "adapter_stats \<Rightarrow> u32" where
  "error_rate_bps a =
     (if as_samples a = [] then 0
      else let failures = length (filter (\<lambda>s. sm_tag s = 1) (as_samples a));
               total = length (as_samples a)
           in of_nat (failures * 10000 div total))"

text \<open>The literal \<open>0.99\<close> and the index of the nearest rank.\<close>

definition F099 :: flt where
  "F099 = rnd F64 (99 / 100)"

definition p99_index :: "nat \<Rightarrow> nat" where
  "p99_index n =
     min (flt_to_nat 18446744073709551615 (flt_ceil (fmul F64 (flt_of_int F64 (int n)) F099)) - 1) (n - 1)"

definition p99_latency_ms :: "adapter_stats \<Rightarrow> u32" where
  "p99_latency_ms a =
     (if as_samples a = [] then 0
      else let latencies = filter (\<lambda>ms. ms \<noteq> - 1) (map sm_latency_ms (as_samples a))
           in if latencies = [] then 0
              else let latencies = sort latencies in latencies ! p99_index (length latencies))"

definition stats_window_len :: "adapter_stats \<Rightarrow> nat" where
  "stats_window_len a = length (as_samples a)"

definition stats_reset :: "adapter_stats \<Rightarrow> adapter_stats" where
  "stats_reset a = a\<lparr>as_samples := [], as_pos := 0\<rparr>"

section \<open>The router\<close>

datatype active_slot = Primary | Backup

fun slot_other :: "active_slot \<Rightarrow> active_slot" where
  "slot_other Primary = Backup"
| "slot_other Backup = Primary"

record failover_thresholds =
  th_error_rate_bps :: u32
  th_p99_latency_ms :: u32
  th_min_samples :: u32

definition from_broker_config :: "flt \<Rightarrow> u32 \<Rightarrow> failover_thresholds" where
  "from_broker_config failover_error_rate failover_latency_ms =
     \<lparr>th_error_rate_bps = flt_to_u32 (flt_round (fmul F32 (flt_clamp failover_error_rate (Fin 0) (Fin 1)) (Fin 10000))),
      th_p99_latency_ms = failover_latency_ms, th_min_samples = 8\<rparr>"

record failover_event =
  fe_from :: broker_id
  fe_to :: broker_id
  fe_error_rate_bps :: u32
  fe_p99_latency_ms :: u32
  fe_ts_ns :: u64

record broker_router =
  br_primary_id :: broker_id
  br_backup_id :: broker_id
  br_active :: active_slot
  br_primary_stats :: adapter_stats
  br_backup_stats :: adapter_stats
  br_thresholds :: failover_thresholds

definition router_new :: "broker_id \<Rightarrow> broker_id \<Rightarrow> failover_thresholds \<Rightarrow> broker_router" where
  "router_new primary backup thresholds = \<lparr>br_primary_id = primary, br_backup_id = backup,
     br_active = Primary, br_primary_stats = stats_with_capacity WINDOW_SIZE,
     br_backup_stats = stats_with_capacity WINDOW_SIZE, br_thresholds = thresholds\<rparr>"

definition slot_id :: "broker_router \<Rightarrow> active_slot \<Rightarrow> broker_id" where
  "slot_id r slot = (case slot of Primary \<Rightarrow> br_primary_id r | Backup \<Rightarrow> br_backup_id r)"

definition active_id :: "broker_router \<Rightarrow> broker_id" where
  "active_id r = slot_id r (br_active r)"

definition swap_to :: "active_slot \<Rightarrow> broker_router \<Rightarrow> broker_router" where
  "swap_to target r = r\<lparr>br_active := target\<rparr>"

definition force_primary :: "broker_router \<Rightarrow> broker_router" where
  "force_primary r = swap_to Primary r"

definition pick_for_intent :: "broker_id option \<Rightarrow> broker_router \<Rightarrow> broker_router \<times> active_slot" where
  "pick_for_intent hint r =
     (case hint of
        Some target \<Rightarrow>
          if target = br_primary_id r then (swap_to Primary r, Primary)
          else if target = br_backup_id r then (swap_to Backup r, Backup)
          else (r, br_active r)
      | None \<Rightarrow> (r, br_active r))"

definition slot_stats :: "broker_router \<Rightarrow> active_slot \<Rightarrow> adapter_stats" where
  "slot_stats r slot = (case slot of Primary \<Rightarrow> br_primary_stats r | Backup \<Rightarrow> br_backup_stats r)"

definition set_slot_stats :: "active_slot \<Rightarrow> adapter_stats \<Rightarrow> broker_router \<Rightarrow> broker_router" where
  "set_slot_stats slot a r =
     (case slot of Primary \<Rightarrow> r\<lparr>br_primary_stats := a\<rparr> | Backup \<Rightarrow> r\<lparr>br_backup_stats := a\<rparr>)"

definition record_outcome ::
  "outcome \<Rightarrow> u32 \<Rightarrow> u64 \<Rightarrow> broker_router \<Rightarrow> broker_router \<times> failover_event option" where
  "record_outcome oc latency_ms ts_ns r =
     (let slot = br_active r;
          stats = stats_record oc latency_ms (slot_stats r slot);
          r = set_slot_stats slot stats r
      in if of_nat (stats_window_len stats) < th_min_samples (br_thresholds r) then (r, None)
         else let er = error_rate_bps stats; p99 = p99_latency_ms stats
              in if \<not> (er \<ge> th_error_rate_bps (br_thresholds r) \<or> p99 \<ge> th_p99_latency_ms (br_thresholds r))
                 then (r, None)
                 else let r = swap_to (slot_other slot) r;
                          r = set_slot_stats (slot_other slot) (stats_reset (slot_stats r (slot_other slot))) r
                      in (r, Some \<lparr>fe_from = slot_id r slot, fe_to = slot_id r (slot_other slot),
                                   fe_error_rate_bps = er, fe_p99_latency_ms = p99, fe_ts_ns = ts_ns\<rparr>))"

section \<open>The window contract\<close>

definition stats_items :: "adapter_stats \<Rightarrow> sample list" where
  "stats_items a =
     (if length (as_samples a) < as_capacity a then as_samples a
      else let i = as_pos a mod as_capacity a in drop i (as_samples a) @ take i (as_samples a))"

definition stats_ok :: "adapter_stats \<Rightarrow> bool" where
  "stats_ok a \<longleftrightarrow> 0 < as_capacity a \<and> length (as_samples a) \<le> as_capacity a
     \<and> (length (as_samples a) < as_capacity a \<longrightarrow> as_pos a = 0)"

lemma set_stats_items: "stats_ok a \<Longrightarrow> set (stats_items a) = set (as_samples a)"
  by (metis append_take_drop_id set_append stats_items_def sup_commute)

lemma mset_stats_items: "stats_ok a \<Longrightarrow> length (filter P (stats_items a)) = length (filter P (as_samples a))"
proof -
  have "length (filter P (drop i xs)) + length (filter P (take i xs)) = length (filter P xs)" for xs :: "sample list" and i
    by (metis add.commute append_take_drop_id filter_append length_append)
  then show ?thesis by (simp add: stats_items_def Let_def)
qed

lemma length_stats_items: "length (stats_items a) = length (as_samples a)"
  by (simp add: stats_items_def Let_def min_def)

lemma stats_push_ok: "stats_ok a \<Longrightarrow> stats_ok (stats_push s a)"
  by (auto simp: stats_ok_def stats_push_def Let_def)

lemma stats_push_items:
  assumes "stats_ok a"
  shows "stats_items (stats_push s a) = fifo_push (as_capacity a) s (stats_items a)"
proof (cases "length (as_samples a) < as_capacity a")
  case True
  then show ?thesis
    using assms by (auto simp: stats_items_def stats_push_def fifo_push_def Let_def stats_ok_def)
next
  case False
  let ?b = "as_samples a" and ?n = "as_capacity a"
  define i where "i = as_pos a mod ?n"
  have n: "length ?b = ?n" "0 < ?n" using False assms by (auto simp: stats_ok_def)
  then have i: "i < length ?b" by (simp add: i_def)
  have old: "stats_items a = ?b ! i # drop (Suc i) ?b @ take i ?b"
    using False i by (simp add: stats_items_def Let_def i_def [symmetric] Cons_nth_drop_Suc)
  have "stats_items (stats_push s a) = drop (Suc i) ?b @ take i ?b @ [s]"
  proof (cases "Suc i = ?n")
    case True
    then show ?thesis
      using n i False by (simp add: stats_items_def stats_push_def Let_def i_def [symmetric] upd_conv_take_nth_drop)
  next
    case ne: False
    then have "Suc i mod ?n = Suc i" using i n by simp
    then show ?thesis
      using n i False ne by (simp add: stats_items_def stats_push_def Let_def i_def [symmetric] take_Suc_conv_app_nth)
  qed
  then show ?thesis using old n i by (simp add: fifo_push_def min_def)
qed

interpretation st: rolling_window as_capacity stats_items stats_push stats_reset stats_ok
proof unfold_locales
  show "stats_items (stats_push v w) = fifo_push (as_capacity w) v (stats_items w)" if "stats_ok w" for v w
    using that by (rule stats_push_items)
qed (auto simp: stats_push_ok, auto simp: stats_ok_def stats_reset_def stats_push_def stats_items_def Let_def)

section \<open>Lemmas\<close>

subsection \<open>Aggregates\<close>

text \<open>Failures and the largest measured latency of a window, and the exact error rate.\<close>

definition failures_in :: "sample list \<Rightarrow> nat" where
  "failures_in w = length (filter (\<lambda>s. sm_tag s = 1) w)"

definition measured :: "sample list \<Rightarrow> u32 set" where
  "measured w = {ms \<in> sm_latency_ms ` set w. ms \<noteq> - 1}"

definition worst_latency :: "sample list \<Rightarrow> u32" where
  "worst_latency w = (if measured w = {} then 0 else Max (measured w))"

lemma failures_le: "failures_in w \<le> length w"
  by (simp add: failures_in_def)

lemma error_rate_exact:
  assumes "stats_ok a"
  shows "unat (error_rate_bps a) =
    (if stats_items a = [] then 0 else failures_in (stats_items a) * 10000 div length (stats_items a))"
proof (cases "as_samples a = []")
  case True
  then show ?thesis using length_stats_items [of a] by (simp add: error_rate_bps_def)
next
  case False
  let ?f = "failures_in (stats_items a)" and ?n = "length (stats_items a)"
  have ne: "stats_items a \<noteq> []" using False length_stats_items [of a] by auto
  have "?f * 10000 \<le> ?n * 10000" using failures_le by simp
  then have "?f * 10000 div ?n \<le> ?n * 10000 div ?n" by (rule div_le_mono)
  also have "\<dots> = 10000" using ne by simp
  finally have b: "?f * 10000 div ?n \<le> 10000" .
  have "error_rate_bps a = of_nat (?f * 10000 div ?n)"
    using False mset_stats_items [OF assms] by (simp add: error_rate_bps_def failures_in_def length_stats_items Let_def)
  moreover have "unat (of_nat (?f * 10000 div ?n) :: u32) = ?f * 10000 div ?n"
    using b by (simp only: unat_of_nat) (rule mod_less, simp)
  ultimately show ?thesis using ne by simp
qed

text \<open>In a window of fewer than 75 measurements the nearest rank of the 99th percentile is the
  last one: rounding in \<open>n as f64 * 0.99\<close> cannot move the ceiling.\<close>

lemma F099_value: "F099 = Fin (4458563631096791 / 4503599627370496)"
proof -
  have "\<lceil>100 / 99 :: rat\<rceil> = 2" by (simp add: ceiling_eq_iff)
  then have "ilog2 (99 / 100) = - 1" by (simp add: ilog2_def clog2_def nlog2.simps)
  then have u: "ulp_exp F64 (99 / 100) = - 53" by (simp add: ulp_exp_def)
  have q: "99 / 100 / pow2 (- 53) = 222928181554839552 / 25" by (simp add: power_int_def field_simps)
  have "\<lfloor>222928181554839552 / 25 :: rat\<rfloor> = 8917127262193582" by (simp add: floor_eq_iff)
  then have r: "rne (222928181554839552 / 25) = 8917127262193582" by (simp add: rne_def)
  have "rnd_rat F64 (99 / 100) = 4458563631096791 / 4503599627370496"
    by (simp add: rnd_rat_def u q r power_int_def field_simps)
  then show ?thesis by (simp add: F099_def rnd_def Let_def)
qed

lemma rnd_quarter:
  assumes "1 \<le> n" "n \<le> 64"
  shows "rnd F64 (of_nat n - 3 / 4) = Fin (of_nat n - 3 / 4)"
proof -
  have n: "(1 :: rat) \<le> of_nat n" "of_nat n \<le> (64 :: rat)" using assms by simp_all
  have "of_nat n - 3 / 4 = of_int (4 * int n - 3) * pow2 (- 2)" by (simp add: power_int_def field_simps)
  moreover have "emin F64 \<le> - 2" by simp
  moreover have "\<bar>of_int (4 * int n - 3)\<bar> \<le> pow2 (prec F64)" using n by simp
  ultimately have "rnd_rat F64 (of_nat n - 3 / 4) = of_nat n - 3 / 4" by (rule rnd_rat_exact)
  moreover have "64 < ftop F64" by simp
  then have "of_nat n - 3 / 4 \<le> ftop F64" "- ftop F64 \<le> of_nat n - 3 / 4" using n by linarith+
  ultimately show ?thesis unfolding rnd_def Let_def by (simp del: ftop.simps)
qed

lemma p99_product:
  assumes "1 \<le> n" "n \<le> 64"
  shows "\<exists>x. fmul F64 (flt_of_int F64 (int n)) F099 = Fin x \<and> of_nat n - 1 < x \<and> x \<le> of_nat n"
proof -
  let ?q = "of_int (int n) * (4458563631096791 / 4503599627370496) :: rat"
  have n: "(1 :: rat) \<le> of_nat n" "of_nat n \<le> (64 :: rat)" using assms by simp_all
  have e: "flt_of_int F64 (int n) = Fin (of_int (int n))" using assms by (intro flt_of_int_exact) simp_all
  have up: "?q \<le> of_int (int n)" by simp
  have lo: "of_nat n - 3 / 4 \<le> ?q" using n by simp
  have hi: "rnd F64 (of_int (int n)) = Fin (of_int (int n))" using assms by (intro rnd_F64_int) simp
  have "flt_le (Fin (of_nat n - 3 / 4)) (rnd F64 ?q)"
    using rnd_mono [OF lo, of F64] by (simp only: rnd_quarter [OF assms])
  moreover have "flt_le (rnd F64 ?q) (Fin (of_int (int n)))" using rnd_mono [OF up, of F64] by (simp only: hi)
  ultimately obtain x where "rnd F64 ?q = Fin x" "of_nat n - 3 / 4 \<le> x" "x \<le> of_int (int n)"
    by (cases "rnd F64 ?q") auto
  then show ?thesis by (auto simp: e F099_value)
qed

lemma p99_index_last: "1 \<le> n \<Longrightarrow> n \<le> 64 \<Longrightarrow> p99_index n = n - 1"
proof -
  assume n: "1 \<le> n" "n \<le> 64"
  obtain x where x: "fmul F64 (flt_of_int F64 (int n)) F099 = Fin x" "of_nat n - 1 < x" "x \<le> of_nat n"
    using p99_product [OF n] by blast
  have "\<lceil>x\<rceil> = int n" using x by (intro ceiling_unique) simp_all
  moreover have "trunc_rat (of_nat n) = int n" using trunc_rat_of_int [of "int n"] by simp
  ultimately show ?thesis using n by (simp add: p99_index_def x flt_ceil_def flt_to_nat_def)
qed

lemma sort_last_Max: "xs \<noteq> [] \<Longrightarrow> sort xs ! (length xs - 1) = Max (set xs)" for xs :: "'a::linorder list"
proof (rule Max_eqI [symmetric])
  assume ne: "xs \<noteq> []"
  show "sort xs ! (length xs - 1) \<in> set xs"
    using ne nth_mem [of "length xs - 1" "sort xs"] by (simp only: length_sort set_sort) simp
  fix y assume "y \<in> set xs"
  then obtain i where "i < length xs" "y = sort xs ! i"
    by (metis in_set_conv_nth length_sort set_sort)
  then show "y \<le> sort xs ! (length xs - 1)" by (simp add: sorted_nth_mono)
qed simp

lemma p99_is_worst:
  assumes "stats_ok a" "as_capacity a \<le> 64"
  shows "p99_latency_ms a = worst_latency (stats_items a)"
proof -
  let ?l = "filter (\<lambda>ms. ms \<noteq> - 1) (map sm_latency_ms (as_samples a))"
  have s: "set ?l = measured (stats_items a)"
    using set_stats_items [OF assms(1)] by (auto simp: measured_def)
  have "length ?l \<le> length (as_samples a)"
    by (metis length_filter_le length_map)
  also have "\<dots> \<le> 64" using assms by (simp add: stats_ok_def)
  finally have len: "length ?l \<le> 64" .
  show ?thesis
  proof (cases "?l = []")
    case True
    then show ?thesis using s by (auto simp: p99_latency_ms_def worst_latency_def Let_def)
  next
    case False
    then have "1 \<le> length ?l" by (cases ?l) auto
    then have "sort ?l ! p99_index (length ?l) = Max (set ?l)"
      using p99_index_last [of "length ?l"] len sort_last_Max [OF False] by simp
    moreover have "as_samples a \<noteq> []" using False by auto
    moreover have "measured (stats_items a) \<noteq> {}" using False s by (metis set_empty)
    ultimately show ?thesis using False s by (simp add: p99_latency_ms_def worst_latency_def Let_def)
  qed
qed

subsection \<open>The router\<close>

definition router_ok :: "broker_router \<Rightarrow> bool" where
  "router_ok r \<longleftrightarrow> (\<forall>slot. stats_ok (slot_stats r slot) \<and> as_capacity (slot_stats r slot) = WINDOW_SIZE)"

lemma slot_stats_set [simp]:
  "slot_stats (set_slot_stats slot a r) slot' = (if slot' = slot then a else slot_stats r slot')"
  "br_active (set_slot_stats slot a r) = br_active r"
  "br_thresholds (set_slot_stats slot a r) = br_thresholds r"
  "slot_stats (swap_to t r) slot' = slot_stats r slot'"
  "br_thresholds (swap_to t r) = br_thresholds r"
  "br_active (swap_to t r) = t"
  by (cases slot; cases slot'; simp add: slot_stats_def set_slot_stats_def swap_to_def)+

lemma slot_id_frame [simp]:
  "slot_id (set_slot_stats slot a r) slot' = slot_id r slot'"
  "slot_id (swap_to t r) slot' = slot_id r slot'"
  by (cases slot; cases slot'; simp add: slot_id_def set_slot_stats_def swap_to_def)+

lemma slot_other_neq [simp]: "slot_other s \<noteq> s"
  by (cases s) simp_all

lemma stats_reset_ok: "stats_ok a \<Longrightarrow> stats_ok (stats_reset a)" "as_capacity (stats_reset a) = as_capacity a"
  "stats_ok a \<Longrightarrow> stats_items (stats_reset a) = []"
  using st.ok_clear st.cap_clear st.items_clear by blast+

lemma router_ok_new: "router_ok (router_new p b th)"
  by (auto simp: router_ok_def router_new_def slot_stats_def stats_with_capacity_def stats_ok_def WINDOW_SIZE_def
      split: active_slot.splits)

lemma router_ok_record: "router_ok r \<Longrightarrow> router_ok (fst (record_outcome oc lat ts r))"
  using st.ok_push st.cap_push stats_reset_ok
  by (auto simp: router_ok_def record_outcome_def Let_def stats_record_def)

lemma router_ok_swap: "router_ok r \<Longrightarrow> router_ok (swap_to t r)"
  by (simp add: router_ok_def)

text \<open>The decision over the window after the new outcome.\<close>

definition window_breach :: "failover_thresholds \<Rightarrow> sample list \<Rightarrow> bool" where
  "window_breach th w \<longleftrightarrow> unat (th_min_samples th) \<le> length w
     \<and> (unat (th_error_rate_bps th) \<le> (if w = [] then 0 else failures_in w * 10000 div length w)
        \<or> th_p99_latency_ms th \<le> worst_latency w)"

lemma record_outcome_decides:
  assumes "router_ok r" and "w = fifo_push WINDOW_SIZE (outcome_sample oc lat) (stats_items (slot_stats r (br_active r)))"
  shows "snd (record_outcome oc lat ts r) \<noteq> None \<longleftrightarrow> window_breach (br_thresholds r) w"
    and "br_active (fst (record_outcome oc lat ts r)) =
      (if window_breach (br_thresholds r) w then slot_other (br_active r) else br_active r)"
proof -
  let ?a = "stats_record oc lat (slot_stats r (br_active r))"
  have ok: "stats_ok ?a" "as_capacity ?a = 64" and w: "stats_items ?a = w"
    using assms st.ok_push st.cap_push st.items_push by (auto simp: router_ok_def stats_record_def WINDOW_SIZE_def)
  have len: "stats_window_len ?a = length w" "length w \<le> 64"
    using ok w length_stats_items [of ?a] by (auto simp: stats_window_len_def stats_ok_def)
  have "unat (of_nat (length w) :: u32) = length w" using len(2) by (simp only: unat_of_nat) (rule mod_less, simp)
  then have small: "(of_nat (stats_window_len ?a) < th_min_samples (br_thresholds r)) \<longleftrightarrow> length w < unat (th_min_samples (br_thresholds r))"
    by (simp add: len(1) word_less_nat_alt)
  have breach: "window_breach (br_thresholds r) w \<longleftrightarrow>
      \<not> of_nat (stats_window_len ?a) < th_min_samples (br_thresholds r)
      \<and> (error_rate_bps ?a \<ge> th_error_rate_bps (br_thresholds r) \<or> p99_latency_ms ?a \<ge> th_p99_latency_ms (br_thresholds r))"
    using error_rate_exact [OF ok(1)] p99_is_worst [OF ok(1)] ok(2)
    by (simp add: window_breach_def small word_le_nat_alt w not_less)
  show "snd (record_outcome oc lat ts r) \<noteq> None \<longleftrightarrow> window_breach (br_thresholds r) w"
    and "br_active (fst (record_outcome oc lat ts r)) =
      (if window_breach (br_thresholds r) w then slot_other (br_active r) else br_active r)"
    unfolding breach by (auto simp: record_outcome_def Let_def)
qed

lemma record_outcome_event:
  "snd (record_outcome oc lat ts r) = Some ev \<Longrightarrow>
     fe_from ev = active_id r \<and> fe_to ev = active_id (fst (record_outcome oc lat ts r)) \<and> fe_ts_ns ev = ts
     \<and> slot_stats (fst (record_outcome oc lat ts r)) (slot_other (br_active r))
         = stats_reset (slot_stats r (slot_other (br_active r)))"
  by (auto simp: record_outcome_def Let_def active_id_def split: if_splits)

section \<open>Properties\<close>

text \<open>C18: Failover. In every well-formed router, recording an outcome triggers a failover exactly if
  the window of the last 64 outcomes of the active adapter, the new one included, holds at
  least \<open>min_samples\<close> entries and its failure rate in basis points or its worst measured
  latency reaches the threshold. Then the active slot flips, the event names the adapters left
  and entered, and the entered adapter starts with an empty window; otherwise the slot stays.\<close>

theorem failover_exact:
  assumes "router_ok r"
    and "w = fifo_push WINDOW_SIZE (outcome_sample oc lat) (stats_items (slot_stats r (br_active r)))"
    and "(r', ev) = record_outcome oc lat ts r"
  shows "router_ok r' \<and> (ev \<noteq> None \<longleftrightarrow> window_breach (br_thresholds r) w)
    \<and> br_active r' = (if window_breach (br_thresholds r) w then slot_other (br_active r) else br_active r)
    \<and> (case ev of None \<Rightarrow> True | Some e \<Rightarrow> fe_from e = active_id r \<and> fe_to e = active_id r'
          \<and> stats_items (slot_stats r' (br_active r')) = [])"
proof -
  have r': "r' = fst (record_outcome oc lat ts r)" and ev: "ev = snd (record_outcome oc lat ts r)"
    using assms(3) by (metis fst_conv, metis snd_conv)
  note dec = record_outcome_decides [OF assms(1,2), where ts = ts]
  have "fe_from e = active_id r \<and> fe_to e = active_id r' \<and> stats_items (slot_stats r' (br_active r')) = []"
    if "ev = Some e" for e
  proof -
    have "br_active r' = slot_other (br_active r)" using dec that by (simp add: r' ev)
    then show ?thesis
      using record_outcome_event [of oc lat ts r e] that assms(1)
      by (simp add: r' ev router_ok_def stats_reset_ok)
  qed
  then show ?thesis
    using router_ok_record [OF assms(1)] dec by (auto simp: r' ev split: option.splits)
qed

theorem failover_exact_witness:
  "snd (record_outcome Failure 5 9 (router_new Zerodha Dhan
     \<lparr>th_error_rate_bps = 5000, th_p99_latency_ms = 400, th_min_samples = 1\<rparr>)) \<noteq> None"
  using failover_exact [OF router_ok_new refl, of _ _ Failure 5 9 Zerodha Dhan
      "\<lparr>th_error_rate_bps = 5000, th_p99_latency_ms = 400, th_min_samples = 1\<rparr>"]
  by (simp add: router_new_def slot_stats_def stats_with_capacity_def stats_items_def
      fifo_push_def WINDOW_SIZE_def outcome_sample_def window_breach_def failures_in_def prod_eq_iff)

text \<open>The window of the adapter that was left is kept, so a manual return to the primary
  (\<open>force_primary\<close>) meets the failures that caused the failover: the next outcome, even a
  success, fails over again.\<close>

lemma force_primary_flaps:
  assumes "r0 = router_new Zerodha Dhan \<lparr>th_error_rate_bps = 5000, th_p99_latency_ms = 400, th_min_samples = 1\<rparr>"
    and "r1 = fst (record_outcome Failure 5 1 r0)"
  shows "br_active r1 = Backup \<and> snd (record_outcome Success 5 2 (force_primary r1)) \<noteq> None"
proof -
  let ?th = "\<lparr>th_error_rate_bps = 5000, th_p99_latency_ms = 400, th_min_samples = 1\<rparr>"
  have ok: "router_ok r0" by (simp add: assms(1) router_ok_new)
  have w0: "stats_items (slot_stats r0 (br_active r0)) = []" "br_thresholds r0 = ?th" "br_active r0 = Primary"
    by (simp_all add: assms(1) router_new_def slot_stats_def stats_with_capacity_def stats_items_def)
  have b0: "window_breach ?th [outcome_sample Failure 5]"
    by (simp add: window_breach_def failures_in_def outcome_sample_def)
  have a1: "br_active r1 = Backup"
    using record_outcome_decides(2) [OF ok refl, of Failure 5 1] w0 b0
    by (simp add: assms(2) fifo_push_def WINDOW_SIZE_def)
  have ok1: "router_ok (force_primary r1)"
    unfolding force_primary_def assms(2) by (intro router_ok_swap router_ok_record ok)
  have "slot_stats r1 Primary = stats_record Failure 5 (slot_stats r0 Primary)" "br_thresholds r1 = ?th"
    using w0 by (auto simp: assms(2) record_outcome_def Let_def)
  then have "stats_items (slot_stats (force_primary r1) (br_active (force_primary r1))) = [outcome_sample Failure 5]"
    "br_thresholds (force_primary r1) = ?th"
    using w0 ok stats_push_items [of "slot_stats r0 Primary"]
    by (simp_all add: force_primary_def stats_record_def router_ok_def fifo_push_def WINDOW_SIZE_def)
  moreover have "window_breach ?th [outcome_sample Failure 5, outcome_sample Success 5]"
    by (simp add: window_breach_def failures_in_def outcome_sample_def numeral_2_eq_2 [symmetric])
  ultimately show ?thesis
    using a1 record_outcome_decides(1) [OF ok1 refl, of Success 5 2]
    by (simp add: fifo_push_def WINDOW_SIZE_def)
qed

end
