(* ===== verification/Sim_Broker.thy ===== *)
theory Sim_Broker
  imports Broker_Api Ordered_Map
begin

text \<open>
  The simulated broker (\<open>hedge-broker-simulated/src\<close>): the in-memory order book and its sweeps
  (\<open>orderbook.rs\<close>), the per-order record (\<open>lifecycle.rs\<close>) and the adapter operations
  (\<open>lib.rs\<close>). The locale \<open>broker_adapter\<close> states what the Execution_Engine may assume of the
  trait \<open>BrokerAdapter\<close>; the simulated broker is its instance.
\<close>

section \<open>Order book (orderbook.rs)\<close>

record book_level =
  bl_price_paise :: i64
  bl_qty :: u64

definition level_new :: "i64 \<Rightarrow> u64 \<Rightarrow> book_level" where
  "level_new price q = \<lparr>bl_price_paise = price, bl_qty = q\<rparr>"

record order_book =
  ob_bids :: "(i64, u64) btree"
  ob_asks :: "(i64, u64) btree"

definition book_new :: order_book where
  "book_new = \<lparr>ob_bids = [], ob_asks = []\<rparr>"

text \<open>\<open>entry(k).or_insert(0)\<close> followed by a saturating addition.\<close>

definition top_up :: "i64 \<Rightarrow> u64 \<Rightarrow> (i64, u64) btree \<Rightarrow> (i64, u64) btree" where
  "top_up k q m = bt_insert k (usat_add (case bt_get m k of Some v \<Rightarrow> v | None \<Rightarrow> 0) q) m"

text \<open>Bids are keyed by the negated price (negation wraps).\<close>

definition add_bid :: "i64 \<Rightarrow> u64 \<Rightarrow> order_book \<Rightarrow> order_book" where
  "add_bid price q b = (if q = 0 then b else b\<lparr>ob_bids := top_up (wrap_i64 (- price)) q (ob_bids b)\<rparr>)"

definition add_ask :: "i64 \<Rightarrow> u64 \<Rightarrow> order_book \<Rightarrow> order_book" where
  "add_ask price q b = (if q = 0 then b else b\<lparr>ob_asks := top_up price q (ob_asks b)\<rparr>)"

definition from_levels :: "book_level list \<Rightarrow> book_level list \<Rightarrow> order_book" where
  "from_levels bids asks =
     fold (\<lambda>l. add_ask (bl_price_paise l) (bl_qty l)) asks
       (fold (\<lambda>l. add_bid (bl_price_paise l) (bl_qty l)) bids book_new)"

definition best_bid :: "order_book \<Rightarrow> book_level option" where
  "best_bid b = (case ob_bids b of [] \<Rightarrow> None | (k, q) # _ \<Rightarrow> Some (level_new (wrap_i64 (- k)) q))"

definition best_ask :: "order_book \<Rightarrow> book_level option" where
  "best_ask b = (case ob_asks b of [] \<Rightarrow> None | (k, q) # _ \<Rightarrow> Some (level_new k q))"

definition total_bid_qty :: "order_book \<Rightarrow> u64" where
  "total_bid_qty b = fold (\<lambda>e acc. usat_add acc (snd e)) (ob_bids b) 0"

definition total_ask_qty :: "order_book \<Rightarrow> u64" where
  "total_ask_qty b = fold (\<lambda>e acc. usat_add acc (snd e)) (ob_asks b) 0"

text \<open>The loop shared by \<open>consume_asks\<close> and \<open>consume_bids\<close>: over the keys collected beforehand,
  with the price of a key and the test for a price beyond the limit.\<close>

fun consume_loop ::
  "(i64 \<Rightarrow> i64) \<Rightarrow> (i64 \<Rightarrow> bool) \<Rightarrow> i64 list \<Rightarrow> u64 \<Rightarrow> (i64, u64) btree \<Rightarrow> book_level list
     \<Rightarrow> (i64, u64) btree \<times> book_level list" where
  "consume_loop price_of beyond [] remaining m fills = (m, fills)"
| "consume_loop price_of beyond (k # ks) remaining m fills =
     (if remaining = 0 then (m, fills)
      else if beyond (price_of k) then (m, fills)
      else let avail = (case bt_get m k of Some v \<Rightarrow> v | None \<Rightarrow> 0)
           in if avail = 0 then consume_loop price_of beyond ks remaining m fills
              else let tk = min avail remaining;
                       new_avail = avail - tk
                   in consume_loop price_of beyond ks (remaining - tk)
                        (if new_avail = 0 then bt_remove k m else bt_insert k new_avail m)
                        (fills @ [level_new (price_of k) tk]))"

definition consume_asks :: "u64 \<Rightarrow> i64 option \<Rightarrow> order_book \<Rightarrow> order_book \<times> book_level list" where
  "consume_asks requested_qty limit_paise b =
     (let (m, fills) = consume_loop (\<lambda>k. k) (\<lambda>p. case limit_paise of Some l \<Rightarrow> p > l | None \<Rightarrow> False)
            (bt_keys (ob_asks b)) requested_qty (ob_asks b) []
      in (b\<lparr>ob_asks := m\<rparr>, fills))"

definition consume_bids :: "u64 \<Rightarrow> i64 option \<Rightarrow> order_book \<Rightarrow> order_book \<times> book_level list" where
  "consume_bids requested_qty limit_paise b =
     (let (m, fills) = consume_loop (\<lambda>k. wrap_i64 (- k)) (\<lambda>p. case limit_paise of Some l \<Rightarrow> p < l | None \<Rightarrow> False)
            (bt_keys (ob_bids b)) requested_qty (ob_bids b) []
      in (b\<lparr>ob_bids := m\<rparr>, fills))"

definition clear_book :: "order_book \<Rightarrow> order_book" where
  "clear_book b = b\<lparr>ob_bids := [], ob_asks := []\<rparr>"

text \<open>\<open>vwap_paise\<close>: the quantity sum is a saturating \<open>u128\<close>, the notional a saturating \<open>i128\<close>.\<close>

definition vwap_paise :: "book_level list \<Rightarrow> u64 \<times> i64" where
  "vwap_paise fills =
     (let (total_qty, total_notional) =
            fold (\<lambda>f (tq, tn). (usat_add tq (ucast (bl_qty f)) :: u128,
                               sat_i128 (tn + sat_i128 (bl_price_paise f * uint (bl_qty f))))) fills (0, 0)
      in if total_qty = 0 then (0, 0)
         else let vwap = total_notional sdiv wrap_i128 (uint total_qty);
                  vwap_clamped = sat_i64 vwap;
                  qty_clamped = (if total_qty > 18446744073709551615 then - 1 else ucast total_qty)
              in (qty_clamped, vwap_clamped))"

section \<open>Order records (lifecycle.rs)\<close>

record order_record =
  rc_broker_order_id :: string
  rc_correlation_id :: correlation_id
  rc_intent :: broker_intent
  rc_filled_qty :: u64
  rc_avg_fill_paise :: i64
  rc_state :: order_state
  rc_last_ts_ns :: u64
  rc_fills :: "book_level list"

definition rec_new :: "string \<Rightarrow> broker_intent \<Rightarrow> u64 \<Rightarrow> order_record" where
  "rec_new oid intent ts = \<lparr>rc_broker_order_id = oid, rc_correlation_id = bi_correlation_id intent,
     rc_intent = intent, rc_filled_qty = 0, rc_avg_fill_paise = 0, rc_state = New,
     rc_last_ts_ns = ts, rc_fills = []\<rparr>"

text \<open>The running totals over a batch of fills, saturating in \<open>i128\<close>.\<close>

definition fill_totals :: "book_level list \<Rightarrow> int \<times> int \<Rightarrow> int \<times> int" where
  "fill_totals fills acc = fold (\<lambda>f (q, n). (sat_i128 (q + uint (bl_qty f)),
     sat_i128 (n + sat_i128 (bl_price_paise f * uint (bl_qty f))))) fills acc"

definition apply_fills :: "book_level list \<Rightarrow> u64 \<Rightarrow> order_record \<Rightarrow> order_record" where
  "apply_fills fills ts r =
     (let r = r\<lparr>rc_last_ts_ns := ts\<rparr>
      in if fills = [] then (if rc_state r = New then r\<lparr>rc_state := Submitted\<rparr> else r)
         else let prior_qty = uint (rc_filled_qty r);
                  prior_notional = sat_i128 (rc_avg_fill_paise r * prior_qty);
                  (prior_qty, prior_notional) = fill_totals fills (prior_qty, prior_notional);
                  new_qty = (if prior_qty > 18446744073709551615 then - 1 else of_int prior_qty);
                  new_avg = (if new_qty = 0 then 0 else sat_i64 (prior_notional sdiv prior_qty))
              in r\<lparr>rc_fills := rc_fills r @ fills, rc_filled_qty := new_qty, rc_avg_fill_paise := new_avg,
                   rc_state := (if new_qty \<ge> bi_quantity (rc_intent r) then Filled
                                else if new_qty = 0 then Submitted else PartiallyFilled)\<rparr>)"

definition apply_modification :: "order_modification \<Rightarrow> u64 \<Rightarrow> order_record \<Rightarrow> order_record \<times> (broker_error + unit)" where
  "apply_modification m ts r =
     (if is_terminal (rc_state r) then
        (r, Inl (BrokerRejected (''cannot modify terminal order in state '' @ order_state_as_str (rc_state r))))
      else case om_new_quantity m of
        Some q \<Rightarrow>
          if q < rc_filled_qty r then
            (r, Inl (BrokerRejected (''new quantity '' @ show_nat (unat q) @ '' is below already-filled ''
                       @ show_nat (unat (rc_filled_qty r)))))
          else let r = r\<lparr>rc_intent := (rc_intent r)\<lparr>bi_quantity := q\<rparr>\<rparr>;
                   r = (case om_new_limit_paise m of Some l \<Rightarrow> r\<lparr>rc_intent := (rc_intent r)\<lparr>bi_limit_paise := l\<rparr>\<rparr> | None \<Rightarrow> r)
               in (r\<lparr>rc_last_ts_ns := ts\<rparr>, Inr ())
      | None \<Rightarrow>
          let r = (case om_new_limit_paise m of Some l \<Rightarrow> r\<lparr>rc_intent := (rc_intent r)\<lparr>bi_limit_paise := l\<rparr>\<rparr> | None \<Rightarrow> r)
          in (r\<lparr>rc_last_ts_ns := ts\<rparr>, Inr ()))"

definition apply_cancel :: "u64 \<Rightarrow> order_record \<Rightarrow> order_record \<times> (broker_error + unit)" where
  "apply_cancel ts r =
     (if is_terminal (rc_state r) then
        (r, Inl (BrokerRejected (''cannot cancel terminal order in state '' @ order_state_as_str (rc_state r))))
      else (r\<lparr>rc_state := Cancelled, rc_last_ts_ns := ts\<rparr>, Inr ()))"

definition to_status :: "order_record \<Rightarrow> order_status" where
  "to_status r = \<lparr>os_broker_order_id = rc_broker_order_id r, os_state = rc_state r,
     os_filled_qty = rc_filled_qty r, os_avg_fill_paise = rc_avg_fill_paise r,
     os_broker_ts_ns = Some (rc_last_ts_ns r)\<rparr>"

section \<open>The adapter (lib.rs)\<close>

record sim_config =
  artificial_latency_ns :: u64
  ready_at_construction :: bool

definition default_sim_config :: sim_config where
  "default_sim_config = \<lparr>artificial_latency_ns = 0, ready_at_construction = True\<rparr>"

text \<open>The state behind the mutex, with the metrics handed to the publisher in order.\<close>

record sim_broker =
  sb_books :: "u32 \<rightharpoonup> order_book"
  sb_orders :: "string \<rightharpoonup> order_record"
  sb_next_id :: u64
  sb_ready :: ready_state
  sb_cfg :: sim_config
  sb_published :: "broker_metric list"
  sb_metrics_emitted :: u64

definition sim_new :: "sim_config \<Rightarrow> sim_broker" where
  "sim_new cfg = \<lparr>sb_books = (\<lambda>_. None), sb_orders = (\<lambda>_. None), sb_next_id = 0,
     sb_ready = (if ready_at_construction cfg then ReadyOk else ConfigError ''ready_at_construction = false''),
     sb_cfg = cfg, sb_published = [], sb_metrics_emitted = 0\<rparr>"

definition set_book :: "u32 \<Rightarrow> order_book \<Rightarrow> sim_broker \<Rightarrow> sim_broker" where
  "set_book symbol_raw book b = b\<lparr>sb_books := (sb_books b)(symbol_raw \<mapsto> book)\<rparr>"

definition force_config_error :: "string \<Rightarrow> sim_broker \<Rightarrow> sim_broker" where
  "force_config_error reason b = b\<lparr>sb_ready := ConfigError reason\<rparr>"

definition force_disconnected :: "string \<Rightarrow> sim_broker \<Rightarrow> sim_broker" where
  "force_disconnected reason b = b\<lparr>sb_ready := Disconnected reason\<rparr>"

definition force_ready :: "sim_broker \<Rightarrow> sim_broker" where
  "force_ready b = b\<lparr>sb_ready := ReadyOk\<rparr>"

text \<open>The clock readings of one request: at its start and twice in \<open>record_metric\<close>.\<close>

record request_clock =
  rq_start :: u64
  rq_end :: u64
  rq_stamp :: u64

definition record_metric ::
  "broker_op \<Rightarrow> correlation_id \<Rightarrow> request_clock \<Rightarrow> bool \<Rightarrow> sim_broker \<Rightarrow> sim_broker" where
  "record_metric op cid ck err b =
     (let metric = \<lparr>bm_broker_id = Simulated, bm_correlation_id = cid, bm_op = op,
            bm_latency_ns = usat_add (usat_sub (rq_end ck) (rq_start ck)) (artificial_latency_ns (sb_cfg b)),
            bm_error = err, bm_http_status = None, bm_ts_ns = rq_stamp ck\<rparr>
      in b\<lparr>sb_published := sb_published b @ [metric], sb_metrics_emitted := sb_metrics_emitted b + 1\<rparr>)"

definition order_limit :: "broker_intent \<Rightarrow> i64 option" where
  "order_limit intent = (case bi_order_type intent of Market \<Rightarrow> None | Limit \<Rightarrow> Some (bi_limit_paise intent))"

definition consume_book :: "broker_intent \<Rightarrow> order_book \<Rightarrow> order_book \<times> book_level list" where
  "consume_book intent book =
     (case bi_side intent of Buy \<Rightarrow> consume_asks (bi_quantity intent) (order_limit intent) book
      | Sell \<Rightarrow> consume_bids (bi_quantity intent) (order_limit intent) book)"

definition do_submit :: "broker_intent \<Rightarrow> u64 \<Rightarrow> sim_broker \<Rightarrow> sim_broker \<times> (broker_error + submit_ack)" where
  "do_submit intent ts b =
     (if \<not> is_ready (sb_ready b) then (b, Inl (BrokerNotReady (ready_display (sb_ready b))))
      else let b = b\<lparr>sb_next_id := usat_add (sb_next_id b) 1\<rparr>;
               oid = ''SIM-'' @ show_nat (unat (sb_next_id b))
           in case sb_books b (bi_symbol_raw intent) of
                None \<Rightarrow> (b, Inl (BrokerRejected (''no orderbook seeded for symbol ''
                          @ show_nat (unat (bi_symbol_raw intent)))))
              | Some book \<Rightarrow>
                  let (book', fills) = consume_book intent book;
                      rc = apply_fills fills ts (rec_new oid intent ts);
                      b = b\<lparr>sb_books := (sb_books b)(bi_symbol_raw intent \<mapsto> book'),
                            sb_orders := (sb_orders b)(oid \<mapsto> rc)\<rparr>
                  in (b, Inr \<lparr>sa_broker_order_id = oid, sa_broker_ts_ns = Some ts\<rparr>))"

definition do_modify :: "order_modification \<Rightarrow> u64 \<Rightarrow> sim_broker \<Rightarrow> sim_broker \<times> (broker_error + unit)" where
  "do_modify m ts b =
     (if \<not> is_ready (sb_ready b) then (b, Inl (BrokerNotReady (ready_display (sb_ready b))))
      else case sb_orders b (om_broker_order_id m) of
             None \<Rightarrow> (b, Inl (BrokerUnknownOrderId (om_broker_order_id m)))
           | Some r \<Rightarrow> let (r', res) = apply_modification m ts r
                       in (b\<lparr>sb_orders := (sb_orders b)(om_broker_order_id m \<mapsto> r')\<rparr>, res))"

definition do_cancel :: "string \<Rightarrow> u64 \<Rightarrow> sim_broker \<Rightarrow> sim_broker \<times> (broker_error + unit)" where
  "do_cancel oid ts b =
     (if \<not> is_ready (sb_ready b) then (b, Inl (BrokerNotReady (ready_display (sb_ready b))))
      else case sb_orders b oid of
             None \<Rightarrow> (b, Inl (BrokerUnknownOrderId oid))
           | Some r \<Rightarrow> let (r', res) = apply_cancel ts r
                       in (b\<lparr>sb_orders := (sb_orders b)(oid \<mapsto> r')\<rparr>, res))"

definition do_status :: "string \<Rightarrow> sim_broker \<Rightarrow> broker_error + order_status" where
  "do_status oid b =
     (case sb_ready b of
        ConfigError _ \<Rightarrow> Inl (BrokerNotReady (ready_display (sb_ready b)))
      | _ \<Rightarrow> (case sb_orders b oid of Some r \<Rightarrow> Inr (to_status r) | None \<Rightarrow> Inl (BrokerUnknownOrderId oid)))"

definition order_cid :: "sim_broker \<Rightarrow> string \<Rightarrow> correlation_id" where
  "order_cid b oid = (case sb_orders b oid of Some r \<Rightarrow> rc_correlation_id r | None \<Rightarrow> CID_NIL)"

definition is_err :: "'e + 'a \<Rightarrow> bool" where
  "is_err r = (case r of Inl _ \<Rightarrow> True | Inr _ \<Rightarrow> False)"

definition sim_submit :: "request_clock \<Rightarrow> broker_intent \<Rightarrow> sim_broker \<Rightarrow> sim_broker \<times> (broker_error + submit_ack)" where
  "sim_submit ck intent b =
     (let (b', res) = do_submit intent (rq_start ck) b
      in (record_metric OpSubmit (bi_correlation_id intent) ck (is_err res) b', res))"

definition sim_modify :: "request_clock \<Rightarrow> order_modification \<Rightarrow> sim_broker \<Rightarrow> sim_broker \<times> (broker_error + unit)" where
  "sim_modify ck m b =
     (let (b', res) = do_modify m (rq_start ck) b
      in (record_metric OpModify (order_cid b' (om_broker_order_id m)) ck (is_err res) b', res))"

definition sim_cancel :: "request_clock \<Rightarrow> string \<Rightarrow> sim_broker \<Rightarrow> sim_broker \<times> (broker_error + unit)" where
  "sim_cancel ck oid b =
     (let (b', res) = do_cancel oid (rq_start ck) b
      in (record_metric OpCancel (order_cid b' oid) ck (is_err res) b', res))"

definition sim_status :: "request_clock \<Rightarrow> string \<Rightarrow> sim_broker \<Rightarrow> sim_broker \<times> (broker_error + order_status)" where
  "sim_status ck oid b =
     (let res = do_status oid b
      in (record_metric OpStatus (order_cid b oid) ck (is_err res) b, res))"

definition sim_check_ready :: "request_clock \<Rightarrow> sim_broker \<Rightarrow> sim_broker \<times> ready_state" where
  "sim_check_ready ck b =
     (let snapshot = sb_ready b
      in (record_metric OpReady CID_NIL ck (\<not> is_ready snapshot) b, snapshot))"

definition metric_subject :: string where
  "metric_subject = ''broker.metric.'' @ broker_id_token Simulated"

section \<open>Lemmas\<close>

subsection \<open>Sweeping the book\<close>

definition side_ok :: "(i64, u64) btree \<Rightarrow> bool" where
  "side_ok m \<longleftrightarrow> bt_ok m \<and> (\<forall>e \<in> set m. snd e \<noteq> 0)"

text \<open>The reference: walk the levels in order, taking what is available.\<close>

fun sweep :: "(i64 \<Rightarrow> i64) \<Rightarrow> (i64 \<Rightarrow> bool) \<Rightarrow> (i64, u64) btree \<Rightarrow> u64 \<Rightarrow> (i64, u64) btree \<times> book_level list" where
  "sweep price_of beyond [] remaining = ([], [])"
| "sweep price_of beyond ((k, q) # m) remaining =
     (if remaining = 0 \<or> beyond (price_of k) then ((k, q) # m, [])
      else if q \<le> remaining then
        (let (m', fs) = sweep price_of beyond m (remaining - q) in (m', level_new (price_of k) q # fs))
      else ((k, q - remaining) # m, [level_new (price_of k) remaining]))"

lemma bt_head:
  "bt_ok ((k, q) # m) \<Longrightarrow> bt_get ((k, q) # m) k = Some q"
  "bt_ok ((k, q) # m) \<Longrightarrow> bt_remove k ((k, q) # m) = m"
  "bt_insert k v ((k, q) # m) = (k, v) # m"
  by (auto simp: bt_get_def bt_remove_def bt_ok_Cons filter_id_conv)

lemma consume_loop_done [simp]: "consume_loop p b ks 0 m fills = (m, fills)"
  by (cases ks) simp_all

lemma consume_loop_sweep:
  "side_ok m \<Longrightarrow> consume_loop price_of beyond (bt_keys m) rem m fills =
     (fst (sweep price_of beyond m rem), fills @ snd (sweep price_of beyond m rem))"
proof (induction m arbitrary: rem fills)
  case Nil
  then show ?case by (simp add: bt_keys_def)
next
  case (Cons e m)
  obtain k q where e: "e = (k, q)" by (cases e)
  have ok: "bt_ok ((k, q) # m)" "side_ok m" "q \<noteq> 0"
    using Cons.prems by (auto simp: side_ok_def e bt_ok_Cons)
  show ?case
  proof (cases "rem = 0 \<or> beyond (price_of k)")
    case True
    then show ?thesis by (auto simp: e bt_keys_def)
  next
    case False
    show ?thesis
    proof (cases "q \<le> rem")
      case True
      then show ?thesis
        using False ok Cons.IH [OF ok(2), of "rem - q"]
        by (simp add: e bt_keys_def bt_head min_def case_prod_beta Let_def)
    next
      case ne: False
      then have "min q rem = rem" "q - rem \<noteq> 0" by (auto simp: min_def)
      then show ?thesis
        using False ok ne by (simp add: e bt_keys_def bt_head Let_def)
    qed
  qed
qed

text \<open>The quantity at a key, the quantity in front of it, and what an order of \<open>r\<close> takes there.\<close>

definition level_qty :: "(i64, u64) btree \<Rightarrow> i64 \<Rightarrow> nat" where
  "level_qty m k = (case bt_get m k of Some v \<Rightarrow> unat v | None \<Rightarrow> 0)"

definition depth_before :: "(i64, u64) btree \<Rightarrow> i64 \<Rightarrow> nat" where
  "depth_before m k = (\<Sum>e\<leftarrow>filter (\<lambda>e. fst e < k) m. unat (snd e))"

definition taken :: "(i64 \<Rightarrow> bool) \<Rightarrow> nat \<Rightarrow> (i64, u64) btree \<Rightarrow> i64 \<Rightarrow> nat" where
  "taken stop r m k = (if stop k then 0 else min (level_qty m k) (r - depth_before m k))"

lemma side_okD: "side_ok ((k, q) # m) \<Longrightarrow> side_ok m \<and> q \<noteq> 0 \<and> bt_ok ((k, q) # m) \<and> (\<forall>x \<in> set m. k < fst x)"
  by (auto simp: side_ok_def bt_ok_Cons)

lemma level_qty_Cons: "level_qty ((k, q) # m) j = (if j = k then unat q else level_qty m j)"
  by (simp add: level_qty_def bt_get_def)

lemma level_qty_notin: "j \<notin> fst ` set m \<Longrightarrow> level_qty m j = 0"
  by (simp add: level_qty_def bt_get_notin)

lemma depth_before_Cons:
  "depth_before ((k, q) # m) j = (if k < j then unat q else 0) + depth_before m j"
  by (simp add: depth_before_def)

lemma depth_before_low: "(\<And>x. x \<in> set m \<Longrightarrow> j \<le> fst x) \<Longrightarrow> depth_before m j = 0"
  by (induction m) (fastforce simp: depth_before_def)+

lemma taken_head:
  "side_ok ((k, q) # m) \<Longrightarrow> taken stop r ((k, q) # m) k = (if stop k then 0 else min (unat q) r)"
  using depth_before_low [of "(k, q) # m" k]
  by (force dest: side_okD simp: taken_def level_qty_Cons)

lemma taken_tail:
  assumes "side_ok ((k, q) # m)" and "j \<in> fst ` set m"
  shows "taken stop r ((k, q) # m) j = taken stop (r - unat q) m j"
proof -
  have "k < j" using assms by (auto dest: side_okD)
  then show ?thesis by (simp add: taken_def level_qty_Cons depth_before_Cons)
qed

lemma taken_notin: "j \<notin> fst ` set m \<Longrightarrow> taken stop r m j = 0"
  by (simp add: taken_def level_qty_notin)

lemma taken_le: "taken stop r m k \<le> r" "taken stop r m k \<le> level_qty m k"
  by (auto simp: taken_def)

lemma taken_zero [simp]: "taken stop 0 m k = 0"
  by (simp add: taken_def)

lemma sweep_keys: "fst ` set (fst (sweep price_of beyond m r)) \<subseteq> fst ` set m"
proof (induction m arbitrary: r)
  case (Cons e m)
  obtain k q where e: "e = (k, q)" by (cases e)
  from Cons [of "r - q"] show ?case
    by (auto simp: e case_prod_beta Let_def image_subset_iff)
qed simp

lemma sweep_side_ok: "side_ok m \<Longrightarrow> side_ok (fst (sweep price_of beyond m r))"
proof (induction m arbitrary: r)
  case (Cons e m)
  obtain k q where e: "e = (k, q)" by (cases e)
  from Cons show ?case
    by (auto simp: e side_ok_def bt_ok_Cons case_prod_beta Let_def)
qed simp

lemma sweep_conserves:
  "(\<Sum>e\<leftarrow>fst (sweep price_of beyond m r). unat (snd e)) + (\<Sum>f\<leftarrow>snd (sweep price_of beyond m r). unat (bl_qty f))
     = (\<Sum>e\<leftarrow>m. unat (snd e))"
proof (induction m arbitrary: r)
  case (Cons e m)
  obtain k q where e: "e = (k, q)" by (cases e)
  from Cons [of "r - q"] show ?case
    by (auto simp: e level_new_def case_prod_beta Let_def unat_sub not_le order_less_imp_le word_less_nat_alt)
qed simp

lemma sweep_filled:
  "(\<Sum>f\<leftarrow>snd (sweep price_of beyond m r). unat (bl_qty f))
     = min (unat r) (\<Sum>e\<leftarrow>takeWhile (\<lambda>e. \<not> beyond (price_of (fst e))) m. unat (snd e))"
proof (induction m arbitrary: r)
  case (Cons e m)
  obtain k q where e: "e = (k, q)" by (cases e)
  from Cons [of "r - q"] show ?case
    by (auto simp: e level_new_def case_prod_beta Let_def unat_sub word_le_nat_alt min_def)
qed simp

text \<open>The sweep computes \<open>taken\<close> level by level when the stop condition is upward closed.\<close>

definition up_closed :: "(i64 \<Rightarrow> bool) \<Rightarrow> i64 set \<Rightarrow> bool" where
  "up_closed stop K \<longleftrightarrow> (\<forall>a \<in> K. \<forall>b \<in> K. a \<le> b \<longrightarrow> stop a \<longrightarrow> stop b)"

lemma sweep_idle:
  assumes "side_ok ((k, q) # m)" "up_closed stop (fst ` set ((k, q) # m))" "r = 0 \<or> stop k"
  shows "taken stop r ((k, q) # m) j = 0"
proof (cases "j \<in> fst ` set ((k, q) # m)")
  case True
  moreover have "k \<le> j" using True side_okD [OF assms(1)] by force
  ultimately have "r = 0 \<or> stop j"
    using assms(2,3) unfolding up_closed_def by auto
  then show ?thesis by (auto simp: taken_def)
next
  case False
  then show ?thesis by (rule taken_notin)
qed

lemma sweep_spec:
  assumes "side_ok m" "up_closed (\<lambda>k. beyond (price_of k)) (fst ` set m)"
  shows "snd (sweep price_of beyond m r) =
           map (\<lambda>k. level_new (price_of k) (of_nat (taken (\<lambda>k. beyond (price_of k)) (unat r) m k)))
             (filter (\<lambda>k. 0 < taken (\<lambda>k. beyond (price_of k)) (unat r) m k) (bt_keys m))
       \<and> level_qty (fst (sweep price_of beyond m r)) j = level_qty m j - taken (\<lambda>k. beyond (price_of k)) (unat r) m j"
  using assms
proof (induction m arbitrary: r)
  case Nil
  then show ?case by (simp add: bt_keys_def level_qty_def)
next
  case (Cons e m)
  obtain k q where e: "e = (k, q)" by (cases e)
  let ?stop = "\<lambda>k. beyond (price_of k)"
  note ok = Cons.prems [unfolded e]
  note okD = side_okD [OF ok(1)]
  show ?case
  proof (cases "r = 0 \<or> ?stop k")
    case True
    then have "taken ?stop (unat r) ((k, q) # m) i = 0" for i
      using sweep_idle [OF ok, of "unat r" i] by (simp add: unat_eq_0)
    then show ?thesis using True by (simp add: e)
  next
    case False
    have head: "taken ?stop (unat r) ((k, q) # m) k = min (unat q) (unat r)"
      using taken_head [OF ok(1)] False by simp
    have notin: "k \<notin> fst ` set m" using okD by auto
    show ?thesis
    proof (cases "q \<le> r")
      case True
      have tail: "taken ?stop (unat r) ((k, q) # m) i = taken ?stop (unat (r - q)) m i" if "i \<noteq> k" for i
        using that True ok(1)
        by (cases "i \<in> fst ` set m") (simp_all add: taken_tail unat_sub taken_notin)
      have IH: "snd (sweep price_of beyond m (r - q)) =
           map (\<lambda>k. level_new (price_of k) (of_nat (taken ?stop (unat (r - q)) m k)))
             (filter (\<lambda>k. 0 < taken ?stop (unat (r - q)) m k) (bt_keys m))"
        "level_qty (fst (sweep price_of beyond m (r - q))) j = level_qty m j - taken ?stop (unat (r - q)) m j"
        using Cons.IH [of "r - q"] okD ok(2) by (auto simp: up_closed_def)
      have "min (unat q) (unat r) = unat q" "0 < unat q"
        using True okD by (simp_all add: word_le_nat_alt min_def unat_gt_0)
      moreover have "map (\<lambda>i. level_new (price_of i) (of_nat (taken ?stop (unat r) ((k, q) # m) i)))
             (filter (\<lambda>i. 0 < taken ?stop (unat r) ((k, q) # m) i) (bt_keys m)) =
          map (\<lambda>i. level_new (price_of i) (of_nat (taken ?stop (unat (r - q)) m i)))
             (filter (\<lambda>i. 0 < taken ?stop (unat (r - q)) m i) (bt_keys m))"
      proof -
        have "taken ?stop (unat r) ((k, q) # m) i = taken ?stop (unat (r - q)) m i" if "i \<in> set (bt_keys m)" for i
          using that notin by (intro tail) (auto simp: bt_keys_def)
        then show ?thesis by (simp cong: map_cong filter_cong)
      qed
      moreover have "level_qty (fst (sweep price_of beyond m (r - q))) k = 0"
        using notin sweep_keys [of price_of beyond m "r - q"] by (intro level_qty_notin) auto
      ultimately show ?thesis
        using False True head IH tail level_qty_notin [OF notin]
        by (simp add: e case_prod_beta Let_def bt_keys_def level_qty_Cons)
    next
      case ne: False
      then have lt: "unat r < unat q" by (simp add: word_le_nat_alt)
      have tail: "taken ?stop (unat r) ((k, q) # m) i = 0" if "i \<noteq> k" for i
        using that lt ok(1)
        by (cases "i \<in> fst ` set m") (simp_all add: taken_tail taken_notin)
      have "0 < unat r" using False by (simp add: unat_gt_0)
      moreover have "unat (q - r) = unat q - unat r" using lt by (simp add: unat_sub word_le_nat_alt)
      moreover have "filter (\<lambda>i. 0 < taken ?stop (unat r) ((k, q) # m) i) (bt_keys m) = []"
      proof -
        have "i \<noteq> k" if "i \<in> set (bt_keys m)" for i using that notin by (auto simp: bt_keys_def)
        then show ?thesis using tail by (simp add: filter_empty_conv)
      qed
      ultimately show ?thesis
        using False ne head lt tail by (simp add: e bt_keys_def level_qty_Cons)
    qed
  qed
qed

subsection \<open>Books and fills\<close>

definition wf_book :: "order_book \<Rightarrow> bool" where
  "wf_book b \<longleftrightarrow> side_ok (ob_bids b) \<and> side_ok (ob_asks b) \<and>
     (\<forall>k \<in> fst ` set (ob_bids b) \<union> fst ` set (ob_asks b). i64_min < k \<and> k \<le> i64_max)"

text \<open>What an order sees: the prices on the other side, best first, the quantity at a price, and
  whether its limit admits the price.\<close>

definition opp_prices :: "broker_intent \<Rightarrow> order_book \<Rightarrow> i64 list" where
  "opp_prices intent b =
     (case bi_side intent of Buy \<Rightarrow> bt_keys (ob_asks b) | Sell \<Rightarrow> map uminus (bt_keys (ob_bids b)))"

definition opp_qty :: "broker_intent \<Rightarrow> order_book \<Rightarrow> i64 \<Rightarrow> nat" where
  "opp_qty intent b p =
     (case bi_side intent of Buy \<Rightarrow> level_qty (ob_asks b) p | Sell \<Rightarrow> level_qty (ob_bids b) (- p))"

definition better_price :: "broker_intent \<Rightarrow> i64 \<Rightarrow> i64 \<Rightarrow> bool" where
  "better_price intent p p' \<longleftrightarrow> (case bi_side intent of Buy \<Rightarrow> p < p' | Sell \<Rightarrow> p > p')"

definition within_limit :: "broker_intent \<Rightarrow> i64 \<Rightarrow> bool" where
  "within_limit intent p \<longleftrightarrow> (case order_limit intent of None \<Rightarrow> True
     | Some l \<Rightarrow> (case bi_side intent of Buy \<Rightarrow> p \<le> l | Sell \<Rightarrow> p \<ge> l))"

text \<open>The specification: at a price, what the better prices leave of the request, up to the quantity
  there and never beyond the limit.\<close>

definition spec_fill :: "broker_intent \<Rightarrow> order_book \<Rightarrow> i64 \<Rightarrow> nat" where
  "spec_fill intent b p =
     (if within_limit intent p
      then min (opp_qty intent b p)
        (unat (bi_quantity intent)
           - (\<Sum>p'\<leftarrow>filter (\<lambda>p'. better_price intent p' p) (opp_prices intent b). opp_qty intent b p'))
      else 0)"

definition available :: "broker_intent \<Rightarrow> order_book \<Rightarrow> nat" where
  "available intent b = (\<Sum>p\<leftarrow>filter (within_limit intent) (opp_prices intent b). opp_qty intent b p)"

lemma level_qty_mem: "side_ok m \<Longrightarrow> e \<in> set m \<Longrightarrow> level_qty m (fst e) = unat (snd e)"
  by (cases e) (auto simp: level_qty_def side_ok_def bt_get_Some_iff [THEN iffD2])

lemma sum_list_cong: "(\<And>x. x \<in> set xs \<Longrightarrow> f x = g x) \<Longrightarrow> sum_list (map f xs) = sum_list (map g xs)"
  by (metis map_cong)

lemma level_sum:
  "side_ok m \<Longrightarrow> (\<Sum>k\<leftarrow>filter P (bt_keys m). level_qty m k) = (\<Sum>e\<leftarrow>filter (\<lambda>e. P (fst e)) m. unat (snd e))"
  by (simp add: bt_keys_def filter_map comp_def)
    (rule sum_list_cong, simp add: level_qty_mem)

lemma takeWhile_up_closed:
  "bt_ok m \<Longrightarrow> up_closed stop (fst ` set m) \<Longrightarrow>
     takeWhile (\<lambda>e. \<not> stop (fst e)) m = filter (\<lambda>e. \<not> stop (fst e)) m"
proof (induction m)
  case (Cons e m)
  have IH: "takeWhile (\<lambda>e. \<not> stop (fst e)) m = filter (\<lambda>e. \<not> stop (fst e)) m"
    by (rule Cons.IH) (use Cons.prems in \<open>auto simp: bt_ok_Cons up_closed_def\<close>)
  have "stop (fst x)" if "stop (fst e)" "x \<in> set m" for x
    using Cons.prems that unfolding bt_ok_Cons up_closed_def by (meson image_eqI less_imp_le list.set_intros)
  then show ?case using IH by (simp add: filter_empty_conv)
qed simp

definition beyond_of :: "broker_intent \<Rightarrow> i64 \<Rightarrow> bool" where
  "beyond_of intent p \<longleftrightarrow> (case order_limit intent of None \<Rightarrow> False
     | Some l \<Rightarrow> (case bi_side intent of Buy \<Rightarrow> p > l | Sell \<Rightarrow> p < l))"

lemma beyond_of_side:
  "bi_side intent = Buy \<Longrightarrow> beyond_of intent = (\<lambda>p. case order_limit intent of Some l \<Rightarrow> p > l | None \<Rightarrow> False)"
  "bi_side intent = Sell \<Longrightarrow> beyond_of intent = (\<lambda>p. case order_limit intent of Some l \<Rightarrow> p < l | None \<Rightarrow> False)"
  by (simp_all add: beyond_of_def fun_eq_iff split: option.splits)

lemma beyond_of: "beyond_of intent p \<longleftrightarrow> \<not> within_limit intent p"
  by (auto simp: beyond_of_def within_limit_def split: option.splits side.splits)

text \<open>Both sides of the book at once: the keys of the side an order consumes, and its sweep.\<close>

definition key_price :: "broker_intent \<Rightarrow> i64 \<Rightarrow> i64" where
  "key_price intent k = (case bi_side intent of Buy \<Rightarrow> k | Sell \<Rightarrow> wrap_i64 (- k))"

definition opp_side :: "broker_intent \<Rightarrow> order_book \<Rightarrow> (i64, u64) btree" where
  "opp_side intent b = (case bi_side intent of Buy \<Rightarrow> ob_asks b | Sell \<Rightarrow> ob_bids b)"

definition with_opp :: "broker_intent \<Rightarrow> order_book \<Rightarrow> (i64, u64) btree \<Rightarrow> order_book" where
  "with_opp intent b m = (case bi_side intent of Buy \<Rightarrow> b\<lparr>ob_asks := m\<rparr> | Sell \<Rightarrow> b\<lparr>ob_bids := m\<rparr>)"

lemma wf_opp: "wf_book b \<Longrightarrow> side_ok (opp_side intent b)"
  "wf_book b \<Longrightarrow> k \<in> set (bt_keys (opp_side intent b)) \<Longrightarrow> i64_min < k \<and> k \<le> i64_max"
  by (auto simp: wf_book_def opp_side_def bt_keys_def split: side.splits)

lemma consume_book_sweep:
  assumes "wf_book b"
  shows "consume_book intent b =
    (let (m, fills) = sweep (key_price intent) (beyond_of intent) (opp_side intent b) (bi_quantity intent)
     in (with_opp intent b m, fills))"
  using assms
  by (cases "bi_side intent")
    (simp_all add: consume_book_def consume_asks_def consume_bids_def consume_loop_sweep wf_book_def
       opp_side_def with_opp_def key_price_def [abs_def] beyond_of_side case_prod_beta Let_def)

lemma key_price_id:
  "wf_book b \<Longrightarrow> k \<in> set (bt_keys (opp_side intent b)) \<Longrightarrow>
     key_price intent k = (case bi_side intent of Buy \<Rightarrow> k | Sell \<Rightarrow> - k)"
  using wf_opp(2) [of b k intent]
  by (auto simp: key_price_def i64_defs split: side.splits intro!: wrap_i64_id)

lemma opp_prices_keys:
  "wf_book b \<Longrightarrow> opp_prices intent b = map (key_price intent) (bt_keys (opp_side intent b))"
  using key_price_id [of b _ intent]
  by (auto simp: opp_prices_def opp_side_def map_idI split: side.splits)

lemma opp_qty_key:
  "wf_book b \<Longrightarrow> k \<in> set (bt_keys (opp_side intent b)) \<Longrightarrow>
     opp_qty intent b (key_price intent k) = level_qty (opp_side intent b) k"
  using key_price_id [of b k intent] by (auto simp: opp_qty_def opp_side_def split: side.splits)

lemma better_price_key:
  "wf_book b \<Longrightarrow> k \<in> set (bt_keys (opp_side intent b)) \<Longrightarrow> k' \<in> set (bt_keys (opp_side intent b)) \<Longrightarrow>
     better_price intent (key_price intent k) (key_price intent k') \<longleftrightarrow> k < k'"
  using key_price_id [of b k intent] key_price_id [of b k' intent]
  by (auto simp: better_price_def split: side.splits)

lemma up_closed_beyond:
  "wf_book b \<Longrightarrow> up_closed (\<lambda>k. beyond_of intent (key_price intent k)) (fst ` set (opp_side intent b))"
  using key_price_id [of b _ intent]
  by (auto simp: up_closed_def beyond_of_def bt_keys_def split: option.splits side.splits)

lemma spec_fill_taken:
  assumes "wf_book b" "k \<in> set (bt_keys (opp_side intent b))"
  shows "spec_fill intent b (key_price intent k) =
    taken (\<lambda>k. beyond_of intent (key_price intent k)) (unat (bi_quantity intent)) (opp_side intent b) k"
proof -
  let ?m = "opp_side intent b"
  have "(\<Sum>p'\<leftarrow>filter (\<lambda>p'. better_price intent p' (key_price intent k)) (opp_prices intent b). opp_qty intent b p')
      = (\<Sum>k'\<leftarrow>filter (\<lambda>k'. k' < k) (bt_keys ?m). level_qty ?m k')"
    using assms better_price_key [OF assms(1) _ assms(2)]
    by (simp add: opp_prices_keys filter_map comp_def cong: filter_cong)
      (rule sum_list_cong, simp add: opp_qty_key)
  also have "\<dots> = depth_before ?m k"
    using wf_opp(1) [OF assms(1)] by (simp add: level_sum depth_before_def)
  finally show ?thesis
    using assms by (simp add: spec_fill_def taken_def beyond_of opp_qty_key)
qed

lemma available_depth:
  assumes "wf_book b"
  shows "available intent b = (\<Sum>e\<leftarrow>takeWhile (\<lambda>e. \<not> beyond_of intent (key_price intent (fst e))) (opp_side intent b). unat (snd e))"
proof -
  let ?m = "opp_side intent b"
  have "available intent b = (\<Sum>k\<leftarrow>filter (\<lambda>k. within_limit intent (key_price intent k)) (bt_keys ?m). level_qty ?m k)"
    using assms by (simp add: available_def opp_prices_keys filter_map comp_def)
      (rule sum_list_cong, simp add: opp_qty_key)
  also have "\<dots> = (\<Sum>e\<leftarrow>filter (\<lambda>e. within_limit intent (key_price intent (fst e))) ?m. unat (snd e))"
    using wf_opp(1) [OF assms] by (rule level_sum)
  finally show ?thesis
    using takeWhile_up_closed [OF _ up_closed_beyond [OF assms, of intent]] wf_opp(1) [OF assms, of intent]
    by (simp add: side_ok_def beyond_of)
qed

lemma with_opp_simps [simp]:
  "opp_side intent (with_opp intent b m) = m"
  "bi_side intent = Buy \<Longrightarrow> ob_bids (with_opp intent b m) = ob_bids b"
  "bi_side intent = Sell \<Longrightarrow> ob_asks (with_opp intent b m) = ob_asks b"
  by (simp_all add: with_opp_def opp_side_def split: side.splits)

lemma with_opp_wf:
  "wf_book b \<Longrightarrow> side_ok m \<Longrightarrow> fst ` set m \<subseteq> fst ` set (opp_side intent b) \<Longrightarrow> wf_book (with_opp intent b m)"
  unfolding wf_book_def with_opp_def opp_side_def
  by (cases "bi_side intent"; simp) (meson UnCI UnE in_mono, meson UnCI UnE in_mono)

lemma opp_qty_side:
  "opp_qty intent b p = level_qty (opp_side intent b) (case bi_side intent of Buy \<Rightarrow> p | Sell \<Rightarrow> - p)"
  by (simp add: opp_qty_def opp_side_def split: side.splits)

lemma consume_book_spec:
  assumes wf: "wf_book b" and run: "consume_book intent b = (b', fills)"
  shows consume_wf: "wf_book b'"
    and consume_fills: "fills = map (\<lambda>p. level_new p (of_nat (spec_fill intent b p)))
           (filter (\<lambda>p. 0 < spec_fill intent b p) (opp_prices intent b))"
    and consume_left: "opp_qty intent b' p = opp_qty intent b p - spec_fill intent b p"
    and consume_total: "(\<Sum>f\<leftarrow>fills. unat (bl_qty f)) = min (unat (bi_quantity intent)) (available intent b)"
    and consume_other: "(case bi_side intent of Buy \<Rightarrow> ob_bids b' = ob_bids b | Sell \<Rightarrow> ob_asks b' = ob_asks b)"
proof -
  let ?m = "opp_side intent b" and ?p = "key_price intent" and ?q = "bi_quantity intent"
  let ?stop = "\<lambda>k. beyond_of intent (key_price intent k)"
  let ?s = "sweep ?p (beyond_of intent) ?m ?q"
  have b': "b' = with_opp intent b (fst ?s)" and fs: "fills = snd ?s"
    using run by (simp_all add: consume_book_sweep [OF wf] case_prod_beta)
  note ok = wf_opp(1) [OF wf, of intent] and up = up_closed_beyond [OF wf, of intent]
  show "wf_book b'"
    using wf sweep_side_ok [OF ok] sweep_keys unfolding b' by (rule with_opp_wf)
  show "fills = map (\<lambda>p. level_new p (of_nat (spec_fill intent b p)))
           (filter (\<lambda>p. 0 < spec_fill intent b p) (opp_prices intent b))"
    using sweep_spec [where r = ?q and price_of = ?p and beyond = "beyond_of intent", OF ok up, THEN conjunct1]
    by (simp add: fs opp_prices_keys [OF wf] filter_map comp_def spec_fill_taken [OF wf] cong: map_cong filter_cong)
  show "(\<Sum>f\<leftarrow>fills. unat (bl_qty f)) = min (unat ?q) (available intent b)"
    by (simp add: fs sweep_filled available_depth [OF wf])
  show "(case bi_side intent of Buy \<Rightarrow> ob_bids b' = ob_bids b | Sell \<Rightarrow> ob_asks b' = ob_asks b)"
    by (simp add: b' split: side.splits)
  define k where "k = (case bi_side intent of Buy \<Rightarrow> p | Sell \<Rightarrow> - p)"
  have left: "opp_qty intent b' p = level_qty ?m k - taken ?stop (unat ?q) ?m k"
    using sweep_spec [where r = ?q and price_of = ?p and beyond = "beyond_of intent", OF ok up, THEN conjunct2] by (simp add: opp_qty_side b' k_def)
  show "opp_qty intent b' p = opp_qty intent b p - spec_fill intent b p"
  proof (cases "k \<in> set (bt_keys ?m)")
    case True
    then have "?p k = p" using key_price_id [OF wf True] by (simp add: k_def split: side.splits)
    then show ?thesis
      using left spec_fill_taken [OF wf True] opp_qty_key [OF wf True] by simp
  next
    case False
    then have "level_qty ?m k = 0" by (intro level_qty_notin) (simp add: bt_keys_def)
    then show ?thesis using left by (simp add: opp_qty_side k_def [symmetric])
  qed
qed

lemma opp_prices_sorted:
  assumes "wf_book b"
  shows "sorted_wrt (better_price intent) (opp_prices intent b)"
proof -
  have "sorted_wrt (<) (bt_keys (opp_side intent b))"
    using wf_opp(1) [OF assms] by (simp add: side_ok_def bt_ok_def bt_keys_def)
  then have "sorted_wrt (\<lambda>k k'. better_price intent (key_price intent k) (key_price intent k')) (bt_keys (opp_side intent b))"
    by (rule sorted_wrt_mono_rel [rotated]) (simp add: better_price_key [OF assms])
  then show ?thesis by (simp add: opp_prices_keys [OF assms] sorted_wrt_map)
qed

subsection \<open>Average prices\<close>

definition fills_qty :: "book_level list \<Rightarrow> int" where
  "fills_qty fs = (\<Sum>f\<leftarrow>fs. uint (bl_qty f))"

definition fills_notional :: "book_level list \<Rightarrow> int" where
  "fills_notional fs = (\<Sum>f\<leftarrow>fs. bl_price_paise f * uint (bl_qty f))"

lemma fills_sum_simps [simp]:
  "fills_qty [] = 0" "fills_notional [] = 0"
  "fills_qty (f # fs) = uint (bl_qty f) + fills_qty fs"
  "fills_notional (f # fs) = bl_price_paise f * uint (bl_qty f) + fills_notional fs"
  by (simp_all add: fills_qty_def fills_notional_def)

lemma fills_qty_nat: "fills_qty fs = int (\<Sum>f\<leftarrow>fs. unat (bl_qty f))"
  by (induction fs) simp_all

lemma fills_qty_nonneg [simp]: "0 \<le> fills_qty fs"
  by (simp add: fills_qty_nat)

definition fills_ok :: "book_level list \<Rightarrow> bool" where
  "fills_ok fs \<longleftrightarrow> (\<forall>f \<in> set fs. in_i64 (bl_price_paise f)) \<and> fills_qty fs \<le> 18446744073709551615"

text \<open>No saturation: a notional of at most $2^{64} - 1$ shares at \<open>i64\<close> prices fits an \<open>i128\<close>.\<close>

definition notional_ok :: "int \<Rightarrow> int \<Rightarrow> bool" where
  "notional_ok q n \<longleftrightarrow> 0 \<le> q \<and> i64_min * q \<le> n \<and> n \<le> i64_max * q"

lemma notional_ok_i128: "notional_ok q n \<Longrightarrow> q \<le> 18446744073709551615 \<Longrightarrow> in_i128 n"
  by (simp add: notional_ok_def i64_defs i128_defs)

lemma notional_ok_add: "notional_ok q n \<Longrightarrow> notional_ok q' n' \<Longrightarrow> notional_ok (q + q') (n + n')"
  by (simp add: notional_ok_def ring_distribs)

lemma notional_ok_mult: "in_i64 p \<Longrightarrow> 0 \<le> q \<Longrightarrow> notional_ok q (p * q)"
  by (simp add: notional_ok_def in_i64_def mult_right_mono)

lemma notional_ok_avg: "notional_ok q n \<Longrightarrow> 0 < q \<Longrightarrow> in_i64 (n sdiv q)"
  using sdiv_between [of q i64_min n i64_max] by (simp add: notional_ok_def in_i64_def)

lemma fill_totals_exact:
  "notional_ok q n \<Longrightarrow> (\<forall>f \<in> set fs. in_i64 (bl_price_paise f)) \<Longrightarrow> q + fills_qty fs \<le> 18446744073709551615 \<Longrightarrow>
     fill_totals fs (q, n) = (q + fills_qty fs, n + fills_notional fs) \<and>
     notional_ok (q + fills_qty fs) (n + fills_notional fs)"
proof (induction fs arbitrary: q n)
  case (Cons f fs)
  let ?q = "uint (bl_qty f)" and ?n = "bl_price_paise f * uint (bl_qty f)"
  have one: "notional_ok ?q ?n" using Cons.prems(2) by (intro notional_ok_mult) auto
  have two: "notional_ok (q + ?q) (n + ?n)" using Cons.prems(1) one by (rule notional_ok_add)
  have le: "?q \<le> 18446744073709551615" "q + ?q \<le> 18446744073709551615" "0 \<le> q + ?q"
    using Cons.prems(1,3) fills_qty_nonneg [of fs] uint_ge_0 [of "bl_qty f"]
    unfolding notional_ok_def fills_sum_simps by linarith+
  have "sat_i128 ?n = ?n" "sat_i128 (n + ?n) = n + ?n" "sat_i128 (q + ?q) = q + ?q"
    using notional_ok_i128 [OF one le(1)] notional_ok_i128 [OF two le(2)] le
    by (simp_all add: sat_i128_def i128_defs)
  then show ?case
    using Cons.IH [OF two] Cons.prems(2,3) by (simp add: fill_totals_def add.assoc)
qed (simp add: fill_totals_def)

lemma u64_bound: "unat (w :: u64) \<le> 18446744073709551615"
  using unsigned_less [of w, where ?'a = nat] by simp

lemma unat_ucast_u128: "unat (ucast (w :: u64) :: u128) = unat w"
  using u64_bound [of w] by (simp add: unsigned_ucast_eq take_bit_eq_mod)

lemma usat_add_of_int:
  fixes w :: u64
  assumes "0 \<le> q" "q + uint w \<le> 18446744073709551615"
  shows "usat_add (of_int q :: u128) (ucast w) = of_int (q + uint w)"
proof -
  have "q \<le> 18446744073709551615" using assms uint_ge_0 [of w] by linarith
  then have "unat (of_int q :: u128) = nat q"
    using assms(1) unfolding unat_eq_nat_uint uint_word_of_int by (simp add: mod_pos_pos_trivial)
  moreover have "unat (ucast w :: u128) = unat w" by (rule unat_ucast_u128)
  moreover have "nat q + unat w < 2 ^ LENGTH(128)"
  proof -
    have "int (nat q + unat w) \<le> int 18446744073709551615" using assms by simp
    then have "nat q + unat w \<le> 18446744073709551615" by (simp only: of_nat_le_iff)
    then show ?thesis by simp
  qed
  ultimately have "unat (of_int q :: u128) + unat (ucast w :: u128) < 2 ^ LENGTH(128)" by simp
  then have "usat_add (of_int q :: u128) (ucast w) = of_int q + ucast w"
    unfolding usat_add_def by (simp only: if_True)
  then show ?thesis by simp
qed

lemma vwap_fold:
  "notional_ok q n \<Longrightarrow> (\<forall>f \<in> set fs. in_i64 (bl_price_paise f)) \<Longrightarrow> q + fills_qty fs \<le> 18446744073709551615 \<Longrightarrow>
   fold (\<lambda>f (tq, tn). (usat_add tq (ucast (bl_qty f)) :: u128,
      sat_i128 (tn + sat_i128 (bl_price_paise f * uint (bl_qty f))))) fs (of_int q, n)
   = (of_int (q + fills_qty fs), n + fills_notional fs)"
proof (induction fs arbitrary: q n)
  case (Cons f fs)
  have short: "q + uint (bl_qty f) \<le> 18446744073709551615" "0 \<le> q"
    using Cons.prems(1,3) fills_qty_nonneg [of fs] unfolding notional_ok_def fills_sum_simps by linarith+
  have step: "fill_totals [f] (q, n) = (q + uint (bl_qty f), n + bl_price_paise f * uint (bl_qty f))"
    "notional_ok (q + uint (bl_qty f)) (n + bl_price_paise f * uint (bl_qty f))"
    using fill_totals_exact [OF Cons.prems(1), of "[f]"] Cons.prems(2) short by auto
  have "usat_add (of_int q :: u128) (ucast (bl_qty f)) = of_int (q + uint (bl_qty f))"
    using short by (intro usat_add_of_int)
  then show ?case
    using Cons.IH [OF step(2)] step(1) Cons.prems(2,3) by (simp add: fill_totals_def add.assoc)
qed simp

lemma vwap_paise_exact:
  assumes "fills_ok fs"
  shows "vwap_paise fs = (if fills_qty fs = 0 then (0, 0) else (of_int (fills_qty fs), fills_notional fs sdiv fills_qty fs))"
proof -
  define q where "q = fills_qty fs"
  have q: "0 \<le> q" "q \<le> 18446744073709551615" using assms by (simp_all add: q_def fills_ok_def)
  have zero: "notional_ok 0 0" by (simp add: notional_ok_def)
  have ex: "notional_ok q (fills_notional fs)"
    using fill_totals_exact [OF zero, of fs] assms by (simp add: fills_ok_def q_def)
  have u: "uint (of_int q :: u128) = q" using q by (simp add: uint_word_of_int mod_pos_pos_trivial)
  then have "(of_int q :: u128) = 0 \<longleftrightarrow> q = 0" by (metis of_int_0 uint_0_eq)
  moreover have "\<not> (of_int q :: u128) > 18446744073709551615"
    using q u by (simp add: word_less_def)
  moreover have "ucast (of_int q :: u128) = (of_int q :: u64)"
    by (metis u word_of_int_uint unsigned_ucast_eq ucast_eq of_int_uint)
  moreover have "wrap_i128 q = q" using q by (simp add: i128_defs)
  moreover have "q \<noteq> 0 \<Longrightarrow> sat_i64 (fills_notional fs sdiv q) = fills_notional fs sdiv q"
    using notional_ok_avg [OF ex] q by simp
  ultimately show ?thesis
    using vwap_fold [OF zero, of fs] assms u
    by (simp add: vwap_paise_def fills_ok_def q_def [symmetric] Let_def)
qed

lemma apply_fills_fresh:
  assumes "fills_ok fs" "fs \<noteq> []"
  shows "(rc_filled_qty (apply_fills fs ts (rec_new oid intent ts)),
          rc_avg_fill_paise (apply_fills fs ts (rec_new oid intent ts))) = vwap_paise fs"
proof -
  define q where "q = fills_qty fs"
  have q: "0 \<le> q" "q \<le> 18446744073709551615" using assms by (simp_all add: q_def fills_ok_def)
  have zero: "notional_ok 0 0" by (simp add: notional_ok_def)
  have ex: "fill_totals fs (0, 0) = (q, fills_notional fs)" "notional_ok q (fills_notional fs)"
    using fill_totals_exact [OF zero, of fs] assms by (simp_all add: fills_ok_def q_def)
  have u: "uint (of_int q :: u64) = q" using q by (simp add: uint_word_of_int mod_pos_pos_trivial)
  then have "(of_int q :: u64) = 0 \<longleftrightarrow> q = 0" by (metis of_int_0 uint_0_eq)
  moreover have "q \<noteq> 0 \<Longrightarrow> sat_i64 (fills_notional fs sdiv q) = fills_notional fs sdiv q"
    using notional_ok_avg [OF ex(2)] q by simp
  moreover have "sat_i128 0 = 0" by (simp add: i128_defs)
  ultimately show ?thesis
    using ex(1) q assms(2)
    by (simp add: vwap_paise_exact [OF assms(1)] apply_fills_def rec_new_def Let_def q_def [symmetric])
qed

lemma consume_fills_ok:
  assumes "wf_book b" "consume_book intent b = (b', fills)"
  shows "fills_ok fills" "fills_qty fills = int (min (unat (bi_quantity intent)) (available intent b))"
    "fills = [] \<longleftrightarrow> fills_qty fills = 0"
proof -
  note fs = consume_fills [OF assms]
  show q: "fills_qty fills = int (min (unat (bi_quantity intent)) (available intent b))"
    using consume_total [OF assms] by (simp only: fills_qty_nat)
  have "in_i64 (bl_price_paise f)" if "f \<in> set fills" for f
  proof -
    have "bl_price_paise f \<in> set (opp_prices intent b)" using that by (auto simp: fs level_new_def)
    then show ?thesis
      using wf_opp(2) [OF assms(1), of _ intent]
      by (auto simp: opp_prices_def opp_side_def i64_defs split: side.splits) force+
  qed
  moreover have "min (unat (bi_quantity intent)) (available intent b) \<le> 18446744073709551615"
    using u64_bound [of "bi_quantity intent"] by simp
  ultimately show "fills_ok fills"
    by (auto simp: fills_ok_def q)
  have "spec_fill intent b p < 18446744073709551616" for p
    using u64_bound [of "bi_quantity intent"] by (auto simp: spec_fill_def)
  then have bound: "0 < unat (of_nat (spec_fill intent b p) :: u64)" if "0 < spec_fill intent b p" for p
    using that by (simp add: unat_of_nat)
  have pos: "0 < unat (bl_qty f)" if "f \<in> set fills" for f
    using that bound by (auto simp: fs level_new_def)
  show "fills = [] \<longleftrightarrow> fills_qty fills = 0"
  proof (cases fills)
    case (Cons f fs)
    have "fills_qty fills = int (unat (bl_qty f)) + fills_qty fs" by (simp add: Cons)
    moreover have "0 < unat (bl_qty f)" using pos [of f] by (simp add: Cons)
    ultimately have "fills_qty fills \<noteq> 0" using fills_qty_nonneg [of fs] by linarith
    then show ?thesis by (simp add: Cons)
  qed simp
qed

text \<open>The record of a submitted order: filled up to what was available, at the volume-weighted price.\<close>

lemma submit_record:
  assumes "wf_book b" "consume_book intent b = (b', fills)"
    and filled: "filled = min (unat (bi_quantity intent)) (available intent b)"
    and rc: "rc = apply_fills fills ts (rec_new oid intent ts)"
  shows "unat (rc_filled_qty rc) = filled
     \<and> rc_avg_fill_paise rc = fills_notional fills sdiv int filled
     \<and> rc_state rc = (if filled = 0 then Submitted else if filled = unat (bi_quantity intent) then Filled else PartiallyFilled)
     \<and> rc_fills rc = fills"
proof -
  note ok = consume_fills_ok [OF assms(1,2)]
  have n: "int filled = fills_qty fills" using ok(2) filled by simp
  show ?thesis
  proof (cases "fills = []")
    case True
    then have "filled = 0" using n by simp
    then show ?thesis using True by (simp add: rc apply_fills_def rec_new_def Let_def)
  next
    case False
    then have pos: "fills_qty fills \<noteq> 0" "0 < filled" using ok(3) n by linarith+
    have eq: "rc_filled_qty rc = of_nat filled" "rc_avg_fill_paise rc = fills_notional fills sdiv int filled"
      using apply_fills_fresh [OF ok(1) False, of ts oid intent] pos
      by (simp_all add: rc vwap_paise_exact [OF ok(1)] n [symmetric])
    have le: "filled \<le> unat (bi_quantity intent)" by (simp add: filled)
    have u: "unat (of_nat filled :: u64) = filled"
      by (simp only: unat_of_nat) (rule mod_less, use u64_bound [of "bi_quantity intent"] le in simp)
    have "rc_state rc = (if rc_filled_qty rc \<ge> bi_quantity intent then Filled
        else if rc_filled_qty rc = 0 then Submitted else PartiallyFilled)" "rc_fills rc = fills"
      using False by (simp_all add: rc apply_fills_def rec_new_def Let_def case_prod_beta)
    moreover have "rc_filled_qty rc \<ge> bi_quantity intent \<longleftrightarrow> filled = unat (bi_quantity intent)"
      unfolding eq(1) word_le_nat_alt u using le by auto
    moreover have "rc_filled_qty rc \<noteq> 0" using u pos(2) unfolding eq(1) by (metis less_numeral_extra(3) unat_0)
    ultimately show ?thesis using u pos(2) eq by simp
  qed
qed

section \<open>The contract of an adapter\<close>

text \<open>A sequence of submissions, with the acknowledged order ids and their correlation ids.\<close>

fun submit_all ::
  "('c \<Rightarrow> broker_intent \<Rightarrow> 'b \<Rightarrow> 'b \<times> (broker_error + submit_ack)) \<Rightarrow> ('c \<times> broker_intent) list \<Rightarrow> 'b
     \<Rightarrow> 'b \<times> (string \<times> correlation_id) list" where
  "submit_all submit [] b = (b, [])"
| "submit_all submit ((c, i) # rs) b =
     (case submit c i b of
        (b', Inl _) \<Rightarrow> submit_all submit rs b'
      | (b', Inr a) \<Rightarrow> (let (b'', acks) = submit_all submit rs b'
                        in (b'', (sa_broker_order_id a, bi_correlation_id i) # acks)))"

locale broker_adapter =
  fixes submit :: "'c \<Rightarrow> broker_intent \<Rightarrow> 'b \<Rightarrow> 'b \<times> (broker_error + submit_ack)"
    and placed :: "'b \<Rightarrow> string \<Rightarrow> correlation_id option"
    and adapter_ready :: "'b \<Rightarrow> bool"
    and room :: "'b \<Rightarrow> nat"
    and inv :: "'b \<Rightarrow> bool"
  assumes inv_submit: "inv b \<Longrightarrow> submit c i b = (b', r) \<Longrightarrow> inv b'"
    and refuses: "\<not> adapter_ready b \<Longrightarrow> \<exists>s b'. submit c i b = (b', Inl (BrokerNotReady s)) \<and> placed b' = placed b"
    and failed_keeps: "submit c i b = (b', Inl e) \<Longrightarrow> placed b' = placed b"
    and ack_places: "submit c i b = (b', Inr a) \<Longrightarrow> placed b' = (placed b)(sa_broker_order_id a \<mapsto> bi_correlation_id i)"
    and ack_fresh: "inv b \<Longrightarrow> 0 < room b \<Longrightarrow> submit c i b = (b', Inr a) \<Longrightarrow> placed b (sa_broker_order_id a) = None"
    and room_submit: "submit c i b = (b', r) \<Longrightarrow> room b \<le> Suc (room b')"
begin

lemma submit_all_placed:
  "inv b \<Longrightarrow> length rs \<le> room b \<Longrightarrow> submit_all submit rs b = (b', acks) \<Longrightarrow>
     inv b' \<and> distinct (map fst acks) \<and> (\<forall>a \<in> set acks. placed b (fst a) = None) \<and> placed b' = placed b ++ map_of acks"
proof (induction rs arbitrary: b acks)
  case (Cons r rs)
  obtain c i where r: "r = (c, i)" by (cases r)
  obtain b1 res where s: "submit c i b = (b1, res)" by fastforce
  have inv1: "inv b1" using inv_submit [OF Cons.prems(1) s] .
  have room1: "length rs \<le> room b1" using room_submit [OF s] Cons.prems(2) by simp
  show ?case
  proof (cases res)
    case (Inl e)
    then show ?thesis
      using Cons.IH [OF inv1 room1, of acks] Cons.prems(3) s failed_keeps [of c i b b1 e] by (simp add: r)
  next
    case (Inr a)
    obtain acks' where rest: "submit_all submit rs b1 = (b', acks')"
      and acks: "acks = (sa_broker_order_id a, bi_correlation_id i) # acks'"
      using Cons.prems(3) s Inr by (auto simp: r split: prod.splits)
    note IH = Cons.IH [OF inv1 room1 rest]
    have new: "placed b (sa_broker_order_id a) = None"
      using ack_fresh [OF Cons.prems(1) _ s [unfolded Inr]] Cons.prems(2) by simp
    have b1: "placed b1 = (placed b)(sa_broker_order_id a \<mapsto> bi_correlation_id i)"
      using ack_places s Inr by blast
    have other: "fst x \<noteq> sa_broker_order_id a" if "x \<in> set acks'" for x
      using IH that b1 by (metis fun_upd_same option.distinct(1))
    then have "map_of acks' (sa_broker_order_id a) = None"
      by (force simp: map_of_eq_None_iff)
    then have "placed b' = placed b ++ map_of acks"
      using IH by (auto simp: acks b1 fun_eq_iff map_add_def split: option.splits)
    moreover have "\<forall>x \<in> set acks. placed b (fst x) = None"
      using IH b1 other new unfolding acks by (metis fst_conv fun_upd_other set_ConsD)
    moreover have "distinct (map fst acks)" using IH other by (force simp: acks)
    ultimately show ?thesis using IH by blast
  qed
qed simp

end

definition sim_id :: "nat \<Rightarrow> string" where
  "sim_id n = ''SIM-'' @ show_nat n"

lemma sim_id_inj: "sim_id m = sim_id n \<longleftrightarrow> m = n"
  by (simp add: sim_id_def)

definition sim_placed :: "sim_broker \<Rightarrow> string \<Rightarrow> correlation_id option" where
  "sim_placed b oid = map_option rc_correlation_id (sb_orders b oid)"

definition sim_room :: "sim_broker \<Rightarrow> nat" where
  "sim_room b = 18446744073709551615 - unat (sb_next_id b)"

definition sim_ids_ok :: "sim_broker \<Rightarrow> bool" where
  "sim_ids_ok b \<longleftrightarrow> dom (sb_orders b) \<subseteq> sim_id ` {..unat (sb_next_id b)}"

lemma record_metric_simps [simp]:
  "sb_orders (record_metric op cid ck err b) = sb_orders b"
  "sb_books (record_metric op cid ck err b) = sb_books b"
  "sb_next_id (record_metric op cid ck err b) = sb_next_id b"
  "sb_ready (record_metric op cid ck err b) = sb_ready b"
  by (simp_all add: record_metric_def Let_def)

lemma next_id_step: "unat (usat_add (sb_next_id b) 1) = min (unat (sb_next_id b) + 1) 18446744073709551615"
  by (simp add: unat_usat_add)

lemma do_submit_cases:
  assumes "do_submit intent ts b = (b', res)"
  obtains (refused) "\<not> is_ready (sb_ready b)" "b' = b" "res = Inl (BrokerNotReady (ready_display (sb_ready b)))"
  | (no_book) e where "sb_books b (bi_symbol_raw intent) = None" "res = Inl e"
      "b' = b\<lparr>sb_next_id := usat_add (sb_next_id b) 1\<rparr>"
  | (placed) book book' fills where "is_ready (sb_ready b)" "sb_books b (bi_symbol_raw intent) = Some book"
      "consume_book intent book = (book', fills)"
      "res = Inr \<lparr>sa_broker_order_id = sim_id (unat (usat_add (sb_next_id b) 1)), sa_broker_ts_ns = Some ts\<rparr>"
      "b' = b\<lparr>sb_next_id := usat_add (sb_next_id b) 1, sb_books := (sb_books b)(bi_symbol_raw intent \<mapsto> book'),
         sb_orders := (sb_orders b)(sim_id (unat (usat_add (sb_next_id b) 1)) \<mapsto>
           apply_fills fills ts (rec_new (sim_id (unat (usat_add (sb_next_id b) 1))) intent ts))\<rparr>"
proof (cases "is_ready (sb_ready b)")
  case False
  with assms show ?thesis by (intro refused) (auto simp: do_submit_def)
next
  case True
  show ?thesis
  proof (cases "sb_books b (bi_symbol_raw intent)")
    case None
    with True assms have "res = Inl (BrokerRejected (''no orderbook seeded for symbol '' @ show_nat (unat (bi_symbol_raw intent))))"
      "b' = b\<lparr>sb_next_id := usat_add (sb_next_id b) 1\<rparr>"
      by (simp_all add: do_submit_def Let_def)
    with None show ?thesis by (intro no_book)
  next
    case (Some book)
    obtain book' fills where "consume_book intent book = (book', fills)" by fastforce
    with True Some assms show ?thesis
      by (intro placed) (auto simp: do_submit_def Let_def sim_id_def)
  qed
qed

lemma apply_fills_cid [simp]: "rc_correlation_id (apply_fills fs ts r) = rc_correlation_id r"
  by (simp add: apply_fills_def Let_def case_prod_beta)

lemma rec_new_cid [simp]: "rc_correlation_id (rec_new oid intent ts) = bi_correlation_id intent"
  by (simp add: rec_new_def)

lemma sim_submitD:
  "sim_submit ck intent b = (b', res) \<Longrightarrow>
     \<exists>b0. do_submit intent (rq_start ck) b = (b0, res) \<and> b' = record_metric OpSubmit (bi_correlation_id intent) ck (is_err res) b0"
  by (auto simp: sim_submit_def split: prod.splits)

interpretation sim: broker_adapter sim_submit sim_placed "\<lambda>b. is_ready (sb_ready b)" sim_room sim_ids_ok
proof
  fix b b' :: sim_broker and c i r
  assume ok: "sim_ids_ok b" and s: "sim_submit c i b = (b', r)"
  obtain b0 where b0: "do_submit i (rq_start c) b = (b0, r)" "sb_orders b' = sb_orders b0" "sb_next_id b' = sb_next_id b0"
    using sim_submitD [OF s] by auto
  have up: "sim_id ` {..unat (sb_next_id b)} \<subseteq> sim_id ` {..unat (usat_add (sb_next_id b) 1)}"
    using u64_bound [of "sb_next_id b"] by (intro image_mono) (auto simp: next_id_step)
  show "sim_ids_ok b'"
    using b0(1) by (cases rule: do_submit_cases) (use ok up b0(2,3) in \<open>auto simp: sim_ids_ok_def\<close>)
next
  fix b :: sim_broker and c i
  assume "\<not> is_ready (sb_ready b)"
  then show "\<exists>s b'. sim_submit c i b = (b', Inl (BrokerNotReady s)) \<and> sim_placed b' = sim_placed b"
    by (simp add: sim_submit_def do_submit_def sim_placed_def fun_eq_iff)
next
  fix b b' :: sim_broker and c i e
  assume "sim_submit c i b = (b', Inl e)"
  then obtain b0 where b0: "do_submit i (rq_start c) b = (b0, Inl e)" "sb_orders b' = sb_orders b0"
    using sim_submitD by fastforce
  show "sim_placed b' = sim_placed b"
    using b0(1) by (cases rule: do_submit_cases) (use b0(2) in \<open>auto simp: sim_placed_def fun_eq_iff\<close>)
next
  fix b b' :: sim_broker and c i a
  assume "sim_submit c i b = (b', Inr a)"
  then obtain b0 where b0: "do_submit i (rq_start c) b = (b0, Inr a)" "sb_orders b' = sb_orders b0"
    using sim_submitD by fastforce
  show "sim_placed b' = (sim_placed b)(sa_broker_order_id a \<mapsto> bi_correlation_id i)"
    using b0(1) by (cases rule: do_submit_cases) (use b0(2) in \<open>auto simp: sim_placed_def fun_eq_iff\<close>)
next
  fix b b' :: sim_broker and c i a
  assume ok: "sim_ids_ok b" "0 < sim_room b" and s: "sim_submit c i b = (b', Inr a)"
  obtain b0 where b0: "do_submit i (rq_start c) b = (b0, Inr a)"
    using sim_submitD [OF s] by fastforce
  have "unat (usat_add (sb_next_id b) 1) = Suc (unat (sb_next_id b))"
    using ok(2) by (simp add: next_id_step sim_room_def)
  moreover have "sim_id (Suc (unat (sb_next_id b))) \<notin> sim_id ` {..unat (sb_next_id b)}"
    by (auto simp: sim_id_inj)
  ultimately have "sb_orders b (sim_id (unat (usat_add (sb_next_id b) 1))) = None"
    using ok(1) by (auto simp: sim_ids_ok_def)
  then show "sim_placed b (sa_broker_order_id a) = None"
    using b0 by (elim do_submit_cases) (simp_all add: sim_placed_def)
next
  fix b b' :: sim_broker and c i r
  assume s: "sim_submit c i b = (b', r)"
  then obtain b0 where b0: "do_submit i (rq_start c) b = (b0, r)" "sb_next_id b' = sb_next_id b0"
    using sim_submitD by fastforce
  show "sim_room b \<le> Suc (sim_room b')"
    using b0(1) by (cases rule: do_submit_cases) (use b0(2) in \<open>auto simp: sim_room_def next_id_step\<close>)
qed

section \<open>Properties\<close>

text \<open>C17: Matching is exact and by price priority. On a well-formed book an order takes, at each price
  of the opposite side from the best to the worst, what the better prices leave of its quantity, up
  to the quantity there, and nothing beyond its limit; the fills list exactly those amounts, the
  book loses exactly them, the other side is untouched, the book stays well-formed and the total
  filled is the smaller of the request and what the limit makes available.\<close>

theorem consume_book_exact:
  assumes "wf_book b" and "consume_book intent b = (b', fills)"
  shows "(sorted_wrt (better_price intent) (opp_prices intent b))
    \<and> (fills = map (\<lambda>p. level_new p (of_nat (spec_fill intent b p)))
           (filter (\<lambda>p. 0 < spec_fill intent b p) (opp_prices intent b)))
    \<and> (\<forall>p. opp_qty intent b' p = opp_qty intent b p - spec_fill intent b p)
    \<and> ((case bi_side intent of Buy \<Rightarrow> ob_bids b' = ob_bids b | Sell \<Rightarrow> ob_asks b' = ob_asks b))
    \<and> (wf_book b')
    \<and> ((\<Sum>f\<leftarrow>fills. unat (bl_qty f)) = min (unat (bi_quantity intent)) (available intent b))"
  using opp_prices_sorted [OF assms(1)] consume_fills [OF assms] consume_left [OF assms]
    consume_other [OF assms] consume_wf [OF assms] consume_total [OF assms]
  by blast

definition sample_book :: order_book where
  "sample_book = from_levels [level_new 10000 50, level_new 9990 70] [level_new 10010 40, level_new 10020 60, level_new 10050 500]"

definition sample_buy :: broker_intent where
  "sample_buy = \<lparr>bi_correlation_id = 7, bi_symbol_raw = 42, bi_side = Buy, bi_quantity = 90,
     bi_order_type = Limit, bi_limit_paise = 10030, bi_exchange = Nse\<rparr>"

lemma sample_book_eval:
  "sample_book = \<lparr>ob_bids = [(- 10000, 50), (- 9990, 70)], ob_asks = [(10010, 40), (10020, 60), (10050, 500)]\<rparr>"
  by (simp add: sample_book_def from_levels_def book_new_def add_bid_def add_ask_def top_up_def level_new_def
      bt_get_def usat_add_def i64_defs)

lemma sample_book_wf: "wf_book sample_book"
  by (simp add: sample_book_eval wf_book_def side_ok_def bt_ok_Cons i64_defs)

lemma sample_buy_run:
  "consume_book sample_buy sample_book = (sample_book\<lparr>ob_asks := [(10020, 10), (10050, 500)]\<rparr>,
     [level_new 10010 40, level_new 10020 50])"
  by (simp add: sample_book_eval consume_book_def consume_asks_def sample_buy_def order_limit_def bt_keys_def
      bt_get_def bt_remove_def Let_def min_def)

theorem consume_book_exact_witness:
  "sorted_wrt (better_price sample_buy) (opp_prices sample_buy sample_book) \<and>
   (\<Sum>f\<leftarrow>[level_new 10010 40, level_new 10020 50]. unat (bl_qty f)) = min (unat (bi_quantity sample_buy)) (available sample_buy sample_book)"
  using consume_book_exact [OF sample_book_wf sample_buy_run] by blast

lemma sim_submit_spec:
  assumes "sb_ready b = ReadyOk" and "sb_books b (bi_symbol_raw intent) = Some book" and "wf_book book"
    and "filled = min (unat (bi_quantity intent)) (available intent book)"
    and "consume_book intent book = (book', fills)"
    and "oid = ''SIM-'' @ show_nat (unat (usat_add (sb_next_id b) 1))"
    and "sim_submit ck intent b = (b', res)"
  shows "res = Inr \<lparr>sa_broker_order_id = oid, sa_broker_ts_ns = Some (rq_start ck)\<rparr>"
    "\<exists>rc. sb_orders b' = (sb_orders b)(oid \<mapsto> rc) \<and> rc_intent rc = intent \<and> rc_fills rc = fills
        \<and> unat (rc_filled_qty rc) = filled
        \<and> rc_avg_fill_paise rc = fills_notional fills sdiv int filled
        \<and> rc_state rc = (if filled = 0 then Submitted else if filled = unat (bi_quantity intent) then Filled
                         else PartiallyFilled)"
    "sb_books b' = (sb_books b)(bi_symbol_raw intent \<mapsto> book')" "wf_book book'"
    "\<exists>m. sb_published b' = sb_published b @ [m] \<and> bm_op m = OpSubmit \<and> \<not> bm_error m"
proof -
  let ?rc = "apply_fills fills (rq_start ck) (rec_new oid intent (rq_start ck))"
  obtain b0 where b0: "do_submit intent (rq_start ck) b = (b0, res)"
    "b' = record_metric OpSubmit (bi_correlation_id intent) ck (is_err res) b0"
    using sim_submitD [OF assms(7)] by blast
  have run: "res = Inr \<lparr>sa_broker_order_id = oid, sa_broker_ts_ns = Some (rq_start ck)\<rparr>"
    "b0 = b\<lparr>sb_next_id := usat_add (sb_next_id b) 1, sb_books := (sb_books b)(bi_symbol_raw intent \<mapsto> book'),
         sb_orders := (sb_orders b)(oid \<mapsto> ?rc)\<rparr>"
    using b0(1) assms(1,2,5,6) by (auto simp: do_submit_def Let_def)
  have "rc_intent ?rc = intent" by (simp add: apply_fills_def rec_new_def Let_def case_prod_beta)
  then show "\<exists>rc. sb_orders b' = (sb_orders b)(oid \<mapsto> rc) \<and> rc_intent rc = intent \<and> rc_fills rc = fills
        \<and> unat (rc_filled_qty rc) = filled
        \<and> rc_avg_fill_paise rc = fills_notional fills sdiv int filled
        \<and> rc_state rc = (if filled = 0 then Submitted else if filled = unat (bi_quantity intent) then Filled
                         else PartiallyFilled)"
    using submit_record [OF assms(3,5,4) refl, of "rq_start ck" oid]
    by (intro exI [of _ ?rc]) (simp add: b0(2) run(2))
  show "res = Inr \<lparr>sa_broker_order_id = oid, sa_broker_ts_ns = Some (rq_start ck)\<rparr>" by (rule run)
  show "sb_books b' = (sb_books b)(bi_symbol_raw intent \<mapsto> book')" by (simp add: b0(2) run(2))
  show "wf_book book'" using consume_wf [OF assms(3,5)] .
  show "\<exists>m. sb_published b' = sb_published b @ [m] \<and> bm_op m = OpSubmit \<and> \<not> bm_error m"
    by (simp add: b0(2) run record_metric_def Let_def is_err_def)
qed

text \<open>A submission to a ready simulated broker with a seeded well-formed book is acknowledged under
  the next id; the stored order is filled by the smaller of its quantity and what its limit makes
  available, its average price is the truncated quotient of the exact notional of the fills by the
  filled quantity (nothing saturates), its state is Submitted, PartiallyFilled or Filled
  accordingly, no other order or book changes, and exactly one metric is published, with no error.\<close>

theorem sim_submit_exact:
  assumes "sb_ready b = ReadyOk" and "sb_books b (bi_symbol_raw intent) = Some book" and "wf_book book"
    and "filled = min (unat (bi_quantity intent)) (available intent book)"
    and "consume_book intent book = (book', fills)"
    and "oid = ''SIM-'' @ show_nat (unat (usat_add (sb_next_id b) 1))"
    and "sim_submit ck intent b = (b', res)"
  shows "(res = Inr \<lparr>sa_broker_order_id = oid, sa_broker_ts_ns = Some (rq_start ck)\<rparr>)
    \<and> (\<exists>rc. sb_orders b' = (sb_orders b)(oid \<mapsto> rc) \<and> rc_intent rc = intent \<and> rc_fills rc = fills
        \<and> unat (rc_filled_qty rc) = filled
        \<and> rc_avg_fill_paise rc = fills_notional fills sdiv int filled
        \<and> rc_state rc = (if filled = 0 then Submitted else if filled = unat (bi_quantity intent) then Filled
                         else PartiallyFilled))
    \<and> (sb_books b' = (sb_books b)(bi_symbol_raw intent \<mapsto> book'))
    \<and> (wf_book book')
    \<and> (\<exists>m. sb_published b' = sb_published b @ [m] \<and> bm_op m = OpSubmit \<and> \<not> bm_error m)"
  using sim_submit_spec [OF assms] by (intro conjI) blast+

definition sample_broker :: sim_broker where
  "sample_broker = set_book 42 sample_book (sim_new default_sim_config)"

definition sample_request :: request_clock where
  "sample_request = \<lparr>rq_start = 1000, rq_end = 1500, rq_stamp = 1501\<rparr>"

lemma sample_broker_simps:
  "sb_ready sample_broker = ReadyOk" "sb_books sample_broker 42 = Some sample_book" "sb_next_id sample_broker = 0"
  by (simp_all add: sample_broker_def set_book_def sim_new_def default_sim_config_def)

lemma sample_filled: "min (unat (bi_quantity sample_buy)) (available sample_buy sample_book) = 90"
  using consume_total [OF sample_book_wf sample_buy_run] by (simp add: level_new_def)

lemma sample_book_at: "sb_books sample_broker (bi_symbol_raw sample_buy) = Some sample_book"
  by (simp add: sample_buy_def sample_broker_simps)

lemma sample_oid: "''SIM-1'' = ''SIM-'' @ show_nat (unat (usat_add (sb_next_id sample_broker) 1))"
  by (simp add: sample_broker_simps usat_add_def) code_simp

lemmas sample_submit_facts =
  sample_broker_simps(1) sample_book_at sample_book_wf sample_filled [symmetric] sample_buy_run sample_oid

theorem sim_submit_exact_witness:
  "\<exists>rc. sb_orders (fst (sim_submit sample_request sample_buy sample_broker)) ''SIM-1'' = Some rc
     \<and> rc_state rc = Filled \<and> unat (rc_filled_qty rc) = 90 \<and> rc_avg_fill_paise rc = 10015"
proof -
  obtain b' res where run: "sim_submit sample_request sample_buy sample_broker = (b', res)" by fastforce
  have "fills_notional [level_new 10010 40, level_new 10020 50] sdiv int 90 = 10015"
    by (simp add: level_new_def signed_divide_int_def)
  moreover have "unat (bi_quantity sample_buy) = 90" by (simp add: sample_buy_def)
  ultimately show ?thesis
    using sim_submit_exact [OF sample_submit_facts run]
    by (auto simp: run)
qed

text \<open>The simulated broker never hands out an order id twice: over any sequence of submissions to a
  broker with well-formed ids, shorter than the remaining ids, the acknowledged ids are pairwise
  distinct and new, earlier orders are kept, and every acknowledged id looks up the correlation id
  of its own intent.\<close>

theorem sim_order_ids_unique:
  assumes "sim_ids_ok b" and "length requests \<le> sim_room b"
    and "submit_all sim_submit requests b = (b', acks)"
  shows "(distinct (map fst acks))
    \<and> (\<forall>a \<in> set acks. sim_placed b (fst a) = None)
    \<and> (sim_placed b' = sim_placed b ++ map_of acks)
    \<and> (sim_ids_ok b')"
  using sim.submit_all_placed [OF assms] by blast

theorem sim_order_ids_unique_witness:
  "\<exists>b' acks. submit_all sim_submit [(sample_request, sample_buy), (sample_request, sample_buy)] sample_broker = (b', acks)
     \<and> distinct (map fst acks) \<and> sim_placed b' = sim_placed sample_broker ++ map_of acks"
proof -
  obtain b' acks where run: "submit_all sim_submit [(sample_request, sample_buy), (sample_request, sample_buy)] sample_broker = (b', acks)"
    by fastforce
  have ok: "sim_ids_ok sample_broker"
    by (simp add: sim_ids_ok_def sample_broker_def set_book_def sim_new_def)
  have room: "length [(sample_request, sample_buy), (sample_request, sample_buy)] \<le> sim_room sample_broker"
    by (simp add: sim_room_def sample_broker_simps)
  show ?thesis using run sim_order_ids_unique [OF ok room run] by blast
qed

subsection \<open>Every sequence of requests\<close>

inductive sim_step :: "sim_broker \<Rightarrow> sim_broker \<Rightarrow> bool" where
  step_book: "wf_book book \<Longrightarrow> sim_step b (set_book symbol_raw book b)"
| step_config_error: "sim_step b (force_config_error reason b)"
| step_disconnected: "sim_step b (force_disconnected reason b)"
| step_force_ready: "sim_step b (force_ready b)"
| step_submit: "sim_step b (fst (sim_submit ck intent b))"
| step_modify: "sim_step b (fst (sim_modify ck m b))"
| step_cancel: "sim_step b (fst (sim_cancel ck oid b))"
| step_status: "sim_step b (fst (sim_status ck oid b))"
| step_ready: "sim_step b (fst (sim_check_ready ck b))"

definition record_ok :: "order_record \<Rightarrow> bool" where
  "record_ok r \<longleftrightarrow> unat (rc_filled_qty r) \<le> unat (bi_quantity (rc_intent r))
     \<and> fills_qty (rc_fills r) = uint (rc_filled_qty r)
     \<and> rc_avg_fill_paise r = fills_notional (rc_fills r) sdiv fills_qty (rc_fills r)
     \<and> (case rc_state r of Submitted \<Rightarrow> rc_filled_qty r = 0
         | PartiallyFilled \<Rightarrow> rc_filled_qty r \<noteq> 0
         | Filled \<Rightarrow> rc_filled_qty r = bi_quantity (rc_intent r)
         | Cancelled \<Rightarrow> True
         | _ \<Rightarrow> False)"

definition sim_ok :: "sim_broker \<Rightarrow> bool" where
  "sim_ok b \<longleftrightarrow> (\<forall>s book. sb_books b s = Some book \<longrightarrow> wf_book book) \<and> (\<forall>i r. sb_orders b i = Some r \<longrightarrow> record_ok r)"

lemma sim_ok_same:
  "sim_ok b \<Longrightarrow> sb_books b' = sb_books b \<Longrightarrow> sb_orders b' = sb_orders b \<Longrightarrow> sim_ok b'"
  by (simp add: sim_ok_def)

lemma sim_ok_order:
  "sim_ok b \<Longrightarrow> sb_books b' = sb_books b \<Longrightarrow> record_ok r \<Longrightarrow> sb_orders b' = (sb_orders b)(i \<mapsto> r) \<Longrightarrow> sim_ok b'"
  by (auto simp: sim_ok_def)

lemma record_ok_modify:
  "record_ok r \<Longrightarrow> apply_modification m ts r = (r', res) \<Longrightarrow> record_ok r'"
  by (auto simp: apply_modification_def record_ok_def word_less_nat_alt Let_def
      split: if_splits option.splits order_state.splits)

lemma record_ok_cancel: "record_ok r \<Longrightarrow> apply_cancel ts r = (r', res) \<Longrightarrow> record_ok r'"
  by (auto simp: apply_cancel_def record_ok_def split: if_splits)

lemma record_ok_submit:
  assumes "wf_book b" "consume_book intent b = (b', fills)"
  shows "record_ok (apply_fills fills ts (rec_new oid intent ts))"
proof -
  let ?rc = "apply_fills fills ts (rec_new oid intent ts)"
  let ?n = "min (unat (bi_quantity intent)) (available intent b)"
  have i: "rc_intent ?rc = intent" by (simp add: apply_fills_def rec_new_def Let_def case_prod_beta)
  note r = submit_record [OF assms refl refl, of ts oid]
  have q: "fills_qty fills = int ?n" using consume_fills_ok(2) [OF assms] .
  have u: "uint (rc_filled_qty ?rc) = int ?n" using r by (metis of_nat_unat)
  have z: "rc_filled_qty ?rc = 0 \<longleftrightarrow> ?n = 0" using r by (metis unat_eq_zero)
  have f: "rc_filled_qty ?rc = bi_quantity intent \<longleftrightarrow> ?n = unat (bi_quantity intent)"
    using r by (metis word_unat_eq_iff)
  show ?thesis unfolding record_ok_def i using r q u z f by (auto split: if_splits)
qed

lemma sim_step_ok: "sim_step b b' \<Longrightarrow> sim_ok b \<Longrightarrow> sim_ok b'"
proof (induction rule: sim_step.induct)
  case (step_submit b ck intent)
  obtain b' res where run: "do_submit intent (rq_start ck) b = (b', res)" by fastforce
  have "sim_ok b'"
    using run
  proof (cases rule: do_submit_cases)
    case (placed book book' fills)
    have wf: "wf_book book" using step_submit placed(2) by (auto simp: sim_ok_def)
    show ?thesis
      using step_submit placed consume_wf [OF wf placed(3)] record_ok_submit [OF wf placed(3)]
      by (auto simp: sim_ok_def)
  qed (use step_submit in \<open>auto intro: sim_ok_same\<close>)
  then show ?case by (auto simp: sim_submit_def run intro: sim_ok_same)
next
  case (step_modify b ck m)
  obtain b' res where run: "do_modify m (rq_start ck) b = (b', res)" by fastforce
  then have "sim_ok b'"
    using step_modify record_ok_modify
    by (fastforce simp: do_modify_def sim_ok_def split: if_splits option.splits prod.splits)
  then show ?case by (auto simp: sim_modify_def run intro: sim_ok_same)
next
  case (step_cancel b ck oid)
  obtain b' res where run: "do_cancel oid (rq_start ck) b = (b', res)" by fastforce
  then have "sim_ok b'"
    using step_cancel record_ok_cancel
    by (fastforce simp: do_cancel_def sim_ok_def split: if_splits option.splits prod.splits)
  then show ?case by (auto simp: sim_cancel_def run intro: sim_ok_same)
qed (auto simp: sim_ok_def set_book_def force_config_error_def force_disconnected_def force_ready_def
    sim_status_def sim_check_ready_def Let_def)

lemma sim_new_ok: "sim_ok (sim_new cfg)"
  by (simp add: sim_ok_def sim_new_def)

text \<open>Whatever sequence of requests, book seedings and readiness changes a simulated broker goes
  through, every stored order stays consistent: the filled quantity never exceeds the (possibly
  modified) order quantity and is the sum of its recorded fills, the average price is their
  volume-weighted price, a Submitted order has no fill, a Filled order is exactly full, and the
  books stay well-formed.\<close>

theorem sim_orders_consistent:
  assumes "sim_step\<^sup>*\<^sup>* (sim_new cfg) b"
  shows "(\<forall>i r. sb_orders b i = Some r \<longrightarrow> record_ok r)
    \<and> (\<forall>s book. sb_books b s = Some book \<longrightarrow> wf_book book)"
proof -
  have "sim_ok b" using assms
    by (induction rule: rtranclp_induct) (auto intro: sim_new_ok sim_step_ok)
  then show ?thesis by (simp add: sim_ok_def)
qed

theorem sim_orders_consistent_witness:
  "\<exists>r. sb_orders (fst (sim_submit sample_request sample_buy sample_broker)) ''SIM-1'' = Some r \<and> record_ok r"
proof -
  obtain b' res where run: "sim_submit sample_request sample_buy sample_broker = (b', res)" by fastforce
  have order: "\<exists>r. sb_orders b' ''SIM-1'' = Some r"
    using sim_submit_spec(2) [OF sample_submit_facts run] by auto
  have "sim_step\<^sup>*\<^sup>* (sim_new default_sim_config) sample_broker"
    unfolding sample_broker_def by (intro r_into_rtranclp sim_step.step_book sample_book_wf)
  then have "sim_step\<^sup>*\<^sup>* (sim_new default_sim_config) (fst (sim_submit sample_request sample_buy sample_broker))"
    by (rule rtranclp.rtrancl_into_rtrancl) (rule sim_step.step_submit)
  then have "sb_orders b' ''SIM-1'' = Some r \<Longrightarrow> record_ok r" for r
    using sim_orders_consistent run by fastforce
  with order show ?thesis by (auto simp: run)
qed

text \<open>The simulated broker fails closed and observably: while it is not ready every submission,
  modification and cancellation is refused with NotReady, and orders and books stay as they are;
  and every request, refused or not, publishes exactly one metric whose error flag is set exactly
  when the request failed.\<close>

theorem sim_fails_closed:
  "(\<not> is_ready (sb_ready b) \<longrightarrow>
      (\<forall>b' res. sim_submit ck intent b = (b', res) \<longrightarrow>
         res = Inl (BrokerNotReady (ready_display (sb_ready b))) \<and> sb_orders b' = sb_orders b \<and> sb_books b' = sb_books b)
    \<and> (\<forall>b' res. sim_modify ck m b = (b', res) \<longrightarrow>
         res = Inl (BrokerNotReady (ready_display (sb_ready b))) \<and> sb_orders b' = sb_orders b \<and> sb_books b' = sb_books b)
    \<and> (\<forall>b' res. sim_cancel ck oid b = (b', res) \<longrightarrow>
         res = Inl (BrokerNotReady (ready_display (sb_ready b))) \<and> sb_orders b' = sb_orders b \<and> sb_books b' = sb_books b))
   \<and> (\<forall>b' res. sim_submit ck intent b = (b', res) \<longrightarrow> (\<exists>x. sb_published b' = sb_published b @ [x] \<and> bm_op x = OpSubmit \<and> bm_error x = is_err res))
   \<and> (\<forall>b' res. sim_modify ck m b = (b', res) \<longrightarrow> (\<exists>x. sb_published b' = sb_published b @ [x] \<and> bm_op x = OpModify \<and> bm_error x = is_err res))
   \<and> (\<forall>b' res. sim_cancel ck oid b = (b', res) \<longrightarrow> (\<exists>x. sb_published b' = sb_published b @ [x] \<and> bm_op x = OpCancel \<and> bm_error x = is_err res))
   \<and> (\<forall>b' res. sim_status ck oid b = (b', res) \<longrightarrow> (\<exists>x. sb_published b' = sb_published b @ [x] \<and> bm_op x = OpStatus \<and> bm_error x = is_err res))"
proof -
  have pub: "sb_published (fst (do_submit intent (rq_start ck) b)) = sb_published b"
    by (simp add: do_submit_def Let_def case_prod_beta split: option.splits)
  have pub2: "sb_published (fst (do_modify m (rq_start ck) b)) = sb_published b"
    "sb_published (fst (do_cancel oid (rq_start ck) b)) = sb_published b"
    by (simp_all add: do_modify_def do_cancel_def Let_def case_prod_beta split: option.splits)
  show ?thesis
    using pub pub2
    by (auto simp: sim_submit_def sim_modify_def sim_cancel_def sim_status_def record_metric_def Let_def
        case_prod_beta do_submit_def [of _ _ b] do_modify_def [of _ _ b] do_cancel_def [of _ _ b] split: if_splits)
qed

theorem sim_fails_closed_witness:
  "snd (sim_submit sample_request sample_buy (force_disconnected ''down'' sample_broker)) = Inl (BrokerNotReady ''Disconnected(down)'')"
  using sim_fails_closed [of "force_disconnected ''down'' sample_broker" sample_request sample_buy undefined undefined]
  by (cases "sim_submit sample_request sample_buy (force_disconnected ''down'' sample_broker)")
    (simp add: force_disconnected_def)

end
