(* ===== verification/Exec_Engine.thy ===== *)
theory Exec_Engine
  imports Approval Order_Lifecycle Retry Broker_Router Sim_Broker
begin

text \<open>
  The Execution_Engine (\<open>hedge-exec/src/engine.rs\<close>): verification and single use of approval
  tokens, the tracker registry, translation of intents, submission through the retry loop, fills
  and cancellation. The broker adapters are trait objects: the record \<open>adapters\<close> carries their
  operations on a state of any type, and the simulated broker is one instance. An operation of
  the engine runs to completion here.
\<close>

section \<open>Events and state\<close>

definition EXEC_ROUTE_BUDGET_NS :: u64 where
  "EXEC_ROUTE_BUDGET_NS = 5000000"

datatype replay_mode = ReplayOff | ReplayOn

record fill_event =
  fl_correlation_id :: correlation_id
  fl_symbol :: u32
  fl_side :: u8
  fl_filled_qty :: u64
  fl_avg_fill_paise :: i64
  fl_ts_ns :: u64

datatype engine_event =
    EventLifecycle lifecycle_event
  | EventFailover failover_event
  | EventError string string string
  | EventFill fill_event

record exec_engine =
  xe_router :: broker_router
  xe_verifier_key :: "u8 list"
  xe_trackers :: "correlation_id \<rightharpoonup> order_tracker"
  xe_consumed_tokens :: "approval_token set"
  xe_retry_policy :: retry_policy
  xe_replay_mode :: replay_mode

definition xe_new :: "broker_router \<Rightarrow> u8 list \<Rightarrow> retry_policy \<Rightarrow> replay_mode \<Rightarrow> exec_engine" where
  "xe_new router key policy replay = \<lparr>xe_router = router, xe_verifier_key = key, xe_trackers = (\<lambda>_. None),
     xe_consumed_tokens = {}, xe_retry_policy = policy, xe_replay_mode = replay\<rparr>"

text \<open>\<open>Arc<dyn BrokerAdapter>\<close> of the two slots, as operations on the state of the brokers.\<close>

record 'w adapters =
  ad_submit :: "active_slot \<Rightarrow> broker_intent \<Rightarrow> 'w \<Rightarrow> 'w \<times> (broker_error + submit_ack)"
  ad_cancel :: "active_slot \<Rightarrow> string \<Rightarrow> 'w \<Rightarrow> 'w \<times> (broker_error + unit)"

section \<open>Helpers\<close>

definition cid_to_hex :: "correlation_id \<Rightarrow> string" where
  "cid_to_hex cid = concat (map hex2 (u128_be cid))"

definition translate_intent :: "order_intent \<Rightarrow> u64 \<Rightarrow> string + broker_intent" where
  "translate_intent intent sized_quantity =
     (case (if oi_side intent = 0 then Some Buy else if oi_side intent = 1 then Some Sell else None) of
        None \<Rightarrow> Inl ''unknown side discriminant''
      | Some side \<Rightarrow>
          (case order_type_from_u8 (oi_order_type intent) of
             None \<Rightarrow> Inl ''unknown order_type discriminant''
           | Some order_type \<Rightarrow>
               (case exchange_from_i8 (oi_exchange intent) of
                  None \<Rightarrow> Inl ''unknown exchange discriminant''
                | Some exchange \<Rightarrow>
                    Inr \<lparr>bi_correlation_id = cid_of_bytes (oi_correlation_id intent), bi_symbol_raw = oi_symbol intent,
                         bi_side = side, bi_quantity = sized_quantity, bi_order_type = order_type,
                         bi_limit_paise = oi_limit_paise intent, bi_exchange = exchange\<rparr>)))"

text \<open>The routing latency record, and the breach notification when the budget is exceeded.\<close>

definition emit_latency :: "correlation_id \<Rightarrow> u64 \<Rightarrow> u64 \<Rightarrow> bool \<Rightarrow> latency_emit list" where
  "emit_latency cid stage_start_ns now breach_hint =
     (let elapsed = usat_sub now stage_start_ns;
          actual_breach = (breach_hint \<or> elapsed > EXEC_ROUTE_BUDGET_NS);
          record = \<lparr>lr_correlation_id = u128_be cid, lr_stage = stage_as_u8 ExecutionRouting, lr_nanos = elapsed,
                    lr_budget_nanos = EXEC_ROUTE_BUDGET_NS, lr_breach = actual_breach\<rparr>
      in EmitRecord ExecutionRouting record # (if actual_breach then [EmitBreach ExecutionRouting record] else []))"

section \<open>Submission\<close>

text \<open>What a submission is called with: the token, the intent and the fields signed with it, and the
  clock readings it makes.\<close>

record submit_request =
  sr_token :: approval_token
  sr_intent :: order_intent
  sr_sized_quantity :: u64
  sr_ts_ns :: u64
  sr_sequence :: u64
  sr_start :: u64
  sr_submit_now :: u64
  sr_end :: u64

text \<open>What it leaves behind outside the engine: the brokers, the jitter source, the sleeps and the
  latency records.\<close>

record ('w, 'j) exec_env =
  ev_world :: 'w
  ev_jitter :: 'j
  ev_sleeps :: "u64 list"
  ev_latency :: "latency_emit list"

definition request_cid :: "submit_request \<Rightarrow> correlation_id" where
  "request_cid rq = cid_of_bytes (oi_correlation_id (sr_intent rq))"

definition request_verified :: "hmac_fn \<Rightarrow> u8 list \<Rightarrow> submit_request \<Rightarrow> bool" where
  "request_verified hmac key rq \<longleftrightarrow>
     approval_verify hmac key (sr_token rq) (sr_intent rq) (sr_sized_quantity rq) (sr_ts_ns rq) (sr_sequence rq)"

text \<open>Steps 1 to 5: verify, consume the token, pick the adapter, install the tracker, translate. The
  flag tells whether the latency record is emitted on an early return.\<close>

definition submit_admit ::
  "hmac_fn \<Rightarrow> submit_request \<Rightarrow> exec_engine \<Rightarrow> exec_engine \<times> (exec_error \<times> bool + active_slot \<times> broker_id \<times> broker_intent)" where
  "submit_admit hmac rq e =
     (let cid = request_cid rq
      in if \<not> request_verified hmac (xe_verifier_key e) rq then (e, Inl (InvalidApprovalToken (cid_to_hex cid), True))
         else if sr_token rq \<in> xe_consumed_tokens e then (e, Inl (DuplicateToken (cid_to_hex cid), True))
         else let e = e\<lparr>xe_consumed_tokens := insert (sr_token rq) (xe_consumed_tokens e)\<rparr>;
                  (router, slot) = pick_for_intent None (xe_router e);
                  e = e\<lparr>xe_router := router\<rparr>;
                  bid = slot_id router slot;
                  e = (case xe_trackers e cid of
                         Some _ \<Rightarrow> e
                       | None \<Rightarrow> e\<lparr>xe_trackers := (xe_trackers e)(cid \<mapsto> ot_new cid bid (sr_sized_quantity rq))\<rparr>)
              in (case translate_intent (sr_intent rq) (sr_sized_quantity rq) of
                    Inl reason \<Rightarrow> (e, Inl (ExecInternal (''intent translation failed: '' @ reason), False))
                  | Inr broker_intent \<Rightarrow> (e, Inr (slot, bid, broker_intent))))"

definition submit_op :: "'w adapters \<Rightarrow> active_slot \<Rightarrow> broker_id \<Rightarrow> broker_intent \<Rightarrow> u32 \<Rightarrow> 'w \<Rightarrow> (exec_error + submit_ack) \<times> 'w" where
  "submit_op ad slot bid intent attempt w =
     (case ad_submit ad slot intent w of
        (w', Inr ack) \<Rightarrow> (Inr ack, w')
      | (w', Inl err) \<Rightarrow> (Inl (ExecBroker bid attempt err), w'))"

definition failover_events :: "failover_event option \<Rightarrow> engine_event list" where
  "failover_events f = (case f of Some ev \<Rightarrow> [EventFailover ev] | None \<Rightarrow> [])"

definition handle_submit_ok ::
  "correlation_id \<Rightarrow> submit_ack \<Rightarrow> u64 \<Rightarrow> exec_engine \<Rightarrow> exec_engine \<times> (exec_error + engine_event list)" where
  "handle_submit_ok cid ack ts e =
     (case xe_trackers e cid of
        None \<Rightarrow> (e, Inl (ExecInternal ''tracker disappeared''))
      | Some t \<Rightarrow>
          (case ot_submit (Some (sa_broker_order_id ack)) ts t of
             (t', Inl err) \<Rightarrow> (e\<lparr>xe_trackers := (xe_trackers e)(cid \<mapsto> t')\<rparr>, Inl err)
           | (t', Inr lifecycle) \<Rightarrow>
               let e = e\<lparr>xe_trackers := (xe_trackers e)(cid \<mapsto> t')\<rparr>;
                   (router, failover) = record_outcome Success 0 ts (xe_router e)
               in (e\<lparr>xe_router := router\<rparr>, Inr ([EventLifecycle lifecycle] @ failover_events failover))))"

definition drive_rejected :: "u64 \<Rightarrow> order_tracker \<Rightarrow> order_tracker \<times> engine_event list" where
  "drive_rejected ts t =
     (let (t, evs) =
            (if ot_state t = New then
               (case ot_submit None ts t of
                  (t', Inr ev) \<Rightarrow> (t', [EventLifecycle ev])
                | (t', Inl _) \<Rightarrow> (t', []))
             else (t, []))
      in (case ot_reject ts t of
            (t', Inr ev) \<Rightarrow> (t', evs @ [EventLifecycle ev])
          | (t', Inl _) \<Rightarrow> (t', evs)))"

definition handle_submit_err ::
  "correlation_id \<Rightarrow> exec_error \<Rightarrow> u64 \<Rightarrow> exec_engine \<Rightarrow> exec_engine \<times> engine_event list" where
  "handle_submit_err cid err ts e =
     (let evs = [EventError (exec_error_tag err) (cid_to_hex cid) (exec_error_display err)];
          (e, evs) = (case xe_trackers e cid of
                        None \<Rightarrow> (e, evs)
                      | Some t \<Rightarrow> let (t', evs') = drive_rejected ts t
                                  in (e\<lparr>xe_trackers := (xe_trackers e)(cid \<mapsto> t')\<rparr>, evs @ evs'))
      in if exec_counts_toward_failover err then
           let (router, failover) = record_outcome Failure (- 1) ts (xe_router e)
           in (e\<lparr>xe_router := router\<rparr>, evs @ failover_events failover)
         else (e, evs))"

text \<open>Steps 6 and 7: the retry loop over the adapter, then the outcome is folded into the tracker and
  the router. The events of a failed submission are built and dropped with the error return.\<close>

definition submit_route ::
  "'w adapters \<Rightarrow> ('j \<Rightarrow> flt \<times> 'j) \<Rightarrow> submit_request \<Rightarrow> active_slot \<Rightarrow> broker_id \<Rightarrow> broker_intent
     \<Rightarrow> exec_engine \<Rightarrow> ('w, 'j) exec_env \<Rightarrow> exec_engine \<times> ('w, 'j) exec_env \<times> (exec_error + engine_event list)" where
  "submit_route ad next_unit rq slot bid intent e env =
     (let cid = request_cid rq;
          (res, w, j, sleeps) = retry_with_backoff (xe_retry_policy e) next_unit (submit_op ad slot bid intent)
                                  (ev_world env) (ev_jitter env);
          env = env\<lparr>ev_world := w, ev_jitter := j, ev_sleeps := ev_sleeps env @ sleeps\<rparr>
      in (case res of
            Inr ack \<Rightarrow>
              (case handle_submit_ok cid ack (sr_submit_now rq) e of
                 (e', Inl err) \<Rightarrow> (e', env, Inl err)
               | (e', Inr evs) \<Rightarrow>
                   (e', env\<lparr>ev_latency := ev_latency env @ emit_latency cid (sr_start rq) (sr_end rq) False\<rparr>, Inr evs))
          | Inl err \<Rightarrow>
              (fst (handle_submit_err cid err (sr_submit_now rq) e),
               env\<lparr>ev_latency := ev_latency env @ emit_latency cid (sr_start rq) (sr_end rq) True\<rparr>, Inl err)))"

definition exec_submit ::
  "hmac_fn \<Rightarrow> 'w adapters \<Rightarrow> ('j \<Rightarrow> flt \<times> 'j) \<Rightarrow> submit_request
     \<Rightarrow> exec_engine \<Rightarrow> ('w, 'j) exec_env \<Rightarrow> exec_engine \<times> ('w, 'j) exec_env \<times> (exec_error + engine_event list)" where
  "exec_submit hmac ad next_unit rq e env =
     (case submit_admit hmac rq e of
        (e', Inl (err, timed)) \<Rightarrow>
          (e', (if timed then env\<lparr>ev_latency := ev_latency env @ emit_latency (request_cid rq) (sr_start rq) (sr_end rq) False\<rparr>
                else env), Inl err)
      | (e', Inr (slot, bid, intent)) \<Rightarrow> submit_route ad next_unit rq slot bid intent e' env)"

section \<open>Fills, cancellation, queries\<close>

definition no_tracker :: "correlation_id \<Rightarrow> exec_error" where
  "no_tracker cid = ExecInternal (''no tracker for correlation_id '' @ cid_to_hex cid)"

definition exec_on_fill ::
  "correlation_id \<Rightarrow> u32 \<Rightarrow> u8 \<Rightarrow> u64 \<Rightarrow> i64 \<Rightarrow> u64 \<Rightarrow> exec_engine \<Rightarrow> exec_engine \<times> (exec_error + engine_event list)" where
  "exec_on_fill cid symbol side cum_filled_qty cum_avg_fill_paise ts e =
     (case xe_trackers e cid of
        None \<Rightarrow> (e, Inl (no_tracker cid))
      | Some t \<Rightarrow>
          (case ot_partial_fill cum_filled_qty cum_avg_fill_paise ts t of
             (t', Inl err) \<Rightarrow> (e\<lparr>xe_trackers := (xe_trackers e)(cid \<mapsto> t')\<rparr>, Inl err)
           | (t', Inr lifecycle) \<Rightarrow>
               let e = e\<lparr>xe_trackers := (xe_trackers e)(cid \<mapsto> t')\<rparr>;
                   delta_qty = usat_sub cum_filled_qty (ot_filled_qty t)
               in if delta_qty = 0 then (e, Inr [EventLifecycle lifecycle])
                  else let cum_notional = wrap_i128 (cum_avg_fill_paise * uint cum_filled_qty);
                           prior_notional = wrap_i128 (ot_avg_fill_paise t * uint (ot_filled_qty t));
                           delta_notional = wrap_i128 (cum_notional - prior_notional);
                           fill_px_paise = wrap_i64 (delta_notional sdiv uint delta_qty)
                       in (e, Inr [EventLifecycle lifecycle,
                                   EventFill \<lparr>fl_correlation_id = cid, fl_symbol = symbol, fl_side = side,
                                     fl_filled_qty = delta_qty, fl_avg_fill_paise = fill_px_paise, fl_ts_ns = ts\<rparr>])))"

text \<open>The cancellation goes to the adapter that is active now.\<close>

definition exec_cancel ::
  "'w adapters \<Rightarrow> correlation_id \<Rightarrow> u64 \<Rightarrow> exec_engine \<Rightarrow> 'w \<Rightarrow> exec_engine \<times> 'w \<times> (exec_error + engine_event)" where
  "exec_cancel ad cid now e w =
     (case xe_trackers e cid of
        None \<Rightarrow> (e, w, Inl (no_tracker cid))
      | Some t \<Rightarrow>
          (case ad_cancel ad (br_active (xe_router e))
                  (case ot_broker_order_id t of Some i \<Rightarrow> i | None \<Rightarrow> []) w of
             (w', Inl err) \<Rightarrow> (e, w', Inl (ExecBroker (ot_broker t) 1 err))
           | (w', Inr _) \<Rightarrow>
               (case ot_cancel now t of
                  (t', Inl err) \<Rightarrow> (e\<lparr>xe_trackers := (xe_trackers e)(cid \<mapsto> t')\<rparr>, w', Inl err)
                | (t', Inr ev) \<Rightarrow> (e\<lparr>xe_trackers := (xe_trackers e)(cid \<mapsto> t')\<rparr>, w', Inr (EventLifecycle ev)))))"

definition state_of :: "correlation_id \<Rightarrow> exec_engine \<Rightarrow> order_state option" where
  "state_of cid e = map_option ot_state (xe_trackers e cid)"

section \<open>Sequences of calls\<close>

datatype exec_call =
    DoSubmit submit_request
  | DoFill correlation_id u32 u8 u64 i64 u64
  | DoCancel correlation_id u64

text \<open>The events a call hands to the network layer; an error return carries none.\<close>

definition published :: "exec_error + engine_event list \<Rightarrow> engine_event list" where
  "published r = (case r of Inr evs \<Rightarrow> evs | Inl _ \<Rightarrow> [])"

fun do_call ::
  "hmac_fn \<Rightarrow> 'w adapters \<Rightarrow> ('j \<Rightarrow> flt \<times> 'j) \<Rightarrow> exec_call \<Rightarrow> exec_engine \<Rightarrow> ('w, 'j) exec_env
     \<Rightarrow> exec_engine \<times> ('w, 'j) exec_env \<times> engine_event list" where
  "do_call hmac ad nx (DoSubmit rq) e env =
     (let (e', env', r) = exec_submit hmac ad nx rq e env in (e', env', published r))"
| "do_call hmac ad nx (DoFill cid symbol side q p ts) e env =
     (let (e', r) = exec_on_fill cid symbol side q p ts e in (e', env, published r))"
| "do_call hmac ad nx (DoCancel cid now) e env =
     (let (e', w', r) = exec_cancel ad cid now e (ev_world env)
      in (e', env\<lparr>ev_world := w'\<rparr>, published (map_sum id (\<lambda>ev. [ev]) r)))"

fun do_calls ::
  "hmac_fn \<Rightarrow> 'w adapters \<Rightarrow> ('j \<Rightarrow> flt \<times> 'j) \<Rightarrow> exec_call list \<Rightarrow> exec_engine \<Rightarrow> ('w, 'j) exec_env
     \<Rightarrow> exec_engine \<times> ('w, 'j) exec_env \<times> engine_event list" where
  "do_calls hmac ad nx [] e env = (e, env, [])"
| "do_calls hmac ad nx (c # cs) e env =
     (let (e', env', evs) = do_call hmac ad nx c e env;
          (e'', env'', evs') = do_calls hmac ad nx cs e' env'
      in (e'', env'', evs @ evs'))"

text \<open>Adapters that also lg every order handed to a broker.\<close>

type_synonym broker_log = "(active_slot \<times> broker_intent) list"

definition logged :: "'w adapters \<Rightarrow> ('w \<times> broker_log) adapters" where
  "logged ad = \<lparr>ad_submit = (\<lambda>slot i (w, lg). case ad_submit ad slot i w of (w', r) \<Rightarrow> ((w', lg @ [(slot, i)]), r)),
     ad_cancel = (\<lambda>slot oid (w, lg). case ad_cancel ad slot oid w of (w', r) \<Rightarrow> ((w', lg), r))\<rparr>"

section \<open>Lemmas\<close>

subsection \<open>The cases of a submission\<close>

lemma admit_rejected:
  "\<not> request_verified hmac (xe_verifier_key e) rq \<Longrightarrow>
     submit_admit hmac rq e = (e, Inl (InvalidApprovalToken (cid_to_hex (request_cid rq)), True))"
  "request_verified hmac (xe_verifier_key e) rq \<Longrightarrow> sr_token rq \<in> xe_consumed_tokens e \<Longrightarrow>
     submit_admit hmac rq e = (e, Inl (DuplicateToken (cid_to_hex (request_cid rq)), True))"
  by (simp_all add: submit_admit_def Let_def)

text \<open>The engine after steps 2 to 4.\<close>

definition admitted :: "submit_request \<Rightarrow> exec_engine \<Rightarrow> exec_engine" where
  "admitted rq e = e\<lparr>xe_consumed_tokens := insert (sr_token rq) (xe_consumed_tokens e),
     xe_trackers := (case xe_trackers e (request_cid rq) of
        Some _ \<Rightarrow> xe_trackers e
      | None \<Rightarrow> (xe_trackers e)(request_cid rq \<mapsto> ot_new (request_cid rq) (active_id (xe_router e)) (sr_sized_quantity rq)))\<rparr>"

lemma admit_fresh:
  assumes "request_verified hmac (xe_verifier_key e) rq" "sr_token rq \<notin> xe_consumed_tokens e"
  shows "submit_admit hmac rq e =
    (admitted rq e, case translate_intent (sr_intent rq) (sr_sized_quantity rq) of
       Inl reason \<Rightarrow> Inl (ExecInternal (''intent translation failed: '' @ reason), False)
     | Inr i \<Rightarrow> Inr (br_active (xe_router e), active_id (xe_router e), i))"
  using assms
  by (simp add: submit_admit_def admitted_def pick_for_intent_def active_id_def Let_def split: option.splits sum.splits)

lemma admitted_simps [simp]:
  "xe_router (admitted rq e) = xe_router e" "xe_verifier_key (admitted rq e) = xe_verifier_key e"
  "xe_retry_policy (admitted rq e) = xe_retry_policy e"
  "xe_consumed_tokens (admitted rq e) = insert (sr_token rq) (xe_consumed_tokens e)"
  by (simp_all add: admitted_def)

lemma exec_submit_cases:
  assumes "exec_submit hmac ad nx rq e env = (e', env', r)"
  obtains (invalid) "\<not> request_verified hmac (xe_verifier_key e) rq" "e' = e" "ev_world env' = ev_world env"
      "r = Inl (InvalidApprovalToken (cid_to_hex (request_cid rq)))"
  | (duplicate) "request_verified hmac (xe_verifier_key e) rq" "sr_token rq \<in> xe_consumed_tokens e"
      "e' = e" "ev_world env' = ev_world env" "r = Inl (DuplicateToken (cid_to_hex (request_cid rq)))"
  | (untranslatable) reason where "request_verified hmac (xe_verifier_key e) rq" "sr_token rq \<notin> xe_consumed_tokens e"
      "translate_intent (sr_intent rq) (sr_sized_quantity rq) = Inl reason"
      "e' = admitted rq e" "env' = env" "r = Inl (ExecInternal (''intent translation failed: '' @ reason))"
  | (routed) i where "request_verified hmac (xe_verifier_key e) rq" "sr_token rq \<notin> xe_consumed_tokens e"
      "translate_intent (sr_intent rq) (sr_sized_quantity rq) = Inr i"
      "submit_route ad nx rq (br_active (xe_router e)) (active_id (xe_router e)) i (admitted rq e) env = (e', env', r)"
proof (cases "request_verified hmac (xe_verifier_key e) rq")
  case False
  with assms show ?thesis
    by (intro invalid) (auto simp: exec_submit_def admit_rejected(1))
next
  case ok: True
  show ?thesis
  proof (cases "sr_token rq \<in> xe_consumed_tokens e")
    case True
    with assms ok show ?thesis by (intro duplicate) (auto simp: exec_submit_def admit_rejected(2))
  next
    case False
    show ?thesis
    proof (cases "translate_intent (sr_intent rq) (sr_sized_quantity rq)")
      case (Inl reason)
      with assms ok False show ?thesis by (intro untranslatable) (auto simp: exec_submit_def admit_fresh)
    next
      case (Inr i)
      with assms ok False show ?thesis by (intro routed) (auto simp: exec_submit_def admit_fresh)
    qed
  qed
qed

subsection \<open>What a call leaves alone\<close>

lemma handle_submit_frame [simp]:
  "xe_verifier_key (fst (handle_submit_ok cid ack ts e)) = xe_verifier_key e"
  "xe_retry_policy (fst (handle_submit_ok cid ack ts e)) = xe_retry_policy e"
  "xe_consumed_tokens (fst (handle_submit_ok cid ack ts e)) = xe_consumed_tokens e"
  "xe_verifier_key (fst (handle_submit_err cid err ts e)) = xe_verifier_key e"
  "xe_retry_policy (fst (handle_submit_err cid err ts e)) = xe_retry_policy e"
  "xe_consumed_tokens (fst (handle_submit_err cid err ts e)) = xe_consumed_tokens e"
  by (simp_all add: handle_submit_ok_def handle_submit_err_def Let_def split: option.splits sum.splits prod.splits)

lemma submit_route_cases:
  assumes "submit_route ad nx rq slot bid i e env = (e', env', r)"
  obtains (acked) ack w j sl where
      "retry_with_backoff (xe_retry_policy e) nx (submit_op ad slot bid i) (ev_world env) (ev_jitter env) = (Inr ack, w, j, sl)"
      "ev_world env' = w" "(e', r) = handle_submit_ok (request_cid rq) ack (sr_submit_now rq) e"
  | (failed) err w j sl where
      "retry_with_backoff (xe_retry_policy e) nx (submit_op ad slot bid i) (ev_world env) (ev_jitter env) = (Inl err, w, j, sl)"
      "ev_world env' = w" "r = Inl err" "e' = fst (handle_submit_err (request_cid rq) err (sr_submit_now rq) e)"
proof -
  obtain res w j sl where run:
    "retry_with_backoff (xe_retry_policy e) nx (submit_op ad slot bid i) (ev_world env) (ev_jitter env) = (res, w, j, sl)"
    by (cases "retry_with_backoff (xe_retry_policy e) nx (submit_op ad slot bid i) (ev_world env) (ev_jitter env)")
  show ?thesis
  proof (cases res)
    case (Inl err)
    with assms run show ?thesis by (intro failed) (auto simp: submit_route_def Let_def)
  next
    case (Inr ack)
    have "ev_world env' = w \<and> (e', r) = handle_submit_ok (request_cid rq) ack (sr_submit_now rq) e"
      using assms run Inr by (auto simp: submit_route_def Let_def split: prod.splits sum.splits)
    with run Inr show ?thesis by (intro acked) auto
  qed
qed

lemma submit_route_frame:
  assumes "submit_route ad nx rq slot bid i e env = (e', env', r)"
  shows "xe_verifier_key e' = xe_verifier_key e" "xe_retry_policy e' = xe_retry_policy e"
    "xe_consumed_tokens e' = xe_consumed_tokens e"
  using assms by (cases rule: submit_route_cases; metis fst_conv handle_submit_frame)+

lemma exec_submit_frame:
  assumes "exec_submit hmac ad nx rq e env = (e', env', r)"
  shows "xe_verifier_key e' = xe_verifier_key e" "xe_retry_policy e' = xe_retry_policy e"
  using assms by (cases rule: exec_submit_cases; simp add: submit_route_frame)+

lemma other_calls_frame:
  "exec_on_fill cid symbol side q p ts e = (e', res) \<Longrightarrow> xe_verifier_key e' = xe_verifier_key e
     \<and> xe_retry_policy e' = xe_retry_policy e \<and> xe_consumed_tokens e' = xe_consumed_tokens e"
  "exec_cancel ad cid now e w = (e', w', res2) \<Longrightarrow> xe_verifier_key e' = xe_verifier_key e
     \<and> xe_retry_policy e' = xe_retry_policy e \<and> xe_consumed_tokens e' = xe_consumed_tokens e"
  by (auto simp: exec_on_fill_def exec_cancel_def Let_def split: option.splits prod.splits sum.splits if_splits)

end
