(* ===== verification/Exec_Safety.thy ===== *)
theory Exec_Safety
  imports Exec_Engine
begin

text \<open>
  What the Execution_Engine guarantees over every sequence of calls and whatever the brokers
  answer: which orders reach a broker, the lifecycles and fills it publishes, and when the router
  moves. The brokers are arbitrary adapters; the witnesses run on the simulated broker of replay
  mode and on adapters with constant answers.
\<close>

lemma attempts_pos: "\<exists>n. unat (max (max_attempts p) 1) = Suc n"
proof -
  have "1 \<le> max (max_attempts p) 1" by simp
  then have "0 < unat (max (max_attempts p) 1)" unfolding word_le_nat_alt by simp
  then show ?thesis by (rule gr0_implies_Suc)
qed

lemma retry_first_success:
  "op 1 w = (Inr v, w') \<Longrightarrow> retry_with_backoff p nx op w j = (Inr v, w', j, [])"
  using attempts_pos [of p] by (auto simp: retry_with_backoff_def Let_def)

subsection \<open>What reaches a broker\<close>

lemma retry_loop_log:
  "retry_loop p nx (submit_op (logged ad) slot bid i) mx n a le (w, lg) j sl = (r, (w', lg'), j', sl') \<Longrightarrow>
     \<exists>k \<le> n. lg' = lg @ replicate k (slot, i)"
proof (induction n arbitrary: a le w lg j sl)
  case 0
  then show ?case by simp
next
  case (Suc n)
  obtain w1 x where x: "ad_submit ad slot i w = (w1, x)" by fastforce
  have op: "submit_op (logged ad) slot bid i a (w, lg) =
      (case x of Inr ack \<Rightarrow> Inr ack | Inl err \<Rightarrow> Inl (ExecBroker bid a err), w1, lg @ [(slot, i)])"
    using x by (simp add: submit_op_def logged_def split: sum.splits)
  show ?case
  proof (cases "\<exists>err. x = Inl err \<and> broker_is_retryable err")
    case True
    then obtain err where err: "x = Inl err" "broker_is_retryable err" by blast
    have "\<exists>a' le' j1 sl1. retry_loop p nx (submit_op (logged ad) slot bid i) mx n a' le' (w1, lg @ [(slot, i)]) j1 sl1
        = (r, (w', lg'), j', sl')"
      using Suc.prems err by (auto simp: op Let_def case_prod_beta split: if_splits)
    then obtain k where "k \<le> n" "lg' = (lg @ [(slot, i)]) @ replicate k (slot, i)"
      using Suc.IH by blast
    then show ?thesis by (intro exI [of _ "Suc k"]) simp
  next
    case False
    then have "lg' = lg @ [(slot, i)]"
      using Suc.prems by (cases x) (auto simp: op)
    then show ?thesis by (intro exI [of _ 1]) simp
  qed
qed

definition attempts :: "retry_policy \<Rightarrow> nat" where
  "attempts p = unat (max (max_attempts p) 1)"

lemma submit_route_log:
  assumes "submit_route (logged ad) nx rq slot bid i e env = (e', env', r)" "ev_world env = (w, lg)"
  shows "\<exists>w' k. k \<le> attempts (xe_retry_policy e) \<and> ev_world env' = (w', lg @ replicate k (slot, i))"
proof -
  obtain res w' lg' j sl where run:
    "retry_with_backoff (xe_retry_policy e) nx (submit_op (logged ad) slot bid i) (w, lg) (ev_jitter env) = (res, (w', lg'), j, sl)"
    by (metis prod.collapse)
  have "ev_world env' = (w', lg')"
    using assms(1) by (cases rule: submit_route_cases) (use run assms(2) in auto)
  moreover have "\<exists>k \<le> attempts (xe_retry_policy e). lg' = lg @ replicate k (slot, i)"
    using run unfolding retry_with_backoff_def attempts_def Let_def by (rule retry_loop_log)
  ultimately show ?thesis by blast
qed

text \<open>The requests of a call sequence whose token verifies and has not been consumed.\<close>

definition fresh_requests :: "hmac_fn \<Rightarrow> exec_engine \<Rightarrow> exec_call list \<Rightarrow> submit_request set" where
  "fresh_requests hmac e cs = {rq. DoSubmit rq \<in> set cs \<and> request_verified hmac (xe_verifier_key e) rq
     \<and> sr_token rq \<notin> xe_consumed_tokens e}"

lemma finite_fresh_requests: "finite (fresh_requests hmac e cs)"
proof -
  have "fresh_requests hmac e cs \<subseteq> (\<lambda>c. case c of DoSubmit rq \<Rightarrow> rq | _ \<Rightarrow> undefined) ` set cs"
    by (force simp: fresh_requests_def)
  then show ?thesis by (rule finite_subset) simp
qed

text \<open>One call: what it appends to the log, and what it does to the consumed tokens.\<close>

lemma do_call_log:
  assumes "do_call hmac (logged ad) nx c e env = (e', env', evs)" "ev_world env = (w, lg)"
  shows "\<exists>w' new. ev_world env' = (w', lg @ new) \<and> xe_verifier_key e' = xe_verifier_key e
    \<and> xe_retry_policy e' = xe_retry_policy e \<and> xe_consumed_tokens e \<subseteq> xe_consumed_tokens e'
    \<and> (new = [] \<or> (\<exists>rq slot i k. rq \<in> fresh_requests hmac e [c] \<and> sr_token rq \<in> xe_consumed_tokens e'
         \<and> translate_intent (sr_intent rq) (sr_sized_quantity rq) = Inr i
         \<and> new = replicate k (slot, i) \<and> k \<le> attempts (xe_retry_policy e)))"
proof (cases c)
  case (DoSubmit rq)
  then obtain r where run: "exec_submit hmac (logged ad) nx rq e env = (e', env', r)"
    using assms(1) by (auto split: prod.splits)
  note frame = exec_submit_frame [OF run]
  show ?thesis
    using run
  proof (cases rule: exec_submit_cases)
    case (routed i)
    obtain w' k where k: "k \<le> attempts (xe_retry_policy e)"
      "ev_world env' = (w', lg @ replicate k (br_active (xe_router e), i))"
      using submit_route_log [OF routed(4) assms(2)] by auto
    have "rq \<in> fresh_requests hmac e [c]" using routed(1,2) DoSubmit by (simp add: fresh_requests_def)
    moreover have "sr_token rq \<in> xe_consumed_tokens e'" "xe_consumed_tokens e \<subseteq> xe_consumed_tokens e'"
      using submit_route_frame(3) [OF routed(4)] by auto
    ultimately show ?thesis using k routed(3) frame by blast
  qed (use assms(2) frame in auto)
next
  case (DoFill cid symbol side q p ts)
  then show ?thesis
    using assms other_calls_frame(1) by (fastforce split: prod.splits)
next
  case (DoCancel cid now)
  then obtain w1 r where run: "exec_cancel (logged ad) cid now e (w, lg) = (e', w1, r)" "ev_world env' = w1"
    using assms by (auto split: prod.splits)
  have "snd w1 = lg"
    using run(1) by (auto simp: exec_cancel_def logged_def split: option.splits prod.splits sum.splits)
  then show ?thesis using other_calls_frame(2) [OF run(1)] run(2) by (cases w1) auto
qed

lemma do_calls_log:
  "do_calls hmac (logged ad) nx cs e env = (e', env', evs) \<Longrightarrow> ev_world env = (w, lg) \<Longrightarrow>
   \<exists>w' new. ev_world env' = (w', lg @ new)
     \<and> (\<forall>(slot, i) \<in> set new. \<exists>rq \<in> fresh_requests hmac e cs. translate_intent (sr_intent rq) (sr_sized_quantity rq) = Inr i)
     \<and> length new \<le> attempts (xe_retry_policy e) * card (sr_token ` fresh_requests hmac e cs)"
proof (induction cs arbitrary: e env w lg evs)
  case Nil
  then show ?case by simp
next
  case (Cons c cs)
  obtain e1 env1 evs1 evs2 where run: "do_call hmac (logged ad) nx c e env = (e1, env1, evs1)"
    "do_calls hmac (logged ad) nx cs e1 env1 = (e', env', evs2)"
    using Cons.prems(1) by (auto split: prod.splits simp: Let_def)
  obtain w1 new1 where one: "ev_world env1 = (w1, lg @ new1)" "xe_verifier_key e1 = xe_verifier_key e"
    "xe_retry_policy e1 = xe_retry_policy e" "xe_consumed_tokens e \<subseteq> xe_consumed_tokens e1"
    "new1 = [] \<or> (\<exists>rq slot i k. rq \<in> fresh_requests hmac e [c] \<and> sr_token rq \<in> xe_consumed_tokens e1
         \<and> translate_intent (sr_intent rq) (sr_sized_quantity rq) = Inr i
         \<and> new1 = replicate k (slot, i) \<and> k \<le> attempts (xe_retry_policy e))"
    using do_call_log [OF run(1) Cons.prems(2)] by blast
  obtain w2 new2 where two: "ev_world env' = (w2, (lg @ new1) @ new2)"
    "\<forall>(slot, i) \<in> set new2. \<exists>rq \<in> fresh_requests hmac e1 cs. translate_intent (sr_intent rq) (sr_sized_quantity rq) = Inr i"
    "length new2 \<le> attempts (xe_retry_policy e1) * card (sr_token ` fresh_requests hmac e1 cs)"
    using Cons.IH [OF run(2) one(1)] by blast
  let ?F = "fresh_requests hmac e (c # cs)" and ?F1 = "fresh_requests hmac e1 cs"
  have sub: "?F1 \<subseteq> ?F" "fresh_requests hmac e [c] \<subseteq> ?F"
    using one(2,4) by (auto simp: fresh_requests_def)
  have fin: "finite (sr_token ` ?F)" by (simp add: finite_fresh_requests)
  have "length new1 + length new2 \<le> attempts (xe_retry_policy e) * card (sr_token ` ?F)"
  proof (cases "new1 = []")
    case True
    have "card (sr_token ` ?F1) \<le> card (sr_token ` ?F)" using sub fin by (intro card_mono image_mono)
    then show ?thesis using two(3) True one(3) by (simp add: mult_le_mono2 order_trans)
  next
    case False
    then obtain rq k where rq: "rq \<in> fresh_requests hmac e [c]" "sr_token rq \<in> xe_consumed_tokens e1"
      "length new1 \<le> attempts (xe_retry_policy e)"
      using one(5) by auto
    have "sr_token rq \<notin> sr_token ` ?F1" using rq(2) by (auto simp: fresh_requests_def)
    then have "card (sr_token ` ?F1) < card (sr_token ` ?F)"
      using sub rq(1) fin by (intro psubset_card_mono) auto
    then have "attempts (xe_retry_policy e) * Suc (card (sr_token ` ?F1)) \<le> attempts (xe_retry_policy e) * card (sr_token ` ?F)"
      by (intro mult_le_mono2) simp
    then show ?thesis using two(3) rq(3) one(3) by simp
  qed
  moreover have "\<forall>(slot, i) \<in> set (new1 @ new2). \<exists>rq \<in> ?F. translate_intent (sr_intent rq) (sr_sized_quantity rq) = Inr i"
    using one(5) two(2) sub by fastforce
  ultimately show ?case using two(1) by (intro exI [of _ w2] exI [of _ "new1 @ new2"]) simp
qed

subsection \<open>Published lifecycles\<close>

text \<open>The lifecycle events of one order among the published ones.\<close>

fun lifecycle_of :: "correlation_id \<Rightarrow> engine_event \<Rightarrow> lifecycle_event list" where
  "lifecycle_of cid (EventLifecycle ev) = (if le_correlation_id ev = cid then [ev] else [])"
| "lifecycle_of cid _ = []"

definition order_events :: "correlation_id \<Rightarrow> engine_event list \<Rightarrow> lifecycle_event list" where
  "order_events cid evs = concat (map (lifecycle_of cid) evs)"

lemma order_events_simps [simp]:
  "order_events cid [] = []"
  "order_events cid (e # evs) = lifecycle_of cid e @ order_events cid evs"
  "order_events cid (xs @ ys) = order_events cid xs @ order_events cid ys"
  by (simp_all add: order_events_def)

lemma order_events_failover [simp]: "order_events cid (failover_events f) = []"
  by (simp add: failover_events_def split: option.splits)

text \<open>What the published events of an order say about its tracker. The events of a failed submission
  are dropped, so a tracker may have moved on to \<open>Rejected\<close>.\<close>

definition order_ok :: "correlation_id \<Rightarrow> order_tracker option \<Rightarrow> lifecycle_event list \<Rightarrow> bool" where
  "order_ok cid ot evs \<longleftrightarrow> legal_path New (map le_state evs) \<and> sorted (map le_filled_qty evs)
     \<and> (case ot of None \<Rightarrow> evs = []
         | Some t \<Rightarrow> ot_correlation_id t = cid \<and> tracker_inv t
             \<and> (ot_state t = last (New # map le_state evs) \<or> ot_state t = Rejected)
             \<and> (\<forall>ev \<in> set evs. le_filled_qty ev \<le> ot_filled_qty t \<and> le_filled_qty ev \<le> ot_requested_qty t))"

definition orders_ok :: "exec_engine \<Rightarrow> engine_event list \<Rightarrow> bool" where
  "orders_ok e evs \<longleftrightarrow> (\<forall>cid. order_ok cid (xe_trackers e cid) (order_events cid evs))"

lemma order_ok_new [simp]: "order_ok cid (Some (ot_new cid bid q)) []"
  by (simp add: order_ok_def ot_new_def tracker_inv_def)

lemma orders_ok_admitted: "orders_ok e evs \<Longrightarrow> orders_ok (admitted rq e) evs"
  unfolding orders_ok_def
proof
  fix cid
  assume ok: "\<forall>cid. order_ok cid (xe_trackers e cid) (order_events cid evs)"
  show "order_ok cid (xe_trackers (admitted rq e) cid) (order_events cid evs)"
  proof (cases "xe_trackers e (request_cid rq)")
    case None
    then have "order_events (request_cid rq) evs = []" using spec [OF ok, of "request_cid rq"] by (simp add: order_ok_def)
    then show ?thesis using ok None by (auto simp: admitted_def)
  qed (use ok in \<open>simp add: admitted_def\<close>)
qed

text \<open>A tracker call that is published keeps the relation; so does one that fails.\<close>

lemma edge_call_inv:
  "tracker_inv t \<Longrightarrow> edge_call t t' r \<Longrightarrow> tracker_inv t'"
  using legal_targets [of "ot_state t" "ot_state t'"]
  by (cases "ot_state t"; cases "ot_state t'") (auto simp: edge_call_def tracker_inv_def)

lemma order_ok_publish:
  assumes "order_ok cid (Some t) evs" and "edge_call t t' (Some (Inr ev))" and "ot_correlation_id t' = cid"
  shows "order_ok cid (Some t') (evs @ [ev])"
proof -
  obtain ts where ev: "ev = ot_event t' ts" using assms(2) by (auto simp: edge_call_def call_event_def)
  have legal: "is_legal_transition (ot_state t) (ot_state t')" using assms(2) by (simp add: edge_call_def)
  have st: "ot_state t = last (New # map le_state evs)"
    using assms(1) legal legal_from_terminal [of Rejected "ot_state t'"] by (auto simp: order_ok_def)
  have fill: "ot_filled_qty t \<le> ot_filled_qty t'" "ot_requested_qty t' = ot_requested_qty t"
    using assms(2) by (auto simp: edge_call_def)
  have inv: "tracker_inv t'" using edge_call_inv assms(1,2) by (auto simp: order_ok_def)
  have bound: "\<forall>x \<in> set evs. le_filled_qty x \<le> ot_filled_qty t' \<and> le_filled_qty x \<le> ot_requested_qty t'"
    using assms(1) fill by (auto simp: order_ok_def intro: order_trans)
  show ?thesis
    using assms(1,3) legal st inv bound
    by (auto simp: order_ok_def ev ot_event_def legal_path_snoc sorted_append tracker_inv_def)
qed

lemma order_ok_keep:
  assumes "order_ok cid (Some t) evs" "ot_state t' = ot_state t" "ot_filled_qty t' = ot_filled_qty t"
    "ot_requested_qty t' = ot_requested_qty t" "ot_correlation_id t' = ot_correlation_id t"
  shows "order_ok cid (Some t') evs"
  using assms by (simp add: order_ok_def tracker_inv_def)

lemma tracker_cid [simp]:
  "ot_correlation_id (fst (transition_no_fill s ts oid t)) = ot_correlation_id t"
  "ot_correlation_id (fst (ot_partial_fill q p ts t)) = ot_correlation_id t"
  by (auto simp: transition_no_fill_def ot_partial_fill_def Let_def split: option.splits)

lemma order_ok_call:
  assumes "order_ok cid (Some t) evs" and "ot_correlation_id t' = ot_correlation_id t"
    and "failed_call t t' (Some r) \<or> edge_call t t' (Some r)"
  shows "order_ok cid (Some t') (evs @ (case r of Inr ev \<Rightarrow> [ev] | Inl _ \<Rightarrow> []))"
proof -
  have cid: "ot_correlation_id t' = cid" using assms(1,2) by (simp add: order_ok_def)
  show ?thesis
  proof (cases r)
    case (Inr ev)
    then have "edge_call t t' (Some (Inr ev))" using assms(3) by (auto simp: failed_call_def call_event_def)
    then show ?thesis using order_ok_publish [OF assms(1) _ cid] Inr by simp
  next
    case (Inl err)
    then have "failed_call t t' (Some r)" using assms(3) by (auto simp: edge_call_def call_event_def)
    then show ?thesis using order_ok_keep [OF assms(1)] assms(2) Inl by (simp add: failed_call_def)
  qed
qed

lemma transition_reject_state:
  "ot_reject ts t = (t', r) \<Longrightarrow> ot_filled_qty t' = ot_filled_qty t \<and> ot_requested_qty t' = ot_requested_qty t
     \<and> ot_correlation_id t' = ot_correlation_id t \<and> (ot_state t' = ot_state t \<or> ot_state t = Submitted \<and> ot_state t' = Rejected)"
  by (cases "ot_state t") (auto simp: ot_reject_def transition_no_fill_def Let_def split: if_splits)

lemma order_ok_drive_rejected:
  assumes "order_ok cid (Some t) evs"
  shows "order_ok cid (Some (fst (drive_rejected ts t))) evs"
proof (cases "ot_state t = New")
  case True
  then have "fst (drive_rejected ts t) = t\<lparr>ot_state := Rejected\<rparr>"
    by (simp add: drive_rejected_def ot_submit_def ot_reject_def transition_no_fill_def Let_def)
  then show ?thesis using assms True by (auto simp: order_ok_def tracker_inv_def)
next
  case False
  obtain t' r where run: "ot_reject ts t = (t', r)" by fastforce
  then have t': "fst (drive_rejected ts t) = t'"
    using False by (simp add: drive_rejected_def Let_def split: sum.splits)
  from transition_reject_state [OF run] show ?thesis
    using assms unfolding t' by (auto simp: order_ok_def tracker_inv_def)
qed

lemma orders_ok_update:
  assumes "orders_ok e evs" "order_ok cid (Some t') (order_events cid evs @ order_events cid new)"
    "\<And>c. c \<noteq> cid \<Longrightarrow> order_events c new = []"
    "xe_trackers e' = (xe_trackers e)(cid \<mapsto> t')"
  shows "orders_ok e' (evs @ new)"
  using assms by (auto simp: orders_ok_def)

lemma orders_okD: "orders_ok e evs \<Longrightarrow> xe_trackers e cid = Some t \<Longrightarrow> order_ok cid (Some t) (order_events cid evs)"
  by (metis orders_ok_def)

lemma tracker_event_cid: "failed_call t t' (Some r) \<or> edge_call t t' (Some r) \<Longrightarrow> r = Inr ev \<Longrightarrow>
    le_correlation_id ev = ot_correlation_id t'"
  by (auto simp: failed_call_def edge_call_def call_event_def ot_event_def)

lemma handle_submit_ok_orders:
  assumes ok: "orders_ok e evs" and run: "handle_submit_ok cid ack ts e = (e', r)"
  shows "orders_ok e' (evs @ published r)"
proof (cases "xe_trackers e cid")
  case None
  then show ?thesis using assms by (auto simp: handle_submit_ok_def published_def)
next
  case (Some t)
  obtain t' x where t': "ot_submit (Some (sa_broker_order_id ack)) ts t = (t', x)" by fastforce
  have old: "order_ok cid (Some t) (order_events cid evs)" using orders_okD [OF ok Some] .
  have cid: "ot_correlation_id t' = ot_correlation_id t" "ot_correlation_id t = cid"
    using t' old tracker_cid(1) [of Submitted ts "Some (sa_broker_order_id ack)" t]
    by (simp_all add: ot_submit_def order_ok_def)
  have step: "failed_call t t' (Some x) \<or> edge_call t t' (Some x)"
    using t' transition_no_fill_cases by (simp add: ot_submit_def)
  note new = order_ok_call [OF old cid(1) step]
  show ?thesis
  proof (cases x)
    case (Inl err)
    then show ?thesis
      using run Some t' new by (intro orders_ok_update [OF ok, where cid = cid and t' = t'])
        (auto simp: handle_submit_ok_def published_def)
  next
    case (Inr ev)
    have "le_correlation_id ev = cid" using tracker_event_cid [OF step Inr] cid by simp
    then show ?thesis
      using run Some t' new Inr by (intro orders_ok_update [OF ok, where cid = cid and t' = t'])
        (auto simp: handle_submit_ok_def published_def Let_def split: prod.splits)
  qed
qed

lemma handle_submit_err_orders:
  assumes ok: "orders_ok e evs"
  shows "orders_ok (fst (handle_submit_err cid err ts e)) evs"
proof (cases "xe_trackers e cid")
  case None
  then show ?thesis using ok by (simp add: handle_submit_err_def orders_ok_def case_prod_beta Let_def)
next
  case (Some t)
  have "xe_trackers (fst (handle_submit_err cid err ts e)) = (xe_trackers e)(cid \<mapsto> fst (drive_rejected ts t))"
    using Some by (simp add: handle_submit_err_def case_prod_beta Let_def)
  then have "orders_ok (fst (handle_submit_err cid err ts e)) (evs @ [])"
    using order_ok_drive_rejected [OF orders_okD [OF ok Some]] by (intro orders_ok_update [OF ok]) auto
  then show ?thesis by simp
qed

lemma exec_on_fill_orders:
  assumes ok: "orders_ok e evs" and run: "exec_on_fill cid symbol side q p ts e = (e', r)"
  shows "orders_ok e' (evs @ published r)"
proof (cases "xe_trackers e cid")
  case None
  then show ?thesis using assms by (auto simp: exec_on_fill_def published_def)
next
  case (Some t)
  obtain t' x where t': "ot_partial_fill q p ts t = (t', x)" by fastforce
  have old: "order_ok cid (Some t) (order_events cid evs)" using orders_okD [OF ok Some] .
  have cid: "ot_correlation_id t' = ot_correlation_id t" "ot_correlation_id t = cid"
    using t' old tracker_cid(2) [of q p ts t] by (simp_all add: order_ok_def)
  have step: "failed_call t t' (Some x) \<or> edge_call t t' (Some x)"
    using t' by (rule partial_fill_cases)
  note new = order_ok_call [OF old cid(1) step]
  show ?thesis
  proof (cases x)
    case (Inl err)
    then show ?thesis
      using run Some t' new by (intro orders_ok_update [OF ok, where cid = cid and t' = t'])
        (auto simp: exec_on_fill_def published_def)
  next
    case (Inr ev)
    have "le_correlation_id ev = cid" using tracker_event_cid [OF step Inr] cid by simp
    then show ?thesis
      using run Some t' new Inr by (intro orders_ok_update [OF ok, where cid = cid and t' = t'])
        (auto simp: exec_on_fill_def published_def Let_def split: if_splits)
  qed
qed

lemma exec_cancel_orders:
  assumes ok: "orders_ok e evs" and run: "exec_cancel ad cid now e w = (e', w', r)"
  shows "orders_ok e' (evs @ published (map_sum id (\<lambda>ev. [ev]) r))"
proof (cases "xe_trackers e cid")
  case None
  then show ?thesis using assms by (auto simp: exec_cancel_def published_def)
next
  case (Some t)
  obtain t' x where t': "ot_cancel now t = (t', x)" by fastforce
  obtain w1 y where w1: "ad_cancel ad (br_active (xe_router e)) (case ot_broker_order_id t of Some i \<Rightarrow> i | None \<Rightarrow> []) w = (w1, y)"
    by fastforce
  have old: "order_ok cid (Some t) (order_events cid evs)" using orders_okD [OF ok Some] .
  have cid: "ot_correlation_id t' = ot_correlation_id t" "ot_correlation_id t = cid"
    using t' old tracker_cid(1) [of Cancelled now None t] by (simp_all add: ot_cancel_def order_ok_def)
  have step: "failed_call t t' (Some x) \<or> edge_call t t' (Some x)"
    using t' transition_no_fill_cases by (simp add: ot_cancel_def)
  note new = order_ok_call [OF old cid(1) step]
  show ?thesis
  proof (cases y)
    case (Inl err)
    then show ?thesis using run Some w1 ok by (auto simp: exec_cancel_def published_def)
  next
    case y: (Inr u)
    show ?thesis
    proof (cases x)
      case (Inl err)
      then show ?thesis
        using run Some t' w1 y new by (intro orders_ok_update [OF ok, where cid = cid and t' = t'])
          (auto simp: exec_cancel_def published_def)
    next
      case (Inr ev)
      have "le_correlation_id ev = cid" using tracker_event_cid [OF step Inr] cid by simp
      then show ?thesis
        using run Some t' w1 y new Inr by (intro orders_ok_update [OF ok, where cid = cid and t' = t'])
          (auto simp: exec_cancel_def published_def)
    qed
  qed
qed

lemma exec_submit_orders:
  assumes ok: "orders_ok e evs" and run: "exec_submit hmac ad nx rq e env = (e', env', r)"
  shows "orders_ok e' (evs @ published r)"
  using run
proof (cases rule: exec_submit_cases)
  case (routed i)
  note ok1 = orders_ok_admitted [OF ok, of rq]
  show ?thesis
    using routed(4)
  proof (cases rule: submit_route_cases)
    case (acked ack w j sl)
    then show ?thesis using handle_submit_ok_orders [OF ok1] by metis
  next
    case (failed err w j sl)
    then show ?thesis using handle_submit_err_orders [OF ok1] by (simp add: published_def)
  qed
qed (use ok orders_ok_admitted in \<open>auto simp: published_def\<close>)

lemma do_calls_orders:
  "do_calls hmac ad nx cs e env = (e', env', new) \<Longrightarrow> orders_ok e evs \<Longrightarrow> orders_ok e' (evs @ new)"
proof (induction cs arbitrary: e env evs new)
  case (Cons c cs)
  obtain e1 env1 evs1 evs2 where run: "do_call hmac ad nx c e env = (e1, env1, evs1)"
    "do_calls hmac ad nx cs e1 env1 = (e', env', evs2)" "new = evs1 @ evs2"
    using Cons.prems(1) by (auto split: prod.splits simp: Let_def)
  have "orders_ok e1 (evs @ evs1)"
    using run(1) Cons.prems(2) exec_submit_orders exec_on_fill_orders exec_cancel_orders
    by (cases c) (auto split: prod.splits)
  then show ?case using Cons.IH [OF run(2), of "evs @ evs1"] run(3) by simp
qed simp

subsection \<open>Fills\<close>

fun fill_qty_of :: "correlation_id \<Rightarrow> engine_event \<Rightarrow> nat" where
  "fill_qty_of cid (EventFill f) = (if fl_correlation_id f = cid then unat (fl_filled_qty f) else 0)"
| "fill_qty_of cid _ = 0"

definition total_fill :: "correlation_id \<Rightarrow> engine_event list \<Rightarrow> nat" where
  "total_fill cid evs = (\<Sum>e\<leftarrow>evs. fill_qty_of cid e)"

definition filled_of :: "correlation_id \<Rightarrow> exec_engine \<Rightarrow> nat" where
  "filled_of cid e = (case xe_trackers e cid of Some t \<Rightarrow> unat (ot_filled_qty t) | None \<Rightarrow> 0)"

lemma total_fill_simps [simp]:
  "total_fill cid [] = 0" "total_fill cid (e # evs) = fill_qty_of cid e + total_fill cid evs"
  "total_fill cid (xs @ ys) = total_fill cid xs + total_fill cid ys"
  "total_fill cid (failover_events f) = 0"
  by (simp_all add: total_fill_def failover_events_def) (cases f; simp)

lemma transition_filled [simp]: "ot_filled_qty (fst (transition_no_fill s ts oid t)) = ot_filled_qty t"
  by (auto simp: transition_no_fill_def Let_def split: if_splits option.splits)

lemma transition_filledD: "transition_no_fill s ts oid t = (t', r) \<Longrightarrow> ot_filled_qty t' = ot_filled_qty t"
  using transition_filled [of s ts oid t] by simp

lemma drive_rejected_fst:
  "fst (drive_rejected ts t) = fst (ot_reject ts (if ot_state t = New then fst (ot_submit None ts t) else t))"
  by (simp add: drive_rejected_def case_prod_beta Let_def split: sum.splits)

lemma drive_rejected_filled [simp]: "ot_filled_qty (fst (drive_rejected ts t)) = ot_filled_qty t"
  by (simp add: drive_rejected_fst ot_submit_def ot_reject_def)

lemma filled_of_upd:
  "xe_trackers e c = Some t \<Longrightarrow> ot_filled_qty t' = ot_filled_qty t \<Longrightarrow> xe_trackers e' = (xe_trackers e)(c \<mapsto> t') \<Longrightarrow>
     filled_of cid e' = filled_of cid e"
  by (simp add: filled_of_def)

lemma filled_of_transition:
  "transition_no_fill s ts oid t = (t', r) \<Longrightarrow> xe_trackers e c = Some t \<Longrightarrow> xe_trackers e' = (xe_trackers e)(c \<mapsto> t') \<Longrightarrow>
     filled_of cid e' = filled_of cid e"
  by (erule filled_of_upd [OF _ transition_filledD])

lemma handle_submit_fills:
  "handle_submit_ok c ack ts e = (e', r) \<Longrightarrow> filled_of cid e' = filled_of cid e \<and> total_fill cid (published r) = 0"
  by (auto simp: handle_submit_ok_def published_def ot_submit_def Let_def
      split: option.splits prod.splits sum.splits elim!: filled_of_transition)

lemma handle_submit_err_fills: "filled_of cid (fst (handle_submit_err c err ts e)) = filled_of cid e"
proof (cases "xe_trackers e c")
  case None
  then show ?thesis by (simp add: handle_submit_err_def filled_of_def case_prod_beta Let_def)
next
  case (Some t)
  then show ?thesis
    by (rule filled_of_upd [where t' = "fst (drive_rejected ts t)"])
      (simp_all add: Some handle_submit_err_def case_prod_beta Let_def)
qed

lemma admitted_filled [simp]: "filled_of cid (admitted rq e) = filled_of cid e"
  by (auto simp: filled_of_def admitted_def ot_new_def split: option.splits)

lemma exec_submit_fills:
  assumes run: "exec_submit hmac ad nx rq e env = (e', env', r)"
  shows "filled_of cid e' = filled_of cid e \<and> total_fill cid (published r) = 0"
  using run
proof (cases rule: exec_submit_cases)
  case (routed i)
  show ?thesis
    using routed(4)
  proof (cases rule: submit_route_cases)
    case (acked ack w j sl)
    then show ?thesis using handle_submit_fills [of _ _ _ "admitted rq e" e' r cid] by (metis admitted_filled)
  next
    case (failed err w j sl)
    then show ?thesis by (simp add: handle_submit_err_fills published_def)
  qed
qed (simp_all add: published_def)

lemma exec_on_fill_fills:
  assumes "exec_on_fill c symbol side q p ts e = (e', r)"
  shows "filled_of cid e' = filled_of cid e + total_fill cid (published r)"
proof (cases "xe_trackers e c")
  case (Some t)
  obtain t' x where t': "ot_partial_fill q p ts t = (t', x)" by fastforce
  show ?thesis
  proof (cases x)
    case (Inl err)
    then have "ot_filled_qty t' = ot_filled_qty t"
      using partial_fill_cases [OF t'] by (auto simp: failed_call_def edge_call_def call_event_def)
    then show ?thesis using assms Some t' Inl by (auto simp: exec_on_fill_def filled_of_def published_def)
  next
    case (Inr ev)
    have f: "ot_filled_qty t' = q" "ot_filled_qty t \<le> q"
      using t' Inr by (auto simp: ot_partial_fill_def Let_def split: if_splits)
    then have "unat q = unat (ot_filled_qty t) + unat (usat_sub q (ot_filled_qty t))"
      by (simp add: unat_usat_sub word_le_nat_alt)
    then show ?thesis
      using assms Some t' Inr f by (auto simp: exec_on_fill_def filled_of_def published_def Let_def split: if_splits)
  qed
qed (use assms in \<open>auto simp: exec_on_fill_def published_def\<close>)

lemma exec_cancel_fills:
  assumes "exec_cancel ad c now e w = (e', w', r)"
  shows "filled_of cid e' = filled_of cid e \<and> total_fill cid (published (map_sum id (\<lambda>ev. [ev]) r)) = 0"
  using assms
  by (auto simp: exec_cancel_def published_def ot_cancel_def elim!: filled_of_transition
      split: option.splits prod.splits sum.splits)

lemma do_call_fills:
  assumes "do_call hmac ad nx c e env = (e1, env1, evs)"
  shows "filled_of cid e1 = filled_of cid e + total_fill cid evs"
proof (cases c)
  case (DoSubmit rq)
  obtain e2 env2 r where "exec_submit hmac ad nx rq e env = (e2, env2, r)" by (metis prod_cases3)
  then show ?thesis using assms DoSubmit exec_submit_fills by fastforce
next
  case (DoFill c symbol side q p ts)
  obtain e2 r where "exec_on_fill c symbol side q p ts e = (e2, r)" by fastforce
  then show ?thesis using assms DoFill exec_on_fill_fills by simp
next
  case (DoCancel c now)
  obtain e2 w2 r where "exec_cancel ad c now e (ev_world env) = (e2, w2, r)" by (metis prod_cases3)
  then show ?thesis using assms DoCancel exec_cancel_fills by fastforce
qed

lemma do_calls_fills:
  "do_calls hmac ad nx cs e env = (e', env', new) \<Longrightarrow> filled_of cid e' = filled_of cid e + total_fill cid new"
proof (induction cs arbitrary: e env new)
  case (Cons c cs)
  obtain e1 env1 evs1 evs2 where run: "do_call hmac ad nx c e env = (e1, env1, evs1)"
    "do_calls hmac ad nx cs e1 env1 = (e', env', evs2)" "new = evs1 @ evs2"
    using Cons.prems(1) by (auto split: prod.splits simp: Let_def)
  have "filled_of cid e1 = filled_of cid e + total_fill cid evs1"
    using run(1) by (rule do_call_fills)
  then show ?case using Cons.IH [OF run(2)] run(3) by simp
qed simp

subsection \<open>Failover and exhausted retries\<close>

lemma retry_loop_exhausts:
  assumes "\<And>a w. \<exists>err w'. op a w = (Inl err, w') \<and> exec_is_retryable err"
  shows "\<exists>m w' j' sl'. retry_loop p nx op mx n a le w j sl = (Inl (RetryExhausted mx m), w', j', sl')"
proof (induction n arbitrary: a le w j sl)
  case (Suc n)
  obtain err w' where "op a w = (Inl err, w')" "exec_is_retryable err" using assms by blast
  then show ?case using Suc.IH by (auto simp: case_prod_beta Let_def)
qed simp

definition always_retryable :: "'w adapters \<Rightarrow> bool" where
  "always_retryable ad \<longleftrightarrow> (\<forall>slot i w. \<exists>w' err. ad_submit ad slot i w = (w', Inl err) \<and> broker_is_retryable err)"

lemma submit_op_retryable:
  "always_retryable ad \<Longrightarrow> \<exists>err w'. submit_op ad slot bid i a w = (Inl err, w') \<and> exec_is_retryable err"
proof -
  assume "always_retryable ad"
  then obtain w' err where "ad_submit ad slot i w = (w', Inl err)" "broker_is_retryable err" unfolding always_retryable_def by blast
  then show ?thesis by (simp add: submit_op_def)
qed

lemma submit_exhausts:
  assumes "always_retryable ad" "submit_admit hmac rq e = (ea, Inr x)"
  shows "\<exists>m. snd (snd (exec_submit hmac ad nx rq e env)) = Inl (RetryExhausted (max (max_attempts (xe_retry_policy ea)) 1) m)"
proof -
  obtain slot bid i where x: "x = (slot, bid, i)" by (metis prod_cases3)
  note ex = retry_loop_exhausts [where op = "submit_op ad slot bid i", OF submit_op_retryable [OF assms(1)]]
  have "\<exists>m w j sl. retry_with_backoff (xe_retry_policy ea) nx (submit_op ad slot bid i) (ev_world env) (ev_jitter env)
      = (Inl (RetryExhausted (max (max_attempts (xe_retry_policy ea)) 1) m), w, j, sl)"
    unfolding retry_with_backoff_def Let_def by (rule ex)
  then obtain m w j sl where "retry_with_backoff (xe_retry_policy ea) nx (submit_op ad slot bid i) (ev_world env) (ev_jitter env)
      = (Inl (RetryExhausted (max (max_attempts (xe_retry_policy ea)) 1) m), w, j, sl)" by blast
  then show ?thesis by (simp add: exec_submit_def assms(2) x submit_route_def Let_def)
qed

lemma exec_submit_router:
  assumes bad: "always_retryable ad" and run: "exec_submit hmac ad nx rq e env = (e', env', r)"
  shows "xe_router e' = xe_router e \<and> (\<exists>err. r = Inl err)"
  using run
proof (cases rule: exec_submit_cases)
  case (routed i)
  note op = submit_op_retryable [OF bad]
  show ?thesis
    using routed(4)
  proof (cases rule: submit_route_cases)
    case (acked ack w j sl)
    then show ?thesis
      using retry_loop_exhausts [where op = "submit_op ad (br_active (xe_router e)) (active_id (xe_router e)) i", OF op]
      unfolding retry_with_backoff_def Let_def by (metis Inl_Inr_False fst_conv)
  next
    case (failed err w j sl)
    then obtain mx m where "err = RetryExhausted mx m"
      using retry_loop_exhausts [where op = "submit_op ad (br_active (xe_router e)) (active_id (xe_router e)) i", OF op]
      unfolding retry_with_backoff_def Let_def by (metis fst_conv sum.inject(1))
    then show ?thesis
      using failed by (auto simp: handle_submit_err_def Let_def case_prod_beta split: option.splits)
  qed
qed simp_all

lemma do_calls_router:
  "always_retryable ad \<Longrightarrow> do_calls hmac ad nx cs e env = (e', env', new) \<Longrightarrow> xe_router e' = xe_router e"
proof (induction cs arbitrary: e env new)
  case (Cons c cs)
  obtain e1 env1 evs1 evs2 where run: "do_call hmac ad nx c e env = (e1, env1, evs1)"
    "do_calls hmac ad nx cs e1 env1 = (e', env', evs2)"
    using Cons.prems(2) by (auto split: prod.splits simp: Let_def)
  have "xe_router e1 = xe_router e"
    using run(1) exec_submit_router [OF Cons.prems(1), of hmac nx _ e env]
    by (cases c) (force simp: exec_on_fill_def exec_cancel_def Let_def split: prod.splits option.splits sum.splits if_splits)+
  then show ?case using Cons.IH [OF Cons.prems(1) run(2)] by simp
qed simp

section \<open>Both slots on simulated brokers (replay mode)\<close>

definition sim_adapters :: "request_clock \<Rightarrow> (sim_broker \<times> sim_broker) adapters" where
  "sim_adapters ck = \<lparr>
     ad_submit = (\<lambda>slot i (p, b). case slot of
        Primary \<Rightarrow> (let (p', r) = sim_submit ck i p in ((p', b), r))
      | Backup \<Rightarrow> (let (b', r) = sim_submit ck i b in ((p, b'), r))),
     ad_cancel = (\<lambda>slot oid (p, b). case slot of
        Primary \<Rightarrow> (let (p', r) = sim_cancel ck oid p in ((p', b), r))
      | Backup \<Rightarrow> (let (b', r) = sim_cancel ck oid b in ((p, b'), r)))\<rparr>"

definition sample_exec :: exec_engine where
  "sample_exec = xe_new (router_new Dhan Zerodha \<lparr>th_error_rate_bps = 2000, th_p99_latency_ms = 500, th_min_samples = 8\<rparr>)
     [1] default_retry_policy ReplayOn"

definition sample_submit :: submit_request where
  "sample_submit = \<lparr>sr_token = approval_sign (\<lambda>k m. k @ m) [1] (sample_intent 5) 5 9 1, sr_intent = sample_intent 5,
     sr_sized_quantity = 5, sr_ts_ns = 9, sr_sequence = 1, sr_start = 10, sr_submit_now = 20, sr_end = 30\<rparr>"

definition sample_env :: "'w \<Rightarrow> ('w, unit) exec_env" where
  "sample_env w = \<lparr>ev_world = w, ev_jitter = (), ev_sleeps = [], ev_latency = []\<rparr>"

lemma sample_submit_ok: "request_verified (\<lambda>k m. k @ m) (xe_verifier_key sample_exec) sample_submit"
  "sr_token sample_submit \<notin> xe_consumed_tokens sample_exec"
  by (simp_all add: request_verified_def sample_exec_def sample_submit_def xe_new_def approval_verify_def approval_sign_def)

section \<open>Properties\<close>

text \<open>C2: No order without an approval. Over any sequence of submissions, fills and cancellations and
  whatever the brokers answer, every order handed to a broker is the translation of a request whose
  token verifies under the engine's key and was not consumed before; and the brokers are called at
  most \<open>max_attempts\<close> times per distinct such token, however often it is presented.\<close>

theorem broker_contact_authorised:
  assumes "do_calls hmac (logged ad) nx cs e env = (e', env', evs)"
    and "ev_world env = (w, [])" and "ev_world env' = (w', lg)"
  shows "(\<forall>(slot, i) \<in> set lg. \<exists>rq. DoSubmit rq \<in> set cs \<and> request_verified hmac (xe_verifier_key e) rq
      \<and> sr_token rq \<notin> xe_consumed_tokens e \<and> translate_intent (sr_intent rq) (sr_sized_quantity rq) = Inr i)
    \<and> (length lg \<le> unat (max (max_attempts (xe_retry_policy e)) 1) * card (sr_token ` fresh_requests hmac e cs))"
  using do_calls_log [OF assms(1,2)] assms(3)
  by (intro conjI) (fastforce simp: fresh_requests_def, fastforce simp: attempts_def)

theorem broker_contact_authorised_witness:
  "\<exists>e' env' evs w' lg. do_calls (\<lambda>k m. k @ m) (logged (sim_adapters sample_request)) no_jitter_next
      [DoSubmit sample_submit, DoSubmit sample_submit] sample_exec (sample_env ((sample_broker, sample_broker), []))
      = (e', env', evs) \<and> ev_world env' = (w', lg)
    \<and> length lg \<le> unat (max (max_attempts (xe_retry_policy sample_exec)) 1)
        * card (sr_token ` fresh_requests (\<lambda>k m. k @ m) sample_exec [DoSubmit sample_submit, DoSubmit sample_submit])"
proof -
  obtain e' env' evs where run: "do_calls (\<lambda>k m. k @ m) (logged (sim_adapters sample_request)) no_jitter_next
      [DoSubmit sample_submit, DoSubmit sample_submit] sample_exec (sample_env ((sample_broker, sample_broker), [])) = (e', env', evs)"
    by (metis prod_cases3)
  obtain w' lg where w': "ev_world env' = (w', lg)" by (metis surj_pair)
  have w: "ev_world (sample_env ((sample_broker, sample_broker), [])) = ((sample_broker, sample_broker), [])"
    by (simp add: sample_env_def)
  show ?thesis using broker_contact_authorised [OF run w w'] run w' by blast
qed

text \<open>C13: Tokens are single-use and checked before anything else. A submission with an invalid token
  returns \<open>InvalidApprovalToken\<close>, one with a consumed token \<open>DuplicateToken\<close>, both without touching
  the engine or the brokers; any submission with a valid token consumes it, so that presenting the
  request again, whatever happened to it, is refused as a duplicate.\<close>

theorem token_single_use:
  assumes "exec_submit hmac ad nx rq e env = (e', env', r)"
  shows "(\<not> request_verified hmac (xe_verifier_key e) rq \<longrightarrow>
      r = Inl (InvalidApprovalToken (cid_to_hex (request_cid rq))) \<and> e' = e \<and> ev_world env' = ev_world env)
    \<and> (request_verified hmac (xe_verifier_key e) rq \<and> sr_token rq \<in> xe_consumed_tokens e \<longrightarrow>
      r = Inl (DuplicateToken (cid_to_hex (request_cid rq))) \<and> e' = e \<and> ev_world env' = ev_world env)
    \<and> (request_verified hmac (xe_verifier_key e) rq \<longrightarrow>
      (\<exists>env''. exec_submit hmac ad nx rq e' env' = (e', env'', Inl (DuplicateToken (cid_to_hex (request_cid rq))))
         \<and> ev_world env'' = ev_world env'))"
proof (intro conjI)
  show "\<not> request_verified hmac (xe_verifier_key e) rq \<longrightarrow>
      r = Inl (InvalidApprovalToken (cid_to_hex (request_cid rq))) \<and> e' = e \<and> ev_world env' = ev_world env"
    "request_verified hmac (xe_verifier_key e) rq \<and> sr_token rq \<in> xe_consumed_tokens e \<longrightarrow>
      r = Inl (DuplicateToken (cid_to_hex (request_cid rq))) \<and> e' = e \<and> ev_world env' = ev_world env"
    using assms by (cases rule: exec_submit_cases; simp)+
  have "request_verified hmac (xe_verifier_key e) rq \<Longrightarrow> sr_token rq \<in> xe_consumed_tokens e'"
    using assms by (cases rule: exec_submit_cases) (auto dest: submit_route_frame(3))
  then show "request_verified hmac (xe_verifier_key e) rq \<longrightarrow>
      (\<exists>env''. exec_submit hmac ad nx rq e' env' = (e', env'', Inl (DuplicateToken (cid_to_hex (request_cid rq))))
         \<and> ev_world env'' = ev_world env')"
    using exec_submit_frame(1) [OF assms] by (auto simp: exec_submit_def admit_rejected(2))
qed

theorem token_single_use_witness:
  "\<exists>e' env' r env''. exec_submit (\<lambda>k m. k @ m) (sim_adapters sample_request) no_jitter_next sample_submit sample_exec
      (sample_env (sample_broker, sample_broker)) = (e', env', r)
    \<and> exec_submit (\<lambda>k m. k @ m) (sim_adapters sample_request) no_jitter_next sample_submit e' env'
        = (e', env'', Inl (DuplicateToken (cid_to_hex (request_cid sample_submit))))"
proof -
  obtain e' env' r where run: "exec_submit (\<lambda>k m. k @ m) (sim_adapters sample_request) no_jitter_next sample_submit sample_exec
      (sample_env (sample_broker, sample_broker)) = (e', env', r)"
    by (metis prod_cases3)
  show ?thesis using run token_single_use [OF run] sample_submit_ok(1) by blast
qed

text \<open>C6: What the engine publishes about an order is a life of that order. Over any sequence of calls
  on a fresh engine and whatever the brokers answer, the lifecycle events published for a
  correlation id trace a path of the FSM diagram from \<open>New\<close>, nothing follows a terminal state, and
  the cumulative quantities never decrease.\<close>

theorem published_lifecycle_legal:
  assumes "do_calls hmac ad nx cs (xe_new router key policy replay) env = (e', env', evs)"
    and "order = order_events cid evs"
  shows "(legal_path New (map le_state order))
    \<and> (sorted (map le_filled_qty order))
    \<and> (\<forall>i < length order. is_terminal (le_state (order ! i)) \<longrightarrow> Suc i = length order)"
proof -
  have "orders_ok (xe_new router key policy replay) []"
    by (simp add: orders_ok_def xe_new_def order_ok_def)
  then have ok: "order_ok cid (xe_trackers e' cid) order"
    using do_calls_orders [OF assms(1), of "[]"] assms(2) by (simp add: orders_ok_def)
  then have path: "legal_path New (map le_state order)" and "sorted (map le_filled_qty order)"
    by (simp_all add: order_ok_def)
  then show ?thesis using legal_path_terminal_last [OF path] by simp
qed

theorem published_lifecycle_legal_witness:
  "\<exists>e' env' evs. do_calls (\<lambda>k m. k @ m) (sim_adapters sample_request) no_jitter_next [DoSubmit sample_submit, DoCancel 7 40]
      sample_exec (sample_env (sample_broker, sample_broker)) = (e', env', evs)
    \<and> legal_path New (map le_state (order_events 7 evs))"
proof -
  obtain e' env' evs where run: "do_calls (\<lambda>k m. k @ m) (sim_adapters sample_request) no_jitter_next [DoSubmit sample_submit, DoCancel 7 40]
      sample_exec (sample_env (sample_broker, sample_broker)) = (e', env', evs)"
    by (metis prod_cases3)
  show ?thesis using run published_lifecycle_legal [OF run [unfolded sample_exec_def] refl, of 7] by blast
qed

text \<open>C27: Fills are exact deltas. Over any sequence of calls on a fresh engine the \<open>Fill\<close> payloads
  published for an order add up to the cumulative quantity in its tracker, and so never exceed the
  quantity the order was requested with; an order without a tracker has no fill.\<close>

theorem fill_deltas_sum:
  assumes "do_calls hmac ad nx cs (xe_new router key policy replay) env = (e', env', evs)"
  shows "case xe_trackers e' cid of None \<Rightarrow> total_fill cid evs = 0
    | Some t \<Rightarrow> total_fill cid evs = unat (ot_filled_qty t) \<and> total_fill cid evs \<le> unat (ot_requested_qty t)"
proof -
  have "orders_ok (xe_new router key policy replay) []"
    by (simp add: orders_ok_def xe_new_def order_ok_def)
  then have ok: "order_ok cid (xe_trackers e' cid) (order_events cid evs)"
    using do_calls_orders [OF assms, of "[]"] by (simp add: orders_ok_def)
  have "filled_of cid e' = total_fill cid evs"
    using do_calls_fills [OF assms, of cid] by (simp add: filled_of_def xe_new_def)
  then show ?thesis
    using ok by (auto simp: filled_of_def order_ok_def tracker_inv_def word_le_nat_alt split: option.splits)
qed

definition ack_adapters :: "unit adapters" where
  "ack_adapters = \<lparr>ad_submit = (\<lambda>_ _ w. (w, Inr \<lparr>sa_broker_order_id = ''A1'', sa_broker_ts_ns = None\<rparr>)),
     ad_cancel = (\<lambda>_ _ w. (w, Inr ()))\<rparr>"

lemma sample_submit_acked:
  "\<exists>env' evs. exec_submit (\<lambda>k m. k @ m) ack_adapters no_jitter_next sample_submit sample_exec (sample_env ()) =
     (sample_exec\<lparr>xe_consumed_tokens := {sr_token sample_submit},
        xe_trackers := [request_cid sample_submit \<mapsto> (ot_new (request_cid sample_submit) Dhan 5)
           \<lparr>ot_state := Submitted, ot_broker_order_id := Some ''A1''\<rparr>],
        xe_router := fst (record_outcome Success 0 20 (xe_router sample_exec))\<rparr>, env', Inr evs)"
proof -
  have tr: "translate_intent (sr_intent sample_submit) (sr_sized_quantity sample_submit) =
      Inr \<lparr>bi_correlation_id = request_cid sample_submit, bi_symbol_raw = 3, bi_side = Buy, bi_quantity = 5,
           bi_order_type = Market, bi_limit_paise = 0, bi_exchange = Nse\<rparr>"
    by (simp add: translate_intent_def sample_submit_def sample_intent_def order_type_from_u8_def exchange_from_i8_def request_cid_def)
  have retry: "retry_with_backoff (xe_retry_policy sample_exec) no_jitter_next (submit_op ack_adapters slot bid i) () () =
      (Inr \<lparr>sa_broker_order_id = ''A1'', sa_broker_ts_ns = None\<rparr>, (), (), [])" for slot bid i
    by (rule retry_first_success) (simp add: submit_op_def ack_adapters_def)
  have eng: "xe_trackers sample_exec = (\<lambda>_. None)" "active_id (xe_router sample_exec) = Dhan" "xe_consumed_tokens sample_exec = {}"
    "sr_sized_quantity sample_submit = 5" "sr_submit_now sample_submit = 20"
    by (simp_all add: sample_exec_def xe_new_def active_id_def slot_id_def router_new_def sample_submit_def)
  show ?thesis
    using retry tr eng
    by (simp add: exec_submit_def admit_fresh [OF sample_submit_ok] submit_route_def handle_submit_ok_def admitted_def Let_def
        ot_submit_def transition_no_fill_def ot_new_def sample_env_def case_prod_beta)
qed

theorem fill_deltas_sum_witness:
  "\<exists>e' env' evs. do_calls (\<lambda>k m. k @ m) ack_adapters no_jitter_next
      [DoSubmit sample_submit, DoFill (request_cid sample_submit) 3 0 2 100 40, DoFill (request_cid sample_submit) 3 0 5 110 50]
      sample_exec (sample_env ()) = (e', env', evs) \<and> total_fill (request_cid sample_submit) evs = 5"
proof -
  let ?c = "request_cid sample_submit"
  let ?cs = "[DoSubmit sample_submit, DoFill ?c 3 0 2 100 40, DoFill ?c 3 0 5 110 50]"
  obtain e' env' evs where run: "do_calls (\<lambda>k m. k @ m) ack_adapters no_jitter_next ?cs sample_exec (sample_env ()) = (e', env', evs)"
    by (metis prod_cases3)
  have "\<exists>t. xe_trackers e' ?c = Some t \<and> ot_filled_qty t = 5"
    using run sample_submit_acked by (auto simp: exec_on_fill_def ot_partial_fill_def ot_new_def usat_sub_def Let_def)
  then show ?thesis
    using run fill_deltas_sum [OF run [unfolded sample_exec_def], of ?c] by auto
qed

text \<open>The price of a published fill. When the cumulative notionals stay below $2^{62}$ paise nothing
  wraps: the fill carries the quantity delta, and the notional of the previous fills plus this one
  differs from the broker's cumulative notional by less than one paisa per share.\<close>

theorem fill_delta_price:
  assumes "xe_trackers e cid = Some t" and "exec_on_fill cid symbol side q p ts e = (e', Inr [l, EventFill f])"
    and "\<bar>p * uint q\<bar> < 4611686018427387904" and "\<bar>ot_avg_fill_paise t * uint (ot_filled_qty t)\<bar> < 4611686018427387904"
  shows "(uint (fl_filled_qty f) = uint q - uint (ot_filled_qty t))
    \<and> (\<bar>ot_avg_fill_paise t * uint (ot_filled_qty t) + fl_avg_fill_paise f * uint (fl_filled_qty f) - p * uint q\<bar> < uint (fl_filled_qty f))"
proof -
  define a b d where "a = p * uint q" and "b = ot_avg_fill_paise t * uint (ot_filled_qty t)"
    and "d = usat_sub q (ot_filled_qty t)"
  obtain t' ev where t': "ot_partial_fill q p ts t = (t', Inr ev)"
    using assms(1,2) by (auto simp: exec_on_fill_def split: prod.splits sum.splits)
  then have le: "ot_filled_qty t \<le> q" by (auto simp: ot_partial_fill_def split: if_splits)
  have f: "fl_filled_qty f = d" "d \<noteq> 0"
    "fl_avg_fill_paise f = wrap_i64 (wrap_i128 (wrap_i128 a - wrap_i128 b) sdiv uint d)"
    using assms(1,2) t' by (auto simp: exec_on_fill_def Let_def a_def b_def d_def split: if_splits)
  have ab: "\<bar>a\<bar> < 4611686018427387904" "\<bar>b\<bar> < 4611686018427387904" using assms(3,4) by (simp_all add: a_def b_def)
  have d: "0 < uint d" using f(2) uint_ge_0 [of d] by (simp add: order_less_le uint_0_iff)
  have w: "wrap_i128 a = a" "wrap_i128 b = b" "wrap_i128 (a - b) = a - b"
    using ab by (auto simp: i128_defs intro!: wrap_i128_id)
  have quot: "- 9223372036854775808 \<le> (a - b) sdiv uint d" "(a - b) sdiv uint d \<le> 9223372036854775807"
  proof -
    have "9223372036854775807 * 1 \<le> 9223372036854775807 * uint d" using d by (intro mult_left_mono) simp_all
    then have "- 9223372036854775808 * uint d \<le> a - b" "a - b \<le> 9223372036854775807 * uint d"
      using ab d by linarith+
    then show "- 9223372036854775808 \<le> (a - b) sdiv uint d" "(a - b) sdiv uint d \<le> 9223372036854775807"
      using sdiv_between [OF d] by blast+
  qed
  then have px: "fl_avg_fill_paise f = (a - b) sdiv uint d"
    using w by (simp add: f(3) i64_defs)
  have "uint (fl_filled_qty f) = uint q - uint (ot_filled_qty t)"
    using le by (simp add: f(1) d_def usat_sub_def uint_minus_simple_alt word_le_def)
  moreover have "\<bar>ot_avg_fill_paise t * uint (ot_filled_qty t) + fl_avg_fill_paise f * uint (fl_filled_qty f) - p * uint q\<bar> < uint (fl_filled_qty f)"
    using sdiv_error [OF d, of "a - b"] unfolding px f(1) a_def [symmetric] b_def [symmetric] by linarith
  ultimately show ?thesis by simp
qed

definition sample_filling :: exec_engine where
  "sample_filling = sample_exec\<lparr>xe_trackers := [7 \<mapsto> (ot_new 7 Dhan 5)\<lparr>ot_state := PartiallyFilled, ot_filled_qty := 2, ot_avg_fill_paise := 100\<rparr>]\<rparr>"

theorem fill_delta_price_witness:
  "\<exists>e' l f. exec_on_fill 7 3 0 5 110 50 sample_filling = (e', Inr [l, EventFill f])
     \<and> uint (fl_filled_qty f) = 3 \<and> \<bar>200 + fl_avg_fill_paise f * uint (fl_filled_qty f) - 550\<bar> < 3"
proof -
  have t: "xe_trackers sample_filling 7 = Some ((ot_new 7 Dhan 5)\<lparr>ot_state := PartiallyFilled, ot_filled_qty := 2, ot_avg_fill_paise := 100\<rparr>)"
    by (simp add: sample_filling_def)
  obtain e' l f where run: "exec_on_fill 7 3 0 5 110 50 sample_filling = (e', Inr [l, EventFill f])"
    by (simp add: exec_on_fill_def t ot_partial_fill_def ot_new_def usat_sub_def Let_def)
  show ?thesis using run fill_delta_price [OF t run] by (auto simp: ot_new_def)
qed

text \<open>C37: Exhausted retries never count towards failover. Suppose the brokers answer every submission with a retryable error
  (transient or network). Then no sequence of calls changes the router, so an outage never moves the engine to the backup; and a
  submission that is admitted in the state reached returns \<open>RetryExhausted\<close> with the configured number of attempts, an
  error that \<open>counts_toward_failover\<close> ignores.\<close>

theorem outage_never_fails_over:
  assumes "always_retryable ad" and "do_calls hmac ad nx cs e env = (e', env', evs)"
  shows "xe_router e' = xe_router e
    \<and> (submit_admit hmac rq e' = (ea, Inr x) \<longrightarrow>
        (\<exists>m. snd (snd (exec_submit hmac ad nx rq e' env')) = Inl (RetryExhausted (max (max_attempts (xe_retry_policy ea)) 1) m)
           \<and> \<not> exec_counts_toward_failover (RetryExhausted (max (max_attempts (xe_retry_policy ea)) 1) m)))"
  using do_calls_router [OF assms] submit_exhausts [OF assms(1), of hmac rq e' ea x nx env'] by auto

definition dead_adapters :: "unit adapters" where
  "dead_adapters = \<lparr>ad_submit = (\<lambda>_ _ w. (w, Inl (BrokerNetwork ''connection refused''))),
     ad_cancel = (\<lambda>_ _ w. (w, Inl (BrokerNetwork ''connection refused'')))\<rparr>"

lemma sample_admitted: "\<exists>i. submit_admit (\<lambda>k m. k @ m) sample_submit sample_exec = (admitted sample_submit sample_exec, Inr i)"
  by (simp add: admit_fresh [OF sample_submit_ok] translate_intent_def)
    (simp add: sample_submit_def sample_intent_def order_type_from_u8_def exchange_from_i8_def)

theorem outage_never_fails_over_witness:
  "br_active (xe_router (fst (do_calls (\<lambda>k m. k @ m) dead_adapters no_jitter_next (replicate 100 (DoSubmit sample_submit))
     sample_exec (sample_env ())))) = Primary
   \<and> (\<exists>m. snd (snd (exec_submit (\<lambda>k m. k @ m) dead_adapters no_jitter_next sample_submit sample_exec (sample_env ()))) = Inl (RetryExhausted 3 m))"
proof -
  have bad: "always_retryable dead_adapters" by (simp add: always_retryable_def dead_adapters_def)
  obtain e' env' evs where run: "do_calls (\<lambda>k m. k @ m) dead_adapters no_jitter_next (replicate 100 (DoSubmit sample_submit))
     sample_exec (sample_env ()) = (e', env', evs)"
    by (metis prod_cases3)
  have prim: "br_active (xe_router e') = Primary"
    using outage_never_fails_over [OF bad run] by (simp add: sample_exec_def xe_new_def router_new_def)
  have none: "do_calls (\<lambda>k m. k @ m) dead_adapters no_jitter_next [] sample_exec (sample_env ()) = (sample_exec, sample_env (), [])" by simp
  obtain i where "submit_admit (\<lambda>k m. k @ m) sample_submit sample_exec = (admitted sample_submit sample_exec, Inr i)" using sample_admitted ..
  moreover have "max (max_attempts (xe_retry_policy (admitted sample_submit sample_exec))) 1 = 3"
    by (simp add: sample_exec_def xe_new_def default_retry_policy_def)
  ultimately have "\<exists>m. snd (snd (exec_submit (\<lambda>k m. k @ m) dead_adapters no_jitter_next sample_submit sample_exec (sample_env ()))) = Inl (RetryExhausted 3 m)"
    using outage_never_fails_over [OF bad none, of sample_submit "admitted sample_submit sample_exec" i] by auto
  then show ?thesis using prim unfolding run by simp
qed

text \<open>A second approval for a correlation id that is already tracked places its order at the broker and
  then reports an error; the tracker keeps the first broker order id.\<close>

lemma second_token_orphans_order:
  assumes "request_verified hmac (xe_verifier_key e) rq" "sr_token rq \<notin> xe_consumed_tokens e"
    and "translate_intent (sr_intent rq) (sr_sized_quantity rq) = Inr i"
    and "xe_trackers e (request_cid rq) = Some t" "ot_state t \<noteq> New"
    and "ad_submit ad (br_active (xe_router e)) i (ev_world env) = (w', Inr ack)"
  shows "\<exists>e' env'. exec_submit hmac ad nx rq e env = (e', env', Inl (InvalidFsmTransition (ot_state t) Submitted))
    \<and> ev_world env' = w' \<and> xe_trackers e' (request_cid rq) = Some t"
proof -
  have retry: "retry_with_backoff (xe_retry_policy e) nx (submit_op ad (br_active (xe_router e)) (active_id (xe_router e)) i)
      (ev_world env) (ev_jitter env) = (Inr ack, w', ev_jitter env, [])"
    using assms(6) by (intro retry_first_success) (simp add: submit_op_def)
  have "\<not> is_legal_transition (ot_state t) Submitted" using assms(5) by (cases "ot_state t") simp_all
  then have "ot_submit oid ts t = (t, Inl (InvalidFsmTransition (ot_state t) Submitted))" for oid ts
    by (simp add: ot_submit_def transition_no_fill_def)
  then show ?thesis
    using assms(1-4) retry
    by (simp add: exec_submit_def admit_fresh submit_route_def handle_submit_ok_def admitted_def Let_def)
qed

end
