(* ===== verification/Message_Bus.thy ===== *)
theory Message_Bus
  imports Core_Types
begin

text \<open>
  The bus layer \<open>hedge-bus\<close>: its error type (\<open>error.rs\<close>), the interned symbol table
  (\<open>symbol_table.rs\<close>), the NATS subject names, their builders and domains (\<open>subject.rs\<close>), the typed
  publisher and subscriber (\<open>nats.rs\<close>) and the Redis stream producer and consumer
  (\<open>redis_stream.rs\<close>). The NATS and Redis clients and the codecs are parameters: an operation takes
  the reply of the client, or the encoder and decoder, as an argument. \<open>str::split('.')\<close> is
  \<open>takeWhile\<close> on the character list.
\<close>

section \<open>Errors\<close>

datatype bus_error =
    NatsConnect string
  | NatsPublish string string
  | NatsSubscribe string string
  | RedisErr string string
  | EncodeErr string
  | DecodeErr string
  | MalformedEntry string string
  | SubscriptionClosed string

section \<open>Symbol table\<close>

definition symbol_id_for :: "string \<Rightarrow> u32" where
  "symbol_id_for sy =
     (if sy = ''RELIANCE'' then 1
      else if sy = ''INFY'' then 2
      else if sy = ''SBIN'' then 3
      else if sy = ''HDFCBANK'' then 4
      else if sy = ''ICICIBANK'' then 5
      else if sy = ''NSE_INDEX|Nifty 50'' then 6
      else if sy = ''NSE_INDEX|Nifty Bank'' then 7
      else if sy = ''NSE_INDEX|Nifty Next 50'' then 8
      else if sy = ''NSE_INDEX|Nifty Fin Service'' then 9
      else if sy = ''NSE_INDEX|Nifty 100'' then 10
      else 0)"

definition symbol_for_id :: "u32 \<Rightarrow> string option" where
  "symbol_for_id i =
     (if i = 1 then Some ''RELIANCE''
      else if i = 2 then Some ''INFY''
      else if i = 3 then Some ''SBIN''
      else if i = 4 then Some ''HDFCBANK''
      else if i = 5 then Some ''ICICIBANK''
      else if i = 6 then Some ''NSE_INDEX|Nifty 50''
      else if i = 7 then Some ''NSE_INDEX|Nifty Bank''
      else if i = 8 then Some ''NSE_INDEX|Nifty Next 50''
      else if i = 9 then Some ''NSE_INDEX|Nifty Fin Service''
      else if i = 10 then Some ''NSE_INDEX|Nifty 100''
      else None)"

section \<open>Subjects\<close>

definition MD_TICK :: string where
  "MD_TICK = ''md.tick''"

definition MD_BOOK :: string where
  "MD_BOOK = ''md.book''"

definition MD_OI :: string where
  "MD_OI = ''md.oi''"

definition MD_BREADTH_SECTOR :: string where
  "MD_BREADTH_SECTOR = ''md.breadth.sector''"

definition MD_BREADTH_VOL :: string where
  "MD_BREADTH_VOL = ''md.breadth.volatility''"

definition MD_CONNECTION :: string where
  "MD_CONNECTION = ''md.connection''"

definition OF_EVENT :: string where
  "OF_EVENT = ''of.event''"

definition OF_HEATMAP :: string where
  "OF_HEATMAP = ''of.heatmap''"

definition FEAT_UPDATE :: string where
  "FEAT_UPDATE = ''feat.update''"

definition SIG_EMITTED :: string where
  "SIG_EMITTED = ''sig.emitted''"

definition RISK_DECISION_APPROVED :: string where
  "RISK_DECISION_APPROVED = ''risk.decision.approved''"

definition RISK_DECISION_REJECTED :: string where
  "RISK_DECISION_REJECTED = ''risk.decision.rejected''"

definition RISK_KILLSWITCH_ACTIVATED :: string where
  "RISK_KILLSWITCH_ACTIVATED = ''risk.killswitch.activated''"

definition RISK_TARGET_REACHED :: string where
  "RISK_TARGET_REACHED = ''risk.target.reached''"

definition RISK_COOLDOWN :: string where
  "RISK_COOLDOWN = ''risk.cooldown''"

definition EXEC_ORDER :: string where
  "EXEC_ORDER = ''exec.order''"

definition EXEC_FILL :: string where
  "EXEC_FILL = ''exec.fill''"

definition EXEC_BROKER_FAILOVER :: string where
  "EXEC_BROKER_FAILOVER = ''exec.broker.failover''"

definition EXEC_TRADE_CLOSED :: string where
  "EXEC_TRADE_CLOSED = ''exec.trade.closed''"

definition POS_UPDATE :: string where
  "POS_UPDATE = ''pos.update''"

definition POS_RISK_STATE :: string where
  "POS_RISK_STATE = ''pos.risk_state''"

definition AI_RANK :: string where
  "AI_RANK = ''ai.rank''"

definition AI_NEWS_IMPACT :: string where
  "AI_NEWS_IMPACT = ''ai.news.impact''"

definition AI_REGIME_CHANGED :: string where
  "AI_REGIME_CHANGED = ''ai.regime.changed''"

definition AI_PSYCH_STABILITY :: string where
  "AI_PSYCH_STABILITY = ''ai.psych.stability''"

definition AI_PSYCH_INTERVENTION :: string where
  "AI_PSYCH_INTERVENTION = ''ai.psych.intervention''"

definition AI_PRIORITY_CHANGED :: string where
  "AI_PRIORITY_CHANGED = ''ai.priority.changed''"

definition AI_JOURNAL_ENTRY :: string where
  "AI_JOURNAL_ENTRY = ''ai.journal.entry''"

definition AI_GOV_ACTION :: string where
  "AI_GOV_ACTION = ''ai.gov.action''"

definition AI_OLLAMA_DEGRADED :: string where
  "AI_OLLAMA_DEGRADED = ''ai.ollama.degraded''"

definition MEM_PREV_DAY :: string where
  "MEM_PREV_DAY = ''mem.prev_day''"

definition TRADER_INTENT_KILLSWITCH :: string where
  "TRADER_INTENT_KILLSWITCH = ''trader.intent.killswitch''"

definition TRADER_INTENT_STRATEGY_TOGGLE :: string where
  "TRADER_INTENT_STRATEGY_TOGGLE = ''trader.intent.strategy_toggle''"

definition TRADER_INTENT_PRIORITY :: string where
  "TRADER_INTENT_PRIORITY = ''trader.intent.priority''"

definition TRADER_INTENT_ORDER :: string where
  "TRADER_INTENT_ORDER = ''trader.intent.order''"

definition TRADER_INTENT_TRADING_MODE :: string where
  "TRADER_INTENT_TRADING_MODE = ''trader.intent.trading_mode''"

definition OPS_SESSION_START :: string where
  "OPS_SESSION_START = ''ops.session.start''"

definition OPS_SESSION_END :: string where
  "OPS_SESSION_END = ''ops.session.end''"

definition OPS_WARMODE_START :: string where
  "OPS_WARMODE_START = ''ops.warmode.start''"

definition OPS_WARMODE_END :: string where
  "OPS_WARMODE_END = ''ops.warmode.end''"

definition OPS_ACTION :: string where
  "OPS_ACTION = ''ops.action''"

definition OBS_LATENCY :: string where
  "OBS_LATENCY = ''obs.latency''"

definition OBS_BUDGET_BREACH :: string where
  "OBS_BUDGET_BREACH = ''obs.budget.breach''"

definition OBS_ERROR :: string where
  "OBS_ERROR = ''obs.error''"

datatype subject_domain =
    MarketData | Orderflow | Features | Signals | Risk | Exec | Positions | Ai | Memory
  | TraderIntent | Ops | Observability

fun subject_prefix :: "subject_domain \<Rightarrow> string" where
  "subject_prefix MarketData = ''md''"
| "subject_prefix Orderflow = ''of''"
| "subject_prefix Features = ''feat''"
| "subject_prefix Signals = ''sig''"
| "subject_prefix Risk = ''risk''"
| "subject_prefix Exec = ''exec''"
| "subject_prefix Positions = ''pos''"
| "subject_prefix Ai = ''ai''"
| "subject_prefix Memory = ''mem''"
| "subject_prefix TraderIntent = ''trader''"
| "subject_prefix Ops = ''ops''"
| "subject_prefix Observability = ''obs''"

definition subject_classify :: "string \<Rightarrow> subject_domain option" where
  "subject_classify subject =
     (let head = takeWhile (\<lambda>c. c \<noteq> CHR ''.'') subject in
      if head = ''md'' then Some MarketData
      else if head = ''of'' then Some Orderflow
      else if head = ''feat'' then Some Features
      else if head = ''sig'' then Some Signals
      else if head = ''risk'' then Some Risk
      else if head = ''exec'' then Some Exec
      else if head = ''pos'' then Some Positions
      else if head = ''ai'' then Some Ai
      else if head = ''mem'' then Some Memory
      else if head = ''trader'' then Some TraderIntent
      else if head = ''ops'' then Some Ops
      else if head = ''obs'' then Some Observability
      else None)"

text \<open>\<open>format!("{}.{}", prefix, segment)\<close>, shared by every builder.\<close>

definition dotted :: "string \<Rightarrow> string \<Rightarrow> string" where
  "dotted pre seg = pre @ ''.'' @ seg"

definition md_tick :: "u32 \<Rightarrow> string" where
  "md_tick sy = dotted MD_TICK (show_nat (unat sy))"

definition md_book :: "u32 \<Rightarrow> string" where
  "md_book sy = dotted MD_BOOK (show_nat (unat sy))"

definition md_oi :: "u32 \<Rightarrow> string" where
  "md_oi sy = dotted MD_OI (show_nat (unat sy))"

definition md_connection :: "string \<Rightarrow> string" where
  "md_connection seg = dotted MD_CONNECTION seg"

definition of_event :: "u32 \<Rightarrow> string" where
  "of_event sy = dotted OF_EVENT (show_nat (unat sy))"

definition of_heatmap :: "u32 \<Rightarrow> string" where
  "of_heatmap sy = dotted OF_HEATMAP (show_nat (unat sy))"

definition feat_update :: "u32 \<Rightarrow> string" where
  "feat_update sy = dotted FEAT_UPDATE (show_nat (unat sy))"

definition risk_cooldown :: "u32 \<Rightarrow> string" where
  "risk_cooldown sy = dotted RISK_COOLDOWN (show_nat (unat sy))"

definition exec_order :: "string \<Rightarrow> string" where
  "exec_order seg = dotted EXEC_ORDER seg"

definition exec_fill :: "u32 \<Rightarrow> string" where
  "exec_fill sy = dotted EXEC_FILL (show_nat (unat sy))"

definition pos_update :: "u32 \<Rightarrow> string" where
  "pos_update sy = dotted POS_UPDATE (show_nat (unat sy))"

definition ai_rank :: "string \<Rightarrow> string" where
  "ai_rank seg = dotted AI_RANK seg"

definition ai_news_impact :: "u32 \<Rightarrow> string" where
  "ai_news_impact sy = dotted AI_NEWS_IMPACT (show_nat (unat sy))"

definition ai_priority_changed :: "u32 \<Rightarrow> string" where
  "ai_priority_changed sy = dotted AI_PRIORITY_CHANGED (show_nat (unat sy))"

definition mem_prev_day :: "u32 \<Rightarrow> string" where
  "mem_prev_day sy = dotted MEM_PREV_DAY (show_nat (unat sy))"

definition ops_action :: "string \<Rightarrow> string" where
  "ops_action seg = dotted OPS_ACTION seg"

definition obs_latency :: "string \<Rightarrow> string" where
  "obs_latency seg = dotted OBS_LATENCY seg"

definition obs_budget_breach :: "string \<Rightarrow> string" where
  "obs_budget_breach seg = dotted OBS_BUDGET_BREACH seg"

definition obs_error :: "string \<Rightarrow> string" where
  "obs_error seg = dotted OBS_ERROR seg"

section \<open>Publishing and receiving\<close>

type_synonym bytes = "u8 list"

text \<open>\<open>JsonCodec\<close>: \<open>enc\<close> and \<open>dec\<close> are the serialiser and deserialiser of the payload type, whose
  failures carry a message. \<open>FlatBuffersCodec\<close> passes bytes through.\<close>

definition json_encode :: "('a \<Rightarrow> string + bytes) \<Rightarrow> 'a \<Rightarrow> bus_error + bytes" where
  "json_encode enc v = (case enc v of Inl m \<Rightarrow> Inl (EncodeErr m) | Inr b \<Rightarrow> Inr b)"

definition json_decode :: "(bytes \<Rightarrow> string + 'a) \<Rightarrow> bytes \<Rightarrow> bus_error + 'a" where
  "json_decode dec b = (case dec b of Inl m \<Rightarrow> Inl (DecodeErr m) | Inr v \<Rightarrow> Inr v)"

definition flat_encode :: "bytes \<Rightarrow> bus_error + bytes" where
  "flat_encode v = Inr v"

definition flat_decode :: "bytes \<Rightarrow> bus_error + bytes" where
  "flat_decode b = Inr b"

text \<open>\<open>send\<close> is the NATS client: \<open>None\<close> when the server took the message, otherwise the rendered error.
  A subscription yields its next message or, closed, none.\<close>

definition nats_publish_bytes :: "(string \<Rightarrow> bytes \<Rightarrow> string option) \<Rightarrow> string \<Rightarrow> bytes \<Rightarrow> bus_error option" where
  "nats_publish_bytes send subject payload =
     (case send subject payload of None \<Rightarrow> None | Some m \<Rightarrow> Some (NatsPublish subject m))"

definition nats_publish ::
  "('a \<Rightarrow> bus_error + bytes) \<Rightarrow> (string \<Rightarrow> bytes \<Rightarrow> string option) \<Rightarrow> string \<Rightarrow> 'a \<Rightarrow> bus_error option" where
  "nats_publish enc send subject v =
     (case enc v of Inl e \<Rightarrow> Some e | Inr payload \<Rightarrow> nats_publish_bytes send subject payload)"

definition nats_recv_bytes :: "string \<Rightarrow> bytes option \<Rightarrow> bus_error + bytes" where
  "nats_recv_bytes subject msg = (case msg of Some payload \<Rightarrow> Inr payload | None \<Rightarrow> Inl (SubscriptionClosed subject))"

definition nats_recv :: "(bytes \<Rightarrow> bus_error + 'a) \<Rightarrow> string \<Rightarrow> bytes option \<Rightarrow> bus_error + 'a" where
  "nats_recv dec subject msg = (case nats_recv_bytes subject msg of Inl e \<Rightarrow> Inl e | Inr b \<Rightarrow> dec b)"

section \<open>The bus as a component sees it\<close>

text \<open>The process clock \<open>now_ns\<close> and the answer of the bus at the $k$-th publication are inputs; the
  publications made are kept.\<close>

record 'e ops_world =
  now_at :: "nat \<Rightarrow> u64"
  answer_at :: "nat \<Rightarrow> bus_error option"
  attempts :: "'e list"

definition ops_publish :: "'e \<Rightarrow> 'e ops_world \<Rightarrow> 'e ops_world \<times> bus_error option" where
  "ops_publish e w = (w\<lparr>attempts := attempts w @ [e]\<rparr>, answer_at w (length (attempts w)))"

definition ops_now :: "'e ops_world \<Rightarrow> u64" where
  "ops_now w = now_at w (length (attempts w))"

text \<open>The publications the bus accepted, in order.\<close>

definition accepted :: "'e ops_world \<Rightarrow> 'e list" where
  "accepted w = map snd (filter (\<lambda>(k, e). answer_at w k = None) (enumerate 0 (attempts w)))"

section \<open>Redis streams\<close>

definition STREAM_HOT_SIGNALS :: string where
  "STREAM_HOT_SIGNALS = ''hedge.hot.signals''"

definition STREAM_HOT_APPROVALS :: string where
  "STREAM_HOT_APPROVALS = ''hedge.hot.approvals''"

definition STREAM_HOT_FILLS :: string where
  "STREAM_HOT_FILLS = ''hedge.hot.fills''"

definition STREAM_HOT_REPLAY_RECORD :: string where
  "STREAM_HOT_REPLAY_RECORD = ''hedge.hot.replay_record''"

text \<open>An entry of a read reply: its id and what its \<open>payload\<close> field holds.\<close>

datatype stream_field = Absent | NonBinary | Binary bytes

record 'a stream_entry =
  se_id :: string
  se_payload :: 'a

text \<open>\<open>reply\<close> is the answer of the Redis server, an error message on the left.\<close>

definition xadd_bytes :: "(string \<Rightarrow> bytes \<Rightarrow> string + string) \<Rightarrow> string \<Rightarrow> bytes \<Rightarrow> bus_error + string" where
  "xadd_bytes add stream payload = (case add stream payload of Inl e \<Rightarrow> Inl (RedisErr stream e) | Inr i \<Rightarrow> Inr i)"

definition xadd ::
  "('a \<Rightarrow> bus_error + bytes) \<Rightarrow> (string \<Rightarrow> bytes \<Rightarrow> string + string) \<Rightarrow> string \<Rightarrow> 'a \<Rightarrow> bus_error + string" where
  "xadd enc add stream v = (case enc v of Inl e \<Rightarrow> Inl e | Inr payload \<Rightarrow> xadd_bytes add stream payload)"

fun str_contains :: "string \<Rightarrow> string \<Rightarrow> bool" where
  "str_contains pat [] = (pat = [])"
| "str_contains pat (c # cs) = (take (length pat) (c # cs) = pat \<or> str_contains pat cs)"

definition ensure_group :: "string \<Rightarrow> string option \<Rightarrow> bus_error option" where
  "ensure_group stream reply =
     (case reply of None \<Rightarrow> None
      | Some msg \<Rightarrow> if str_contains ''BUSYGROUP'' msg then None else Some (RedisErr stream msg))"

definition decode_entry :: "(bytes \<Rightarrow> bus_error + 'a) \<Rightarrow> string \<times> stream_field \<Rightarrow> bus_error + 'a stream_entry" where
  "decode_entry dec entry =
     (case snd entry of
        Absent \<Rightarrow> Inl (MalformedEntry (fst entry) ''missing `payload` field'')
      | NonBinary \<Rightarrow> Inl (MalformedEntry (fst entry) ''non-binary `payload` field'')
      | Binary b \<Rightarrow> (case dec b of Inl e \<Rightarrow> Inl e | Inr v \<Rightarrow> Inr \<lparr>se_id = fst entry, se_payload = v\<rparr>))"

fun decode_entries ::
  "(bytes \<Rightarrow> bus_error + 'a) \<Rightarrow> (string \<times> stream_field) list \<Rightarrow> 'a stream_entry list \<Rightarrow> bus_error + 'a stream_entry list" where
  "decode_entries dec [] out = Inr out"
| "decode_entries dec (entry # es) out =
     (case decode_entry dec entry of Inl e \<Rightarrow> Inl e | Inr x \<Rightarrow> decode_entries dec es (out @ [x]))"

definition next_batch ::
  "(bytes \<Rightarrow> bus_error + 'a) \<Rightarrow> string \<Rightarrow> string + (string \<times> (string \<times> stream_field) list) list
    \<Rightarrow> bus_error + 'a stream_entry list" where
  "next_batch dec stream reply =
     (case reply of Inl e \<Rightarrow> Inl (RedisErr stream e)
      | Inr keys \<Rightarrow> decode_entries dec (concat (map snd keys)) [])"

definition xack :: "string \<Rightarrow> string + int \<Rightarrow> bus_error option" where
  "xack stream reply = (case reply of Inl e \<Rightarrow> Some (RedisErr stream e) | Inr n \<Rightarrow> None)"

section \<open>Lemmas\<close>

lemma dotted_inj:
  assumes "CHR ''.'' \<notin> set s" "CHR ''.'' \<notin> set s'"
  shows "dotted p s = dotted p' s' \<longleftrightarrow> p = p' \<and> s = s'"
proof
  assume eq: "dotted p s = dotted p' s'"
  let ?tail = "\<lambda>x. rev (takeWhile (\<lambda>c. c \<noteq> CHR ''.'') (rev x))"
  have "?tail (dotted p s) = s" "?tail (dotted p' s') = s'"
    using assms by (auto simp: dotted_def takeWhile_append)
  with eq have "s = s'" by metis
  with eq show "p = p' \<and> s = s'" by (simp add: dotted_def)
qed simp

lemma classify_dotted:
  "CHR ''.'' \<in> set p \<Longrightarrow> subject_classify (dotted p s) = subject_classify p"
proof -
  assume "CHR ''.'' \<in> set p"
  then have "takeWhile (\<lambda>c. c \<noteq> CHR ''.'') (dotted p s) = takeWhile (\<lambda>c. c \<noteq> CHR ''.'') p"
    by (auto simp: dotted_def takeWhile_append)
  then show ?thesis by (simp only: subject_classify_def)
qed

lemma accepted_publish:
  "ops_publish e w = (w', None) \<Longrightarrow> accepted w' = accepted w @ [e]"
  "ops_publish e w = (w', Some x) \<Longrightarrow> accepted w' = accepted w"
  by (auto simp: ops_publish_def accepted_def enumerate_append_eq)

lemma decode_entries_ok:
  "decode_entries dec es out = Inr res \<longleftrightarrow> (\<exists>xs. res = out @ xs \<and> list_all2 (\<lambda>e x. decode_entry dec e = Inr x) es xs)"
proof (induction es arbitrary: out)
  case (Cons e es)
  then show ?case by (cases "decode_entry dec e") (auto simp: list_all2_Cons1)
qed auto

lemma decode_entries_err:
  "decode_entries dec es out = Inl err \<longleftrightarrow>
     (\<exists>pre bad post xs. es = pre @ bad # post \<and> list_all2 (\<lambda>e x. decode_entry dec e = Inr x) pre xs
        \<and> decode_entry dec bad = Inl err)"
proof (induction es arbitrary: out)
  case (Cons e es)
  show ?case
  proof (cases "decode_entry dec e")
    case (Inl a)
    have "\<exists>pre bad post xs. e # es = pre @ bad # post \<and> list_all2 (\<lambda>e x. decode_entry dec e = Inr x) pre xs
        \<and> decode_entry dec bad = Inl a"
      using Inl by (intro exI [of _ "[]"] exI [of _ e] exI [of _ es]) simp
    moreover have "err = a" if "e # es = pre @ bad # post" "list_all2 (\<lambda>e x. decode_entry dec e = Inr x) pre xs"
        "decode_entry dec bad = Inl err" for pre bad post xs
      using that Inl by (cases pre) (auto simp: list_all2_Cons1)
    ultimately have "(\<exists>pre bad post xs. e # es = pre @ bad # post \<and> list_all2 (\<lambda>e x. decode_entry dec e = Inr x) pre xs
        \<and> decode_entry dec bad = Inl err) \<longleftrightarrow> a = err" by blast
    then show ?thesis using Inl by simp
  next
    case (Inr x)
    have "(\<exists>pre bad post xs. e # es = pre @ bad # post \<and> list_all2 (\<lambda>e x. decode_entry dec e = Inr x) pre xs
        \<and> decode_entry dec bad = Inl err)
      \<longleftrightarrow> (\<exists>pre bad post xs. es = pre @ bad # post \<and> list_all2 (\<lambda>e x. decode_entry dec e = Inr x) pre xs
        \<and> decode_entry dec bad = Inl err)" (is "?L = ?R")
    proof
      assume ?L
      with Inr show ?R by (fastforce simp: Cons_eq_append_conv list_all2_Cons1)
    next
      assume ?R
      then obtain pre bad post xs where "es = pre @ bad # post"
        "list_all2 (\<lambda>e x. decode_entry dec e = Inr x) pre xs" "decode_entry dec bad = Inl err" by blast
      with Inr have "e # es = (e # pre) @ bad # post" "list_all2 (\<lambda>e x. decode_entry dec e = Inr x) (e # pre) (x # xs)"
        by simp_all
      with \<open>decode_entry dec bad = Inl err\<close> show ?L by blast
    qed
    with Inr Cons show ?thesis by simp
  qed
qed simp

section \<open>Properties\<close>

text \<open>The builders that take a symbol, in the order of the source, and the domains of their prefixes.\<close>

definition symbol_subjects :: "(u32 \<Rightarrow> string) list" where
  "symbol_subjects = [md_tick, md_book, md_oi, of_event, of_heatmap, feat_update, risk_cooldown,
     exec_fill, pos_update, ai_news_impact, ai_priority_changed, mem_prev_day]"

definition symbol_prefixes :: "string list" where
  "symbol_prefixes = [MD_TICK, MD_BOOK, MD_OI, OF_EVENT, OF_HEATMAP, FEAT_UPDATE, RISK_COOLDOWN,
     EXEC_FILL, POS_UPDATE, AI_NEWS_IMPACT, AI_PRIORITY_CHANGED, MEM_PREV_DAY]"

definition symbol_domains :: "subject_domain list" where
  "symbol_domains = [MarketData, MarketData, MarketData, Orderflow, Orderflow, Features, Risk,
     Exec, Positions, Ai, Ai, Memory]"

lemmas subject_constants =
  MD_TICK_def MD_BOOK_def MD_OI_def OF_EVENT_def OF_HEATMAP_def FEAT_UPDATE_def RISK_COOLDOWN_def
  EXEC_FILL_def POS_UPDATE_def AI_NEWS_IMPACT_def AI_PRIORITY_CHANGED_def MEM_PREV_DAY_def

lemmas subject_builders =
  md_tick_def md_book_def md_oi_def of_event_def of_heatmap_def feat_update_def risk_cooldown_def
  exec_fill_def pos_update_def ai_news_impact_def ai_priority_changed_def mem_prev_day_def

lemma symbol_subjects_prefixes: "symbol_subjects = map (\<lambda>p sy. dotted p (show_nat (unat sy))) symbol_prefixes"
  unfolding symbol_subjects_def symbol_prefixes_def by (simp add: subject_builders fun_eq_iff)

lemma symbol_prefixes_distinct: "distinct symbol_prefixes"
  unfolding symbol_prefixes_def subject_constants by code_simp

lemma symbol_prefixes_domains:
  "list_all2 (\<lambda>p d. CHR ''.'' \<in> set p \<and> subject_classify p = Some d) symbol_prefixes symbol_domains"
  unfolding symbol_prefixes_def symbol_domains_def subject_constants by code_simp

text \<open>Subjects route without ambiguity. Two builders that take a symbol produce the same subject only
  when they are the same builder on the same symbol, and each subject is classified into the domain
  of its builder.\<close>

theorem subjects_unambiguous:
  assumes "i < 12" and "j < 12"
  shows "((symbol_subjects ! i) a = (symbol_subjects ! j) b \<longleftrightarrow> i = j \<and> a = b)
    \<and> subject_classify ((symbol_subjects ! i) a) = Some (symbol_domains ! i)"
proof -
  have len: "length symbol_prefixes = 12" by (simp add: symbol_prefixes_def)
  have ij: "(symbol_subjects ! k) c = dotted (symbol_prefixes ! k) (show_nat (unat c))" if "k < 12" for k c
    using that by (simp add: symbol_subjects_prefixes len)
  have "symbol_prefixes ! i = symbol_prefixes ! j \<longleftrightarrow> i = j"
    using symbol_prefixes_distinct assms len by (simp add: nth_eq_iff_index_eq)
  moreover have "CHR ''.'' \<in> set (symbol_prefixes ! i) \<and> subject_classify (symbol_prefixes ! i) = Some (symbol_domains ! i)"
    using symbol_prefixes_domains assms len by (simp add: list_all2_conv_all_nth)
  ultimately show ?thesis using assms
    by (simp add: ij dotted_inj show_nat_no_dot classify_dotted word_unat_eq_iff)
qed

theorem subjects_unambiguous_witness:
  "(symbol_subjects ! 0) 42 \<noteq> (symbol_subjects ! 1) 42
   \<and> subject_classify ((symbol_subjects ! 0) 42) = Some MarketData"
  using subjects_unambiguous [of 0 1 42 42] by (simp add: symbol_domains_def)

text \<open>Both functions read one table.\<close>

definition symbol_table :: "(u32 \<times> string) list" where
  "symbol_table =
    [(1, ''RELIANCE''),
     (2, ''INFY''),
     (3, ''SBIN''),
     (4, ''HDFCBANK''),
     (5, ''ICICIBANK''),
     (6, ''NSE_INDEX|Nifty 50''),
     (7, ''NSE_INDEX|Nifty Bank''),
     (8, ''NSE_INDEX|Nifty Next 50''),
     (9, ''NSE_INDEX|Nifty Fin Service''),
     (10, ''NSE_INDEX|Nifty 100'')]"

lemma symbol_for_id_table: "symbol_for_id i = map_of symbol_table i"
  by (simp add: symbol_for_id_def symbol_table_def)

lemma symbol_id_for_table:
  "symbol_id_for s = (case map_of (map prod.swap symbol_table) s of Some i \<Rightarrow> i | None \<Rightarrow> 0)"
  by (simp add: symbol_id_for_def symbol_table_def)

lemma symbol_table_distinct: "distinct (map fst symbol_table)" "distinct (map snd symbol_table)"
  by (simp_all add: symbol_table_def)

lemma symbol_table_ids: "fst ` set symbol_table = {1, 2, 3, 4, 5, 6, 7, 8, 9, 10}"
  by (simp add: symbol_table_def)

lemma small_ids: "(1 \<le> i \<and> i \<le> 10) = (i \<in> {1, 2, 3, 4, 5, 6, 7, 8, 9, 10 :: u32})"
proof
  assume "1 \<le> i \<and> i \<le> 10"
  then have "unat i \<le> 10" "1 \<le> unat i" by (simp_all add: word_le_nat_alt)
  then have "unat i \<in> {1, 2, 3, 4, 5, 6, 7, 8, 9, 10}" unfolding insert_iff empty_iff by arith
  then have "word_of_nat (unat i) \<in> (word_of_nat ` {1, 2, 3, 4, 5, 6, 7, 8, 9, 10} :: u32 set)" by (rule imageI)
  then show "i \<in> {1, 2, 3, 4, 5, 6, 7, 8, 9, 10}" by simp
qed auto

text \<open>The symbol table is a round trip. A symbol with a nonzero id is found again under that id,
  an id that names a symbol is that symbol's id, and the ids in use are exactly 1 to 10.\<close>

theorem symbol_table_roundtrip:
  "(symbol_for_id i = Some s \<longleftrightarrow> symbol_id_for s = i \<and> i \<noteq> 0)
   \<and> (\<exists>t. symbol_for_id i = Some t) = (1 \<le> i \<and> i \<le> 10)"
proof (intro conjI)
  have swap: "distinct (map fst (map prod.swap symbol_table))" using symbol_table_distinct(2) by (simp add: comp_def)
  have "map_of (map prod.swap symbol_table) s = Some i \<longleftrightarrow> (i, s) \<in> set symbol_table"
    unfolding map_of_eq_Some_iff [OF swap] by force
  moreover have "i \<noteq> 0" if "(i, s) \<in> set symbol_table"
  proof -
    from that have "i \<in> fst ` set symbol_table" by force
    then show ?thesis by (auto simp: symbol_table_ids)
  qed
  ultimately show "symbol_for_id i = Some s \<longleftrightarrow> symbol_id_for s = i \<and> i \<noteq> 0"
    by (auto simp: symbol_for_id_table symbol_id_for_table map_of_eq_Some_iff [OF symbol_table_distinct(1)] split: option.splits)
  have "(\<exists>t. symbol_for_id i = Some t) \<longleftrightarrow> i \<in> fst ` set symbol_table"
    by (force simp: symbol_for_id_table map_of_eq_Some_iff [OF symbol_table_distinct(1)])
  then show "(\<exists>t. symbol_for_id i = Some t) = (1 \<le> i \<and> i \<le> 10)"
    by (simp only: symbol_table_ids small_ids)
qed

text \<open>A stream batch is all or nothing. It decodes exactly when every entry does, in order, and
  otherwise fails with the defect of the first bad entry.\<close>

theorem batch_all_or_nothing:
  "(next_batch dec stream (Inr keys) = Inr out \<longleftrightarrow>
      list_all2 (\<lambda>e x. decode_entry dec e = Inr x) (concat (map snd keys)) out)
   \<and> (next_batch dec stream (Inr keys) = Inl err \<longleftrightarrow>
      (\<exists>pre bad post xs. concat (map snd keys) = pre @ bad # post
         \<and> list_all2 (\<lambda>e x. decode_entry dec e = Inr x) pre xs \<and> decode_entry dec bad = Inl err))"
  by (simp add: next_batch_def decode_entries_ok decode_entries_err)

end
