(* ===== verification/Exec_Service.thy ===== *)
theory Exec_Service
  imports Broker_Router Message_Bus
begin

text \<open>
  The Execution_Engine binary (\<open>hedge-exec/src/main.rs\<close>): the trading-mode toggle, the approval consumer,
  the paper and live routes, the fill polling and the event builders. It calls the broker
  adapters directly. \<open>serde_json\<close> is the parameter \<open>json_api\<close> (parsing and typed access to a value), the
  two adapters are \<open>live_brokers\<close>, operations on the state of the brokers, and the wall clock is a
  function of the number of readings. A publication is best effort: its failure is only logged,
  so the model keeps the messages handed to the bus. The pauses of the paper route and of the
  polling loop have no effect on the state.
\<close>

unbundle bit_operations_syntax

section \<open>Parameters and state\<close>

record 'v json_api =
  js_from_slice :: "bytes \<Rightarrow> 'v option"
  js_get :: "'v \<Rightarrow> string \<Rightarrow> 'v option"
  js_as_str :: "'v \<Rightarrow> string option"
  js_as_u64 :: "'v \<Rightarrow> u64 option"
  js_as_i64 :: "'v \<Rightarrow> i64 option"
  js_as_bool :: "'v \<Rightarrow> bool option"

record 'w live_brokers =
  lb_submit :: "active_slot \<Rightarrow> broker_intent \<Rightarrow> 'w \<Rightarrow> 'w \<times> (broker_error + submit_ack)"
  lb_status :: "active_slot \<Rightarrow> string \<Rightarrow> 'w \<Rightarrow> 'w \<times> (broker_error + order_status)"

datatype exec_json =
    OrderEvent string string string string u64 i64 bool
  | FillEvent string string string u64 i64 bool
  | RejectEvent string string i64 string
  | FailoverEvent string string string i64
  | ModeEvent bool

record 'w exec_io =
  io_brokers :: 'w
  io_now :: "nat \<Rightarrow> i64"
  io_reads :: nat
  io_out :: "(string \<times> exec_json) list"

definition io_stamp :: "'w exec_io \<Rightarrow> i64 \<times> 'w exec_io" where
  "io_stamp io = (io_now io (io_reads io), io\<lparr>io_reads := Suc (io_reads io)\<rparr>)"

definition exec_publish :: "string \<Rightarrow> exec_json \<Rightarrow> 'w exec_io \<Rightarrow> 'w exec_io" where
  "exec_publish subject payload io = io\<lparr>io_out := io_out io @ [(subject, payload)]\<rparr>"

definition DEFAULT_MAX_NOTIONAL_INR :: i64 where
  "DEFAULT_MAX_NOTIONAL_INR = 50000"

section \<open>Event builders\<close>

definition order_event_json :: "string \<Rightarrow> string \<Rightarrow> string \<Rightarrow> string \<Rightarrow> u64 \<Rightarrow> bool \<Rightarrow> 'w exec_io \<Rightarrow> exec_json \<times> 'w exec_io" where
  "order_event_json cid oid symbol state filled paper io =
     (let (ts, io) = io_stamp io in (OrderEvent cid oid symbol state filled ts paper, io))"

definition fill_event_json :: "string \<Rightarrow> string \<Rightarrow> string \<Rightarrow> u64 \<Rightarrow> bool \<Rightarrow> 'w exec_io \<Rightarrow> exec_json \<times> 'w exec_io" where
  "fill_event_json cid oid symbol qty paper io =
     (let (ts, io) = io_stamp io in (FillEvent cid oid symbol qty ts paper, io))"

definition reject_event_json :: "string \<Rightarrow> string \<Rightarrow> string \<Rightarrow> 'w exec_io \<Rightarrow> exec_json \<times> 'w exec_io" where
  "reject_event_json cid symbol reason io =
     (let (ts, io) = io_stamp io in (RejectEvent cid symbol ts reason, io))"

definition parse_cid :: "string \<Rightarrow> u128" where
  "parse_cid s = foldl (\<lambda>acc c. push_bit 8 acc OR word_of_nat (of_char c)) 0 (take 16 s)"

definition hex8 :: "u32 \<Rightarrow> string" where
  "hex8 w = concat (map hex2 (u32_be w))"

section \<open>Routes\<close>

definition publish_reject :: "string \<Rightarrow> string \<Rightarrow> string \<Rightarrow> 'w exec_io \<Rightarrow> 'w exec_io" where
  "publish_reject cid symbol reason io =
     (let (ev, io) = reject_event_json cid symbol reason io in exec_publish ''exec.order.rejected'' ev io)"

definition route_paper :: "string \<Rightarrow> string \<Rightarrow> u64 \<Rightarrow> 'w exec_io \<Rightarrow> 'w exec_io" where
  "route_paper cid symbol qty io =
     (let (now_ns, io) = io_stamp io;
          oid = ''PAPER-'' @ hex8 (word_of_int now_ns);
          (ev, io) = order_event_json cid oid symbol ''Submitted'' 0 True io;
          io = exec_publish ''exec.order.submitted'' ev io;
          (ev, io) = fill_event_json cid oid symbol qty True io
      in exec_publish (''exec.fill.'' @ symbol) ev io)"

text \<open>The loop of \<open>poll_fill\<close>, \<open>n\<close> polls left.\<close>

fun poll_fill_loop :: "'w live_brokers \<Rightarrow> active_slot \<Rightarrow> string \<Rightarrow> string \<Rightarrow> string \<Rightarrow> nat \<Rightarrow> 'w exec_io \<Rightarrow> 'w exec_io" where
  "poll_fill_loop br slot cid symbol oid 0 io = io"
| "poll_fill_loop br slot cid symbol oid (Suc n) io =
     (case lb_status br slot oid (io_brokers io) of
        (w, res) \<Rightarrow>
          (let io = io\<lparr>io_brokers := w\<rparr> in
           case res of
             Inr st \<Rightarrow>
               (if os_state st = Filled then
                  (let (ev, io) = fill_event_json cid oid symbol (os_filled_qty st) False io
                   in exec_publish (''exec.fill.'' @ symbol) ev io)
                else if os_state st = Rejected \<or> os_state st = Cancelled then
                  publish_reject cid symbol ''broker reported rejected/cancelled'' io
                else poll_fill_loop br slot cid symbol oid n io)
           | Inl e \<Rightarrow> poll_fill_loop br slot cid symbol oid n io))"

definition poll_fill :: "'w live_brokers \<Rightarrow> active_slot \<Rightarrow> string \<Rightarrow> string \<Rightarrow> string \<Rightarrow> 'w exec_io \<Rightarrow> 'w exec_io" where
  "poll_fill br slot cid symbol oid io = poll_fill_loop br slot cid symbol oid 10 io"

definition live_submit :: "'w live_brokers \<Rightarrow> active_slot \<Rightarrow> broker_intent \<Rightarrow> 'w exec_io \<Rightarrow> 'w exec_io \<times> (broker_error + submit_ack)" where
  "live_submit br slot intent io = (case lb_submit br slot intent (io_brokers io) of (w, res) \<Rightarrow> (io\<lparr>io_brokers := w\<rparr>, res))"

definition live_acked :: "'w live_brokers \<Rightarrow> active_slot \<Rightarrow> string \<Rightarrow> string \<Rightarrow> submit_ack \<Rightarrow> 'w exec_io \<Rightarrow> 'w exec_io" where
  "live_acked br slot cid symbol ack io =
     (let (ev, io) = order_event_json cid (sa_broker_order_id ack) symbol ''Submitted'' 0 False io;
          io = exec_publish ''exec.order.submitted'' ev io
      in poll_fill br slot cid symbol (sa_broker_order_id ack) io)"

fun is_http :: "broker_error \<Rightarrow> bool" where
  "is_http (BrokerHttp _ _) = True"
| "is_http _ = False"

definition live_intent :: "string \<Rightarrow> u32 \<Rightarrow> side \<Rightarrow> u64 \<Rightarrow> broker_intent" where
  "live_intent cid symbol_id sd qty = \<lparr>bi_correlation_id = parse_cid cid, bi_symbol_raw = symbol_id, bi_side = sd,
     bi_quantity = qty, bi_order_type = Market, bi_limit_paise = 0, bi_exchange = Nse\<rparr>"

text \<open>Products of an \<open>i64\<close> and a \<open>u64\<close> fit an \<open>i128\<close>; the dividend is not negative.\<close>

definition notional_inr :: "i64 \<Rightarrow> u64 \<Rightarrow> int" where
  "notional_inr price_paise qty = (max price_paise 0 * int (unat qty)) div 100"

definition route_live :: "'w live_brokers \<Rightarrow> string \<Rightarrow> string \<Rightarrow> side \<Rightarrow> u64 \<Rightarrow> i64 \<Rightarrow> i64 \<Rightarrow> 'w exec_io \<Rightarrow> 'w exec_io" where
  "route_live br cid symbol sd qty price_paise max_notional io =
     (if price_paise > 0 \<and> notional_inr price_paise qty > max_notional then
        publish_reject cid symbol ''notional_cap_exceeded'' io
      else if symbol_id_for symbol = 0 then
        publish_reject cid symbol ''unknown_symbol'' io
      else
        (let intent = live_intent cid (symbol_id_for symbol) sd qty in
         case live_submit br Primary intent io of
           (io, Inr ack) \<Rightarrow> live_acked br Primary cid symbol ack io
         | (io, Inl e) \<Rightarrow>
             (if broker_is_retryable e \<or> is_http e then
                (let (ts, io) = io_stamp io;
                     io = exec_publish ''exec.broker.failover''
                            (FailoverEvent ''upstox'' ''angel_one'' (broker_error_display e) ts) io
                 in case live_submit br Backup intent io of
                      (io, Inr ack) \<Rightarrow> live_acked br Backup cid symbol ack io
                    | (io, Inl e2) \<Rightarrow> publish_reject cid symbol (''both brokers failed: '' @ broker_error_display e2) io)
              else publish_reject cid symbol (broker_error_display e) io)))"

text \<open>\<open>handle_approval\<close>: \<open>None\<close> is the parse error that the caller logs.\<close>

definition opt_or :: "'a option \<Rightarrow> 'a \<Rightarrow> 'a" where
  "opt_or x d = (case x of Some v \<Rightarrow> v | None \<Rightarrow> d)"

definition js_field :: "'v json_api \<Rightarrow> ('v \<Rightarrow> 'a option) \<Rightarrow> 'v \<Rightarrow> string \<Rightarrow> 'a option" where
  "js_field js cast v key = Option.bind (js_get js v key) cast"

definition parse_side :: "string \<Rightarrow> side" where
  "parse_side s = (if s = ''sell'' \<or> s = ''Sell'' \<or> s = ''SELL'' then Sell else Buy)"

definition handle_approval ::
  "'v json_api \<Rightarrow> 'w live_brokers \<Rightarrow> bytes \<Rightarrow> bool \<Rightarrow> i64 \<Rightarrow> 'w exec_io \<Rightarrow> 'w exec_io option" where
  "handle_approval js br bytes live max_notional io =
     (case js_from_slice js bytes of
        None \<Rightarrow> None
      | Some v \<Rightarrow>
          (let data = opt_or (js_get js v ''data'') v;
               cid = opt_or (js_field js (js_as_str js) data ''correlation_id'') '''';
               qty = opt_or (js_field js (js_as_u64 js) data ''sized_quantity'') 0;
               symbol = opt_or (js_field js (js_as_str js) data ''symbol'') ''UNKNOWN'';
               price_paise = opt_or (js_field js (js_as_i64 js) data ''entry_price_paise'') 0;
               sd = parse_side (opt_or (js_field js (js_as_str js) data ''side'') ''buy'')
           in if cid = '''' then Some io
              else if qty = 0 then Some io
              else if live then Some (route_live br cid symbol sd qty price_paise max_notional io)
              else Some (route_paper cid symbol qty io)))"

section \<open>The service\<close>

text \<open>The environment variables, and the two subscriptions. Approvals are handled one after the other; the
  mode is read when an approval is taken up.\<close>

definition initial_live :: "string option \<Rightarrow> bool" where
  "initial_live var = (case var of Some v \<Rightarrow> v = ''on'' \<or> v = ''1'' \<or> v = ''true'' | None \<Rightarrow> False)"

definition on_mode :: "'v json_api \<Rightarrow> bytes \<Rightarrow> 'w exec_io \<Rightarrow> bool \<times> 'w exec_io" where
  "on_mode js bytes io =
     (let want_live = opt_or (Option.bind (js_from_slice js bytes) (\<lambda>v. js_field js (js_as_bool js) v ''live'')) False
      in (want_live, exec_publish ''exec.mode.confirmed'' (ModeEvent want_live) io))"

datatype exec_input = ModeMsg bytes | ApprovalMsg bytes

fun exec_service_step :: "'v json_api \<Rightarrow> 'w live_brokers \<Rightarrow> i64 \<Rightarrow> exec_input \<Rightarrow> bool \<times> 'w exec_io \<Rightarrow> bool \<times> 'w exec_io" where
  "exec_service_step js br cap (ModeMsg b) (live, io) = on_mode js b io"
| "exec_service_step js br cap (ApprovalMsg b) (live, io) =
     (case handle_approval js br b live cap io of None \<Rightarrow> (live, io) | Some io \<Rightarrow> (live, io))"

fun exec_service :: "'v json_api \<Rightarrow> 'w live_brokers \<Rightarrow> i64 \<Rightarrow> exec_input list \<Rightarrow> bool \<times> 'w exec_io \<Rightarrow> bool \<times> 'w exec_io" where
  "exec_service js br cap [] s = s"
| "exec_service js br cap (m # ms) s = exec_service js br cap ms (exec_service_step js br cap m s)"

section \<open>Broker calls\<close>

text \<open>Brokers that also record every call and its result.\<close>

datatype live_call = LcSubmit active_slot broker_intent "broker_error + submit_ack"
  | LcStatus active_slot string "broker_error + order_status"

definition recording :: "'w live_brokers \<Rightarrow> ('w \<times> live_call list) live_brokers" where
  "recording br = \<lparr>lb_submit = (\<lambda>slot i (w, cs). case lb_submit br slot i w of (w', r) \<Rightarrow> ((w', cs @ [LcSubmit slot i r]), r)),
     lb_status = (\<lambda>slot oid (w, cs). case lb_status br slot oid w of (w', r) \<Rightarrow> ((w', cs @ [LcStatus slot oid r]), r))\<rparr>"

abbreviation calls :: "('w \<times> live_call list) exec_io \<Rightarrow> live_call list" where
  "calls io \<equiv> snd (io_brokers io)"

fun is_submit :: "live_call \<Rightarrow> bool" where
  "is_submit (LcSubmit _ _ _) = True"
| "is_submit (LcStatus _ _ _) = False"

fun is_acked :: "live_call \<Rightarrow> bool" where
  "is_acked (LcSubmit _ _ (Inr _)) = True"
| "is_acked _ = False"

lemma io_frames [simp]:
  "io_brokers (exec_publish s p io) = io_brokers io"
  "io_brokers (snd (io_stamp io)) = io_brokers io"
  "io_brokers (snd (reject_event_json cid sy rs io)) = io_brokers io"
  "io_brokers (snd (order_event_json cid oid sy st n pp io)) = io_brokers io"
  "io_brokers (snd (fill_event_json cid oid sy q pp io)) = io_brokers io"
  "io_brokers (publish_reject cid sy rs io) = io_brokers io"
  by (simp_all add: exec_publish_def io_stamp_def reject_event_json_def order_event_json_def fill_event_json_def
      publish_reject_def Let_def split: prod.splits)

lemma route_paper_frame [simp]: "io_brokers (route_paper cid sy q io) = io_brokers io"
  by (simp add: route_paper_def Let_def split_beta)

lemma poll_fill_calls:
  "\<exists>sts. calls (poll_fill_loop (recording br) slot cid sy oid n io) = calls io @ sts \<and> length sts \<le> n
     \<and> (\<forall>c \<in> set sts. \<exists>r. c = LcStatus slot oid r)"
proof (induction n arbitrary: io)
  case (Suc n)
  obtain w cs where io: "io_brokers io = (w, cs)" by fastforce
  obtain w' r where st: "lb_status br slot oid w = (w', r)" by fastforce
  let ?io = "io\<lparr>io_brokers := (w', cs @ [LcStatus slot oid r])\<rparr>"
  have rs: "lb_status (recording br) slot oid (w, cs) = ((w', cs @ [LcStatus slot oid r]), r)"
    by (simp add: recording_def st)
  obtain sts where sts: "calls (poll_fill_loop (recording br) slot cid sy oid n ?io) = calls ?io @ sts" "length sts \<le> n"
    "\<forall>c \<in> set sts. \<exists>r. c = LcStatus slot oid r" using Suc [of ?io] by blast
  show ?case
  proof (cases "poll_fill_loop (recording br) slot cid sy oid (Suc n) io = poll_fill_loop (recording br) slot cid sy oid n ?io")
    case True
    then show ?thesis using sts by (intro exI [of _ "LcStatus slot oid r # sts"]) (auto simp: io)
  next
    case False
    then have "calls (poll_fill_loop (recording br) slot cid sy oid (Suc n) io) = calls io @ [LcStatus slot oid r]"
      by (auto simp: rs io split_beta Let_def split: sum.splits if_splits)
    then show ?thesis by (intro exI [of _ "[LcStatus slot oid r]"]) auto
  qed
qed simp

lemma live_acked_calls:
  "\<exists>sts. calls (live_acked (recording br) slot cid sy ack io) = calls io @ sts \<and> length sts \<le> 10
     \<and> (\<forall>c \<in> set sts. \<exists>r. c = LcStatus slot (sa_broker_order_id ack) r)"
proof -
  let ?ev = "order_event_json cid (sa_broker_order_id ack) sy ''Submitted'' 0 False io"
  let ?io = "exec_publish ''exec.order.submitted'' (fst ?ev) (snd ?ev)"
  have "live_acked (recording br) slot cid sy ack io = poll_fill_loop (recording br) slot cid sy (sa_broker_order_id ack) 10 ?io"
    by (simp add: live_acked_def poll_fill_def split_beta Let_def)
  moreover have "calls ?io = calls io" by simp
  ultimately show ?thesis using poll_fill_calls [of br slot cid sy "sa_broker_order_id ack" 10 ?io] by metis
qed

lemma live_submit_calls:
  obtains w r where "live_submit (recording br) slot i io = (io\<lparr>io_brokers := (w, calls io @ [LcSubmit slot i r])\<rparr>, r)"
proof -
  obtain w' r where "lb_submit br slot i (fst (io_brokers io)) = (w', r)" by fastforce
  then have "live_submit (recording br) slot i io = (io\<lparr>io_brokers := (w', calls io @ [LcSubmit slot i r])\<rparr>, r)"
    by (simp add: live_submit_def recording_def split_beta)
  then show thesis by (rule that)
qed

text \<open>What one order may do at the brokers: one submission to the primary, a second one to the backup only
  after a failure worth a failover, and at most ten status polls after an acknowledgement.\<close>

definition order_calls :: "broker_intent \<Rightarrow> live_call list \<Rightarrow> bool" where
  "order_calls i cs \<longleftrightarrow>
     (\<exists>e. cs = [LcSubmit Primary i (Inl e)] \<and> \<not> broker_is_retryable e \<and> \<not> is_http e)
   \<or> (\<exists>ack sts. cs = LcSubmit Primary i (Inr ack) # sts \<and> length sts \<le> 10
        \<and> (\<forall>c \<in> set sts. \<exists>r. c = LcStatus Primary (sa_broker_order_id ack) r))
   \<or> (\<exists>e e2. cs = [LcSubmit Primary i (Inl e), LcSubmit Backup i (Inl e2)] \<and> (broker_is_retryable e \<or> is_http e))
   \<or> (\<exists>e ack sts. cs = LcSubmit Primary i (Inl e) # LcSubmit Backup i (Inr ack) # sts \<and> (broker_is_retryable e \<or> is_http e)
        \<and> length sts \<le> 10 \<and> (\<forall>c \<in> set sts. \<exists>r. c = LcStatus Backup (sa_broker_order_id ack) r))"

definition cap_ok :: "string \<Rightarrow> u64 \<Rightarrow> i64 \<Rightarrow> i64 \<Rightarrow> bool" where
  "cap_ok sy qty price cap \<longleftrightarrow> symbol_id_for sy \<noteq> 0 \<and> (price > 0 \<longrightarrow> notional_inr price qty \<le> cap)"

lemma route_live_blocked:
  "\<not> cap_ok sy qty price cap \<Longrightarrow> calls (route_live (recording br) cid sy sd qty price cap io) = calls io"
  by (auto simp: route_live_def cap_ok_def)

lemma route_live_calls:
  assumes "cap_ok sy qty price cap"
  shows "\<exists>cs. calls (route_live (recording br) cid sy sd qty price cap io) = calls io @ cs
    \<and> order_calls (live_intent cid (symbol_id_for sy) sd qty) cs"
proof -
  let ?i = "live_intent cid (symbol_id_for sy) sd qty"
  obtain w r where p: "live_submit (recording br) Primary ?i io = (io\<lparr>io_brokers := (w, calls io @ [LcSubmit Primary ?i r])\<rparr>, r)"
    by (rule live_submit_calls)
  let ?io = "io\<lparr>io_brokers := (w, calls io @ [LcSubmit Primary ?i r])\<rparr>"
  have pass: "(price > 0 \<and> notional_inr price qty > cap) = False" "(symbol_id_for sy = 0) = False"
    using assms by (auto simp: cap_ok_def)
  show ?thesis
  proof (cases r)
    case (Inr ack)
    then have "route_live (recording br) cid sy sd qty price cap io = live_acked (recording br) Primary cid sy ack ?io"
      unfolding route_live_def pass if_False Let_def p by simp
    moreover obtain sts where "calls (live_acked (recording br) Primary cid sy ack ?io) = calls ?io @ sts" "length sts \<le> 10"
      "\<forall>c \<in> set sts. \<exists>r. c = LcStatus Primary (sa_broker_order_id ack) r" using live_acked_calls by metis
    ultimately show ?thesis using Inr by (intro exI [of _ "LcSubmit Primary ?i r # sts"]) (auto simp: order_calls_def)
  next
    case (Inl e)
    show ?thesis
    proof (cases "broker_is_retryable e \<or> is_http e")
      case False
      then have "route_live (recording br) cid sy sd qty price cap io = publish_reject cid sy (broker_error_display e) ?io"
        using Inl unfolding route_live_def pass if_False Let_def p by simp
      with False Inl show ?thesis by (intro exI [of _ "[LcSubmit Primary ?i r]"]) (auto simp: order_calls_def)
    next
      case True
      define io2 where "io2 = exec_publish ''exec.broker.failover''
        (FailoverEvent ''upstox'' ''angel_one'' (broker_error_display e) (fst (io_stamp ?io))) (snd (io_stamp ?io))"
      have io2: "calls io2 = calls io @ [LcSubmit Primary ?i (Inl e)]" using Inl by (simp add: io2_def)
      obtain w2 r2 where b: "live_submit (recording br) Backup ?i io2 = (io2\<lparr>io_brokers := (w2, calls io2 @ [LcSubmit Backup ?i r2])\<rparr>, r2)"
        by (rule live_submit_calls)
      let ?io3 = "io2\<lparr>io_brokers := (w2, calls io2 @ [LcSubmit Backup ?i r2])\<rparr>"
      have route: "route_live (recording br) cid sy sd qty price cap io = (case r2 of
          Inr ack \<Rightarrow> live_acked (recording br) Backup cid sy ack ?io3
        | Inl e2 \<Rightarrow> publish_reject cid sy (''both brokers failed: '' @ broker_error_display e2) ?io3)"
        using Inl True b unfolding route_live_def pass if_False Let_def p by (simp add: split_beta io2_def split: sum.split)
      show ?thesis
      proof (cases r2)
        case (Inl e2)
        with route io2 True show ?thesis
          by (intro exI [of _ "[LcSubmit Primary ?i (Inl e), LcSubmit Backup ?i r2]"]) (auto simp: order_calls_def)
      next
        case (Inr ack)
        obtain sts where "calls (live_acked (recording br) Backup cid sy ack ?io3) = calls ?io3 @ sts" "length sts \<le> 10"
          "\<forall>c \<in> set sts. \<exists>r. c = LcStatus Backup (sa_broker_order_id ack) r" using live_acked_calls by metis
        with route io2 True Inr show ?thesis
          by (intro exI [of _ "LcSubmit Primary ?i (Inl e) # LcSubmit Backup ?i r2 # sts"]) (auto simp: order_calls_def)
      qed
    qed
  qed
qed

text \<open>The order an approval message asks for, when it passes every guard of the service.\<close>

definition message_order :: "'v json_api \<Rightarrow> i64 \<Rightarrow> bytes \<Rightarrow> broker_intent option" where
  "message_order js cap b =
     (case js_from_slice js b of None \<Rightarrow> None
      | Some v \<Rightarrow>
         (let data = opt_or (js_get js v ''data'') v;
              cid = opt_or (js_field js (js_as_str js) data ''correlation_id'') '''';
              qty = opt_or (js_field js (js_as_u64 js) data ''sized_quantity'') 0;
              sy = opt_or (js_field js (js_as_str js) data ''symbol'') ''UNKNOWN'';
              price = opt_or (js_field js (js_as_i64 js) data ''entry_price_paise'') 0;
              sd = parse_side (opt_or (js_field js (js_as_str js) data ''side'') ''buy'')
          in if cid \<noteq> '''' \<and> qty \<noteq> 0 \<and> cap_ok sy qty price cap then Some (live_intent cid (symbol_id_for sy) sd qty) else None))"

lemma handle_approval_calls:
  assumes "handle_approval js (recording br) b live cap io = Some io'"
  shows "case (if live then message_order js cap b else None) of
      None \<Rightarrow> calls io' = calls io
    | Some i \<Rightarrow> \<exists>cs. calls io' = calls io @ cs \<and> order_calls i cs"
proof -
  obtain v where v: "js_from_slice js b = Some v" using assms by (auto simp: handle_approval_def split: option.splits)
  define data where "data = opt_or (js_get js v ''data'') v"
  define cid where "cid = opt_or (js_field js (js_as_str js) data ''correlation_id'') ''''"
  define qty where "qty = opt_or (js_field js (js_as_u64 js) data ''sized_quantity'') 0"
  define sy where "sy = opt_or (js_field js (js_as_str js) data ''symbol'') ''UNKNOWN''"
  define price where "price = opt_or (js_field js (js_as_i64 js) data ''entry_price_paise'') 0"
  define sd where "sd = parse_side (opt_or (js_field js (js_as_str js) data ''side'') ''buy'')"
  note defs = data_def [symmetric] cid_def [symmetric] qty_def [symmetric] sy_def [symmetric] price_def [symmetric] sd_def [symmetric]
  have h: "(if cid = '''' then Some io else if qty = 0 then Some io
      else if live then Some (route_live (recording br) cid sy sd qty price cap io) else Some (route_paper cid sy qty io)) = Some io'"
    using assms unfolding handle_approval_def v option.case Let_def defs .
  have m: "message_order js cap b = (if cid \<noteq> '''' \<and> qty \<noteq> 0 \<and> cap_ok sy qty price cap
      then Some (live_intent cid (symbol_id_for sy) sd qty) else None)"
    unfolding message_order_def v option.case Let_def defs ..
  show ?thesis
  proof (cases "live \<and> cid \<noteq> '''' \<and> qty \<noteq> 0 \<and> cap_ok sy qty price cap")
    case True
    then show ?thesis using h m route_live_calls [of sy qty price cap br cid sd io] by auto
  next
    case False
    then have "calls io' = calls io" using h route_live_blocked [of sy qty price cap br cid sd io] by (auto split: if_splits)
    with False m show ?thesis by auto
  qed
qed

text \<open>The trading mode after a sequence of messages.\<close>

fun live_after :: "'v json_api \<Rightarrow> bool \<Rightarrow> exec_input list \<Rightarrow> bool" where
  "live_after js l [] = l"
| "live_after js l (ModeMsg b # ms) =
     live_after js (opt_or (Option.bind (js_from_slice js b) (\<lambda>v. js_field js (js_as_bool js) v ''live'')) False) ms"
| "live_after js l (ApprovalMsg b # ms) = live_after js l ms"

lemma exec_service_mode: "fst (exec_service js br cap ms s) = live_after js (fst s) ms"
proof (induction ms arbitrary: s)
  case (Cons m ms)
  then show ?case by (cases s; cases m) (auto simp: on_mode_def Let_def split: option.splits)
qed simp

lemma exec_service_snoc:
  "exec_service js br cap (ms @ [m]) s = exec_service_step js br cap m (exec_service js br cap ms s)"
  by (induction ms arbitrary: s) auto

lemma order_calls_submits: "order_calls i cs \<Longrightarrow> LcSubmit slot j r \<in> set cs \<Longrightarrow> j = i"
  by (auto simp: order_calls_def)

lemma order_calls_acked: "order_calls i cs \<Longrightarrow> length (filter is_acked cs) \<le> 1 \<and> length (filter is_submit cs) \<le> 2"
proof -
  have none: "filter is_acked sts = [] \<and> filter is_submit sts = []" if "\<forall>c \<in> set sts. \<exists>r. c = LcStatus slot oid r" for slot oid sts
    using that by (induction sts) auto
  assume "order_calls i cs"
  then show ?thesis unfolding order_calls_def using none by (elim disjE exE conjE) (simp_all)
qed

lemma exec_service_guarded:
  assumes "calls (snd s) = []" and "LcSubmit slot i r \<in> set (calls (snd (exec_service js (recording br) cap ms s)))"
  shows "\<exists>pre b post. ms = pre @ ApprovalMsg b # post \<and> live_after js (fst s) pre \<and> message_order js cap b = Some i"
  using assms(2)
proof (induction ms rule: rev_induct)
  case Nil
  then show ?case using assms(1) by simp
next
  case (snoc m ms)
  obtain live io where mid: "exec_service js (recording br) cap ms s = (live, io)" by fastforce
  have live: "live = live_after js (fst s) ms" using exec_service_mode [of js "recording br" cap ms s] mid by simp
  show ?case
  proof (cases "LcSubmit slot i r \<in> set (calls io)")
    case True
    with snoc.IH mid obtain pre b post where "ms = pre @ ApprovalMsg b # post" "live_after js (fst s) pre"
      "message_order js cap b = Some i" by auto
    then show ?thesis by (intro exI [of _ pre] exI [of _ b] exI [of _ "post @ [m]"]) simp
  next
    case False
    with snoc.prems mid obtain b io' where m: "m = ApprovalMsg b"
        "handle_approval js (recording br) b live cap io = Some io'" "LcSubmit slot i r \<in> set (calls io')"
      by (cases m) (auto simp: exec_service_snoc on_mode_def Let_def split: option.splits)
    with handle_approval_calls [OF m(2)] False have "live \<and> message_order js cap b = Some i"
      by (auto split: option.splits if_splits dest: order_calls_submits)
    with live m(1) show ?thesis by (intro exI [of _ ms] exI [of _ b] exI [of _ "[]"]) simp
  qed
qed

lemma order_calls_length: "order_calls i cs \<Longrightarrow> length cs \<le> 12"
  by (auto simp: order_calls_def)

section \<open>Behaviours behind the findings\<close>

text \<open>Without a price the cap does not apply, whatever the quantity.\<close>

lemma unpriced_order_uncapped:
  assumes "js_from_slice js b = Some v" "js_get js v ''data'' = None"
    and "js_field js (js_as_str js) v ''correlation_id'' = Some cid" "cid \<noteq> ''''"
    and "js_field js (js_as_u64 js) v ''sized_quantity'' = Some qty" "qty \<noteq> 0"
    and "js_field js (js_as_str js) v ''symbol'' = Some sy" "symbol_id_for sy \<noteq> 0"
    and "js_field js (js_as_i64 js) v ''entry_price_paise'' = None"
  shows "\<exists>i. message_order js cap b = Some i \<and> bi_quantity i = qty"
  using assms by (auto simp: message_order_def opt_or_def cap_ok_def live_intent_def)

text \<open>An approval that is delivered twice is submitted twice.\<close>

lemma redelivery_resubmits:
  assumes "message_order js cap b = Some i"
    and "handle_approval js (recording br) b True cap io = Some io1"
    and "handle_approval js (recording br) b True cap io1 = Some io2"
  shows "\<exists>cs1 cs2. calls io2 = calls io @ cs1 @ cs2 \<and> order_calls i cs1 \<and> order_calls i cs2"
  using handle_approval_calls [OF assms(2)] handle_approval_calls [OF assms(3)] assms(1) by fastforce

text \<open>Only the first sixteen characters of a correlation id reach the broker.\<close>

lemma parse_cid_prefix: "take 16 a = take 16 b \<Longrightarrow> parse_cid a = parse_cid b"
  by (simp add: parse_cid_def)

section \<open>Properties\<close>

text \<open>Concrete parameters: values as trees, two message bodies, and a broker that is down with its backup up.\<close>

datatype sample_json = JObj "(string \<times> sample_json) list" | JStr string | JNum int | JBool bool

definition sample_js :: "sample_json json_api" where
  "sample_js = \<lparr>
     js_from_slice = (\<lambda>b. if b = [1] then Some (JObj [(''correlation_id'', JStr ''abc''), (''sized_quantity'', JNum 5),
        (''symbol'', JStr ''INFY''), (''entry_price_paise'', JNum 150000), (''side'', JStr ''sell'')])
       else if b = [2] then Some (JObj [(''live'', JBool True)]) else None),
     js_get = (\<lambda>v k. case v of JObj fs \<Rightarrow> map_of fs k | _ \<Rightarrow> None),
     js_as_str = (\<lambda>v. case v of JStr s \<Rightarrow> Some s | _ \<Rightarrow> None),
     js_as_u64 = (\<lambda>v. case v of JNum n \<Rightarrow> Some (word_of_int n) | _ \<Rightarrow> None),
     js_as_i64 = (\<lambda>v. case v of JNum n \<Rightarrow> Some n | _ \<Rightarrow> None),
     js_as_bool = (\<lambda>v. case v of JBool b \<Rightarrow> Some b | _ \<Rightarrow> None)\<rparr>"

definition sample_live :: "unit live_brokers" where
  "sample_live = \<lparr>lb_submit = (\<lambda>slot i w. (w, case slot of Primary \<Rightarrow> Inl (BrokerNetwork ''down'')
       | Backup \<Rightarrow> Inr \<lparr>sa_broker_order_id = ''B1'', sa_broker_ts_ns = None\<rparr>)),
     lb_status = (\<lambda>slot oid w. (w, Inr \<lparr>os_broker_order_id = oid, os_state = Filled, os_filled_qty = 5,
       os_avg_fill_paise = 150000, os_broker_ts_ns = None\<rparr>))\<rparr>"

definition sample_io :: "(unit \<times> live_call list) exec_io" where
  "sample_io = \<lparr>io_brokers = ((), []), io_now = int, io_reads = 0, io_out = []\<rparr>"

definition sample_order :: broker_intent where
  "sample_order = live_intent ''abc'' 2 Sell 5"

lemma sample_message: "message_order sample_js 50000 [1] = Some sample_order"
  by (simp add: message_order_def sample_js_def js_field_def opt_or_def cap_ok_def notional_inr_def parse_side_def
      symbol_id_for_def sample_order_def Let_def)

lemma poll_filled:
  assumes "lb_status br slot oid (io_brokers io) = (w, Inr st)" "os_state st = Filled"
  shows "poll_fill br slot cid sy oid io =
    (let (ev, io) = fill_event_json cid oid sy (os_filled_qty st) False (io\<lparr>io_brokers := w\<rparr>) in exec_publish (''exec.fill.'' @ sy) ev io)"
proof -
  have "poll_fill br slot cid sy oid io = poll_fill_loop br slot cid sy oid (Suc 9) io" by (simp add: poll_fill_def)
  then show ?thesis using assms by (simp only: poll_fill_loop.simps) (simp add: Let_def)
qed

text \<open>C4: No order reaches a broker without its guards. Over any sequence of mode and approval messages,
  whatever the brokers answer, every submission stems from an approval message that was taken up while
  the mode was live, names an order (a correlation id, a nonzero quantity and a known symbol) and,
  when it carries a positive price, keeps the notional within the cap.\<close>

theorem live_orders_guarded:
  assumes "calls io = []"
    and "LcSubmit slot i r \<in> set (calls (snd (exec_service js (recording br) cap ms (live, io))))"
  shows "\<exists>pre b post. ms = pre @ ApprovalMsg b # post \<and> live_after js live pre \<and> message_order js cap b = Some i"
  using exec_service_guarded [of "(live, io)"] assms by simp

theorem live_orders_guarded_witness:
  "\<exists>pre b post. [ModeMsg [2], ApprovalMsg [1]] = pre @ ApprovalMsg b # post \<and> live_after sample_js False pre
     \<and> message_order sample_js 50000 b = Some sample_order"
proof -
  have "calls (snd (exec_service sample_js (recording sample_live) 50000 [ModeMsg [2], ApprovalMsg [1]] (False, sample_io)))
      = [LcSubmit Primary sample_order (Inl (BrokerNetwork ''down'')),
         LcSubmit Backup sample_order (Inr \<lparr>sa_broker_order_id = ''B1'', sa_broker_ts_ns = None\<rparr>),
         LcStatus Backup ''B1'' (Inr \<lparr>os_broker_order_id = ''B1'', os_state = Filled, os_filled_qty = 5,
           os_avg_fill_paise = 150000, os_broker_ts_ns = None\<rparr>)]"
    by (simp add: sample_js_def sample_live_def sample_io_def recording_def on_mode_def handle_approval_def route_live_def
        live_submit_def live_acked_def poll_filled io_stamp_def exec_publish_def order_event_json_def fill_event_json_def
        js_field_def opt_or_def notional_inr_def parse_side_def symbol_id_for_def sample_order_def Let_def)
  then show ?thesis
    by (intro live_orders_guarded [of sample_io Primary sample_order "Inl (BrokerNetwork ''down'')" sample_js sample_live])
      (simp_all add: sample_io_def)
qed

text \<open>C38: One approval, at most one order. Handling an approval makes no broker call unless the mode is
  live and the message passes the guards; then it submits the same order to the primary and, only
  after a retryable or HTTP failure, once to the backup, has at most one acknowledgement, and
  polls the acknowledging broker at most ten times.\<close>

theorem approval_calls_bounded:
  assumes "handle_approval js (recording br) b live cap io = Some io'"
  shows "\<exists>cs. calls io' = calls io @ cs \<and> length (filter is_acked cs) \<le> 1 \<and> length (filter is_submit cs) \<le> 2
    \<and> length cs \<le> 12 \<and> (cs = [] \<or> live \<and> (\<exists>i. message_order js cap b = Some i \<and> order_calls i cs))"
proof (cases "if live then message_order js cap b else None")
  case None
  then show ?thesis using handle_approval_calls [OF assms] by simp
next
  case (Some i)
  then obtain cs where "calls io' = calls io @ cs" "order_calls i cs" using handle_approval_calls [OF assms] by auto
  then show ?thesis using Some order_calls_acked order_calls_length by (intro exI [of _ cs]) (auto split: if_splits)
qed

theorem approval_calls_bounded_witness:
  "\<exists>io' cs. handle_approval sample_js (recording sample_live) [1] True 50000 sample_io = Some io'
     \<and> calls io' = cs \<and> length (filter is_acked cs) \<le> 1 \<and> length cs \<le> 12"
proof -
  obtain io' where "handle_approval sample_js (recording sample_live) [1] True 50000 sample_io = Some io'"
    by (simp add: handle_approval_def sample_js_def js_field_def opt_or_def Let_def)
  from this approval_calls_bounded [OF this] show ?thesis by (auto simp: sample_io_def)
qed

end
