(* ===== verification/Position.thy ===== *)
theory Position
  imports Core_Types "HOL-Library.Multiset"
begin

text \<open>
  The Position_Engine (\<open>hedge-position/src\<close>): volume-weighted PnL arithmetic (\<open>pnl.rs\<close>), the
  per-symbol position (\<open>position.rs\<close>), the aggregate risk state (\<open>risk_state.rs\<close>) and the
  registry with its publication throttle (\<open>engine.rs\<close>). Prices are paise; the registry is an
  association list in the iteration order of the concurrent map, which is unspecified: the
  aggregate is shown not to depend on it.
\<close>

section \<open>PnL arithmetic (pnl.rs)\<close>

record fill_outcome =
  fo_new_quantity :: i64
  fo_new_avg_entry_px :: i64
  fo_delta_realized_paise :: i64

definition apply_fill_inner :: "i64 \<Rightarrow> i64 \<Rightarrow> side \<Rightarrow> u64 \<Rightarrow> i64 \<Rightarrow> fill_outcome" where
  "apply_fill_inner old_qty old_avg side fill_qty fill_px =
     (if fill_qty = 0 then
        \<lparr>fo_new_quantity = old_qty, fo_new_avg_entry_px = old_avg, fo_delta_realized_paise = 0\<rparr>
      else
        let signed_fill = (case side of Buy \<Rightarrow> uint fill_qty | Sell \<Rightarrow> - uint fill_qty);
            new_qty_signed = old_qty + signed_fill
        in if old_qty = 0 then
             \<lparr>fo_new_quantity = wrap_i64 new_qty_signed, fo_new_avg_entry_px = fill_px, fo_delta_realized_paise = 0\<rparr>
           else
             let same_direction = ((old_qty > 0 \<and> side = Buy) \<or> (old_qty < 0 \<and> side = Sell));
                 abs_old = \<bar>old_qty\<bar>
             in if same_direction then
                  let denom = abs_old + uint fill_qty;
                      num = wrap_i128 (abs_old * old_avg + uint fill_qty * fill_px);
                      new_avg = num sdiv denom
                  in \<lparr>fo_new_quantity = wrap_i64 new_qty_signed, fo_new_avg_entry_px = wrap_i64 new_avg,
                      fo_delta_realized_paise = 0\<rparr>
                else
                  let close_qty = min abs_old (uint fill_qty);
                      realized = wrap_i128 (if old_qty > 0 then (fill_px - old_avg) * close_qty
                                            else (old_avg - fill_px) * close_qty);
                      residual = uint fill_qty - close_qty
                  in if residual = 0 then
                       let new_qty = wrap_i64 new_qty_signed;
                           new_avg = (if new_qty = 0 then 0 else old_avg)
                       in \<lparr>fo_new_quantity = new_qty, fo_new_avg_entry_px = new_avg,
                           fo_delta_realized_paise = wrap_i64 realized\<rparr>
                     else \<lparr>fo_new_quantity = wrap_i64 new_qty_signed, fo_new_avg_entry_px = fill_px,
                           fo_delta_realized_paise = wrap_i64 realized\<rparr>)"

definition unrealized_pnl_of :: "i64 \<Rightarrow> i64 \<Rightarrow> i64 \<Rightarrow> i64" where
  "unrealized_pnl_of qty avg_entry_px mark_px =
     (if qty = 0 \<or> mark_px = 0 then 0
      else wrap_i64 (wrap_i128 ((mark_px - avg_entry_px) * qty)))"

section \<open>A position (position.rs)\<close>

record strategy_allocation =
  sal_strategy_id :: u8
  sal_quantity :: i64
  sal_allocated_capital_inr :: i64

record position =
  ps_symbol :: u32
  ps_quantity :: i64
  ps_avg_entry_px :: i64
  ps_realized_pnl_paise :: i64
  ps_unrealized_pnl_paise :: i64
  ps_last_mark_px :: i64
  ps_strategy_allocations :: "strategy_allocation list"

definition position_flat :: "u32 \<Rightarrow> position" where
  "position_flat symbol = \<lparr>ps_symbol = symbol, ps_quantity = 0, ps_avg_entry_px = 0,
     ps_realized_pnl_paise = 0, ps_unrealized_pnl_paise = 0, ps_last_mark_px = 0, ps_strategy_allocations = []\<rparr>"

definition is_flat :: "position \<Rightarrow> bool" where
  "is_flat p \<longleftrightarrow> ps_quantity p = 0"

definition exposure_paise :: "position \<Rightarrow> i64" where
  "exposure_paise p =
     (if ps_quantity p = 0 then 0
      else let prod = wrap_i128 (\<bar>ps_quantity p\<bar> * ps_avg_entry_px p)
           in if prod > i64_max then i64_max else wrap_i64 prod)"

definition position_total_pnl :: "position \<Rightarrow> i64" where
  "position_total_pnl p = sat_i64 (ps_realized_pnl_paise p + ps_unrealized_pnl_paise p)"

definition apply_fill :: "side \<Rightarrow> u64 \<Rightarrow> i64 \<Rightarrow> position \<Rightarrow> position \<times> i64" where
  "apply_fill side fill_qty fill_px p =
     (let outcome = apply_fill_inner (ps_quantity p) (ps_avg_entry_px p) side fill_qty fill_px;
          p = p\<lparr>ps_quantity := fo_new_quantity outcome, ps_avg_entry_px := fo_new_avg_entry_px outcome,
                ps_realized_pnl_paise := sat_i64 (ps_realized_pnl_paise p + fo_delta_realized_paise outcome)\<rparr>;
          p = p\<lparr>ps_unrealized_pnl_paise := unrealized_pnl_of (ps_quantity p) (ps_avg_entry_px p) (ps_last_mark_px p)\<rparr>
      in (p, fo_delta_realized_paise outcome))"

definition apply_mark :: "i64 \<Rightarrow> position \<Rightarrow> position" where
  "apply_mark mark_px p =
     p\<lparr>ps_last_mark_px := mark_px,
       ps_unrealized_pnl_paise := unrealized_pnl_of (ps_quantity p) (ps_avg_entry_px p) mark_px\<rparr>"

definition position_set_allocations :: "strategy_allocation list \<Rightarrow> position \<Rightarrow> position" where
  "position_set_allocations allocs p = p\<lparr>ps_strategy_allocations := allocs\<rparr>"

section \<open>The aggregate (risk_state.rs)\<close>

record trader_risk_state =
  tr_aggregate_exposure_paise :: i64
  tr_drawdown_paise :: i64
  tr_available_margin_paise :: i64
  tr_peak_equity_paise :: i64

definition tr_fresh :: "i64 \<Rightarrow> trader_risk_state" where
  "tr_fresh base_capital_paise = \<lparr>tr_aggregate_exposure_paise = 0, tr_drawdown_paise = 0,
     tr_available_margin_paise = base_capital_paise, tr_peak_equity_paise = base_capital_paise\<rparr>"

text \<open>The \<open>*_inr\<close> helpers divide by 100, truncating.\<close>

definition paise_to_inr :: "i64 \<Rightarrow> i64" where
  "paise_to_inr v = v sdiv 100"

text \<open>The three sums are \<open>i128\<close>; fewer than $2^{63}$ \<open>i64\<close> values cannot overflow them.\<close>

definition aggregate_state :: "position list \<Rightarrow> i64 \<Rightarrow> i64 \<Rightarrow> trader_risk_state" where
  "aggregate_state positions base_capital_paise previous_peak_equity_paise =
     (let (aggregate_exposure, realized, unrealized) =
            fold (\<lambda>p (x, r, u). (x + exposure_paise p, r + ps_realized_pnl_paise p, u + ps_unrealized_pnl_paise p))
              positions (0, 0, 0);
          total_pnl = realized + unrealized;
          equity = base_capital_paise + total_pnl;
          new_peak = max equity previous_peak_equity_paise;
          drawdown = max (new_peak - equity) 0;
          available_margin = base_capital_paise + realized - aggregate_exposure
      in \<lparr>tr_aggregate_exposure_paise = sat_i64 aggregate_exposure, tr_drawdown_paise = sat_i64 drawdown,
          tr_available_margin_paise = sat_i64 available_margin, tr_peak_equity_paise = sat_i64 new_peak\<rparr>)"

section \<open>The registry (engine.rs)\<close>

definition DEFAULT_POS_UPDATE_THROTTLE_NS :: u64 where
  "DEFAULT_POS_UPDATE_THROTTLE_NS = 100000000"

text \<open>A snapshot has the fields of the position.\<close>

datatype position_event = PositionUpdate u32 position | RiskStateEvent trader_risk_state

record position_engine =
  pe_positions :: "(u32 \<times> position) list"
  pe_aggregate :: trader_risk_state
  pe_last_emit_ns :: "u32 \<rightharpoonup> u64"
  pe_last_published :: "trader_risk_state option"
  pe_base_capital_paise :: i64
  pe_throttle_ns :: u64

definition pe_with_throttle :: "i64 \<Rightarrow> u64 \<Rightarrow> position_engine" where
  "pe_with_throttle base_capital_paise throttle = \<lparr>pe_positions = [], pe_aggregate = tr_fresh base_capital_paise,
     pe_last_emit_ns = (\<lambda>_. None), pe_last_published = None, pe_base_capital_paise = base_capital_paise,
     pe_throttle_ns = throttle\<rparr>"

definition pe_new :: "i64 \<Rightarrow> position_engine" where
  "pe_new base_capital_paise = pe_with_throttle base_capital_paise DEFAULT_POS_UPDATE_THROTTLE_NS"

text \<open>\<open>entry(symbol).or_insert_with(flat)\<close> followed by an update in place.\<close>

fun upsert :: "u32 \<Rightarrow> (position \<Rightarrow> position) \<Rightarrow> (u32 \<times> position) list \<Rightarrow> (u32 \<times> position) list" where
  "upsert symbol f [] = [(symbol, f (position_flat symbol))]"
| "upsert symbol f ((s, p) # ps) = (if s = symbol then (s, f p) # ps else (s, p) # upsert symbol f ps)"

definition recompute_aggregate :: "position_engine \<Rightarrow> position_engine \<times> trader_risk_state" where
  "recompute_aggregate e =
     (let new_state = aggregate_state (map snd (pe_positions e)) (pe_base_capital_paise e)
                        (tr_peak_equity_paise (pe_aggregate e))
      in (e\<lparr>pe_aggregate := new_state\<rparr>, new_state))"

definition position_of :: "u32 \<Rightarrow> position_engine \<Rightarrow> position option" where
  "position_of symbol e = map_of (pe_positions e) symbol"

definition pe_on_fill :: "u32 \<Rightarrow> side \<Rightarrow> u64 \<Rightarrow> i64 \<Rightarrow> u64 \<Rightarrow> position_engine \<Rightarrow> position_engine \<times> position_event list" where
  "pe_on_fill symbol side fill_qty fill_px now_ns e =
     (let e = e\<lparr>pe_positions := upsert symbol (\<lambda>p. fst (apply_fill side fill_qty fill_px p)) (pe_positions e)\<rparr>;
          snapshot = the (position_of symbol e);
          (e, new_state) = recompute_aggregate e;
          e = e\<lparr>pe_last_emit_ns := (pe_last_emit_ns e)(symbol \<mapsto> now_ns), pe_last_published := Some new_state\<rparr>
      in (e, [PositionUpdate symbol snapshot, RiskStateEvent new_state]))"

definition pe_on_tick :: "u32 \<Rightarrow> i64 \<Rightarrow> u64 \<Rightarrow> position_engine \<Rightarrow> position_engine \<times> position_event list" where
  "pe_on_tick symbol mark_px now_ns e =
     (case position_of symbol e of
        None \<Rightarrow> (e, [])
      | Some p \<Rightarrow>
          if ps_quantity p = 0 then
            (e\<lparr>pe_positions := upsert symbol (\<lambda>p. p\<lparr>ps_last_mark_px := mark_px, ps_unrealized_pnl_paise := 0\<rparr>) (pe_positions e)\<rparr>, [])
          else
            let e = e\<lparr>pe_positions := upsert symbol (apply_mark mark_px) (pe_positions e)\<rparr>;
                snapshot = apply_mark mark_px p;
                last_emit = (case pe_last_emit_ns e symbol of Some t \<Rightarrow> t | None \<Rightarrow> 0);
                elapsed = usat_sub now_ns last_emit;
                (e, events) = (if elapsed \<ge> pe_throttle_ns e
                               then (e\<lparr>pe_last_emit_ns := (pe_last_emit_ns e)(symbol \<mapsto> now_ns)\<rparr>, [PositionUpdate symbol snapshot])
                               else (e, []));
                (e, new_state) = recompute_aggregate e
            in if (case pe_last_published e of Some prev \<Rightarrow> prev \<noteq> new_state | None \<Rightarrow> True)
               then (e\<lparr>pe_last_published := Some new_state\<rparr>, events @ [RiskStateEvent new_state])
               else (e, events))"

definition snapshot_risk_state :: "position_engine \<Rightarrow> trader_risk_state" where
  "snapshot_risk_state e = pe_aggregate e"

definition pe_strategy_allocations :: "position_engine \<Rightarrow> (u32 \<times> strategy_allocation) list" where
  "pe_strategy_allocations e =
     concat (map (\<lambda>(_, p). map (\<lambda>a. (ps_symbol p, a)) (ps_strategy_allocations p)) (pe_positions e))"

definition pe_set_strategy_allocations :: "u32 \<Rightarrow> strategy_allocation list \<Rightarrow> position_engine \<Rightarrow> position_engine" where
  "pe_set_strategy_allocations symbol allocs e =
     e\<lparr>pe_positions := upsert symbol (position_set_allocations allocs) (pe_positions e)\<rparr>"

definition tracked_symbols :: "position_engine \<Rightarrow> nat" where
  "tracked_symbols e = length (pe_positions e)"

section \<open>Lemmas\<close>

subsection \<open>Cost accounting\<close>

definition signed_qty :: "side \<Rightarrow> u64 \<Rightarrow> int" where
  "signed_qty side q = (case side of Buy \<Rightarrow> uint q | Sell \<Rightarrow> - uint q)"

text \<open>Cost basis of the open quantity minus realised profit: what has been paid net.\<close>

definition net_paid :: "position \<Rightarrow> int" where
  "net_paid p = ps_avg_entry_px p * ps_quantity p - ps_realized_pnl_paise p"

text \<open>A position after a traded volume of at most \<open>V\<close> at prices up to \<open>P\<close>.\<close>

definition pos_inv :: "int \<Rightarrow> int \<Rightarrow> position \<Rightarrow> bool" where
  "pos_inv P V p \<longleftrightarrow> \<bar>ps_quantity p\<bar> \<le> V \<and> 0 \<le> ps_avg_entry_px p \<and> ps_avg_entry_px p \<le> P
     \<and> (ps_quantity p = 0 \<longrightarrow> ps_avg_entry_px p = 0) \<and> \<bar>ps_realized_pnl_paise p\<bar> \<le> P * V"

definition small :: "int \<Rightarrow> int \<Rightarrow> bool" where
  "small P V \<longleftrightarrow> 0 \<le> P \<and> P \<le> 4611686018427387904 \<and> 0 \<le> V \<and> V \<le> 4611686018427387904 \<and> P * V \<le> 4611686018427387904"

lemma small_mono: "small P V' \<Longrightarrow> 0 \<le> V \<Longrightarrow> V \<le> V' \<Longrightarrow> small P V"
  using mult_left_mono [of V V' P] by (simp add: small_def)

lemma small_range:
  "small P V \<Longrightarrow> \<bar>x\<bar> \<le> V \<Longrightarrow> in_i64 x" "small P V \<Longrightarrow> \<bar>x\<bar> \<le> P * V \<Longrightarrow> in_i64 x"
  "small P V \<Longrightarrow> \<bar>x\<bar> \<le> P * V \<Longrightarrow> in_i128 x"
  by (auto simp: small_def i64_defs i128_defs)

lemma price_diff: "0 \<le> a \<Longrightarrow> a \<le> P \<Longrightarrow> 0 \<le> b \<Longrightarrow> b \<le> P \<Longrightarrow> 0 \<le> c \<Longrightarrow> \<bar>(a - b) * c\<bar> \<le> P * (c :: int)"
  by (simp add: abs_mult mult_right_mono)

text \<open>One fill: the outcome of the arithmetic when nothing wraps.\<close>

definition fill_ok :: "int \<Rightarrow> i64 \<Rightarrow> i64 \<Rightarrow> int \<Rightarrow> fill_outcome \<Rightarrow> int \<Rightarrow> int \<Rightarrow> bool" where
  "fill_ok P qty avg V' out sq px \<longleftrightarrow> fo_new_quantity out = qty + sq
     \<and> 0 \<le> fo_new_avg_entry_px out \<and> fo_new_avg_entry_px out \<le> P
     \<and> (fo_new_quantity out = 0 \<longrightarrow> fo_new_avg_entry_px out = 0)
     \<and> \<bar>fo_delta_realized_paise out\<bar> \<le> P * \<bar>sq\<bar>
     \<and> \<bar>fo_new_avg_entry_px out * fo_new_quantity out - fo_delta_realized_paise out - (avg * qty + sq * px)\<bar> \<le> V'"

lemma fill_inner_scale:
  assumes "small P (\<bar>qty\<bar> + uint fq)" and "0 \<le> avg" "avg \<le> P" "0 \<le> px" "px \<le> P" "fq \<noteq> 0"
    and dir: "(qty > 0 \<and> side = Buy) \<or> (qty < 0 \<and> side = Sell)"
  shows "fill_ok P qty avg (\<bar>qty\<bar> + uint fq) (apply_fill_inner qty avg side fq px) (signed_qty side fq) px"
proof -
  define f where "f = uint fq"
  have f: "0 < f" using assms(6) uint_ge_0 [of fq] by (simp add: f_def order_less_le uint_0_iff)
  define d where "d = \<bar>qty\<bar> + f"
  define num where "num = \<bar>qty\<bar> * avg + f * px"
  have d: "0 < d" "small P d" using f assms(1) by (simp_all add: d_def f_def)
  have n: "0 \<le> num" "num \<le> P * d"
  proof -
    show "0 \<le> num" using assms(2,4) f by (simp add: num_def)
    have "\<bar>qty\<bar> * avg \<le> \<bar>qty\<bar> * P" "f * px \<le> f * P" using assms(3,5) f by (simp_all add: mult_left_mono)
    then show "num \<le> P * d" by (simp add: num_def d_def ring_distribs mult.commute)
  qed
  have w: "wrap_i128 num = num" using small_range(3) [OF d(2), of num] n by simp
  define a where "a = num sdiv d"
  have a: "0 \<le> a" "a \<le> P" "\<bar>num - a * d\<bar> < d"
    using sdiv_between [OF d(1), of 0 num P] n sdiv_error [OF d(1), of num] by (simp_all add: a_def)
  have wa: "wrap_i64 a = a" using a d(2) by (simp add: small_def i64_defs)
  have q: "\<bar>qty + signed_qty side fq\<bar> = d" "qty + signed_qty side fq \<noteq> 0"
    using dir f by (auto simp: signed_qty_def d_def f_def)
  have wq: "wrap_i64 (qty + signed_qty side fq) = qty + signed_qty side fq"
    using small_range(1) [OF d(2), of "qty + signed_qty side fq"] q by simp
  have ne: "qty \<noteq> 0" using dir by auto
  have out: "apply_fill_inner qty avg side fq px =
      \<lparr>fo_new_quantity = qty + signed_qty side fq, fo_new_avg_entry_px = a, fo_delta_realized_paise = 0\<rparr>"
    using assms(6) dir ne w wa wq
    by (simp add: apply_fill_inner_def Let_def signed_qty_def [symmetric] num_def [symmetric] f_def [symmetric]
        d_def [symmetric] a_def [symmetric])
  have "a * (qty + signed_qty side fq) - (avg * qty + signed_qty side fq * px) = (if qty > 0 then - (num - a * d) else num - a * d)"
    using dir f by (auto simp: signed_qty_def d_def num_def f_def algebra_simps)
  then have "\<bar>a * (qty + signed_qty side fq) - (avg * qty + signed_qty side fq * px)\<bar> \<le> d"
    using a(3) by (simp split: if_splits)
  then show ?thesis
    using a q out small_def d(2) by (simp add: fill_ok_def d_def f_def)
qed

lemma fill_inner_close:
  assumes "small P (\<bar>qty\<bar> + uint fq)" and "0 \<le> avg" "avg \<le> P" "0 \<le> px" "px \<le> P" "fq \<noteq> 0" "qty \<noteq> 0"
    and dir: "\<not> ((qty > 0 \<and> side = Buy) \<or> (qty < 0 \<and> side = Sell))"
  shows "fill_ok P qty avg (\<bar>qty\<bar> + uint fq) (apply_fill_inner qty avg side fq px) (signed_qty side fq) px"
proof -
  define f where "f = uint fq"
  have f: "0 < f" using assms(6) uint_ge_0 [of fq] by (simp add: f_def order_less_le uint_0_iff)
  define c where "c = min \<bar>qty\<bar> f"
  define r where "r = (if qty > 0 then (px - avg) * c else (avg - px) * c)"
  have c: "0 \<le> c" "c \<le> f" "c \<le> \<bar>qty\<bar>" using f by (simp_all add: c_def)
  have P: "0 \<le> P" using assms(1) by (simp add: small_def)
  have r: "\<bar>r\<bar> \<le> P * c" using price_diff [of px P avg c] price_diff [of avg P px c] assms(2-5) c by (simp add: r_def)
  have rf: "\<bar>r\<bar> \<le> P * f" using r mult_left_mono [OF c(2) P] by linarith
  have rV: "\<bar>r\<bar> \<le> P * (\<bar>qty\<bar> + uint fq)" using rf mult_left_mono [of f "\<bar>qty\<bar> + f" P] P by (simp add: f_def)
  have w: "wrap_i128 r = r" "wrap_i64 r = r" using small_range(2,3) [OF assms(1) rV] by simp_all
  have wq: "wrap_i64 (qty + signed_qty side fq) = qty + signed_qty side fq"
    using small_range(1) [OF assms(1), of "qty + signed_qty side fq"] f
    by (cases side) (auto simp: signed_qty_def f_def)
  define q where "q = qty + signed_qty side fq"
  have q: "q = (if qty > 0 then qty - f else qty + f)"
    using dir assms(7) by (cases side) (auto simp: q_def signed_qty_def f_def)
  have out: "apply_fill_inner qty avg side fq px =
      \<lparr>fo_new_quantity = q, fo_new_avg_entry_px = (if f - c = 0 then (if q = 0 then 0 else avg) else px),
       fo_delta_realized_paise = r\<rparr>"
    using assms(6,7) dir w wq
    by (auto simp: apply_fill_inner_def Let_def signed_qty_def [symmetric] f_def [symmetric] c_def [symmetric]
        r_def [symmetric] q_def [symmetric])
  have sq: "signed_qty side fq = (if qty > 0 then - f else f)"
    using dir assms(7) by (cases side) (auto simp: signed_qty_def f_def)
  have zero: "q = 0 \<longrightarrow> f - c = 0" using q f by (auto simp: c_def)
  have exact: "(if f - c = 0 then (if q = 0 then 0 else avg) else px) * q - r = avg * qty + signed_qty side fq * px"
  proof (cases "q = 0")
    case True
    then have "f = \<bar>qty\<bar>" using q by (simp split: if_splits)
    with True show ?thesis using assms(7) by (cases "qty > 0") (simp_all add: r_def c_def sq algebra_simps)
  next
    case False
    then show ?thesis using assms(7) unfolding sq q r_def c_def by (auto simp: algebra_simps min_def split: if_splits)
  qed
  show ?thesis
    using out exact zero rf assms(2-5) P f
    by (auto simp: fill_ok_def sq q_def [symmetric] q f_def split: if_splits)
qed

lemma fill_inner_ok:
  assumes "small P (\<bar>qty\<bar> + uint fq)" and "0 \<le> avg" "avg \<le> P" "0 \<le> px" "px \<le> P" "qty = 0 \<longrightarrow> avg = 0"
  shows "fill_ok P qty avg (\<bar>qty\<bar> + uint fq) (apply_fill_inner qty avg side fq px) (signed_qty side fq) px"
proof -
  have V: "0 \<le> \<bar>qty\<bar> + uint fq" by simp
  consider "fq = 0" | "fq \<noteq> 0" "qty = 0" | "fq \<noteq> 0" "qty \<noteq> 0" by blast
  then show ?thesis
  proof cases
    case 1
    then show ?thesis using assms(2,3,6) by (cases side) (simp_all add: fill_ok_def apply_fill_inner_def signed_qty_def)
  next
    case 2
    define s where "s = signed_qty side fq"
    have s: "s \<noteq> 0" "\<bar>s\<bar> \<le> uint fq"
      using 2(1) uint_ge_0 [of fq] by (cases side; simp add: s_def signed_qty_def uint_0_iff)+
    have "wrap_i64 s = s" using small_range(1) [OF assms(1), of s] s by simp
    then have "apply_fill_inner qty avg side fq px =
        \<lparr>fo_new_quantity = s, fo_new_avg_entry_px = px, fo_delta_realized_paise = 0\<rparr>"
      using 2 by (simp add: apply_fill_inner_def Let_def signed_qty_def [symmetric] s_def)
    then show ?thesis using s 2(2) assms(1,4,5) V by (simp add: fill_ok_def s_def [symmetric] small_def mult.commute)
  next
    case 3
    then show ?thesis using fill_inner_scale [OF assms(1-5)] fill_inner_close [OF assms(1-5)] by blast
  qed
qed

lemma apply_fill_step:
  assumes inv: "pos_inv P V p" and V': "V' = V + uint fq" and sm: "small P V'" and px: "0 \<le> px" "px \<le> P"
    and p': "p' = fst (apply_fill side fq px p)"
  shows "pos_inv P V' p'" "ps_quantity p' = ps_quantity p + signed_qty side fq"
    "\<bar>net_paid p' - (net_paid p + signed_qty side fq * px)\<bar> \<le> V'"
proof -
  let ?o = "apply_fill_inner (ps_quantity p) (ps_avg_entry_px p) side fq px"
  have q: "\<bar>ps_quantity p\<bar> \<le> V" and P: "0 \<le> P" using inv sm by (simp_all add: pos_inv_def small_def)
  have small': "small P (\<bar>ps_quantity p\<bar> + uint fq)" using sm q V' by (intro small_mono [OF sm]) simp_all
  have ok: "fill_ok P (ps_quantity p) (ps_avg_entry_px p) (\<bar>ps_quantity p\<bar> + uint fq) ?o (signed_qty side fq) px"
    using inv px by (intro fill_inner_ok small') (simp_all add: pos_inv_def)
  have s: "\<bar>signed_qty side fq\<bar> = uint fq" by (cases side) (simp_all add: signed_qty_def)
  have r: "\<bar>ps_realized_pnl_paise p + fo_delta_realized_paise ?o\<bar> \<le> P * V'"
  proof -
    have "\<bar>fo_delta_realized_paise ?o\<bar> \<le> P * uint fq" "\<bar>ps_realized_pnl_paise p\<bar> \<le> P * V"
      using ok inv s by (simp_all add: fill_ok_def pos_inv_def)
    then show ?thesis unfolding V' ring_distribs by linarith
  qed
  have sat: "sat_i64 (ps_realized_pnl_paise p + fo_delta_realized_paise ?o) = ps_realized_pnl_paise p + fo_delta_realized_paise ?o"
    using small_range(2) [OF sm r] by simp
  have flds: "ps_quantity p' = fo_new_quantity ?o" "ps_avg_entry_px p' = fo_new_avg_entry_px ?o"
    "ps_realized_pnl_paise p' = ps_realized_pnl_paise p + fo_delta_realized_paise ?o"
    using sat by (simp_all add: p' apply_fill_def Let_def)
  show qty: "ps_quantity p' = ps_quantity p + signed_qty side fq" using ok by (simp add: flds fill_ok_def)
  have "\<bar>ps_quantity p'\<bar> \<le> V'" using qty q s V' by linarith
  then show "pos_inv P V' p'" using ok r unfolding pos_inv_def flds by (simp add: fill_ok_def)
  have "\<bar>fo_new_avg_entry_px ?o * fo_new_quantity ?o - fo_delta_realized_paise ?o
        - (ps_avg_entry_px p * ps_quantity p + signed_qty side fq * px)\<bar> \<le> V'"
    using ok q unfolding fill_ok_def V' by linarith
  then show "\<bar>net_paid p' - (net_paid p + signed_qty side fq * px)\<bar> \<le> V'"
    by (simp add: net_paid_def flds algebra_simps)
qed

text \<open>A sequence of fills.\<close>

type_synonym fill = "side \<times> u64 \<times> i64"

definition apply_fills_seq :: "fill list \<Rightarrow> position \<Rightarrow> position" where
  "apply_fills_seq fs p = fold (\<lambda>(side, q, px) p. fst (apply_fill side q px p)) fs p"

definition traded_volume :: "fill list \<Rightarrow> int" where
  "traded_volume fs = (\<Sum>(side, q, px)\<leftarrow>fs. uint q)"

definition net_quantity :: "fill list \<Rightarrow> int" where
  "net_quantity fs = (\<Sum>(side, q, px)\<leftarrow>fs. signed_qty side q)"

definition net_cash :: "fill list \<Rightarrow> int" where
  "net_cash fs = (\<Sum>(side, q, px)\<leftarrow>fs. signed_qty side q * px)"

lemma fill_sums [simp]:
  "traded_volume [] = 0" "net_quantity [] = 0" "net_cash [] = 0"
  "traded_volume ((s, q, x) # fs) = uint q + traded_volume fs"
  "net_quantity ((s, q, x) # fs) = signed_qty s q + net_quantity fs"
  "net_cash ((s, q, x) # fs) = signed_qty s q * x + net_cash fs"
  by (simp_all add: traded_volume_def net_quantity_def net_cash_def)

lemma traded_volume_nonneg [simp]: "0 \<le> traded_volume fs"
  by (induction fs) auto

lemma apply_fills_seq_ok:
  "pos_inv P V p \<Longrightarrow> W = V + traded_volume fs \<Longrightarrow> small P W \<Longrightarrow> (\<forall>(s, q, x) \<in> set fs. 0 \<le> x \<and> x \<le> P) \<Longrightarrow> 0 \<le> V \<Longrightarrow>
     pos_inv P W (apply_fills_seq fs p) \<and> ps_quantity (apply_fills_seq fs p) = ps_quantity p + net_quantity fs
     \<and> \<bar>net_paid (apply_fills_seq fs p) - (net_paid p + net_cash fs)\<bar> \<le> int (length fs) * W"
proof (induction fs arbitrary: p V)
  case (Cons f fs)
  obtain s q x where f: "f = (s, q, x)" by (metis prod_cases3)
  define p1 where "p1 = fst (apply_fill s q x p)"
  have le: "V + uint q \<le> W" using Cons.prems(2) traded_volume_nonneg [of fs] by (simp add: f)
  have sm: "small P (V + uint q)" using le Cons.prems(5) by (intro small_mono [OF Cons.prems(3)]) simp_all
  have x: "0 \<le> x" "x \<le> P" using Cons.prems(4) by (auto simp: f)
  note step = apply_fill_step [OF Cons.prems(1) refl sm x p1_def]
  have IH: "pos_inv P W (apply_fills_seq fs p1) \<and> ps_quantity (apply_fills_seq fs p1) = ps_quantity p1 + net_quantity fs
     \<and> \<bar>net_paid (apply_fills_seq fs p1) - (net_paid p1 + net_cash fs)\<bar> \<le> int (length fs) * W"
    using Cons.prems by (intro Cons.IH [OF step(1)]) (auto simp: f)
  have "\<bar>net_paid p1 - (net_paid p + signed_qty s q * x)\<bar> \<le> W" using step(3) le by simp
  then have "\<bar>net_paid (apply_fills_seq fs p1) - (net_paid p + (signed_qty s q * x + net_cash fs))\<bar> \<le> int (length fs) * W + W"
    using IH by linarith
  moreover have "apply_fills_seq (f # fs) p = apply_fills_seq fs p1" by (simp add: apply_fills_seq_def f p1_def)
  ultimately show ?case using IH step(2) by (simp add: f ring_distribs)
qed (simp add: apply_fills_seq_def)

subsection \<open>The aggregate\<close>

lemma aggregate_fold:
  "fold (\<lambda>p (x, r, u). (x + exposure_paise p, r + ps_realized_pnl_paise p, u + ps_unrealized_pnl_paise p)) ps (x, r, u)
     = (x + (\<Sum>p\<leftarrow>ps. exposure_paise p), r + (\<Sum>p\<leftarrow>ps. ps_realized_pnl_paise p), u + (\<Sum>p\<leftarrow>ps. ps_unrealized_pnl_paise p))"
  by (induction ps arbitrary: x r u) simp_all

definition equity_of :: "i64 \<Rightarrow> position list \<Rightarrow> int" where
  "equity_of base ps = base + (\<Sum>p\<leftarrow>ps. ps_realized_pnl_paise p) + (\<Sum>p\<leftarrow>ps. ps_unrealized_pnl_paise p)"

lemma aggregate_sums:
  "aggregate_state ps base pk =
     \<lparr>tr_aggregate_exposure_paise = sat_i64 (\<Sum>p\<leftarrow>ps. exposure_paise p),
      tr_drawdown_paise = sat_i64 (max (equity_of base ps) pk - equity_of base ps),
      tr_available_margin_paise = sat_i64 (base + (\<Sum>p\<leftarrow>ps. ps_realized_pnl_paise p) - (\<Sum>p\<leftarrow>ps. exposure_paise p)),
      tr_peak_equity_paise = sat_i64 (max (equity_of base ps) pk)\<rparr>"
  by (simp add: aggregate_state_def aggregate_fold equity_of_def Let_def add.assoc)

lemma sum_list_mset_eq: "mset xs = mset ys \<Longrightarrow> (\<Sum>x\<leftarrow>xs. f x) = (\<Sum>x\<leftarrow>ys. f x :: int)"
  by (metis mset_map sum_mset_sum_list)

lemma aggregate_order: "mset ps = mset qs \<Longrightarrow> aggregate_state ps base pk = aggregate_state qs base pk"
  using sum_list_mset_eq [of ps qs] by (simp add: aggregate_sums equity_of_def)

subsection \<open>The registry\<close>

lemma map_of_upsert:
  "map_of (upsert s f ps) k = (if k = s then Some (f (case map_of ps s of Some p \<Rightarrow> p | None \<Rightarrow> position_flat s)) else map_of ps k)"
  by (induction ps) auto

lemma position_of_on_fill:
  "position_of k (fst (pe_on_fill s side q px now e)) =
     (if k = s then Some (fst (apply_fill side q px (case position_of s e of Some p \<Rightarrow> p | None \<Rightarrow> position_flat s)))
      else position_of k e)"
  by (simp add: pe_on_fill_def position_of_def recompute_aggregate_def Let_def map_of_upsert)

definition symbol_fills :: "u32 \<Rightarrow> (u32 \<times> fill \<times> u64) list \<Rightarrow> fill list" where
  "symbol_fills s fs = map (\<lambda>(_, f, _). f) (filter (\<lambda>(k, _, _). k = s) fs)"

definition run_fills :: "(u32 \<times> fill \<times> u64) list \<Rightarrow> position_engine \<Rightarrow> position_engine" where
  "run_fills fs e = fold (\<lambda>(s, (side, q, px), now) e. fst (pe_on_fill s side q px now e)) fs e"

lemma run_fills_position:
  "position_of s (run_fills fs e) =
     (if symbol_fills s fs = [] then position_of s e
      else Some (apply_fills_seq (symbol_fills s fs) (case position_of s e of Some p \<Rightarrow> p | None \<Rightarrow> position_flat s)))"
proof (induction fs arbitrary: e)
  case (Cons f fs)
  obtain k side q px now where f: "f = (k, (side, q, px), now)" by (cases f) auto
  show ?case
    using Cons.IH [of "fst (pe_on_fill k side q px now e)"]
    by (auto simp: f run_fills_def symbol_fills_def apply_fills_seq_def position_of_on_fill split: option.splits)
qed (simp add: run_fills_def symbol_fills_def)

datatype pos_call = PFill u32 side u64 i64 u64 | PTick u32 i64 u64

fun pe_call :: "pos_call \<Rightarrow> position_engine \<Rightarrow> position_engine \<times> position_event list" where
  "pe_call (PFill s side q px now) e = pe_on_fill s side q px now e"
| "pe_call (PTick s px now) e = pe_on_tick s px now e"

text \<open>The updates published for a symbol: when, and whether a tick caused them.\<close>

fun call_updates :: "u32 \<Rightarrow> pos_call \<Rightarrow> position_event list \<Rightarrow> (u64 \<times> bool) list" where
  "call_updates s (PFill _ _ _ _ now) evs = map (\<lambda>_. (now, False)) (filter (\<lambda>ev. case ev of PositionUpdate k _ \<Rightarrow> k = s | _ \<Rightarrow> False) evs)"
| "call_updates s (PTick _ _ now) evs = map (\<lambda>_. (now, True)) (filter (\<lambda>ev. case ev of PositionUpdate k _ \<Rightarrow> k = s | _ \<Rightarrow> False) evs)"

fun run_updates :: "u32 \<Rightarrow> pos_call list \<Rightarrow> position_engine \<Rightarrow> (u64 \<times> bool) list" where
  "run_updates s [] e = []"
| "run_updates s (c # cs) e = (let (e', evs) = pe_call c e in call_updates s c evs @ run_updates s cs e')"

text \<open>Every update caused by a tick comes at least the throttle after the one before.\<close>

fun spaced :: "u64 \<Rightarrow> u64 option \<Rightarrow> (u64 \<times> bool) list \<Rightarrow> bool" where
  "spaced th prev [] = True"
| "spaced th prev ((t, tick) # us) =
     ((tick \<longrightarrow> unat (case prev of Some l \<Rightarrow> l | None \<Rightarrow> 0) + unat th \<le> unat t) \<and> spaced th (Some t) us)"

lemma pe_on_fill_emits:
  "pe_on_fill s side q px now e = (e', evs) \<Longrightarrow> pe_last_emit_ns e' = (pe_last_emit_ns e)(s \<mapsto> now)
     \<and> pe_throttle_ns e' = pe_throttle_ns e \<and> (\<exists>snap st. evs = [PositionUpdate s snap, RiskStateEvent st])"
  by (auto simp: pe_on_fill_def recompute_aggregate_def Let_def)

lemma pe_on_tick_emits:
  assumes "pe_on_tick s px now e = (e', evs)"
  shows "pe_throttle_ns e' = pe_throttle_ns e"
    "(pe_last_emit_ns e' = pe_last_emit_ns e \<and> (\<forall>k snap. PositionUpdate k snap \<notin> set evs))
     \<or> (pe_last_emit_ns e' = (pe_last_emit_ns e)(s \<mapsto> now)
        \<and> pe_throttle_ns e \<le> usat_sub now (case pe_last_emit_ns e s of Some t \<Rightarrow> t | None \<Rightarrow> 0)
        \<and> (\<exists>snap rest. evs = PositionUpdate s snap # rest \<and> (\<forall>k snap. PositionUpdate k snap \<notin> set rest)))"
  using assms
  by (auto simp: pe_on_tick_def recompute_aggregate_def Let_def split: option.splits if_splits)

lemma no_updates: "(\<forall>k snap. PositionUpdate k snap \<notin> set evs) \<Longrightarrow>
    filter (\<lambda>ev. case ev of PositionUpdate k _ \<Rightarrow> k = s | _ \<Rightarrow> False) evs = []"
  by (auto simp: filter_empty_conv split: position_event.splits)

lemma usat_sub_gap: "0 < th \<Longrightarrow> th \<le> usat_sub now l \<Longrightarrow> unat l + unat th \<le> unat (now :: u64)"
  by (auto simp: word_le_nat_alt unat_usat_sub word_less_nat_alt)

lemma run_updates_spaced:
  "0 < pe_throttle_ns e \<Longrightarrow> spaced (pe_throttle_ns e) (pe_last_emit_ns e s) (run_updates s cs e)"
proof (induction cs arbitrary: e)
  case (Cons c cs)
  obtain e' evs where run: "pe_call c e = (e', evs)" by fastforce
  show ?case
  proof (cases c)
    case (PFill k side q px now)
    then have em: "pe_last_emit_ns e' = (pe_last_emit_ns e)(k \<mapsto> now)" "pe_throttle_ns e' = pe_throttle_ns e"
      "\<exists>snap st. evs = [PositionUpdate k snap, RiskStateEvent st]"
      using pe_on_fill_emits run by auto
    then show ?thesis using Cons.IH [of e'] Cons.prems run PFill by auto
  next
    case (PTick k px now)
    note em = pe_on_tick_emits [of k px now e e' evs]
    have tick: "pe_on_tick k px now e = (e', evs)" using run PTick by simp
    show ?thesis
      using em(2) [OF tick]
    proof
      assume "pe_last_emit_ns e' = pe_last_emit_ns e \<and> (\<forall>k snap. PositionUpdate k snap \<notin> set evs)"
      then show ?thesis using Cons.IH [of e'] Cons.prems run PTick em(1) [OF tick] no_updates [of evs s] by simp
    next
      assume "pe_last_emit_ns e' = (pe_last_emit_ns e)(k \<mapsto> now)
        \<and> pe_throttle_ns e \<le> usat_sub now (case pe_last_emit_ns e k of Some t \<Rightarrow> t | None \<Rightarrow> 0)
        \<and> (\<exists>snap rest. evs = PositionUpdate k snap # rest \<and> (\<forall>k snap. PositionUpdate k snap \<notin> set rest))"
      then obtain snap rest where em2: "pe_last_emit_ns e' = (pe_last_emit_ns e)(k \<mapsto> now)"
        "pe_throttle_ns e \<le> usat_sub now (case pe_last_emit_ns e k of Some t \<Rightarrow> t | None \<Rightarrow> 0)"
        "evs = PositionUpdate k snap # rest" "\<forall>k snap. PositionUpdate k snap \<notin> set rest" by blast
      then show ?thesis
        using Cons.IH [of e'] Cons.prems run PTick em(1) [OF tick] no_updates [of rest s]
          usat_sub_gap [OF Cons.prems em2(2)] by auto
    qed
  qed
qed simp

section \<open>Properties\<close>

text \<open>C28: Profit and loss is mark-to-market. After any fills at prices up to \<open>P\<close>, with traded volume \<open>W\<close>
  and \<open>P\<close>, \<open>W\<close> and \<open>P * W\<close> up to $2^{62}$ (no wrap-around or saturation), the signed quantity is the
  net of the fills, and realised plus unrealised PnL at a mark is the value of that quantity minus
  the cash paid, up to the truncation of the average price: at most \<open>W\<close> paise per fill. The average
  entry price stays between 0 and \<open>P\<close> and is 0 when flat.\<close>

theorem pnl_is_mark_to_market:
  assumes "\<forall>(side, q, px) \<in> set fs. 0 \<le> px \<and> px \<le> P" and "0 < m" and "m \<le> P"
    and "W = traded_volume fs" and "P \<le> 4611686018427387904" and "W \<le> 4611686018427387904" and "P * W \<le> 4611686018427387904"
    and "p = apply_mark m (apply_fills_seq fs (position_flat s))"
  shows "ps_quantity p = net_quantity fs
    \<and> \<bar>ps_realized_pnl_paise p + ps_unrealized_pnl_paise p - (m * net_quantity fs - net_cash fs)\<bar> \<le> int (length fs) * W
    \<and> 0 \<le> ps_avg_entry_px p \<and> ps_avg_entry_px p \<le> P \<and> (ps_quantity p = 0 \<longrightarrow> ps_avg_entry_px p = 0)"
proof -
  let ?p = "apply_fills_seq fs (position_flat s)"
  have P: "0 \<le> P" using assms(2,3) by simp
  have sm: "small P W" using assms(4-7) P by (simp add: small_def)
  have start: "pos_inv P 0 (position_flat s)" "net_paid (position_flat s) = 0" "ps_quantity (position_flat s) = 0"
    using P by (simp_all add: pos_inv_def position_flat_def net_paid_def)
  have ok: "pos_inv P W ?p" "ps_quantity ?p = net_quantity fs" "\<bar>net_paid ?p - net_cash fs\<bar> \<le> int (length fs) * W"
    using apply_fills_seq_ok [OF start(1), of W fs] assms(1,4) sm start(2,3) by auto
  have "\<bar>(m - ps_avg_entry_px ?p) * ps_quantity ?p\<bar> \<le> P * W"
  proof -
    have "\<bar>m - ps_avg_entry_px ?p\<bar> \<le> P" "\<bar>ps_quantity ?p\<bar> \<le> W" using ok(1) assms(2,3) by (auto simp: pos_inv_def)
    then show ?thesis unfolding abs_mult using P by (intro mult_mono) simp_all
  qed
  then have u: "unrealized_pnl_of (ps_quantity ?p) (ps_avg_entry_px ?p) m = (m - ps_avg_entry_px ?p) * ps_quantity ?p"
    using small_range(2,3) [OF sm] assms(2) by (simp add: unrealized_pnl_of_def)
  have "ps_realized_pnl_paise p + ps_unrealized_pnl_paise p - (m * net_quantity fs - net_cash fs) = - (net_paid ?p - net_cash fs)"
    using u ok(2) by (simp add: assms(8) apply_mark_def net_paid_def algebra_simps)
  then show ?thesis using ok by (simp add: assms(8) apply_mark_def pos_inv_def)
qed

theorem pnl_is_mark_to_market_witness:
  "ps_quantity (apply_mark 120 (apply_fills_seq [(Buy, 10, 100), (Buy, 5, 110), (Sell, 12, 130)] (position_flat 3))) = 3
   \<and> \<bar>ps_realized_pnl_paise (apply_mark 120 (apply_fills_seq [(Buy, 10, 100), (Buy, 5, 110), (Sell, 12, 130)] (position_flat 3)))
      + ps_unrealized_pnl_paise (apply_mark 120 (apply_fills_seq [(Buy, 10, 100), (Buy, 5, 110), (Sell, 12, 130)] (position_flat 3)))
      - 370\<bar> \<le> 81"
  using pnl_is_mark_to_market [of "[(Buy, 10, 100), (Buy, 5, 110), (Sell, 12, 130)]" 130 120 27 _ 3, OF _ _ _ _ _ _ _ refl]
  by (simp add: signed_qty_def)

text \<open>The aggregate risk state. It does not depend on the order in which the positions are visited,
  its peak is the larger of the previous peak and the current equity, its drawdown the distance of
  the equity to that peak (never negative), its margin capital plus realised PnL minus exposure,
  each exact when it fits an \<open>i64\<close>.\<close>

theorem aggregate_state_exact:
  assumes "mset qs = mset ps" and "st = aggregate_state qs base pk" and "equity = equity_of base ps"
    and "in_i64 (max equity pk - equity)" and "in_i64 (max equity pk)"
    and "in_i64 (\<Sum>p\<leftarrow>ps. exposure_paise p)" and "in_i64 (base + (\<Sum>p\<leftarrow>ps. ps_realized_pnl_paise p) - (\<Sum>p\<leftarrow>ps. exposure_paise p))"
  shows "st = aggregate_state ps base pk \<and> tr_peak_equity_paise st = max equity pk
    \<and> tr_drawdown_paise st = tr_peak_equity_paise st - equity \<and> 0 \<le> tr_drawdown_paise st
    \<and> tr_aggregate_exposure_paise st = (\<Sum>p\<leftarrow>ps. exposure_paise p)
    \<and> tr_available_margin_paise st = base + (\<Sum>p\<leftarrow>ps. ps_realized_pnl_paise p) - tr_aggregate_exposure_paise st"
proof -
  have "st = aggregate_state ps base pk" using aggregate_order [OF assms(1)] assms(2) by simp
  moreover have "0 \<le> max equity pk - equity" by simp
  ultimately show ?thesis using assms(4-7) by (simp add: aggregate_sums assms(3) [symmetric])
qed

theorem aggregate_state_exact_witness:
  "0 \<le> tr_drawdown_paise (aggregate_state [position_flat 1, position_flat 2] 2000000 2500000)
   \<and> tr_peak_equity_paise (aggregate_state [position_flat 1, position_flat 2] 2000000 2500000) = 2500000"
proof -
  have m: "mset [position_flat 1, position_flat 2] = mset [position_flat 2, position_flat 1]"
    by (simp add: add_mset_commute)
  have v: "equity_of 2000000 [position_flat 2, position_flat 1] = 2000000"
    "(\<Sum>p\<leftarrow>[position_flat 2, position_flat 1]. exposure_paise p) = 0"
    "(\<Sum>p\<leftarrow>[position_flat 2, position_flat 1]. ps_realized_pnl_paise p) = 0"
    by (simp_all add: equity_of_def position_flat_def exposure_paise_def)
  have r: "in_i64 (max 2000000 2500000 - 2000000)" "in_i64 (max 2000000 2500000)" "in_i64 0" "in_i64 (2000000 + 0 - 0)"
    by (simp_all add: i64_defs)
  from aggregate_state_exact [OF m refl refl, of 2000000 2500000, unfolded v, OF r]
  show ?thesis by linarith
qed

text \<open>C29: The registry refines one ledger per symbol. After any interleaving of fills over any symbols,
  on a fresh engine the position of a symbol is exactly what its own fills, in order, make of a flat
  position, and a symbol without fills has none.\<close>

theorem registry_refines_ledgers:
  "position_of s (run_fills fs (pe_with_throttle base th)) =
     (if symbol_fills s fs = [] then None else Some (apply_fills_seq (symbol_fills s fs) (position_flat s)))"
proof -
  have "position_of s (pe_with_throttle base th) = None" by (simp add: pe_with_throttle_def position_of_def)
  then show ?thesis by (simp add: run_fills_position)
qed

text \<open>Publication is throttled. Over any sequence of fills and ticks, a position update caused by a
  tick is published at least the throttle interval after the previous update of the same symbol;
  with the default this is at most ten a second.\<close>

theorem tick_updates_throttled:
  assumes "0 < th"
  shows "spaced th None (run_updates s cs (pe_with_throttle base th))"
  using run_updates_spaced [of "pe_with_throttle base th" s cs] assms by (simp add: pe_with_throttle_def)

theorem tick_updates_throttled_witness:
  "spaced 100 None (run_updates 3 [PFill 3 Buy 10 500 1000, PTick 3 510 1050, PTick 3 511 1100, PTick 3 512 1150] (pe_with_throttle 2000000 100))"
  by (rule tick_updates_throttled) simp

end
