(* ===== verification/Session.thy ===== *)
theory Session
  imports Config_Models Message_Bus
begin

text \<open>
  The session manager \<open>hedge-session\<close>: the payloads (\<open>event.rs\<close>, \<open>session_event.rs\<close>), the NATS
  publishers (\<open>publisher.rs\<close>) and the two controllers (\<open>controller.rs\<close> for War_Mode,
  \<open>session_controller.rs\<close> for the Trading_Session). An instant is a number of nanoseconds since the Unix
  epoch, a date a number of days since it; leap seconds are not represented, as in \<open>chrono\<close>.
  \<open>chrono\<close> and \<open>chrono-tz\<close> are the parameter \<open>chrono\<close> below: the conversion between Kolkata local time
  and UTC, and the calendar fields of a date. What the controllers rely on is the hypothesis \<open>kolkata_ok\<close>,
  the fixed offset of +05:30 that both modules document. The process clock \<open>now_ns\<close> and the
  publisher's answers are inputs, the \<open>ops_world\<close> of the bus.
\<close>

section \<open>Time\<close>

type_synonym instant = int
type_synonym naive_date = int

datatype local_result = LocalNone | LocalSingle instant | LocalAmbiguous instant instant

record chrono =
  from_local_datetime :: "int \<Rightarrow> local_result"
  to_local :: "instant \<Rightarrow> int"
  civil :: "naive_date \<Rightarrow> int \<times> nat \<times> nat"

definition NS :: int where
  "NS = 1000000000"

definition DAY :: int where
  "DAY = 86400 * NS"

definition IST_OFFSET :: int where
  "IST_OFFSET = (5 * 3600 + 30 * 60) * NS"

definition and_time :: "naive_date \<Rightarrow> naive_time \<Rightarrow> int" where
  "and_time d t = d * DAY + int t * NS"

definition kolkata_ok :: "chrono \<Rightarrow> bool" where
  "kolkata_ok ch \<longleftrightarrow> (\<forall>l. from_local_datetime ch l = LocalSingle (l - IST_OFFSET)) \<and> (\<forall>t. to_local ch t = t + IST_OFFSET)"

text \<open>\<open>sleep_until_utc\<close>: how long the task sleeps; a target in the past is not waited for.\<close>

definition sleep_until_utc :: "instant \<Rightarrow> instant \<Rightarrow> int" where
  "sleep_until_utc now target = (if target - now < 0 then 0 else target - now)"

section \<open>War_Mode controller\<close>

datatype warmode_phase = WmStart | WmEnd

fun warmode_phase_as_str :: "warmode_phase \<Rightarrow> string" where
  "warmode_phase_as_str WmStart = ''start''"
| "warmode_phase_as_str WmEnd = ''end''"

record warmode_event =
  wme_session_id :: u64
  wme_phase :: warmode_phase
  wme_min_confidence :: flt
  wme_scan_multiplier :: flt
  wme_ts_ns :: u64

definition warmode_event_start :: "u64 \<Rightarrow> flt \<Rightarrow> flt \<Rightarrow> u64 \<Rightarrow> warmode_event" where
  "warmode_event_start sid mc sm ts = \<lparr>wme_session_id = sid, wme_phase = WmStart, wme_min_confidence = mc,
     wme_scan_multiplier = sm, wme_ts_ns = ts\<rparr>"

definition warmode_event_end :: "u64 \<Rightarrow> flt \<Rightarrow> flt \<Rightarrow> u64 \<Rightarrow> warmode_event" where
  "warmode_event_end sid mc sm ts = \<lparr>wme_session_id = sid, wme_phase = WmEnd, wme_min_confidence = mc,
     wme_scan_multiplier = sm, wme_ts_ns = ts\<rparr>"

text \<open>The production publisher picks the subject by phase.\<close>

definition nats_publish_warmode ::
  "(warmode_event \<Rightarrow> bus_error + bytes) \<Rightarrow> (string \<Rightarrow> bytes \<Rightarrow> string option) \<Rightarrow> warmode_event \<Rightarrow> bus_error option" where
  "nats_publish_warmode enc send e =
     (case wme_phase e of
        WmStart \<Rightarrow> nats_publish enc send OPS_WARMODE_START e
      | WmEnd \<Rightarrow> nats_publish enc send OPS_WARMODE_END e)"

datatype warmode_state = WmInactive | WmActive

record warmode_day =
  wmd_ist_date :: naive_date
  wmd_start_utc :: instant
  wmd_end_utc :: instant

definition wm_ist_to_utc :: "chrono \<Rightarrow> naive_date \<Rightarrow> naive_time \<Rightarrow> instant" where
  "wm_ist_to_utc ch date time =
     (let lcl = and_time date time in
      case from_local_datetime ch lcl of
        LocalSingle dt \<Rightarrow> dt
      | LocalAmbiguous early late \<Rightarrow> early
      | LocalNone \<Rightarrow> lcl - (5 * 3600 + 30 * 60) * NS)"

definition wm_for_date :: "chrono \<Rightarrow> naive_date \<Rightarrow> war_mode_config \<Rightarrow> warmode_day" where
  "wm_for_date ch date cfg = \<lparr>wmd_ist_date = date,
     wmd_start_utc = wm_ist_to_utc ch date (wm_start_ist cfg),
     wmd_end_utc = wm_ist_to_utc ch date (wm_end_ist cfg)\<rparr>"

definition wm_session_id :: "chrono \<Rightarrow> warmode_day \<Rightarrow> u64" where
  "wm_session_id ch day =
     (let (y, m, d) = civil ch (wmd_ist_date day)
      in word_of_int y * 10000 + word_of_nat m * 100 + word_of_nat d)"

record warmode_controller =
  wm_cfg :: war_mode_config
  wm_state :: warmode_state

definition wm_new :: "war_mode_config \<Rightarrow> warmode_controller" where
  "wm_new cfg = \<lparr>wm_cfg = cfg, wm_state = WmInactive\<rparr>"

definition wm_day_for :: "chrono \<Rightarrow> instant \<Rightarrow> warmode_controller \<Rightarrow> warmode_day" where
  "wm_day_for ch now c = wm_for_date ch (to_local ch now div DAY) (wm_cfg c)"

definition wm_next_deadline :: "chrono \<Rightarrow> instant \<Rightarrow> warmode_controller \<Rightarrow> instant" where
  "wm_next_deadline ch now c =
     (let today = wm_day_for ch now c in
      if now < wmd_start_utc today then wmd_start_utc today
      else if now < wmd_end_utc today then wmd_end_utc today
      else wmd_start_utc (wm_for_date ch (wmd_ist_date today + 1) (wm_cfg c)))"

type_synonym warmode_sys = "warmode_controller \<times> warmode_event ops_world"

definition wm_emit :: "warmode_phase \<Rightarrow> u64 \<Rightarrow> warmode_controller \<Rightarrow> warmode_event ops_world
    \<Rightarrow> warmode_event ops_world \<times> bus_error option" where
  "wm_emit phase sid c w =
     (let ts = ops_now w;
          event = (case phase of
             WmStart \<Rightarrow> warmode_event_start sid (min_confidence (wm_cfg c)) (scan_multiplier (wm_cfg c)) ts
           | WmEnd \<Rightarrow> warmode_event_end sid (min_confidence (wm_cfg c)) (scan_multiplier (wm_cfg c)) ts)
      in ops_publish event w)"

definition wm_reconcile_at :: "chrono \<Rightarrow> instant \<Rightarrow> warmode_sys \<Rightarrow> warmode_sys \<times> bus_error option" where
  "wm_reconcile_at ch now s =
     (let (c, w) = s;
          day = wm_day_for ch now c;
          in_window = (wmd_start_utc day \<le> now \<and> now < wmd_end_utc day)
      in case (wm_state c, in_window) of
           (WmInactive, True) \<Rightarrow>
             (case wm_emit WmStart (wm_session_id ch day) c w of
                (w, Some e) \<Rightarrow> ((c, w), Some e)
              | (w, None) \<Rightarrow> ((c\<lparr>wm_state := WmActive\<rparr>, w), None))
         | (WmActive, False) \<Rightarrow>
             (case wm_emit WmEnd (wm_session_id ch day) c w of
                (w, Some e) \<Rightarrow> ((c, w), Some e)
              | (w, None) \<Rightarrow> ((c\<lparr>wm_state := WmInactive\<rparr>, w), None))
         | (WmActive, True) \<Rightarrow> ((c, w), None)
         | (WmInactive, False) \<Rightarrow> ((c, w), None))"

text \<open>The loop of \<open>tick_until\<close>: \<open>None\<close> would mean that it does not return.\<close>

partial_function (option) wm_walk ::
  "chrono \<Rightarrow> instant \<Rightarrow> instant \<Rightarrow> warmode_sys \<Rightarrow> (warmode_sys \<times> bus_error option) option" where
  "wm_walk ch cursor till s =
     (let next = wm_next_deadline ch cursor (fst s) in
      if till \<le> next then Some (s, None)
      else case wm_reconcile_at ch next s of
             (s', Some e) \<Rightarrow> Some (s', Some e)
           | (s', None) \<Rightarrow> wm_walk ch next till s')"

definition wm_tick_until ::
  "chrono \<Rightarrow> instant \<Rightarrow> instant \<Rightarrow> warmode_sys \<Rightarrow> (warmode_sys \<times> bus_error option) option" where
  "wm_tick_until ch from till s =
     (case wm_reconcile_at ch from s of
        (s', Some e) \<Rightarrow> Some (s', Some e)
      | (s', None) \<Rightarrow> wm_walk ch from till s')"

text \<open>\<open>run\<close>, for as many iterations as there are pairs of clock readings: the reading of \<open>reconcile_now\<close>
  and the one the deadline is computed from. The result has the error that ended the loop, if any,
  and the times slept.\<close>

fun wm_run :: "chrono \<Rightarrow> (instant \<times> instant) list \<Rightarrow> warmode_sys \<Rightarrow> warmode_sys \<times> bus_error option \<times> int list" where
  "wm_run ch [] s = (s, None, [])"
| "wm_run ch ((t, u) # ts) s =
     (case wm_reconcile_at ch t s of
        (s', Some e) \<Rightarrow> (s', Some e, [])
      | (s', None) \<Rightarrow>
          (let sl = sleep_until_utc u (wm_next_deadline ch u (fst s'));
               (s'', r, sls) = wm_run ch ts s'
           in (s'', r, sl # sls)))"

section \<open>Trading_Session controller\<close>

datatype session_phase = ScStart | ScEnd

fun session_phase_as_str :: "session_phase \<Rightarrow> string" where
  "session_phase_as_str ScStart = ''start''"
| "session_phase_as_str ScEnd = ''end''"

record session_event =
  sce_session_id :: u64
  sce_phase :: session_phase
  sce_ts_ns :: u64

definition session_event_start :: "u64 \<Rightarrow> u64 \<Rightarrow> session_event" where
  "session_event_start sid ts = \<lparr>sce_session_id = sid, sce_phase = ScStart, sce_ts_ns = ts\<rparr>"

definition session_event_end :: "u64 \<Rightarrow> u64 \<Rightarrow> session_event" where
  "session_event_end sid ts = \<lparr>sce_session_id = sid, sce_phase = ScEnd, sce_ts_ns = ts\<rparr>"

text \<open>The production publisher picks the subject by phase.\<close>

definition nats_publish_session ::
  "(session_event \<Rightarrow> bus_error + bytes) \<Rightarrow> (string \<Rightarrow> bytes \<Rightarrow> string option) \<Rightarrow> session_event \<Rightarrow> bus_error option" where
  "nats_publish_session enc send e =
     (case sce_phase e of
        ScStart \<Rightarrow> nats_publish enc send OPS_SESSION_START e
      | ScEnd \<Rightarrow> nats_publish enc send OPS_SESSION_END e)"

datatype session_state = ScInactive | ScActive

record session_day =
  scd_ist_date :: naive_date
  scd_start_utc :: instant
  scd_end_utc :: instant

definition sc_ist_to_utc :: "chrono \<Rightarrow> naive_date \<Rightarrow> naive_time \<Rightarrow> instant" where
  "sc_ist_to_utc ch date time =
     (let lcl = and_time date time in
      case from_local_datetime ch lcl of
        LocalSingle dt \<Rightarrow> dt
      | LocalAmbiguous early late \<Rightarrow> early
      | LocalNone \<Rightarrow> lcl - (5 * 3600 + 30 * 60) * NS)"

definition sc_for_date :: "chrono \<Rightarrow> naive_date \<Rightarrow> session_config \<Rightarrow> session_day" where
  "sc_for_date ch date cfg = \<lparr>scd_ist_date = date,
     scd_start_utc = sc_ist_to_utc ch date (start_ist cfg),
     scd_end_utc = sc_ist_to_utc ch date (end_ist cfg)\<rparr>"

definition sc_session_id :: "chrono \<Rightarrow> session_day \<Rightarrow> u64" where
  "sc_session_id ch day =
     (let (y, m, d) = civil ch (scd_ist_date day)
      in word_of_int y * 10000 + word_of_nat m * 100 + word_of_nat d)"

record session_controller =
  sc_cfg :: session_config
  sc_state :: session_state

definition sc_new :: "session_config \<Rightarrow> session_controller" where
  "sc_new cfg = \<lparr>sc_cfg = cfg, sc_state = ScInactive\<rparr>"

definition sc_day_for :: "chrono \<Rightarrow> instant \<Rightarrow> session_controller \<Rightarrow> session_day" where
  "sc_day_for ch now c = sc_for_date ch (to_local ch now div DAY) (sc_cfg c)"

definition sc_next_deadline :: "chrono \<Rightarrow> instant \<Rightarrow> session_controller \<Rightarrow> instant" where
  "sc_next_deadline ch now c =
     (let today = sc_day_for ch now c in
      if now < scd_start_utc today then scd_start_utc today
      else if now < scd_end_utc today then scd_end_utc today
      else scd_start_utc (sc_for_date ch (scd_ist_date today + 1) (sc_cfg c)))"

type_synonym session_sys = "session_controller \<times> session_event ops_world"

definition sc_emit :: "session_phase \<Rightarrow> u64 \<Rightarrow> session_controller \<Rightarrow> session_event ops_world
    \<Rightarrow> session_event ops_world \<times> bus_error option" where
  "sc_emit phase sid c w =
     (let ts = ops_now w;
          event = (case phase of
             ScStart \<Rightarrow> session_event_start sid ts
           | ScEnd \<Rightarrow> session_event_end sid ts)
      in ops_publish event w)"

definition sc_reconcile_at :: "chrono \<Rightarrow> instant \<Rightarrow> session_sys \<Rightarrow> session_sys \<times> bus_error option" where
  "sc_reconcile_at ch now s =
     (let (c, w) = s;
          day = sc_day_for ch now c;
          in_window = (scd_start_utc day \<le> now \<and> now < scd_end_utc day)
      in case (sc_state c, in_window) of
           (ScInactive, True) \<Rightarrow>
             (case sc_emit ScStart (sc_session_id ch day) c w of
                (w, Some e) \<Rightarrow> ((c, w), Some e)
              | (w, None) \<Rightarrow> ((c\<lparr>sc_state := ScActive\<rparr>, w), None))
         | (ScActive, False) \<Rightarrow>
             (case sc_emit ScEnd (sc_session_id ch day) c w of
                (w, Some e) \<Rightarrow> ((c, w), Some e)
              | (w, None) \<Rightarrow> ((c\<lparr>sc_state := ScInactive\<rparr>, w), None))
         | (ScActive, True) \<Rightarrow> ((c, w), None)
         | (ScInactive, False) \<Rightarrow> ((c, w), None))"

text \<open>The loop of \<open>tick_until\<close>: \<open>None\<close> would mean that it does not return.\<close>

partial_function (option) sc_walk ::
  "chrono \<Rightarrow> instant \<Rightarrow> instant \<Rightarrow> session_sys \<Rightarrow> (session_sys \<times> bus_error option) option" where
  "sc_walk ch cursor till s =
     (let next = sc_next_deadline ch cursor (fst s) in
      if till \<le> next then Some (s, None)
      else case sc_reconcile_at ch next s of
             (s', Some e) \<Rightarrow> Some (s', Some e)
           | (s', None) \<Rightarrow> sc_walk ch next till s')"

definition sc_tick_until ::
  "chrono \<Rightarrow> instant \<Rightarrow> instant \<Rightarrow> session_sys \<Rightarrow> (session_sys \<times> bus_error option) option" where
  "sc_tick_until ch from till s =
     (case sc_reconcile_at ch from s of
        (s', Some e) \<Rightarrow> Some (s', Some e)
      | (s', None) \<Rightarrow> sc_walk ch from till s')"

text \<open>\<open>run\<close>, for as many iterations as there are pairs of clock readings: the reading of \<open>reconcile_now\<close>
  and the one the deadline is computed from. The result has the error that ended the loop, if any,
  and the times slept.\<close>

fun sc_run :: "chrono \<Rightarrow> (instant \<times> instant) list \<Rightarrow> session_sys \<Rightarrow> session_sys \<times> bus_error option \<times> int list" where
  "sc_run ch [] s = (s, None, [])"
| "sc_run ch ((t, u) # ts) s =
     (case sc_reconcile_at ch t s of
        (s', Some e) \<Rightarrow> (s', Some e, [])
      | (s', None) \<Rightarrow>
          (let sl = sleep_until_utc u (sc_next_deadline ch u (fst s'));
               (s'', r, sls) = sc_run ch ts s'
           in (s'', r, sl # sls)))"

section \<open>A controller that follows a window\<close>

text \<open>\<open>flips b xs\<close> are the changes an observer who starts from \<open>b\<close> sees in the samples \<open>xs\<close>.\<close>

fun flips :: "bool \<Rightarrow> bool list \<Rightarrow> bool list" where
  "flips b [] = []"
| "flips b (x # xs) = (if x = b then [] else [x]) @ flips x xs"

fun alternates :: "bool \<Rightarrow> bool list \<Rightarrow> bool" where
  "alternates b [] = True"
| "alternates b (x # xs) = (x \<noteq> b \<and> alternates x xs)"

lemma flips_alternate: "alternates b (flips b xs)"
  by (induction b xs rule: flips.induct) auto

lemma flips_append: "flips b (xs @ ys) = flips b xs @ flips (last (b # xs)) ys"
  by (induction b xs rule: flips.induct) auto

lemma flips_const: "\<forall>x \<in> set xs. x = b \<Longrightarrow> flips b xs = []"
  by (induction b xs rule: flips.induct) auto

lemma last_flips: "last (b # flips b xs) = last (b # xs)"
  by (induction b xs rule: flips.induct) auto

lemma upto_snoc: "a \<le> b \<Longrightarrow> [a..b] = [a..b - 1] @ [b :: int]"
  by (rule upto_rec2)

text \<open>
  The contract of a controller: a reconciliation that is acknowledged makes the state equal to the
  window and announces a change, a refused one changes nothing and can only happen at a change;
  deadlines lie in the future and the window is constant before the next one. \<open>walk\<close> and \<open>run\<close> are
  the loops of the controller.
\<close>

locale window_controller =
  fixes ok :: "'s \<Rightarrow> bool"
    and active :: "'s \<Rightarrow> bool"
    and announced :: "'s \<Rightarrow> bool list"
    and window :: "'s \<Rightarrow> instant \<Rightarrow> bool"
    and deadline :: "'s \<Rightarrow> instant \<Rightarrow> instant"
    and step :: "instant \<Rightarrow> 's \<Rightarrow> 's \<times> bus_error option"
    and walk :: "instant \<Rightarrow> instant \<Rightarrow> 's \<Rightarrow> ('s \<times> bus_error option) option"
    and run :: "(instant \<times> instant) list \<Rightarrow> 's \<Rightarrow> 's \<times> bus_error option \<times> int list"
  assumes step_done: "step t s = (s', None) \<Longrightarrow> active s' = window s t
      \<and> announced s' = announced s @ flips (active s) [window s t]"
    and step_failed: "step t s = (s', Some e) \<Longrightarrow> active s' = active s \<and> announced s' = announced s \<and> window s t \<noteq> active s"
    and step_frame: "step t s = (s', r) \<Longrightarrow> ok s' = ok s \<and> window s' = window s \<and> deadline s' = deadline s"
    and deadline_later: "ok s \<Longrightarrow> t < deadline s t"
    and window_const: "ok s \<Longrightarrow> t \<le> u \<Longrightarrow> u < deadline s t \<Longrightarrow> window s u = window s t"
    and walk_unfold: "walk c till s = (if till \<le> deadline s c then Some (s, None)
      else case step (deadline s c) s of (s', Some e) \<Rightarrow> Some (s', Some e) | (s', None) \<Rightarrow> walk (deadline s c) till s')"
    and run_nil: "run [] s = (s, None, [])"
    and run_cons: "run ((t, u) # ts) s = (case step t s of (s', Some e) \<Rightarrow> (s', Some e, [])
      | (s', None) \<Rightarrow> (let sl = sleep_until_utc u (deadline s' u); (s'', r, sls) = run ts s' in (s'', r, sl # sls)))"
begin

lemma flips_window_const:
  assumes "ok s" "t \<le> u" "u \<le> deadline s t"
  shows "flips (window s t) (map (window s) [t + 1..u - 1]) = []"
proof -
  have "window s x = window s t" if "x \<in> set [t + 1..u - 1]" for x
    using that assms by (intro window_const) auto
  then show ?thesis by (intro flips_const) auto
qed

lemma walk_total: "ok s \<Longrightarrow> \<exists>r. walk c till s = Some r"
proof (induction "nat (till - c)" arbitrary: c s rule: less_induct)
  case less
  show ?case
  proof (cases "till \<le> deadline s c")
    case False
    obtain s' r where st: "step (deadline s c) s = (s', r)" by fastforce
    have "ok s'" using step_frame [OF st] less.prems by simp
    moreover have "nat (till - deadline s c) < nat (till - c)" using deadline_later [OF less.prems, of c] False by simp
    ultimately show ?thesis using less.hyps False st by (subst walk_unfold) (auto split: option.split)
  qed (subst walk_unfold, simp)
qed

text \<open>The changes in the window from \<open>c\<close> (excluded) to \<open>t\<close> (excluded).\<close>

lemma flips_upto_deadline:
  assumes "ok s" "c \<le> t" "t = deadline s c" "t < till"
  shows "flips (window s c) (map (window s) [c + 1..till - 1]) =
    flips (window s c) [window s t] @ flips (window s t) (map (window s) [t + 1..till - 1])"
proof -
  have "c < t" using deadline_later [OF assms(1)] assms(3) by simp
  then have split: "[c + 1..till - 1] = [c + 1..t - 1] @ t # [t + 1..till - 1]"
    using assms(4) upto_split2 [of "c + 1" t "till - 1"] upto_snoc [of "c + 1" t] by simp
  have const: "\<forall>u \<in> set [c + 1..t - 1]. window s u = window s c"
    using assms(1,3) by (intro ballI window_const) auto
  then have "flips (window s c) (map (window s) [c + 1..t - 1]) = []" by (intro flips_const) auto
  moreover have "last (window s c # map (window s) [c + 1..t - 1]) = window s c"
    using const last_in_set [of "window s c # map (window s) [c + 1..t - 1]"] by auto
  ultimately show ?thesis by (simp add: split flips_append)
qed

lemma walk_polls:
  assumes "ok s" "active s = window s c" "c < till" "walk c till s = Some (s', r)"
  shows "\<exists>t. c < t \<and> t \<le> till \<and> announced s' = announced s @ flips (window s c) (map (window s) [c + 1..t - 1])
    \<and> active s' = window s (t - 1) \<and> (r = None \<longrightarrow> t = till) \<and> (r \<noteq> None \<longrightarrow> t < till \<and> window s t \<noteq> active s')"
  using assms
proof (induction "nat (till - c)" arbitrary: c s rule: less_induct)
  case less
  let ?d = "deadline s c"
  have later: "c < ?d" by (rule deadline_later) (rule less.prems)
  show ?case
  proof (cases "till \<le> ?d")
    case True
    then have "s' = s" "r = None" using less.prems(4) by (simp_all add: walk_unfold [of c])
    moreover have "window s (till - 1) = window s c"
      using True less.prems by (intro window_const) auto
    ultimately show ?thesis using True less.prems flips_window_const [of s c till]
      by (intro exI [of _ till]) auto
  next
    case False
    obtain s1 r1 where st: "step ?d s = (s1, r1)" by fastforce
    have frame: "ok s1" "window s1 = window s" using step_frame [OF st] less.prems by simp_all
    show ?thesis
    proof (cases r1)
      case (Some e)
      then have eq: "s' = s1" "r = Some e" using less.prems(4) False st by (simp_all add: walk_unfold [of c])
      have "window s (?d - 1) = window s c" using later less.prems by (intro window_const) auto
      then show ?thesis
        using step_failed [of ?d s s1 e] st Some eq later False less.prems flips_window_const [of s c ?d]
        by (intro exI [of _ ?d]) auto
    next
      case None
      then have w: "walk ?d till s1 = Some (s', r)" using less.prems(4) False st by (simp add: walk_unfold [of c])
      have step: "active s1 = window s ?d" "announced s1 = announced s @ flips (window s c) [window s ?d]"
        using step_done [of ?d s s1] st None less.prems by simp_all
      have "nat (till - ?d) < nat (till - c)" using later False by simp
      from less.hyps [OF this frame(1) _ _ w] step(1) frame(2) False obtain t where
        t: "?d < t" "t \<le> till" "announced s' = announced s1 @ flips (window s ?d) (map (window s) [?d + 1..t - 1])"
          "active s' = window s (t - 1)" "r = None \<longrightarrow> t = till" "r \<noteq> None \<longrightarrow> t < till \<and> window s t \<noteq> active s'"
        by auto
      then show ?thesis
        using step(2) later flips_upto_deadline [OF less.prems(1) _ refl t(1)] by (intro exI [of _ t]) auto
    qed
  qed
qed

text \<open>A whole \<open>tick_until\<close>: a first reconciliation, then the loop.\<close>

lemma tick_polls:
  assumes "ok s" "from < till"
    and "tick = (case step from s of (s', Some e) \<Rightarrow> Some (s', Some e) | (s', None) \<Rightarrow> walk from till s')"
  shows "\<exists>s' r t. tick = Some (s', r) \<and> from \<le> t \<and> t \<le> till
    \<and> announced s' = announced s @ flips (active s) (map (window s) [from..t - 1])
    \<and> active s' = last (active s # map (window s) [from..t - 1])
    \<and> (if r = None then t = till else t < till \<and> window s t \<noteq> active s')"
proof -
  obtain s1 r1 where st: "step from s = (s1, r1)" by fastforce
  have frame: "ok s1" "window s1 = window s" using step_frame [OF st] assms by simp_all
  show ?thesis
  proof (cases r1)
    case (Some e)
    then show ?thesis using step_failed [of "from" s s1 e] st assms(2,3) by (intro exI [of _ s1] exI [of _ r1] exI [of _ "from"]) auto
  next
    case None
    obtain s' r where w: "walk from till s1 = Some (s', r)" using walk_total [OF frame(1)] by fastforce
    have step: "active s1 = window s from" "announced s1 = announced s @ flips (active s) [window s from]"
      using step_done [of "from" s s1] st None by simp_all
    from walk_polls [OF frame(1) _ assms(2) w] step(1) frame(2) obtain t where
      t: "from < t" "t \<le> till" "announced s' = announced s1 @ flips (window s from) (map (window s) [from + 1..t - 1])"
        "active s' = window s (t - 1)" "r = None \<longrightarrow> t = till" "r \<noteq> None \<longrightarrow> t < till \<and> window s t \<noteq> active s'"
      by auto
    have "[from..t - 1] = from # [from + 1..t - 1]" using t(1) by (subst upto.simps) simp
    moreover have "last (active s # map (window s) [from..t - 1]) = window s (t - 1)"
      using t(1) upto_snoc [of "from" "t - 1"] by simp
    ultimately show ?thesis using t step(2) w st None assms(3)
      by (intro exI [of _ s'] exI [of _ r] exI [of _ t]) auto
  qed
qed

lemma run_polls:
  assumes "ok s" "run ts s = (s', r, sls)"
  shows "\<exists>n \<le> length ts. announced s' = announced s @ flips (active s) (map (\<lambda>x. window s (fst x)) (take n ts))
    \<and> active s' = last (active s # map (\<lambda>x. window s (fst x)) (take n ts)) \<and> length sls = n \<and> (\<forall>d \<in> set sls. 0 < d)
    \<and> (if r = None then n = length ts else n < length ts \<and> window s (fst (ts ! n)) \<noteq> active s')"
  using assms
proof (induction ts arbitrary: s sls)
  case Nil
  then show ?case by (auto simp: run_nil)
next
  case (Cons tu ts)
  obtain t u where tu: "tu = (t, u)" by fastforce
  obtain s1 r1 where st: "step t s = (s1, r1)" by fastforce
  have frame: "ok s1" "window s1 = window s" "deadline s1 = deadline s" using step_frame [OF st] Cons.prems by simp_all
  show ?case
  proof (cases r1)
    case (Some e)
    then show ?thesis using step_failed [of t s s1 e] st Cons.prems(2)
      by (intro exI [of _ 0]) (auto simp: run_cons tu)
  next
    case None
    obtain sls' where r': "run ts s1 = (s', r, sls')" and sls: "sls = sleep_until_utc u (deadline s u) # sls'"
      using Cons.prems(2) st None frame(3) by (auto simp: run_cons tu split: prod.splits)
    have step: "active s1 = window s t" "announced s1 = announced s @ flips (active s) [window s t]"
      using step_done [of t s s1] st None by simp_all
    from Cons.IH [OF frame(1) r'] obtain n where n: "n \<le> length ts"
      "announced s' = announced s1 @ flips (active s1) (map (\<lambda>x. window s (fst x)) (take n ts))"
      "active s' = last (active s1 # map (\<lambda>x. window s (fst x)) (take n ts))" "length sls' = n" "\<forall>d \<in> set sls'. 0 < d"
      "if r = None then n = length ts else n < length ts \<and> window s (fst (ts ! n)) \<noteq> active s'"
      unfolding frame(2) by blast
    have "0 < sleep_until_utc u (deadline s u)" using deadline_later [OF Cons.prems(1), of u] by (simp add: sleep_until_utc_def)
    then show ?thesis using n step sls by (intro exI [of _ "Suc n"]) (auto simp: tu)
  qed
qed

end

section \<open>The daily window\<close>

definition ist_day :: "instant \<Rightarrow> naive_date" where
  "ist_day t = (t + IST_OFFSET) div DAY"

definition ist_at :: "naive_date \<Rightarrow> naive_time \<Rightarrow> instant" where
  "ist_at d a = and_time d a - IST_OFFSET"

text \<open>The window from time of day \<open>a\<close> to \<open>b\<close> (excluded) on every date.\<close>

definition daily_window :: "naive_time \<Rightarrow> naive_time \<Rightarrow> instant \<Rightarrow> bool" where
  "daily_window a b t \<longleftrightarrow> ist_at (ist_day t) a \<le> t \<and> t < ist_at (ist_day t) b"

definition daily_deadline :: "naive_time \<Rightarrow> naive_time \<Rightarrow> instant \<Rightarrow> instant" where
  "daily_deadline a b t =
     (if t < ist_at (ist_day t) a then ist_at (ist_day t) a
      else if t < ist_at (ist_day t) b then ist_at (ist_day t) b
      else ist_at (ist_day t + 1) a)"

lemma DAY_pos: "0 < DAY" by (simp add: DAY_def NS_def)

lemma ist_day_bounds: "ist_at (ist_day t) 0 \<le> t \<and> t < ist_at (ist_day t + 1) 0"
proof -
  define q where "q = ist_day t * DAY"
  have "q + (t + IST_OFFSET) mod DAY = t + IST_OFFSET" by (simp add: q_def ist_day_def)
  moreover have "0 \<le> (t + IST_OFFSET) mod DAY" "(t + IST_OFFSET) mod DAY < DAY" using DAY_pos by simp_all
  ultimately have "q \<le> t + IST_OFFSET" "t + IST_OFFSET < q + DAY" by linarith+
  then show ?thesis unfolding ist_at_def and_time_def by (simp add: distrib_right q_def)
qed

lemma ist_dayI: "ist_at d 0 \<le> t \<Longrightarrow> t < ist_at (d + 1) 0 \<Longrightarrow> ist_day t = d"
  unfolding ist_day_def ist_at_def and_time_def using DAY_pos
  by (intro int_div_pos_eq [where r = "t + IST_OFFSET - d * DAY"]) (auto simp: algebra_simps)

lemma ist_at_mono: "a \<le> b \<Longrightarrow> ist_at d a \<le> ist_at d b"
  by (simp add: ist_at_def and_time_def NS_def)

lemma ist_at_strict: "ist_at d a < ist_at d b \<longleftrightarrow> a < b"
  by (simp add: ist_at_def and_time_def NS_def)

lemma ist_at_within: "a < 86400 \<Longrightarrow> ist_at d a < ist_at (d + 1) 0"
  by (simp add: ist_at_def and_time_def NS_def DAY_def distrib_right)

lemma daily_deadline_later: "a < 86400 \<Longrightarrow> b < 86400 \<Longrightarrow> t < daily_deadline a b t"
  using ist_day_bounds [of t] ist_at_mono [of 0 a "ist_day t + 1"] by (auto simp: daily_deadline_def)

lemma daily_window_const:
  assumes "a < 86400" "b < 86400" "t \<le> u" "u < daily_deadline a b t"
  shows "daily_window a b u = daily_window a b t"
proof (cases "u < ist_at (ist_day t + 1) 0")
  case True
  then have "ist_day u = ist_day t" using ist_day_bounds [of t] assms(3) by (intro ist_dayI) auto
  then show ?thesis using assms by (auto simp: daily_window_def daily_deadline_def split: if_splits)
next
  case False
  have "u < ist_at (ist_day t + 1) a \<and> ist_at (ist_day t) b \<le> t"
    using assms False ist_at_within [of a "ist_day t"] ist_at_within [of b "ist_day t"]
    by (auto simp: daily_deadline_def split: if_splits)
  moreover from this have "ist_day u = ist_day t + 1"
    using False assms(1) ist_at_within [of a "ist_day t + 1"] by (intro ist_dayI) auto
  ultimately show ?thesis by (simp add: daily_window_def)
qed

section \<open>Both controllers are window controllers\<close>

lemma wm_schedule:
  "kolkata_ok ch \<Longrightarrow> wm_ist_to_utc ch d a = ist_at d a"
  "kolkata_ok ch \<Longrightarrow> wm_day_for ch t c = \<lparr>wmd_ist_date = ist_day t,
     wmd_start_utc = ist_at (ist_day t) (wm_start_ist (wm_cfg c)), wmd_end_utc = ist_at (ist_day t) (wm_end_ist (wm_cfg c))\<rparr>"
  "kolkata_ok ch \<Longrightarrow> wm_next_deadline ch t c = daily_deadline (wm_start_ist (wm_cfg c)) (wm_end_ist (wm_cfg c)) t"
  by (simp_all add: wm_ist_to_utc_def kolkata_ok_def ist_at_def wm_day_for_def wm_for_date_def ist_day_def
      wm_next_deadline_def daily_deadline_def Let_def)

definition wm_ok :: "chrono \<Rightarrow> warmode_sys \<Rightarrow> bool" where
  "wm_ok ch s \<longleftrightarrow> kolkata_ok ch \<and> wm_start_ist (wm_cfg (fst s)) < 86400 \<and> wm_end_ist (wm_cfg (fst s)) < 86400"

definition wm_window :: "chrono \<Rightarrow> warmode_sys \<Rightarrow> instant \<Rightarrow> bool" where
  "wm_window ch s t = (let day = wm_day_for ch t (fst s) in wmd_start_utc day \<le> t \<and> t < wmd_end_utc day)"

definition wm_announced :: "warmode_sys \<Rightarrow> bool list" where
  "wm_announced s = map (\<lambda>e. wme_phase e = WmStart) (accepted (snd s))"

definition wm_active :: "warmode_sys \<Rightarrow> bool" where
  "wm_active s \<longleftrightarrow> wm_state (fst s) = WmActive"

lemma wm_emit_phase:
  "wm_emit ph sid c w = (w', None) \<Longrightarrow> wm_announced (c', w') = wm_announced (c, w) @ [ph = WmStart]"
  "wm_emit ph sid c w = (w', Some e) \<Longrightarrow> wm_announced (c', w') = wm_announced (c, w)"
  by (cases ph; auto simp: wm_emit_def Let_def wm_announced_def warmode_event_start_def warmode_event_end_def
      dest: accepted_publish)+

lemma wm_reconcile_eq:
  "wm_reconcile_at ch t s =
     (if wm_active s = wm_window ch s t then (s, None)
      else case wm_emit (if wm_window ch s t then WmStart else WmEnd) (wm_session_id ch (wm_day_for ch t (fst s))) (fst s) (snd s) of
             (w', Some e) \<Rightarrow> ((fst s, w'), Some e)
           | (w', None) \<Rightarrow> (((fst s)\<lparr>wm_state := if wm_window ch s t then WmActive else WmInactive\<rparr>, w'), None))"
proof (cases s)
  case (Pair c w)
  define b where "b = (wmd_start_utc (wm_day_for ch t c) \<le> t \<and> t < wmd_end_utc (wm_day_for ch t c))"
  have "wm_window ch (c, w) t = b" by (simp add: wm_window_def b_def Let_def)
  then show ?thesis unfolding Pair wm_reconcile_at_def Let_def prod.case b_def [symmetric]
    by (cases "wm_state c"; cases b; simp add: wm_active_def)
qed

lemma wm_reconcile_cases:
  assumes "wm_reconcile_at ch t s = (s', r)"
  obtains (keep) "wm_active s = wm_window ch s t" "s' = s" "r = None"
  | (moved) w' where "wm_active s \<noteq> wm_window ch s t" "r = None"
      "wm_emit (if wm_window ch s t then WmStart else WmEnd) (wm_session_id ch (wm_day_for ch t (fst s))) (fst s) (snd s) = (w', None)"
      "s' = ((fst s)\<lparr>wm_state := if wm_window ch s t then WmActive else WmInactive\<rparr>, w')"
  | (failed) w' e where "wm_active s \<noteq> wm_window ch s t" "r = Some e"
      "wm_emit (if wm_window ch s t then WmStart else WmEnd) (wm_session_id ch (wm_day_for ch t (fst s))) (fst s) (snd s) = (w', Some e)"
      "s' = (fst s, w')"
  using assms unfolding wm_reconcile_eq
  by (cases "wm_active s = wm_window ch s t") (auto split: prod.splits option.splits)

lemma wm_window_cfg: "wm_cfg (fst s') = wm_cfg (fst s) \<Longrightarrow> wm_window ch s' = wm_window ch s"
  by (simp add: wm_window_def wm_day_for_def fun_eq_iff)

interpretation wm: window_controller "wm_ok ch" wm_active wm_announced "wm_window ch"
    "\<lambda>s t. wm_next_deadline ch t (fst s)" "wm_reconcile_at ch" "wm_walk ch" "wm_run ch" for ch
proof (unfold_locales, goal_cases)
  case (1 t s s')
  then show ?case
  proof (cases rule: wm_reconcile_cases)
    case (moved w')
    then show ?thesis using wm_emit_phase(1) [OF moved(3)] by (cases "wm_window ch s t") (simp_all add: wm_active_def)
  qed simp_all
next
  case (2 t s s' e)
  then show ?case
  proof (cases rule: wm_reconcile_cases)
    case (failed w' e')
    then show ?thesis using wm_emit_phase(2) [OF failed(3), of "fst s"] by (simp add: wm_active_def)
  qed simp_all
next
  case (3 t s s' r)
  then have "wm_cfg (fst s') = wm_cfg (fst s)" by (cases rule: wm_reconcile_cases) auto
  then show ?case using wm_window_cfg [of s' s ch]
    by (simp add: wm_ok_def wm_next_deadline_def wm_day_for_def cong del: if_weak_cong)
next
  case (4 s t)
  then show ?case by (auto simp: wm_ok_def wm_schedule daily_deadline_later)
next
  case (5 s t u)
  then have k: "kolkata_ok ch" by (simp add: wm_ok_def)
  have "wm_window ch s v = daily_window (wm_start_ist (wm_cfg (fst s))) (wm_end_ist (wm_cfg (fst s))) v" for v
    by (simp add: wm_window_def wm_schedule [OF k] daily_window_def)
  with 5 show ?case by (simp add: wm_ok_def wm_schedule daily_window_const)
next
  case (6 c till s)
  show ?case by (subst wm_walk.simps) (simp add: Let_def)
next
  case (7 s)
  show ?case by (rule wm_run.simps)
next
  case (8 t u ts s)
  show ?case by (rule wm_run.simps)
qed

lemma sc_schedule:
  "kolkata_ok ch \<Longrightarrow> sc_ist_to_utc ch d a = ist_at d a"
  "kolkata_ok ch \<Longrightarrow> sc_day_for ch t c = \<lparr>scd_ist_date = ist_day t,
     scd_start_utc = ist_at (ist_day t) (start_ist (sc_cfg c)), scd_end_utc = ist_at (ist_day t) (end_ist (sc_cfg c))\<rparr>"
  "kolkata_ok ch \<Longrightarrow> sc_next_deadline ch t c = daily_deadline (start_ist (sc_cfg c)) (end_ist (sc_cfg c)) t"
  by (simp_all add: sc_ist_to_utc_def kolkata_ok_def ist_at_def sc_day_for_def sc_for_date_def ist_day_def
      sc_next_deadline_def daily_deadline_def Let_def)

definition sc_ok :: "chrono \<Rightarrow> session_sys \<Rightarrow> bool" where
  "sc_ok ch s \<longleftrightarrow> kolkata_ok ch \<and> start_ist (sc_cfg (fst s)) < 86400 \<and> end_ist (sc_cfg (fst s)) < 86400"

definition sc_window :: "chrono \<Rightarrow> session_sys \<Rightarrow> instant \<Rightarrow> bool" where
  "sc_window ch s t = (let day = sc_day_for ch t (fst s) in scd_start_utc day \<le> t \<and> t < scd_end_utc day)"

definition sc_announced :: "session_sys \<Rightarrow> bool list" where
  "sc_announced s = map (\<lambda>e. sce_phase e = ScStart) (accepted (snd s))"

definition sc_active :: "session_sys \<Rightarrow> bool" where
  "sc_active s \<longleftrightarrow> sc_state (fst s) = ScActive"

lemma sc_emit_phase:
  "sc_emit ph sid c w = (w', None) \<Longrightarrow> sc_announced (c', w') = sc_announced (c, w) @ [ph = ScStart]"
  "sc_emit ph sid c w = (w', Some e) \<Longrightarrow> sc_announced (c', w') = sc_announced (c, w)"
  by (cases ph; auto simp: sc_emit_def Let_def sc_announced_def session_event_start_def session_event_end_def
      dest: accepted_publish)+

lemma sc_reconcile_eq:
  "sc_reconcile_at ch t s =
     (if sc_active s = sc_window ch s t then (s, None)
      else case sc_emit (if sc_window ch s t then ScStart else ScEnd) (sc_session_id ch (sc_day_for ch t (fst s))) (fst s) (snd s) of
             (w', Some e) \<Rightarrow> ((fst s, w'), Some e)
           | (w', None) \<Rightarrow> (((fst s)\<lparr>sc_state := if sc_window ch s t then ScActive else ScInactive\<rparr>, w'), None))"
proof (cases s)
  case (Pair c w)
  define b where "b = (scd_start_utc (sc_day_for ch t c) \<le> t \<and> t < scd_end_utc (sc_day_for ch t c))"
  have "sc_window ch (c, w) t = b" by (simp add: sc_window_def b_def Let_def)
  then show ?thesis unfolding Pair sc_reconcile_at_def Let_def prod.case b_def [symmetric]
    by (cases "sc_state c"; cases b; simp add: sc_active_def)
qed

lemma sc_reconcile_cases:
  assumes "sc_reconcile_at ch t s = (s', r)"
  obtains (keep) "sc_active s = sc_window ch s t" "s' = s" "r = None"
  | (moved) w' where "sc_active s \<noteq> sc_window ch s t" "r = None"
      "sc_emit (if sc_window ch s t then ScStart else ScEnd) (sc_session_id ch (sc_day_for ch t (fst s))) (fst s) (snd s) = (w', None)"
      "s' = ((fst s)\<lparr>sc_state := if sc_window ch s t then ScActive else ScInactive\<rparr>, w')"
  | (failed) w' e where "sc_active s \<noteq> sc_window ch s t" "r = Some e"
      "sc_emit (if sc_window ch s t then ScStart else ScEnd) (sc_session_id ch (sc_day_for ch t (fst s))) (fst s) (snd s) = (w', Some e)"
      "s' = (fst s, w')"
  using assms unfolding sc_reconcile_eq
  by (cases "sc_active s = sc_window ch s t") (auto split: prod.splits option.splits)

lemma sc_window_cfg: "sc_cfg (fst s') = sc_cfg (fst s) \<Longrightarrow> sc_window ch s' = sc_window ch s"
  by (simp add: sc_window_def sc_day_for_def fun_eq_iff)

interpretation sc: window_controller "sc_ok ch" sc_active sc_announced "sc_window ch"
    "\<lambda>s t. sc_next_deadline ch t (fst s)" "sc_reconcile_at ch" "sc_walk ch" "sc_run ch" for ch
proof (unfold_locales, goal_cases)
  case (1 t s s')
  then show ?case
  proof (cases rule: sc_reconcile_cases)
    case (moved w')
    then show ?thesis using sc_emit_phase(1) [OF moved(3)] by (cases "sc_window ch s t") (simp_all add: sc_active_def)
  qed simp_all
next
  case (2 t s s' e)
  then show ?case
  proof (cases rule: sc_reconcile_cases)
    case (failed w' e')
    then show ?thesis using sc_emit_phase(2) [OF failed(3), of "fst s"] by (simp add: sc_active_def)
  qed simp_all
next
  case (3 t s s' r)
  then have "sc_cfg (fst s') = sc_cfg (fst s)" by (cases rule: sc_reconcile_cases) auto
  then show ?case using sc_window_cfg [of s' s ch]
    by (simp add: sc_ok_def sc_next_deadline_def sc_day_for_def cong del: if_weak_cong)
next
  case (4 s t)
  then show ?case by (auto simp: sc_ok_def sc_schedule daily_deadline_later)
next
  case (5 s t u)
  then have k: "kolkata_ok ch" by (simp add: sc_ok_def)
  have "sc_window ch s v = daily_window (start_ist (sc_cfg (fst s))) (end_ist (sc_cfg (fst s))) v" for v
    by (simp add: sc_window_def sc_schedule [OF k] daily_window_def)
  with 5 show ?case by (simp add: sc_ok_def sc_schedule daily_window_const)
next
  case (6 c till s)
  show ?case by (subst sc_walk.simps) (simp add: Let_def)
next
  case (7 s)
  show ?case by (rule sc_run.simps)
next
  case (8 t u ts s)
  show ?case by (rule sc_run.simps)
qed

section \<open>Properties\<close>

text \<open>A concrete instance of the calendar: the fixed offset, and the proleptic Gregorian fields of a date.\<close>

definition gregorian :: "naive_date \<Rightarrow> int \<times> nat \<times> nat" where
  "gregorian z =
     (let z' = z + 719468;
          era = z' div 146097;
          doe = z' mod 146097;
          yoe = (doe - doe div 1460 + doe div 36524 - doe div 146096) div 365;
          doy = doe - (365 * yoe + yoe div 4 - yoe div 100);
          mp = (5 * doy + 2) div 153;
          d = doy - (153 * mp + 2) div 5 + 1;
          m = (if mp < 10 then mp + 3 else mp - 9)
      in (yoe + era * 400 + (if m \<le> 2 then 1 else 0), nat m, nat d))"

definition ist_chrono :: chrono where
  "ist_chrono = \<lparr>from_local_datetime = (\<lambda>l. LocalSingle (l - IST_OFFSET)), to_local = (\<lambda>t. t + IST_OFFSET), civil = gregorian\<rparr>"

definition quiet_world :: "'e ops_world" where
  "quiet_world = \<lparr>now_at = (\<lambda>k. word_of_nat k), answer_at = (\<lambda>k. None), attempts = []\<rparr>"

lemma ist_chrono_ok: "kolkata_ok ist_chrono"
  by (simp add: kolkata_ok_def ist_chrono_def)

lemma sc_window_daily:
  "kolkata_ok ch \<Longrightarrow> sc_window ch s = daily_window (start_ist (sc_cfg (fst s))) (end_ist (sc_cfg (fst s)))"
  by (simp add: fun_eq_iff sc_window_def sc_schedule daily_window_def)

text \<open>C36: Sleeping is as good as polling. Whatever the bus answers, \<open>tick_until\<close> returns. When no
  publication fails, the accepted events are exactly the ones a controller would publish that looked
  at the clock in every nanosecond of the interval; they alternate between Start and End, and the
  state is the window at the end. When one fails, this holds up to the instant of the failed
  transition, and the state still differs from the window, so the next reconciliation tries again.\<close>

theorem session_emits_like_polling:
  assumes "kolkata_ok ch" and "from < till"
    and "start_ist (sc_cfg (fst s)) < 86400" and "end_ist (sc_cfg (fst s)) < 86400"
    and "W = daily_window (start_ist (sc_cfg (fst s))) (end_ist (sc_cfg (fst s)))"
  shows "\<exists>s' r t evs. sc_tick_until ch from till s = Some (s', r) \<and> from \<le> t \<and> t \<le> till
    \<and> sc_announced s' = sc_announced s @ evs \<and> evs = flips (sc_active s) (map W [from..t - 1])
    \<and> alternates (sc_active s) evs \<and> sc_active s' = last (sc_active s # map W [from..t - 1])
    \<and> (if r = None then t = till else t < till \<and> W t \<noteq> sc_active s')"
proof -
  have ok: "sc_ok ch s" using assms by (simp add: sc_ok_def)
  show ?thesis
    using sc.tick_polls [OF ok assms(2) sc_tick_until_def] flips_alternate
    unfolding sc_window_daily [OF assms(1)] assms(5) by blast
qed

theorem session_emits_like_polling_witness:
  "\<exists>s' r. sc_tick_until ist_chrono 0 100000000000000 (sc_new default_session, quiet_world) = Some (s', r)
     \<and> alternates False (sc_announced s')"
proof -
  have "start_ist (sc_cfg (fst (sc_new default_session, quiet_world))) < 86400"
    "end_ist (sc_cfg (fst (sc_new default_session, quiet_world))) < 86400"
    by (simp_all add: sc_new_def default_session_def)
  from session_emits_like_polling [OF ist_chrono_ok _ this refl, of 0 100000000000000] show ?thesis
    by (auto simp: sc_announced_def quiet_world_def accepted_def sc_active_def sc_new_def)
qed

text \<open>The \<open>run\<close> loop under arbitrary wake-ups. For any clock readings, early, late or repeated, the
  accepted events are the changes the readings show, up to the first failed publication, which
  ends the loop with the transition still to be announced; every sleep before is positive,
  so the loop never spins.\<close>

theorem session_run_edge_triggered:
  assumes "kolkata_ok ch" and "start_ist (sc_cfg (fst s)) < 86400" and "end_ist (sc_cfg (fst s)) < 86400"
    and "W = daily_window (start_ist (sc_cfg (fst s))) (end_ist (sc_cfg (fst s)))"
    and "sc_run ch ts s = (s', r, sleeps)"
  shows "\<exists>n \<le> length ts. sc_announced s' = sc_announced s @ flips (sc_active s) (map (\<lambda>x. W (fst x)) (take n ts))
    \<and> length sleeps = n \<and> (\<forall>d \<in> set sleeps. 0 < d)
    \<and> (if r = None then n = length ts else n < length ts \<and> W (fst (ts ! n)) \<noteq> sc_active s')"
proof -
  have ok: "sc_ok ch s" using assms by (simp add: sc_ok_def)
  show ?thesis
    using sc.run_polls [OF ok assms(5)] unfolding sc_window_daily [OF assms(1)] assms(4) by blast
qed

theorem session_run_edge_triggered_witness:
  "\<exists>n \<le> 2. sc_announced (fst (sc_run ist_chrono [(0, 0), (40000000000000, 40000000000001)] (sc_new default_session, quiet_world)))
     = flips False (map (\<lambda>x. daily_window 33300 55800 (fst x)) (take n [(0, 0), (40000000000000, 40000000000001 :: int)]))"
proof -
  let ?s = "(sc_new default_session, quiet_world)"
  have cfg: "start_ist (sc_cfg (sc_new default_session)) = 33300" "end_ist (sc_cfg (sc_new default_session)) = 55800"
    by (simp_all add: sc_new_def default_session_def)
  have init: "sc_announced ?s = []" "sc_active ?s = False"
    by (simp_all add: sc_announced_def quiet_world_def accepted_def sc_active_def sc_new_def)
  obtain s' r sl where run: "sc_run ist_chrono [(0, 0), (40000000000000, 40000000000001)] ?s = (s', r, sl)"
    by (metis prod_cases3)
  have "start_ist (sc_cfg (fst ?s)) < 86400" "end_ist (sc_cfg (fst ?s)) < 86400" using cfg by simp_all
  from session_run_edge_triggered [OF ist_chrono_ok this refl run] show ?thesis
    unfolding cfg init run fst_conv by (auto simp: numeral_2_eq_2)
qed

lemma ist_day_at: "a < 86400 \<Longrightarrow> ist_day (ist_at d a) = d"
  using ist_at_within [of a d] ist_at_mono [of 0 a d] by (intro ist_dayI) auto

lemma wm_reconcile_start:
  assumes "kolkata_ok ch" "wm_start_ist (wm_cfg c) < wm_end_ist (wm_cfg c)" "wm_end_ist (wm_cfg c) < 86400"
    "wm_state c = WmInactive" "answer_at w (length (attempts w)) = None" "t = ist_at d (wm_start_ist (wm_cfg c))"
  shows "wm_reconcile_at ch t (c, w) = ((c\<lparr>wm_state := WmActive\<rparr>, w\<lparr>attempts := attempts w @
     [warmode_event_start (wm_session_id ch (wm_for_date ch d (wm_cfg c))) (min_confidence (wm_cfg c)) (scan_multiplier (wm_cfg c)) (ops_now w)]\<rparr>), None)"
  using assms ist_day_at [of "wm_start_ist (wm_cfg c)" d]
  by (simp add: wm_reconcile_at_def wm_emit_def ops_publish_def wm_schedule ist_at_strict wm_for_date_def Let_def)

lemma wm_reconcile_end:
  assumes "kolkata_ok ch" "wm_end_ist (wm_cfg c) < 86400"
    "wm_state c = WmActive" "answer_at w (length (attempts w)) = None" "t = ist_at d (wm_end_ist (wm_cfg c))"
  shows "wm_reconcile_at ch t (c, w) = ((c\<lparr>wm_state := WmInactive\<rparr>, w\<lparr>attempts := attempts w @
     [warmode_event_end (wm_session_id ch (wm_for_date ch d (wm_cfg c))) (min_confidence (wm_cfg c)) (scan_multiplier (wm_cfg c)) (ops_now w)]\<rparr>), None)"
  using assms ist_day_at [of "wm_end_ist (wm_cfg c)" d]
  by (simp add: wm_reconcile_at_def wm_emit_def ops_publish_def wm_schedule wm_for_date_def Let_def)

text \<open>One day of War_Mode. From one IST midnight to the next, with a bus that accepts the two
  publications, an inactive controller publishes exactly a Start and an End event, both with the
  session id of that date and the configured profile, and is inactive again.\<close>

theorem warmode_day_events:
  assumes "kolkata_ok ch" and "wm_start_ist (wm_cfg c) < wm_end_ist (wm_cfg c)" and "wm_end_ist (wm_cfg c) < 86400"
    and "wm_state c = WmInactive" and "answer_at w (length (attempts w)) = None" and "answer_at w (Suc (length (attempts w))) = None"
    and "sid = wm_session_id ch (wm_for_date ch d (wm_cfg c))"
  shows "wm_tick_until ch (ist_at d 0) (ist_at (d + 1) 0) (c, w) = Some ((c, w\<lparr>attempts := attempts w @
     [warmode_event_start sid (min_confidence (wm_cfg c)) (scan_multiplier (wm_cfg c)) (now_at w (length (attempts w))),
      warmode_event_end sid (min_confidence (wm_cfg c)) (scan_multiplier (wm_cfg c)) (now_at w (Suc (length (attempts w))))]\<rparr>), None)"
proof -
  let ?a = "wm_start_ist (wm_cfg c)" and ?b = "wm_end_ist (wm_cfg c)" and ?till = "ist_at (d + 1) 0"
  let ?e1 = "warmode_event_start sid (min_confidence (wm_cfg c)) (scan_multiplier (wm_cfg c)) (ops_now w)"
  define c1 w1 where "c1 = c\<lparr>wm_state := WmActive\<rparr>" and "w1 = w\<lparr>attempts := attempts w @ [?e1]\<rparr>"
  let ?e2 = "warmode_event_end sid (min_confidence (wm_cfg c)) (scan_multiplier (wm_cfg c)) (ops_now w1)"
  define w2 where "w2 = w1\<lparr>attempts := attempts w1 @ [?e2]\<rparr>"
  have ab: "?a < 86400" using assms(2,3) by simp
  have cfg: "wm_cfg c1 = wm_cfg c" "c1\<lparr>wm_state := WmInactive\<rparr> = c" using assms(4) by (simp_all add: c1_def)
  have start: "wm_reconcile_at ch (ist_at d ?a) (c, w) = ((c1, w1), None)"
    using wm_reconcile_start [OF assms(1-5) refl] by (simp add: c1_def w1_def assms(7))
  have "wm_reconcile_at ch (ist_at d ?b) (c1, w1) = ((c, w2), None)"
    using wm_reconcile_end [of ch c1 w1 "ist_at d ?b" d] assms cfg by (simp add: c1_def w1_def w2_def)
  moreover have "wm_next_deadline ch (ist_at d ?b) c = ist_at (d + 1) ?a"
    using assms(2) by (simp add: wm_schedule [OF assms(1)] daily_deadline_def ist_day_at [OF assms(3)] ist_at_strict)
  moreover have "?till \<le> ist_at (d + 1) ?a" by (rule ist_at_mono) simp
  moreover have "wm_next_deadline ch (ist_at d ?a) c1 = ist_at d ?b"
    using assms(2) by (simp add: wm_schedule [OF assms(1)] daily_deadline_def ist_day_at [OF ab] ist_at_strict cfg)
  moreover have "ist_at d ?b < ?till" using ist_at_within [OF assms(3)] by simp
  ultimately have walk: "wm_walk ch (ist_at d ?a) ?till (c1, w1) = Some ((c, w2), None)"
    by (subst wm_walk.simps, simp, subst wm_walk.simps, simp)
  have "wm_tick_until ch (ist_at d 0) ?till (c, w) = Some ((c, w2), None)"
  proof (cases "?a = 0")
    case True
    with start walk show ?thesis by (simp add: wm_tick_until_def)
  next
    case False
    then have "ist_at d 0 < ist_at d ?a" by (simp add: ist_at_strict)
    then have "wm_next_deadline ch (ist_at d 0) c = ist_at d ?a" "wm_reconcile_at ch (ist_at d 0) (c, w) = ((c, w), None)"
      using assms(4) by (simp_all add: wm_schedule [OF assms(1)] daily_deadline_def ist_day_at wm_reconcile_at_def Let_def)
    then show ?thesis using start walk ist_at_within [OF ab, of d] by (simp add: wm_tick_until_def wm_walk.simps [of ch "ist_at d 0"])
  qed
  then show ?thesis by (simp add: w2_def w1_def ops_now_def)
qed

lemma gregorian_20409: "gregorian 20409 = (2025, 11, 17)"
  by code_simp

theorem warmode_day_events_witness:
  "\<exists>w. wm_tick_until ist_chrono (ist_at 20409 0) (ist_at 20410 0) (wm_new default_war_mode, quiet_world)
      = Some ((wm_new default_war_mode, w), None) \<and> map wme_session_id (attempts w) = [20251117, 20251117]"
proof -
  let ?c = "wm_new default_war_mode"
  have cfg: "wm_start_ist (wm_cfg ?c) < wm_end_ist (wm_cfg ?c)" "wm_end_ist (wm_cfg ?c) < 86400" "wm_state ?c = WmInactive"
    by (simp_all add: wm_new_def default_war_mode_def)
  have quiet: "answer_at quiet_world n = None" "attempts quiet_world = []" for n by (simp_all add: quiet_world_def)
  have sid: "wm_session_id ist_chrono (wm_for_date ist_chrono 20409 cfg) = 20251117" for cfg
    by (simp add: wm_session_id_def wm_for_date_def ist_chrono_def gregorian_20409)
  from warmode_day_events [OF ist_chrono_ok cfg quiet(1) quiet(1) refl, of 20409] show ?thesis
    unfolding sid quiet by (simp add: warmode_event_start_def warmode_event_end_def)
qed

end
