(* ===== verification/Config_Loader.thy ===== *)
theory Config_Loader
  imports Config_Models Core_Types
begin

text \<open>
  The rest of \<open>hedge-config\<close>: the remaining sections and the root of the typed configuration
  (\<open>models.rs\<close>, \<open>defaults.rs\<close>), the loading pipeline with its cross-field checks (\<open>loader.rs\<close>,
  \<open>validation.rs\<close>, \<open>error.rs\<close>) and the two holders of an installed configuration (\<open>pinned.rs\<close>). YAML
  parsing, decoding into the typed form and the JSON schema validator are parameters. The message of
  an invariant violation is identified by the violated check; its rendering is not modelled.
\<close>

section \<open>Sections\<close>

record ui_config =
  high_vol_threshold :: flt

record governance_config =
  drift_warn :: flt
  drift_critical :: flt

record ranking_factors_config =
  rf_orderflow :: flt
  rf_technical_strength :: flt
  rf_news_sentiment :: flt
  rf_market_regime :: flt
  rf_trader_discipline :: flt

record ai_config =
  shadow_components :: "string list"
  governance :: governance_config
  rank_p95_budget_ms :: u64
  ranking_factors :: ranking_factors_config

record psychology_thresholds =
  pt_warning :: flt
  pt_cooldown :: flt
  pt_suppression :: flt
  pt_critical :: flt

record broker_config =
  bc_primary :: broker_id
  bc_backup :: broker_id
  failover_error_rate :: flt
  failover_latency_ms :: u32

datatype ollama_role = RolePrimary | RoleFast | RoleDeep | RoleLightweight

record ollama_model =
  om_name :: string
  om_role :: ollama_role
  om_quant :: string

record retention_config =
  metrics_days :: u32
  logs_days :: u32
  traces_days :: u32

record degraded_mode_config =
  drop_low_severity_logs :: bool
  sample_traces :: flt

record warm_cache_config =
  trade_confidence_lru_size :: u32
  staleness_window_ms :: u32
  wc_nats_url :: string

datatype replay_speed = X1 | X10 | MaxSpeed

fun speed_divisor :: "replay_speed \<Rightarrow> u32 option" where
  "speed_divisor X1 = Some 1"
| "speed_divisor X10 = Some 10"
| "speed_divisor MaxSpeed = None"

fun speed_as_str :: "replay_speed \<Rightarrow> string" where
  "speed_as_str X1 = ''x1''"
| "speed_as_str X10 = ''x10''"
| "speed_as_str MaxSpeed = ''max''"

record replay_config =
  segment_dir :: string
  max_segment_bytes :: u64
  default_speed :: replay_speed
  rng_seed :: u64

record hedge_config =
  hc_capital :: capital_config
  hc_risk :: risk_config
  hc_session :: session_config
  hc_war_mode :: war_mode_config
  hc_ui :: ui_config
  hc_ai :: ai_config
  hc_psychology :: psychology_thresholds
  hc_brokers :: broker_config
  hc_ollama :: "ollama_model list"
  hc_retention :: retention_config
  hc_degraded :: degraded_mode_config
  hc_warm_cache :: warm_cache_config
  hc_replay :: replay_config

section \<open>Defaults\<close>

definition default_ui :: ui_config where
  "default_ui = \<lparr>high_vol_threshold = rnd F32 (5 / 100)\<rparr>"

definition default_ai :: ai_config where
  "default_ai = \<lparr>shadow_components = [],
     governance = \<lparr>drift_warn = rnd F32 (20 / 100), drift_critical = rnd F32 (35 / 100)\<rparr>,
     rank_p95_budget_ms = 5,
     ranking_factors = \<lparr>rf_orderflow = rnd F32 (30 / 100), rf_technical_strength = rnd F32 (25 / 100),
       rf_news_sentiment = rnd F32 (20 / 100), rf_market_regime = rnd F32 (15 / 100), rf_trader_discipline = rnd F32 (10 / 100)\<rparr>\<rparr>"

definition default_psychology :: psychology_thresholds where
  "default_psychology = \<lparr>pt_warning = rnd F32 (6 / 10), pt_cooldown = rnd F32 (5 / 10),
     pt_suppression = rnd F32 (4 / 10), pt_critical = rnd F32 (3 / 10)\<rparr>"

definition default_brokers :: broker_config where
  "default_brokers = \<lparr>bc_primary = Zerodha, bc_backup = Dhan, failover_error_rate = rnd F32 (20 / 100), failover_latency_ms = 250\<rparr>"

definition default_ollama :: "ollama_model list" where
  "default_ollama =
    [\<lparr>om_name = ''qwen2.5:14b'', om_role = RolePrimary, om_quant = ''q4_k_m''\<rparr>,
     \<lparr>om_name = ''mistral:7b'', om_role = RoleFast, om_quant = ''q4_k_m''\<rparr>,
     \<lparr>om_name = ''deepseek-r1'', om_role = RoleDeep, om_quant = ''q4_k_m''\<rparr>,
     \<lparr>om_name = ''phi'', om_role = RoleLightweight, om_quant = ''q4_k_m''\<rparr>]"

definition default_retention :: retention_config where
  "default_retention = \<lparr>metrics_days = 30, logs_days = 14, traces_days = 7\<rparr>"

definition default_degraded :: degraded_mode_config where
  "default_degraded = \<lparr>drop_low_severity_logs = True, sample_traces = rnd F32 (1 / 10)\<rparr>"

definition default_warm_cache :: warm_cache_config where
  "default_warm_cache = \<lparr>trade_confidence_lru_size = 8192, staleness_window_ms = 5000, wc_nats_url = ''nats://127.0.0.1:4222''\<rparr>"

definition default_replay :: replay_config where
  "default_replay = \<lparr>segment_dir = ''./replay'', max_segment_bytes = 1073741824, default_speed = X1, rng_seed = 0xC0FFEE\<rparr>"

definition default_hedge_config :: hedge_config where
  "default_hedge_config = \<lparr>hc_capital = default_capital, hc_risk = default_risk, hc_session = default_session,
     hc_war_mode = default_war_mode, hc_ui = default_ui, hc_ai = default_ai, hc_psychology = default_psychology,
     hc_brokers = default_brokers, hc_ollama = default_ollama, hc_retention = default_retention,
     hc_degraded = default_degraded, hc_warm_cache = default_warm_cache, hc_replay = default_replay\<rparr>"

section \<open>Loading\<close>

datatype config_check = ProfitTargets | SessionWindow | WarModeWindow | DriftThresholds | BrokerPair | PsychologyLadder

datatype config_error =
    ConfigIo string string
  | ConfigYaml string
  | SchemaViolation string
  | InvariantViolation config_check
  | SchemaCompile string
  | AlreadyInstalled

definition check_ordering :: "psychology_thresholds \<Rightarrow> config_error option" where
  "check_ordering t =
     (if \<not> (flt_lt (pt_critical t) (pt_suppression t) \<and> flt_lt (pt_suppression t) (pt_cooldown t) \<and> flt_lt (pt_cooldown t) (pt_warning t))
      then Some (InvariantViolation PsychologyLadder) else None)"

definition psychology_validated :: "flt \<Rightarrow> flt \<Rightarrow> flt \<Rightarrow> flt \<Rightarrow> config_error + psychology_thresholds" where
  "psychology_validated warning cooldown suppression critical =
     (let raw = \<lparr>pt_warning = warning, pt_cooldown = cooldown, pt_suppression = suppression, pt_critical = critical\<rparr>
      in case check_ordering raw of Some e \<Rightarrow> Inl e | None \<Rightarrow> Inr raw)"

definition check_invariants :: "hedge_config \<Rightarrow> config_error option" where
  "check_invariants cfg =
     (if daily_profit_target_max_inr (hc_capital cfg) \<le> daily_profit_target_min_inr (hc_capital cfg) then Some (InvariantViolation ProfitTargets)
      else if end_ist (hc_session cfg) \<le> start_ist (hc_session cfg) then Some (InvariantViolation SessionWindow)
      else if wm_end_ist (hc_war_mode cfg) \<le> wm_start_ist (hc_war_mode cfg) then Some (InvariantViolation WarModeWindow)
      else if flt_le (drift_critical (governance (hc_ai cfg))) (drift_warn (governance (hc_ai cfg))) then Some (InvariantViolation DriftThresholds)
      else if bc_primary (hc_brokers cfg) = bc_backup (hc_brokers cfg) then Some (InvariantViolation BrokerPair)
      else check_ordering (hc_psychology cfg))"

text \<open>The parameters: the two YAML readers and the compiled schema, whose failures carry a message.\<close>

record 'v config_api =
  yaml_value :: "string \<Rightarrow> string + 'v"
  yaml_typed :: "string \<Rightarrow> string + hedge_config"
  schema :: "string + ('v \<Rightarrow> string list)"
  read_file :: "string \<Rightarrow> string + string"

fun join_str :: "string \<Rightarrow> string list \<Rightarrow> string" where
  "join_str sep [] = ''''"
| "join_str sep [x] = x"
| "join_str sep (x # y # ys) = x @ sep @ join_str sep (y # ys)"

definition validate_json :: "'v config_api \<Rightarrow> 'v \<Rightarrow> config_error option" where
  "validate_json api v =
     (case schema api of
        Inl e \<Rightarrow> Some (SchemaCompile e)
      | Inr errors \<Rightarrow> (if errors v = [] then None else Some (SchemaViolation (join_str ''; '' (errors v)))))"

definition load_from_str :: "'v config_api \<Rightarrow> string \<Rightarrow> config_error + hedge_config" where
  "load_from_str api raw =
     (case yaml_value api raw of
        Inl e \<Rightarrow> Inl (ConfigYaml e)
      | Inr json \<Rightarrow>
          (case validate_json api json of
             Some e \<Rightarrow> Inl e
           | None \<Rightarrow>
               (case yaml_typed api raw of
                  Inl e \<Rightarrow> Inl (ConfigYaml e)
                | Inr cfg \<Rightarrow> (case check_invariants cfg of Some e \<Rightarrow> Inl e | None \<Rightarrow> Inr cfg))))"

definition load_from_path :: "'v config_api \<Rightarrow> string \<Rightarrow> config_error + hedge_config" where
  "load_from_path api path =
     (case read_file api path of Inl e \<Rightarrow> Inl (ConfigIo path e) | Inr raw \<Rightarrow> load_from_str api raw)"

definition load_default :: hedge_config where
  "load_default = default_hedge_config"

definition load_or_default :: "'v config_api \<Rightarrow> string option \<Rightarrow> config_error + hedge_config" where
  "load_or_default api path = (case path of Some p \<Rightarrow> load_from_path api p | None \<Rightarrow> Inr load_default)"

text \<open>\<open>broker_id_serde\<close>: the names of brokers in the file.\<close>

fun broker_id_serialize :: "broker_id \<Rightarrow> string" where
  "broker_id_serialize Zerodha = ''zerodha''"
| "broker_id_serialize Dhan = ''dhan''"
| "broker_id_serialize Shoonya = ''shoonya''"
| "broker_id_serialize AngelOne = ''angel_one''"
| "broker_id_serialize Upstox = ''upstox''"
| "broker_id_serialize Simulated = ''simulated''"

definition broker_id_deserialize :: "string \<Rightarrow> broker_id option" where
  "broker_id_deserialize raw =
     (if raw = ''zerodha'' then Some Zerodha
      else if raw = ''dhan'' then Some Dhan
      else if raw = ''shoonya'' then Some Shoonya
      else if raw = ''angel_one'' then Some AngelOne
      else if raw = ''upstox'' then Some Upstox
      else if raw = ''simulated'' then Some Simulated
      else None)"

section \<open>Installed configurations\<close>

record pinned_config =
  pc_inner :: "hedge_config option"

definition pinned_new :: pinned_config where
  "pinned_new = \<lparr>pc_inner = None\<rparr>"

definition pinned_install :: "hedge_config \<Rightarrow> pinned_config \<Rightarrow> pinned_config \<times> (config_error + hedge_config)" where
  "pinned_install cfg p =
     (case pc_inner p of
        None \<Rightarrow> (p\<lparr>pc_inner := Some cfg\<rparr>, Inr cfg)
      | Some _ \<Rightarrow> (p, Inl AlreadyInstalled))"

definition pinned_get :: "pinned_config \<Rightarrow> hedge_config option" where
  "pinned_get p = pc_inner p"

text \<open>\<open>get_or_panic\<close>: \<open>None\<close> is the panic.\<close>

definition pinned_get_or_panic :: "pinned_config \<Rightarrow> hedge_config option" where
  "pinned_get_or_panic p = pc_inner p"

record mutable_config =
  mc_inner :: hedge_config

definition mutable_current :: "mutable_config \<Rightarrow> hedge_config" where
  "mutable_current m = mc_inner m"

definition mutable_replace :: "hedge_config \<Rightarrow> mutable_config \<Rightarrow> mutable_config \<times> hedge_config" where
  "mutable_replace new m = (m\<lparr>mc_inner := new\<rparr>, mc_inner m)"

section \<open>Lemmas\<close>

lemma broker_id_roundtrip [simp]: "broker_id_deserialize (broker_id_serialize b) = Some b"
  by (cases b) (simp_all add: broker_id_deserialize_def)

text \<open>What the cross-field checks establish.\<close>

lemma default_psychology_ladder: "check_ordering default_psychology = None"
  unfolding check_ordering_def default_psychology_def by code_simp

lemma default_drift:
  "\<not> flt_le (drift_critical (governance default_ai)) (drift_warn (governance default_ai))"
  unfolding default_ai_def by code_simp

lemma default_config_ok: "check_invariants default_hedge_config = None"
  by (simp add: check_invariants_def default_hedge_config_def default_capital_def default_session_def
      default_war_mode_def default_brokers_def default_drift default_psychology_ladder)

lemma pinned_first_wins:
  "pc_inner p = Some cfg \<Longrightarrow> pinned_install other p = (p, Inl AlreadyInstalled)"
  "pc_inner p = None \<Longrightarrow> pinned_get (fst (pinned_install cfg p)) = Some cfg"
  by (simp_all add: pinned_install_def pinned_get_def)

end
