(* ===== verification/Supervisor.thy ===== *)
theory Supervisor
  imports Config_Loader Message_Bus "HOL-Library.AList"
begin

text \<open>
  The Self_Healing_Supervisor (\<open>hedge-supervisor\<close>): failures and recovery actions (\<open>event.rs\<close>), the
  classifiers of the detector (\<open>detector.rs\<close>), the recovery policy with its per-source backoff
  (\<open>policy.rs\<close>), the persisted state (\<open>state.rs\<close>), the actuator's publications (\<open>actuator.rs\<close>) and the
  supervisor that ties them together (\<open>supervisor.rs\<close>). JSON encoders and decoders, the outcome of
  the file operations and the process clock are inputs. A \<open>Duration\<close> is its number of nanoseconds.
  The map of attempt counters that is iterated over is an association list, the other hash maps are
  HOL maps.
\<close>

section \<open>Failures and actions\<close>

datatype failure_kind =
    WsDisconnected string
  | BrokerErrorRateBreach broker_id
  | RedisUnavailable
  | ExternalApiLatencySpike string
  | OllamaUnresponsive string

fun failure_tag :: "failure_kind \<Rightarrow> string" where
  "failure_tag (WsDisconnected _) = ''ws_disconnected''"
| "failure_tag (BrokerErrorRateBreach _) = ''broker_error_rate_breach''"
| "failure_tag RedisUnavailable = ''redis_unavailable''"
| "failure_tag (ExternalApiLatencySpike _) = ''external_api_latency_spike''"
| "failure_tag (OllamaUnresponsive _) = ''ollama_unresponsive''"

record failure_event =
  fe_kind :: failure_kind
  fe_ts_ns :: u64

datatype recovery_action_kind =
    Reconnect string nat u32
  | BrokerFailover broker_id broker_id
  | RedisReconnect
  | ApplyMitigation string string
  | OllamaFallback string string

fun action_target :: "recovery_action_kind \<Rightarrow> string" where
  "action_target (Reconnect _ _ _) = ''market_data''"
| "action_target (BrokerFailover _ _) = ''execution_engine''"
| "action_target RedisReconnect = ''warmcache''"
| "action_target (ApplyMitigation _ _) = ''warm_ai''"
| "action_target (OllamaFallback _ _) = ''warm_ai''"

fun action_name :: "recovery_action_kind \<Rightarrow> string" where
  "action_name (Reconnect _ _ _) = ''reconnect''"
| "action_name (BrokerFailover _ _) = ''failover''"
| "action_name RedisReconnect = ''reconnect''"
| "action_name (ApplyMitigation _ _) = ''warn''"
| "action_name (OllamaFallback _ _) = ''warn''"

fun broker_debug :: "broker_id \<Rightarrow> string" where
  "broker_debug Zerodha = ''Zerodha''"
| "broker_debug Dhan = ''Dhan''"
| "broker_debug Shoonya = ''Shoonya''"
| "broker_debug AngelOne = ''AngelOne''"
| "broker_debug Upstox = ''Upstox''"
| "broker_debug Simulated = ''Simulated''"

fun action_reason :: "recovery_action_kind \<Rightarrow> string" where
  "action_reason (Reconnect source backoff attempt) =
     ''ws disconnect source='' @ source @ '' attempt='' @ show_nat (unat attempt) @ '' backoff_ms='' @ show_nat (backoff div 1000000)"
| "action_reason (BrokerFailover fr to) =
     ''broker error/latency breach: failing over from '' @ broker_debug fr @ '' to '' @ broker_debug to"
| "action_reason RedisReconnect = ''redis unavailable; reconnecting and emitting degraded state''"
| "action_reason (ApplyMitigation source mitigation) =
     ''external api latency spike on '' @ source @ ''; applying mitigation `'' @ mitigation @ ''`''"
| "action_reason (OllamaFallback fr to) =
     ''ollama model `'' @ fr @ ''` unresponsive; falling back to `'' @ to @ ''`''"

record recovery_action =
  ra_kind :: recovery_action_kind
  ra_detected_ts_ns :: u64

section \<open>Detector\<close>

text \<open>The decoded fields the classifiers read; a failed decoding is \<open>None\<close>.\<close>

definition broker_threshold :: "hedge_config \<Rightarrow> u64" where
  "broker_threshold cfg = ucast (failover_latency_ms (hc_brokers cfg)) * 1000000"

definition latency_threshold :: "hedge_config \<Rightarrow> u64" where
  "latency_threshold cfg = ucast (broker_latency_block_ms (hc_risk cfg)) * 1000000"

definition classify_md_connection :: "(string \<times> string) option \<Rightarrow> u64 \<Rightarrow> failure_event option" where
  "classify_md_connection decoded ts =
     (case decoded of
        Some (source, status) \<Rightarrow>
          (if status = ''disconnected'' then Some \<lparr>fe_kind = WsDisconnected source, fe_ts_ns = ts\<rparr> else None)
      | None \<Rightarrow> None)"

definition classify_cache_redis :: "string option \<Rightarrow> u64 \<Rightarrow> failure_event option" where
  "classify_cache_redis decoded ts =
     (case decoded of
        Some state \<Rightarrow>
          (if state = ''degraded'' \<or> state = ''unavailable'' then Some \<lparr>fe_kind = RedisUnavailable, fe_ts_ns = ts\<rparr> else None)
      | None \<Rightarrow> None)"

definition classify_broker_metric :: "(broker_id \<times> bool \<times> u64) option \<Rightarrow> u64 \<Rightarrow> u64 \<Rightarrow> failure_event option" where
  "classify_broker_metric decoded threshold ts =
     (case decoded of
        Some (broker, error, latency_ns) \<Rightarrow>
          (if error \<or> latency_ns > threshold then Some \<lparr>fe_kind = BrokerErrorRateBreach broker, fe_ts_ns = ts\<rparr> else None)
      | None \<Rightarrow> None)"

definition classify_obs_latency :: "(string \<times> u64 \<times> bool) option \<Rightarrow> u64 \<Rightarrow> u64 \<Rightarrow> failure_event option" where
  "classify_obs_latency decoded threshold ts =
     (case decoded of
        Some (stage, nanos, breach) \<Rightarrow>
          (if breach \<or> nanos > threshold then Some \<lparr>fe_kind = ExternalApiLatencySpike stage, fe_ts_ns = ts\<rparr> else None)
      | None \<Rightarrow> None)"

definition ascii_lower :: "char \<Rightarrow> char" where
  "ascii_lower c = (let n = of_char c :: nat in if 65 \<le> n \<and> n \<le> 90 then char_of (n + 32) else c)"

definition classify_obs_error :: "(string \<times> string) option \<Rightarrow> u64 \<Rightarrow> failure_event option" where
  "classify_obs_error decoded ts =
     (case decoded of
        None \<Rightarrow> None
      | Some (source, severity) \<Rightarrow>
          (if severity \<noteq> ''error'' \<and> severity \<noteq> ''critical'' then None
           else let lc = map ascii_lower source in
                if str_contains ''redis'' lc then Some \<lparr>fe_kind = RedisUnavailable, fe_ts_ns = ts\<rparr>
                else if str_contains ''ollama'' lc then Some \<lparr>fe_kind = OllamaUnresponsive ''unknown'', fe_ts_ns = ts\<rparr>
                else None))"

definition classify_ai_ollama_degraded :: "string option \<Rightarrow> u64 \<Rightarrow> failure_event option" where
  "classify_ai_ollama_degraded decoded ts =
     (case decoded of Some model \<Rightarrow> Some \<lparr>fe_kind = OllamaUnresponsive model, fe_ts_ns = ts\<rparr> | None \<Rightarrow> None)"

section \<open>Policy\<close>

record backoff_params =
  bp_base :: nat
  bp_max_delay :: nat

definition BACKOFF_DEFAULT :: backoff_params where
  "BACKOFF_DEFAULT = \<lparr>bp_base = 100 * 1000000, bp_max_delay = 30 * 1000000000\<rparr>"

definition delay_for :: "backoff_params \<Rightarrow> u32 \<Rightarrow> nat" where
  "delay_for p attempt =
     (let factor = (if unat attempt < 128 then 2 ^ unat attempt else 2 ^ 128 - 1);
          computed_ns = min (bp_base p * factor) (2 ^ 128 - 1);
          clamped_ns = min computed_ns (bp_max_delay p)
      in min clamped_ns (2 ^ 64 - 1))"

record recovery_policy =
  rp_backoff :: backoff_params
  rp_primary :: broker_id
  rp_backup :: broker_id
  rp_mitigations :: "string \<rightharpoonup> string"
  rp_ollama_fallbacks :: "string \<rightharpoonup> string"
  rp_attempts :: "string \<rightharpoonup> u32"

definition default_mitigation_table :: "string \<rightharpoonup> string" where
  "default_mitigation_table =
     [''news_provider'' \<mapsto> ''throttle_news_fetch'', ''regulator'' \<mapsto> ''skip_optional_compliance_calls'',
      ''clock'' \<mapsto> ''use_local_monotonic'', ''ollama'' \<mapsto> ''warn'']"

definition pick_model :: "ollama_model list \<Rightarrow> ollama_role \<Rightarrow> string option" where
  "pick_model models role = map_option om_name (find (\<lambda>m. om_role m = role) models)"

definition insert_both :: "string option \<Rightarrow> string option \<Rightarrow> (string \<rightharpoonup> string) \<Rightarrow> (string \<rightharpoonup> string)" where
  "insert_both a b t = (case (a, b) of (Some x, Some y) \<Rightarrow> t(x \<mapsto> y) | _ \<Rightarrow> t)"

definition build_ollama_fallback_table :: "ollama_model list \<Rightarrow> (string \<rightharpoonup> string)" where
  "build_ollama_fallback_table models =
     (let primary = pick_model models RolePrimary;
          fast = pick_model models RoleFast;
          lightweight = pick_model models RoleLightweight;
          deep = pick_model models RoleDeep;
          table = insert_both primary fast (\<lambda>_. None);
          table = insert_both fast lightweight table;
          table = insert_both lightweight lightweight table
      in insert_both deep primary table)"

definition policy_from_config :: "hedge_config \<Rightarrow> recovery_policy" where
  "policy_from_config cfg = \<lparr>rp_backoff = BACKOFF_DEFAULT, rp_primary = bc_primary (hc_brokers cfg),
     rp_backup = bc_backup (hc_brokers cfg), rp_mitigations = default_mitigation_table,
     rp_ollama_fallbacks = build_ollama_fallback_table (hc_ollama cfg), rp_attempts = (\<lambda>_. None)\<rparr>"

definition with_backoff :: "backoff_params \<Rightarrow> recovery_policy \<Rightarrow> recovery_policy" where
  "with_backoff b p = p\<lparr>rp_backoff := b\<rparr>"

definition with_mitigation :: "string \<Rightarrow> string \<Rightarrow> recovery_policy \<Rightarrow> recovery_policy" where
  "with_mitigation source m p = p\<lparr>rp_mitigations := (rp_mitigations p)(source \<mapsto> m)\<rparr>"

definition with_ollama_fallback :: "string \<Rightarrow> string \<Rightarrow> recovery_policy \<Rightarrow> recovery_policy" where
  "with_ollama_fallback fr to p = p\<lparr>rp_ollama_fallbacks := (rp_ollama_fallbacks p)(fr \<mapsto> to)\<rparr>"

definition reset_backoff :: "string \<Rightarrow> recovery_policy \<Rightarrow> recovery_policy" where
  "reset_backoff source p = p\<lparr>rp_attempts := (rp_attempts p)(source := None)\<rparr>"

definition attempt_of :: "recovery_policy \<Rightarrow> string \<Rightarrow> u32" where
  "attempt_of p source = (case rp_attempts p source of Some n \<Rightarrow> n | None \<Rightarrow> 0)"

definition DEFAULT_MITIGATION :: string where
  "DEFAULT_MITIGATION = ''warn''"

definition decide :: "failure_event \<Rightarrow> recovery_policy \<Rightarrow> recovery_policy \<times> recovery_action option" where
  "decide event p =
     (let act = (\<lambda>k. Some \<lparr>ra_kind = k, ra_detected_ts_ns = fe_ts_ns event\<rparr>) in
      case fe_kind event of
        WsDisconnected source \<Rightarrow>
          (let n = attempt_of p source
           in (p\<lparr>rp_attempts := (rp_attempts p)(source \<mapsto> usat_add n 1)\<rparr>,
               act (Reconnect source (delay_for (rp_backoff p) n) n)))
      | BrokerErrorRateBreach broker \<Rightarrow>
          (p, act (if broker = rp_primary p then BrokerFailover (rp_primary p) (rp_backup p)
                   else if broker = rp_backup p then BrokerFailover (rp_backup p) (rp_primary p)
                   else BrokerFailover broker (rp_backup p)))
      | RedisUnavailable \<Rightarrow> (p, act RedisReconnect)
      | ExternalApiLatencySpike source \<Rightarrow>
          (p, act (ApplyMitigation source (case rp_mitigations p source of Some m \<Rightarrow> m | None \<Rightarrow> DEFAULT_MITIGATION)))
      | OllamaUnresponsive model \<Rightarrow>
          (p, act (OllamaFallback model (case rp_ollama_fallbacks p model of Some m \<Rightarrow> m | None \<Rightarrow> model))))"

section \<open>Persisted state\<close>

definition STATE_VERSION :: u32 where
  "STATE_VERSION = 1"

record broker_failover_record =
  fr_from :: broker_id
  fr_to :: broker_id
  fr_ts_ns :: u64

record supervisor_state =
  ss_version :: u32
  ss_ws_attempts :: "(string \<times> u32) list"
  ss_active_broker :: "broker_id option"
  ss_last_failover :: "broker_failover_record option"
  ss_active_ollama_model :: "string option"
  ss_redis_degraded :: bool
  ss_active_mitigations :: "string \<rightharpoonup> string"
  ss_updated_ts_ns :: u64

definition ss_default :: supervisor_state where
  "ss_default = \<lparr>ss_version = STATE_VERSION, ss_ws_attempts = [], ss_active_broker = None, ss_last_failover = None,
     ss_active_ollama_model = None, ss_redis_degraded = False, ss_active_mitigations = (\<lambda>_. None), ss_updated_ts_ns = 0\<rparr>"

definition record_ws_attempt :: "string \<Rightarrow> supervisor_state \<Rightarrow> supervisor_state" where
  "record_ws_attempt source s =
     (let n = (case map_of (ss_ws_attempts s) source of Some n \<Rightarrow> n | None \<Rightarrow> 0)
      in s\<lparr>ss_ws_attempts := AList.update source (usat_add n 1) (ss_ws_attempts s)\<rparr>)"

definition reset_ws_attempt :: "string \<Rightarrow> supervisor_state \<Rightarrow> supervisor_state" where
  "reset_ws_attempt source s = s\<lparr>ss_ws_attempts := AList.delete source (ss_ws_attempts s)\<rparr>"

definition record_failover :: "broker_id \<Rightarrow> broker_id \<Rightarrow> u64 \<Rightarrow> supervisor_state \<Rightarrow> supervisor_state" where
  "record_failover fr to ts s = s\<lparr>ss_active_broker := Some to, ss_last_failover := Some \<lparr>fr_from = fr, fr_to = to, fr_ts_ns = ts\<rparr>\<rparr>"

definition record_ollama_swap :: "string \<Rightarrow> supervisor_state \<Rightarrow> supervisor_state" where
  "record_ollama_swap to s = s\<lparr>ss_active_ollama_model := Some to\<rparr>"

definition set_redis_degraded :: "bool \<Rightarrow> supervisor_state \<Rightarrow> supervisor_state" where
  "set_redis_degraded d s = s\<lparr>ss_redis_degraded := d\<rparr>"

definition record_mitigation :: "string \<Rightarrow> string \<Rightarrow> supervisor_state \<Rightarrow> supervisor_state" where
  "record_mitigation source m s = s\<lparr>ss_active_mitigations := (ss_active_mitigations s)(source \<mapsto> m)\<rparr>"

definition ss_touch :: "u64 \<Rightarrow> supervisor_state \<Rightarrow> supervisor_state" where
  "ss_touch ts s = s\<lparr>ss_updated_ts_ns := ts\<rparr>"

datatype state_error = StateIo string string | StateJson string string | VersionMismatch string u32 u32

text \<open>What a read of the file gives, and how the file operations of a save end.\<close>

datatype disk = NoFile | ReadError string | Contents bytes

datatype fs_outcome = FsOk | FsMkdir string string | FsWrite string | FsRename string

record state_codec =
  sc_enc :: "supervisor_state \<Rightarrow> string + bytes"
  sc_dec :: "bytes \<Rightarrow> string + supervisor_state"

text \<open>\<open>save_to_path\<close>: the new contents appear only through the final rename.\<close>

definition save_to_path :: "state_codec \<Rightarrow> fs_outcome \<Rightarrow> string \<Rightarrow> supervisor_state \<Rightarrow> disk \<Rightarrow> disk \<times> state_error option" where
  "save_to_path codec fs path s d =
     (case fs of FsMkdir parent e \<Rightarrow> (d, Some (StateIo parent e))
      | _ \<Rightarrow>
        (case sc_enc codec s of Inl e \<Rightarrow> (d, Some (StateJson path e))
         | Inr b \<Rightarrow>
           (case fs of FsWrite e \<Rightarrow> (d, Some (StateIo (path @ ''.tmp'') e))
            | FsRename e \<Rightarrow> (d, Some (StateIo path e))
            | _ \<Rightarrow> (Contents b, None))))"

definition load_state :: "state_codec \<Rightarrow> string \<Rightarrow> disk \<Rightarrow> state_error + supervisor_state" where
  "load_state codec path d =
     (case d of
        Contents b \<Rightarrow>
          (case sc_dec codec b of
             Inl e \<Rightarrow> Inl (StateJson path e)
           | Inr s \<Rightarrow> (if ss_version s \<noteq> STATE_VERSION then Inl (VersionMismatch path (ss_version s) STATE_VERSION) else Inr s))
      | NoFile \<Rightarrow> Inr ss_default
      | ReadError e \<Rightarrow> Inl (StateIo path e))"

section \<open>Actuator\<close>

record ops_action_payload =
  oa_target :: string
  oa_action :: string
  oa_reason :: string
  oa_attempt :: "u32 option"
  oa_ts_ns :: u64

datatype sup_msg =
    OpsAction ops_action_payload
  | CacheRedisDegraded string string u64
  | AiOllamaDegraded string string string u64
  | ExecBrokerFailover broker_id broker_id string u64

definition CACHE_REDIS_DEGRADED :: string where
  "CACHE_REDIS_DEGRADED = ''cache.redis.degraded''"

definition build_ops_action_payload :: "recovery_action \<Rightarrow> ops_action_payload" where
  "build_ops_action_payload a = \<lparr>oa_target = action_target (ra_kind a), oa_action = action_name (ra_kind a),
     oa_reason = action_reason (ra_kind a),
     oa_attempt = (case ra_kind a of Reconnect _ _ attempt \<Rightarrow> Some attempt | _ \<Rightarrow> None),
     oa_ts_ns = ra_detected_ts_ns a\<rparr>"

type_synonym sup_bus = "(string \<times> sup_msg) ops_world"

definition emit_ops_action :: "recovery_action \<Rightarrow> sup_bus \<Rightarrow> sup_bus \<times> (bus_error + ops_action_payload)" where
  "emit_ops_action a w =
     (let payload = build_ops_action_payload a in
      case ops_publish (ops_action (action_target (ra_kind a)), OpsAction payload) w of
        (w, Some e) \<Rightarrow> (w, Inl e)
      | (w, None) \<Rightarrow> (w, Inr payload))"

definition emit_cache_redis_degraded :: "u64 \<Rightarrow> sup_bus \<Rightarrow> sup_bus \<times> bus_error option" where
  "emit_cache_redis_degraded ts w =
     ops_publish (CACHE_REDIS_DEGRADED, CacheRedisDegraded ''degraded'' ''supervisor: cache reconnect requested'' ts) w"

definition emit_ai_ollama_degraded :: "string \<Rightarrow> string \<Rightarrow> u64 \<Rightarrow> sup_bus \<Rightarrow> sup_bus \<times> bus_error option" where
  "emit_ai_ollama_degraded fr to ts w = ops_publish (AI_OLLAMA_DEGRADED, AiOllamaDegraded fr to ''unresponsive'' ts) w"

definition emit_exec_broker_failover :: "broker_id \<Rightarrow> broker_id \<Rightarrow> u64 \<Rightarrow> sup_bus \<Rightarrow> sup_bus \<times> bus_error option" where
  "emit_exec_broker_failover fr to ts w = ops_publish (EXEC_BROKER_FAILOVER, ExecBrokerFailover fr to ''supervisor'' ts) w"

text \<open>A side effect that cannot be published is only logged.\<close>

definition actuate :: "recovery_action \<Rightarrow> sup_bus \<Rightarrow> sup_bus \<times> (bus_error + ops_action_payload)" where
  "actuate a w =
     (let ts = ops_now w;
          w = (case ra_kind a of
                 RedisReconnect \<Rightarrow> fst (emit_cache_redis_degraded ts w)
               | BrokerFailover fr to \<Rightarrow> fst (emit_exec_broker_failover fr to ts w)
               | OllamaFallback fr to \<Rightarrow> fst (emit_ai_ollama_degraded fr to ts w)
               | Reconnect _ _ _ \<Rightarrow> w
               | ApplyMitigation _ _ \<Rightarrow> w)
      in emit_ops_action a w)"

section \<open>Supervisor\<close>

record supervisor =
  sv_policy :: recovery_policy
  sv_path :: string
  sv_state :: supervisor_state
  sv_disk :: disk
  sv_bus :: sup_bus

datatype supervisor_error = SupBus bus_error | SupState state_error

fun state_change :: "failure_event \<Rightarrow> recovery_action_kind \<Rightarrow> supervisor_state \<Rightarrow> supervisor_state" where
  "state_change ev k s =
     (case (fe_kind ev, k) of
        (WsDisconnected source, Reconnect _ _ _) \<Rightarrow> record_ws_attempt source s
      | (BrokerErrorRateBreach _, BrokerFailover fr to) \<Rightarrow> record_failover fr to (fe_ts_ns ev) s
      | (RedisUnavailable, RedisReconnect) \<Rightarrow> set_redis_degraded True s
      | (ExternalApiLatencySpike source, ApplyMitigation _ m) \<Rightarrow> record_mitigation source m s
      | (OllamaUnresponsive _, OllamaFallback _ to) \<Rightarrow> record_ollama_swap to s
      | _ \<Rightarrow> s)"

definition update_and_save ::
  "state_codec \<Rightarrow> fs_outcome \<Rightarrow> u64 \<Rightarrow> (supervisor_state \<Rightarrow> supervisor_state) \<Rightarrow> supervisor \<Rightarrow> supervisor \<times> state_error option" where
  "update_and_save codec fs ts f sv =
     (let s = ss_touch ts (f (sv_state sv));
          (d, r) = save_to_path codec fs (sv_path sv) s (sv_disk sv)
      in (sv\<lparr>sv_state := s, sv_disk := d\<rparr>, r))"

definition persist_state_for ::
  "state_codec \<Rightarrow> fs_outcome \<Rightarrow> u64 \<Rightarrow> failure_event \<Rightarrow> recovery_action \<Rightarrow> supervisor \<Rightarrow> supervisor \<times> supervisor_error option" where
  "persist_state_for codec fs ts ev a sv =
     (case update_and_save codec fs ts (state_change ev (ra_kind a)) sv of
        (sv, r) \<Rightarrow> (sv, map_option SupState r))"

text \<open>\<open>fs\<close> and \<open>ts\<close> are the outcome of the save and the clock reading of this call.\<close>

definition handle_one ::
  "state_codec \<Rightarrow> fs_outcome \<Rightarrow> u64 \<Rightarrow> failure_event \<Rightarrow> supervisor \<Rightarrow> supervisor \<times> (supervisor_error + ops_action_payload option)" where
  "handle_one codec fs ts ev sv =
     (case decide ev (sv_policy sv) of
        (p, None) \<Rightarrow> (sv\<lparr>sv_policy := p\<rparr>, Inr None)
      | (p, Some a) \<Rightarrow>
          (case persist_state_for codec fs ts ev a (sv\<lparr>sv_policy := p\<rparr>) of
             (sv, Some e) \<Rightarrow> (sv, Inl e)
           | (sv, None) \<Rightarrow>
               (case actuate a (sv_bus sv) of
                  (w, Inl e) \<Rightarrow> (sv\<lparr>sv_bus := w\<rparr>, Inl (SupBus e))
                | (w, Inr payload) \<Rightarrow> (sv\<lparr>sv_bus := w\<rparr>, Inr (Some payload)))))"

text \<open>The consuming loop of \<open>run\<close>: errors are logged and the next event is taken.\<close>

fun supervise :: "state_codec \<Rightarrow> (fs_outcome \<times> u64 \<times> failure_event) list \<Rightarrow> supervisor \<Rightarrow> supervisor" where
  "supervise codec [] sv = sv"
| "supervise codec ((fs, ts, ev) # evs) sv = supervise codec evs (fst (handle_one codec fs ts ev sv))"

definition supervisor_new :: "hedge_config \<Rightarrow> string \<Rightarrow> disk \<Rightarrow> sup_bus \<Rightarrow> supervisor" where
  "supervisor_new cfg path d w = \<lparr>sv_policy = policy_from_config cfg, sv_path = path, sv_state = ss_default, sv_disk = d, sv_bus = w\<rparr>"

fun replay_attempts :: "u64 \<Rightarrow> (string \<times> u32) list \<Rightarrow> recovery_policy \<Rightarrow> recovery_policy" where
  "replay_attempts ts [] p = p"
| "replay_attempts ts ((source, n) # xs) p =
     replay_attempts ts xs (((\<lambda>p. fst (decide \<lparr>fe_kind = WsDisconnected source, fe_ts_ns = ts\<rparr> p)) ^^ unat n) p)"

definition rehydrate_from_state :: "state_codec \<Rightarrow> u64 \<Rightarrow> supervisor \<Rightarrow> supervisor \<times> state_error option" where
  "rehydrate_from_state codec ts sv =
     (case load_state codec (sv_path sv) (sv_disk sv) of
        Inl e \<Rightarrow> (sv, Some e)
      | Inr s \<Rightarrow> (sv\<lparr>sv_state := s, sv_policy := replay_attempts ts (ss_ws_attempts s) (sv_policy sv)\<rparr>, None))"

text \<open>\<open>bring_up_and_run\<close> ignores a failed rehydration.\<close>

definition bring_up :: "state_codec \<Rightarrow> u64 \<Rightarrow> (fs_outcome \<times> u64 \<times> failure_event) list \<Rightarrow> supervisor \<Rightarrow> supervisor" where
  "bring_up codec ts evs sv = supervise codec evs (fst (rehydrate_from_state codec ts sv))"

definition reconnect_sleep_for :: "recovery_action \<Rightarrow> nat option" where
  "reconnect_sleep_for a = (case ra_kind a of Reconnect _ backoff _ \<Rightarrow> Some backoff | _ \<Rightarrow> None)"

section \<open>Lemmas\<close>

lemma delay_for_exact: "delay_for p n = min (bp_base p * 2 ^ unat n) (min (bp_max_delay p) (2 ^ 64 - 1))"
proof -
  consider "unat n < 128" | "bp_base p = 0" | "\<not> unat n < 128" "bp_base p \<noteq> 0" by blast
  then show ?thesis
  proof cases
    case 1
    have "(2 :: nat) ^ 64 - 1 \<le> 2 ^ 128 - 1" by simp
    with 1 show ?thesis by (auto simp: delay_for_def Let_def min_def)
  next
    case 2
    then show ?thesis by (simp add: delay_for_def Let_def)
  next
    case 3
    then have "(2 :: nat) ^ 128 \<le> 2 ^ unat n" by (intro power_increasing) simp_all
    moreover have "1 \<le> bp_base p" using 3 by simp
    ultimately have "(2 :: nat) ^ 128 \<le> 2 ^ unat n" "1 \<le> bp_base p" .
    then have "2 ^ 128 \<le> bp_base p * 2 ^ unat n" using mult_le_mono [of 1 "bp_base p" "2 ^ 128" "2 ^ unat n"] by simp
    moreover have "min (bp_base p * (2 ^ 128 - 1)) (2 ^ 128 - 1) = (2 ^ 128 - 1 :: nat)"
      using \<open>1 \<le> bp_base p\<close> mult_le_mono [of 1 "bp_base p" "2 ^ 128 - 1" "2 ^ 128 - 1"] by (simp add: min_def)
    ultimately show ?thesis using 3 by (auto simp: delay_for_def Let_def min_def)
  qed
qed

lemma decide_frame:
  "rp_backoff (fst (decide ev p)) = rp_backoff p"
  "rp_attempts (fst (decide ev p)) = (case fe_kind ev of
     WsDisconnected source \<Rightarrow> (rp_attempts p)(source \<mapsto> usat_add (attempt_of p source) 1) | _ \<Rightarrow> rp_attempts p)"
  "\<exists>m. fst (decide ev p) = p\<lparr>rp_attempts := m\<rparr>"
  by (auto simp: decide_def Let_def split: failure_kind.splits intro: exI [of _ "rp_attempts p"])

lemma decide_some: "\<exists>p' a. decide ev p = (p', Some a)"
  by (auto simp: decide_def Let_def split: failure_kind.splits)

lemma handle_one_policy: "sv_policy (fst (handle_one codec fs ts ev sv)) = fst (decide ev (sv_policy sv))"
  by (simp add: handle_one_def persist_state_for_def update_and_save_def Let_def split: prod.splits option.splits sum.splits)

lemma handle_one_state:
  "\<exists>a. snd (decide ev (sv_policy sv)) = Some a
     \<and> sv_state (fst (handle_one codec fs ts ev sv)) = ss_touch ts (state_change ev (ra_kind a) (sv_state sv))"
  using decide_some [of ev "sv_policy sv"]
  by (auto simp: handle_one_def persist_state_for_def update_and_save_def Let_def split: prod.splits option.splits sum.splits)

lemma handle_one_disk:
  assumes "sc_enc codec (sv_state (fst (handle_one codec FsOk ts ev sv))) = Inr b"
  shows "sv_disk (fst (handle_one codec FsOk ts ev sv)) = Contents b"
  using decide_some [of ev "sv_policy sv"] assms
  by (auto simp: handle_one_def persist_state_for_def update_and_save_def save_to_path_def Let_def
      split: prod.splits option.splits sum.splits)

lemma handle_one_path: "sv_path (fst (handle_one codec fs ts ev sv)) = sv_path sv"
  by (simp add: handle_one_def persist_state_for_def update_and_save_def Let_def split: prod.splits option.splits sum.splits)

lemma supervise_snoc: "supervise codec (evs @ [(fs, ts, ev)]) sv = fst (handle_one codec fs ts ev (supervise codec evs sv))"
  by (induction evs arbitrary: sv) auto

text \<open>The persisted counters mirror the policy's: the same value for every source, none zero, no source twice.\<close>

definition counters_mirrored :: "supervisor \<Rightarrow> bool" where
  "counters_mirrored sv \<longleftrightarrow> rp_attempts (sv_policy sv) = map_of (ss_ws_attempts (sv_state sv))
     \<and> distinct (map fst (ss_ws_attempts (sv_state sv))) \<and> 0 \<notin> snd ` set (ss_ws_attempts (sv_state sv))
     \<and> ss_version (sv_state sv) = STATE_VERSION"

lemma usat_add_one_nonzero: "usat_add (n :: u32) 1 \<noteq> 0"
proof
  assume "usat_add n 1 = 0"
  then have "unat (usat_add n 1) = 0" by simp
  then show False by (simp add: unat_usat_add)
qed

lemma update_values: "snd ` set (AList.update k v al) \<subseteq> insert v (snd ` set al)"
  by (induction al) auto

lemma state_change_counters:
  assumes "\<forall>source. fe_kind ev \<noteq> WsDisconnected source"
  shows "ss_ws_attempts (state_change ev k s) = ss_ws_attempts s" "ss_version (state_change ev k s) = ss_version s"
  using assms by (cases "fe_kind ev"; cases k; simp add: record_failover_def set_redis_degraded_def
    record_mitigation_def record_ollama_swap_def)+

lemma counters_mirrored_step: "counters_mirrored sv \<Longrightarrow> counters_mirrored (fst (handle_one codec fs ts ev sv))"
proof -
  assume m: "counters_mirrored sv"
  obtain a where a: "snd (decide ev (sv_policy sv)) = Some a"
    "sv_state (fst (handle_one codec fs ts ev sv)) = ss_touch ts (state_change ev (ra_kind a) (sv_state sv))"
    using handle_one_state by blast
  show ?thesis
  proof (cases "\<exists>source. fe_kind ev = WsDisconnected source")
    case True
    then obtain source where WsDisconnected: "fe_kind ev = WsDisconnected source" by blast
    then obtain b n where "ra_kind a = Reconnect source b n" using a(1) by (auto simp: decide_def Let_def)
    with a(2) WsDisconnected have st: "sv_state (fst (handle_one codec fs ts ev sv)) = ss_touch ts (record_ws_attempt source (sv_state sv))"
      by simp
    let ?al = "ss_ws_attempts (sv_state sv)" and ?n = "usat_add (attempt_of (sv_policy sv) source) 1"
    have "attempt_of (sv_policy sv) source = (case map_of ?al source of Some n \<Rightarrow> n | None \<Rightarrow> 0)"
      using m by (simp add: attempt_of_def counters_mirrored_def)
    then have al: "ss_ws_attempts (sv_state (fst (handle_one codec fs ts ev sv))) = AList.update source ?n ?al"
      "ss_version (sv_state (fst (handle_one codec fs ts ev sv))) = ss_version (sv_state sv)"
      by (simp_all add: st ss_touch_def record_ws_attempt_def)
    have "0 \<notin> insert ?n (snd ` set ?al)"
      using m usat_add_one_nonzero [of "attempt_of (sv_policy sv) source"] unfolding counters_mirrored_def insert_iff by simp
    then have "0 \<notin> snd ` set (AList.update source ?n ?al)" by (rule contra_subsetD [OF update_values])
    moreover have "map_of (AList.update source ?n ?al) = (map_of ?al)(source \<mapsto> ?n)" by (rule update_conv')
    moreover have "distinct (map fst (AList.update source ?n ?al))"
      using m by (intro distinct_update) (simp add: counters_mirrored_def)
    ultimately show ?thesis using m WsDisconnected
      by (simp add: counters_mirrored_def handle_one_policy decide_frame al)
  next
    case False
    then have "rp_attempts (fst (decide ev (sv_policy sv))) = rp_attempts (sv_policy sv)"
      by (auto simp: decide_frame split: failure_kind.splits)
    then show ?thesis using m False a(2)
      by (simp add: counters_mirrored_def handle_one_policy ss_touch_def state_change_counters del: state_change.simps)
  qed
qed

lemma supervise_induct:
  assumes "P sv" "\<And>fs ts ev sv. P sv \<Longrightarrow> P (fst (handle_one codec fs ts ev sv))"
  shows "P (supervise codec evs sv)"
  using assms(1)
proof (induction evs arbitrary: sv)
  case (Cons x evs)
  then show ?case by (cases x) (auto intro: assms(2))
qed simp

lemma counters_mirrored_new: "counters_mirrored (supervisor_new cfg path d w)"
  by (simp add: counters_mirrored_def supervisor_new_def policy_from_config_def ss_default_def)

lemmas counters_mirrored_supervise =
  supervise_induct [where P = counters_mirrored, OF counters_mirrored_new counters_mirrored_step]

lemma policy_shape: "\<exists>m. sv_policy (supervise codec evs (supervisor_new cfg path d w)) = (policy_from_config cfg)\<lparr>rp_attempts := m\<rparr>"
proof (rule supervise_induct [where P = "\<lambda>sv. \<exists>m. sv_policy sv = (policy_from_config cfg)\<lparr>rp_attempts := m\<rparr>"])
  show "\<exists>m. sv_policy (supervisor_new cfg path d w) = (policy_from_config cfg)\<lparr>rp_attempts := m\<rparr>"
    by (intro exI [of _ "\<lambda>_. None"]) (simp add: supervisor_new_def policy_from_config_def)
next
  fix fs ts ev and sv :: supervisor
  assume "\<exists>m. sv_policy sv = (policy_from_config cfg)\<lparr>rp_attempts := m\<rparr>"
  moreover obtain m' where "fst (decide ev (sv_policy sv)) = (sv_policy sv)\<lparr>rp_attempts := m'\<rparr>" using decide_frame(3) by blast
  ultimately show "\<exists>m. sv_policy (fst (handle_one codec fs ts ev sv)) = (policy_from_config cfg)\<lparr>rp_attempts := m\<rparr>"
    by (auto simp: handle_one_policy)
qed

subsection \<open>Replaying the counters\<close>

abbreviation bump :: "u64 \<Rightarrow> string \<Rightarrow> recovery_policy \<Rightarrow> recovery_policy" where
  "bump ts source p \<equiv> fst (decide \<lparr>fe_kind = WsDisconnected source, fe_ts_ns = ts\<rparr> p)"

lemma bump_eq: "bump ts source p = p\<lparr>rp_attempts := (rp_attempts p)(source \<mapsto> usat_add (attempt_of p source) 1)\<rparr>"
  by (simp add: decide_def Let_def)

lemma bump_times:
  assumes "rp_attempts p source = None" "Suc k < 4294967296"
  shows "((bump ts source) ^^ Suc k) p = p\<lparr>rp_attempts := (rp_attempts p)(source \<mapsto> word_of_nat (Suc k))\<rparr>"
  using assms(2)
proof (induction k)
  case 0
  have "usat_add (attempt_of p source) 1 = word_of_nat (Suc 0)"
    unfolding word_unat_eq_iff using assms(1) by (simp add: unat_usat_add attempt_of_def)
  then show ?case by (simp only: funpow.simps comp_apply id_apply bump_eq)
next
  case (Suc k)
  have conv: "unat (word_of_nat m :: u32) = m" if "m < 4294967296" for m
    using that by (simp add: unat_of_nat)
  have "unat (usat_add (word_of_nat (Suc k)) 1 :: u32) = unat (word_of_nat (Suc (Suc k)) :: u32)"
    unfolding unat_usat_add conv [OF Suc_lessD [OF Suc.prems]] conv [OF Suc.prems] using Suc.prems by simp
  then have "usat_add (word_of_nat (Suc k)) 1 = (word_of_nat (Suc (Suc k)) :: u32)" by (simp only: word_unat_eq_iff)
  then show ?case using Suc
    by (simp only: funpow.simps(2) [of "Suc k"] comp_apply bump_eq)
      (simp add: attempt_of_def fun_upd_def cong: if_cong del: of_nat_Suc funpow.simps)
qed

lemma replay_attempts_eq:
  assumes "distinct (map fst al)" "0 \<notin> snd ` set al" "\<forall>k \<in> fst ` set al. rp_attempts p k = None"
  shows "replay_attempts ts al p = p\<lparr>rp_attempts := rp_attempts p ++ map_of al\<rparr>"
  using assms
proof (induction ts al p rule: replay_attempts.induct)
  case (2 ts source n al p)
  from 2(3) have "n \<noteq> 0" by force
  then obtain k where k: "unat n = Suc k" by (metis not0_implies_Suc unat_eq_zero)
  moreover have "Suc k < 4294967296" using unat_less_len [of n] k by simp
  ultimately have step: "((bump ts source) ^^ unat n) p = p\<lparr>rp_attempts := (rp_attempts p)(source \<mapsto> n)\<rparr>"
    using bump_times [of p source k ts] 2(4) by (simp add: k [symmetric])
  let ?p = "p\<lparr>rp_attempts := (rp_attempts p)(source \<mapsto> n)\<rparr>"
  have "replay_attempts ts al ?p = ?p\<lparr>rp_attempts := rp_attempts ?p ++ map_of al\<rparr>"
  proof (rule 2(1) [unfolded step])
    show "distinct (map fst al)" "0 \<notin> snd ` set al" using 2(2,3) by auto
    show "\<forall>k \<in> fst ` set al. rp_attempts ?p k = None" using 2(2,4) by (metis (no_types, lifting) distinct.simps(2)
      fst_conv fun_upd_other image_insert insert_iff list.set(2) list.simps(9) recovery_policy.select_convs(6) recovery_policy.surjective recovery_policy.update_convs(6) set_map)
  qed
  then have "replay_attempts ts al ?p = p\<lparr>rp_attempts := (rp_attempts p)(source \<mapsto> n) ++ map_of al\<rparr>" by simp
  moreover have "(rp_attempts p)(source \<mapsto> n) ++ map_of al = rp_attempts p ++ map_of ((source, n) # al)"
    using 2(2) by (simp add: map_add_upd_left dom_map_of_conv_image_fst)
  ultimately have "replay_attempts ts al ?p = p\<lparr>rp_attempts := rp_attempts p ++ map_of ((source, n) # al)\<rparr>"
    by (simp only:)
  then show ?case by (simp only: replay_attempts.simps step)
qed simp

section \<open>Properties\<close>

text \<open>How often a source has disconnected in a history.\<close>

definition disconnects :: "string \<Rightarrow> (fs_outcome \<times> u64 \<times> failure_event) list \<Rightarrow> nat" where
  "disconnects source evs = length (filter (\<lambda>(fs, ts, ev). fe_kind ev = WsDisconnected source) evs)"

lemma attempts_counted:
  "unat (attempt_of (sv_policy (supervise codec evs sv)) source) =
     min (unat (attempt_of (sv_policy sv) source) + disconnects source evs) 4294967295"
proof (induction evs arbitrary: sv)
  case Nil
  show ?case using unat_less_len [of "attempt_of (sv_policy sv) source"] by (simp add: disconnects_def)
next
  case (Cons x evs)
  obtain fs ts ev where x: "x = (fs, ts, ev)" by (cases x)
  have "unat (attempt_of (fst (decide ev (sv_policy sv))) source) =
      min (unat (attempt_of (sv_policy sv) source) + (if fe_kind ev = WsDisconnected source then 1 else 0)) 4294967295"
    using unat_less_len [of "attempt_of (sv_policy sv) source"]
    by (auto simp: attempt_of_def decide_frame unat_usat_add split: failure_kind.splits)
  then show ?case by (simp add: x Cons handle_one_policy disconnects_def) (auto simp: min_def)
qed

text \<open>The reconnect schedule. Whatever else has happened, with every save or publication failing or
  not, the next disconnect of a source is answered with a reconnect whose attempt number is the number of
  its disconnects so far (up to the counter's limit) and whose delay is 100 ms doubled that many
  times, capped at 30 s.\<close>

theorem reconnect_schedule:
  "let n = min (disconnects source evs) 4294967295 in
   \<exists>p'. decide \<lparr>fe_kind = WsDisconnected source, fe_ts_ns = t\<rparr> (sv_policy (supervise codec evs (supervisor_new cfg path d w))) =
     (p', Some \<lparr>ra_kind = Reconnect source (min (100000000 * 2 ^ n) 30000000000) (word_of_nat n), ra_detected_ts_ns = t\<rparr>)"
proof -
  let ?p = "sv_policy (supervise codec evs (supervisor_new cfg path d w))"
  define n where "n = min (disconnects source evs) 4294967295"
  have "attempt_of (sv_policy (supervisor_new cfg path d w)) source = 0"
    by (simp add: attempt_of_def supervisor_new_def policy_from_config_def)
  then have u: "unat (attempt_of ?p source) = n"
    using attempts_counted [of codec evs "supervisor_new cfg path d w" source] by (simp add: n_def)
  then have a: "attempt_of ?p source = word_of_nat n" unfolding u [symmetric] by simp
  have "rp_backoff ?p = BACKOFF_DEFAULT" using policy_shape [of codec evs cfg path d w] by (auto simp: policy_from_config_def)
  then have "delay_for (rp_backoff ?p) (attempt_of ?p source) = min (100000000 * 2 ^ n) 30000000000"
    unfolding delay_for_exact u by (simp add: BACKOFF_DEFAULT_def)
  then show ?thesis unfolding n_def [symmetric] Let_def by (simp add: decide_def a Let_def)
qed

text \<open>C34: A restart resumes. When the last event of a process was saved, and the file decodes to what was
  encoded, a new process that loads it has exactly the policy and the state of the old one, so it takes
  the same decisions from there on.\<close>

theorem restart_resumes:
  assumes "old = supervise codec (evs @ [(FsOk, ts, ev)]) (supervisor_new cfg path d w)"
    and "sc_enc codec (sv_state old) = Inr b" and "sc_dec codec b = Inr (sv_state old)"
  shows "\<exists>new. rehydrate_from_state codec ts' (supervisor_new cfg path (sv_disk old) w') = (new, None)
     \<and> sv_policy new = sv_policy old \<and> sv_state new = sv_state old"
proof -
  have mirrored: "counters_mirrored old" using counters_mirrored_supervise assms(1) by blast
  have disk: "sv_disk old = Contents b" using handle_one_disk assms(1,2) by (simp add: supervise_snoc)
  let ?new = "supervisor_new cfg path (sv_disk old) w'"
  have "replay_attempts ts' (ss_ws_attempts (sv_state old)) (policy_from_config cfg) =
      (policy_from_config cfg)\<lparr>rp_attempts := map_of (ss_ws_attempts (sv_state old))\<rparr>"
    using mirrored by (subst replay_attempts_eq) (simp_all add: counters_mirrored_def policy_from_config_def)
  moreover obtain m where "sv_policy old = (policy_from_config cfg)\<lparr>rp_attempts := m\<rparr>" using policy_shape assms(1) by blast
  ultimately show ?thesis using mirrored disk assms(3)
    by (simp add: rehydrate_from_state_def load_state_def supervisor_new_def counters_mirrored_def)
qed

text \<open>What the supervisor's own detector makes of a message the supervisor publishes: \<open>cache.redis.degraded\<close> and
  \<open>ai.ollama.degraded\<close> are among the subjects it subscribes to.\<close>

fun self_delivered :: "string \<times> sup_msg \<Rightarrow> u64 \<Rightarrow> failure_event option" where
  "self_delivered (subject, CacheRedisDegraded state _ _) ts = classify_cache_redis (Some state) ts"
| "self_delivered (subject, AiOllamaDegraded model _ _ _) ts = classify_ai_ollama_degraded (Some model) ts"
| "self_delivered (subject, _) ts = None"

text \<open>\<open>n\<close> rounds in which the first published message the detector reacts to is delivered back.\<close>

fun feedback :: "state_codec \<Rightarrow> u64 \<Rightarrow> nat \<Rightarrow> failure_event \<Rightarrow> supervisor \<Rightarrow> supervisor" where
  "feedback codec ts 0 ev sv = sv"
| "feedback codec ts (Suc n) ev sv =
     (let sv' = fst (handle_one codec FsOk ts ev sv);
          new = drop (length (attempts (sv_bus sv))) (attempts (sv_bus sv'))
      in case List.map_filter (\<lambda>m. self_delivered m ts) new of
           [] \<Rightarrow> sv'
         | ev' # _ \<Rightarrow> feedback codec ts n ev' sv')"

lemma redis_round:
  assumes "fe_kind ev = RedisUnavailable" "\<forall>s. \<exists>b. sc_enc codec s = Inr b"
  shows "\<exists>rs o1 o2. attempts (sv_bus (fst (handle_one codec FsOk ts ev sv))) =
    attempts (sv_bus sv) @ [(CACHE_REDIS_DEGRADED, CacheRedisDegraded ''degraded'' rs o1), (o2, OpsAction (build_ops_action_payload \<lparr>ra_kind = RedisReconnect, ra_detected_ts_ns = fe_ts_ns ev\<rparr>))]"
proof -
  let ?s = "ss_touch ts (set_redis_degraded True (sv_state sv))"
  obtain b where "sc_enc codec ?s = Inr b" using assms(2) by blast
  then show ?thesis using assms(1)
    by (simp add: handle_one_def decide_def persist_state_for_def update_and_save_def save_to_path_def actuate_def
        emit_cache_redis_degraded_def emit_ops_action_def ops_publish_def Let_def split: option.splits)
qed

text \<open>The Redis alarm sustains itself. Handling one Redis failure publishes \<open>cache.redis.degraded\<close>, which the
  supervisor's own detector classifies as a Redis failure again: with delivery of its own messages, a
  single failure makes the supervisor publish two messages in every one of any number of rounds.\<close>

theorem redis_alarm_self_sustaining:
  assumes "fe_kind ev = RedisUnavailable" and "\<forall>s. \<exists>b. sc_enc codec s = Inr b"
  shows "length (attempts (sv_bus (feedback codec ts n ev sv))) = length (attempts (sv_bus sv)) + 2 * n"
  using assms(1)
proof (induction n arbitrary: ev sv)
  case (Suc n)
  let ?sv = "fst (handle_one codec FsOk ts ev sv)"
  obtain rs o1 o2 p where new: "attempts (sv_bus ?sv) = attempts (sv_bus sv) @ [(CACHE_REDIS_DEGRADED, CacheRedisDegraded ''degraded'' rs o1), (o2, OpsAction p)]"
    using redis_round [OF Suc.prems assms(2)] by blast
  have "feedback codec ts (Suc n) ev sv = feedback codec ts n \<lparr>fe_kind = RedisUnavailable, fe_ts_ns = ts\<rparr> ?sv"
    by (simp add: new classify_cache_redis_def map_filter_simps Let_def)
  then show ?case using Suc.IH [of "\<lparr>fe_kind = RedisUnavailable, fe_ts_ns = ts\<rparr>" ?sv] by (simp add: new)
qed simp

definition sample_codec :: state_codec where
  "sample_codec = \<lparr>sc_enc = (\<lambda>s. Inr [word_of_nat (length (ss_ws_attempts s))]), sc_dec = (\<lambda>b. Inl ''unreadable'')\<rparr>"

definition sample_supervisor :: supervisor where
  "sample_supervisor = supervisor_new default_hedge_config ''state.json'' NoFile
     \<lparr>now_at = (\<lambda>k. word_of_nat k), answer_at = (\<lambda>k. None), attempts = []\<rparr>"

theorem redis_alarm_self_sustaining_witness:
  "length (attempts (sv_bus (feedback sample_codec 7 5 \<lparr>fe_kind = RedisUnavailable, fe_ts_ns = 1\<rparr> sample_supervisor))) = 10"
  using redis_alarm_self_sustaining [of "\<lparr>fe_kind = RedisUnavailable, fe_ts_ns = 1\<rparr>" sample_codec 7 5 sample_supervisor]
  by (simp add: sample_codec_def sample_supervisor_def supervisor_new_def)

text \<open>One disconnect, saved and read back.\<close>

definition one_disconnect :: supervisor_state where
  "one_disconnect = ss_default\<lparr>ss_ws_attempts := [(''nse_l1'', 1)], ss_updated_ts_ns := 9\<rparr>"

definition one_codec :: state_codec where
  "one_codec = \<lparr>sc_enc = (\<lambda>s. Inr [1]), sc_dec = (\<lambda>b. if b = [1] then Inr one_disconnect else Inl ''unreadable'')\<rparr>"

theorem restart_resumes_witness:
  "\<exists>new. rehydrate_from_state one_codec 0 (supervisor_new default_hedge_config ''state.json''
       (sv_disk (supervise one_codec [(FsOk, 9, \<lparr>fe_kind = WsDisconnected ''nse_l1'', fe_ts_ns = 8\<rparr>)] sample_supervisor)) (sv_bus sample_supervisor)) = (new, None)
     \<and> attempt_of (sv_policy new) ''nse_l1'' = 1"
proof -
  let ?old = "supervise one_codec ([] @ [(FsOk, 9, \<lparr>fe_kind = WsDisconnected ''nse_l1'', fe_ts_ns = 8\<rparr>)])
    (supervisor_new default_hedge_config ''state.json'' NoFile (sv_bus sample_supervisor))"
  have sample: "sample_supervisor = supervisor_new default_hedge_config ''state.json'' NoFile (sv_bus sample_supervisor)"
    by (simp add: sample_supervisor_def supervisor_new_def)
  have one: "usat_add 0 1 = (1 :: u32)" by (simp add: word_unat_eq_iff unat_usat_add)
  obtain a where "sv_state ?old = ss_touch 9 (state_change \<lparr>fe_kind = WsDisconnected ''nse_l1'', fe_ts_ns = 8\<rparr> (ra_kind a) ss_default)"
      "snd (decide \<lparr>fe_kind = WsDisconnected ''nse_l1'', fe_ts_ns = 8\<rparr> (policy_from_config default_hedge_config)) = Some a"
    using handle_one_state [of "\<lparr>fe_kind = WsDisconnected ''nse_l1'', fe_ts_ns = 8\<rparr>"
      "supervisor_new default_hedge_config ''state.json'' NoFile (sv_bus sample_supervisor)" one_codec FsOk 9]
    by (auto simp: supervisor_new_def)
  then have state: "sv_state ?old = one_disconnect"
    by (auto simp: decide_def Let_def ss_touch_def record_ws_attempt_def ss_default_def one_disconnect_def one)
  have attempt: "attempt_of (sv_policy ?old) ''nse_l1'' = 1"
    by (simp add: handle_one_policy attempt_of_def decide_frame supervisor_new_def policy_from_config_def one)
  have codec: "sc_enc one_codec (sv_state ?old) = Inr [1]" "sc_dec one_codec [1] = Inr (sv_state ?old)"
    unfolding state by (simp_all add: one_codec_def)
  from restart_resumes [OF refl codec, of 0 "sv_bus sample_supervisor"] show ?thesis
    using attempt sample by auto
qed

end
