(* ===== verification/Warm_Cache.thy ===== *)
theory Warm_Cache
  imports Risk_Engine Config_Loader Message_Bus
begin

text \<open>
  The score cache \<open>hedge-warmcache\<close>: the bounded table of trade confidences (\<open>lru.rs\<close>), the copy-on-write
  snapshot of the other scores (\<open>snapshot.rs\<close>), the cache that joins them (\<open>cache.rs\<close>) and the task that feeds it
  from the \<open>ai.*\<close> subjects (\<open>updater.rs\<close>). \<open>serde_json\<close> is the record \<open>warm_json\<close> of decoders; a reading of
  \<open>now_ns()\<close> is an argument of the operation that makes it. The swap of the snapshot pointer and
  the accesses to the sharded map are single steps here. The locale \<open>bounded_store\<close> is the contract of the
  three bounded tables.
\<close>

section \<open>Trade confidences (lru.rs)\<close>

record lru_entry =
  en_confidence :: flt
  en_ts_ns :: u64

record confidence_lru =
  cl_map :: "correlation_id \<rightharpoonup> lru_entry"
  cl_order :: "correlation_id list"
  cl_capacity :: nat
  cl_staleness_ns :: u64

text \<open>A capacity of zero panics.\<close>

definition lru_new :: "nat \<Rightarrow> u64 \<Rightarrow> confidence_lru option" where
  "lru_new capacity staleness =
     (if capacity = 0 then None
      else Some \<lparr>cl_map = (\<lambda>_. None), cl_order = [], cl_capacity = capacity, cl_staleness_ns = staleness\<rparr>)"

text \<open>The eviction loop of \<open>insert\<close>.\<close>

fun lru_evict :: "nat \<Rightarrow> correlation_id list \<Rightarrow> (correlation_id \<rightharpoonup> lru_entry) \<Rightarrow> correlation_id list \<times> (correlation_id \<rightharpoonup> lru_entry)" where
  "lru_evict capacity [] m = ([], m)"
| "lru_evict capacity (k # ks) m =
     (if length (k # ks) > capacity then lru_evict capacity ks (m(k := None)) else (k # ks, m))"

definition lru_insert :: "correlation_id \<Rightarrow> flt \<Rightarrow> u64 \<Rightarrow> confidence_lru \<Rightarrow> confidence_lru" where
  "lru_insert key confidence now l =
     (let m = (cl_map l)(key \<mapsto> \<lparr>en_confidence = confidence, en_ts_ns = now\<rparr>)
      in if cl_map l key \<noteq> None then l\<lparr>cl_map := m\<rparr>
         else let (order, m) = lru_evict (cl_capacity l) (cl_order l @ [key]) m
              in l\<lparr>cl_map := m, cl_order := order\<rparr>)"

definition lru_get :: "confidence_lru \<Rightarrow> correlation_id \<Rightarrow> u64 \<Rightarrow> flt option" where
  "lru_get l key now =
     (case cl_map l key of
        None \<Rightarrow> None
      | Some e \<Rightarrow> if cl_staleness_ns l > 0 \<and> usat_sub now (en_ts_ns e) > cl_staleness_ns l then None
                  else Some (en_confidence e))"

section \<open>Snapshots (snapshot.rs)\<close>

definition MAX_TRACKED_SYMBOLS :: nat where
  "MAX_TRACKED_SYMBOLS = 512"

record news_impact =
  ni_sentiment :: flt
  ni_impact_magnitude :: flt
  ni_ts_ns :: u64

definition default_news_impact :: news_impact where
  "default_news_impact = \<lparr>ni_sentiment = Fin 0, ni_impact_magnitude = Fin 0, ni_ts_ns = 0\<rparr>"

definition snap_clamp :: "flt \<Rightarrow> flt \<Rightarrow> flt \<Rightarrow> flt" where
  "snap_clamp v lo hi = (if v = NaN \<or> flt_lt v lo then lo else if flt_lt hi v then hi else v)"

definition news_clamp :: "news_impact \<Rightarrow> news_impact" where
  "news_clamp n = \<lparr>ni_sentiment = snap_clamp (ni_sentiment n) (Fin (- 1)) (Fin 1),
     ni_impact_magnitude = snap_clamp (ni_impact_magnitude n) (Fin 0) (Fin 1), ni_ts_ns = ni_ts_ns n\<rparr>"

record warm_snapshot =
  sn_market_stability :: flt
  sn_market_stability_ts_ns :: u64
  sn_trader_stability :: flt
  sn_trader_stability_ts_ns :: u64
  sn_priority :: "(symbol_id \<times> priority) list"
  sn_news_impact :: "(symbol_id \<times> news_impact) list"

definition snapshot_neutral :: warm_snapshot where
  "snapshot_neutral = \<lparr>sn_market_stability = Fin 1, sn_market_stability_ts_ns = 0, sn_trader_stability = Fin 1,
     sn_trader_stability_ts_ns = 0, sn_priority = [], sn_news_impact = []\<rparr>"

text \<open>The linear scan of both tables.\<close>

fun slot_find :: "('k \<times> 'v) list \<Rightarrow> 'k \<Rightarrow> 'v option" where
  "slot_find [] k = None"
| "slot_find ((s, v) # xs) k = (if s = k then Some v else slot_find xs k)"

definition snapshot_priority :: "warm_snapshot \<Rightarrow> symbol_id \<Rightarrow> priority" where
  "snapshot_priority sn sy = (case slot_find (sn_priority sn) sy of Some p \<Rightarrow> p | None \<Rightarrow> P3)"

definition snapshot_news_impact :: "warm_snapshot \<Rightarrow> symbol_id \<Rightarrow> news_impact" where
  "snapshot_news_impact sn sy = (case slot_find (sn_news_impact sn) sy of Some n \<Rightarrow> n | None \<Rightarrow> default_news_impact)"

definition with_market_stability :: "flt \<Rightarrow> u64 \<Rightarrow> warm_snapshot \<Rightarrow> warm_snapshot" where
  "with_market_stability v ts sn =
     sn\<lparr>sn_market_stability := snap_clamp v (Fin 0) (Fin 1), sn_market_stability_ts_ns := ts\<rparr>"

definition with_trader_stability :: "flt \<Rightarrow> u64 \<Rightarrow> warm_snapshot \<Rightarrow> warm_snapshot" where
  "with_trader_stability v ts sn =
     sn\<lparr>sn_trader_stability := snap_clamp v (Fin 0) (Fin 1), sn_trader_stability_ts_ns := ts\<rparr>"

text \<open>The first slot of the key is overwritten; a new key is appended, or takes the first slot of a
  full table.\<close>

fun slot_overwrite :: "'k \<Rightarrow> 'v \<Rightarrow> ('k \<times> 'v) list \<Rightarrow> ('k \<times> 'v) list" where
  "slot_overwrite k v [] = []"
| "slot_overwrite k v ((s, w) # xs) = (if s = k then (s, v) # xs else (s, w) # slot_overwrite k v xs)"

definition slot_upsert :: "'k \<Rightarrow> 'v \<Rightarrow> ('k \<times> 'v) list \<Rightarrow> ('k \<times> 'v) list" where
  "slot_upsert k v xs =
     (if slot_find xs k \<noteq> None then slot_overwrite k v xs
      else if length xs < MAX_TRACKED_SYMBOLS then xs @ [(k, v)]
      else xs[0 := (k, v)])"

definition with_priority :: "symbol_id \<Rightarrow> priority \<Rightarrow> warm_snapshot \<Rightarrow> warm_snapshot" where
  "with_priority sy tier sn = sn\<lparr>sn_priority := slot_upsert sy tier (sn_priority sn)\<rparr>"

definition with_news_impact :: "symbol_id \<Rightarrow> news_impact \<Rightarrow> warm_snapshot \<Rightarrow> warm_snapshot" where
  "with_news_impact sy value sn = sn\<lparr>sn_news_impact := slot_upsert sy (news_clamp value) (sn_news_impact sn)\<rparr>"

section \<open>The cache (cache.rs, config.rs)\<close>

record warm_cache =
  wm_inner :: warm_snapshot
  wm_confidence :: confidence_lru
  wm_config :: warm_cache_config

definition warm_cache_new :: "warm_cache_config \<Rightarrow> warm_cache option" where
  "warm_cache_new cfg =
     (let staleness_ns = usat_mul (ucast (staleness_window_ms cfg)) 1000000
      in case lru_new (unat (trade_confidence_lru_size cfg)) staleness_ns of
           None \<Rightarrow> None
         | Some l \<Rightarrow> Some \<lparr>wm_inner = snapshot_neutral, wm_confidence = l, wm_config = cfg\<rparr>)"

definition trade_confidence_at :: "warm_cache \<Rightarrow> correlation_id \<Rightarrow> u64 \<Rightarrow> flt option" where
  "trade_confidence_at c cid now = lru_get (wm_confidence c) cid now"

definition cache_priority :: "warm_cache \<Rightarrow> symbol_id \<Rightarrow> priority" where
  "cache_priority c sy = snapshot_priority (wm_inner c) sy"

definition cache_news_impact :: "warm_cache \<Rightarrow> symbol_id \<Rightarrow> news_impact" where
  "cache_news_impact c sy = snapshot_news_impact (wm_inner c) sy"

definition fallback_confidence :: "warm_cache \<Rightarrow> signal \<Rightarrow> u64 \<Rightarrow> flt" where
  "fallback_confidence c sig now =
     (case lru_get (wm_confidence c) (cid_of_bytes (sg_correlation_id sig)) now of
        Some v \<Rightarrow> v | None \<Rightarrow> sg_confidence sig)"

definition store_market_stability :: "flt \<Rightarrow> u64 \<Rightarrow> warm_cache \<Rightarrow> warm_cache" where
  "store_market_stability v ts c = c\<lparr>wm_inner := with_market_stability v ts (wm_inner c)\<rparr>"

definition store_trader_stability :: "flt \<Rightarrow> u64 \<Rightarrow> warm_cache \<Rightarrow> warm_cache" where
  "store_trader_stability v ts c = c\<lparr>wm_inner := with_trader_stability v ts (wm_inner c)\<rparr>"

definition store_trade_confidence :: "correlation_id \<Rightarrow> flt \<Rightarrow> u64 \<Rightarrow> warm_cache \<Rightarrow> warm_cache" where
  "store_trade_confidence cid v ts c = c\<lparr>wm_confidence := lru_insert cid v ts (wm_confidence c)\<rparr>"

definition store_priority :: "symbol_id \<Rightarrow> priority \<Rightarrow> warm_cache \<Rightarrow> warm_cache" where
  "store_priority sy tier c = c\<lparr>wm_inner := with_priority sy tier (wm_inner c)\<rparr>"

definition store_news_impact :: "symbol_id \<Rightarrow> news_impact \<Rightarrow> warm_cache \<Rightarrow> warm_cache" where
  "store_news_impact sy impact c = c\<lparr>wm_inner := with_news_impact sy impact (wm_inner c)\<rparr>"

text \<open>The view of the Risk_Engine at the reading \<open>now\<close> of its clock.\<close>

definition warm_view :: "warm_cache \<Rightarrow> u64 \<Rightarrow> warm_cache_view" where
  "warm_view c now = \<lparr>wc_market_stability = sn_market_stability (wm_inner c),
     wc_trade_confidence = (\<lambda>cid. trade_confidence_at c cid now),
     wc_trader_stability = sn_trader_stability (wm_inner c)\<rparr>"

section \<open>The updater (updater.rs)\<close>

record ai_rank_event =
  rk_correlation_id :: string
  rk_trade_confidence_score :: flt
  rk_ts_ns :: u64

record ai_regime_changed_event =
  rg_to :: string
  rg_ts_ns :: u64

record ai_psych_stability_event =
  py_score :: flt
  py_ts_ns :: u64

record ai_priority_changed_event =
  pr_symbol :: string
  pr_to :: string
  pr_ts_ns :: u64

record ai_news_impact_event =
  nw_symbol :: string
  nw_sentiment :: flt
  nw_impact_magnitude :: flt
  nw_ts_ns :: u64

record warm_json =
  js_rank :: "u8 list \<Rightarrow> ai_rank_event option"
  js_regime :: "u8 list \<Rightarrow> ai_regime_changed_event option"
  js_psych :: "u8 list \<Rightarrow> ai_psych_stability_event option"
  js_priority :: "u8 list \<Rightarrow> ai_priority_changed_event option"
  js_news :: "u8 list \<Rightarrow> ai_news_impact_event option"

definition regime_to_market_stability :: "string \<Rightarrow> flt" where
  "regime_to_market_stability label =
     (if label = ''Trending'' then Fin 1
      else if label = ''Sideways'' then rnd F32 (80 / 100)
      else if label = ''HighVolatility'' then rnd F32 (50 / 100)
      else if label = ''NewsDriven'' then rnd F32 (40 / 100)
      else if label = ''LowParticipation'' then rnd F32 (30 / 100)
      else if label = ''LiquidityCrisis'' then rnd F32 (10 / 100)
      else if label = ''Panic'' then rnd F32 (5 / 100)
      else Fin 1)"

definition parse_priority :: "string \<Rightarrow> priority" where
  "parse_priority label =
     (if label = ''P1'' then P1 else if label = ''P2'' then P2 else if label = ''P3'' then P3
      else if label = ''P4'' then P4 else P3)"

text \<open>\<open>from_str_radix\<close> of an unsigned type with greatest value \<open>hi\<close>: an optional plus sign, at least one
  digit, and no overflow.\<close>

definition digit_val :: "nat \<Rightarrow> char \<Rightarrow> nat option" where
  "digit_val radix c =
     (let n = of_char c;
          d = (if 48 \<le> n \<and> n \<le> 57 then n - 48 else if 97 \<le> n \<and> n \<le> 122 then n - 87
               else if 65 \<le> n \<and> n \<le> 90 then n - 55 else radix)
      in if d < radix then Some d else None)"

fun parse_digits :: "nat \<Rightarrow> nat \<Rightarrow> nat \<Rightarrow> string \<Rightarrow> nat option" where
  "parse_digits radix hi acc [] = Some acc"
| "parse_digits radix hi acc (c # cs) =
     (case digit_val radix c of
        None \<Rightarrow> None
      | Some d \<Rightarrow> if acc * radix + d \<le> hi then parse_digits radix hi (acc * radix + d) cs else None)"

definition parse_unsigned :: "nat \<Rightarrow> nat \<Rightarrow> string \<Rightarrow> nat option" where
  "parse_unsigned radix hi s =
     (case s of
        [] \<Rightarrow> None
      | c # cs \<Rightarrow> if c = CHR ''+'' then (if cs = [] then None else parse_digits radix hi 0 cs)
                  else parse_digits radix hi 0 s)"

definition u32_top :: nat where
  "u32_top = 2 ^ 32 - 1"

definition u128_top :: nat where
  "u128_top = 2 ^ 128 - 1"

definition parse_symbol :: "string \<Rightarrow> symbol_id option" where
  "parse_symbol s = map_option of_nat (parse_unsigned 10 u32_top s)"

definition parse_correlation_id :: "string \<Rightarrow> correlation_id option" where
  "parse_correlation_id s =
     (case (if length s = 32 then parse_unsigned 16 u128_top s else None) of
        Some v \<Rightarrow> Some (of_nat v)
      | None \<Rightarrow> map_option of_nat (parse_unsigned 10 u128_top s))"

definition stamp_or :: "u64 \<Rightarrow> u64 \<Rightarrow> u64" where
  "stamp_or ts now = (if ts = 0 then now else ts)"

definition handle_rank :: "warm_json \<Rightarrow> u64 \<Rightarrow> u8 list \<Rightarrow> warm_cache \<Rightarrow> warm_cache" where
  "handle_rank js now bytes c =
     (case js_rank js bytes of
        None \<Rightarrow> c
      | Some ev \<Rightarrow> (case parse_correlation_id (rk_correlation_id ev) of
            None \<Rightarrow> c
          | Some cid \<Rightarrow> store_trade_confidence cid (rk_trade_confidence_score ev) (stamp_or (rk_ts_ns ev) now) c))"

definition handle_regime :: "warm_json \<Rightarrow> u64 \<Rightarrow> u8 list \<Rightarrow> warm_cache \<Rightarrow> warm_cache" where
  "handle_regime js now bytes c =
     (case js_regime js bytes of
        None \<Rightarrow> c
      | Some ev \<Rightarrow> store_market_stability (regime_to_market_stability (rg_to ev)) (stamp_or (rg_ts_ns ev) now) c)"

definition handle_psych :: "warm_json \<Rightarrow> u64 \<Rightarrow> u8 list \<Rightarrow> warm_cache \<Rightarrow> warm_cache" where
  "handle_psych js now bytes c =
     (case js_psych js bytes of
        None \<Rightarrow> c
      | Some ev \<Rightarrow> store_trader_stability (py_score ev) (stamp_or (py_ts_ns ev) now) c)"

definition handle_priority :: "warm_json \<Rightarrow> u8 list \<Rightarrow> warm_cache \<Rightarrow> warm_cache" where
  "handle_priority js bytes c =
     (case js_priority js bytes of
        None \<Rightarrow> c
      | Some ev \<Rightarrow> (case parse_symbol (pr_symbol ev) of
            None \<Rightarrow> c
          | Some sy \<Rightarrow> store_priority sy (parse_priority (pr_to ev)) c))"

definition handle_news :: "warm_json \<Rightarrow> u64 \<Rightarrow> u8 list \<Rightarrow> warm_cache \<Rightarrow> warm_cache" where
  "handle_news js now bytes c =
     (case js_news js bytes of
        None \<Rightarrow> c
      | Some ev \<Rightarrow> (case parse_symbol (nw_symbol ev) of
            None \<Rightarrow> c
          | Some sy \<Rightarrow> store_news_impact sy
              \<lparr>ni_sentiment = nw_sentiment ev, ni_impact_magnitude = nw_impact_magnitude ev,
               ni_ts_ns = stamp_or (nw_ts_ns ev) now\<rparr> c))"

datatype ai_subject = AiRank | AiRegime | AiPsych | AiPriority | AiNews

fun warm_handle :: "warm_json \<Rightarrow> u64 \<Rightarrow> ai_subject \<Rightarrow> u8 list \<Rightarrow> warm_cache \<Rightarrow> warm_cache" where
  "warm_handle js now AiRank b = handle_rank js now b"
| "warm_handle js now AiRegime b = handle_regime js now b"
| "warm_handle js now AiPsych b = handle_psych js now b"
| "warm_handle js now AiPriority b = handle_priority js b"
| "warm_handle js now AiNews b = handle_news js now b"

text \<open>The loop of \<open>run\<close> over the receptions in the order the select makes them: subscription, reading
  of the clock and result. A closed subscription ends it; other errors are logged.\<close>

type_synonym reception = "ai_subject \<times> u64 \<times> (bus_error + u8 list)"

fun warm_run :: "warm_json \<Rightarrow> reception list \<Rightarrow> warm_cache \<Rightarrow> warm_cache" where
  "warm_run js [] c = c"
| "warm_run js ((src, now, Inr b) # rs) c = warm_run js rs (warm_handle js now src b c)"
| "warm_run js ((src, now, Inl (SubscriptionClosed s)) # rs) c = c"
| "warm_run js ((src, now, Inl e) # rs) c = warm_run js rs c"

section \<open>Bounded stores\<close>

locale bounded_store =
  fixes put :: "'k \<Rightarrow> 'v \<Rightarrow> 's \<Rightarrow> 's" and find_key :: "'s \<Rightarrow> 'k \<Rightarrow> 'v option"
    and store_ok :: "'s \<Rightarrow> bool" and held :: "'s \<Rightarrow> nat" and bound :: "'s \<Rightarrow> nat"
  assumes put_ok: "store_ok s \<Longrightarrow> store_ok (put k v s)"
    and put_bound: "store_ok s \<Longrightarrow> bound (put k v s) = bound s"
    and held_bound: "store_ok s \<Longrightarrow> held s \<le> bound s"
    and find_put_same: "store_ok s \<Longrightarrow> find_key (put k v s) k = Some v"
    and find_put_other: "store_ok s \<Longrightarrow> k' \<noteq> k \<Longrightarrow> find_key (put k v s) k' \<in> {find_key s k', None}"
begin

definition put_all :: "('k \<times> 'v) list \<Rightarrow> 's \<Rightarrow> 's" where
  "put_all kvs s = fold (\<lambda>(k, v). put k v) kvs s"

lemma put_all_ok: "store_ok s \<Longrightarrow> store_ok (put_all kvs s)"
  unfolding put_all_def by (induction kvs arbitrary: s) (auto simp: put_ok)

lemma put_all_held: "store_ok s \<Longrightarrow> held (put_all kvs s) \<le> bound s"
proof (induction kvs arbitrary: s)
  case Nil
  then show ?case by (simp add: put_all_def held_bound)
next
  case (Cons kv kvs)
  obtain k v where kv: "kv = (k, v)" by fastforce
  show ?case
    using Cons.IH [OF put_ok [OF Cons.prems], of k v] put_bound [OF Cons.prems, of k v] by (simp add: put_all_def kv)
qed

lemma put_all_last: "store_ok s \<Longrightarrow> find_key (put_all (kvs @ [(k, v)]) s) k = Some v"
  using put_all_ok [of s kvs] by (simp add: put_all_def find_put_same)

text \<open>What is found was stored: the value of the last put of the key.\<close>

lemma put_all_found:
  assumes "store_ok s" "find_key (put_all kvs s) k = Some v"
  shows "map_of (rev kvs) k = Some v \<or> map_of (rev kvs) k = None \<and> find_key s k = Some v"
  using assms(2)
proof (induction kvs rule: rev_induct)
  case Nil
  then show ?case by (simp add: put_all_def)
next
  case (snoc kv kvs)
  obtain k' v' where kv: "kv = (k', v')" by fastforce
  have ok: "store_ok (put_all kvs s)" using put_all_ok assms(1) .
  have step: "put_all (kvs @ [kv]) s = put k' v' (put_all kvs s)" by (simp add: put_all_def kv)
  show ?case
  proof (cases "k = k'")
    case True
    then show ?thesis using snoc.prems find_put_same [OF ok, of k' v'] unfolding step by (simp add: kv)
  next
    case False
    then have "find_key (put_all kvs s) k = Some v"
      using snoc.prems find_put_other [OF ok, of k k' v'] by (auto simp: step)
    then show ?thesis using snoc.IH False by (auto simp: kv)
  qed
qed

end

subsection \<open>The confidence table\<close>

definition lru_ok :: "confidence_lru \<Rightarrow> bool" where
  "lru_ok l \<longleftrightarrow> distinct (cl_order l) \<and> set (cl_order l) = dom (cl_map l) \<and> length (cl_order l) \<le> cl_capacity l
     \<and> 0 < cl_capacity l"

lemma lru_evict_drop:
  "lru_evict n ks m = (drop (length ks - n) ks, m |` (- set (take (length ks - n) ks)))"
proof (induction ks arbitrary: m)
  case (Cons k ks)
  show ?case
  proof (cases "length (k # ks) > n")
    case True
    then have n: "length (k # ks) - n = Suc (length ks - n)" by simp
    have "m(k := None) |` (- set (take (length ks - n) ks)) = m |` (- set (take (length (k # ks) - n) (k # ks)))"
      unfolding n by (auto simp: restrict_map_def fun_eq_iff)
    then show ?thesis using True Cons.IH [of "m(k := None)"] by (simp only: lru_evict.simps n drop_Suc_Cons if_True)
  qed (simp add: restrict_map_def)
qed (simp add: restrict_map_def)

lemma lru_insert_fresh:
  assumes "lru_ok l" "cl_map l key = None"
  shows "lru_insert key v now l = l\<lparr>
      cl_map := ((cl_map l)(key \<mapsto> \<lparr>en_confidence = v, en_ts_ns = now\<rparr>))
        |` (- set (take (Suc (length (cl_order l)) - cl_capacity l) (cl_order l))),
      cl_order := drop (Suc (length (cl_order l)) - cl_capacity l) (cl_order l) @ [key]\<rparr>"
proof -
  have "Suc (length (cl_order l)) - cl_capacity l \<le> length (cl_order l)" using assms(1) by (auto simp: lru_ok_def)
  then show ?thesis using assms(2) by (simp add: lru_insert_def lru_evict_drop)
qed

lemma lru_insert_present:
  "cl_map l key \<noteq> None \<Longrightarrow> lru_insert key v now l = l\<lparr>cl_map := (cl_map l)(key \<mapsto> \<lparr>en_confidence = v, en_ts_ns = now\<rparr>)\<rparr>"
  by (simp add: lru_insert_def)

lemma lru_ok_insert_fresh:
  assumes ok: "lru_ok l" and fresh: "cl_map l key = None"
  shows "lru_ok (lru_insert key v now l)"
proof -
  define n where "n = Suc (length (cl_order l)) - cl_capacity l"
  define a where "a = take n (cl_order l)"
  define b where "b = drop n (cl_order l)"
  have o: "cl_order l = a @ b" by (simp add: a_def b_def)
  have d: "distinct (a @ b)" "set (a @ b) = dom (cl_map l)" "0 < cl_capacity l" using ok o by (simp_all add: lru_ok_def)
  have key: "key \<notin> set (a @ b)" using d(2) fresh by auto
  have len: "length b < cl_capacity l" using ok by (auto simp: lru_ok_def b_def n_def)
  have "dom (((cl_map l)(key \<mapsto> e)) |` (- set a)) = insert key (set b)" for e
    using d(1,2) key by (auto simp: dom_restrict)
  then show ?thesis
    using d(1,3) key len unfolding lru_insert_fresh [OF ok fresh, folded n_def, folded a_def b_def]
    by (simp add: lru_ok_def del: fun_upd_restrict_conv restrict_fun_upd)
qed

lemma lru_ok_insert: "lru_ok l \<Longrightarrow> lru_ok (lru_insert key v now l)"
proof (cases "cl_map l key = None")
  case False
  assume "lru_ok l"
  then show ?thesis using False by (auto simp: lru_insert_present lru_ok_def)
qed (rule lru_ok_insert_fresh)

lemma lru_insert_capacity [simp]:
  "cl_capacity (lru_insert key v now l) = cl_capacity l" "cl_staleness_ns (lru_insert key v now l) = cl_staleness_ns l"
  by (simp_all add: lru_insert_def Let_def case_prod_beta)

lemma lru_insert_same:
  assumes "lru_ok l"
  shows "cl_map (lru_insert key v now l) key = Some \<lparr>en_confidence = v, en_ts_ns = now\<rparr>"
proof (cases "cl_map l key = None")
  case True
  then have "key \<notin> set (cl_order l)" using assms by (auto simp: lru_ok_def)
  then have "key \<notin> set (take n (cl_order l))" for n by (meson in_set_takeD)
  then show ?thesis by (simp add: lru_insert_fresh [OF assms True] restrict_map_def)
qed (simp add: lru_insert_present)

lemma lru_insert_other:
  assumes "lru_ok l" "k \<noteq> key"
  shows "cl_map (lru_insert key v now l) k \<in> {cl_map l k, None}"
  using assms by (cases "cl_map l key = None") (auto simp: lru_insert_fresh lru_insert_present restrict_map_def)

definition lru_put :: "correlation_id \<Rightarrow> lru_entry \<Rightarrow> confidence_lru \<Rightarrow> confidence_lru" where
  "lru_put k e l = lru_insert k (en_confidence e) (en_ts_ns e) l"

interpretation lru: bounded_store lru_put cl_map lru_ok "\<lambda>l. card (dom (cl_map l))" cl_capacity
proof unfold_locales
  fix s :: confidence_lru
  assume "lru_ok s"
  then show "card (dom (cl_map s)) \<le> cl_capacity s"
    by (metis lru_ok_def distinct_card)
qed (auto simp: lru_put_def lru_ok_insert lru_insert_same dest: lru_insert_other)

subsection \<open>The symbol tables\<close>

definition slots_ok :: "('k \<times> 'v) list \<Rightarrow> bool" where
  "slots_ok xs \<longleftrightarrow> distinct (map fst xs) \<and> length xs \<le> MAX_TRACKED_SYMBOLS"

lemma slot_find_None [simp]: "slot_find xs k = None \<longleftrightarrow> k \<notin> fst ` set xs"
  by (induction xs k rule: slot_find.induct) auto

lemma slot_find_append:
  "slot_find (xs @ ys) k = (if k \<in> fst ` set xs then slot_find xs k else slot_find ys k)"
  by (induction xs k rule: slot_find.induct) auto

lemma slot_overwrite_fst [simp]: "map fst (slot_overwrite k v xs) = map fst xs"
  by (induction k v xs rule: slot_overwrite.induct) auto

lemma slot_overwrite_length [simp]: "length (slot_overwrite k v xs) = length xs"
  by (induction k v xs rule: slot_overwrite.induct) auto

lemma slot_overwrite_find:
  "slot_find (slot_overwrite k v xs) k' = (if k' = k \<and> k \<in> fst ` set xs then Some v else slot_find xs k')"
  by (induction k v xs rule: slot_overwrite.induct) (auto, force)

lemma slot_upsert_cases:
  obtains (present) "k \<in> fst ` set xs" "slot_upsert k v xs = slot_overwrite k v xs"
  | (room) "k \<notin> fst ` set xs" "length xs < MAX_TRACKED_SYMBOLS" "slot_upsert k v xs = xs @ [(k, v)]"
  | (full) x ys where "k \<notin> fst ` set xs" "xs = x # ys" "slot_upsert k v xs = (k, v) # ys"
proof (cases "k \<in> fst ` set xs")
  case True
  then show ?thesis by (intro present) (auto simp: slot_upsert_def)
next
  case new: False
  show ?thesis
  proof (cases "length xs < MAX_TRACKED_SYMBOLS")
    case True
    with new show ?thesis by (intro room) (auto simp: slot_upsert_def)
  next
    case False
    then obtain x ys where "xs = x # ys" by (cases xs) (auto simp: MAX_TRACKED_SYMBOLS_def)
    with new False show ?thesis by (intro full) (auto simp: slot_upsert_def)
  qed
qed

lemma slots_ok_upsert: "slots_ok xs \<Longrightarrow> slots_ok (slot_upsert k v xs)"
  by (cases rule: slot_upsert_cases [of k xs v]) (auto simp: slots_ok_def)

lemma slot_upsert_same: "slot_find (slot_upsert k v xs) k = Some v"
  by (cases rule: slot_upsert_cases [of k xs v]) (auto simp: slot_overwrite_find slot_find_append)

lemma slot_upsert_other:
  assumes "slots_ok xs" "k' \<noteq> k"
  shows "slot_find (slot_upsert k v xs) k' \<in> {slot_find xs k', None}"
proof (cases rule: slot_upsert_cases [of k xs v])
  case (full x ys)
  then show ?thesis using assms by (cases x) (auto simp: slots_ok_def)
qed (use assms(2) in \<open>auto simp: slot_overwrite_find slot_find_append\<close>)

interpretation slots: bounded_store slot_upsert slot_find slots_ok length "\<lambda>_. MAX_TRACKED_SYMBOLS"
proof unfold_locales
  fix s :: "('k \<times> 'v) list" and k k' :: 'k and v :: 'v
  assume ok: "slots_ok s"
  then show "slots_ok (slot_upsert k v s)" by (rule slots_ok_upsert)
  show "length s \<le> MAX_TRACKED_SYMBOLS" using ok by (simp add: slots_ok_def)
  show "slot_find (slot_upsert k v s) k' \<in> {slot_find s k', None}" if "k' \<noteq> k" using slot_upsert_other [OF ok that] .
qed (simp_all add: slot_upsert_same)

section \<open>Properties\<close>

subsection \<open>A fresh score survives until the capacity is used up\<close>

lemma lru_insert_keeps_back:
  assumes "lru_ok l" "cl_order l = pre @ key # post" "length (key # post) < cl_capacity l \<or> k \<in> set (key # post)"
    and "cl_map l key = Some e" "k \<noteq> key"
  shows "\<exists>pre' post'. cl_order (lru_insert k v now l) = pre' @ key # post'
    \<and> set post' \<subseteq> insert k (set post) \<and> cl_map (lru_insert k v now l) key = Some e"
proof (cases "cl_map l k = None")
  case True
  then have "k \<notin> set (cl_order l)" using assms(1) by (auto simp: lru_ok_def)
  then have short: "length (key # post) < cl_capacity l" using assms(2,3) by auto
  define n where "n = Suc (length (cl_order l)) - cl_capacity l"
  have n: "n \<le> length pre" using assms(2) short by (simp add: n_def)
  have "key \<notin> set (take n pre)" using assms(1,2) by (auto simp: lru_ok_def dest: in_set_takeD)
  then show ?thesis
    using n assms(2,4,5) unfolding lru_insert_fresh [OF assms(1) True, folded n_def]
    by (intro exI [of _ "drop n pre"] exI [of _ "post @ [k]"]) (auto simp: restrict_map_def)
next
  case False
  then show ?thesis using assms(2,4,5) by (auto simp: lru_insert_present)
qed

lemma lru_score_survives:
  assumes "lru_ok l" "cl_order l = pre @ key # post" "cl_map l key = Some e" "finite K" "key \<notin> K" "card K < cl_capacity l"
    and "set post \<subseteq> K" "fst ` set kvs \<subseteq> K"
  shows "cl_map (lru.put_all kvs l) key = Some e"
  using assms(1,2,3,6,7,8)
proof (induction kvs arbitrary: l pre post)
  case (Cons kv kvs)
  obtain k en where kv: "kv = (k, en)" by fastforce
  have k: "k \<in> K" "k \<noteq> key" using Cons.prems(6) assms(5) by (auto simp: kv)
  have d: "distinct post" using Cons.prems(1,2) by (auto simp: lru_ok_def)
  have "length (key # post) < cl_capacity l \<or> k \<in> set (key # post)"
  proof (cases "k \<in> set post")
    case False
    then have "length (k # post) \<le> card K"
      using d k(1) Cons.prems(5) assms(4) card_mono [of K "set (k # post)"] distinct_card [of "k # post"] by simp
    then show ?thesis using Cons.prems(4) by simp
  qed simp
  from lru_insert_keeps_back [OF Cons.prems(1,2) this Cons.prems(3) k(2)] obtain pre' post' where
    "cl_order (lru_put k en l) = pre' @ key # post'" "set post' \<subseteq> K" "cl_map (lru_put k en l) key = Some e"
    unfolding lru_put_def using Cons.prems(5) k(1) by blast
  then show ?case
    using Cons.IH [of "lru_put k en l" pre' post'] lru.put_ok [OF Cons.prems(1)] lru.put_bound [OF Cons.prems(1)] Cons.prems(4,6)
    by (simp add: lru.put_all_def kv)
qed (simp add: lru.put_all_def)

lemma lru_order_ok: "lru_ok l \<Longrightarrow> cl_map l key = None \<Longrightarrow> \<exists>pre. cl_order (lru_put key e l) = pre @ [key]"
  by (simp add: lru_put_def lru_insert_fresh)

lemma lru_put_same: "lru_ok l \<Longrightarrow> cl_map (lru_put key e l) key = Some e"
  by (simp add: lru_put_def lru_insert_same)

lemma lru_put_all_staleness [simp]: "cl_staleness_ns (lru.put_all kvs l) = cl_staleness_ns l"
  by (induction kvs arbitrary: l) (auto simp: lru.put_all_def lru_put_def)

definition lru_inserts :: "(correlation_id \<times> lru_entry) list \<Rightarrow> confidence_lru \<Rightarrow> confidence_lru" where
  "lru_inserts kvs l = fold (\<lambda>(k, e). lru_insert k (en_confidence e) (en_ts_ns e)) kvs l"

lemma lru_inserts_put_all: "lru_inserts = lru.put_all"
proof (intro ext)
  show "lru_inserts kvs l = lru.put_all kvs l" for kvs l
    by (induction kvs arbitrary: l) (auto simp: lru_inserts_def lru.put_all_def lru_put_def)
qed

text \<open>The confidence table keeps what it promises. From a well-formed table, inserting a score
  for a correlation id that is not in it makes it readable, within the staleness window, for as long
  as fewer than \<open>capacity\<close> other correlation ids are inserted after it, in any order and however
  often; the table never holds more entries than its capacity.\<close>

theorem fresh_confidence_survives:
  assumes "lru_ok l" and "cl_map l key = None" and "key \<notin> fst ` set kvs" and "card (fst ` set kvs) < cl_capacity l"
    and "cl_staleness_ns l = 0 \<or> usat_sub now ts \<le> cl_staleness_ns l"
  shows "lru_get (lru_inserts kvs (lru_insert key c ts l)) key now = Some c
    \<and> card (dom (cl_map (lru_inserts kvs (lru_insert key c ts l)))) \<le> cl_capacity l"
proof -
  let ?e = "\<lparr>en_confidence = c, en_ts_ns = ts\<rparr>"
  have put: "lru_insert key c ts l = lru_put key ?e l" by (simp add: lru_put_def)
  have ok: "lru_ok (lru_put key ?e l)" using lru.put_ok [OF assms(1)] .
  obtain pre where "cl_order (lru_put key ?e l) = pre @ [key]" using lru_order_ok [OF assms(1,2)] by blast
  then have "cl_map (lru.put_all kvs (lru_put key ?e l)) key = Some ?e"
    using lru_score_survives [OF ok _ lru_put_same [OF assms(1)], of pre "[]" "fst ` set kvs" kvs] assms(3,4)
      lru.put_bound [OF assms(1)] by simp
  then show ?thesis
    using assms(5) lru.put_all_held [OF ok] lru.put_bound [OF assms(1)]
    unfolding put lru_inserts_put_all by (auto simp: lru_get_def lru_put_def not_less)
qed

theorem fresh_confidence_survives_witness:
  "lru_get (lru_inserts [(1, \<lparr>en_confidence = Fin 0, en_ts_ns = 5\<rparr>), (1, \<lparr>en_confidence = Fin 1, en_ts_ns = 6\<rparr>)]
     (lru_insert 7 (Fin 1) 5 \<lparr>cl_map = (\<lambda>_. None), cl_order = [], cl_capacity = 2, cl_staleness_ns = 10\<rparr>)) 7 9 = Some (Fin 1)"
  using fresh_confidence_survives [of "\<lparr>cl_map = (\<lambda>_. None), cl_order = [], cl_capacity = 2, cl_staleness_ns = 10\<rparr>" 7
      "[(1, \<lparr>en_confidence = Fin 0, en_ts_ns = 5\<rparr>), (1, \<lparr>en_confidence = Fin 1, en_ts_ns = 6\<rparr>)]" 9 5 "Fin 1"]
  by (simp add: lru_ok_def usat_sub_def)

subsection \<open>What the Risk_Engine reads\<close>

definition unit_flt :: "flt \<Rightarrow> bool" where
  "unit_flt x \<longleftrightarrow> flt_le (Fin 0) x \<and> flt_le x (Fin 1)"

definition news_in_range :: "news_impact \<Rightarrow> bool" where
  "news_in_range n \<longleftrightarrow> flt_le (Fin (- 1)) (ni_sentiment n) \<and> flt_le (ni_sentiment n) (Fin 1) \<and> unit_flt (ni_impact_magnitude n)"

definition snapshot_ok :: "warm_snapshot \<Rightarrow> bool" where
  "snapshot_ok sn \<longleftrightarrow> unit_flt (sn_market_stability sn) \<and> unit_flt (sn_trader_stability sn)
     \<and> slots_ok (sn_priority sn) \<and> slots_ok (sn_news_impact sn) \<and> (\<forall>p \<in> set (sn_news_impact sn). news_in_range (snd p))"

definition cache_ok :: "warm_cache \<Rightarrow> bool" where
  "cache_ok c \<longleftrightarrow> snapshot_ok (wm_inner c) \<and> lru_ok (wm_confidence c)"

lemma snap_clamp_range:
  "a \<le> b \<Longrightarrow> flt_le (Fin a) (snap_clamp v (Fin a) (Fin b))" "a \<le> b \<Longrightarrow> flt_le (snap_clamp v (Fin a) (Fin b)) (Fin b)"
  by (cases v; auto simp: snap_clamp_def)+

lemma unit_snap_clamp [simp]: "unit_flt (snap_clamp v (Fin 0) (Fin 1))"
  by (simp add: unit_flt_def snap_clamp_range)

lemma news_clamp_range [simp]: "news_in_range (news_clamp n)"
  by (simp add: news_in_range_def news_clamp_def snap_clamp_range)

lemma slot_overwrite_set: "set (slot_overwrite k v xs) \<subseteq> insert (k, v) (set xs)"
  by (induction k v xs rule: slot_overwrite.induct) auto

lemma slot_upsert_set: "set (slot_upsert k v xs) \<subseteq> insert (k, v) (set xs)"
  by (cases rule: slot_upsert_cases [of k xs v]) (use slot_overwrite_set [of k v xs] in auto)

lemma snapshot_ok_with:
  assumes "snapshot_ok sn"
  shows "snapshot_ok (with_market_stability v ts sn)" "snapshot_ok (with_trader_stability v ts sn)"
    "snapshot_ok (with_priority sy p sn)" "snapshot_ok (with_news_impact sy n sn)"
  using assms slot_upsert_set [of sy "news_clamp n" "sn_news_impact sn"]
  by (auto simp: snapshot_ok_def with_market_stability_def with_trader_stability_def with_priority_def with_news_impact_def
      slots_ok_upsert)

lemma cache_ok_stores:
  assumes "cache_ok c"
  shows "cache_ok (store_market_stability v ts c)" "cache_ok (store_trader_stability v ts c)"
    "cache_ok (store_trade_confidence cid v ts c)" "cache_ok (store_priority sy p c)" "cache_ok (store_news_impact sy n c)"
  using assms
  by (simp_all add: cache_ok_def store_market_stability_def store_trader_stability_def store_trade_confidence_def
      store_priority_def store_news_impact_def snapshot_ok_with lru_ok_insert)

lemma cache_ok_handle: "cache_ok c \<Longrightarrow> cache_ok (warm_handle js now src b c)"
  by (cases src) (auto simp: handle_rank_def handle_regime_def handle_psych_def handle_priority_def handle_news_def
      cache_ok_stores split: option.split)

lemma cache_ok_run: "cache_ok c \<Longrightarrow> cache_ok (warm_run js rs c)"
  by (induction js rs c rule: warm_run.induct) (simp_all add: cache_ok_handle)

lemma cache_ok_new: "warm_cache_new cfg = Some c \<Longrightarrow> cache_ok c"
  by (auto simp: warm_cache_new_def lru_new_def cache_ok_def snapshot_ok_def snapshot_neutral_def unit_flt_def slots_ok_def
      MAX_TRACKED_SYMBOLS_def lru_ok_def Let_def split: if_splits)

lemma slot_find_in: "slot_find xs k = Some v \<Longrightarrow> (k, v) \<in> set xs"
  by (induction xs k rule: slot_find.induct) (auto split: if_splits)

lemma capacity_handle [simp]: "cl_capacity (wm_confidence (warm_handle js now src b c)) = cl_capacity (wm_confidence c)"
  by (cases src) (auto simp: handle_rank_def handle_regime_def handle_psych_def handle_priority_def handle_news_def
      store_market_stability_def store_trader_stability_def store_trade_confidence_def store_priority_def store_news_impact_def
      split: option.split)

lemma capacity_run [simp]: "cl_capacity (wm_confidence (warm_run js rs c)) = cl_capacity (wm_confidence c)"
  by (induction js rs c rule: warm_run.induct) simp_all

text \<open>C40: Whatever arrives on the \<open>ai.*\<close> subjects (malformed payloads, scores out of range or not a number,
  receive errors), a cache built from a configuration always shows the Risk_Engine stability factors between 0 and 1
  and news impacts within their schema ranges, and its tables stay within their bounds.\<close>

theorem warm_scores_in_range:
  fixes js :: warm_json and rs :: "reception list"
  assumes "warm_cache_new cfg = Some c"
  defines "d \<equiv> warm_run js rs c"
  shows "unit_flt (wc_market_stability (warm_view d now)) \<and> unit_flt (wc_trader_stability (warm_view d now))
    \<and> news_in_range (cache_news_impact d sy)
    \<and> length (sn_priority (wm_inner d)) \<le> 512 \<and> length (sn_news_impact (wm_inner d)) \<le> 512
    \<and> card (dom (cl_map (wm_confidence d))) \<le> unat (trade_confidence_lru_size cfg)"
proof -
  have ok: "cache_ok d" unfolding d_def using cache_ok_run cache_ok_new [OF assms(1)] by blast
  have "news_in_range (cache_news_impact d sy)"
    using ok by (auto simp: cache_news_impact_def snapshot_news_impact_def cache_ok_def snapshot_ok_def default_news_impact_def
        news_in_range_def unit_flt_def split: option.split dest!: slot_find_in)
  moreover have "cl_capacity (wm_confidence d) = unat (trade_confidence_lru_size cfg)"
    using assms(1) by (auto simp: d_def warm_cache_new_def lru_new_def Let_def split: if_splits)
  ultimately show ?thesis
    using ok lru.held_bound [of "wm_confidence d"]
    by (auto simp: warm_view_def cache_ok_def snapshot_ok_def slots_ok_def MAX_TRACKED_SYMBOLS_def)
qed

definition sample_warm_json :: warm_json where
  "sample_warm_json = \<lparr>js_rank = (\<lambda>_. None), js_regime = (\<lambda>_. None),
     js_psych = (\<lambda>b. if b = [] then None else Some \<lparr>py_score = NaN, py_ts_ns = 0\<rparr>),
     js_priority = (\<lambda>_. None), js_news = (\<lambda>_. None)\<rparr>"

theorem warm_scores_in_range_witness:
  "unit_flt (wc_trader_stability (warm_view (warm_run sample_warm_json [(AiPsych, 3, Inr [1]), (AiRank, 4, Inl (DecodeErr ''x''))]
     (the (warm_cache_new default_warm_cache))) 9))"
proof -
  have "warm_cache_new default_warm_cache = Some (the (warm_cache_new default_warm_cache))"
    by (simp add: warm_cache_new_def lru_new_def default_warm_cache_def)
  from warm_scores_in_range [OF this] show ?thesis by blast
qed

subsection \<open>Identifiers\<close>

lemma digit_val_char: "d < 16 \<Longrightarrow> digit_val 16 (digit_char d) = Some d" "d < 10 \<Longrightarrow> digit_val 10 (digit_char d) = Some d"
  by (auto simp: digit_val_def digit_char_def Let_def)

lemma digit_char_plus: "d < 16 \<Longrightarrow> digit_char d \<noteq> CHR ''+''"
proof
  assume "d < 16" "digit_char d = CHR ''+''"
  then have "of_char (digit_char d) = (43 :: nat)" by simp
  with \<open>d < 16\<close> show False by (auto simp: digit_char_def split: if_splits)
qed

lemma from_be_Cons: "from_be (b # bs) = unat b * 256 ^ length bs + from_be bs"
proof (induction bs rule: rev_induct)
  case Nil
  then show ?case by (simp add: from_be_def)
next
  case (snoc x xs)
  have "from_be (b # xs @ [x]) = from_be (b # xs) * 256 + unat x" using from_be_snoc [of "b # xs" x] by simp
  then show ?case using snoc by (simp add: from_be_snoc algebra_simps)
qed

lemma parse_digits_hex:
  "acc * 256 ^ length bs + from_be bs \<le> hi \<Longrightarrow>
   parse_digits 16 hi acc (concat (map hex2 bs)) = Some (acc * 256 ^ length bs + from_be bs)"
proof (induction bs arbitrary: acc)
  case Nil
  then show ?case by (simp add: from_be_def)
next
  case (Cons b bs)
  let ?x = "unat b div 16" and ?y = "unat b mod 16"
  have b: "?x < 16" "?y < 16" using unsigned_less [where 'a = nat, of b] by auto
  have e: "(acc * 16 + ?x) * 16 + ?y = acc * 256 + unat b" by (simp add: algebra_simps)
  have le: "(acc * 256 + unat b) * 256 ^ length bs + from_be bs \<le> hi" using Cons.prems by (simp add: from_be_Cons algebra_simps)
  have "acc * 256 + unat b \<le> (acc * 256 + unat b) * 256 ^ length bs" by simp
  then have fits: "acc * 256 + unat b \<le> hi" using le by linarith
  then have "acc * 16 + ?x \<le> hi" using e by linarith
  then have "parse_digits 16 hi acc (concat (map hex2 (b # bs))) = parse_digits 16 hi (acc * 256 + unat b) (concat (map hex2 bs))"
    using fits by (simp add: hex2_def digit_val_char b e) (simp add: ac_simps)
  also have "\<dots> = Some ((acc * 256 + unat b) * 256 ^ length bs + from_be bs)" by (rule Cons.IH [OF le])
  finally show ?case by (simp only: from_be_Cons length_Cons power_Suc add_mult_distrib mult.assoc add.assoc)
qed

text \<open>The canonical 32-digit form of a correlation id.\<close>

definition cid_hex :: "correlation_id \<Rightarrow> string" where
  "cid_hex cid = concat (map hex2 (u128_be cid))"

lemma unat_u128_bound: "unat (w :: u128) \<le> u128_top"
  using unsigned_less [where 'a = nat, of w] by (simp add: u128_top_def)

lemma length_concat_hex2: "length (concat (map hex2 bs)) = 2 * length bs"
  by (induction bs) (simp_all add: hex2_def)

lemma from_be_u128: "from_be (u128_be cid) = unat cid"
  using from_be_bytes [of "unat cid" 16] unsigned_less [where 'a = nat, of cid] by (simp add: u128_be_def)

lemma parse_digits_append:
  "parse_digits r hi acc (xs @ ys) = (case parse_digits r hi acc xs of None \<Rightarrow> None | Some a \<Rightarrow> parse_digits r hi a ys)"
  by (induction xs arbitrary: acc) (auto split: option.split)

lemma parse_digits_dec: "n \<le> hi \<Longrightarrow> parse_digits 10 hi 0 (show_nat n) = Some n"
proof (induction n rule: show_nat.induct)
  case (1 n)
  show ?case
  proof (cases "n < 10")
    case True
    then show ?thesis using 1(2) by (subst show_nat.simps) (simp add: digit_val_char)
  next
    case False
    then have "parse_digits 10 hi 0 (show_nat (n div 10)) = Some (n div 10)" using 1 by simp
    then show ?thesis
      using False 1(2) by (subst show_nat.simps) (simp add: parse_digits_append digit_val_char)
  qed
qed

lemma show_nat_hd: "\<exists>d cs. show_nat n = digit_char d # cs \<and> d < 10"
proof (induction n rule: show_nat.induct)
  case (1 n)
  then show ?case by (cases "n < 10") (subst show_nat.simps, force)+
qed

lemma parse_unsigned_show: "n \<le> hi \<Longrightarrow> parse_unsigned 10 hi (show_nat n) = Some n"
  using show_nat_hd [of n] digit_char_plus parse_digits_dec [of n hi] by (auto simp: parse_unsigned_def)

lemma parse_unsigned_hex: "parse_unsigned 16 u128_top (cid_hex cid) = Some (unat cid)"
proof -
  have "length (u128_be cid) = 16" by (simp add: u128_be_def)
  then obtain b bs where bs: "u128_be cid = b # bs" by (cases "u128_be cid") auto
  have "unat b div 16 < 16" using unsigned_less [where 'a = nat, of b] by simp
  then have "\<exists>d cs. cid_hex cid = digit_char d # cs \<and> d < 16" by (auto simp: cid_hex_def bs hex2_def)
  then show ?thesis
    using parse_digits_hex [of 0 "u128_be cid" u128_top] unat_u128_bound [of cid] digit_char_plus
    by (auto simp: parse_unsigned_def cid_hex_def from_be_u128)
qed

text \<open>Identifiers survive the wire. The canonical 32-digit hexadecimal form of a correlation id parses
  back to it; so does its decimal form, unless that has exactly 32 digits; and the decimal form of a symbol id
  parses back to it.\<close>

theorem identifiers_roundtrip:
  "parse_correlation_id (cid_hex cid) = Some cid
   \<and> (length (show_nat (unat cid)) = 32 \<or> parse_correlation_id (show_nat (unat cid)) = Some cid)
   \<and> parse_symbol (show_nat (unat (sy :: symbol_id))) = Some sy"
proof -
  have "length (cid_hex cid) = 32" by (simp add: cid_hex_def length_concat_hex2)
  then have "parse_correlation_id (cid_hex cid) = Some cid" by (simp add: parse_correlation_id_def parse_unsigned_hex)
  moreover have "unat sy \<le> u32_top" using unsigned_less [where 'a = nat, of sy] by (simp add: u32_top_def)
  ultimately show ?thesis
    using parse_unsigned_show [OF unat_u128_bound, of cid] parse_unsigned_show [of "unat sy" u32_top]
    by (auto simp: parse_correlation_id_def parse_symbol_def)
qed


end
