(* ===== verification/Wire_Codec.thy ===== *)
theory Wire_Codec
  imports Hedge_Float Core_Types Risk_Engine
begin

text \<open>
  The little-endian payloads between the services of the Hot_Path: ticks (\<open>hedge-market-data/src/engine.rs\<close> writes
  them, \<open>hedge-features/src/bin/main.rs\<close> reads them), feature snapshots (\<open>hedge-features/src/engine.rs\<close> and
  \<open>hedge-signals/src/bin/main.rs\<close>) and signals (\<open>hedge-signals/src/engine.rs\<close>). An \<open>f32\<close> travels as its bit
  pattern; the two zeros, one value in the model of floats, have the pattern of the positive one. The
  locale \<open>wire_codec\<close> is the contract of a writer and a reader in two services.
\<close>

section \<open>Little-endian fields\<close>

definition u32_le :: "u32 \<Rightarrow> u8 list" where
  "u32_le w = rev (u32_be w)"

definition u64_le :: "u64 \<Rightarrow> u8 list" where
  "u64_le w = rev (u64_be w)"

definition i64_le :: "i64 \<Rightarrow> u8 list" where
  "i64_le x = rev (i64_be x)"

text \<open>\<open>f32::to_bits\<close>: the exponent field and the fraction are \<open>m + (e + 149) * 2\<^sup>2\<^sup>3\<close> for a magnitude \<open>m * 2\<^sup>e\<close>
  with \<open>m\<close> below \<open>2\<^sup>2\<^sup>4\<close>.\<close>

definition f32_to_bits :: "flt \<Rightarrow> u32" where
  "f32_to_bits x = (case x of
     NaN \<Rightarrow> 0x7FC00000 | PInf \<Rightarrow> 0x7F800000 | NInf \<Rightarrow> 0xFF800000
   | Fin q \<Rightarrow> if q = 0 then 0
             else let e = ulp_exp F32 q; m = nat \<lfloor>\<bar>q\<bar> / pow2 e\<rfloor>
                  in of_nat ((if q < 0 then 2147483648 else 0) + nat (e + 149) * 8388608 + m))"

definition f32_from_bits :: "u32 \<Rightarrow> flt" where
  "f32_from_bits b =
     (let n = unat b; r = n mod 2147483648; ex = r div 8388608; fr = r mod 8388608;
          s = (if n \<ge> 2147483648 then - 1 else 1)
      in if ex = 255 then (if fr = 0 then inf_of s else NaN)
         else if ex = 0 then Fin (s * of_nat fr * pow2 (- 149))
         else Fin (s * of_nat (fr + 8388608) * pow2 (int ex - 150)))"

definition f32_le :: "flt \<Rightarrow> u8 list" where
  "f32_le x = u32_le (f32_to_bits x)"

text \<open>\<open>bytes[offset..offset + n]\<close> and the \<open>from_le_bytes\<close> of each type.\<close>

definition slice :: "nat \<Rightarrow> nat \<Rightarrow> u8 list \<Rightarrow> u8 list" where
  "slice offset n bs = take n (drop offset bs)"

definition read_u32 :: "nat \<Rightarrow> u8 list \<Rightarrow> u32" where
  "read_u32 offset bs = of_nat (from_be (rev (slice offset 4 bs)))"

definition read_u64 :: "nat \<Rightarrow> u8 list \<Rightarrow> u64" where
  "read_u64 offset bs = of_nat (from_be (rev (slice offset 8 bs)))"

definition read_i64 :: "nat \<Rightarrow> u8 list \<Rightarrow> i64" where
  "read_i64 offset bs = wrap_i64 (int (from_be (rev (slice offset 8 bs))))"

definition read_f32 :: "nat \<Rightarrow> u8 list \<Rightarrow> flt" where
  "read_f32 offset bs = f32_from_bits (read_u32 offset bs)"

section \<open>Ticks\<close>

text \<open>\<open>exchange\<close> is an \<open>i8\<close>, kept as its bit pattern.\<close>

record tick =
  tk_correlation_id :: "u8 list"
  tk_symbol :: u32
  tk_exchange :: u8
  tk_ltp_paise :: i64
  tk_bid_paise :: i64
  tk_ask_paise :: i64
  tk_ltq :: u64
  tk_total_buy_qty :: u64
  tk_total_sell_qty :: u64
  tk_ts_exchange_ns :: u64
  tk_ts_recv_ns :: u64

definition TICK_WIRE_SIZE :: nat where
  "TICK_WIRE_SIZE = 16 + 4 + 1 + 8 * 8"

definition tick_to_raw_bytes :: "tick \<Rightarrow> u8 list" where
  "tick_to_raw_bytes t = tk_correlation_id t @ u32_le (tk_symbol t) @ [tk_exchange t] @ i64_le (tk_ltp_paise t)
     @ i64_le (tk_bid_paise t) @ i64_le (tk_ask_paise t) @ u64_le (tk_ltq t) @ u64_le (tk_total_buy_qty t)
     @ u64_le (tk_total_sell_qty t) @ u64_le (tk_ts_exchange_ns t) @ u64_le (tk_ts_recv_ns t)"

definition decode_tick :: "u8 list \<Rightarrow> tick option" where
  "decode_tick bs =
     (if length bs \<noteq> TICK_WIRE_SIZE then None
      else Some \<lparr>tk_correlation_id = slice 0 16 bs, tk_symbol = read_u32 16 bs, tk_exchange = bs ! 20,
        tk_ltp_paise = read_i64 21 bs, tk_bid_paise = read_i64 29 bs, tk_ask_paise = read_i64 37 bs,
        tk_ltq = read_u64 45 bs, tk_total_buy_qty = read_u64 53 bs, tk_total_sell_qty = read_u64 61 bs,
        tk_ts_exchange_ns = read_u64 69 bs, tk_ts_recv_ns = read_u64 77 bs\<rparr>)"

section \<open>Feature snapshots\<close>

record feature_snapshot =
  fn_correlation_id :: "u8 list"
  fn_symbol :: u32
  fn_price :: i64
  fn_vwap :: i64
  fn_atr :: i64
  fn_ema_fast :: i64
  fn_ema_slow :: i64
  fn_ema_trend :: i64
  fn_ema_slope :: flt
  fn_realized_vol :: flt
  fn_momentum :: flt
  fn_rsi :: flt
  fn_adx :: flt
  fn_donchian_upper :: i64
  fn_donchian_lower :: i64
  fn_rolling_delta :: i64
  fn_liquidity_imbalance :: flt
  fn_orderflow_strength :: flt
  fn_candle_structure :: u8
  fn_breakout_pressure :: flt
  fn_compression_zone :: flt
  fn_liquidity_sweep :: flt
  fn_ts_ns :: u64

definition FEATURE_WIRE_SIZE :: nat where
  "FEATURE_WIRE_SIZE = 141"

definition feature_encode :: "feature_snapshot \<Rightarrow> u8 list" where
  "feature_encode s = fn_correlation_id s @ u32_le (fn_symbol s) @ i64_le (fn_price s) @ i64_le (fn_vwap s)
     @ i64_le (fn_atr s) @ i64_le (fn_ema_fast s) @ i64_le (fn_ema_slow s) @ i64_le (fn_ema_trend s)
     @ f32_le (fn_ema_slope s) @ f32_le (fn_realized_vol s) @ f32_le (fn_momentum s) @ f32_le (fn_rsi s)
     @ f32_le (fn_adx s) @ i64_le (fn_donchian_upper s) @ i64_le (fn_donchian_lower s)
     @ i64_le (fn_rolling_delta s) @ f32_le (fn_liquidity_imbalance s) @ f32_le (fn_orderflow_strength s)
     @ [fn_candle_structure s] @ f32_le (fn_breakout_pressure s) @ f32_le (fn_compression_zone s)
     @ f32_le (fn_liquidity_sweep s) @ u64_le (fn_ts_ns s)"

definition decode_feature_snapshot :: "u8 list \<Rightarrow> feature_snapshot option" where
  "decode_feature_snapshot bs =
     (if length bs \<noteq> 141 then None
      else Some \<lparr>fn_correlation_id = slice 0 16 bs, fn_symbol = read_u32 16 bs, fn_price = read_i64 20 bs,
        fn_vwap = read_i64 28 bs, fn_atr = read_i64 36 bs, fn_ema_fast = read_i64 44 bs, fn_ema_slow = read_i64 52 bs,
        fn_ema_trend = read_i64 60 bs, fn_ema_slope = read_f32 68 bs, fn_realized_vol = read_f32 72 bs,
        fn_momentum = read_f32 76 bs, fn_rsi = read_f32 80 bs, fn_adx = read_f32 84 bs,
        fn_donchian_upper = read_i64 88 bs, fn_donchian_lower = read_i64 96 bs, fn_rolling_delta = read_i64 104 bs,
        fn_liquidity_imbalance = read_f32 112 bs, fn_orderflow_strength = read_f32 116 bs,
        fn_candle_structure = bs ! 120, fn_breakout_pressure = read_f32 121 bs, fn_compression_zone = read_f32 125 bs,
        fn_liquidity_sweep = read_f32 129 bs, fn_ts_ns = read_u64 133 bs\<rparr>)"

section \<open>Signals\<close>

definition SIGNAL_WIRE_SIZE :: nat where
  "SIGNAL_WIRE_SIZE = 16 + 1 + 4 + 1 + 4 + 4 + 8 + 8 + 8 + 4 + 8"

definition encode_signal :: "signal \<Rightarrow> u8 list" where
  "encode_signal s = sg_correlation_id s @ [sg_strategy s] @ u32_le (sg_symbol s) @ [sg_side s]
     @ f32_le (sg_base_probability s) @ f32_le (sg_confidence s) @ i64_le (stop_loss_paise (sg_risk_profile s))
     @ i64_le (take_profit_paise (sg_risk_profile s)) @ u64_le (max_size_qty (sg_risk_profile s))
     @ u32_le (time_horizon_seconds (sg_risk_profile s)) @ u64_le (sg_ts_ns s)"

section \<open>Lemmas\<close>

lemma length_le [simp]: "length (u32_le a) = 4" "length (u64_le b) = 8" "length (i64_le c) = 8" "length (f32_le x) = 4"
  by (simp_all add: u32_le_def u64_le_def i64_le_def f32_le_def)

lemma slice_append: "length a \<le> off \<Longrightarrow> slice off n (a @ b) = slice (off - length a) n b"
  by (simp add: slice_def)

lemma slice_prefix: "length a = n \<Longrightarrow> slice 0 n (a @ b) = a" "slice 0 (length a) a = a"
  by (simp_all add: slice_def)

lemma from_be_u32: "from_be (u32_be w) = unat w"
  using from_be_bytes [of "unat w" 4] unat_less_len [of w] by (simp add: u32_be_def)

lemma from_be_u64: "from_be (u64_be w) = unat w"
  using from_be_bytes [of "unat w" 8] unat_less_len [of w] by (simp add: u64_be_def)

lemma from_be_i64: "in_i64 x \<Longrightarrow> wrap_i64 (int (from_be (i64_be x))) = x"
proof -
  assume r: "in_i64 x"
  have "nat (x mod 18446744073709551616) < 256 ^ 8" by (simp add: nat_less_iff)
  then have "int (from_be (i64_be x)) = x mod 18446744073709551616" by (simp add: i64_be_def from_be_bytes)
  moreover have "wrap_i64 (x mod 18446744073709551616) = wrap_i64 x" by (simp add: wrap_i64_def mod_simps)
  ultimately show ?thesis using r by simp
qed

text \<open>Reading a field that starts the rest of the buffer.\<close>

lemma read_head:
  "read_u32 0 (u32_le a @ r) = a" "read_u64 0 (u64_le b @ r) = b" "in_i64 c \<Longrightarrow> read_i64 0 (i64_le c @ r) = c"
  "read_f32 0 (f32_le x @ r) = f32_from_bits (f32_to_bits x)"
  by (simp_all add: read_u32_def read_u64_def read_i64_def read_f32_def slice_prefix f32_le_def)
    (simp_all add: u32_le_def u64_le_def i64_le_def from_be_u32 from_be_u64 from_be_i64)

lemma read_last: "read_u64 0 (u64_le b) = b"
  using read_head(2) [of b "[]"] by simp

lemma read_skip:
  assumes "length a \<le> off"
  shows "read_u32 off (a @ r) = read_u32 (off - length a) r" "read_u64 off (a @ r) = read_u64 (off - length a) r"
    "read_i64 off (a @ r) = read_i64 (off - length a) r" "read_f32 off (a @ r) = read_f32 (off - length a) r"
  using assms by (simp_all add: read_u32_def read_u64_def read_i64_def read_f32_def slice_append)

lemma read_skip1:
  assumes "0 < off"
  shows "read_u32 off (b # r) = read_u32 (off - 1) r" "read_u64 off (b # r) = read_u64 (off - 1) r"
    "read_i64 off (b # r) = read_i64 (off - 1) r" "read_f32 off (b # r) = read_f32 (off - 1) r"
  using read_skip [of "[b]" off r] assms by simp_all

lemmas read_simps = read_head read_last read_skip read_skip1 slice_prefix nth_append

subsection \<open>The bit pattern of a float\<close>

lemma f32_from_bits_fields:
  assumes "fr < 8388608" "ex < 255"
  shows "f32_from_bits (of_nat ((if neg then 2147483648 else 0) + ex * 8388608 + fr)) =
    Fin ((if neg then - 1 else 1) * (if ex = 0 then of_nat fr * pow2 (- 149) else of_nat (fr + 8388608) * pow2 (int ex - 150)))"
proof -
  define n where "n = (if neg then 2147483648 else 0) + ex * 8388608 + fr"
  have r: "ex * 8388608 + fr < 2147483648" using assms by simp
  then have "n < 4294967296" by (simp add: n_def)
  then have n: "unat (of_nat n :: u32) = n" by (simp add: unat_of_nat)
  have m: "n mod 2147483648 = ex * 8388608 + fr" using r by (simp add: n_def add.assoc)
  have d: "(ex * 8388608 + fr) div 8388608 = ex" "(ex * 8388608 + fr) mod 8388608 = fr" using assms(1) by simp_all
  have s: "2147483648 \<le> n \<longleftrightarrow> neg" using r by (simp add: n_def)
  show ?thesis
    unfolding n_def [symmetric] f32_from_bits_def n m Let_def d s using assms(2) by (simp add: algebra_simps)
qed

lemma f32_significand:
  assumes "is_flt F32 (Fin q)" "q \<noteq> 0"
  obtains k :: nat and e :: int where "e = ulp_exp F32 q" "\<bar>q\<bar> = of_nat k * pow2 e" "k < 16777216" "- 149 \<le> e" "e \<le> 104"
    "k < 8388608 \<Longrightarrow> e = - 149"
proof -
  define e where "e = ulp_exp F32 q"
  define k where "k = nat \<bar>rne (q / pow2 e)\<bar>"
  have q: "rnd_rat F32 q = q" "\<bar>q\<bar> \<le> ftop F32" using assms(1) by (auto simp: is_flt_def dest: rnd_FinD)
  have "q = of_int (rne (q / pow2 e)) * pow2 e" using q(1) assms(2) by (simp add: rnd_rat_def Let_def e_def)
  then have "\<bar>q\<bar> = \<bar>of_int (rne (q / pow2 e))\<bar> * pow2 e" by (metis abs_mult abs_of_pos pow2_pos)
  then have k: "\<bar>q\<bar> = of_nat k * pow2 e" by (simp add: k_def)
  have pos: "0 < \<bar>q\<bar>" using assms(2) by simp
  note b = ilog2_bounds [OF pos]
  have e1: "- 149 \<le> e" "ilog2 \<bar>q\<bar> - 23 \<le> e" "e = - 149 \<or> e = ilog2 \<bar>q\<bar> - 23" by (auto simp: e_def ulp_exp_def)
  have "pow2 (ilog2 \<bar>q\<bar> + 1) \<le> pow2 (24 + e)" using e1(2) by (intro pow2_mono) simp
  then have "of_nat k * pow2 e < pow2 24 * pow2 e" using b(2) by (simp only: k pow2_add [symmetric])
  then have "of_nat k < (16777216 :: rat)" by simp
  then have k1: "k < 16777216" by simp
  have "\<bar>q\<bar> < pow2 128" using q(2) by simp
  then have "ilog2 \<bar>q\<bar> < 128" using ilog2_less [OF pos] by blast
  then have e2: "e \<le> 104" using e1(1,3) by linarith
  have "e = - 149" if "k < 8388608"
  proof (rule ccontr)
    assume "e \<noteq> - 149"
    then have "ilog2 \<bar>q\<bar> = 23 + e" using e1(3) by simp
    then have "pow2 23 * pow2 e \<le> of_nat k * pow2 e" using b(1) by (simp only: k pow2_add [symmetric])
    then have "(8388608 :: rat) \<le> of_nat k" by simp
    then show False using that by simp
  qed
  then show ?thesis using that [OF e_def k k1 e1(1) e2] by blast
qed

lemma f32_bits_roundtrip: "is_flt F32 x \<Longrightarrow> f32_from_bits (f32_to_bits x) = x"
proof (cases x)
  case (Fin q)
  assume f: "is_flt F32 x"
  show ?thesis
  proof (cases "q = 0")
    case True
    then show ?thesis using f32_from_bits_fields [of 0 0 False] by (simp add: f32_to_bits_def Fin)
  next
    case False
    obtain k e where ke: "e = ulp_exp F32 q" "\<bar>q\<bar> = of_nat k * pow2 e" "k < 16777216" "- 149 \<le> e" "e \<le> 104"
      "k < 8388608 \<Longrightarrow> e = - 149"
      using f32_significand [of q] f Fin False by metis
    have "\<bar>q\<bar> / pow2 e = of_nat k" using ke(2) by simp
    then have m: "nat \<lfloor>\<bar>q\<bar> / pow2 e\<rfloor> = k" by simp
    have bits: "f32_to_bits x = of_nat ((if q < 0 then 2147483648 else 0) + nat (e + 149) * 8388608 + k)"
      unfolding f32_to_bits_def Fin flt.case Let_def ke(1) [symmetric] m by (simp only: False if_False)
    have q: "q = (if q < 0 then - 1 else 1) * (of_nat k * pow2 e)" unfolding ke(2) [symmetric] by simp
    show ?thesis
    proof (cases "k < 8388608")
      case True
      then have z: "nat (e + 149) = 0" "e = - 149" using ke(6) by simp_all
      have "f32_from_bits (f32_to_bits x) = Fin ((if q < 0 then - 1 else 1) * (of_nat k * pow2 e))"
        using f32_from_bits_fields [OF True zero_less_numeral, of "q < 0"] unfolding bits z(1) unfolding z(2)
        by (simp only: refl if_True)
      then show ?thesis using q Fin by (simp only:)
    next
      case big: False
      define f where "f = k - 8388608"
      have k: "k = f + 8388608" "f < 8388608" using big ke(3) by (simp_all add: f_def)
      have ex: "int (nat (e + 149) + 1) - 150 = e" "nat (e + 149) + 1 < 255" using ke(4,5) by auto
      have "(if q < 0 then 2147483648 else 0) + nat (e + 149) * 8388608 + k
          = (if q < 0 then 2147483648 else 0) + (nat (e + 149) + 1) * 8388608 + f" by (simp add: k(1))
      then have "f32_to_bits x = of_nat ((if q < 0 then 2147483648 else 0) + (nat (e + 149) + 1) * 8388608 + f)"
        unfolding bits by (simp only:)
      then have "f32_from_bits (f32_to_bits x) = Fin ((if q < 0 then - 1 else 1) * (of_nat k * pow2 e))"
        using f32_from_bits_fields [OF k(2) ex(2), of "q < 0"] ex(1) by (simp only: k(1)) simp
      then show ?thesis using q Fin by (simp only:)
    qed
  qed
qed (simp_all add: f32_to_bits_def f32_from_bits_def inf_of_def)

section \<open>Round trips\<close>

locale wire_codec =
  fixes enc :: "'a \<Rightarrow> u8 list" and dec :: "u8 list \<Rightarrow> 'a option" and wire_ok :: "'a \<Rightarrow> bool" and size_of :: nat
  assumes dec_enc: "wire_ok x \<Longrightarrow> dec (enc x) = Some x"
    and enc_size: "wire_ok x \<Longrightarrow> length (enc x) = size_of"
    and dec_size: "length bs \<noteq> size_of \<Longrightarrow> dec bs = None"
begin

lemma enc_inj: "wire_ok x \<Longrightarrow> wire_ok y \<Longrightarrow> enc x = enc y \<Longrightarrow> x = y"
  using dec_enc by (metis option.inject)

text \<open>A consumer that drops what does not decode receives exactly what was written, in order.\<close>

lemma stream_delivered: "\<forall>x \<in> set xs. wire_ok x \<Longrightarrow> List.map_filter dec (map enc xs) = xs"
  by (induction xs) (simp_all add: List.map_filter_simps dec_enc)

lemma truncated_dropped: "wire_ok x \<Longrightarrow> n < size_of \<Longrightarrow> dec (take n (enc x)) = None"
  by (intro dec_size) (simp add: enc_size)

end

definition tick_ok :: "tick \<Rightarrow> bool" where
  "tick_ok t \<longleftrightarrow> length (tk_correlation_id t) = 16 \<and> in_i64 (tk_ltp_paise t) \<and> in_i64 (tk_bid_paise t) \<and> in_i64 (tk_ask_paise t)"

definition feature_ok :: "feature_snapshot \<Rightarrow> bool" where
  "feature_ok s \<longleftrightarrow> length (fn_correlation_id s) = 16
     \<and> list_all in_i64 [fn_price s, fn_vwap s, fn_atr s, fn_ema_fast s, fn_ema_slow s, fn_ema_trend s,
         fn_donchian_upper s, fn_donchian_lower s, fn_rolling_delta s]
     \<and> list_all (is_flt F32) [fn_ema_slope s, fn_realized_vol s, fn_momentum s, fn_rsi s, fn_adx s,
         fn_liquidity_imbalance s, fn_orderflow_strength s, fn_breakout_pressure s, fn_compression_zone s, fn_liquidity_sweep s]"

interpretation tick_wire: wire_codec tick_to_raw_bytes decode_tick tick_ok TICK_WIRE_SIZE
  by unfold_locales
    (simp_all add: decode_tick_def tick_to_raw_bytes_def TICK_WIRE_SIZE_def tick_ok_def read_simps)

interpretation feature_wire: wire_codec feature_encode decode_feature_snapshot feature_ok FEATURE_WIRE_SIZE
  by unfold_locales
    (simp_all add: decode_feature_snapshot_def feature_encode_def FEATURE_WIRE_SIZE_def feature_ok_def read_simps f32_bits_roundtrip)

text \<open>C35: The services agree on the wire. A stream of ticks written by the market-data service is read back tick for
  tick by the feature service, a stream of feature snapshots by the signal service, every payload has the
  fixed length of its type, and a payload of any other length is dropped.\<close>

theorem hot_path_wire_roundtrip:
  assumes "\<forall>t \<in> set ts. tick_ok t" and "\<forall>s \<in> set ss. feature_ok s"
  shows "List.map_filter decode_tick (map tick_to_raw_bytes ts) = ts
    \<and> List.map_filter decode_feature_snapshot (map feature_encode ss) = ss
    \<and> (\<forall>p \<in> set (map tick_to_raw_bytes ts). length p = 85) \<and> (\<forall>p \<in> set (map feature_encode ss). length p = 141)
    \<and> (\<forall>bs. length bs \<noteq> 85 \<longrightarrow> decode_tick bs = None) \<and> (\<forall>bs. length bs \<noteq> 141 \<longrightarrow> decode_feature_snapshot bs = None)"
  using assms tick_wire.stream_delivered [OF assms(1)] feature_wire.stream_delivered [OF assms(2)]
    tick_wire.enc_size tick_wire.dec_size feature_wire.enc_size feature_wire.dec_size
  by (simp add: TICK_WIRE_SIZE_def FEATURE_WIRE_SIZE_def)

definition sample_tick :: tick where
  "sample_tick = \<lparr>tk_correlation_id = replicate 16 7, tk_symbol = 7, tk_exchange = 255, tk_ltp_paise = 10050,
     tk_bid_paise = - 1, tk_ask_paise = 10100, tk_ltq = 5, tk_total_buy_qty = 100, tk_total_sell_qty = 80,
     tk_ts_exchange_ns = 123, tk_ts_recv_ns = 456\<rparr>"

definition sample_features :: feature_snapshot where
  "sample_features = \<lparr>fn_correlation_id = replicate 16 7, fn_symbol = 7, fn_price = 10000, fn_vwap = 10000, fn_atr = 50,
     fn_ema_fast = 10005, fn_ema_slow = 9995, fn_ema_trend = 9900, fn_ema_slope = PInf, fn_realized_vol = Fin 0,
     fn_momentum = Fin 0, fn_rsi = NaN, fn_adx = Fin 0, fn_donchian_upper = 10100, fn_donchian_lower = - 9900,
     fn_rolling_delta = 5, fn_liquidity_imbalance = NInf, fn_orderflow_strength = Fin 0, fn_candle_structure = 1,
     fn_breakout_pressure = Fin 0, fn_compression_zone = Fin 0, fn_liquidity_sweep = Fin 0, fn_ts_ns = 12345\<rparr>"

theorem hot_path_wire_roundtrip_witness:
  "List.map_filter decode_tick [tick_to_raw_bytes sample_tick] = [sample_tick]
   \<and> List.map_filter decode_feature_snapshot [feature_encode sample_features] = [sample_features]"
proof -
  have "is_flt F32 (Fin 0)" by (simp add: is_flt_def rnd_def)
  then have "\<forall>s \<in> set [sample_features]. feature_ok s"
    by (simp add: feature_ok_def sample_features_def in_i64_def i64_max_def i64_min_def is_flt_def)
  moreover have "\<forall>t \<in> set [sample_tick]. tick_ok t"
    by (simp add: tick_ok_def sample_tick_def in_i64_def i64_max_def i64_min_def)
  ultimately show ?thesis using hot_path_wire_roundtrip [of "[sample_tick]" "[sample_features]"] by simp
qed

end
