(* ===== verification/Features.thy ===== *)
theory Features
  imports Wire_Codec Ring_Window Message_Bus
begin

text \<open>
  The Feature_Extraction_Engine (\<open>hedge-features/src\<close>): the per-symbol state (\<open>state.rs\<close>), the incremental
  indicators (\<open>incremental\<close>), the fold of a tick into the state and the engine that owns the states
  (\<open>engine.rs\<close>), and the runtime war-mode profile (\<open>war_mode.rs\<close>). \<open>f64::ln\<close> and \<open>f64::sqrt\<close> are the platform's:
  they are the parameter \<open>libm\<close>. A per-symbol cell is locked for a whole operation, so an operation is one step.
\<close>

section \<open>State (state.rs)\<close>

definition ATR_WINDOW :: nat where "ATR_WINDOW = 14"
definition EMA_FAST_PERIOD :: nat where "EMA_FAST_PERIOD = 9"
definition EMA_SLOW_PERIOD :: nat where "EMA_SLOW_PERIOD = 21"
definition EMA_TREND_PERIOD :: nat where "EMA_TREND_PERIOD = 5000"
definition RSI_WINDOW :: nat where "RSI_WINDOW = 1400"
definition ADX_WINDOW :: nat where "ADX_WINDOW = 1400"
definition DONCHIAN_WINDOW :: nat where "DONCHIAN_WINDOW = 2000"
definition EMA_SLOPE_LOOKBACK :: nat where "EMA_SLOPE_LOOKBACK = 5"
definition MOMENTUM_WINDOW :: nat where "MOMENTUM_WINDOW = 10"
definition VOLATILITY_WINDOW :: nat where "VOLATILITY_WINDOW = 30"
definition COMPRESSION_WINDOW :: nat where "COMPRESSION_WINDOW = 20"
definition SWEEP_LOOKAHEAD :: nat where "SWEEP_LOOKAHEAD = 3"
definition ROLLING_DELTA_WINDOW_NS :: u64 where "ROLLING_DELTA_WINDOW_NS = 30 * 1000000000"
definition ROLLING_DELTA_CAPACITY :: nat where "ROLLING_DELTA_CAPACITY = 256"

record delta_sample =
  ds_ts_ns :: u64
  ds_signed_qty :: i64

record last_book =
  lb_bid_paise :: i64
  lb_ask_paise :: i64
  lb_total_buy_qty :: u64
  lb_total_sell_qty :: u64

record feature_state =
  fs_tick_count :: u64
  fs_last_ltp_paise :: i64
  fs_prev_ltp_paise :: i64
  fs_last_ts_ns :: u64
  fs_vwap_num :: i128
  fs_vwap_den :: u128
  fs_tr_window :: "i64 ring_window"
  fs_prev_close_paise :: i64
  fs_bar_high_paise :: i64
  fs_bar_low_paise :: i64
  fs_ema_fast_paise :: i64
  fs_ema_slow_paise :: i64
  fs_ema_trend_paise :: i64
  fs_ema_fast_acc :: flt
  fs_ema_slow_acc :: flt
  fs_ema_trend_acc :: flt
  fs_ema_fast_seeded :: bool
  fs_ema_slow_seeded :: bool
  fs_ema_trend_seeded :: bool
  fs_ema_fast_history :: "i64 ring_window"
  fs_rsi_avg_gain :: flt
  fs_rsi_avg_loss :: flt
  fs_rsi_value :: flt
  fs_adx_smoothed_tr :: flt
  fs_adx_smoothed_pdm :: flt
  fs_adx_smoothed_ndm :: flt
  fs_adx_smoothed_dx :: flt
  fs_adx_value :: flt
  fs_donchian_prices :: "i64 ring_window"
  fs_momentum_prices :: "i64 ring_window"
  fs_log_returns :: "flt ring_window"
  fs_delta_samples :: "delta_sample ring_window"
  fs_rolling_delta_cached :: i64
  fs_compression_prices :: "i64 ring_window"
  fs_session_high_paise :: i64
  fs_session_low_paise :: i64
  fs_last_high_break_idx :: "u64 option"
  fs_last_low_break_idx :: "u64 option"
  fs_last_high_break_paise :: i64
  fs_last_low_break_paise :: i64
  fs_sweep_signal :: flt
  fs_last_book :: last_book
  fs_liquidity_imbalance_cached :: flt
  fs_orderflow_strength_cached :: flt

definition fresh_window :: "nat \<Rightarrow> 'a \<Rightarrow> 'a ring_window" where
  "fresh_window n d = the (rw_new n d)"

definition feature_state_default :: feature_state where
  "feature_state_default = \<lparr>fs_tick_count = 0, fs_last_ltp_paise = 0, fs_prev_ltp_paise = 0, fs_last_ts_ns = 0,
     fs_vwap_num = 0, fs_vwap_den = 0, fs_tr_window = fresh_window ATR_WINDOW 0, fs_prev_close_paise = 0,
     fs_bar_high_paise = 0, fs_bar_low_paise = 0, fs_ema_fast_paise = 0, fs_ema_slow_paise = 0, fs_ema_trend_paise = 0,
     fs_ema_fast_acc = Fin 0, fs_ema_slow_acc = Fin 0, fs_ema_trend_acc = Fin 0, fs_ema_fast_seeded = False,
     fs_ema_slow_seeded = False, fs_ema_trend_seeded = False, fs_ema_fast_history = fresh_window EMA_SLOPE_LOOKBACK 0,
     fs_rsi_avg_gain = Fin 0, fs_rsi_avg_loss = Fin 0, fs_rsi_value = Fin 0, fs_adx_smoothed_tr = Fin 0,
     fs_adx_smoothed_pdm = Fin 0, fs_adx_smoothed_ndm = Fin 0, fs_adx_smoothed_dx = Fin 0, fs_adx_value = Fin 0,
     fs_donchian_prices = fresh_window DONCHIAN_WINDOW 0, fs_momentum_prices = fresh_window MOMENTUM_WINDOW 0,
     fs_log_returns = fresh_window VOLATILITY_WINDOW (Fin 0),
     fs_delta_samples = fresh_window ROLLING_DELTA_CAPACITY \<lparr>ds_ts_ns = 0, ds_signed_qty = 0\<rparr>,
     fs_rolling_delta_cached = 0, fs_compression_prices = fresh_window COMPRESSION_WINDOW 0,
     fs_session_high_paise = 0, fs_session_low_paise = 0, fs_last_high_break_idx = None, fs_last_low_break_idx = None,
     fs_last_high_break_paise = 0, fs_last_low_break_paise = 0, fs_sweep_signal = Fin 0,
     fs_last_book = \<lparr>lb_bid_paise = 0, lb_ask_paise = 0, lb_total_buy_qty = 0, lb_total_sell_qty = 0\<rparr>,
     fs_liquidity_imbalance_cached = Fin 0, fs_orderflow_strength_cached = Fin 0\<rparr>"

definition clear_session :: "feature_state \<Rightarrow> feature_state" where
  "clear_session st = feature_state_default"

section \<open>Indicators (incremental)\<close>

text \<open>\<open>as f64\<close> of a signed or unsigned integer, and the two-operand operations on \<open>f64\<close>.\<close>

abbreviation f64_of :: "int \<Rightarrow> flt" where
  "f64_of n \<equiv> flt_of_int F64 n"

definition i64_abs_diff :: "i64 \<Rightarrow> i64 \<Rightarrow> i64" where
  "i64_abs_diff a b = wrap_i64 \<bar>wrap_i64 (a - b)\<bar>"

record libm =
  lm_ln :: "flt \<Rightarrow> flt"
  lm_sqrt :: "flt \<Rightarrow> flt"

subsection \<open>rolling_delta.rs\<close>

definition sign_volume :: "feature_state \<Rightarrow> tick \<Rightarrow> i64" where
  "sign_volume st t =
     (let mag = uint (min (tk_ltq t) 9223372036854775807);
          book_imbalance = (uint (tk_total_buy_qty t) - uint (lb_total_buy_qty (fs_last_book st)))
             - (uint (tk_total_sell_qty t) - uint (lb_total_sell_qty (fs_last_book st)))
      in if mag = 0 then 0
         else if book_imbalance > 0 then mag
         else if book_imbalance < 0 then - mag
         else if fs_last_ltp_paise st \<noteq> 0 \<and> tk_ltp_paise t > fs_last_ltp_paise st then mag
         else if fs_last_ltp_paise st \<noteq> 0 \<and> tk_ltp_paise t < fs_last_ltp_paise st then - mag
         else 0)"

definition windowed_sum :: "u64 \<Rightarrow> delta_sample list \<Rightarrow> i64" where
  "windowed_sum cutoff samples =
     foldl (\<lambda>sum s. if ds_ts_ns s \<ge> cutoff then sat_i64 (sum + ds_signed_qty s) else sum) 0 samples"

definition rolling_delta_update :: "tick \<Rightarrow> feature_state \<Rightarrow> feature_state" where
  "rolling_delta_update t st =
     (let w = rw_push \<lparr>ds_ts_ns = tk_ts_recv_ns t, ds_signed_qty = sign_volume st t\<rparr> (fs_delta_samples st);
          cutoff = usat_sub (tk_ts_recv_ns t) ROLLING_DELTA_WINDOW_NS
      in st\<lparr>fs_delta_samples := w, fs_rolling_delta_cached := windowed_sum cutoff (rw_iter w)\<rparr>)"

subsection \<open>liquidity.rs\<close>

definition liquidity_update :: "tick \<Rightarrow> feature_state \<Rightarrow> feature_state" where
  "liquidity_update t st =
     (let buy = f64_of (uint (tk_total_buy_qty t)); sell = f64_of (uint (tk_total_sell_qty t));
          denom = flt_max (fadd F64 buy sell) (Fin 1);
          raw = fdiv F64 (fsub F64 buy sell) denom
      in st\<lparr>fs_last_book := \<lparr>lb_bid_paise = tk_bid_paise t, lb_ask_paise = tk_ask_paise t,
                 lb_total_buy_qty = tk_total_buy_qty t, lb_total_sell_qty = tk_total_sell_qty t\<rparr>,
            fs_liquidity_imbalance_cached := f64_to_f32 (flt_clamp raw (Fin (- 1)) (Fin 1))\<rparr>)"

definition update_orderflow :: "flt \<Rightarrow> feature_state \<Rightarrow> feature_state" where
  "update_orderflow v st = st\<lparr>fs_orderflow_strength_cached := flt_clamp v (Fin (- 1)) (Fin 1)\<rparr>"

subsection \<open>vwap.rs\<close>

text \<open>The denominator saturates below \<open>2\<^sup>1\<^sup>2\<^sup>8\<close>, so the division never meets the overflowing pair \<open>i128::MIN / -1\<close>
  before \<open>2\<^sup>6\<^sup>4\<close> ticks.\<close>

definition vwap_update :: "tick \<Rightarrow> feature_state \<Rightarrow> feature_state" where
  "vwap_update t st =
     (if tk_ltq t = 0 then st
      else st\<lparr>fs_vwap_num := sat_i128 (fs_vwap_num st + tk_ltp_paise t * uint (tk_ltq t)),
              fs_vwap_den := usat_add (fs_vwap_den st) (ucast (tk_ltq t))\<rparr>)"

definition vwap_compute :: "feature_state \<Rightarrow> i64" where
  "vwap_compute st =
     (if fs_vwap_den st = 0 then 0
      else let v = fs_vwap_num st sdiv wrap_i128 (uint (fs_vwap_den st))
           in if v > i64_max then i64_max else if v < i64_min then i64_min else v)"

subsection \<open>atr.rs\<close>

definition atr_update :: "tick \<Rightarrow> feature_state \<Rightarrow> feature_state" where
  "atr_update t st =
     (let high = tk_ltp_paise t; low = tk_ltp_paise t;
          prev_close = (if fs_tick_count st = 0 then tk_ltp_paise t else fs_prev_close_paise st);
          tr = max (max (i64_abs_diff high low) (i64_abs_diff high prev_close)) (i64_abs_diff low prev_close)
      in st\<lparr>fs_tr_window := rw_push tr (fs_tr_window st), fs_prev_close_paise := tk_ltp_paise t,
            fs_bar_high_paise := high, fs_bar_low_paise := low\<rparr>)"

definition atr_compute :: "feature_state \<Rightarrow> i64" where
  "atr_compute st =
     (if rw_is_empty (fs_tr_window st) then 0
      else wrap_i64 (foldl (+) 0 (rw_iter (fs_tr_window st)) sdiv int (rw_len (fs_tr_window st))))"

subsection \<open>ema.rs\<close>

definition ALPHA_FAST :: flt where
  "ALPHA_FAST = fdiv F64 (Fin 2) (fadd F64 (f64_of (int EMA_FAST_PERIOD)) (Fin 1))"

definition ALPHA_SLOW :: flt where
  "ALPHA_SLOW = fdiv F64 (Fin 2) (fadd F64 (f64_of (int EMA_SLOW_PERIOD)) (Fin 1))"

definition ALPHA_TREND :: flt where
  "ALPHA_TREND = fdiv F64 (Fin 2) (fadd F64 (f64_of (int EMA_TREND_PERIOD)) (Fin 1))"

text \<open>One smoothing step, the same for the three averages: seeded flag, accumulator, rounded value.\<close>

definition ema_step :: "flt \<Rightarrow> i64 \<Rightarrow> bool \<Rightarrow> flt \<Rightarrow> flt \<times> i64" where
  "ema_step alpha ltp seeded prev =
     (if seeded
      then let acc = fadd F64 prev (fmul F64 alpha (fsub F64 (f64_of ltp) prev)) in (acc, flt_to_i64 (flt_round acc))
      else (f64_of ltp, ltp))"

definition ema_update :: "tick \<Rightarrow> feature_state \<Rightarrow> feature_state" where
  "ema_update t st =
     (let (fa, fp) = ema_step ALPHA_FAST (tk_ltp_paise t) (fs_ema_fast_seeded st) (fs_ema_fast_acc st);
          (sa, sp) = ema_step ALPHA_SLOW (tk_ltp_paise t) (fs_ema_slow_seeded st) (fs_ema_slow_acc st);
          (ta, tp) = ema_step ALPHA_TREND (tk_ltp_paise t) (fs_ema_trend_seeded st) (fs_ema_trend_acc st)
      in st\<lparr>fs_ema_fast_acc := fa, fs_ema_fast_paise := fp, fs_ema_fast_seeded := True,
            fs_ema_slow_acc := sa, fs_ema_slow_paise := sp, fs_ema_slow_seeded := True,
            fs_ema_trend_acc := ta, fs_ema_trend_paise := tp, fs_ema_trend_seeded := True,
            fs_ema_fast_history := rw_push fp (fs_ema_fast_history st)\<rparr>)"

definition ema_compute_fast :: "feature_state \<Rightarrow> i64" where
  "ema_compute_fast st = (if fs_ema_fast_seeded st then fs_ema_fast_paise st else 0)"

definition ema_compute_slow :: "feature_state \<Rightarrow> i64" where
  "ema_compute_slow st = (if fs_ema_slow_seeded st then fs_ema_slow_paise st else 0)"

definition ema_compute_trend :: "feature_state \<Rightarrow> i64" where
  "ema_compute_trend st = (if fs_ema_trend_seeded st then fs_ema_trend_paise st else 0)"

definition ema_compute_slope :: "feature_state \<Rightarrow> flt" where
  "ema_compute_slope st =
     (if rw_len (fs_ema_fast_history st) < EMA_SLOPE_LOOKBACK then Fin 0
      else case rw_iter_recent EMA_SLOPE_LOOKBACK (fs_ema_fast_history st) of
          [] \<Rightarrow> Fin 0
        | oldest # _ \<Rightarrow> f64_to_f32 (fdiv F64 (f64_of (wrap_i64 (fs_ema_fast_paise st - oldest)))
                           (f64_of (int (max (EMA_SLOPE_LOOKBACK - 1) 1)))))"

subsection \<open>volatility.rs\<close>

definition volatility_update :: "libm \<Rightarrow> tick \<Rightarrow> feature_state \<Rightarrow> feature_state" where
  "volatility_update lm t st =
     (if fs_last_ltp_paise st > 0 \<and> tk_ltp_paise t > 0
      then st\<lparr>fs_log_returns := rw_push (fsub F64 (lm_ln lm (f64_of (tk_ltp_paise t))) (lm_ln lm (f64_of (fs_last_ltp_paise st))))
                (fs_log_returns st)\<rparr>
      else st)"

definition volatility_compute :: "libm \<Rightarrow> feature_state \<Rightarrow> flt" where
  "volatility_compute lm st =
     (let n = rw_len (fs_log_returns st); vs = rw_iter (fs_log_returns st)
      in if n < 2 then Fin 0
         else let mean = fdiv F64 (foldl (fadd F64) (Fin 0) vs) (f64_of (int n));
                  var = foldl (\<lambda>a v. let d = fsub F64 v mean in fadd F64 a (fmul F64 d d)) (Fin 0) vs;
                  variance = fdiv F64 var (fsub F64 (f64_of (int n)) (Fin 1))
              in f64_to_f32 (lm_sqrt lm variance))"

subsection \<open>momentum.rs\<close>

definition momentum_update :: "tick \<Rightarrow> feature_state \<Rightarrow> feature_state" where
  "momentum_update t st = st\<lparr>fs_momentum_prices := rw_push (tk_ltp_paise t) (fs_momentum_prices st)\<rparr>"

definition momentum_compute :: "feature_state \<Rightarrow> flt" where
  "momentum_compute st =
     (if rw_len (fs_momentum_prices st) < 2 then Fin 0
      else case rw_oldest (fs_momentum_prices st) of
          None \<Rightarrow> Fin 0
        | Some oldest \<Rightarrow> if oldest = 0 then Fin 0
            else case rw_latest (fs_momentum_prices st) of
                None \<Rightarrow> Fin 0
              | Some newest \<Rightarrow> f64_to_f32 (fdiv F64 (fsub F64 (f64_of newest) (f64_of oldest)) (f64_of oldest)))"

subsection \<open>candle.rs\<close>

datatype candle_structure = Doji | Marubozu | Hammer | InvertedHammer | LongUpperShadow | LongLowerShadow

fun candle_as_u8 :: "candle_structure \<Rightarrow> u8" where
  "candle_as_u8 Doji = 0"
| "candle_as_u8 Marubozu = 1"
| "candle_as_u8 Hammer = 2"
| "candle_as_u8 InvertedHammer = 3"
| "candle_as_u8 LongUpperShadow = 4"
| "candle_as_u8 LongLowerShadow = 5"

definition candle_from_u8 :: "u8 \<Rightarrow> candle_structure option" where
  "candle_from_u8 b =
     (if b = 0 then Some Doji else if b = 1 then Some Marubozu else if b = 2 then Some Hammer
      else if b = 3 then Some InvertedHammer else if b = 4 then Some LongUpperShadow
      else if b = 5 then Some LongLowerShadow else None)"

definition candle_update :: "tick \<Rightarrow> feature_state \<Rightarrow> feature_state" where
  "candle_update t st =
     (let ltp = tk_ltp_paise t
      in st\<lparr>fs_compression_prices := rw_push ltp (fs_compression_prices st),
            fs_session_high_paise := (if fs_session_high_paise st = 0 \<or> ltp > fs_session_high_paise st then ltp
               else fs_session_high_paise st),
            fs_session_low_paise := (if fs_session_low_paise st = 0 \<or> ltp < fs_session_low_paise st then ltp
               else fs_session_low_paise st)\<rparr>)"

definition candle_classify :: "feature_state \<Rightarrow> candle_structure" where
  "candle_classify st =
     (let close = fs_last_ltp_paise st; open_px = fs_prev_ltp_paise st
      in if close = 0 \<or> open_px = 0 then Doji
         else let high = max open_px close; low = min open_px close;
                  body = i64_abs_diff close open_px; range_px = max (wrap_i64 (high - low)) 1;
                  body_ratio = fdiv F64 (f64_of body) (f64_of range_px)
              in if body = 0 then Doji
                 else if flt_lt (rnd F64 (95 / 100)) body_ratio then Marubozu
                 else let upper_wick = f64_of (wrap_i64 (high - max close open_px));
                          lower_wick = f64_of (wrap_i64 (min close open_px - low));
                          body_f = f64_of body
                      in if flt_lt (fmul F64 (Fin 2) body_f) lower_wick \<and> flt_lt upper_wick body_f then Hammer
                         else if flt_lt (fmul F64 (Fin 2) body_f) upper_wick \<and> flt_lt lower_wick body_f then InvertedHammer
                         else if flt_lt (fmul F64 lower_wick (Fin (3 / 2))) upper_wick then LongUpperShadow
                         else if flt_lt (fmul F64 upper_wick (Fin (3 / 2))) lower_wick then LongLowerShadow
                         else Doji)"

subsection \<open>sweep.rs\<close>

text \<open>A break tracker after the reversal check: whether the reversal fired, and the remembered index.\<close>

definition sweep_side :: "u64 \<Rightarrow> u64 option \<Rightarrow> bool \<Rightarrow> bool \<times> u64 option" where
  "sweep_side idx brk reverted =
     (case brk of
        None \<Rightarrow> (False, None)
      | Some b \<Rightarrow> let elapsed = usat_sub idx b
                  in if elapsed > 0 \<and> elapsed \<le> of_nat SWEEP_LOOKAHEAD \<and> reverted then (True, brk)
                     else if elapsed > of_nat SWEEP_LOOKAHEAD then (False, None) else (False, brk))"

definition sweep_update :: "tick \<Rightarrow> feature_state \<Rightarrow> feature_state" where
  "sweep_update t st =
     (let idx = fs_tick_count st; px = tk_ltp_paise t;
          st = (if fs_session_high_paise st > 0 \<and> px \<ge> fs_session_high_paise st \<and> px > fs_last_high_break_paise st
                then st\<lparr>fs_last_high_break_idx := Some idx, fs_last_high_break_paise := px\<rparr> else st);
          st = (if fs_session_low_paise st > 0 \<and> px \<le> fs_session_low_paise st
                   \<and> (fs_last_low_break_paise st = 0 \<or> px < fs_last_low_break_paise st)
                then st\<lparr>fs_last_low_break_idx := Some idx, fs_last_low_break_paise := px\<rparr> else st);
          (high_reversal, hi) = sweep_side idx (fs_last_high_break_idx st) (px < fs_last_high_break_paise st);
          (low_reversal, lo) = sweep_side idx (fs_last_low_break_idx st) (px > fs_last_low_break_paise st)
      in st\<lparr>fs_last_high_break_idx := hi, fs_last_low_break_idx := lo,
            fs_sweep_signal := (if low_reversal then Fin 1 else if high_reversal then Fin (- 1) else Fin 0)\<rparr>)"

subsection \<open>rsi.rs\<close>

definition rsi_smooth :: "u64 \<Rightarrow> flt \<Rightarrow> flt \<Rightarrow> flt" where
  "rsi_smooth tick_count avg cur =
     (let n = (if tick_count < of_nat RSI_WINDOW then f64_of (uint tick_count) else f64_of (int RSI_WINDOW))
      in fdiv F64 (fadd F64 (fmul F64 avg (fsub F64 n (Fin 1))) cur) n)"

definition rsi_update :: "tick \<Rightarrow> feature_state \<Rightarrow> feature_state" where
  "rsi_update t st =
     (if fs_tick_count st = 0 then st\<lparr>fs_rsi_value := Fin 0\<rparr>
      else let change = fsub F64 (f64_of (tk_ltp_paise t)) (f64_of (fs_prev_ltp_paise st));
               current_gain = (if flt_lt (Fin 0) change then change else Fin 0);
               current_loss = (if flt_lt (Fin 0) change then Fin 0 else flt_abs change);
               gain = rsi_smooth (fs_tick_count st) (fs_rsi_avg_gain st) current_gain;
               loss = rsi_smooth (fs_tick_count st) (fs_rsi_avg_loss st) current_loss;
               value = (if loss = Fin 0 then Fin 100
                        else let rs = fdiv F64 gain loss
                             in f64_to_f32 (fsub F64 (Fin 100) (fdiv F64 (Fin 100) (fadd F64 (Fin 1) rs))))
           in st\<lparr>fs_rsi_avg_gain := gain, fs_rsi_avg_loss := loss, fs_rsi_value := value\<rparr>)"

subsection \<open>donchian.rs\<close>

definition donchian_update :: "tick \<Rightarrow> feature_state \<Rightarrow> feature_state" where
  "donchian_update t st = st\<lparr>fs_donchian_prices := rw_push (tk_ltp_paise t) (fs_donchian_prices st)\<rparr>"

definition donchian_upper :: "feature_state \<Rightarrow> i64" where
  "donchian_upper st =
     (if rw_is_empty (fs_donchian_prices st) then 0
      else foldl (\<lambda>m p. if p > m then p else m) i64_min (rw_iter (fs_donchian_prices st)))"

definition donchian_lower :: "feature_state \<Rightarrow> i64" where
  "donchian_lower st =
     (if rw_is_empty (fs_donchian_prices st) then 0
      else foldl (\<lambda>m p. if p < m then p else m) i64_max (rw_iter (fs_donchian_prices st)))"

subsection \<open>adx.rs\<close>

definition wilder :: "flt \<Rightarrow> flt \<Rightarrow> flt" where
  "wilder avg cur = fadd F64 (fsub F64 avg (fdiv F64 avg (f64_of (int ADX_WINDOW)))) cur"

definition adx_smoothed :: "feature_state \<Rightarrow> feature_state" where
  "adx_smoothed st =
     (let window = f64_of (int ADX_WINDOW); trend = flt_lt (Fin 0) (fs_adx_smoothed_tr st);
          pdi = (if trend then fmul F64 (Fin 100) (fdiv F64 (fs_adx_smoothed_pdm st) (fs_adx_smoothed_tr st)) else Fin 0);
          ndi = (if trend then fmul F64 (Fin 100) (fdiv F64 (fs_adx_smoothed_ndm st) (fs_adx_smoothed_tr st)) else Fin 0);
          total = fadd F64 pdi ndi;
          dx = (if flt_lt (Fin 0) total then fmul F64 (Fin 100) (fdiv F64 (flt_abs (fsub F64 pdi ndi)) total) else Fin 0);
          sdx = (if fs_tick_count st \<le> of_nat (2 * ADX_WINDOW) then dx
                 else fdiv F64 (fadd F64 (fmul F64 (fs_adx_smoothed_dx st) (fsub F64 window (Fin 1))) dx) window)
      in st\<lparr>fs_adx_smoothed_dx := sdx, fs_adx_value := f64_to_f32 sdx\<rparr>)"

definition adx_update :: "tick \<Rightarrow> feature_state \<Rightarrow> feature_state" where
  "adx_update t st =
     (if fs_tick_count st = 0 then st\<lparr>fs_adx_value := Fin 0\<rparr>
      else let ltp = f64_of (tk_ltp_paise t);
               tr = flt_abs (fsub F64 ltp (f64_of (fs_prev_ltp_paise st)));
               up_move = fsub F64 ltp (f64_of (fs_bar_high_paise st));
               down_move = fsub F64 (f64_of (fs_bar_low_paise st)) ltp;
               pdm = (if flt_lt down_move up_move \<and> flt_lt (Fin 0) up_move then up_move else Fin 0);
               ndm = (if flt_lt up_move down_move \<and> flt_lt (Fin 0) down_move then down_move else Fin 0);
               window = f64_of (int ADX_WINDOW)
           in if fs_tick_count st < of_nat ADX_WINDOW
              then st\<lparr>fs_adx_smoothed_tr := fadd F64 (fs_adx_smoothed_tr st) tr,
                      fs_adx_smoothed_pdm := fadd F64 (fs_adx_smoothed_pdm st) pdm,
                      fs_adx_smoothed_ndm := fadd F64 (fs_adx_smoothed_ndm st) ndm\<rparr>
              else if fs_tick_count st = of_nat ADX_WINDOW
              then st\<lparr>fs_adx_smoothed_tr := fdiv F64 (fs_adx_smoothed_tr st) window,
                      fs_adx_smoothed_pdm := fdiv F64 (fs_adx_smoothed_pdm st) window,
                      fs_adx_smoothed_ndm := fdiv F64 (fs_adx_smoothed_ndm st) window\<rparr>
              else adx_smoothed (st\<lparr>fs_adx_smoothed_tr := wilder (fs_adx_smoothed_tr st) tr,
                      fs_adx_smoothed_pdm := wilder (fs_adx_smoothed_pdm st) pdm,
                      fs_adx_smoothed_ndm := wilder (fs_adx_smoothed_ndm st) ndm\<rparr>))"

subsection \<open>breakout.rs and compression.rs\<close>

definition breakout_compute :: "feature_state \<Rightarrow> flt" where
  "breakout_compute st =
     (let close = fs_last_ltp_paise st; high = fs_session_high_paise st; low = fs_session_low_paise st
      in if close = 0 \<or> high = 0 \<or> low = 0 then Fin 0
         else let range_px = f64_of (wrap_i64 (high - low))
              in if flt_le range_px (Fin 0) then Fin 0
                 else let prox_high = fdiv F64 (f64_of (wrap_i64 (close - low))) range_px;
                          prox_low = fdiv F64 (f64_of (wrap_i64 (high - close))) range_px;
                          raw = fsub F64 prox_high prox_low;
                          vol_ratio = flt_max (flt_min (fdiv F64 (f64_of (wrap_i64 \<bar>fs_rolling_delta_cached st\<bar>)) (Fin 100)) (Fin 1)) (Fin 0)
                      in f64_to_f32 (flt_clamp (fmul F64 raw vol_ratio) (Fin (- 1)) (Fin 1)))"

definition compression_compute :: "feature_state \<Rightarrow> flt" where
  "compression_compute st =
     (if rw_len (fs_compression_prices st) < COMPRESSION_WINDOW then Fin 0
      else let hi = foldl (\<lambda>m p. if p > m then p else m) i64_min (rw_iter (fs_compression_prices st));
               lo = foldl (\<lambda>m p. if p < m then p else m) i64_max (rw_iter (fs_compression_prices st));
               range_px = f64_of (wrap_i64 (hi - lo)); atr_paise = f64_of (atr_compute st)
           in if flt_le atr_paise (Fin 0) then Fin 0
              else f64_to_f32 (flt_clamp (fsub F64 (Fin 1) (fdiv F64 range_px atr_paise)) (Fin 0) (Fin 1)))"

section \<open>Folding a tick (engine.rs)\<close>

definition run_indicators :: "libm \<Rightarrow> tick \<Rightarrow> feature_state \<Rightarrow> feature_state" where
  "run_indicators lm t st =
     adx_update t (donchian_update t (rsi_update t (sweep_update t (candle_update t (momentum_update t
       (volatility_update lm t (ema_update t (atr_update t (vwap_update t (liquidity_update t
         (rolling_delta_update t st)))))))))))"

definition advance_pointers :: "tick \<Rightarrow> feature_state \<Rightarrow> feature_state" where
  "advance_pointers t st = st\<lparr>fs_tick_count := usat_add (fs_tick_count st) 1, fs_prev_ltp_paise := fs_last_ltp_paise st,
     fs_last_ltp_paise := tk_ltp_paise t, fs_last_ts_ns := tk_ts_recv_ns t\<rparr>"

definition snapshot_of :: "libm \<Rightarrow> tick \<Rightarrow> feature_state \<Rightarrow> feature_snapshot" where
  "snapshot_of lm t st = \<lparr>fn_correlation_id = tk_correlation_id t, fn_symbol = tk_symbol t, fn_price = tk_ltp_paise t,
     fn_vwap = vwap_compute st, fn_atr = atr_compute st, fn_ema_fast = ema_compute_fast st,
     fn_ema_slow = ema_compute_slow st, fn_ema_trend = ema_compute_trend st, fn_ema_slope = ema_compute_slope st,
     fn_realized_vol = volatility_compute lm st, fn_momentum = momentum_compute st, fn_rsi = fs_rsi_value st,
     fn_adx = fs_adx_value st, fn_donchian_upper = donchian_upper st, fn_donchian_lower = donchian_lower st,
     fn_rolling_delta = fs_rolling_delta_cached st, fn_liquidity_imbalance = fs_liquidity_imbalance_cached st,
     fn_orderflow_strength = fs_orderflow_strength_cached st, fn_candle_structure = candle_as_u8 (candle_classify st),
     fn_breakout_pressure = breakout_compute st, fn_compression_zone = compression_compute st,
     fn_liquidity_sweep = fs_sweep_signal st, fn_ts_ns = tk_ts_recv_ns t\<rparr>"

definition process_tick_into_state :: "libm \<Rightarrow> tick \<Rightarrow> feature_state \<Rightarrow> feature_state \<times> feature_snapshot" where
  "process_tick_into_state lm t st =
     (let st = advance_pointers t (run_indicators lm t st) in (st, snapshot_of lm t st))"

section \<open>The war-mode profile (war_mode.rs)\<close>

record war_mode_profile =
  wp_active :: bool
  wp_scan_multiplier :: flt
  wp_min_confidence :: flt

definition wp_inactive :: war_mode_profile where
  "wp_inactive = \<lparr>wp_active = False, wp_scan_multiplier = Fin 1, wp_min_confidence = Fin 0\<rparr>"

definition wp_activate :: "flt \<Rightarrow> flt \<Rightarrow> war_mode_profile \<Rightarrow> war_mode_profile" where
  "wp_activate scan min_conf p = p\<lparr>wp_scan_multiplier := scan, wp_min_confidence := min_conf, wp_active := True\<rparr>"

definition wp_deactivate :: "war_mode_profile \<Rightarrow> war_mode_profile" where
  "wp_deactivate p = p\<lparr>wp_active := False, wp_scan_multiplier := Fin 1, wp_min_confidence := Fin 0\<rparr>"

section \<open>The engine\<close>

definition FEATURE_EXTRACTION_BUDGET_NS :: u64 where
  "FEATURE_EXTRACTION_BUDGET_NS = 3000000"

record feature_engine =
  fe_states :: "symbol_id \<rightharpoonup> feature_state"
  fe_war_mode :: war_mode_profile

definition feature_engine_new :: feature_engine where
  "feature_engine_new = \<lparr>fe_states = (\<lambda>_. None), fe_war_mode = wp_inactive\<rparr>"

definition feature_cell :: "feature_engine \<Rightarrow> symbol_id \<Rightarrow> feature_state" where
  "feature_cell e sy = (case fe_states e sy of Some st \<Rightarrow> st | None \<Rightarrow> feature_state_default)"

definition process_tick :: "libm \<Rightarrow> tick \<Rightarrow> feature_engine \<Rightarrow> feature_engine \<times> feature_snapshot" where
  "process_tick lm t e =
     (let (st, snap) = process_tick_into_state lm t (feature_cell e (tk_symbol t))
      in (e\<lparr>fe_states := (fe_states e)(tk_symbol t \<mapsto> st)\<rparr>, snap))"

definition reset_symbol :: "symbol_id \<Rightarrow> feature_engine \<Rightarrow> feature_engine" where
  "reset_symbol sy e =
     (case fe_states e sy of
        None \<Rightarrow> e
      | Some st \<Rightarrow> e\<lparr>fe_states := (fe_states e)(sy \<mapsto> clear_session st)\<rparr>)"

definition reset_all :: "feature_engine \<Rightarrow> feature_engine" where
  "reset_all e = e\<lparr>fe_states := map_option clear_session \<circ> fe_states e\<rparr>"

definition ingest_orderflow_pressure :: "symbol_id \<Rightarrow> flt \<Rightarrow> feature_engine \<Rightarrow> feature_engine" where
  "ingest_orderflow_pressure sy v e =
     e\<lparr>fe_states := (fe_states e)(sy \<mapsto> update_orderflow v (feature_cell e sy))\<rparr>"

text \<open>What \<open>ingest_tick\<close> hands out: the payload for the bus (a failed publication is logged only), the
  latency record and, over budget, the breach. The two readings of the clock are inputs.\<close>

datatype feature_output = FeatUpdate string "u8 list" | FeatLatency latency_emit

definition feature_latency :: "correlation_id \<Rightarrow> u64 \<Rightarrow> feature_output list" where
  "feature_latency cid elapsed =
     (let breach = elapsed > FEATURE_EXTRACTION_BUDGET_NS;
          rec = \<lparr>lr_correlation_id = u128_be cid, lr_stage = stage_as_u8 FeatureExtraction, lr_nanos = elapsed,
                 lr_budget_nanos = FEATURE_EXTRACTION_BUDGET_NS, lr_breach = breach\<rparr>
      in FeatLatency (EmitRecord FeatureExtraction rec) # (if breach then [FeatLatency (EmitBreach FeatureExtraction rec)] else []))"

definition ingest_tick :: "libm \<Rightarrow> u64 \<Rightarrow> u64 \<Rightarrow> tick \<Rightarrow> feature_engine \<Rightarrow> feature_engine \<times> feature_snapshot \<times> feature_output list" where
  "ingest_tick lm started finished t e =
     (let (e, snap) = process_tick lm t e
      in (e, snap, FeatUpdate (feat_update (fn_symbol snap)) (feature_encode snap)
            # feature_latency (cid_of_bytes (tk_correlation_id t)) (usat_sub finished started)))"

section \<open>The service (bin/main.rs)\<close>

text \<open>The receive loop over the payloads of \<open>md.tick.bin.>\<close>, each with the two readings of the clock around its
  computation; the loop ends with the subscription, which is the end of the list. A malformed payload is logged.\<close>

fun feature_service_step :: "libm \<Rightarrow> u64 \<times> u64 \<times> u8 list \<Rightarrow> feature_engine \<times> feature_output list \<Rightarrow> feature_engine \<times> feature_output list" where
  "feature_service_step lm (started, finished, payload) (e, out) =
     (case decode_tick payload of
        None \<Rightarrow> (e, out)
      | Some t \<Rightarrow> (let (e, snap, outs) = ingest_tick lm started finished t e in (e, out @ outs)))"

definition feature_service :: "libm \<Rightarrow> (u64 \<times> u64 \<times> u8 list) list \<Rightarrow> feature_engine \<Rightarrow> feature_engine \<times> feature_output list" where
  "feature_service lm rs e = fold (feature_service_step lm) rs (e, [])"

end
