(* ===== verification/Signals.thy ===== *)
theory Signals
  imports Features Ordered_Map
begin

text \<open>
  The Signal_Engine (\<open>hedge-signals/src\<close>): the evaluation context (\<open>context.rs\<close>), the trait of a strategy
  (\<open>strategy.rs\<close>), the eight strategies (\<open>strategies\<close>), the gates (\<open>gating.rs\<close>), the engine (\<open>engine.rs\<close>) and the
  service loop around it (\<open>bin/main.rs\<close>). Arithmetic on \<open>f32\<close> and \<open>f64\<close> is rounded as written. The local
  time of \<open>chrono\<close> and the open-interest cache are parameters. The contract of the trait is the
  locale \<open>strategy_contract\<close>.
\<close>

section \<open>Context (context.rs)\<close>

lemma strategy_as_u8_inj: "strategy_as_u8 a = strategy_as_u8 b \<longleftrightarrow> a = b"
  by (cases a; cases b) simp_all

instantiation strategy_id :: linorder
begin

definition less_eq_strategy_id :: "strategy_id \<Rightarrow> strategy_id \<Rightarrow> bool" where
  "less_eq_strategy_id a b \<longleftrightarrow> strategy_as_u8 a \<le> strategy_as_u8 b"

definition less_strategy_id :: "strategy_id \<Rightarrow> strategy_id \<Rightarrow> bool" where
  "less_strategy_id a b \<longleftrightarrow> strategy_as_u8 a < strategy_as_u8 b"

instance
  by standard (auto simp: less_eq_strategy_id_def less_strategy_id_def strategy_as_u8_inj less_le)

end

type_synonym strategy_toggles = "(strategy_id, bool) btree"

definition toggles_all_enabled :: strategy_toggles where
  "toggles_all_enabled = foldl (\<lambda>m i. bt_insert i True m) []
     [OpeningRangeBreakout, VwapPullback, MomentumBreakout, LiquiditySweepReversal, OptionsOiExpansionBreakout,
      VolatilityCompressionBreakout]"

definition toggles_with_disabled :: "strategy_id \<Rightarrow> strategy_toggles \<Rightarrow> strategy_toggles" where
  "toggles_with_disabled i m = bt_insert i False m"

definition toggle_is_enabled :: "strategy_toggles \<Rightarrow> strategy_id \<Rightarrow> bool" where
  "toggle_is_enabled m i = (case bt_get m i of Some b \<Rightarrow> b | None \<Rightarrow> True)"

record news_gates =
  ng_blocked_sectors :: "u32 list"
  ng_blocked_symbols :: "symbol_id list"

definition news_gates_empty :: news_gates where
  "news_gates_empty = \<lparr>ng_blocked_sectors = [], ng_blocked_symbols = []\<rparr>"

definition is_symbol_blocked :: "news_gates \<Rightarrow> symbol_id \<Rightarrow> bool" where
  "is_symbol_blocked g sy = list_ex (\<lambda>s. s = sy) (ng_blocked_symbols g)"

definition is_sector_blocked :: "news_gates \<Rightarrow> u32 \<Rightarrow> bool" where
  "is_sector_blocked g sec = list_ex (\<lambda>s. s = sec) (ng_blocked_sectors g)"

record previous_day_memory =
  pd_symbol :: symbol_id
  pd_open_paise :: i64
  pd_high_paise :: i64
  pd_low_paise :: i64
  pd_close_paise :: i64
  pd_vwap_paise :: i64

record strategy_context =
  cx_regime :: regime
  cx_trader_config :: strategy_toggles
  cx_war_mode :: bool
  cx_war_mode_min_confidence :: flt
  cx_previous_day :: "previous_day_memory option"
  cx_news_gates :: news_gates

record strategy =
  st_id :: strategy_id
  st_evaluate :: "feature_snapshot \<Rightarrow> strategy_context \<Rightarrow> signal option"
  st_enabled_in :: "regime \<Rightarrow> bool"

section \<open>Shared helpers (strategies/util.rs)\<close>

abbreviation f32_lit :: "rat \<Rightarrow> flt" where
  "f32_lit q \<equiv> rnd F32 q"

definition f32_epsilon :: flt where
  "f32_epsilon = Fin (1 / 2 ^ 23)"

definition DEFAULT_MAX_SIZE_QTY :: u64 where "DEFAULT_MAX_SIZE_QTY = 100"
definition DEFAULT_TIME_HORIZON_SECONDS :: u32 where "DEFAULT_TIME_HORIZON_SECONDS = 300"
definition STOP_LOSS_ATR_MULT :: flt where "STOP_LOSS_ATR_MULT = Fin (3 / 2)"
definition TAKE_PROFIT_ATR_MULT :: flt where "TAKE_PROFIT_ATR_MULT = Fin (5 / 2)"

definition sig_clamp01 :: "flt \<Rightarrow> flt" where
  "sig_clamp01 v = (if v = NaN \<or> flt_lt v (Fin 0) then Fin 0 else if flt_lt (Fin 1) v then Fin 1 else v)"

definition atr_distance :: "i64 \<Rightarrow> flt \<Rightarrow> i64" where
  "atr_distance atr mult = flt_to_i64 (flt_round (fmul F64 (f64_of atr) mult))"

definition risk_profile_for :: "i64 \<Rightarrow> side \<Rightarrow> i64 \<Rightarrow> risk_profile" where
  "risk_profile_for entry sd atr =
     (let stop_dist = atr_distance atr STOP_LOSS_ATR_MULT; tp_dist = atr_distance atr TAKE_PROFIT_ATR_MULT;
          (sl, tp) = (case sd of
             Buy \<Rightarrow> (sat_i64 (entry - stop_dist), sat_i64 (entry + tp_dist))
           | Sell \<Rightarrow> (sat_i64 (entry + stop_dist), sat_i64 (entry - tp_dist)))
      in \<lparr>stop_loss_paise = sl, take_profit_paise = tp, max_size_qty = DEFAULT_MAX_SIZE_QTY,
          time_horizon_seconds = DEFAULT_TIME_HORIZON_SECONDS\<rparr>)"

definition build_signal :: "u8 list \<Rightarrow> strategy_id \<Rightarrow> symbol_id \<Rightarrow> side \<Rightarrow> flt \<Rightarrow> flt \<Rightarrow> risk_profile \<Rightarrow> u64 \<Rightarrow> signal" where
  "build_signal cid sid sy sd base conf rp ts = \<lparr>sg_correlation_id = cid, sg_strategy = strategy_as_u8 sid, sg_symbol = sy,
     sg_side = side_as_u8 sd, sg_base_probability = sig_clamp01 base, sg_confidence = sig_clamp01 conf,
     sg_risk_profile = rp, sg_ts_ns = ts\<rparr>"

definition meets_war_mode_floor :: "flt \<Rightarrow> strategy_context \<Rightarrow> bool" where
  "meets_war_mode_floor conf ctx \<longleftrightarrow>
     \<not> cx_war_mode ctx \<or> flt_le (cx_war_mode_min_confidence ctx) (fadd F32 conf f32_epsilon)"

text \<open>The weighted sums that recur in the strategies.\<close>

abbreviation add32 :: "flt \<Rightarrow> flt \<Rightarrow> flt" where
  "add32 a b \<equiv> fadd F32 a b"

abbreviation mul32 :: "flt \<Rightarrow> flt \<Rightarrow> flt" where
  "mul32 a b \<equiv> fmul F32 a b"

definition emit_signal :: "strategy_id \<Rightarrow> feature_snapshot \<Rightarrow> side \<Rightarrow> flt \<Rightarrow> flt \<Rightarrow> risk_profile \<Rightarrow> signal option" where
  "emit_signal sid snap sd base conf rp =
     Some (build_signal (fn_correlation_id snap) sid (fn_symbol snap) sd base conf rp (fn_ts_ns snap))"

section \<open>Strategies\<close>

subsection \<open>orb.rs\<close>

definition ORB_BREAKOUT_PRESSURE_MIN :: flt where "ORB_BREAKOUT_PRESSURE_MIN = Fin (1 / 2)"
definition ORB_EMA_SLOPE_MIN :: flt where "ORB_EMA_SLOPE_MIN = f32_lit (1 / 10)"

definition directional :: "regime \<Rightarrow> bool" where
  "directional r \<longleftrightarrow> r \<notin> {Sideways, LiquidityCrisis, LowParticipation}"

definition orb_evaluate :: "feature_snapshot \<Rightarrow> strategy_context \<Rightarrow> signal option" where
  "orb_evaluate snap ctx =
     (let pressure = fn_breakout_pressure snap;
          sd = (if flt_lt (Fin 0) pressure then Buy else Sell);
          slope = fn_ema_slope snap;
          level = map_option (\<lambda>p. case sd of Buy \<Rightarrow> pd_high_paise p | Sell \<Rightarrow> pd_low_paise p) (cx_previous_day ctx)
      in if flt_lt (flt_abs pressure) ORB_BREAKOUT_PRESSURE_MIN then None
         else if flt_lt (flt_abs slope) ORB_EMA_SLOPE_MIN then None
         else if sd = Buy \<and> flt_le slope (Fin 0) then None
         else if sd = Sell \<and> flt_le (Fin 0) slope then None
         else if (case level of None \<Rightarrow> False
                  | Some l \<Rightarrow> l > 0 \<and> (sd = Buy \<and> fn_vwap snap < l \<or> sd = Sell \<and> fn_vwap snap > l)) then None
         else let confidence = sig_clamp01 (flt_abs pressure);
                  base = sig_clamp01 (add32 (Fin (1 / 2)) (mul32 (Fin (1 / 2)) (flt_min (flt_abs pressure) (Fin 1))))
              in emit_signal OpeningRangeBreakout snap sd base confidence (risk_profile_for (fn_vwap snap) sd (fn_atr snap)))"

definition orb :: strategy where
  "orb = \<lparr>st_id = OpeningRangeBreakout, st_evaluate = orb_evaluate, st_enabled_in = directional\<rparr>"

subsection \<open>vwap_pullback.rs\<close>

definition VWAP_PULLBACK_BAND_ATR_RATIO :: flt where "VWAP_PULLBACK_BAND_ATR_RATIO = Fin (1 / 2)"

definition vwap_pullback_evaluate :: "feature_snapshot \<Rightarrow> strategy_context \<Rightarrow> signal option" where
  "vwap_pullback_evaluate snap ctx =
     (let band = flt_to_i64 (fmul F64 (f64_of (fn_atr snap)) VWAP_PULLBACK_BAND_ATR_RATIO);
          mark = fn_ema_fast snap; dist = i64_abs_diff mark (fn_vwap snap);
          trend_long = (fn_ema_fast snap > fn_ema_slow snap); trend_short = (fn_ema_fast snap < fn_ema_slow snap);
          sd = (if trend_long then Buy else Sell)
      in if fn_atr snap \<le> 0 then None
         else if band \<le> 0 then None
         else if dist > band then None
         else if \<not> trend_long \<and> \<not> trend_short then None
         else if sd = Buy \<and> mark < fn_vwap snap then None
         else if sd = Sell \<and> mark > fn_vwap snap then None
         else let normalized_dist = f64_to_f32 (fdiv F64 (f64_of dist) (f64_of band));
                  ema_gap = f64_of (i64_abs_diff (fn_ema_fast snap) (fn_ema_slow snap));
                  normalized_gap = f64_to_f32 (flt_min (fdiv F64 ema_gap (flt_max (f64_of (fn_atr snap)) (Fin 1))) (Fin 1));
                  confidence = sig_clamp01 (add32 (mul32 (Fin (1 / 2)) (fsub F32 (Fin 1) normalized_dist))
                     (mul32 (Fin (1 / 2)) normalized_gap));
                  base = sig_clamp01 (add32 (Fin (1 / 2)) (mul32 (Fin (1 / 4)) normalized_gap))
              in emit_signal VwapPullback snap sd base confidence (risk_profile_for mark sd (fn_atr snap)))"

definition vwap_pullback :: strategy where
  "vwap_pullback = \<lparr>st_id = VwapPullback, st_evaluate = vwap_pullback_evaluate, st_enabled_in = directional\<rparr>"

subsection \<open>momentum_breakout.rs\<close>

definition MOMENTUM_MIN :: flt where "MOMENTUM_MIN = f32_lit (5 / 1000)"
definition BREAKOUT_PRESSURE_MIN :: flt where "BREAKOUT_PRESSURE_MIN = Fin (1 / 2)"

definition momentum_breakout_evaluate :: "feature_snapshot \<Rightarrow> strategy_context \<Rightarrow> signal option" where
  "momentum_breakout_evaluate snap ctx =
     (let mom = fn_momentum snap; bp = fn_breakout_pressure snap; slope = fn_ema_slope snap;
          up = (flt_lt (Fin 0) mom \<and> flt_lt (Fin 0) bp \<and> flt_lt (Fin 0) slope);
          down = (flt_lt mom (Fin 0) \<and> flt_lt bp (Fin 0) \<and> flt_lt slope (Fin 0));
          sd = (if up then Buy else Sell)
      in if flt_lt (flt_abs mom) MOMENTUM_MIN then None
         else if flt_lt (flt_abs bp) BREAKOUT_PRESSURE_MIN then None
         else if \<not> up \<and> \<not> down then None
         else if sd = Buy \<and> fn_ema_fast snap \<le> fn_ema_slow snap then None
         else if sd = Sell \<and> fn_ema_fast snap \<ge> fn_ema_slow snap then None
         else let pressure = flt_min (flt_abs bp) (Fin 1);
                  mom_norm = flt_min (fdiv F32 (flt_abs mom) (f32_lit (5 / 100))) (Fin 1);
                  confidence = sig_clamp01 (add32 (mul32 (Fin (1 / 2)) pressure) (mul32 (Fin (1 / 2)) mom_norm));
                  base = sig_clamp01 (add32 (add32 (Fin (1 / 2)) (mul32 (Fin (1 / 4)) pressure)) (mul32 (Fin (1 / 4)) mom_norm));
                  entry = (if fn_ema_fast snap > 0 then fn_ema_fast snap else fn_vwap snap)
              in emit_signal MomentumBreakout snap sd base confidence (risk_profile_for entry sd (fn_atr snap)))"

definition momentum_breakout :: strategy where
  "momentum_breakout = \<lparr>st_id = MomentumBreakout, st_evaluate = momentum_breakout_evaluate, st_enabled_in = directional\<rparr>"

subsection \<open>liquidity_sweep_reversal.rs\<close>

definition SWEEP_MIN :: flt where "SWEEP_MIN = Fin (1 / 2)"
definition ORDERFLOW_STRENGTH_MIN :: flt where "ORDERFLOW_STRENGTH_MIN = f32_lit (2 / 10)"

definition vwap_entry :: "feature_snapshot \<Rightarrow> i64" where
  "vwap_entry snap = (if fn_vwap snap > 0 then fn_vwap snap else fn_ema_fast snap)"

definition sweep_reversal_evaluate :: "feature_snapshot \<Rightarrow> strategy_context \<Rightarrow> signal option" where
  "sweep_reversal_evaluate snap ctx =
     (let sweep = fn_liquidity_sweep snap; sd = (if flt_lt (Fin 0) sweep then Sell else Buy);
          slope = fn_ema_slope snap; flow = fn_orderflow_strength snap
      in if flt_lt (flt_abs sweep) SWEEP_MIN then None
         else if sd = Buy \<and> flt_le slope (Fin 0) then None
         else if sd = Sell \<and> flt_le (Fin 0) slope then None
         else if flt_lt (flt_abs flow) ORDERFLOW_STRENGTH_MIN then None
         else if sd = Buy \<and> flt_le flow (Fin 0) then None
         else if sd = Sell \<and> flt_le (Fin 0) flow then None
         else let sweep_mag = flt_min (flt_abs sweep) (Fin 1); of_mag = flt_min (flt_abs flow) (Fin 1);
                  confidence = sig_clamp01 (add32 (mul32 (Fin (1 / 2)) sweep_mag) (mul32 (Fin (1 / 2)) of_mag));
                  base = sig_clamp01 (add32 (add32 (Fin (1 / 2)) (mul32 (Fin (1 / 4)) sweep_mag)) (mul32 (Fin (1 / 4)) of_mag))
              in emit_signal LiquiditySweepReversal snap sd base confidence (risk_profile_for (vwap_entry snap) sd (fn_atr snap)))"

definition sweep_reversal :: strategy where
  "sweep_reversal = \<lparr>st_id = LiquiditySweepReversal, st_evaluate = sweep_reversal_evaluate,
     st_enabled_in = (\<lambda>r. r \<notin> {Trending, LiquidityCrisis})\<rparr>"

subsection \<open>options_oi_expansion_breakout.rs\<close>

definition OI_BREAKOUT_PRESSURE_MIN :: flt where "OI_BREAKOUT_PRESSURE_MIN = f32_lit (4 / 10)"

type_synonym oi_cache = "symbol_id \<Rightarrow> side \<Rightarrow> bool option"

definition options_oi_evaluate :: "oi_cache option \<Rightarrow> feature_snapshot \<Rightarrow> strategy_context \<Rightarrow> signal option" where
  "options_oi_evaluate cache snap ctx =
     (case cache of
        None \<Rightarrow> None
      | Some fresh_expansion \<Rightarrow>
          let pressure = fn_breakout_pressure snap; sd = (if flt_lt (Fin 0) pressure then Buy else Sell)
          in if flt_lt (flt_abs pressure) OI_BREAKOUT_PRESSURE_MIN then None
             else if fresh_expansion (fn_symbol snap) sd \<noteq> Some True then None
             else let confidence = sig_clamp01 (flt_abs pressure);
                      base = sig_clamp01 (add32 (Fin (1 / 2)) (mul32 (Fin (1 / 2)) (flt_min (flt_abs pressure) (Fin 1))))
                  in emit_signal OptionsOiExpansionBreakout snap sd base confidence
                       (risk_profile_for (vwap_entry snap) sd (fn_atr snap)))"

definition options_oi :: "oi_cache option \<Rightarrow> strategy" where
  "options_oi cache = \<lparr>st_id = OptionsOiExpansionBreakout, st_evaluate = options_oi_evaluate cache, st_enabled_in = directional\<rparr>"

subsection \<open>volatility_compression_breakout.rs\<close>

definition COMPRESSION_MIN :: flt where "COMPRESSION_MIN = Fin (1 / 2)"

definition compression_breakout_evaluate :: "feature_snapshot \<Rightarrow> strategy_context \<Rightarrow> signal option" where
  "compression_breakout_evaluate snap ctx =
     (let cz = fn_compression_zone snap; bp = fn_breakout_pressure snap; sd = (if flt_lt (Fin 0) bp then Buy else Sell)
      in if flt_le cz COMPRESSION_MIN then None
         else if flt_le (flt_abs bp) BREAKOUT_PRESSURE_MIN then None
         else let comp = flt_max (flt_min cz (Fin 1)) (Fin 0); pres = flt_min (flt_abs bp) (Fin 1);
                  confidence = sig_clamp01 (add32 (mul32 (Fin (1 / 2)) comp) (mul32 (Fin (1 / 2)) pres));
                  base = sig_clamp01 (add32 (add32 (Fin (1 / 2)) (mul32 (Fin (1 / 4)) comp)) (mul32 (Fin (1 / 4)) pres))
              in emit_signal VolatilityCompressionBreakout snap sd base confidence
                   (risk_profile_for (vwap_entry snap) sd (fn_atr snap)))"

definition compression_breakout :: strategy where
  "compression_breakout = \<lparr>st_id = VolatilityCompressionBreakout, st_evaluate = compression_breakout_evaluate,
     st_enabled_in = (\<lambda>r. r \<notin> {Trending, Panic})\<rparr>"

subsection \<open>composite_alpha.rs and precision_breakout.rs\<close>

fun contains_str :: "string \<Rightarrow> string \<Rightarrow> bool" where
  "contains_str p [] = (p = [])"
| "contains_str p (c # cs) = (take (length p) (c # cs) = p \<or> contains_str p cs)"

text \<open>The profile around a price with a stop of 1.5 ATR and a target of \<open>mult\<close> stops, in plain \<open>i64\<close>
  arithmetic.\<close>

definition atr_profile :: "i64 \<Rightarrow> side \<Rightarrow> i64 \<Rightarrow> flt \<Rightarrow> risk_profile" where
  "atr_profile price sd atr mult =
     (let atr_f = (if atr > 0 then f64_of atr else Fin 50);
          stop_distance = fmul F64 (Fin (3 / 2)) atr_f; target_distance = fmul F64 stop_distance mult;
          sd_i = flt_to_i64 (flt_round stop_distance); td_i = flt_to_i64 (flt_round target_distance);
          rp = risk_profile_for price sd atr
      in case sd of
           Buy \<Rightarrow> rp\<lparr>stop_loss_paise := wrap_i64 (price - sd_i), take_profit_paise := wrap_i64 (price + td_i)\<rparr>
         | Sell \<Rightarrow> rp\<lparr>stop_loss_paise := wrap_i64 (price + sd_i), take_profit_paise := wrap_i64 (price - td_i)\<rparr>)"

definition composite_alpha_evaluate :: "feature_snapshot \<Rightarrow> strategy_context \<Rightarrow> signal option" where
  "composite_alpha_evaluate snap ctx =
     (let sym_name = (case symbol_for_id (fn_symbol snap) of Some s \<Rightarrow> s | None \<Rightarrow> []);
          price = fn_price snap;
          trend_long = (price > fn_ema_fast snap \<and> fn_ema_slow snap > fn_ema_trend snap);
          trend_short = (price < fn_ema_fast snap \<and> fn_ema_slow snap < fn_ema_trend snap);
          donchian_breakout = (price \<ge> fn_donchian_upper snap); donchian_breakdown = (price \<le> fn_donchian_lower snap);
          sd = (if donchian_breakout then Buy else Sell)
      in if \<not> contains_str ''Nifty'' sym_name then None
         else if fn_atr snap < 100 then None
         else if \<not> donchian_breakout \<and> \<not> donchian_breakdown then None
         else if sd = Buy \<and> \<not> trend_long then None
         else if sd = Sell \<and> \<not> trend_short then None
         else let base = sig_clamp01 (add32 (Fin (3 / 4)) (mul32 (f32_lit (1 / 10)) (flt_abs (fn_momentum snap))));
                  confidence = sig_clamp01 (add32 (f32_lit (8 / 10)) (mul32 (f32_lit (2 / 10)) (flt_abs (fn_orderflow_strength snap))))
              in emit_signal CompositeAlphaBreakout snap sd base confidence (atr_profile price sd (fn_atr snap) (Fin 3)))"

definition composite_alpha :: strategy where
  "composite_alpha = \<lparr>st_id = CompositeAlphaBreakout, st_evaluate = composite_alpha_evaluate,
     st_enabled_in = (\<lambda>r. r \<in> {Trending, HighVolatility})\<rparr>"

text \<open>\<open>local_hm\<close> is \<open>chrono\<close>'s hour and minute of a Unix time in the local zone.\<close>

definition precision_evaluate :: "(int \<Rightarrow> nat \<times> nat) \<Rightarrow> feature_snapshot \<Rightarrow> strategy_context \<Rightarrow> signal option" where
  "precision_evaluate local_hm snap ctx =
     (let (hour, minute) = local_hm (uint (fn_ts_ns snap div 1000000000));
          time_valid = (hour = 9 \<and> minute \<ge> 30 \<or> hour > 9 \<and> hour < 14 \<or> hour = 14 \<and> minute \<le> 45);
          price = fn_price snap
      in if \<not> time_valid then None
         else if price \<ge> fn_donchian_upper snap
         then emit_signal CompositeAlphaBreakout snap Buy (f32_lit (8 / 10)) (Fin 1) (atr_profile price Buy (fn_atr snap) (Fin (5 / 2)))
         else if price \<le> fn_donchian_lower snap
         then emit_signal CompositeAlphaBreakout snap Sell (f32_lit (8 / 10)) (Fin 1) (atr_profile price Sell (fn_atr snap) (Fin (5 / 2)))
         else None)"

definition precision_breakout :: "(int \<Rightarrow> nat \<times> nat) \<Rightarrow> strategy" where
  "precision_breakout local_hm = \<lparr>st_id = CompositeAlphaBreakout, st_evaluate = precision_evaluate local_hm, st_enabled_in = (\<lambda>_. True)\<rparr>"

section \<open>Gates (gating.rs)\<close>

datatype gate_reason = GateTraderToggle | GateRegimeBlocked | GateNewsBlocked | GateWarModeConfidenceTooLow

datatype sig_gate_outcome = GateAllowed | GateBlocked gate_reason

fun gate_reason_as_str :: "gate_reason \<Rightarrow> string" where
  "gate_reason_as_str GateTraderToggle = ''trader_toggle''"
| "gate_reason_as_str GateRegimeBlocked = ''regime_blocked''"
| "gate_reason_as_str GateNewsBlocked = ''news_blocked''"
| "gate_reason_as_str GateWarModeConfidenceTooLow = ''war_mode_confidence_too_low''"

definition check_trader_toggle :: "strategy_id \<Rightarrow> strategy_context \<Rightarrow> sig_gate_outcome" where
  "check_trader_toggle i ctx = (if toggle_is_enabled (cx_trader_config ctx) i then GateAllowed else GateBlocked GateTraderToggle)"

definition check_regime :: "strategy \<Rightarrow> strategy_context \<Rightarrow> sig_gate_outcome" where
  "check_regime s ctx = (if st_enabled_in s (cx_regime ctx) then GateAllowed else GateBlocked GateRegimeBlocked)"

definition check_news :: "symbol_id \<Rightarrow> u32 option \<Rightarrow> strategy_context \<Rightarrow> sig_gate_outcome" where
  "check_news sy sector ctx =
     (if is_symbol_blocked (cx_news_gates ctx) sy then GateBlocked GateNewsBlocked
      else case sector of
          Some sec \<Rightarrow> if is_sector_blocked (cx_news_gates ctx) sec then GateBlocked GateNewsBlocked else GateAllowed
        | None \<Rightarrow> GateAllowed)"

definition check_gates :: "strategy \<Rightarrow> strategy_context \<Rightarrow> symbol_id \<Rightarrow> u32 option \<Rightarrow> sig_gate_outcome" where
  "check_gates s ctx sy sector =
     (case check_trader_toggle (st_id s) ctx of
        GateBlocked r \<Rightarrow> GateBlocked r
      | GateAllowed \<Rightarrow> (case check_regime s ctx of
            GateBlocked r \<Rightarrow> GateBlocked r
          | GateAllowed \<Rightarrow> (case check_news sy sector ctx of GateBlocked r \<Rightarrow> GateBlocked r | GateAllowed \<Rightarrow> GateAllowed)))"

definition check_war_mode :: "signal \<Rightarrow> strategy_context \<Rightarrow> sig_gate_outcome" where
  "check_war_mode sig ctx =
     (if \<not> cx_war_mode ctx then GateAllowed
      else if flt_lt (fadd F32 (sg_confidence sig) f32_epsilon) (cx_war_mode_min_confidence ctx)
      then GateBlocked GateWarModeConfidenceTooLow else GateAllowed)"

section \<open>The engine (engine.rs)\<close>

record signal_engine_config =
  sc_regime :: regime
  sc_toggles :: strategy_toggles
  sc_war_mode :: bool
  sc_war_mode_min_confidence :: flt
  sc_news_gates :: news_gates

definition default_signal_config :: signal_engine_config where
  "default_signal_config = \<lparr>sc_regime = Trending, sc_toggles = toggles_all_enabled, sc_war_mode = False,
     sc_war_mode_min_confidence = f32_lit (7 / 10), sc_news_gates = news_gates_empty\<rparr>"

definition eval_context :: "signal_engine_config \<Rightarrow> previous_day_memory option \<Rightarrow> strategy_context" where
  "eval_context cfg pd = \<lparr>cx_regime = sc_regime cfg, cx_trader_config = sc_toggles cfg, cx_war_mode = sc_war_mode cfg,
     cx_war_mode_min_confidence = sc_war_mode_min_confidence cfg, cx_previous_day = pd, cx_news_gates = sc_news_gates cfg\<rparr>"

text \<open>The loop of \<open>evaluate_strategies\<close>; the sector passed to the gates is always absent.\<close>

fun evaluate_loop :: "feature_snapshot \<Rightarrow> strategy_context \<Rightarrow> strategy list \<Rightarrow> signal list" where
  "evaluate_loop snap ctx [] = []"
| "evaluate_loop snap ctx (s # ss) =
     (if check_gates s ctx (fn_symbol snap) None \<noteq> GateAllowed then evaluate_loop snap ctx ss
      else case st_evaluate s snap ctx of
          None \<Rightarrow> evaluate_loop snap ctx ss
        | Some sig \<Rightarrow> if check_war_mode sig ctx \<noteq> GateAllowed then evaluate_loop snap ctx ss
                      else sig # evaluate_loop snap ctx ss)"

definition evaluate_strategies :: "strategy list \<Rightarrow> feature_snapshot \<Rightarrow> signal_engine_config \<Rightarrow> previous_day_memory option \<Rightarrow> signal list" where
  "evaluate_strategies ss snap cfg pd = evaluate_loop snap (eval_context cfg pd) ss"

record signal_engine =
  se_redis :: bool
  se_strategies :: "strategy list"
  se_config :: signal_engine_config
  se_previous_day :: "symbol_id \<rightharpoonup> previous_day_memory"

definition signal_engine_with :: "strategy list \<Rightarrow> signal_engine" where
  "signal_engine_with ss = \<lparr>se_redis = False, se_strategies = ss, se_config = default_signal_config, se_previous_day = (\<lambda>_. None)\<rparr>"

definition signal_engine_default :: signal_engine where
  "signal_engine_default = signal_engine_with [orb, vwap_pullback, momentum_breakout, sweep_reversal, options_oi None,
     compression_breakout, composite_alpha]"

definition with_redis :: "signal_engine \<Rightarrow> signal_engine" where
  "with_redis e = e\<lparr>se_redis := True\<rparr>"

definition update_config :: "(signal_engine_config \<Rightarrow> signal_engine_config) \<Rightarrow> signal_engine \<Rightarrow> signal_engine" where
  "update_config f e = e\<lparr>se_config := f (se_config e)\<rparr>"

definition upsert_previous_day :: "previous_day_memory \<Rightarrow> signal_engine \<Rightarrow> signal_engine" where
  "upsert_previous_day pd e = e\<lparr>se_previous_day := (se_previous_day e)(pd_symbol pd \<mapsto> pd)\<rparr>"

definition se_evaluate :: "feature_snapshot \<Rightarrow> signal_engine \<Rightarrow> signal list" where
  "se_evaluate snap e = evaluate_strategies (se_strategies e) snap (se_config e) (se_previous_day e (fn_symbol snap))"

text \<open>One signal goes to \<open>sig.emitted\<close> and then, with Redis, to \<open>hedge.hot.signals\<close>.\<close>

datatype signal_message = SigEmitted "u8 list" | SigStream "u8 list"

definition se_publish :: "signal \<Rightarrow> signal_engine \<Rightarrow> signal_message ops_world \<Rightarrow> signal_message ops_world \<times> bus_error option" where
  "se_publish sig e w =
     (let payload = encode_signal sig; (w, r) = ops_publish (SigEmitted payload) w
      in case r of
           Some err \<Rightarrow> (w, Some err)
         | None \<Rightarrow> if se_redis e then ops_publish (SigStream payload) w else (w, None))"

fun se_publish_all :: "signal list \<Rightarrow> signal_engine \<Rightarrow> signal_message ops_world \<Rightarrow> signal_message ops_world \<times> bus_error option" where
  "se_publish_all [] e w = (w, None)"
| "se_publish_all (s # ss) e w =
     (case se_publish s e w of (w, Some err) \<Rightarrow> (w, Some err) | (w, None) \<Rightarrow> se_publish_all ss e w)"

definition ingest_feature_snapshot :: "feature_snapshot \<Rightarrow> signal_engine \<Rightarrow> signal_message ops_world
    \<Rightarrow> signal_message ops_world \<times> (bus_error + nat)" where
  "ingest_feature_snapshot snap e w =
     (let sigs = se_evaluate snap e
      in case se_publish_all sigs e w of (w, Some err) \<Rightarrow> (w, Inl err) | (w, None) \<Rightarrow> (w, Inr (length sigs)))"

section \<open>The service (bin/main.rs)\<close>

text \<open>The receptions of the two tasks: a payload on \<open>feat.update.*\<close> and the decoded war-mode events.\<close>

datatype signal_reception = FeatPayload "u8 list" | WarModeStart flt | WarModeEnd

fun signal_service_step :: "signal_reception \<Rightarrow> signal_engine \<times> signal_message ops_world \<Rightarrow> signal_engine \<times> signal_message ops_world" where
  "signal_service_step (FeatPayload bs) (e, w) =
     (case decode_feature_snapshot bs of
        None \<Rightarrow> (e, w)
      | Some snap \<Rightarrow> (e, fst (ingest_feature_snapshot snap e w)))"
| "signal_service_step (WarModeStart min_conf) (e, w) =
     (update_config (\<lambda>c. c\<lparr>sc_war_mode := True, sc_war_mode_min_confidence := min_conf\<rparr>) e, w)"
| "signal_service_step WarModeEnd (e, w) = (update_config (\<lambda>c. c\<lparr>sc_war_mode := False\<rparr>) e, w)"

definition signal_service :: "signal_reception list \<Rightarrow> signal_engine \<times> signal_message ops_world \<Rightarrow> signal_engine \<times> signal_message ops_world" where
  "signal_service rs s = fold signal_service_step rs s"
end
