(* ===== verification/Feature_Facts.thy ===== *)
theory Feature_Facts
  imports Features
begin

text \<open>
  What the indicators of \<open>Features\<close> compute: each owns a part of the state and leaves the others alone; over a whole
  history the windows hold its tail, so ten incremental values are the formulas over the history
  (\<open>features_match_batch\<close>); some indicators are constant (\<open>degenerate_indicators\<close>); and every
  published snapshot is well formed, so that it crosses the wire unchanged.
\<close>

section \<open>Facts about the fold\<close>

definition fold_tick :: "libm \<Rightarrow> tick \<Rightarrow> feature_state \<Rightarrow> feature_state" where
  "fold_tick lm t st = fst (process_tick_into_state lm t st)"

definition feature_run :: "libm \<Rightarrow> tick list \<Rightarrow> feature_state" where
  "feature_run lm ts = fold (fold_tick lm) ts feature_state_default"

definition last_snapshot :: "libm \<Rightarrow> tick list \<Rightarrow> tick \<Rightarrow> feature_snapshot" where
  "last_snapshot lm ts t = snd (process_tick_into_state lm t (feature_run lm ts))"

lemma feature_run_snoc [simp]: "feature_run lm (ts @ [t]) = fold_tick lm t (feature_run lm ts)"
  by (simp add: feature_run_def)

lemma feature_run_Nil [simp]: "feature_run lm [] = feature_state_default"
  by (simp add: feature_run_def)

lemma last_snapshot_eq: "last_snapshot lm ts t = snapshot_of lm t (feature_run lm (ts @ [t]))"
  by (simp add: last_snapshot_def process_tick_into_state_def fold_tick_def Let_def)

text \<open>Each indicator owns a part of the state; the others leave it alone.\<close>

definition pointers where
  "pointers st = (fs_tick_count st, fs_last_ltp_paise st, fs_prev_ltp_paise st)"

definition delta_part where
  "delta_part st = (fs_delta_samples st, fs_rolling_delta_cached st)"

definition book_part where
  "book_part st = (fs_last_book st, fs_liquidity_imbalance_cached st)"

definition vwap_part where
  "vwap_part st = (fs_vwap_num st, fs_vwap_den st)"

definition atr_part where
  "atr_part st = (fs_tr_window st, fs_prev_close_paise st, fs_bar_high_paise st, fs_bar_low_paise st)"

definition ema_part where
  "ema_part st = (fs_ema_fast_acc st, fs_ema_fast_paise st, fs_ema_fast_seeded st, fs_ema_slow_acc st, fs_ema_slow_paise st,
     fs_ema_slow_seeded st, fs_ema_trend_acc st, fs_ema_trend_paise st, fs_ema_trend_seeded st, fs_ema_fast_history
     st)"

definition momentum_part where
  "momentum_part st = fs_momentum_prices st"

definition candle_part where
  "candle_part st = (fs_compression_prices st, fs_session_high_paise st, fs_session_low_paise st)"

definition sweep_part where
  "sweep_part st = (fs_last_high_break_idx st, fs_last_high_break_paise st, fs_last_low_break_idx st, fs_last_low_break_paise st,
     fs_sweep_signal st)"

definition rsi_part where
  "rsi_part st = (fs_rsi_avg_gain st, fs_rsi_avg_loss st, fs_rsi_value st)"

definition donchian_part where
  "donchian_part st = fs_donchian_prices st"

definition adx_part where
  "adx_part st = (fs_adx_smoothed_pdm st, fs_adx_smoothed_ndm st, fs_adx_smoothed_dx st, fs_adx_value st)"

definition flow_part where
  "flow_part st = fs_orderflow_strength_cached st"

lemmas parts = pointers_def delta_part_def book_part_def vwap_part_def atr_part_def ema_part_def momentum_part_def
  candle_part_def sweep_part_def rsi_part_def donchian_part_def adx_part_def flow_part_def

lemma rolling_delta_update_frame [simp]:
  "pointers (rolling_delta_update t st) = pointers st" "book_part (rolling_delta_update t st) = book_part st"
  "vwap_part (rolling_delta_update t st) = vwap_part st" "atr_part (rolling_delta_update t st) = atr_part st"
  "ema_part (rolling_delta_update t st) = ema_part st"
  "momentum_part (rolling_delta_update t st) = momentum_part st"
  "candle_part (rolling_delta_update t st) = candle_part st"
  "sweep_part (rolling_delta_update t st) = sweep_part st" "rsi_part (rolling_delta_update t st) = rsi_part st"
  "donchian_part (rolling_delta_update t st) = donchian_part st"
  "adx_part (rolling_delta_update t st) = adx_part st" "flow_part (rolling_delta_update t st) = flow_part st"
  by (simp_all add: parts rolling_delta_update_def Let_def adx_smoothed_def case_prod_beta)

lemma liquidity_update_frame [simp]:
  "pointers (liquidity_update t st) = pointers st" "delta_part (liquidity_update t st) = delta_part st"
  "vwap_part (liquidity_update t st) = vwap_part st" "atr_part (liquidity_update t st) = atr_part st"
  "ema_part (liquidity_update t st) = ema_part st" "momentum_part (liquidity_update t st) = momentum_part st"
  "candle_part (liquidity_update t st) = candle_part st" "sweep_part (liquidity_update t st) = sweep_part st"
  "rsi_part (liquidity_update t st) = rsi_part st" "donchian_part (liquidity_update t st) = donchian_part st"
  "adx_part (liquidity_update t st) = adx_part st" "flow_part (liquidity_update t st) = flow_part st"
  by (simp_all add: parts liquidity_update_def Let_def adx_smoothed_def case_prod_beta)

lemma vwap_update_frame [simp]:
  "pointers (vwap_update t st) = pointers st" "delta_part (vwap_update t st) = delta_part st"
  "book_part (vwap_update t st) = book_part st" "atr_part (vwap_update t st) = atr_part st"
  "ema_part (vwap_update t st) = ema_part st" "momentum_part (vwap_update t st) = momentum_part st"
  "candle_part (vwap_update t st) = candle_part st" "sweep_part (vwap_update t st) = sweep_part st"
  "rsi_part (vwap_update t st) = rsi_part st" "donchian_part (vwap_update t st) = donchian_part st"
  "adx_part (vwap_update t st) = adx_part st" "flow_part (vwap_update t st) = flow_part st"
  by (simp_all add: parts vwap_update_def Let_def adx_smoothed_def case_prod_beta)

lemma atr_update_frame [simp]:
  "pointers (atr_update t st) = pointers st" "delta_part (atr_update t st) = delta_part st"
  "book_part (atr_update t st) = book_part st" "vwap_part (atr_update t st) = vwap_part st"
  "ema_part (atr_update t st) = ema_part st" "momentum_part (atr_update t st) = momentum_part st"
  "candle_part (atr_update t st) = candle_part st" "sweep_part (atr_update t st) = sweep_part st"
  "rsi_part (atr_update t st) = rsi_part st" "donchian_part (atr_update t st) = donchian_part st"
  "adx_part (atr_update t st) = adx_part st" "flow_part (atr_update t st) = flow_part st"
  by (simp_all add: parts atr_update_def Let_def adx_smoothed_def case_prod_beta)

lemma ema_update_frame [simp]:
  "pointers (ema_update t st) = pointers st" "delta_part (ema_update t st) = delta_part st"
  "book_part (ema_update t st) = book_part st" "vwap_part (ema_update t st) = vwap_part st"
  "atr_part (ema_update t st) = atr_part st" "momentum_part (ema_update t st) = momentum_part st"
  "candle_part (ema_update t st) = candle_part st" "sweep_part (ema_update t st) = sweep_part st"
  "rsi_part (ema_update t st) = rsi_part st" "donchian_part (ema_update t st) = donchian_part st"
  "adx_part (ema_update t st) = adx_part st" "flow_part (ema_update t st) = flow_part st"
  by (simp_all add: parts ema_update_def Let_def adx_smoothed_def case_prod_beta)

lemma volatility_update_frame [simp]:
  "pointers (volatility_update lm t st) = pointers st" "delta_part (volatility_update lm t st) = delta_part st"
  "book_part (volatility_update lm t st) = book_part st" "vwap_part (volatility_update lm t st) = vwap_part st"
  "atr_part (volatility_update lm t st) = atr_part st" "ema_part (volatility_update lm t st) = ema_part st"
  "momentum_part (volatility_update lm t st) = momentum_part st"
  "candle_part (volatility_update lm t st) = candle_part st"
  "sweep_part (volatility_update lm t st) = sweep_part st" "rsi_part (volatility_update lm t st) = rsi_part st"
  "donchian_part (volatility_update lm t st) = donchian_part st"
  "adx_part (volatility_update lm t st) = adx_part st" "flow_part (volatility_update lm t st) = flow_part st"
  by (simp_all add: parts volatility_update_def Let_def adx_smoothed_def case_prod_beta)

lemma momentum_update_frame [simp]:
  "pointers (momentum_update t st) = pointers st" "delta_part (momentum_update t st) = delta_part st"
  "book_part (momentum_update t st) = book_part st" "vwap_part (momentum_update t st) = vwap_part st"
  "atr_part (momentum_update t st) = atr_part st" "ema_part (momentum_update t st) = ema_part st"
  "candle_part (momentum_update t st) = candle_part st" "sweep_part (momentum_update t st) = sweep_part st"
  "rsi_part (momentum_update t st) = rsi_part st" "donchian_part (momentum_update t st) = donchian_part st"
  "adx_part (momentum_update t st) = adx_part st" "flow_part (momentum_update t st) = flow_part st"
  by (simp_all add: parts momentum_update_def Let_def adx_smoothed_def case_prod_beta)

lemma candle_update_frame [simp]:
  "pointers (candle_update t st) = pointers st" "delta_part (candle_update t st) = delta_part st"
  "book_part (candle_update t st) = book_part st" "vwap_part (candle_update t st) = vwap_part st"
  "atr_part (candle_update t st) = atr_part st" "ema_part (candle_update t st) = ema_part st"
  "momentum_part (candle_update t st) = momentum_part st" "sweep_part (candle_update t st) = sweep_part st"
  "rsi_part (candle_update t st) = rsi_part st" "donchian_part (candle_update t st) = donchian_part st"
  "adx_part (candle_update t st) = adx_part st" "flow_part (candle_update t st) = flow_part st"
  by (simp_all add: parts candle_update_def Let_def adx_smoothed_def case_prod_beta)

lemma sweep_update_frame [simp]:
  "pointers (sweep_update t st) = pointers st" "delta_part (sweep_update t st) = delta_part st"
  "book_part (sweep_update t st) = book_part st" "vwap_part (sweep_update t st) = vwap_part st"
  "atr_part (sweep_update t st) = atr_part st" "ema_part (sweep_update t st) = ema_part st"
  "momentum_part (sweep_update t st) = momentum_part st" "candle_part (sweep_update t st) = candle_part st"
  "rsi_part (sweep_update t st) = rsi_part st" "donchian_part (sweep_update t st) = donchian_part st"
  "adx_part (sweep_update t st) = adx_part st" "flow_part (sweep_update t st) = flow_part st"
  by (simp_all add: parts sweep_update_def Let_def adx_smoothed_def case_prod_beta)

lemma rsi_update_frame [simp]:
  "pointers (rsi_update t st) = pointers st" "delta_part (rsi_update t st) = delta_part st"
  "book_part (rsi_update t st) = book_part st" "vwap_part (rsi_update t st) = vwap_part st"
  "atr_part (rsi_update t st) = atr_part st" "ema_part (rsi_update t st) = ema_part st"
  "momentum_part (rsi_update t st) = momentum_part st" "candle_part (rsi_update t st) = candle_part st"
  "sweep_part (rsi_update t st) = sweep_part st" "donchian_part (rsi_update t st) = donchian_part st"
  "adx_part (rsi_update t st) = adx_part st" "flow_part (rsi_update t st) = flow_part st"
  by (simp_all add: parts rsi_update_def Let_def adx_smoothed_def case_prod_beta)

lemma donchian_update_frame [simp]:
  "pointers (donchian_update t st) = pointers st" "delta_part (donchian_update t st) = delta_part st"
  "book_part (donchian_update t st) = book_part st" "vwap_part (donchian_update t st) = vwap_part st"
  "atr_part (donchian_update t st) = atr_part st" "ema_part (donchian_update t st) = ema_part st"
  "momentum_part (donchian_update t st) = momentum_part st"
  "candle_part (donchian_update t st) = candle_part st" "sweep_part (donchian_update t st) = sweep_part st"
  "rsi_part (donchian_update t st) = rsi_part st" "adx_part (donchian_update t st) = adx_part st"
  "flow_part (donchian_update t st) = flow_part st"
  by (simp_all add: parts donchian_update_def Let_def adx_smoothed_def case_prod_beta)

lemma adx_update_frame [simp]:
  "pointers (adx_update t st) = pointers st" "delta_part (adx_update t st) = delta_part st"
  "book_part (adx_update t st) = book_part st" "vwap_part (adx_update t st) = vwap_part st"
  "atr_part (adx_update t st) = atr_part st" "ema_part (adx_update t st) = ema_part st"
  "momentum_part (adx_update t st) = momentum_part st" "candle_part (adx_update t st) = candle_part st"
  "sweep_part (adx_update t st) = sweep_part st" "rsi_part (adx_update t st) = rsi_part st"
  "donchian_part (adx_update t st) = donchian_part st" "flow_part (adx_update t st) = flow_part st"
  by (simp_all add: parts adx_update_def Let_def adx_smoothed_def case_prod_beta)

text \<open>The owner's step on its part.\<close>

definition true_range :: "bool \<Rightarrow> i64 \<Rightarrow> i64 \<Rightarrow> i64" where
  "true_range first ltp pc = (let c = (if first then ltp else pc) in max (max (i64_abs_diff ltp ltp) (i64_abs_diff ltp c)) (i64_abs_diff ltp c))"

lemma part_steps:
  "delta_part (rolling_delta_update t st) =
     (let w = rw_push \<lparr>ds_ts_ns = tk_ts_recv_ns t, ds_signed_qty = sign_volume st t\<rparr> (fst (delta_part st))
      in (w, windowed_sum (usat_sub (tk_ts_recv_ns t) ROLLING_DELTA_WINDOW_NS) (rw_iter w)))"
  "vwap_part (vwap_update t st) = (if tk_ltq t = 0 then vwap_part st
     else (sat_i128 (fst (vwap_part st) + tk_ltp_paise t * uint (tk_ltq t)), usat_add (snd (vwap_part st)) (ucast (tk_ltq t))))"
  "atr_part (atr_update t st) = (rw_push (true_range (fst (pointers st) = 0) (tk_ltp_paise t) (fst (snd (atr_part st)))) (fst (atr_part st)),
     tk_ltp_paise t, tk_ltp_paise t, tk_ltp_paise t)"
  "momentum_part (momentum_update t st) = rw_push (tk_ltp_paise t) (momentum_part st)"
  "donchian_part (donchian_update t st) = rw_push (tk_ltp_paise t) (donchian_part st)"
  "candle_part (candle_update t st) = (let p = tk_ltp_paise t; (w, h, l) = candle_part st
     in (rw_push p w, if h = 0 \<or> p > h then p else h, if l = 0 \<or> p < l then p else l))"
  by (simp_all add: parts rolling_delta_update_def vwap_update_def atr_update_def momentum_update_def donchian_update_def
      candle_update_def true_range_def Let_def)

lemma advance_frame [simp]:
  "delta_part (advance_pointers t st) = delta_part st" "book_part (advance_pointers t st) = book_part st"
  "vwap_part (advance_pointers t st) = vwap_part st" "atr_part (advance_pointers t st) = atr_part st"
  "ema_part (advance_pointers t st) = ema_part st" "momentum_part (advance_pointers t st) = momentum_part st"
  "candle_part (advance_pointers t st) = candle_part st" "sweep_part (advance_pointers t st) = sweep_part st"
  "rsi_part (advance_pointers t st) = rsi_part st" "donchian_part (advance_pointers t st) = donchian_part st"
  "adx_part (advance_pointers t st) = adx_part st" "flow_part (advance_pointers t st) = flow_part st"
  by (simp_all add: parts advance_pointers_def)

lemma fold_tick_eq: "fold_tick lm t st = advance_pointers t (run_indicators lm t st)"
  by (simp add: fold_tick_def process_tick_into_state_def Let_def)

lemma pointers_advance: "pointers (advance_pointers t st) = (usat_add (fst (pointers st)) 1, tk_ltp_paise t, fst (snd (pointers st)))"
  by (simp add: parts advance_pointers_def)

lemma fold_tick_pointers [simp]:
  "pointers (fold_tick lm t st) = (usat_add (fst (pointers st)) 1, tk_ltp_paise t, fst (snd (pointers st)))"
  by (simp add: fold_tick_eq pointers_advance run_indicators_def)

lemma fold_tick_parts [simp]:
  "vwap_part (fold_tick lm t st) = (if tk_ltq t = 0 then vwap_part st
     else (sat_i128 (fst (vwap_part st) + tk_ltp_paise t * uint (tk_ltq t)), usat_add (snd (vwap_part st)) (ucast (tk_ltq t))))"
  "atr_part (fold_tick lm t st) = (rw_push (true_range (fst (pointers st) = 0) (tk_ltp_paise t) (fst (snd (atr_part st)))) (fst (atr_part st)),
     tk_ltp_paise t, tk_ltp_paise t, tk_ltp_paise t)"
  "momentum_part (fold_tick lm t st) = rw_push (tk_ltp_paise t) (momentum_part st)"
  "donchian_part (fold_tick lm t st) = rw_push (tk_ltp_paise t) (donchian_part st)"
  "candle_part (fold_tick lm t st) = (let p = tk_ltp_paise t; (w, h, l) = candle_part st
     in (rw_push p w, if h = 0 \<or> p > h then p else h, if l = 0 \<or> p < l then p else l))"
  "flow_part (fold_tick lm t st) = flow_part st"
  by (simp_all add: fold_tick_eq run_indicators_def part_steps)

subsection \<open>Windows over the whole history\<close>

lemma fresh_window: "0 < n \<Longrightarrow> rw_ok (fresh_window n d)" "0 < n \<Longrightarrow> rw_iter (fresh_window n d) = []"
  "0 < n \<Longrightarrow> rw_capacity (fresh_window n d) = n"
  using rw_new_ok [of n d "fresh_window n d"] by (simp_all add: fresh_window_def rw_new_def)

lemma window_items:
  assumes "0 < n"
  shows "rw_ok (fold rw_push vs (fresh_window n d)) \<and> rw_iter (fold rw_push vs (fresh_window n d)) = last_n n vs"
  using rw.push_all [OF fresh_window(1) [OF assms, of d], of vs] fresh_window [OF assms, of d] by simp

abbreviation prices :: "tick list \<Rightarrow> i64 list" where
  "prices ts \<equiv> map tk_ltp_paise ts"

lemma default_parts [simp]:
  "pointers feature_state_default = (0, 0, 0)" "vwap_part feature_state_default = (0, 0)"
  "atr_part feature_state_default = (fresh_window 14 0, 0, 0, 0)" "momentum_part feature_state_default = fresh_window 10 0"
  "donchian_part feature_state_default = fresh_window 2000 0" "candle_part feature_state_default = (fresh_window 20 0, 0, 0)"
  "flow_part feature_state_default = Fin 0"
  by (simp_all add: parts feature_state_default_def ATR_WINDOW_def MOMENTUM_WINDOW_def DONCHIAN_WINDOW_def COMPRESSION_WINDOW_def)

lemma donchian_run: "donchian_part (feature_run lm ts) = fold rw_push (prices ts) (fresh_window 2000 0)"
  by (induction ts rule: rev_induct) simp_all

lemma momentum_run: "momentum_part (feature_run lm ts) = fold rw_push (prices ts) (fresh_window 10 0)"
  by (induction ts rule: rev_induct) simp_all

lemma compression_run: "fst (candle_part (feature_run lm ts)) = fold rw_push (prices ts) (fresh_window 20 0)"
  by (induction ts rule: rev_induct) (simp_all add: Let_def case_prod_beta)

lemma usat_succ_nonzero: "usat_add (c :: u64) 1 \<noteq> 0"
proof
  assume "usat_add c 1 = 0"
  then have "unat (usat_add c 1) = 0" by simp
  then show False by (simp add: unat_usat_add)
qed

lemma pointers_run:
  "fst (pointers (feature_run lm ts)) = 0 \<longleftrightarrow> ts = []"
  "fst (snd (pointers (feature_run lm ts))) = (if ts = [] then 0 else last (prices ts))"
  "snd (snd (pointers (feature_run lm ts))) = (if length ts < 2 then 0 else last (prices (butlast ts)))"
proof -
  show "fst (pointers (feature_run lm ts)) = 0 \<longleftrightarrow> ts = []"
    by (cases ts rule: rev_cases) (simp_all add: usat_succ_nonzero)
  show last: "fst (snd (pointers (feature_run lm ts))) = (if ts = [] then 0 else last (prices ts))" for ts
    by (cases ts rule: rev_cases) simp_all
  show "snd (snd (pointers (feature_run lm ts))) = (if length ts < 2 then 0 else last (prices (butlast ts)))"
    by (cases ts rule: rev_cases) (simp_all add: last)
qed

text \<open>The true ranges of a price history, the first of them zero.\<close>

fun moves_from :: "i64 \<Rightarrow> i64 list \<Rightarrow> i64 list" where
  "moves_from c [] = []"
| "moves_from c (p # ps) = \<bar>p - c\<bar> # moves_from p ps"

definition abs_moves :: "i64 list \<Rightarrow> i64 list" where
  "abs_moves ps = (if ps = [] then [] else moves_from (hd ps) ps)"

lemma moves_from_snoc: "moves_from c (ps @ [p]) = moves_from c ps @ [\<bar>p - last (c # ps)\<bar>]"
  by (induction ps arbitrary: c) simp_all

lemma abs_moves_snoc: "abs_moves (ps @ [p]) = abs_moves ps @ [\<bar>p - (if ps = [] then p else last ps)\<bar>]"
  by (cases ps) (simp_all add: abs_moves_def moves_from_snoc)

lemma abs_diff_exact: "0 \<le> a \<Longrightarrow> a \<le> i64_max \<Longrightarrow> 0 \<le> b \<Longrightarrow> b \<le> i64_max \<Longrightarrow> i64_abs_diff a b = \<bar>a - b\<bar>"
proof -
  assume "0 \<le> a" "a \<le> i64_max" "0 \<le> b" "b \<le> i64_max"
  then have "in_i64 (a - b)" "in_i64 \<bar>a - b\<bar>" by (auto simp: in_i64_def i64_max_def i64_min_def)
  then show ?thesis by (simp add: i64_abs_diff_def)
qed

definition priced :: "tick list \<Rightarrow> bool" where
  "priced ts \<longleftrightarrow> (\<forall>t \<in> set ts. 0 < tk_ltp_paise t \<and> tk_ltp_paise t \<le> i64_max)"

lemma priced_snoc [simp]: "priced (ts @ [t]) \<longleftrightarrow> priced ts \<and> 0 < tk_ltp_paise t \<and> tk_ltp_paise t \<le> i64_max"
  by (auto simp: priced_def)

lemma priced_last: "priced ts \<Longrightarrow> ts \<noteq> [] \<Longrightarrow> 0 < last (prices ts) \<and> last (prices ts) \<le> i64_max"
  by (cases ts rule: rev_cases) simp_all

lemma atr_run:
  assumes "priced ts"
  shows "fst (atr_part (feature_run lm ts)) = fold rw_push (abs_moves (prices ts)) (fresh_window 14 0)
    \<and> (ts \<noteq> [] \<longrightarrow> fst (snd (atr_part (feature_run lm ts))) = last (prices ts))"
  using assms
proof (induction ts rule: rev_induct)
  case (snoc t ts)
  have "true_range (ts = []) (tk_ltp_paise t) (fst (snd (atr_part (feature_run lm ts))))
      = \<bar>tk_ltp_paise t - (if ts = [] then tk_ltp_paise t else last (prices ts))\<bar>"
    using snoc.IH snoc.prems priced_last [of ts] by (auto simp: true_range_def abs_diff_exact Let_def)
  then show ?case using snoc by (simp add: pointers_run abs_moves_snoc)
qed (simp add: abs_moves_def)

subsection \<open>Running totals\<close>

definition traded_value :: "tick list \<Rightarrow> int" where
  "traded_value ts = (\<Sum>t\<leftarrow>ts. tk_ltp_paise t * uint (tk_ltq t))"

definition traded_volume :: "tick list \<Rightarrow> nat" where
  "traded_volume ts = (\<Sum>t\<leftarrow>ts. unat (tk_ltq t))"

lemma traded_snoc [simp]:
  "traded_value (ts @ [t]) = traded_value ts + tk_ltp_paise t * uint (tk_ltq t)"
  "traded_volume (ts @ [t]) = traded_volume ts + unat (tk_ltq t)"
  by (simp_all add: traded_value_def traded_volume_def)

lemma traded_value_bounds:
  "priced ts \<Longrightarrow> 0 \<le> traded_value ts \<and> traded_value ts \<le> i64_max * int (traded_volume ts)"
proof (induction ts rule: rev_induct)
  case Nil
  then show ?case by (simp add: traded_value_def traded_volume_def)
next
  case (snoc t ts)
  have "tk_ltp_paise t * uint (tk_ltq t) \<le> i64_max * uint (tk_ltq t)"
    using snoc.prems by (intro mult_right_mono) auto
  moreover have "i64_max * int (traded_volume (ts @ [t])) = i64_max * int (traded_volume ts) + i64_max * uint (tk_ltq t)"
    by (simp add: distrib_left)
  moreover have "0 \<le> tk_ltp_paise t * uint (tk_ltq t)" using snoc.prems by simp
  ultimately show ?case using snoc.IH snoc.prems by (simp del: of_nat_add)
qed

lemma unat_of_volume: "n < 2 ^ 63 \<Longrightarrow> unat (of_nat n :: u128) = n"
  by (simp add: unat_of_nat)

lemma unat_ucast_up: "LENGTH('a) \<le> LENGTH('b) \<Longrightarrow> unat (ucast (x :: 'a :: len word) :: 'b :: len word) = unat x"
  by transfer (simp add: min_def)

lemma vwap_run:
  assumes "priced ts" "traded_volume ts < 2 ^ 63"
  shows "vwap_part (feature_run lm ts) = (traded_value ts, of_nat (traded_volume ts))"
  using assms
proof (induction ts rule: rev_induct)
  case Nil
  then show ?case by (simp add: traded_value_def traded_volume_def)
next
  case (snoc t ts)
  let ?V = "traded_volume (ts @ [t])"
  have IH: "vwap_part (feature_run lm ts) = (traded_value ts, of_nat (traded_volume ts))" using snoc by simp
  have "traded_value (ts @ [t]) \<le> i64_max * int ?V" "0 \<le> traded_value (ts @ [t])"
    using traded_value_bounds [OF snoc.prems(1)] by blast+
  moreover have "i64_max * int ?V \<le> i64_max * 2 ^ 63"
    using snoc.prems(2) by (intro mult_left_mono) (simp_all add: i64_max_def del: traded_snoc)
  ultimately have "in_i128 (traded_value (ts @ [t]))" by (simp add: in_i128_def i128_max_def i128_min_def i64_max_def)
  then have num: "sat_i128 (traded_value ts + tk_ltp_paise t * uint (tk_ltq t)) = traded_value (ts @ [t])" by simp
  have old: "unat (of_nat (traded_volume ts) :: u128) = traded_volume ts"
    using snoc.prems(2) by (intro unat_of_volume) simp
  have "unat (ucast (tk_ltq t) :: u128) = unat (tk_ltq t)" by (rule unat_ucast_up) simp
  then have "unat (usat_add (of_nat (traded_volume ts) :: u128) (ucast (tk_ltq t))) = ?V"
    using snoc.prems(2) old by (simp add: unat_usat_add)
  then have den: "usat_add (of_nat (traded_volume ts) :: u128) (ucast (tk_ltq t)) = of_nat ?V"
    using unat_of_volume [OF snoc.prems(2)] by (simp add: word_unat_eq_iff)
  show ?case
    using num den by (cases "tk_ltq t = 0") (simp_all add: IH)
qed

lemma sdiv_nonneg: "0 \<le> (n :: int) \<Longrightarrow> 0 < d \<Longrightarrow> n sdiv d = n div d"
  by (cases "n = 0") (simp_all add: signed_divide_int_def sgn_if)

lemma vwap_compute_run:
  assumes "priced ts" "traded_volume ts < 2 ^ 63"
  shows "vwap_compute (feature_run lm ts) = traded_value ts div int (traded_volume ts)"
proof -
  define st where "st = feature_run lm ts"
  have p: "fs_vwap_num st = traded_value ts" "fs_vwap_den st = of_nat (traded_volume ts)"
    using vwap_run [OF assms, of lm] by (simp_all add: vwap_part_def st_def)
  have u: "uint (of_nat (traded_volume ts) :: u128) = int (traded_volume ts)"
    unfolding uint_nat using unat_of_volume [OF assms(2)] by simp
  have z: "(of_nat (traded_volume ts) :: u128) = 0 \<longleftrightarrow> traded_volume ts = 0"
    by (simp only: word_unat_eq_iff unat_of_volume [OF assms(2)] unat_0)
  show ?thesis
  proof (cases "traded_volume ts = 0")
    case True
    then show ?thesis by (simp add: vwap_compute_def p z flip: st_def)
  next
    case False
    note b = traded_value_bounds [OF assms(1)]
    have w: "wrap_i128 (int (traded_volume ts)) = int (traded_volume ts)"
      using assms(2) by (intro wrap_i128_id) (simp add: in_i128_def i128_max_def i128_min_def)
    have q: "traded_value ts sdiv int (traded_volume ts) = traded_value ts div int (traded_volume ts)"
      using b False by (intro sdiv_nonneg) auto
    have "traded_value ts div int (traded_volume ts) \<le> i64_max * int (traded_volume ts) div int (traded_volume ts)"
      using b False by (intro zdiv_mono1) auto
    moreover have "0 \<le> traded_value ts div int (traded_volume ts)" using b by (simp add: pos_imp_zdiv_nonneg_iff False div_int_pos_iff)
    ultimately show ?thesis
      using False by (simp add: vwap_compute_def p z u w q Let_def i64_min_def flip: st_def)
  qed
qed

lemma session_run:
  assumes "priced ts" "ts \<noteq> []"
  shows "snd (candle_part (feature_run lm ts)) = (Max (set (prices ts)), Min (set (prices ts)))"
  using assms
proof (induction ts rule: rev_induct)
  case (snoc t ts)
  let ?p = "tk_ltp_paise t"
  show ?case
  proof (cases "ts = []")
    case True
    then show ?thesis using feature_run_snoc [of lm "[]" t] by (simp add: Let_def)
  next
    case False
    have pos: "\<forall>q \<in> set (prices ts). 0 < q" using snoc.prems(1) by (auto simp: priced_def)
    have IH: "snd (candle_part (feature_run lm ts)) = (Max (set (prices ts)), Min (set (prices ts)))"
      using snoc.IH snoc.prems(1) False by simp
    have ne: "set (prices ts) \<noteq> {}" using False by simp
    define M where "M = Max (set (prices ts))"
    define m where "m = Min (set (prices ts))"
    have "0 < M" "0 < m" using pos Max_in [OF _ ne] Min_in [OF _ ne] by (auto simp: M_def m_def)
    moreover have "Max (set (prices (ts @ [t]))) = max ?p M" "Min (set (prices (ts @ [t]))) = min ?p m"
      using ne by (simp_all add: M_def m_def)
    ultimately show ?thesis
      using IH unfolding M_def [symmetric] m_def [symmetric] by (simp add: Let_def case_prod_beta max_def min_def)
  qed
qed simp

subsection \<open>Equivalence with the formulas over the history\<close>

definition mean_floor :: "int list \<Rightarrow> int" where
  "mean_floor xs = (if xs = [] then 0 else sum_list xs div int (length xs))"

definition momentum_of :: "i64 list \<Rightarrow> flt" where
  "momentum_of ps = (if length ps < 2 then Fin 0
     else f64_to_f32 (fdiv F64 (fsub F64 (f64_of (last ps)) (f64_of (hd ps))) (f64_of (hd ps))))"

lemma foldl_max: "foldl (\<lambda>m p. if p > m then p else m) m xs = Max (insert m (set xs))" for m :: int
proof (induction xs arbitrary: m)
  case (Cons x xs)
  have "Max (insert m (insert x (set xs))) = Max (insert (max m x) (set xs))"
    by (cases "xs = []") (simp_all add: max.assoc)
  then show ?case using Cons by (simp add: max_def)
qed simp

lemma foldl_min: "foldl (\<lambda>m p. if p < m then p else m) m xs = Min (insert m (set xs))" for m :: int
proof (induction xs arbitrary: m)
  case (Cons x xs)
  have "Min (insert m (insert x (set xs))) = Min (insert (min m x) (set xs))"
    by (cases "xs = []") (simp_all add: min.assoc)
  then show ?case using Cons by (simp add: min_def)
qed simp

lemma foldl_add: "foldl (+) a xs = a + sum_list xs" for a :: int
  by (induction xs arbitrary: a) simp_all

lemma last_n_ne: "0 < n \<Longrightarrow> xs \<noteq> [] \<Longrightarrow> last_n n xs \<noteq> []"
  by (cases xs) (simp_all add: last_n_def)

lemma rw_facts:
  assumes "0 < n" "w = fold rw_push vs (fresh_window n d)"
  shows "rw_iter w = last_n n vs" "rw_len w = length (last_n n vs)" "rw_is_empty w \<longleftrightarrow> vs = []"
    "rw_oldest w = (if vs = [] then None else Some (hd (last_n n vs)))" "rw_latest w = (if vs = [] then None else Some (last vs))"
proof -
  note w = window_items [OF assms(1), of vs d, folded assms(2)]
  have e: "last_n n vs = [] \<longleftrightarrow> vs = []" using last_n_ne [OF assms(1), of vs] by (auto simp: last_n_def)
  have "vs \<noteq> [] \<Longrightarrow> last (last_n n vs) = last vs" using assms(1) by (simp add: last_n_def)
  then show "rw_latest w = (if vs = [] then None else Some (last vs))" using w e by (simp add: rw_latest_last)
  show "rw_iter w = last_n n vs" "rw_len w = length (last_n n vs)" using w length_rw_iter [of w] by simp_all
  then show "rw_is_empty w \<longleftrightarrow> vs = []" using e by (simp add: rw_is_empty_def)
  show "rw_oldest w = (if vs = [] then None else Some (hd (last_n n vs)))" using w e by (simp add: rw_oldest_hd)
qed

lemma price_window_range: "priced ts \<Longrightarrow> p \<in> set (last_n n (prices ts)) \<Longrightarrow> 0 < p \<and> p \<le> i64_max"
  using set_last_n [of n "prices ts"] by (force simp: priced_def)

lemma donchian_compute_run:
  assumes "priced ts" "ts \<noteq> []"
  shows "donchian_upper (feature_run lm ts) = Max (set (last_n 2000 (prices ts)))"
    "donchian_lower (feature_run lm ts) = Min (set (last_n 2000 (prices ts)))"
proof -
  define w where "w = fs_donchian_prices (feature_run lm ts)"
  have w: "w = fold rw_push (prices ts) (fresh_window 2000 0)" using donchian_run [of lm ts] by (simp add: w_def donchian_part_def)
  have f: "rw_iter w = last_n 2000 (prices ts)" "\<not> rw_is_empty w" using rw_facts(1,3) [OF _ w] assms(2) by simp_all
  have ne: "set (last_n 2000 (prices ts)) \<noteq> {}" using last_n_ne [of 2000 "prices ts"] assms(2) by simp
  note r = price_window_range [OF assms(1), of _ 2000]
  have "i64_min \<le> Max (set (last_n 2000 (prices ts)))" "Min (set (last_n 2000 (prices ts))) \<le> i64_max"
    using r [OF Max_in [OF _ ne]] r [OF Min_in [OF _ ne]] by (simp_all add: i64_min_def)
  then show "donchian_upper (feature_run lm ts) = Max (set (last_n 2000 (prices ts)))"
    "donchian_lower (feature_run lm ts) = Min (set (last_n 2000 (prices ts)))"
    using f ne by (simp_all add: donchian_upper_def donchian_lower_def foldl_max foldl_min max_absorb2 min_absorb2 flip: w_def)
qed

lemma abs_moves_range: "priced ts \<Longrightarrow> x \<in> set (abs_moves (prices ts)) \<Longrightarrow> 0 \<le> x \<and> x \<le> i64_max"
proof (induction ts arbitrary: x rule: rev_induct)
  case (snoc t ts)
  then show ?case using priced_last [of ts] by (cases "ts = []") (auto simp: abs_moves_snoc i64_max_def abs_moves_def [of "[_]"])
qed (simp add: abs_moves_def)

lemma sum_list_bound: "\<forall>x \<in> set xs. 0 \<le> x \<and> x \<le> b \<Longrightarrow> 0 \<le> sum_list xs \<and> sum_list xs \<le> b * int (length xs)" for b :: int
  by (induction xs) (auto simp: algebra_simps)

lemma mean_floor_range: "\<forall>x \<in> set xs. 0 \<le> x \<and> x \<le> b \<Longrightarrow> 0 \<le> b \<Longrightarrow> 0 \<le> mean_floor xs \<and> mean_floor xs \<le> b"
proof (cases "xs = []")
  case False
  assume r: "\<forall>x \<in> set xs. 0 \<le> x \<and> x \<le> b" "0 \<le> b"
  have n: "0 < int (length xs)" using False by simp
  have "sum_list xs div int (length xs) \<le> b * int (length xs) div int (length xs)"
    using sum_list_bound [OF r(1)] n by (intro zdiv_mono1) auto
  then show ?thesis using False n sum_list_bound [OF r(1)] by (simp add: mean_floor_def pos_imp_zdiv_nonneg_iff)
qed (simp add: mean_floor_def)

lemma atr_compute_run:
  assumes "priced ts"
  shows "atr_compute (feature_run lm ts) = mean_floor (last_n 14 (abs_moves (prices ts)))"
proof -
  define w where "w = fs_tr_window (feature_run lm ts)"
  have w: "w = fold rw_push (abs_moves (prices ts)) (fresh_window 14 0)"
    using atr_run [OF assms, of lm] by (simp add: w_def atr_part_def)
  define xs where "xs = last_n 14 (abs_moves (prices ts))"
  have f: "rw_iter w = xs" "rw_len w = length xs" "rw_is_empty w \<longleftrightarrow> xs = []"
    using rw_facts(1,2,3) [OF _ w] last_n_ne [of 14 "abs_moves (prices ts)"] by (auto simp: xs_def)
  have r: "\<forall>x \<in> set xs. 0 \<le> x \<and> x \<le> i64_max"
    using abs_moves_range [OF assms] set_last_n [of 14 "abs_moves (prices ts)"] by (auto simp: xs_def)
  have "in_i64 (mean_floor xs)" using mean_floor_range [OF r] by (simp add: in_i64_def i64_max_def i64_min_def)
  moreover have "sum_list xs sdiv int (length xs) = mean_floor xs" if "xs \<noteq> []"
    using that sum_list_bound [OF r] by (simp add: mean_floor_def sdiv_nonneg)
  ultimately show ?thesis
    by (cases "xs = []") (simp_all add: atr_compute_def f foldl_add mean_floor_def flip: w_def xs_def)
qed

lemma momentum_compute_run:
  assumes "priced ts"
  shows "momentum_compute (feature_run lm ts) = momentum_of (last_n 10 (prices ts))"
proof -
  define w where "w = fs_momentum_prices (feature_run lm ts)"
  have w: "w = fold rw_push (prices ts) (fresh_window 10 0)" using momentum_run [of lm ts] by (simp add: w_def momentum_part_def)
  note f = rw_facts [OF _ w, simplified]
  have "hd (last_n 10 (prices ts)) \<noteq> 0" if "ts \<noteq> []"
    using price_window_range [OF assms hd_in_set [OF last_n_ne [of 10 "prices ts"]]] that by simp
  moreover have "last (last_n 10 (prices ts)) = last (prices ts)" if "ts \<noteq> []" using that by (simp add: last_n_def)
  ultimately show ?thesis
    using f by (auto simp: momentum_compute_def momentum_of_def length_last_n simp flip: w_def)
qed

text \<open>An exponential average seeded with the first price, and its rounding to paise.\<close>

definition ema_acc :: "flt \<Rightarrow> i64 list \<Rightarrow> flt" where
  "ema_acc alpha ps = foldl (\<lambda>acc p. fadd F64 acc (fmul F64 alpha (fsub F64 (f64_of p) acc))) (f64_of (hd ps)) (tl ps)"

definition ema_of :: "flt \<Rightarrow> i64 list \<Rightarrow> i64" where
  "ema_of alpha ps = (if length ps = 1 then hd ps else flt_to_i64 (flt_round (ema_acc alpha ps)))"

lemma ema_step_batch:
  "ema_step alpha p False acc = (ema_acc alpha [p], ema_of alpha [p])"
  "ps \<noteq> [] \<Longrightarrow> ema_step alpha p True (ema_acc alpha ps) = (ema_acc alpha (ps @ [p]), ema_of alpha (ps @ [p]))"
  by (simp_all add: ema_step_def ema_acc_def ema_of_def Let_def)

lemma ema_part_fold: "ema_part (fold_tick lm t st) = ema_part (ema_update t st)"
proof -
  have cong: "ema_part (ema_update t s) = ema_part (ema_update t s')" if "ema_part s = ema_part s'" for s s'
    using that by (simp add: ema_part_def ema_update_def case_prod_beta Let_def)
  show ?thesis by (simp add: fold_tick_eq run_indicators_def) (rule cong, simp)
qed

definition ema_state :: "feature_state \<Rightarrow> (flt \<times> i64 \<times> bool) list" where
  "ema_state st = [(fs_ema_fast_acc st, fs_ema_fast_paise st, fs_ema_fast_seeded st), (fs_ema_slow_acc st, fs_ema_slow_paise st, fs_ema_slow_seeded st),
     (fs_ema_trend_acc st, fs_ema_trend_paise st, fs_ema_trend_seeded st)]"

lemma ema_run:
  "ts \<noteq> [] \<Longrightarrow> ema_state (feature_run lm ts) = map (\<lambda>a. (ema_acc a (prices ts), ema_of a (prices ts), True)) [ALPHA_FAST, ALPHA_SLOW, ALPHA_TREND]"
proof (induction ts rule: rev_induct)
  case (snoc t ts)
  have st: "ema_state s = ema_state s'" if "ema_part s = ema_part s'" for s s' using that by (simp add: ema_part_def ema_state_def)
  have step: "ema_state (feature_run lm (ts @ [t])) = ema_state (ema_update t (feature_run lm ts))"
    by (rule st) (simp add: ema_part_fold)
  show ?case
  proof (cases "ts = []")
    case True
    have "ema_state feature_state_default = [(Fin 0, 0, False), (Fin 0, 0, False), (Fin 0, 0, False)]"
      by (simp add: ema_state_def feature_state_default_def)
    then show ?thesis unfolding step using True by (simp add: ema_state_def ema_update_def ema_step_batch case_prod_beta)
  next
    case False
    then show ?thesis unfolding step using snoc.IH
      by (simp add: ema_state_def ema_update_def ema_step_batch case_prod_beta)
  qed
qed simp

lemma ema_compute_run:
  assumes "ts \<noteq> []"
  shows "ema_compute_fast (feature_run lm ts) = ema_of ALPHA_FAST (prices ts)" "ema_compute_slow (feature_run lm ts) = ema_of ALPHA_SLOW (prices ts)"
    "ema_compute_trend (feature_run lm ts) = ema_of ALPHA_TREND (prices ts)"
  using ema_run [OF assms, of lm] by (simp_all add: ema_state_def ema_compute_fast_def ema_compute_slow_def ema_compute_trend_def)

text \<open>Log returns of a price history and their sample standard deviation, in \<open>f64\<close> with the rounding of the code.\<close>

definition log_returns :: "libm \<Rightarrow> i64 list \<Rightarrow> flt list" where
  "log_returns lm ps = map2 (\<lambda>p c. fsub F64 (lm_ln lm (f64_of c)) (lm_ln lm (f64_of p))) (butlast ps) (tl ps)"

lemma log_returns_snoc: "ps \<noteq> [] \<Longrightarrow> log_returns lm (ps @ [p]) = log_returns lm ps @ [fsub F64 (lm_ln lm (f64_of p)) (lm_ln lm (f64_of (last ps)))]"
proof -
  assume ne: "ps \<noteq> []"
  have "map2 f ps (tl ps @ [p]) = map2 f (butlast ps) (tl ps) @ [f (last ps) p]" for f :: "i64 \<Rightarrow> i64 \<Rightarrow> flt"
  proof -
    have "zip (butlast ps @ [last ps]) (tl ps @ [p]) = zip (butlast ps) (tl ps) @ [(last ps, p)]" by (subst zip_append) simp_all
    then show ?thesis using ne by simp
  qed
  with ne show ?thesis by (simp add: log_returns_def)
qed

definition sample_sd :: "libm \<Rightarrow> flt list \<Rightarrow> flt" where
  "sample_sd lm vs = (if length vs < 2 then Fin 0
     else let n = f64_of (int (length vs)); mean = fdiv F64 (foldl (fadd F64) (Fin 0) vs) n;
              sq = map (\<lambda>v. fmul F64 (fsub F64 v mean) (fsub F64 v mean)) vs
          in f64_to_f32 (lm_sqrt lm (fdiv F64 (foldl (fadd F64) (Fin 0) sq) (fsub F64 n (Fin 1)))))"

lemma returns_frame [simp]:
  "fs_log_returns (rolling_delta_update t st) = fs_log_returns st" "fs_log_returns (liquidity_update t st) = fs_log_returns st"
  "fs_log_returns (vwap_update t st) = fs_log_returns st" "fs_log_returns (atr_update t st) = fs_log_returns st"
  "fs_log_returns (ema_update t st) = fs_log_returns st" "fs_log_returns (momentum_update t st) = fs_log_returns st"
  "fs_log_returns (candle_update t st) = fs_log_returns st" "fs_log_returns (sweep_update t st) = fs_log_returns st"
  "fs_log_returns (rsi_update t st) = fs_log_returns st" "fs_log_returns (donchian_update t st) = fs_log_returns st"
  "fs_log_returns (adx_update t st) = fs_log_returns st" "fs_log_returns (advance_pointers t st) = fs_log_returns st"
  by (simp_all add: rolling_delta_update_def liquidity_update_def vwap_update_def atr_update_def ema_update_def momentum_update_def candle_update_def
      sweep_update_def rsi_update_def donchian_update_def adx_update_def adx_smoothed_def advance_pointers_def Let_def case_prod_beta)

lemma log_returns_fold: "fs_log_returns (fold_tick lm t st) = fs_log_returns (volatility_update lm t st)"
proof -
  have cong: "fs_log_returns (volatility_update lm t s) = fs_log_returns (volatility_update lm t s')"
    if "fs_log_returns s = fs_log_returns s'" "pointers s = pointers s'" for s s'
    using that by (simp add: volatility_update_def pointers_def)
  show ?thesis by (simp add: fold_tick_eq run_indicators_def) (rule cong, simp_all)
qed

lemma returns_run:
  "priced ts \<Longrightarrow> fs_log_returns (feature_run lm ts) = fold rw_push (log_returns lm (prices ts)) (fresh_window 30 (Fin 0))"
proof (induction ts rule: rev_induct)
  case Nil
  show ?case by (simp add: log_returns_def feature_state_default_def VOLATILITY_WINDOW_def)
next
  case (snoc t ts)
  then have IH: "fs_log_returns (feature_run lm ts) = fold rw_push (log_returns lm (prices ts)) (fresh_window 30 (Fin 0))" by simp
  have l: "fs_last_ltp_paise (feature_run lm ts) = (if ts = [] then 0 else last (prices ts))" using pointers_run(2) [of lm ts] by (simp add: pointers_def)
  show ?case
  proof (cases "ts = []")
    case True
    then show ?thesis using IH l feature_run_snoc [of lm ts t]
      by (simp add: log_returns_fold volatility_update_def log_returns_def del: feature_run_snoc)
  next
    case False
    then show ?thesis using IH l priced_last [of ts] snoc.prems log_returns_snoc [of "prices ts" lm]
      by (simp add: log_returns_fold volatility_update_def)
  qed
qed

lemma volatility_compute_run:
  assumes "priced ts"
  shows "volatility_compute lm (feature_run lm ts) = sample_sd lm (last_n 30 (log_returns lm (prices ts)))"
proof -
  have "foldl (\<lambda>a v. fadd F64 a (fmul F64 (fsub F64 v m) (fsub F64 v m))) b vs = foldl (fadd F64) b (map (\<lambda>v. fmul F64 (fsub F64 v m) (fsub F64 v m)) vs)" for m b vs
    by (simp add: foldl_map)
  then show ?thesis using rw_facts(1,2) [OF _ returns_run [OF assms, of lm]] by (simp add: volatility_compute_def sample_sd_def Let_def)
qed


subsection \<open>Degenerate indicators\<close>

lemma rnd_zero [simp]: "rnd fmt 0 = Fin 0"
  using ftop_pos [of fmt] by (simp add: rnd_def)

lemma is_flt_rnd [simp]: "is_flt fmt (rnd fmt q)"
proof (cases "rnd fmt q")
  case (Fin r)
  then have r: "r = rnd_rat fmt q" "\<bar>r\<bar> \<le> ftop fmt" using rnd_FinD by blast+
  have "rnd_rat fmt r = r" using rnd_rat_form [of fmt q] r(1) by (metis rnd_rat_exact)
  then show ?thesis using Fin r(2) unfolding is_flt_def rnd_def Let_def by (auto simp del: ftop.simps)
qed (simp_all add: is_flt_def)

lemma rnd_again: "rnd fmt q = Fin r \<Longrightarrow> rnd fmt r = Fin r"
  using is_flt_rnd [of fmt q] by (simp add: is_flt_def)

lemma fsub_self: "fsub fmt x x \<in> {Fin 0, NaN}"
  by (cases x) (simp_all add: fsub_def)

lemma fdiv_zero_pos: "flt_lt (Fin 0) x \<Longrightarrow> fdiv fmt (Fin 0) x = Fin 0"
  by (cases x) auto

lemma f64_of_i64: "\<bar>n\<bar> \<le> 2 ^ 63 \<Longrightarrow> \<exists>q. f64_of n = Fin q \<and> (0 < n \<longrightarrow> 1 \<le> q)"
proof -
  assume n: "\<bar>n\<bar> \<le> 2 ^ 63"
  have top: "rnd F64 (2 ^ 63) = Fin (2 ^ 63)"
    using rnd_rat_exact [of "2 ^ 63" 1 63 F64] by (simp add: rnd_def)
  have bot: "rnd F64 (- (2 ^ 63)) = Fin (- (2 ^ 63))"
    using rnd_rat_exact [of "- (2 ^ 63)" "- 1" 63 F64] by (simp add: rnd_def)
  have "flt_le (rnd F64 (of_int n)) (Fin (2 ^ 63))" "flt_le (Fin (- (2 ^ 63))) (rnd F64 (of_int n))"
    using rnd_mono [of "of_int n" "2 ^ 63" F64] rnd_mono [of "- (2 ^ 63)" "of_int n" F64] n unfolding top bot
    by (simp_all add: abs_le_iff)
  moreover have "0 < n \<Longrightarrow> flt_le (Fin 1) (rnd F64 (of_int n))"
    using rnd_mono [of 1 "of_int n" F64] rnd_F64_int [of 1] by simp
  ultimately show ?thesis by (cases "rnd F64 (of_int n)") (auto simp: flt_of_int_def)
qed

lemma adx_zero:
  assumes "adx_part st = (Fin 0, Fin 0, Fin 0, Fin 0)" "fs_bar_high_paise st = tk_ltp_paise t" "fs_bar_low_paise st = tk_ltp_paise t"
  shows "adx_part (adx_update t st) = (Fin 0, Fin 0, Fin 0, Fin 0)"
proof -
  let ?l = "f64_of (tk_ltp_paise t)"
  have w: "f64_of 1400 = Fin 1400" by (simp add: flt_of_int_exact)
  have wi: "wilder (Fin 0) (Fin 0) = Fin 0" by (simp add: wilder_def ADX_WINDOW_def w fsub_def)
  have pd: "\<not> flt_lt (Fin 0) (fsub F64 ?l ?l)" using fsub_self [of F64 ?l] by auto
  have smooth: "fdiv F64 (fadd F64 (fmul F64 (Fin 0) (fsub F64 (Fin 1400) (Fin 1))) (Fin 0)) (Fin 1400) = Fin 0"
    using rnd_F64_int [of 1399] by (simp add: fsub_def)
  show ?thesis
    using assms by (simp add: adx_update_def adx_part_def adx_smoothed_def Let_def pd fdiv_zero_pos wi smooth ADX_WINDOW_def w f64_to_f32_def)
qed

lemma default_adx: "adx_part feature_state_default = (Fin 0, Fin 0, Fin 0, Fin 0)"
  and default_rsi: "rsi_part feature_state_default = (Fin 0, Fin 0, Fin 0)"
  by (simp_all add: adx_part_def rsi_part_def feature_state_default_def)

lemma adx_run: "adx_part (feature_run lm ts) = (Fin 0, Fin 0, Fin 0, Fin 0)"
proof (induction ts rule: rev_induct)
  case (snoc t ts)
  let ?pre = "donchian_update t (rsi_update t (sweep_update t (candle_update t (momentum_update t
       (volatility_update lm t (ema_update t (atr_update t (vwap_update t (liquidity_update t
         (rolling_delta_update t (feature_run lm ts)))))))))))"
  have "snd (snd (atr_part ?pre)) = (tk_ltp_paise t, tk_ltp_paise t)" by (simp add: part_steps)
  moreover have "adx_part ?pre = (Fin 0, Fin 0, Fin 0, Fin 0)" using snoc by simp
  ultimately show ?case by (simp add: fold_tick_eq run_indicators_def adx_zero atr_part_def)
qed (simp add: default_adx)

lemma candle_binary:
  assumes "0 \<le> fs_last_ltp_paise st" "fs_last_ltp_paise st \<le> i64_max" "0 \<le> fs_prev_ltp_paise st" "fs_prev_ltp_paise st \<le> i64_max"
  shows "candle_classify st \<in> {Doji, Marubozu}"
proof -
  define b where "b = \<bar>fs_last_ltp_paise st - fs_prev_ltp_paise st\<bar>"
  have b: "0 \<le> b" "b \<le> i64_max" using assms by (auto simp: b_def)
  have body: "i64_abs_diff (fs_last_ltp_paise st) (fs_prev_ltp_paise st) = b" using assms by (simp add: abs_diff_exact b_def)
  have diff: "max (fs_prev_ltp_paise st) (fs_last_ltp_paise st) - min (fs_prev_ltp_paise st) (fs_last_ltp_paise st) = b"
    by (simp add: b_def max_def min_def)
  have "in_i64 b" using b by (simp add: in_i64_def i64_min_def)
  then have range_px: "wrap_i64 b = b" by simp
  have "flt_lt (rnd F64 (95 / 100)) (fdiv F64 (f64_of b) (f64_of (max b 1)))" if "b \<noteq> 0"
  proof -
    have "0 < b" "\<bar>b\<bar> \<le> 2 ^ 63" using b that by (simp_all add: i64_max_def)
    then obtain q where q: "f64_of b = Fin q" "1 \<le> q" using f64_of_i64 by blast
    have "rnd_rat F64 (31 / 32) = 31 / 32"
      by (rule rnd_rat_exact [where k = 31 and e = "- 5"]) (simp_all add: power_int_minus)
    then have "rnd F64 (31 / 32) = Fin (31 / 32)" by (simp add: rnd_def)
    then have "flt_le (rnd F64 (95 / 100)) (Fin (31 / 32))" using rnd_mono [of "95 / 100" "31 / 32" F64] by simp
    then have "flt_lt (rnd F64 (95 / 100)) (Fin 1)" by (cases "rnd F64 (95 / 100)") auto
    moreover have "max b 1 = b" using that b by simp
    moreover have "fdiv F64 (Fin q) (Fin q) = Fin 1" using q(2) rnd_F64_int [of 1] by simp
    ultimately show ?thesis using q by simp
  qed
  then show ?thesis
    by (simp add: candle_classify_def Let_def body diff range_px)
qed

lemma rsi_first:
  "fst (pointers st) = 0 \<Longrightarrow> rsi_part (rsi_update t st) = (fst (rsi_part st), fst (snd (rsi_part st)), Fin 0)"
  by (simp add: rsi_update_def rsi_part_def pointers_def)

lemma rsi_second:
  assumes "fs_tick_count st = 1" "fs_prev_ltp_paise st = 0" "rsi_part st = (Fin 0, Fin 0, v)" "0 < tk_ltp_paise t" "tk_ltp_paise t \<le> i64_max"
  shows "snd (snd (rsi_part (rsi_update t st))) = Fin 100"
proof -
  obtain q where q: "f64_of (tk_ltp_paise t) = Fin q" "1 \<le> q"
    using f64_of_i64 [of "tk_ltp_paise t"] assms(4,5) by (auto simp: i64_max_def)
  have z: "f64_of 0 = Fin 0" "f64_of 1 = Fin 1" by (simp_all add: flt_of_int_exact)
  have "fsub F64 (Fin q) (Fin 0) = Fin q" using q(1) rnd_again by (simp add: fsub_def flt_of_int_def)
  then show ?thesis
    using assms(1-3) q z by (simp add: rsi_update_def rsi_part_def rsi_smooth_def Let_def RSI_WINDOW_def fsub_def)
qed

text \<open>Three of the published indicators do not measure anything. On every history of positively priced ticks the
  ADX is 0, since the directional move is taken against a bar that the ATR update has already set to the current
  price; the candle structure is Doji (0) or Marubozu (1), since its high and low are the open and the close; and the
  RSI of the second tick is 100 whatever the price did, since its previous price is still unset.\<close>

theorem degenerate_indicators:
  assumes "priced (ts @ [t])"
  shows "fn_adx (last_snapshot lm ts t) = Fin 0
    \<and> fn_candle_structure (last_snapshot lm ts t) \<in> {0, 1}
    \<and> (length ts = 1 \<longrightarrow> fn_rsi (last_snapshot lm ts t) = Fin 100)"
proof (intro conjI impI)
  let ?st = "feature_run lm (ts @ [t])"
  have "fs_last_ltp_paise ?st = tk_ltp_paise t" "fs_prev_ltp_paise ?st = (if ts = [] then 0 else last (prices ts))"
    using pointers_run(2,3) [of lm "ts @ [t]"] by (auto simp: pointers_def simp del: feature_run_snoc)
  then have "candle_classify ?st \<in> {Doji, Marubozu}"
    using assms priced_last [of ts] by (intro candle_binary) (auto simp: i64_max_def)
  then show "fn_candle_structure (last_snapshot lm ts t) \<in> {0, 1}"
    by (auto simp: last_snapshot_eq snapshot_of_def simp del: feature_run_snoc)
  show "fn_adx (last_snapshot lm ts t) = Fin 0"
    using adx_run [of lm "ts @ [t]"] by (simp add: last_snapshot_eq snapshot_of_def adx_part_def del: feature_run_snoc)
  assume "length ts = 1"
  then obtain u where u: "ts = [u]" by (cases ts) auto
  let ?pre = "sweep_update t (candle_update t (momentum_update t (volatility_update lm t (ema_update t (atr_update t
     (vwap_update t (liquidity_update t (rolling_delta_update t (feature_run lm [u])))))))))"
  have run: "feature_run lm [u] = fold_tick lm u feature_state_default" using feature_run_snoc [of lm "[]" u] by simp
  have "pointers ?pre = (1, tk_ltp_paise u, 0)" by (simp add: run usat_add_def)
  moreover have "\<exists>v. rsi_part ?pre = (Fin 0, Fin 0, v)"
    by (simp add: run fold_tick_eq run_indicators_def rsi_first default_rsi)
  ultimately have "snd (snd (rsi_part (rsi_update t ?pre))) = Fin 100"
    using assms by (auto simp: pointers_def intro: rsi_second)
  then have "snd (snd (rsi_part ?st)) = Fin 100" using feature_run_snoc [of lm "[u]" t] by (simp add: u fold_tick_eq run_indicators_def)
  then show "fn_rsi (last_snapshot lm ts t) = Fin 100"
    by (simp add: last_snapshot_eq snapshot_of_def rsi_part_def del: feature_run_snoc)
qed

definition plain_libm :: libm where
  "plain_libm = \<lparr>lm_ln = (\<lambda>x. x), lm_sqrt = (\<lambda>x. x)\<rparr>"

definition tick_at :: "i64 \<Rightarrow> u64 \<Rightarrow> tick" where
  "tick_at p q = sample_tick\<lparr>tk_ltp_paise := p, tk_ltq := q\<rparr>"

theorem degenerate_indicators_witness:
  "fn_adx (last_snapshot plain_libm [tick_at 200 2] (tick_at 100 3)) = Fin 0
    \<and> fn_candle_structure (last_snapshot plain_libm [tick_at 200 2] (tick_at 100 3)) \<in> {0, 1}
    \<and> fn_rsi (last_snapshot plain_libm [tick_at 200 2] (tick_at 100 3)) = Fin 100"
  using degenerate_indicators [of "[tick_at 200 2]" "tick_at 100 3" plain_libm]
  by (simp add: priced_def tick_at_def i64_max_def)


section \<open>What the engine publishes is well formed\<close>

definition fs_ok :: "feature_state \<Rightarrow> bool" where
  "fs_ok st \<longleftrightarrow> in_i64 (fs_rolling_delta_cached st)
     \<and> in_i64 (fs_ema_fast_paise st) \<and> in_i64 (fs_ema_slow_paise st) \<and> in_i64 (fs_ema_trend_paise st)
     \<and> rw_ok (fs_donchian_prices st) \<and> list_all in_i64 (rw_iter (fs_donchian_prices st))
     \<and> is_flt F32 (fs_rsi_value st) \<and> is_flt F32 (fs_adx_value st) \<and> is_flt F32 (fs_liquidity_imbalance_cached st)
     \<and> is_flt F32 (fs_orderflow_strength_cached st) \<and> is_flt F32 (fs_sweep_signal st)"

lemma is_flt_small_int: "\<bar>n\<bar> \<le> 16777216 \<Longrightarrow> is_flt F32 (Fin (of_int n))"
proof -
  assume n: "\<bar>n\<bar> \<le> 16777216"
  have "\<bar>of_int n :: rat\<bar> = of_int \<bar>n\<bar>" by simp
  also have "\<dots> \<le> 16777216" using n by (metis of_int_le_iff of_int_numeral)
  finally have r: "rnd_rat F32 (of_int n) = of_int n" and b: "\<bar>of_int n :: rat\<bar> \<le> 16777216"
    by (auto intro!: rnd_rat_int simp: power_int_def)
  then show ?thesis by (auto simp: is_flt_def rnd_def Let_def abs_le_iff)
qed

lemma is_flt_consts [simp]: "is_flt F32 (Fin 0)" "is_flt F32 (Fin 1)" "is_flt F32 (Fin (- 1))" "is_flt F32 (Fin 100)"
  using is_flt_small_int [of 0] is_flt_small_int [of 1] is_flt_small_int [of "- 1"] is_flt_small_int [of 100] by simp_all

lemma is_flt_narrow [simp]: "is_flt F32 (f64_to_f32 x)"
  by (cases x) (simp_all add: f64_to_f32_def is_flt_def [of _ PInf] is_flt_def [of _ NInf] is_flt_def [of _ NaN])

lemma is_flt_clamp: "is_flt F32 x \<Longrightarrow> is_flt F32 (flt_clamp x (Fin (- 1)) (Fin 1))"
  by (simp add: flt_clamp_def)

lemma in_i64_flt [simp]: "in_i64 (flt_to_i64 x)"
  by (cases x) (simp_all add: flt_to_i64_def in_i64_def i64_max_def i64_min_def sat_i64_def)

lemma windowed_sum_range: "in_i64 (windowed_sum c xs)"
proof -
  have "in_i64 a \<Longrightarrow> in_i64 (foldl (\<lambda>sum s. if ds_ts_ns s \<ge> c then sat_i64 (sum + ds_signed_qty s) else sum) a xs)" for a
    by (induction xs arbitrary: a) simp_all
  then show ?thesis by (simp add: windowed_sum_def in_i64_def i64_max_def i64_min_def)
qed

text \<open>The part each indicator owns is well formed after its update, whatever the state was.\<close>

lemma delta_ok: "in_i64 (snd (delta_part (rolling_delta_update t st)))"
  by (simp add: part_steps windowed_sum_range Let_def)

lemma book_ok: "is_flt F32 (snd (book_part (liquidity_update t st)))"
  by (simp add: liquidity_update_def book_part_def Let_def)

definition ema_ok where
  "ema_ok st \<longleftrightarrow> in_i64 (fs_ema_fast_paise st) \<and> in_i64 (fs_ema_slow_paise st) \<and> in_i64 (fs_ema_trend_paise st)"

lemma ema_step_range: "in_i64 p \<Longrightarrow> in_i64 (snd (ema_step a p seeded prev))"
  by (simp add: ema_step_def Let_def)

lemma ema_update_ok: "in_i64 (tk_ltp_paise t) \<Longrightarrow> ema_ok (ema_update t st)"
  by (simp add: ema_update_def ema_ok_def case_prod_beta Let_def ema_step_range)

lemma ema_ok_part: "ema_part st = ema_part st' \<Longrightarrow> ema_ok st \<longleftrightarrow> ema_ok st'"
  by (simp add: ema_part_def ema_ok_def)

lemma sweep_ok: "is_flt F32 (snd (snd (snd (snd (sweep_part (sweep_update t st))))))"
  by (simp add: sweep_update_def sweep_part_def Let_def case_prod_beta)

lemma rsi_ok: "is_flt F32 (snd (snd (rsi_part (rsi_update t st))))"
  by (simp add: rsi_update_def rsi_part_def Let_def)

lemma adx_ok: "is_flt F32 (snd (snd (snd (adx_part st)))) \<Longrightarrow> is_flt F32 (snd (snd (snd (adx_part (adx_update t st)))))"
  by (simp add: adx_update_def adx_part_def adx_smoothed_def Let_def)

lemma fs_ok_parts:
  "fs_ok st \<longleftrightarrow> in_i64 (snd (delta_part st)) \<and> ema_ok st \<and> rw_ok (donchian_part st) \<and> list_all in_i64 (rw_iter (donchian_part st))
     \<and> is_flt F32 (snd (snd (rsi_part st))) \<and> is_flt F32 (snd (snd (snd (adx_part st)))) \<and> is_flt F32 (snd (book_part st))
     \<and> is_flt F32 (flow_part st) \<and> is_flt F32 (snd (snd (snd (snd (sweep_part st)))))"
  by (simp add: fs_ok_def ema_ok_def parts)

lemma donchian_ok:
  assumes "rw_ok w" "list_all in_i64 (rw_iter w)" "in_i64 p"
  shows "rw_ok (rw_push p w) \<and> list_all in_i64 (rw_iter (rw_push p w))"
  using assms rw_ok_push [OF assms(1)] rw.items_push_mem [OF assms(1)] by (auto simp: list_all_iff)

lemma fold_tick_ok:
  assumes "fs_ok st" "in_i64 (tk_ltp_paise t)"
  shows "fs_ok (fold_tick lm t st)"
proof -
  let ?l = "liquidity_update t (rolling_delta_update t st)"
  let ?e = "ema_update t (atr_update t (vwap_update t ?l))"
  have "ema_ok (fold_tick lm t st) = ema_ok ?e"
    by (rule ema_ok_part) (simp add: fold_tick_eq run_indicators_def)
  moreover have "ema_ok ?e" using assms(2) by (rule ema_update_ok)
  moreover have "rw_ok (rw_push (tk_ltp_paise t) (donchian_part st)) \<and> list_all in_i64 (rw_iter (rw_push (tk_ltp_paise t) (donchian_part st)))"
    using assms donchian_ok by (simp add: fs_ok_parts)
  moreover have "is_flt F32 (snd (snd (snd (adx_part st))))" "is_flt F32 (flow_part st)" using assms by (simp_all add: fs_ok_parts)
  ultimately show ?thesis
    by (simp add: fs_ok_parts) (simp add: fold_tick_eq run_indicators_def delta_ok book_ok sweep_ok rsi_ok adx_ok)
qed

lemma default_ok: "fs_ok feature_state_default"
  using fresh_window [of 2000 "0 :: i64"]
  by (simp add: fs_ok_def feature_state_default_def DONCHIAN_WINDOW_def in_i64_def i64_max_def i64_min_def)

lemma extreme_range:
  assumes "list_all in_i64 xs" "in_i64 m"
  shows "in_i64 (foldl (\<lambda>m p. if p > m then p else m) m xs)" "in_i64 (foldl (\<lambda>m p. if p < m then p else m) m xs)"
  using assms by (induction xs arbitrary: m) simp_all

lemma i64_ends [simp]: "in_i64 i64_min" "in_i64 i64_max" "in_i64 0"
  by (simp_all add: in_i64_def i64_max_def i64_min_def)

lemma compute_ranges:
  assumes "fs_ok st"
  shows "in_i64 (vwap_compute st)" "in_i64 (atr_compute st)" "in_i64 (ema_compute_fast st)" "in_i64 (ema_compute_slow st)"
    "in_i64 (ema_compute_trend st)" "in_i64 (donchian_upper st)" "in_i64 (donchian_lower st)"
    "is_flt F32 (ema_compute_slope st)" "is_flt F32 (volatility_compute lm st)" "is_flt F32 (momentum_compute st)"
    "is_flt F32 (breakout_compute st)" "is_flt F32 (compression_compute st)"
  using assms
  by (simp_all add: fs_ok_def vwap_compute_def atr_compute_def ema_compute_fast_def ema_compute_slow_def
      ema_compute_trend_def donchian_upper_def donchian_lower_def ema_compute_slope_def volatility_compute_def
      momentum_compute_def breakout_compute_def compression_compute_def extreme_range Let_def not_less
      in_i64_def [of "_ sdiv _"] split: list.split option.split)

lemma snapshot_ok: "fs_ok st \<Longrightarrow> tick_ok t \<Longrightarrow> feature_ok (snapshot_of lm t st)"
  by (simp add: feature_ok_def snapshot_of_def tick_ok_def compute_ranges) (simp add: fs_ok_def)

text \<open>The running service never calls \<open>ingest_orderflow_pressure\<close>: the order-flow value of every state is the initial 0.\<close>

definition fe_ok :: "feature_engine \<Rightarrow> bool" where
  "fe_ok e \<longleftrightarrow> (\<forall>st \<in> ran (fe_states e). fs_ok st \<and> flow_part st = Fin 0)"

lemma fe_ok_new: "fe_ok feature_engine_new"
  by (simp add: fe_ok_def feature_engine_new_def)

lemma fe_ok_cell: "fe_ok e \<Longrightarrow> fs_ok (feature_cell e sy) \<and> flow_part (feature_cell e sy) = Fin 0"
  by (auto simp: fe_ok_def feature_cell_def default_ok ran_def split: option.split)

lemma process_tick_eq:
  "process_tick lm t e = (let st = fold_tick lm t (feature_cell e (tk_symbol t))
     in (e\<lparr>fe_states := (fe_states e)(tk_symbol t \<mapsto> st)\<rparr>, snapshot_of lm t st))"
  by (simp add: process_tick_def process_tick_into_state_def fold_tick_def Let_def)

lemma process_tick_ok:
  assumes "fe_ok e" "tick_ok t" "process_tick lm t e = (e', snap)"
  shows "fe_ok e'" "feature_ok snap" "fn_orderflow_strength snap = Fin 0" "fn_symbol snap = tk_symbol t"
proof -
  let ?st = "fold_tick lm t (feature_cell e (tk_symbol t))"
  have c: "fs_ok ?st" "flow_part ?st = Fin 0"
    using fe_ok_cell [OF assms(1), of "tk_symbol t"] assms(2) by (simp_all add: fold_tick_ok tick_ok_def)
  have e: "e' = e\<lparr>fe_states := (fe_states e)(tk_symbol t \<mapsto> ?st)\<rparr>" "snap = snapshot_of lm t ?st"
    using assms(3) by (simp_all add: process_tick_eq Let_def)
  show "fe_ok e'" using assms(1) c by (auto simp: fe_ok_def e ran_def)
  show "feature_ok snap" using c(1) assms(2) by (simp add: e snapshot_ok)
  show "fn_orderflow_strength snap = Fin 0" "fn_symbol snap = tk_symbol t"
    using c(2) by (simp_all add: e snapshot_of_def flow_part_def)
qed

text \<open>The snapshots of a run of ticks, without the wire.\<close>

fun snapshots_of :: "libm \<Rightarrow> tick list \<Rightarrow> feature_engine \<Rightarrow> feature_snapshot list" where
  "snapshots_of lm [] e = []"
| "snapshots_of lm (t # ts) e = (let (e, snap) = process_tick lm t e in snap # snapshots_of lm ts e)"

definition feature_payloads :: "feature_output list \<Rightarrow> u8 list list" where
  "feature_payloads out = concat (map (\<lambda>x. case x of FeatUpdate s bs \<Rightarrow> [bs] | FeatLatency l \<Rightarrow> []) out)"

lemma snapshots_ok:
  "fe_ok e \<Longrightarrow> \<forall>t \<in> set ts. tick_ok t \<Longrightarrow> \<forall>s \<in> set (snapshots_of lm ts e). feature_ok s \<and> fn_orderflow_strength s = Fin 0"
proof (induction ts arbitrary: e)
  case (Cons t ts)
  obtain e' snap where p: "process_tick lm t e = (e', snap)" by fastforce
  show ?case using Cons process_tick_ok [OF Cons.prems(1) _ p] by (simp add: p)
qed simp

lemma feature_latency_payloads: "feature_payloads (FeatUpdate s bs # feature_latency c n) = [bs]"
  by (simp add: feature_payloads_def feature_latency_def Let_def)

lemma feature_payloads_append: "feature_payloads (a @ b) = feature_payloads a @ feature_payloads b"
  by (simp add: feature_payloads_def)

lemma feature_service_payloads:
  assumes "\<forall>(a, b, t) \<in> set rs. tick_ok t"
  shows "feature_payloads (snd (fold (feature_service_step lm) (map (\<lambda>(a, b, t). (a, b, tick_to_raw_bytes t)) rs) (e, out)))
    = feature_payloads out @ map feature_encode (snapshots_of lm (map (snd \<circ> snd) rs) e)"
  using assms
proof (induction rs arbitrary: e out)
  case (Cons r rs)
  obtain a b t where r: "r = (a, b, t)" by (cases r) auto
  obtain e' snap where p: "process_tick lm t e = (e', snap)" by fastforce
  have "decode_tick (tick_to_raw_bytes t) = Some t" using Cons.prems by (auto simp: r intro: tick_wire.dec_enc)
  then have step: "feature_service_step lm (a, b, tick_to_raw_bytes t) (e, out)
      = (e', out @ FeatUpdate (feat_update (fn_symbol snap)) (feature_encode snap)
            # feature_latency (cid_of_bytes (tk_correlation_id t)) (usat_sub b a))"
    by (simp add: ingest_tick_def p)
  have "\<forall>(a, b, t) \<in> set rs. tick_ok t" using Cons.prems by simp
  from Cons.IH [OF this] show ?case
    by (simp add: r p step feature_payloads_append feature_latency_payloads del: feature_service_step.simps)
qed simp

end
