(* ===== verification/Signal_Facts.thy ===== *)
theory Signal_Facts
  imports Signals Feature_Facts
begin

text \<open>
  What the Signal_Engine emits: the contract of a strategy, met by the eight of them; the gates as a filter of
  the registry; the composition of the feature and the signal service over the wire; and what the service as it is
  started can and cannot emit.
\<close>

section \<open>Emitted values\<close>

definition unit_flt :: "flt \<Rightarrow> bool" where
  "unit_flt x = (case x of Fin q \<Rightarrow> 0 \<le> q \<and> q \<le> 1 | _ \<Rightarrow> False)"

definition flt_nonneg :: "flt \<Rightarrow> bool" where
  "flt_nonneg x = flt_le (Fin 0) x"

lemma sig_clamp01_unit [simp]: "unit_flt (sig_clamp01 v)"
  by (cases v) (auto simp: sig_clamp01_def unit_flt_def)

lemma f64_of_nonneg: "0 \<le> n \<Longrightarrow> flt_nonneg (f64_of n)"
  using rnd_mono [of 0 "of_int n" F64] by (simp add: flt_nonneg_def flt_of_int_def)

lemma fmul_nonneg: "flt_nonneg a \<Longrightarrow> 0 < q \<Longrightarrow> flt_nonneg (fmul F64 a (Fin q))"
proof (cases a)
  case (Fin p)
  assume "flt_nonneg a" "0 < q"
  then show ?thesis using rnd_mono [of 0 "p * q" F64] Fin by (simp add: flt_nonneg_def)
qed (simp_all add: flt_nonneg_def inf_of_def)

lemma to_i64_round_nonneg: "flt_nonneg x \<Longrightarrow> 0 \<le> flt_to_i64 (flt_round x)"
  by (cases x) (simp_all add: flt_nonneg_def flt_to_i64_def flt_round_def sat_i64_def i64_max_def i64_min_def)

lemma atr_distance_nonneg: "0 \<le> atr \<Longrightarrow> 0 < q \<Longrightarrow> 0 \<le> atr_distance atr (Fin q)"
  by (simp add: atr_distance_def to_i64_round_nonneg fmul_nonneg f64_of_nonneg)

definition bracket_ok :: "side \<Rightarrow> risk_profile \<Rightarrow> bool" where
  "bracket_ok sd rp = (case sd of Buy \<Rightarrow> stop_loss_paise rp \<le> take_profit_paise rp | Sell \<Rightarrow> take_profit_paise rp \<le> stop_loss_paise rp)"

definition fixed_limits :: "risk_profile \<Rightarrow> bool" where
  "fixed_limits rp \<longleftrightarrow> max_size_qty rp = 100 \<and> time_horizon_seconds rp = 300"

lemma risk_profile_limits [simp]: "fixed_limits (risk_profile_for e sd atr)"
  by (cases sd) (simp_all add: risk_profile_for_def fixed_limits_def DEFAULT_MAX_SIZE_QTY_def DEFAULT_TIME_HORIZON_SECONDS_def Let_def)

lemma risk_profile_bracket: "0 \<le> atr \<Longrightarrow> bracket_ok sd (risk_profile_for e sd atr)"
  using atr_distance_nonneg [of atr "3 / 2"] atr_distance_nonneg [of atr "5 / 2"]
  by (cases sd) (simp_all add: risk_profile_for_def bracket_ok_def STOP_LOSS_ATR_MULT_def TAKE_PROFIT_ATR_MULT_def Let_def sat_i64_mono)

text \<open>Prices and ranges for which the plain arithmetic of two strategies does not wrap.\<close>

definition sane :: "feature_snapshot \<Rightarrow> bool" where
  "sane snap \<longleftrightarrow> 0 \<le> fn_atr snap \<and> fn_atr snap \<le> 2 ^ 40 \<and> \<bar>fn_price snap\<bar> \<le> 2 ^ 60"

lemma rnd_between_ints:
  "0 \<le> q \<Longrightarrow> q \<le> of_int b \<Longrightarrow> b \<le> 9007199254740992 \<Longrightarrow> 0 \<le> b \<Longrightarrow> \<exists>x. rnd F64 q = Fin x \<and> 0 \<le> x \<and> x \<le> of_int b"
  using rnd_F64_between [of 0 q b] by simp

lemma round_to_i64_range:
  assumes "0 \<le> q" "q \<le> of_int b" "b \<le> 2 ^ 60"
  shows "0 \<le> flt_to_i64 (flt_round (Fin q))" "flt_to_i64 (flt_round (Fin q)) \<le> b"
proof -
  have "\<lfloor>q + 1 / 2\<rfloor> \<le> b" "0 \<le> \<lfloor>q + 1 / 2\<rfloor>" using assms by linarith+
  then show "0 \<le> flt_to_i64 (flt_round (Fin q))" "flt_to_i64 (flt_round (Fin q)) \<le> b"
    using assms by (simp_all add: flt_to_i64_def flt_round_def sat_i64_def i64_max_def i64_min_def)
qed

lemma atr_profile_limits [simp]: "fixed_limits (atr_profile p sd atr m)"
  using risk_profile_limits [of p sd atr] by (cases sd) (simp_all add: atr_profile_def fixed_limits_def Let_def)

lemma atr_profile_bracket:
  assumes "0 \<le> atr" "atr \<le> 2 ^ 40" "\<bar>p\<bar> \<le> 2 ^ 60" "0 < m" "m \<le> 3"
  shows "bracket_ok sd (atr_profile p sd atr (Fin m))"
proof -
  define n where "n = (if atr > 0 then atr else 50)"
  have n: "0 \<le> n" "n \<le> 2 ^ 40" using assms by (auto simp: n_def)
  have af: "(if atr > 0 then f64_of atr else Fin 50) = Fin (of_int n)"
    using assms(2) flt_of_int_exact [of atr] by (simp add: n_def)
  have "(3 / 2) * of_int n \<le> (of_int (2 ^ 41) :: rat)" "(0 :: rat) \<le> (3 / 2) * of_int n" using n by simp_all
  then obtain x where x: "rnd F64 ((3 / 2) * of_int n) = Fin x" "0 \<le> x" "x \<le> of_int (2 ^ 41)"
    using rnd_between_ints [of "(3 / 2) * of_int n" "2 ^ 41"] by auto
  have "x * m \<le> of_int (2 ^ 41) * 3" using x assms by (intro mult_mono) auto
  then have "x * m \<le> of_int (2 ^ 43)" "0 \<le> x * m" using x assms by simp_all
  then obtain y where y: "rnd F64 (x * m) = Fin y" "0 \<le> y" "y \<le> of_int (2 ^ 43)"
    using rnd_between_ints [of "x * m" "2 ^ 43"] by auto
  define sdi where "sdi = flt_to_i64 (flt_round (Fin x))"
  define tdi where "tdi = flt_to_i64 (flt_round (Fin y))"
  have r: "0 \<le> sdi" "sdi \<le> 2 ^ 41" "0 \<le> tdi" "tdi \<le> 2 ^ 43"
    unfolding sdi_def tdi_def using round_to_i64_range [OF x(2,3)] round_to_i64_range [OF y(2,3)] by simp_all
  have w: "wrap_i64 (p - sdi) = p - sdi" "wrap_i64 (p + tdi) = p + tdi" "wrap_i64 (p + sdi) = p + sdi" "wrap_i64 (p - tdi) = p - tdi"
    using r assms(3) by (auto intro!: wrap_i64_id simp: in_i64_def i64_max_def i64_min_def)
  have "atr_profile p sd atr (Fin m) = (case sd of
      Buy \<Rightarrow> (risk_profile_for p sd atr)\<lparr>stop_loss_paise := p - sdi, take_profit_paise := p + tdi\<rparr>
    | Sell \<Rightarrow> (risk_profile_for p sd atr)\<lparr>stop_loss_paise := p + sdi, take_profit_paise := p - tdi\<rparr>)"
    using x y w by (simp add: atr_profile_def af Let_def sdi_def tdi_def split: side.split)
  then show ?thesis using r by (cases sd) (simp_all add: bracket_ok_def)
qed

section \<open>The contract of a strategy\<close>

definition sig_ok :: "strategy_id \<Rightarrow> feature_snapshot \<Rightarrow> signal \<Rightarrow> bool" where
  "sig_ok sid snap sig \<longleftrightarrow> sg_correlation_id sig = fn_correlation_id snap \<and> sg_strategy sig = strategy_as_u8 sid
     \<and> sg_symbol sig = fn_symbol snap \<and> sg_ts_ns sig = fn_ts_ns snap
     \<and> unit_flt (sg_base_probability sig) \<and> unit_flt (sg_confidence sig)
     \<and> (\<exists>sd. sg_side sig = side_as_u8 sd \<and> bracket_ok sd (sg_risk_profile sig)) \<and> fixed_limits (sg_risk_profile sig)"

lemma emit_signal_ok:
  "bracket_ok sd rp \<Longrightarrow> fixed_limits rp \<Longrightarrow> emit_signal sid snap sd b c rp = Some sig \<Longrightarrow> sig_ok sid snap sig"
  by (auto simp: emit_signal_def build_signal_def sig_ok_def)

locale strategy_contract =
  fixes s :: strategy
  assumes evaluate_ok: "sane snap \<Longrightarrow> st_evaluate s snap ctx = Some sig \<Longrightarrow> sig_ok (st_id s) snap sig"
begin

text \<open>What the loop of the engine adds to its output for this strategy.\<close>

lemma emitted_ok: "sane snap \<Longrightarrow> sig \<in> set (evaluate_loop snap ctx [s]) \<Longrightarrow> sig_ok (st_id s) snap sig"
  using evaluate_ok by (auto split: if_splits option.splits)

lemma at_most_one: "length (evaluate_loop snap ctx [s]) \<le> 1"
  by (simp split: option.split)

end

lemmas emit_dest = emit_signal_ok [rotated 2]

interpretation orb: strategy_contract orb
  by unfold_locales
    (auto simp: orb_def orb_evaluate_def sane_def Let_def risk_profile_bracket elim!: emit_dest split: if_splits)

interpretation vwap_pullback: strategy_contract vwap_pullback
  by unfold_locales
    (auto simp: vwap_pullback_def vwap_pullback_evaluate_def sane_def Let_def risk_profile_bracket elim!: emit_dest split: if_splits)

interpretation momentum_breakout: strategy_contract momentum_breakout
  by unfold_locales
    (auto simp: momentum_breakout_def momentum_breakout_evaluate_def sane_def Let_def risk_profile_bracket elim!: emit_dest split: if_splits)

interpretation sweep_reversal: strategy_contract sweep_reversal
  by unfold_locales
    (auto simp: sweep_reversal_def sweep_reversal_evaluate_def sane_def Let_def risk_profile_bracket elim!: emit_dest split: if_splits)

interpretation options_oi: strategy_contract "options_oi cache"
  by unfold_locales
    (auto simp: options_oi_def options_oi_evaluate_def sane_def Let_def risk_profile_bracket elim!: emit_dest split: if_splits option.splits)

interpretation compression_breakout: strategy_contract compression_breakout
  by unfold_locales
    (auto simp: compression_breakout_def compression_breakout_evaluate_def sane_def Let_def risk_profile_bracket elim!: emit_dest split: if_splits)

interpretation composite_alpha: strategy_contract composite_alpha
  by unfold_locales
    (auto simp: composite_alpha_def composite_alpha_evaluate_def sane_def Let_def atr_profile_bracket elim!: emit_dest split: if_splits)

interpretation precision_breakout: strategy_contract "precision_breakout hm"
  by unfold_locales
    (auto simp: precision_breakout_def precision_evaluate_def sane_def Let_def atr_profile_bracket elim!: emit_dest split: if_splits prod.splits)

section \<open>The gates as a filter\<close>

text \<open>A strategy's signal is let through: toggled on, allowed in the regime, its symbol not blocked by the news and,
  in war mode, its confidence not below the floor.\<close>

definition passes :: "feature_snapshot \<Rightarrow> strategy_context \<Rightarrow> strategy \<Rightarrow> signal \<Rightarrow> bool" where
  "passes snap ctx s sig \<longleftrightarrow> toggle_is_enabled (cx_trader_config ctx) (st_id s) \<and> st_enabled_in s (cx_regime ctx)
     \<and> fn_symbol snap \<notin> set (ng_blocked_symbols (cx_news_gates ctx))
     \<and> (cx_war_mode ctx \<longrightarrow> \<not> flt_lt (fadd F32 (sg_confidence sig) f32_epsilon) (cx_war_mode_min_confidence ctx))"

lemma check_gates_allowed:
  "check_gates s ctx sy None = GateAllowed \<longleftrightarrow> toggle_is_enabled (cx_trader_config ctx) (st_id s)
     \<and> st_enabled_in s (cx_regime ctx) \<and> sy \<notin> set (ng_blocked_symbols (cx_news_gates ctx))"
  by (simp add: check_gates_def check_trader_toggle_def check_regime_def check_news_def is_symbol_blocked_def list_ex_iff)

lemma check_war_mode_allowed:
  "check_war_mode sig ctx = GateAllowed \<longleftrightarrow>
     (cx_war_mode ctx \<longrightarrow> \<not> flt_lt (fadd F32 (sg_confidence sig) f32_epsilon) (cx_war_mode_min_confidence ctx))"
  by (simp add: check_war_mode_def)

definition let_through :: "feature_snapshot \<Rightarrow> strategy_context \<Rightarrow> strategy \<Rightarrow> signal option" where
  "let_through snap ctx s = (case st_evaluate s snap ctx of
       Some sig \<Rightarrow> if passes snap ctx s sig then Some sig else None | None \<Rightarrow> None)"

lemma evaluate_loop_filter: "evaluate_loop snap ctx ss = List.map_filter (let_through snap ctx) ss"
proof (induction ss)
  case (Cons s ss)
  then show ?case
    by (cases "st_evaluate s snap ctx")
      (auto simp: List.map_filter_simps let_through_def passes_def check_gates_allowed check_war_mode_allowed)
qed (simp add: List.map_filter_simps)

definition contract_registry :: "strategy list \<Rightarrow> bool" where
  "contract_registry ss \<longleftrightarrow> (\<forall>s \<in> set ss. strategy_contract s)"

lemma default_registry_contract: "contract_registry (se_strategies signal_engine_default)"
  using orb.strategy_contract_axioms vwap_pullback.strategy_contract_axioms momentum_breakout.strategy_contract_axioms
    sweep_reversal.strategy_contract_axioms options_oi.strategy_contract_axioms
    compression_breakout.strategy_contract_axioms composite_alpha.strategy_contract_axioms
  by (simp add: contract_registry_def signal_engine_default_def signal_engine_with_def)

lemma registry_emits:
  assumes "contract_registry ss" "sane snap" "sig \<in> set (evaluate_loop snap ctx ss)"
  shows "\<exists>s \<in> set ss. sig_ok (st_id s) snap sig \<and> passes snap ctx s sig \<and> st_evaluate s snap ctx = Some sig"
proof -
  obtain s where s: "s \<in> set ss" "let_through snap ctx s = Some sig"
    using assms(3) by (auto simp: evaluate_loop_filter List.map_filter_def)
  then have e: "st_evaluate s snap ctx = Some sig" "passes snap ctx s sig"
    by (auto simp: let_through_def split: option.splits if_splits)
  have "sig_ok (st_id s) snap sig"
    using assms(1,2) s(1) e(1) strategy_contract.evaluate_ok by (auto simp: contract_registry_def)
  then show ?thesis using s(1) e by blast
qed

text \<open>C26: The engine's output is its registry filtered by the gates. For a snapshot, every strategy of the registry
  contributes its signal, in registry order and at most once, exactly when the trader has it toggled on, the
  regime allows it, the symbol is not blocked by news and, in war mode, the confidence is not below the floor.
  From the default registry every emitted signal carries the snapshot's correlation id, symbol and time,
  probabilities between 0 and 1, the fixed size and horizon, and a stop and a target on opposite sides in the order
  its direction needs, for prices and ranges within the stated bounds.\<close>

theorem signals_filtered_and_well_formed:
  "evaluate_strategies ss snap cfg pd = List.map_filter (let_through snap (eval_context cfg pd)) ss
   \<and> (sane snap \<longrightarrow> (\<forall>sig \<in> set (evaluate_strategies (se_strategies signal_engine_default) snap cfg pd).
        \<exists>s \<in> set (se_strategies signal_engine_default). sig_ok (st_id s) snap sig \<and> passes snap (eval_context cfg pd) s sig))"
  using registry_emits [OF default_registry_contract, of snap _ "eval_context cfg pd"]
  by (auto simp: evaluate_strategies_def evaluate_loop_filter [of snap _ ss])

section \<open>The hot path over the wire\<close>

definition direct_step :: "feature_snapshot \<Rightarrow> signal_engine \<times> signal_message ops_world \<Rightarrow> signal_engine \<times> signal_message ops_world" where
  "direct_step snap = (\<lambda>(e, w). (e, fst (ingest_feature_snapshot snap e w)))"

lemma signal_service_direct:
  "\<forall>s \<in> set ss. feature_ok s \<Longrightarrow> signal_service (map (FeatPayload \<circ> feature_encode) ss) x = fold direct_step ss x"
proof (induction ss arbitrary: x)
  case (Cons s ss)
  obtain e w where x: "x = (e, w)" by fastforce
  have "decode_feature_snapshot (feature_encode s) = Some s" using Cons.prems by (auto intro: feature_wire.dec_enc)
  then show ?case using Cons by (simp add: signal_service_def x direct_step_def)
qed (simp add: signal_service_def)

text \<open>C14: The services compose as the functions they wrap. For ticks that fit their types, the payloads the feature
  service publishes for the ticks' payloads, received by the signal service in any state and against any bus, have the
  effect of computing the snapshots in memory and handing each to the signal engine: nothing is lost, reordered
  or changed on the wire between a tick and its signals.\<close>

theorem hot_path_composes:
  assumes "\<forall>(started, finished, t) \<in> set rs. tick_ok t"
  shows "signal_service (map FeatPayload (feature_payloads (snd (feature_service lm
            (map (\<lambda>(started, finished, t). (started, finished, tick_to_raw_bytes t)) rs) feature_engine_new)))) (e, w)
    = fold direct_step (snapshots_of lm (map (snd \<circ> snd) rs) feature_engine_new) (e, w)"
proof -
  let ?ss = "snapshots_of lm (map (snd \<circ> snd) rs) feature_engine_new"
  have "\<forall>s \<in> set ?ss. feature_ok s" using snapshots_ok [OF fe_ok_new, of "map (snd \<circ> snd) rs" lm] assms by fastforce
  then have "signal_service (map (FeatPayload \<circ> feature_encode) ?ss) (e, w) = fold direct_step ?ss (e, w)"
    by (rule signal_service_direct)
  then show ?thesis
    using feature_service_payloads [OF assms, of lm feature_engine_new "[]"] by (simp add: feature_service_def feature_payloads_def [of "[]"])
qed

section \<open>The service as it is started\<close>

text \<open>The configuration of the running service changes only in its war-mode fields.\<close>

definition started :: "signal_engine \<Rightarrow> bool" where
  "started e \<longleftrightarrow> se_strategies e = se_strategies signal_engine_default \<and> sc_regime (se_config e) = Trending"

lemma started_step: "started e \<Longrightarrow> started (fst (signal_service_step r (e, w)))"
  by (cases r) (simp_all add: started_def update_config_def split: option.split)

lemma trending_ids:
  assumes "started e" "sig \<in> set (se_evaluate snap e)"
  shows "sg_strategy sig \<in> {0, 1, 2, 6}"
proof -
  let ?ctx = "eval_context (se_config e) (se_previous_day e (fn_symbol snap))"
  obtain s where s: "s \<in> set (se_strategies signal_engine_default)" "let_through snap ?ctx s = Some sig"
    using assms by (auto simp: se_evaluate_def evaluate_strategies_def evaluate_loop_filter List.map_filter_def started_def)
  have r: "cx_regime ?ctx = Trending" using assms(1) by (simp add: eval_context_def started_def)
  have "st_evaluate s snap ?ctx = Some sig" "st_enabled_in s Trending"
    using s(2) r by (auto simp: let_through_def passes_def split: option.splits if_splits)
  with s(1) show ?thesis
    by (auto simp: signal_engine_default_def signal_engine_with_def orb_def vwap_pullback_def momentum_breakout_def sweep_reversal_def
        options_oi_def compression_breakout_def composite_alpha_def orb_evaluate_def vwap_pullback_evaluate_def
        momentum_breakout_evaluate_def options_oi_evaluate_def composite_alpha_evaluate_def emit_signal_def
        build_signal_def Let_def split: if_splits)
qed

fun payload_of :: "signal_message \<Rightarrow> u8 list" where
  "payload_of (SigEmitted bs) = bs"
| "payload_of (SigStream bs) = bs"

definition carries :: "(signal \<Rightarrow> bool) \<Rightarrow> signal_message \<Rightarrow> bool" where
  "carries P m \<longleftrightarrow> (\<exists>sig. P sig \<and> payload_of m = encode_signal sig)"

lemma se_publish_carries:
  "P sig \<Longrightarrow> \<exists>ms. attempts (fst (se_publish sig e w)) = attempts w @ ms \<and> (\<forall>m \<in> set ms. carries P m)"
  by (auto simp: se_publish_def ops_publish_def Let_def carries_def split: option.split)

lemma se_publish_all_carries:
  "\<forall>sig \<in> set ss. P sig \<Longrightarrow> \<exists>ms. attempts (fst (se_publish_all ss e w)) = attempts w @ ms \<and> (\<forall>m \<in> set ms. carries P m)"
proof (induction ss arbitrary: w)
  case (Cons s ss)
  obtain w' r where p: "se_publish s e w = (w', r)" by fastforce
  obtain ms where ms: "attempts w' = attempts w @ ms" "\<forall>m \<in> set ms. carries P m"
    using se_publish_carries [of P s e w] Cons.prems p by auto
  show ?case
  proof (cases r)
    case None
    obtain ms' where "attempts (fst (se_publish_all ss e w')) = attempts w' @ ms'" "\<forall>m \<in> set ms'. carries P m"
      using Cons by (metis list.set_intros(2))
    then show ?thesis using ms None by (intro exI [of _ "ms @ ms'"]) (auto simp: p)
  qed (use ms p in auto)
qed simp

lemma service_step_carries:
  assumes "started e" "signal_service_step r (e, w) = (e', w')"
  shows "\<exists>ms. attempts w' = attempts w @ ms \<and> (\<forall>m \<in> set ms. carries (\<lambda>sig. sg_strategy sig \<in> {0, 1, 2, 6}) m)"
proof (cases r)
  case (FeatPayload bs)
  show ?thesis
  proof (cases "decode_feature_snapshot bs")
    case (Some snap)
    have "\<forall>sig \<in> set (se_evaluate snap e). sg_strategy sig \<in> {0, 1, 2, 6}" using trending_ids [OF assms(1)] by blast
    from se_publish_all_carries [of _ "\<lambda>sig. sg_strategy sig \<in> {0, 1, 2, 6}", OF this, of e w] show ?thesis
      using assms(2) FeatPayload Some by (auto simp: ingest_feature_snapshot_def Let_def split: prod.splits option.splits)
  qed (use assms(2) FeatPayload in auto)
qed (use assms(2) in auto)

lemma service_carries:
  "started e \<Longrightarrow> \<exists>ms. attempts (snd (signal_service rs (e, w))) = attempts w @ ms
     \<and> (\<forall>m \<in> set ms. carries (\<lambda>sig. sg_strategy sig \<in> {0, 1, 2, 6}) m)"
proof (induction rs arbitrary: e w)
  case (Cons r rs)
  obtain e' w' where p: "signal_service_step r (e, w) = (e', w')" by fastforce
  have "started e'" using started_step [OF Cons.prems, of r w] p by simp
  from Cons.IH [OF this, of w'] service_step_carries [OF Cons.prems p] show ?case
    by (auto simp: signal_service_def p)
qed (simp add: signal_service_def)

text \<open>Three of the seven registered strategies never speak. The service starts the engine in the Trending regime
  with no open-interest cache, and nothing it receives changes either: whatever payloads and war-mode events arrive and
  however the bus answers, every message it ever attempts to publish carries an opening-range, a VWAP-pullback,
  a momentum or a composite signal. The sweep-reversal and the compression strategy are barred by the regime, the
  open-interest strategy has no data.\<close>

theorem deployed_strategies:
  assumes "e = signal_engine_default \<or> e = with_redis signal_engine_default"
  shows "\<exists>ms. attempts (snd (signal_service rs (e, w))) = attempts w @ ms
    \<and> (\<forall>m \<in> set ms. \<exists>sig. payload_of m = encode_signal sig \<and> sg_strategy sig \<in> {0, 1, 2, 6})"
proof -
  have "started e" using assms by (auto simp: started_def signal_engine_default_def signal_engine_with_def default_signal_config_def with_redis_def)
  from service_carries [OF this, of rs w] show ?thesis by (simp add: carries_def) blast
qed

section \<open>Sweeps\<close>

lemma sweep_side_fired: "fst (sweep_side idx brk rv) \<Longrightarrow> rv \<and> brk \<noteq> None \<and> snd (sweep_side idx brk rv) = brk"
  by (auto simp: sweep_side_def Let_def split: option.splits if_splits)

lemma sweep_update_sign:
  "fs_sweep_signal (sweep_update t st) \<in> {Fin (- 1), Fin 0, Fin 1}"
  "fs_sweep_signal (sweep_update t st) = Fin (- 1) \<Longrightarrow>
     fs_last_high_break_idx (sweep_update t st) \<noteq> None \<and> tk_ltp_paise t < fs_last_high_break_paise (sweep_update t st)"
  "fs_sweep_signal (sweep_update t st) = Fin 1 \<Longrightarrow>
     fs_last_low_break_idx (sweep_update t st) \<noteq> None \<and> fs_last_low_break_paise (sweep_update t st) < tk_ltp_paise t"
  by (auto simp: sweep_update_def Let_def case_prod_beta dest!: sweep_side_fired split: if_splits)

lemma sweep_fields:
  "sweep_part st = sweep_part st' \<Longrightarrow> fs_sweep_signal st = fs_sweep_signal st' \<and> fs_last_high_break_idx st = fs_last_high_break_idx st'
     \<and> fs_last_high_break_paise st = fs_last_high_break_paise st' \<and> fs_last_low_break_idx st = fs_last_low_break_idx st'
     \<and> fs_last_low_break_paise st = fs_last_low_break_paise st'"
  by (simp add: sweep_part_def)

lemma reversal_sides:
  assumes "sweep_reversal_evaluate snap ctx = Some sig" "fn_liquidity_sweep snap \<in> {Fin (- 1), Fin 0, Fin 1}"
  shows "sg_side sig = (if fn_liquidity_sweep snap = Fin 1 then 1 else 0) \<and> fn_liquidity_sweep snap \<noteq> Fin 0"
  using assms by (auto simp: sweep_reversal_evaluate_def SWEEP_MIN_def emit_signal_def build_signal_def Let_def split: if_splits)

text \<open>The sweep-reversal strategy trades with the failed break, not against it. On the snapshot of any tick in any
  state, when the strategy buys (side 0) the last event was a break of the session high that the price has fallen back
  from, and when it sells (side 1) a break of the low that the price has risen from. The feature engine gives a
  failed high the sign -1 and a failed low +1; the strategy reads the signs the other way round.\<close>

theorem sweep_reversal_direction:
  assumes "process_tick_into_state lm t st = (st', snap)" and "sweep_reversal_evaluate snap ctx = Some sig"
  shows "sg_side sig = 0 \<and> fs_last_high_break_idx st' \<noteq> None \<and> tk_ltp_paise t < fs_last_high_break_paise st'
    \<or> sg_side sig = 1 \<and> fs_last_low_break_idx st' \<noteq> None \<and> fs_last_low_break_paise st' < tk_ltp_paise t"
proof -
  have st': "st' = fold_tick lm t st" "snap = snapshot_of lm t st'"
    using assms(1) by (auto simp: fold_tick_def process_tick_into_state_def Let_def)
  let ?x = "candle_update t (momentum_update t (volatility_update lm t (ema_update t (atr_update t (vwap_update t
     (liquidity_update t (rolling_delta_update t st)))))))"
  have "sweep_part st' = sweep_part (sweep_update t ?x)" by (simp add: st' fold_tick_eq run_indicators_def)
  note f = sweep_fields [OF this]
  have "fn_liquidity_sweep snap = fs_sweep_signal st'" by (simp add: st' snapshot_of_def)
  then show ?thesis
    using reversal_sides [OF assms(2)] sweep_update_sign [of t ?x] f by (auto split: if_splits)
qed

section \<open>Witnesses\<close>

definition calm_bus :: "signal_message ops_world" where
  "calm_bus = \<lparr>now_at = (\<lambda>_. 0), answer_at = (\<lambda>_. None), attempts = []\<rparr>"

definition rising_features :: feature_snapshot where
  "rising_features = sample_features\<lparr>fn_price := 10000, fn_vwap := 10000, fn_atr := 50, fn_ema_fast := 10020, fn_ema_slow := 10010\<rparr>"

text \<open>The fast average above the slow one and within half an ATR above the VWAP: a pullback to buy.\<close>

lemma pullback_emits: "\<exists>sig. vwap_pullback_evaluate rising_features ctx = Some sig"
proof -
  have "f64_of 50 = Fin 50" by (simp add: flt_of_int_exact)
  moreover have "rnd F64 25 = Fin 25" using rnd_F64_int [of 25] by simp
  ultimately have b: "flt_to_i64 (fmul F64 (f64_of 50) VWAP_PULLBACK_BAND_ATR_RATIO) = 25"
    using trunc_rat_of_int [of 25] by (simp add: VWAP_PULLBACK_BAND_ATR_RATIO_def flt_to_i64_def sat_i64_def i64_max_def i64_min_def)
  have "i64_abs_diff 10020 10000 = 20" by (simp add: abs_diff_exact i64_max_def)
  then show ?thesis
    by (simp add: vwap_pullback_evaluate_def rising_features_def sample_features_def b Let_def emit_signal_def)
qed

theorem signals_filtered_and_well_formed_witness:
  "sane rising_features \<and> evaluate_strategies (se_strategies signal_engine_default) rising_features default_signal_config None \<noteq> []
   \<and> (\<exists>sig \<in> set (evaluate_strategies (se_strategies signal_engine_default) rising_features default_signal_config None).
        \<exists>s \<in> set (se_strategies signal_engine_default). sig_ok (st_id s) rising_features sig
          \<and> passes rising_features (eval_context default_signal_config None) s sig)"
proof -
  let ?c = "eval_context default_signal_config None"
  have s: "sane rising_features" by (simp add: sane_def rising_features_def sample_features_def)
  obtain sig where e: "vwap_pullback_evaluate rising_features ?c = Some sig" using pullback_emits by blast
  have "toggle_is_enabled toggles_all_enabled VwapPullback" by code_simp
  then have "let_through rising_features ?c vwap_pullback = Some sig"
    using e by (simp add: let_through_def vwap_pullback_def passes_def eval_context_def default_signal_config_def directional_def news_gates_empty_def)
  then have "evaluate_strategies (se_strategies signal_engine_default) rising_features default_signal_config None \<noteq> []"
    by (auto simp: evaluate_strategies_def evaluate_loop_filter List.map_filter_def signal_engine_default_def signal_engine_with_def filter_empty_conv)
  then show ?thesis
    using s signals_filtered_and_well_formed [of "[]" rising_features default_signal_config None] by (meson last_in_set)
qed

theorem hot_path_composes_witness:
  "signal_service (map FeatPayload (feature_payloads (snd (feature_service plain_libm
       (map (\<lambda>(started, finished, t). (started, finished, tick_to_raw_bytes t)) [(0, 5, sample_tick)]) feature_engine_new))))
       (signal_engine_default, calm_bus)
   = fold direct_step (snapshots_of plain_libm [sample_tick] feature_engine_new) (signal_engine_default, calm_bus)"
  using hot_path_composes [of "[(0, 5, sample_tick)]" plain_libm signal_engine_default calm_bus]
  by (simp add: tick_ok_def sample_tick_def in_i64_def i64_max_def i64_min_def)

theorem deployed_strategies_witness:
  "\<exists>ms. attempts (snd (signal_service [FeatPayload (feature_encode rising_features), WarModeEnd] (signal_engine_default, calm_bus))) = ms
    \<and> (\<forall>m \<in> set ms. \<exists>sig. payload_of m = encode_signal sig \<and> sg_strategy sig \<in> {0, 1, 2, 6})"
  using deployed_strategies [of signal_engine_default "[FeatPayload (feature_encode rising_features), WarModeEnd]" calm_bus]
  by (simp add: calm_bus_def)

text \<open>A state just after a break of the high at 110, and a tick that falls back to 100.\<close>

definition broken_high :: feature_state where
  "broken_high = feature_state_default\<lparr>fs_tick_count := 5, fs_session_high_paise := 110, fs_session_low_paise := 90,
     fs_last_high_break_idx := Some 4, fs_last_high_break_paise := 110, fs_last_low_break_paise := 90,
     fs_orderflow_strength_cached := Fin 1, fs_ema_fast_history := fold rw_push [50, 50, 50, 50] (fresh_window 5 0)\<rparr>"

lemma failed_high_buys:
  assumes "fn_liquidity_sweep snap = Fin (- 1)" "flt_lt (Fin 0) (fn_ema_slope snap)" "fn_orderflow_strength snap = Fin 1"
  shows "\<exists>sig. sweep_reversal_evaluate snap ctx = Some sig"
proof -
  have "rnd F32 1 = Fin 1" using is_flt_consts(2) by (simp add: is_flt_def)
  then have "\<not> flt_lt (Fin 1) ORDERFLOW_STRENGTH_MIN"
    using rnd_mono [of "2 / 10" 1 F32] by (cases "rnd F32 (2 / 10)") (auto simp: ORDERFLOW_STRENGTH_MIN_def)
  moreover have "\<not> flt_le (fn_ema_slope snap) (Fin 0)" using assms(2) by (cases "fn_ema_slope snap") auto
  ultimately show ?thesis
    using assms by (simp add: sweep_reversal_evaluate_def SWEEP_MIN_def emit_signal_def Let_def)
qed

lemma broken_high_snapshot:
  defines "snap \<equiv> snapshot_of plain_libm (tick_at 100 0) (fold_tick plain_libm (tick_at 100 0) broken_high)"
  shows "fn_liquidity_sweep snap = Fin (- 1)" "flt_lt (Fin 0) (fn_ema_slope snap)" "fn_orderflow_strength snap = Fin 1"
proof -
  let ?t = "tick_at 100 0" and ?st = "fold_tick plain_libm (tick_at 100 0) broken_high"
  let ?y = "atr_update ?t (vwap_update ?t (liquidity_update ?t (rolling_delta_update ?t broken_high)))"
  let ?x = "candle_update ?t (momentum_update ?t (volatility_update plain_libm ?t (ema_update ?t ?y)))"
  show "fn_orderflow_strength snap = Fin 1"
    using fold_tick_parts(6) [of plain_libm ?t broken_high] by (simp add: snap_def snapshot_of_def flow_part_def broken_high_def)
  have "pointers ?x = pointers broken_high" "sweep_part ?x = sweep_part broken_high" "snd (candle_part ?x) = (110, 90)"
    by (simp_all add: part_steps) (simp add: candle_part_def broken_high_def tick_at_def Let_def)
  then have "fs_sweep_signal (sweep_update ?t ?x) = Fin (- 1)"
    by (simp add: sweep_update_def sweep_side_def pointers_def sweep_part_def candle_part_def broken_high_def feature_state_default_def
        tick_at_def SWEEP_LOOKAHEAD_def usat_sub_def Let_def)
  moreover have "sweep_part ?st = sweep_part (sweep_update ?t ?x)" by (simp add: fold_tick_eq run_indicators_def)
  ultimately show "fn_liquidity_sweep snap = Fin (- 1)" by (simp add: snap_def snapshot_of_def sweep_part_def)
  have "ema_part ?st = ema_part (ema_update ?t ?y)" "ema_part ?y = ema_part broken_high" by (simp_all add: fold_tick_eq run_indicators_def)
  then have e: "fs_ema_fast_paise ?st = 100" "fs_ema_fast_history ?st = fold rw_push [50, 50, 50, 50, 100] (fresh_window 5 0)"
    by (simp_all add: ema_part_def ema_update_def ema_step_def broken_high_def feature_state_default_def tick_at_def Let_def)
  have w: "rw_ok (fs_ema_fast_history ?st)" "rw_iter (fs_ema_fast_history ?st) = [50, 50, 50, 50, 100]"
    using window_items [of 5 "[50, 50, 50, 50, 100]" "0 :: int"] by (simp_all add: e(2))
  have "rnd F64 (25 / 2) = Fin (25 / 2)"
    using rnd_rat_exact [of "25 / 2" 25 "- 1" F64] by (simp add: rnd_def power_int_minus)
  moreover have "flt_lt (Fin 0) (rnd F32 (25 / 2))"
    using rnd_mono [of 1 "25 / 2" F32] is_flt_consts(2) by (cases "rnd F32 (25 / 2)") (auto simp: is_flt_def)
  ultimately have "flt_lt (Fin 0) (ema_compute_slope ?st)"
    using w length_rw_iter [OF w(1)] e(1) wrap_i64_id [of 50]
    by (simp add: ema_compute_slope_def EMA_SLOPE_LOOKBACK_def rw_iter_recent_last_n flt_of_int_exact f64_to_f32_def in_i64_def i64_max_def i64_min_def)
  then show "flt_lt (Fin 0) (fn_ema_slope snap)" by (simp add: snap_def snapshot_of_def)
qed

theorem sweep_reversal_direction_witness:
  "\<exists>sig st' snap. process_tick_into_state plain_libm (tick_at 100 0) broken_high = (st', snap)
     \<and> sweep_reversal_evaluate snap (eval_context default_signal_config None) = Some sig
     \<and> (sg_side sig = 0 \<and> fs_last_high_break_idx st' \<noteq> None \<and> tk_ltp_paise (tick_at 100 0) < fs_last_high_break_paise st'
       \<or> sg_side sig = 1 \<and> fs_last_low_break_idx st' \<noteq> None \<and> fs_last_low_break_paise st' < tk_ltp_paise (tick_at 100 0))"
proof -
  let ?st = "fold_tick plain_libm (tick_at 100 0) broken_high"
  have p: "process_tick_into_state plain_libm (tick_at 100 0) broken_high = (?st, snapshot_of plain_libm (tick_at 100 0) ?st)"
    by (simp add: fold_tick_def process_tick_into_state_def Let_def)
  obtain sig where s: "sweep_reversal_evaluate (snapshot_of plain_libm (tick_at 100 0) ?st) (eval_context default_signal_config None) = Some sig"
    using failed_high_buys broken_high_snapshot by blast
  show ?thesis using p s sweep_reversal_direction [OF p s] by blast
qed

end
