(* ===== verification/Risk_Service.thy ===== *)
theory Risk_Service
  imports Risk_Engine Exec_Service
begin

text \<open>
  The Risk_Engine binary (\<open>hedge-risk/src/main.rs\<close>) and the persistence of its soft state (\<open>persistence.rs\<close>): the
  parsing of a signal envelope, its evaluation, the decision envelope, the consumer loop, and the saves
  and the load against Redis. \<open>serde_json\<close> is the parameter \<open>risk_json\<close>, the wall-clock readings of a message come with
  it, the HMAC key is the one drawn at startup. Publication is best effort, so the model keeps the
  messages handed to the bus.
\<close>

section \<open>Envelopes\<close>

record 'v risk_json =
  rj_api :: "'v json_api"
  rj_as_f64 :: "'v \<Rightarrow> flt option"

datatype decision_json =
    ApprovedJson string u64 string string i64
  | RejectedJson string u8 string i64

definition pad16 :: "u8 list \<Rightarrow> u8 list" where
  "pad16 bs = take 16 (bs @ replicate 16 0)"

definition build_signal_v1 :: "'v risk_json \<Rightarrow> 'v \<Rightarrow> signal option" where
  "build_signal_v1 rj v =
     (let js = rj_api rj in case js_field js (js_as_str js) v ''symbol'' of
        None \<Rightarrow> None
      | Some symbol_str \<Rightarrow>
          let symbol_id = symbol_id_for symbol_str;
              side_str = opt_or (js_field js (js_as_str js) v ''side'') ''buy'';
              sd = (if side_str \<in> {''buy'', ''Buy'', ''BUY''} then 0 else if side_str \<in> {''sell'', ''Sell'', ''SELL''} then 1 else 0);
              base_p = f64_to_f32 (opt_or (js_field js (rj_as_f64 rj) v ''base_probability'') (Fin (1 / 2)));
              conf = f64_to_f32 (opt_or (js_field js (rj_as_f64 rj) v ''confidence'') (Fin (1 / 2)));
              cid_str = opt_or (js_field js (js_as_str js) v ''correlation_id'') ''''
          in if symbol_id = 0 then None
             else Some \<lparr>sg_correlation_id = pad16 (map (word_of_nat \<circ> of_char) cid_str), sg_strategy = 0, sg_symbol = symbol_id,
                    sg_side = sd, sg_base_probability = base_p, sg_confidence = conf,
                    sg_risk_profile = \<lparr>stop_loss_paise = 0, take_profit_paise = 0, max_size_qty = 100, time_horizon_seconds = 60\<rparr>,
                    sg_ts_ns = opt_or (js_field js (js_as_u64 js) v ''ts_ns'') 0\<rparr>)"

definition build_decision_payload :: "i64 \<Rightarrow> string \<Rightarrow> risk_decision \<Rightarrow> signal \<Rightarrow> string \<times> decision_json" where
  "build_decision_payload now_ns cid d sig =
     (let side_str = (if sg_side sig = 0 then ''buy'' else if sg_side sig = 1 then ''sell'' else ''buy'');
          symbol_str = opt_or (symbol_for_id (sg_symbol sig)) ''UNKNOWN''
      in case d of
           ApprovedDecision _ q _ \<Rightarrow> (''risk.decision.approved'', ApprovedJson cid q side_str symbol_str now_ns)
         | RejectedDecision r _ \<Rightarrow> (''risk.decision.rejected'', RejectedJson cid (reason_as_u8 r) (reason_as_str r) now_ns))"

section \<open>The service\<close>

text \<open>One message: its payload, the readings of the evaluation and the wall clock of the decision envelope.\<close>

type_synonym risk_message = "bytes \<times> eval_clock \<times> i64"

record risk_service =
  rv_engine :: risk_engine
  rv_out :: "(string \<times> decision_json) list"

definition risk_service_new :: "u8 list \<Rightarrow> risk_service" where
  "risk_service_new key = \<lparr>rv_engine = re_new default_capital default_risk default_session key, rv_out = []\<rparr>"

text \<open>An envelope that does not parse is an error the loop logs, one without a known symbol is dropped.\<close>

definition handle_signal :: "'v risk_json \<Rightarrow> hmac_fn \<Rightarrow> risk_message \<Rightarrow> risk_service \<Rightarrow> risk_service" where
  "handle_signal rj hmac m s =
     (let js = rj_api rj in case m of (bytes, now, now_ns) \<Rightarrow>
        case js_from_slice js bytes of
          None \<Rightarrow> s
        | Some v \<Rightarrow>
            (case build_signal_v1 rj v of
               None \<Rightarrow> s
             | Some sig \<Rightarrow>
                 let entry_price_paise = opt_or (js_field js (js_as_i64 js) v ''entry_price_paise'') 0;
                     (e, d) = evaluate hmac (mock_view mock_neutral) now sig entry_price_paise (rv_engine s);
                     corr = opt_or (js_field js (js_as_str js) v ''correlation_id'') ''''
                 in s\<lparr>rv_engine := e, rv_out := rv_out s @ [build_decision_payload now_ns corr d sig]\<rparr>))"

definition risk_service_run :: "'v risk_json \<Rightarrow> hmac_fn \<Rightarrow> risk_message list \<Rightarrow> risk_service \<Rightarrow> risk_service" where
  "risk_service_run rj hmac ms s = fold (handle_signal rj hmac) ms s"

section \<open>Persistence (persistence.rs)\<close>

definition KEY_COOLDOWNS :: string where "KEY_COOLDOWNS = ''hedge:risk:cooldowns''"
definition KEY_DAILY_PNL :: string where "KEY_DAILY_PNL = ''hedge:risk:daily_pnl_paise''"
definition STATE_TTL_SECS :: u64 where "STATE_TTL_SECS = 18 * 60 * 60"

record persisted_cooldown =
  pc_symbol :: u32
  pc_expiry_ns :: u64
  pc_reason :: u8

record risk_state_snapshot =
  ss_cooldowns :: "persisted_cooldown list"
  ss_daily_pnl_paise :: i64

definition snapshot_default :: risk_state_snapshot where
  "snapshot_default = \<lparr>ss_cooldowns = [], ss_daily_pnl_paise = 0\<rparr>"

text \<open>What Redis holds under a key, with its time to live, and \<open>serde_json\<close> on the cooldown table. A command
  succeeds or fails as its flag says.\<close>

datatype redis_value = RStr string | RInt i64

type_synonym redis_db = "string \<rightharpoonup> redis_value \<times> u64"

record cooldown_json =
  cj_to_string :: "persisted_cooldown list \<Rightarrow> string option"
  cj_from_str :: "string \<Rightarrow> persisted_cooldown list option"

definition redis_set_ex :: "bool \<Rightarrow> string \<Rightarrow> redis_value \<Rightarrow> u64 \<Rightarrow> redis_db \<Rightarrow> redis_db" where
  "redis_set_ex ok key v ttl db = (if ok then db(key \<mapsto> (v, ttl)) else db)"

definition rp_save :: "cooldown_json \<Rightarrow> bool \<times> bool \<Rightarrow> risk_state_snapshot \<Rightarrow> redis_db \<Rightarrow> redis_db" where
  "rp_save cj ok snap db =
     (case cj_to_string cj (ss_cooldowns snap) of
        None \<Rightarrow> db
      | Some j \<Rightarrow> redis_set_ex (snd ok) KEY_DAILY_PNL (RInt (ss_daily_pnl_paise snap)) STATE_TTL_SECS
                    (redis_set_ex (fst ok) KEY_COOLDOWNS (RStr j) STATE_TTL_SECS db))"

definition rp_load :: "cooldown_json \<Rightarrow> bool \<times> bool \<Rightarrow> redis_db \<Rightarrow> risk_state_snapshot" where
  "rp_load cj ok db =
     \<lparr>ss_cooldowns = (if fst ok then case db KEY_COOLDOWNS of
          Some (RStr j, _) \<Rightarrow> opt_or (cj_from_str cj j) []
        | _ \<Rightarrow> [] else []),
      ss_daily_pnl_paise = (if snd ok then case db KEY_DAILY_PNL of
          Some (RInt n, _) \<Rightarrow> n
        | _ \<Rightarrow> 0 else 0)\<rparr>"

text \<open>The periodic task of the binary: every ten seconds it saves the empty snapshot.\<close>

definition save_tick :: "cooldown_json \<Rightarrow> bool \<times> bool \<Rightarrow> redis_db \<Rightarrow> redis_db" where
  "save_tick cj ok db = rp_save cj ok snapshot_default db"


section \<open>The engine of the running service\<close>

text \<open>Nothing but evaluations ever touches the engine: its state stays the initial one but for the cached counts.\<close>

definition boot_engine :: "u8 list \<Rightarrow> risk_engine" where
  "boot_engine key = re_new default_capital default_risk default_session key"

lemma handle_signal_engine:
  "\<exists>ins. rv_engine (handle_signal rj hmac m s) = run_evals hmac ins (rv_engine s)"
proof -
  have "rv_engine (handle_signal rj hmac m s) = rv_engine s
      \<or> (\<exists>now sig px. rv_engine (handle_signal rj hmac m s) = fst (evaluate hmac (mock_view mock_neutral) now sig px (rv_engine s)))"
    by (cases m) (auto simp: handle_signal_def Let_def split_beta split: option.split)
  then show ?thesis
  proof
    assume "rv_engine (handle_signal rj hmac m s) = rv_engine s"
    then show ?thesis by (intro exI [of _ "[]"]) (simp add: run_evals_def)
  next
    assume "\<exists>now sig px. rv_engine (handle_signal rj hmac m s) = fst (evaluate hmac (mock_view mock_neutral) now sig px (rv_engine s))"
    then obtain now sig px where "rv_engine (handle_signal rj hmac m s) = fst (evaluate hmac (mock_view mock_neutral) now sig px (rv_engine s))"
      by blast
    then show ?thesis
      by (intro exI [of _ "[(mock_view mock_neutral, now, sig, px)]"]) (simp add: run_evals_def eval_step_def)
  qed
qed

lemma run_evals_append: "run_evals hmac (a @ b) e = run_evals hmac b (run_evals hmac a e)"
  by (simp add: run_evals_def)

lemma risk_service_engine: "\<exists>ins. rv_engine (risk_service_run rj hmac ms s) = run_evals hmac ins (rv_engine s)"
proof (induction ms arbitrary: s)
  case (Cons m ms)
  obtain a where a: "rv_engine (handle_signal rj hmac m s) = run_evals hmac a (rv_engine s)" using handle_signal_engine by blast
  obtain b where "rv_engine (risk_service_run rj hmac ms (handle_signal rj hmac m s)) = run_evals hmac b (rv_engine (handle_signal rj hmac m s))"
    using Cons by blast
  then show ?case using a by (intro exI [of _ "a @ b"]) (simp add: risk_service_run_def run_evals_append)
qed (intro exI [of _ "[]"], simp add: risk_service_run_def run_evals_def)

definition quiet :: "risk_engine \<Rightarrow> bool" where
  "quiet e \<longleftrightarrow> re_capital e = default_capital \<and> re_risk_cfg e = default_risk \<and> re_session_cfg e = default_session
     \<and> \<not> ks_active (re_kill_switch e) \<and> fc_rep (rs_frequency (re_state e)) [] []
     \<and> (re_state e)\<lparr>rs_frequency := fc_new\<rparr> = rs_new default_capital default_risk"

lemma quiet_boot: "quiet (boot_engine key)"
  by (simp add: quiet_def boot_engine_def re_new_def rs_new_def fc_rep_new ks_new_def)

text \<open>The gates of such an engine: the state-dependent ones all pass.\<close>

lemma quiet_state:
  assumes "quiet e"
  shows "total_pnl_paise (re_state e) = 0" "rs_drawdown_paise (re_state e) = 0" "per_symbol_position (re_state e) = []"
    "portfolio_position (re_state e) = 0" "per_symbol_exposure_paise (re_state e) = []" "aggregate_notional_paise (re_state e) = 0"
    "rs_cooldowns (re_state e) = cd_new" "rs_volatility (re_state e) = []" "rs_broker_latency (re_state e) = []"
    "rs_target (re_state e) = tg_new 1000 ReduceSizeToZero"
proof -
  define st where "st = re_state e"
  have "st\<lparr>rs_frequency := fc_new\<rparr> = rs_new default_capital default_risk" using assms by (simp add: quiet_def st_def)
  then show "total_pnl_paise (re_state e) = 0" "rs_drawdown_paise (re_state e) = 0" "per_symbol_position (re_state e) = []"
    "portfolio_position (re_state e) = 0" "per_symbol_exposure_paise (re_state e) = []" "aggregate_notional_paise (re_state e) = 0"
    "rs_cooldowns (re_state e) = cd_new" "rs_volatility (re_state e) = []" "rs_broker_latency (re_state e) = []"
    "rs_target (re_state e) = tg_new 1000 ReduceSizeToZero"
    unfolding st_def [symmetric]
    by (cases st; simp add: rs_new_def total_pnl_paise_def default_capital_def sat_i64_def i64_defs)+
qed

lemma quiet_frequency: "quiet e \<Longrightarrow> \<not> breach_of now e"
  using would_breach_hist [of "rs_frequency (re_state e)" "[]" "[]"]
  by (simp add: quiet_def breach_of_def live_in_def default_risk_def)

definition hundred_shares :: "signal \<Rightarrow> bool" where
  "hundred_shares sig \<longleftrightarrow> max_size_qty (sg_risk_profile sig) = 100"

lemma quiet_exposure:
  assumes "hundred_shares sig" "in_i64 px"
  shows "prospective_exposure sig px = sat_i64 (px * 100)"
  using assms by (simp add: prospective_exposure_def prospective_qty_def hundred_shares_def wrap_i64_def)

lemma leverage_small:
  assumes "n \<le> 10000000"
  shows "\<not> flt_lt (Fin 5) (fdiv F64 (flt_of_int F64 n) (flt_of_int F64 2000000))"
proof -
  have c: "flt_of_int F64 2000000 = Fin 2000000" using rnd_F64_int [of 2000000] by (simp add: flt_of_int_def)
  have "flt_le (flt_of_int F64 n) (Fin 10000000)"
    using rnd_mono [of "of_int n" 10000000 F64] rnd_F64_int [of 10000000] assms by (simp add: flt_of_int_def)
  moreover have "flt_le (rnd F64 (q / 2000000)) (Fin 5)" if "q \<le> 10000000" for q :: rat
    using rnd_mono [of "q / 2000000" 5 F64] rnd_F64_int [of 5] that by simp
  moreover have "flt_le x (Fin 5) \<Longrightarrow> \<not> flt_lt (Fin 5) x" for x by (cases x) auto
  ultimately show ?thesis using c by (cases "flt_of_int F64 n") (auto simp: inf_of_def)
qed

definition cheap :: "i64 \<Rightarrow> bool" where
  "cheap px \<longleftrightarrow> px \<le> 20000"

lemma sat_hundred: "in_i64 px \<Longrightarrow> sat_i64 (px * 100) > 2000000 \<longleftrightarrow> px > 20000"
  by (auto simp: sat_i64_def in_i64_def i64_defs)

lemma quiet_gates:
  assumes "quiet e" "hundred_shares sig" "in_i64 px"
  shows "first_breach (gate_checks wc now sig px e) =
    (if \<not> is_within_session default_session now then Some SessionClosed
     else if leverage_breach default_capital default_risk (re_state e) sig px then Some MaxLeverage
     else if \<not> cheap px then Some MaxExposure
     else if adaptive_risk default_risk wc sig (cid_of_bytes (sg_correlation_id sig)) \<le> 0 then Some AdaptiveRiskZero else None)"
proof -
  have c: "re_capital e = default_capital" "re_risk_cfg e = default_risk" "re_session_cfg e = default_session" "\<not> ks_active (re_kill_switch e)"
    using assms(1) by (simp_all add: quiet_def)
  note s = quiet_state [OF assms(1)]
  have pos: "\<not> position_breach default_risk (re_state e) sig"
    using assms(2) by (simp add: position_breach_def s get_or_def prospective_qty_def hundred_shares_def usat_add_def default_risk_def)
  have exp: "exposure_breach default_risk (re_state e) sig px \<longleftrightarrow> \<not> cheap px"
    using sat_hundred [OF assms(3)]
    by (simp add: exposure_breach_def s get_or_def quiet_exposure [OF assms(2,3)] default_risk_def inr_to_paise_def cheap_def not_le)
  show ?thesis
    by (simp add: gate_checks_def c Let_def quiet_frequency [OF assms(1)] pos exp)
      (simp add: s cd_is_cooling_def cd_new_def vt_is_blocked_def any_broker_ok_def bl_latency_ms_def should_reject_def tg_new_def
        default_risk_def inr_to_paise_def)
qed

lemma quiet_leverage:
  assumes "quiet e" "hundred_shares sig" "in_i64 px" "cheap px"
  shows "\<not> leverage_breach default_capital default_risk (re_state e) sig px"
proof -
  have "sat_i64 (px * 100) \<le> 10000000" using assms(4) by (auto simp: cheap_def sat_i64_def i64_defs)
  then have "\<not> flt_lt (Fin 5) (fdiv F64 (flt_of_int F64 (sat_i64 (px * 100))) (flt_of_int F64 2000000))" by (rule leverage_small)
  then show ?thesis
    using quiet_state(6) [OF assms(1)]
    by (simp add: leverage_breach_def quiet_exposure [OF assms(2,3)] default_capital_def default_risk_def inr_to_paise_def Let_def)
qed

lemma evaluate_quiet:
  assumes "quiet e"
  shows "quiet (fst (evaluate hmac wc now sig px e))"
proof -
  have c: "re_capital e = default_capital" "re_risk_cfg e = default_risk" "re_session_cfg e = default_session" "\<not> ks_active (re_kill_switch e)"
    "fc_rep (rs_frequency (re_state e)) [] []" "(re_state e)\<lparr>rs_frequency := fc_new\<rparr> = rs_new default_capital default_risk"
    using assms by (simp_all add: quiet_def)
  have "decision_reason (snd (evaluate hmac wc now sig px e)) \<noteq> Some MaxDrawdown"
    using quiet_state(2) [OF assms] by (simp add: evaluate_reason gate_checks_def c default_risk_def inr_to_paise_def Let_def)
  moreover have "fc_rep (rs_frequency (re_state (fst (evaluate hmac wc now sig px e)))) [] []"
    using evaluate_frame [of hmac wc now sig px e] fc_rep_cached [OF c(5)] by auto
  ultimately show ?thesis
    using c evaluate_state_frame [of fc_new hmac wc now sig px e]
    by (simp add: quiet_def evaluate_config_frame evaluate_kill_switch)
qed

lemma run_evals_quiet: "quiet e \<Longrightarrow> quiet (run_evals hmac ins e)"
proof (induction ins arbitrary: e)
  case (Cons i ins)
  obtain wc now sig px where i: "i = (wc, now, sig, px)" by (cases i)
  have "quiet (eval_step hmac i e)" using evaluate_quiet [OF Cons.prems] by (simp add: eval_step_def i)
  from Cons.IH [OF this] show ?case by (simp add: run_evals_def)
qed (simp add: run_evals_def)

lemma service_quiet: "quiet (rv_engine (risk_service_run rj hmac ms (risk_service_new key)))"
proof -
  have "quiet (rv_engine (risk_service_new key))" using quiet_boot by (simp add: risk_service_new_def boot_engine_def)
  then show ?thesis using risk_service_engine [of rj hmac ms "risk_service_new key"] run_evals_quiet by fastforce
qed

lemma built_signal:
  assumes "build_signal_v1 rj v = Some sig"
  shows "hundred_shares sig" "symbol_for_id (sg_symbol sig) \<noteq> None" "sg_side sig \<in> {0, 1}"
proof -
  obtain sy where "sg_symbol sig = symbol_id_for sy" "symbol_id_for sy \<noteq> 0"
    using assms by (auto simp: build_signal_v1_def Let_def split: option.splits if_splits)
  then have "symbol_for_id (sg_symbol sig) = Some sy" using symbol_table_roundtrip [of "sg_symbol sig" sy] by simp
  then show "symbol_for_id (sg_symbol sig) \<noteq> None" by simp
  show "hundred_shares sig" "sg_side sig \<in> {0, 1}"
    using assms by (auto simp: build_signal_v1_def hundred_shares_def Let_def split: option.splits if_splits)
qed

text \<open>The envelope of a message's decision: its correlation id, entry price and symbol name.\<close>

definition message_cid :: "'v risk_json \<Rightarrow> 'v \<Rightarrow> string" where
  "message_cid rj v = opt_or (js_field (rj_api rj) (js_as_str (rj_api rj)) v ''correlation_id'') ''''"

definition message_price :: "'v risk_json \<Rightarrow> 'v \<Rightarrow> i64" where
  "message_price rj v = opt_or (js_field (rj_api rj) (js_as_i64 (rj_api rj)) v ''entry_price_paise'') 0"

lemma handle_signal_out:
  assumes "js_from_slice (rj_api rj) b = Some v" "build_signal_v1 rj v = Some sig"
  shows "rv_out (handle_signal rj hmac (b, now, now_ns) s) = rv_out s @ [build_decision_payload now_ns (message_cid rj v)
    (snd (evaluate hmac (mock_view mock_neutral) now sig (message_price rj v) (rv_engine s))) sig]"
  using assms by (simp add: handle_signal_def message_cid_def message_price_def Let_def split_beta)

lemma rejected_payload:
  "decision_reason d = Some r \<Longrightarrow> build_decision_payload n cid d sig = (''risk.decision.rejected'', RejectedJson cid (reason_as_u8 r) (reason_as_str r) n)"
  by (cases d) (simp_all add: build_decision_payload_def Let_def)

lemma approved_payload:
  assumes "decision_reason d = None" "sg_side sig \<in> {0, 1}" "symbol_for_id (sg_symbol sig) = Some sy"
  shows "build_decision_payload n cid d sig
    = (''risk.decision.approved'', ApprovedJson cid (decision_quantity d) (if sg_side sig = 0 then ''buy'' else ''sell'') sy n)"
  using assms by (cases d) (auto simp: build_decision_payload_def opt_or_def Let_def)

lemma quiet_quantity:
  assumes "is_approved (snd (evaluate hmac wc now sig px e))" "hundred_shares sig"
  shows "1 \<le> decision_quantity (snd (evaluate hmac wc now sig px e)) \<and> decision_quantity (snd (evaluate hmac wc now sig px e)) \<le> 100
    \<and> (px \<le> 0 \<longrightarrow> decision_quantity (snd (evaluate hmac wc now sig px e)) = 1)"
proof -
  have "1 \<le> sized_quantity st a px 100 \<and> sized_quantity st a px 100 \<le> 100 \<and> (px \<le> 0 \<longrightarrow> sized_quantity st a px 100 = 1)" for st a
    by (auto simp: sized_quantity_def Let_def min_def word_le_nat_alt word_unat_eq_iff)
  then show ?thesis using assms by (simp add: evaluate_approved(1) approved_qty_def hundred_shares_def)
qed

text \<open>C7: What the running Risk_Engine decides. No message ever changes the state its gates read, so after any history of
  messages a well-formed signal is answered with exactly one decision: outside the session with
  \<open>session_closed\<close>; inside it, at an entry price above 200 rupees, with a leverage or exposure rejection; at a lower
  or a missing price with an approval of 1 to 100 shares, of exactly 1 when the price is missing, unless the
  confidence leaves no risk budget. Loss, drawdown, frequency, position, cooldown, volatility, latency and
  profit-target gates never reject.\<close>

theorem deployed_risk_decisions:
  assumes "js_from_slice (rj_api rj) b = Some v" and "build_signal_v1 rj v = Some sig" and "in_i64 (message_price rj v)"
  shows "\<exists>p. rv_out (risk_service_run rj hmac (ms @ [(b, now, now_ns)]) (risk_service_new key))
      = rv_out (risk_service_run rj hmac ms (risk_service_new key)) @ [p]
    \<and> (if \<not> is_within_session default_session now
       then p = (''risk.decision.rejected'', RejectedJson (message_cid rj v) 1 ''session_closed'' now_ns)
       else if message_price rj v > 20000
       then p \<in> {(''risk.decision.rejected'', RejectedJson (message_cid rj v) 4 ''max_leverage'' now_ns),
                 (''risk.decision.rejected'', RejectedJson (message_cid rj v) 7 ''max_exposure'' now_ns)}
       else if adaptive_risk default_risk (mock_view mock_neutral) sig (cid_of_bytes (sg_correlation_id sig)) \<le> 0
       then p = (''risk.decision.rejected'', RejectedJson (message_cid rj v) 16 ''adaptive_risk_zero'' now_ns)
       else \<exists>q sy. p = (''risk.decision.approved'', ApprovedJson (message_cid rj v) q (if sg_side sig = 0 then ''buy'' else ''sell'') sy now_ns)
         \<and> 1 \<le> q \<and> q \<le> 100 \<and> (message_price rj v \<le> 0 \<longrightarrow> q = 1) \<and> symbol_for_id (sg_symbol sig) = Some sy)"
proof -
  let ?s = "risk_service_run rj hmac ms (risk_service_new key)"
  let ?d = "snd (evaluate hmac (mock_view mock_neutral) now sig (message_price rj v) (rv_engine ?s))"
  let ?p = "build_decision_payload now_ns (message_cid rj v) ?d sig"
  note b = built_signal [OF assms(2)] and q = service_quiet [of rj hmac ms key]
  obtain sy where sy: "symbol_for_id (sg_symbol sig) = Some sy" using b(2) by blast
  have out: "rv_out (risk_service_run rj hmac (ms @ [(b, now, now_ns)]) (risk_service_new key)) = rv_out ?s @ [?p]"
    using handle_signal_out [OF assms(1,2), of hmac now now_ns ?s] by (simp add: risk_service_run_def)
  have r: "decision_reason ?d = (if \<not> is_within_session default_session now then Some SessionClosed
     else if leverage_breach default_capital default_risk (re_state (rv_engine ?s)) sig (message_price rj v) then Some MaxLeverage
     else if \<not> cheap (message_price rj v) then Some MaxExposure
     else if adaptive_risk default_risk (mock_view mock_neutral) sig (cid_of_bytes (sg_correlation_id sig)) \<le> 0 then Some AdaptiveRiskZero else None)"
    unfolding evaluate_reason by (rule quiet_gates [OF q b(1) assms(3)])
  note lev = quiet_leverage [OF q b(1) assms(3)]
  have qty: "decision_reason ?d = None \<Longrightarrow> 1 \<le> decision_quantity ?d \<and> decision_quantity ?d \<le> 100 \<and> (message_price rj v \<le> 0 \<longrightarrow> decision_quantity ?d = 1)"
    using quiet_quantity [OF _ b(1)] by (simp add: is_approved_iff)
  show ?thesis
    by (intro exI [of _ ?p] conjI out)
      (use r lev qty rejected_payload [of ?d _ now_ns "message_cid rj v" sig] approved_payload [OF _ b(3) sy, of ?d now_ns "message_cid rj v"] sy
        in \<open>auto simp: cheap_def not_le split: if_splits\<close>)
qed

section \<open>From the risk service to the execution service\<close>

text \<open>What \<open>serde_json\<close> does with an approval envelope: the parsed bytes give back the fields that were written, and a key
  that was not written is absent.\<close>

definition decision_wire :: "'v json_api \<Rightarrow> (decision_json \<Rightarrow> bytes) \<Rightarrow> decision_json \<Rightarrow> bool" where
  "decision_wire js to_vec p \<longleftrightarrow> (case p of
     ApprovedJson cid q sd sy ts \<Rightarrow> \<exists>v d. js_from_slice js (to_vec p) = Some v \<and> js_get js v ''data'' = Some d
       \<and> js_field js (js_as_str js) d ''correlation_id'' = Some cid \<and> js_field js (js_as_u64 js) d ''sized_quantity'' = Some q
       \<and> js_field js (js_as_str js) d ''side'' = Some sd \<and> js_field js (js_as_str js) d ''symbol'' = Some sy
       \<and> js_get js d ''entry_price_paise'' = None
   | RejectedJson _ _ _ _ \<Rightarrow> True)"

lemma approval_order:
  assumes "decision_wire js to_vec (ApprovedJson cid q sd sy ts)" "cid \<noteq> ''''" "q \<noteq> 0" "symbol_id_for sy \<noteq> 0"
  shows "message_order js cap (to_vec (ApprovedJson cid q sd sy ts)) = Some (live_intent cid (symbol_id_for sy) (parse_side sd) q)"
proof -
  obtain v d where f: "js_from_slice js (to_vec (ApprovedJson cid q sd sy ts)) = Some v" "js_get js v ''data'' = Some d"
      "js_field js (js_as_str js) d ''correlation_id'' = Some cid" "js_field js (js_as_u64 js) d ''sized_quantity'' = Some q"
      "js_field js (js_as_str js) d ''side'' = Some sd" "js_field js (js_as_str js) d ''symbol'' = Some sy"
      "js_get js d ''entry_price_paise'' = None"
    using assms(1) by (auto simp: decision_wire_def)
  have "js_field js (js_as_i64 js) d ''entry_price_paise'' = None" using f(7) by (simp add: js_field_def)
  with f assms(2-4) show ?thesis by (simp add: message_order_def opt_or_def cap_ok_def)
qed

definition envelope_ok :: "decision_json \<Rightarrow> bool" where
  "envelope_ok p = (case p of ApprovedJson _ q _ sy _ \<Rightarrow> symbol_id_for sy \<noteq> 0 \<and> 1 \<le> q \<and> q \<le> 100 | RejectedJson _ _ _ _ \<Rightarrow> True)"

lemma decision_envelope_ok:
  assumes "build_signal_v1 rj v = Some sig"
  shows "envelope_ok (snd (build_decision_payload n cid (snd (evaluate hmac wc now sig px e)) sig))"
proof (cases "decision_reason (snd (evaluate hmac wc now sig px e))")
  case None
  obtain sy where sy: "symbol_for_id (sg_symbol sig) = Some sy" using built_signal(2) [OF assms] by blast
  then have "symbol_id_for sy \<noteq> 0" using symbol_table_roundtrip [of "sg_symbol sig" sy] by auto
  with None show ?thesis
    using quiet_quantity [of hmac wc now sig px e] built_signal(1,3) [OF assms] approved_payload [OF None _ sy]
    by (auto simp: is_approved_iff envelope_ok_def)
next
  case (Some r)
  then show ?thesis using rejected_payload by (simp add: envelope_ok_def)
qed

lemma service_envelopes: "x \<in> set (rv_out (risk_service_run rj hmac ms (risk_service_new key))) \<Longrightarrow> envelope_ok (snd x)"
proof (induction ms arbitrary: x rule: rev_induct)
  case (snoc m ms)
  let ?s = "risk_service_run rj hmac ms (risk_service_new key)"
  obtain b now n where m: "m = (b, now, n)" by (cases m)
  have "rv_out (handle_signal rj hmac m ?s) = rv_out ?s
      \<or> (\<exists>v sig cid px. build_signal_v1 rj v = Some sig \<and> rv_out (handle_signal rj hmac m ?s)
           = rv_out ?s @ [build_decision_payload n cid (snd (evaluate hmac (mock_view mock_neutral) now sig px (rv_engine ?s))) sig])"
    by (auto simp: handle_signal_def m Let_def split_beta split: option.split)
  moreover have "x \<in> set (rv_out (handle_signal rj hmac m ?s))" using snoc.prems by (simp add: risk_service_run_def)
  ultimately show ?case using snoc.IH [of x] decision_envelope_ok by (auto simp del: split_paired_all)
qed (simp add: risk_service_run_def risk_service_new_def)

text \<open>C8: An approval of the risk service becomes the order it names, and no notional cap applies to it. In live mode, every
  approval envelope the running risk service has published, with a correlation id, sends exactly that
  symbol, side and quantity to the brokers, whatever cap the execution service is configured with: the
  envelope has no price, so the cap is never computed.\<close>

theorem approvals_escape_notional_cap:
  assumes "(''risk.decision.approved'', p) \<in> set (rv_out (risk_service_run rj hmac ms (risk_service_new key)))"
    and "p = ApprovedJson cid q sd sy ts" and "cid \<noteq> ''''" and "decision_wire js to_vec p"
  shows "\<exists>cs. calls (snd (exec_service js (recording br) cap [ApprovalMsg (to_vec p)] (True, io))) = calls io @ cs
    \<and> order_calls (live_intent cid (symbol_id_for sy) (parse_side sd) q) cs \<and> symbol_id_for sy \<noteq> 0 \<and> 1 \<le> q \<and> q \<le> 100"
proof -
  have e: "symbol_id_for sy \<noteq> 0" "1 \<le> q" "q \<le> 100" using service_envelopes [OF assms(1)] by (simp_all add: assms(2) envelope_ok_def)
  then have "q \<noteq> 0" by auto
  then have m: "message_order js cap (to_vec p) = Some (live_intent cid (symbol_id_for sy) (parse_side sd) q)"
    using approval_order assms(2-4) e(1) by blast
  obtain v where "js_from_slice js (to_vec p) = Some v" using assms(2,4) by (auto simp: decision_wire_def)
  then have "handle_approval js (recording br) (to_vec p) True cap io \<noteq> None" by (simp add: handle_approval_def Let_def)
  then obtain io' where h: "handle_approval js (recording br) (to_vec p) True cap io = Some io'" by blast
  from handle_approval_calls [OF h] m e show ?thesis by (simp add: h)
qed

section \<open>Restart\<close>

lemma keys_distinct: "KEY_COOLDOWNS \<noteq> KEY_DAILY_PNL"
  by (simp add: KEY_COOLDOWNS_def KEY_DAILY_PNL_def)

text \<open>The store works, and forgets. A snapshot saved with both commands accepted is loaded back whenever \<open>serde_json\<close>
  reads what it wrote, and a failed load is the empty snapshot; but the periodic task of the binary saves
  the empty snapshot, so after one accepted save tick a restart finds no cooldown and no loss, whatever was stored.\<close>

theorem risk_state_persistence:
  assumes "cj_to_string cj (ss_cooldowns snap) = Some j \<and> cj_from_str cj j = Some (ss_cooldowns snap)"
    and "cj_to_string cj [] = Some k \<and> cj_from_str cj k = Some []"
  shows "rp_load cj (True, True) (rp_save cj (True, True) snap db) = snap
    \<and> rp_load cj (False, False) db = snapshot_default
    \<and> rp_load cj (True, True) (save_tick cj (True, True) (rp_save cj oks snap db)) = snapshot_default"
proof -
  have rt: "cj_to_string cj (ss_cooldowns s) = Some i \<and> cj_from_str cj i = Some (ss_cooldowns s)
      \<Longrightarrow> rp_load cj (True, True) (rp_save cj (True, True) s db) = s" for s i db
    using keys_distinct by (simp add: rp_save_def rp_load_def redis_set_ex_def opt_or_def)
  have "rp_load cj (True, True) (save_tick cj (True, True) db') = snapshot_default" for db'
    unfolding save_tick_def by (rule rt [of _ k]) (use assms(2) in \<open>simp add: snapshot_default_def\<close>)
  then show ?thesis using rt [OF assms(1)] by (simp add: rp_load_def snapshot_default_def)
qed

section \<open>Witnesses\<close>

definition one_cooldown :: risk_state_snapshot where
  "one_cooldown = \<lparr>ss_cooldowns = [\<lparr>pc_symbol = 1, pc_expiry_ns = 5, pc_reason = 0\<rparr>], ss_daily_pnl_paise = - 60000\<rparr>"

definition toy_cooldown_json :: cooldown_json where
  "toy_cooldown_json = \<lparr>cj_to_string = (\<lambda>cs. if cs = [] then Some ''[]'' else if cs = ss_cooldowns one_cooldown then Some ''[c]'' else None),
     cj_from_str = (\<lambda>s. if s = ''[]'' then Some [] else if s = ''[c]'' then Some (ss_cooldowns one_cooldown) else None)\<rparr>"

theorem risk_state_persistence_witness:
  "rp_load toy_cooldown_json (True, True) (rp_save toy_cooldown_json (True, True) one_cooldown (\<lambda>_. None)) = one_cooldown
   \<and> rp_load toy_cooldown_json (True, True) (save_tick toy_cooldown_json (True, True)
       (rp_save toy_cooldown_json (True, True) one_cooldown (\<lambda>_. None))) = snapshot_default"
  using risk_state_persistence [of toy_cooldown_json one_cooldown "''[c]''" "''[]''" "\<lambda>_. None" "(True, True)"]
  by (simp add: toy_cooldown_json_def one_cooldown_def)

text \<open>A signal for INFY without a price, in the session, and the envelope that answers it.\<close>

definition infy_json :: sample_json where
  "infy_json = JObj [(''symbol'', JStr ''INFY''), (''correlation_id'', JStr ''abc'')]"

definition infy_answer :: sample_json where
  "infy_answer = JObj [(''kind'', JStr ''decision''), (''data'', JObj [(''correlation_id'', JStr ''abc''), (''sized_quantity'', JNum 1),
     (''side'', JStr ''buy''), (''symbol'', JStr ''INFY'')])]"

definition infy_js :: "sample_json json_api" where
  "infy_js = sample_js\<lparr>js_from_slice := (\<lambda>b. if b = [1] then Some infy_json else if b = [2] then Some infy_answer else None)\<rparr>"

definition infy_rj :: "sample_json risk_json" where
  "infy_rj = \<lparr>rj_api = infy_js, rj_as_f64 = (\<lambda>v. None)\<rparr>"

definition infy_signal :: signal where
  "infy_signal = \<lparr>sg_correlation_id = pad16 [97, 98, 99], sg_strategy = 0, sg_symbol = 2, sg_side = 0,
     sg_base_probability = f64_to_f32 (Fin (1 / 2)), sg_confidence = f64_to_f32 (Fin (1 / 2)),
     sg_risk_profile = \<lparr>stop_loss_paise = 0, take_profit_paise = 0, max_size_qty = 100, time_horizon_seconds = 60\<rparr>, sg_ts_ns = 0\<rparr>"

lemma infy_parsed:
  "js_from_slice (rj_api infy_rj) [1] = Some infy_json" "build_signal_v1 infy_rj infy_json = Some infy_signal"
  "message_price infy_rj infy_json = 0" "message_cid infy_rj infy_json = ''abc''"
  by (simp_all add: infy_rj_def infy_js_def sample_js_def infy_json_def build_signal_v1_def infy_signal_def js_field_def opt_or_def
      symbol_id_for_def message_price_def message_cid_def Let_def)

lemma infy_adaptive: "adaptive_risk default_risk (mock_view mock_neutral) infy_signal cid = 5000"
proof -
  have b: "inr_to_paise (base_risk_per_trade_inr default_risk) = 10000"
    by (simp add: default_risk_def inr_to_paise_def)
  have f: "fmul F64 (Fin 10000) (Fin 1) = Fin 10000" "fmul F64 (Fin 10000) (Fin (1 / 2)) = Fin 5000" "fmul F64 (Fin 5000) (Fin 1) = Fin 5000"
    using fmul_one [of 10000] fmul_one [of 5000] by simp_all
  have base: "flt_of_int F64 10000 = Fin 10000" using base_risk_exact [of 100] by (simp add: inr_to_paise_def)
  have t: "trunc_rat 5000 = 5000" using trunc_rat_of_int [of 5000] by simp
  have "rnd_rat F32 (1 / 2) = 1 / 2" by (rule rnd_rat_exact [where k = 1 and e = "- 1"]) (simp_all add: power_int_minus)
  then have h: "f64_to_f32 (Fin (1 / 2)) = Fin (1 / 2)" by (simp add: f64_to_f32_def rnd_def)
  show ?thesis
    unfolding adaptive_risk_def Let_def b base
    by (simp add: mock_view_def mock_neutral_def infy_signal_def clamp01_def f h del: fmul.simps)
      (simp add: is_finite_flt_def flt_min_def flt_to_i64_def sat_i64_def i64_defs t)
qed

lemma infy_session: "is_within_session default_session sample_clock"
  by (simp add: is_within_session_def sample_clock_def default_session_def from_hms_opt_def)

theorem deployed_risk_decisions_witness:
  "rv_out (risk_service_run infy_rj (\<lambda>k m. k @ m) ([] @ [([1], sample_clock, 9)]) (risk_service_new [1]))
    = rv_out (risk_service_run infy_rj (\<lambda>k m. k @ m) [] (risk_service_new [1]))
      @ [(''risk.decision.approved'', ApprovedJson ''abc'' 1 ''buy'' ''INFY'' 9)]"
  using deployed_risk_decisions [OF infy_parsed(1,2), of "\<lambda>k m. k @ m" "[]" sample_clock 9 "[1]"]
  by (simp add: infy_parsed infy_session infy_adaptive in_i64_def i64_defs) (auto simp: infy_signal_def symbol_for_id_def)

lemma infy_output:
  "rv_out (risk_service_run infy_rj (\<lambda>k m. k @ m) [([1], sample_clock, 9)] (risk_service_new [1]))
    = [(''risk.decision.approved'', ApprovedJson ''abc'' 1 ''buy'' ''INFY'' 9)]"
proof -
  let ?e = "boot_engine [1]" and ?h = "\<lambda>k m :: u8 list. k @ m"
  have i: "in_i64 (0 :: int)" by (simp add: in_i64_def i64_defs)
  have hs: "hundred_shares infy_signal" by (simp add: hundred_shares_def infy_signal_def)
  have "decision_reason (snd (evaluate ?h (mock_view mock_neutral) sample_clock infy_signal 0 ?e)) = None"
    using quiet_leverage [OF quiet_boot hs i] unfolding evaluate_reason quiet_gates [OF quiet_boot hs i]
    by (simp add: infy_session infy_adaptive cheap_def)
  moreover note quiet_quantity [of ?h "mock_view mock_neutral" sample_clock infy_signal 0 ?e, OF _ hs]
  ultimately have "build_decision_payload 9 ''abc'' (snd (evaluate ?h (mock_view mock_neutral) sample_clock infy_signal 0 ?e)) infy_signal
      = (''risk.decision.approved'', ApprovedJson ''abc'' 1 ''buy'' ''INFY'' 9)"
    using approved_payload [of _ infy_signal "''INFY''"] by (simp add: is_approved_iff) (simp add: infy_signal_def symbol_for_id_def)
  then show ?thesis
    using handle_signal_out [OF infy_parsed(1,2), of ?h sample_clock 9 "risk_service_new [1]"]
    by (simp add: risk_service_run_def infy_parsed risk_service_new_def boot_engine_def)
qed

theorem approvals_escape_notional_cap_witness:
  "\<exists>cs. calls (snd (exec_service infy_js (recording sample_live) 0 [ApprovalMsg [2]] (True, sample_io))) = calls sample_io @ cs
    \<and> order_calls (live_intent ''abc'' (symbol_id_for ''INFY'') (parse_side ''buy'') 1) cs \<and> symbol_id_for ''INFY'' \<noteq> 0
    \<and> (1 :: u64) \<le> 1 \<and> (1 :: u64) \<le> 100"
proof -
  have "decision_wire infy_js (\<lambda>_. [2]) (ApprovedJson ''abc'' 1 ''buy'' ''INFY'' 9)"
    by (simp add: decision_wire_def infy_js_def infy_answer_def sample_js_def js_field_def)
  from approvals_escape_notional_cap [OF _ refl _ this, of infy_rj "\<lambda>k m. k @ m" "[([1], sample_clock, 9)]" "[1]" sample_live 0 sample_io]
  show ?thesis by (simp add: infy_output)
qed

end
