(* ===== verification/Market_Data.thy ===== *)
theory Market_Data
  imports Features "HOL-Library.Multiset"
begin

text \<open>
  The Market_Data_Engine (\<open>hedge-market-data/src\<close>): the symbol interner (\<open>interner.rs\<close>), the canonical tick
  (\<open>protocol.rs\<close>), normalisation (\<open>normalizer.rs\<close>), the per-symbol distributor (\<open>distributor.rs\<close>), breadth
  (\<open>breadth.rs\<close>), the WebSocket adapter with its reconnection schedule (\<open>adapter.rs\<close>) and the ingest loop
  (\<open>engine.rs\<close>). \<open>serde_json\<close>, \<open>tokio::broadcast\<close>, ULIDs, the clocks, the square root, the iteration order of a
  \<open>HashMap\<close> and the upstream server (the frames of each connection, the outcome of each dial) are arguments.
\<close>

section \<open>Interner (interner.rs)\<close>

record symbol_interner =
  si_map :: "string \<rightharpoonup> u32"
  si_next :: u32

definition interner_new :: symbol_interner where
  "interner_new = \<lparr>si_map = (\<lambda>_. None), si_next = 1\<rparr>"

definition intern :: "string \<Rightarrow> symbol_interner \<Rightarrow> symbol_interner \<times> u32" where
  "intern s i =
     (case si_map i s of
        Some k \<Rightarrow> (i, k)
      | None \<Rightarrow> (i\<lparr>si_map := (si_map i)(s \<mapsto> si_next i), si_next := si_next i + 1\<rparr>, si_next i))"

definition interner_get :: "string \<Rightarrow> symbol_interner \<Rightarrow> u32 option" where
  "interner_get s i = si_map i s"

text \<open>Calls of \<open>intern\<close> in different tasks interleave between their three accesses to the shared structure: the lookup, the
  increment of the counter, and the insertion through the map's entry.\<close>

datatype intern_pc = Looking | Missed | Holding u32 | Got u32

type_synonym intern_call = "string \<times> intern_pc"

inductive intern_step :: "symbol_interner \<times> intern_call list \<Rightarrow> symbol_interner \<times> intern_call list \<Rightarrow> bool" where
  look_hit: "k < length ts \<Longrightarrow> ts ! k = (s, Looking) \<Longrightarrow> si_map i s = Some v \<Longrightarrow> intern_step (i, ts) (i, ts[k := (s, Got v)])"
| look_miss: "k < length ts \<Longrightarrow> ts ! k = (s, Looking) \<Longrightarrow> si_map i s = None \<Longrightarrow> intern_step (i, ts) (i, ts[k := (s, Missed)])"
| fetch_add: "k < length ts \<Longrightarrow> ts ! k = (s, Missed) \<Longrightarrow>
    intern_step (i, ts) (i\<lparr>si_next := si_next i + 1\<rparr>, ts[k := (s, Holding (si_next i))])"
| or_insert_old: "k < length ts \<Longrightarrow> ts ! k = (s, Holding c) \<Longrightarrow> si_map i s = Some v \<Longrightarrow>
    intern_step (i, ts) (i, ts[k := (s, Got v)])"
| or_insert_new: "k < length ts \<Longrightarrow> ts ! k = (s, Holding c) \<Longrightarrow> si_map i s = None \<Longrightarrow>
    intern_step (i, ts) (i\<lparr>si_map := (si_map i)(s \<mapsto> c)\<rparr>, ts[k := (s, Got c)])"

section \<open>Raw ticks (protocol.rs, error.rs)\<close>

datatype market_data_error =
    MdWebSocket string string
  | MdParse string string
  | MdBus bus_error
  | MdReconnectBudgetExhausted string u32
  | MdConfig string

record raw_tick =
  rt_symbol :: string
  rt_ltp_paise :: i64
  rt_bid_paise :: i64
  rt_ask_paise :: i64
  rt_ltq :: u64
  rt_total_buy_qty :: u64
  rt_total_sell_qty :: u64
  rt_ts_exchange_ms :: u64

record canonical_json_tick =
  cj_symbol :: string
  cj_ltp :: i64
  cj_bid :: i64
  cj_ask :: i64
  cj_ltq :: u64
  cj_total_buy_qty :: u64
  cj_total_sell_qty :: u64
  cj_ts_exchange_ms :: u64

definition raw_tick_from :: "canonical_json_tick \<Rightarrow> raw_tick" where
  "raw_tick_from j = \<lparr>rt_symbol = cj_symbol j, rt_ltp_paise = cj_ltp j, rt_bid_paise = cj_bid j, rt_ask_paise = cj_ask j,
     rt_ltq = cj_ltq j, rt_total_buy_qty = cj_total_buy_qty j, rt_total_sell_qty = cj_total_sell_qty j,
     rt_ts_exchange_ms = cj_ts_exchange_ms j\<rparr>"

type_synonym tick_json = "u8 list \<Rightarrow> string + canonical_json_tick"

definition parse_canonical_json :: "tick_json \<Rightarrow> string \<Rightarrow> u8 list \<Rightarrow> market_data_error + raw_tick" where
  "parse_canonical_json from_slice name raw =
     (case from_slice raw of Inl e \<Rightarrow> Inl (MdParse name e) | Inr j \<Rightarrow> Inr (raw_tick_from j))"

datatype md_protocol = NseProtocolPlaceholder | BseProtocolPlaceholder | OptionsChainProtocolPlaceholder

fun protocol_name :: "md_protocol \<Rightarrow> string" where
  "protocol_name NseProtocolPlaceholder = ''NseProtocolPlaceholder''"
| "protocol_name BseProtocolPlaceholder = ''BseProtocolPlaceholder''"
| "protocol_name OptionsChainProtocolPlaceholder = ''OptionsChainProtocolPlaceholder''"

definition protocol_parse :: "tick_json \<Rightarrow> md_protocol \<Rightarrow> u8 list \<Rightarrow> market_data_error + raw_tick" where
  "protocol_parse from_slice p raw = parse_canonical_json from_slice (protocol_name p) raw"

section \<open>Normalisation (normalizer.rs)\<close>

datatype md_exchange = MdNse | MdBse

fun exchange_as_byte :: "md_exchange \<Rightarrow> u8" where
  "exchange_as_byte MdNse = 0"
| "exchange_as_byte MdBse = 1"

definition normalize_with_correlation :: "raw_tick \<Rightarrow> md_exchange \<Rightarrow> correlation_id \<Rightarrow> u64 \<Rightarrow> symbol_interner \<Rightarrow> symbol_interner \<times> tick" where
  "normalize_with_correlation raw ex cid now_ns i =
     (let (i, symbol_id) = intern (rt_symbol raw) i
      in (i, \<lparr>tk_correlation_id = u128_be cid, tk_symbol = symbol_id, tk_exchange = exchange_as_byte ex, tk_ltp_paise = rt_ltp_paise raw,
              tk_bid_paise = rt_bid_paise raw, tk_ask_paise = rt_ask_paise raw, tk_ltq = rt_ltq raw,
              tk_total_buy_qty = rt_total_buy_qty raw, tk_total_sell_qty = rt_total_sell_qty raw,
              tk_ts_exchange_ns = of_nat (min (unat (rt_ts_exchange_ms raw) * 1000000) 18446744073709551615),
              tk_ts_recv_ns = now_ns\<rparr>))"

section \<open>Distributor (distributor.rs)\<close>

text \<open>\<open>tokio::broadcast\<close> as far as it is used: a channel of a capacity, a new receiver, and a send that says whether any
  receiver exists.\<close>

record ('c, 'r) broadcast_api =
  bc_channel :: "nat \<Rightarrow> 'c"
  bc_subscribe :: "'c \<Rightarrow> 'c \<times> 'r"
  bc_send :: "tick \<Rightarrow> 'c \<Rightarrow> 'c \<times> bool"

definition CHANNEL_CAPACITY :: nat where "CHANNEL_CAPACITY = 1024"

record 'c distributor =
  db_channels :: "u32 \<rightharpoonup> 'c"
  db_capacity :: nat

definition distributor_with_capacity :: "nat \<Rightarrow> 'c distributor" where
  "distributor_with_capacity n = \<lparr>db_channels = (\<lambda>_. None), db_capacity = n\<rparr>"

definition distributor_new :: "'c distributor" where
  "distributor_new = distributor_with_capacity CHANNEL_CAPACITY"

definition channel_or_new :: "('c, 'r) broadcast_api \<Rightarrow> u32 \<Rightarrow> 'c distributor \<Rightarrow> 'c" where
  "channel_or_new bc sy d = (case db_channels d sy of Some c \<Rightarrow> c | None \<Rightarrow> bc_channel bc (db_capacity d))"

definition db_subscribe :: "('c, 'r) broadcast_api \<Rightarrow> u32 \<Rightarrow> 'c distributor \<Rightarrow> 'c distributor \<times> 'r" where
  "db_subscribe bc sy d =
     (let (c, r) = bc_subscribe bc (channel_or_new bc sy d) in (d\<lparr>db_channels := (db_channels d)(sy \<mapsto> c)\<rparr>, r))"

definition db_broadcast :: "('c, 'r) broadcast_api \<Rightarrow> tick \<Rightarrow> 'c distributor \<Rightarrow> 'c distributor \<times> bool" where
  "db_broadcast bc t d =
     (case db_channels d (tk_symbol t) of
        None \<Rightarrow> (d, False)
      | Some c \<Rightarrow> let (c, ok) = bc_send bc t c in (d\<lparr>db_channels := (db_channels d)(tk_symbol t \<mapsto> c)\<rparr>, ok))"

definition ensure_channel :: "('c, 'r) broadcast_api \<Rightarrow> u32 \<Rightarrow> 'c distributor \<Rightarrow> 'c distributor" where
  "ensure_channel bc sy d = d\<lparr>db_channels := (db_channels d)(sy \<mapsto> channel_or_new bc sy d)\<rparr>"

section \<open>Breadth (breadth.rs)\<close>

definition BREADTH_VOLATILITY_WINDOW :: nat where "BREADTH_VOLATILITY_WINDOW = 60"
definition DEFAULT_BATCH_TICKS :: u32 where "DEFAULT_BATCH_TICKS = 100"
definition DEFAULT_BATCH_INTERVAL :: u64 where "DEFAULT_BATCH_INTERVAL = 250000000"

record sector_breadth =
  sb_sectors :: "string \<rightharpoonup> flt"
  sb_ts_ns :: u64

record volatility_breadth =
  vb_stdev :: flt
  vb_sample_count :: u32
  vb_ts_ns :: u64

record symbol_breadth =
  bs_last_ltp_paise :: i64
  bs_prev_close_paise :: i64
  bs_returns :: "flt ring_window"
  bs_prev_ltp_paise :: "i64 option"

definition symbol_breadth_new :: "i64 \<Rightarrow> symbol_breadth" where
  "symbol_breadth_new prev_close = \<lparr>bs_last_ltp_paise = 0, bs_prev_close_paise = prev_close,
     bs_returns = fresh_window BREADTH_VOLATILITY_WINDOW (Fin 0), bs_prev_ltp_paise = None\<rparr>"

type_synonym breadth_entry = "u32 \<times> symbol_breadth"

record breadth_aggregator =
  ba_sectors :: "u32 \<rightharpoonup> string"
  ba_state :: "breadth_entry list"
  ba_prev_close :: "u32 \<rightharpoonup> i64"
  ba_ticks_since_publish :: u32
  ba_last_publish :: u64
  ba_batch_ticks :: u32
  ba_batch_interval :: u64

definition breadth_with_thresholds :: "(u32 \<rightharpoonup> string) \<Rightarrow> (u32 \<rightharpoonup> i64) \<Rightarrow> u32 \<Rightarrow> u64 \<Rightarrow> u64 \<Rightarrow> breadth_aggregator" where
  "breadth_with_thresholds sectors prev_close n interval now =
     \<lparr>ba_sectors = sectors, ba_state = [], ba_prev_close = prev_close, ba_ticks_since_publish = 0, ba_last_publish = now,
      ba_batch_ticks = n, ba_batch_interval = interval\<rparr>"

definition breadth_new :: "(u32 \<rightharpoonup> string) \<Rightarrow> (u32 \<rightharpoonup> i64) \<Rightarrow> u64 \<Rightarrow> breadth_aggregator" where
  "breadth_new sectors prev_close now = breadth_with_thresholds sectors prev_close DEFAULT_BATCH_TICKS DEFAULT_BATCH_INTERVAL now"

definition symbol_state :: "u32 \<Rightarrow> breadth_aggregator \<Rightarrow> symbol_breadth" where
  "symbol_state sy b = (case map_of (ba_state b) sy of
     Some s \<Rightarrow> s | None \<Rightarrow> symbol_breadth_new (case ba_prev_close b sy of Some p \<Rightarrow> p | None \<Rightarrow> 0))"

definition breadth_fold :: "tick \<Rightarrow> symbol_breadth \<Rightarrow> symbol_breadth" where
  "breadth_fold t s =
     (let s = (case bs_prev_ltp_paise s of
          None \<Rightarrow> s
        | Some prev \<Rightarrow> if prev \<noteq> 0
            then s\<lparr>bs_returns := rw_push (f64_to_f32 (fdiv F64 (fsub F64 (f64_of (tk_ltp_paise t)) (f64_of prev)) (f64_of prev))) (bs_returns s)\<rparr>
            else s)
      in s\<lparr>bs_last_ltp_paise := tk_ltp_paise t, bs_prev_ltp_paise := Some (tk_ltp_paise t)\<rparr>)"

fun entry_put :: "u32 \<Rightarrow> 'a \<Rightarrow> (u32 \<times> 'a) list \<Rightarrow> (u32 \<times> 'a) list" where
  "entry_put k v [] = [(k, v)]"
| "entry_put k v ((j, w) # es) = (if j = k then (k, v) # es else (j, w) # entry_put k v es)"

text \<open>The loop of \<open>compute_sector\<close> over the entries in the map's order.\<close>

definition count_entry :: "(u32 \<rightharpoonup> string) \<Rightarrow> breadth_entry \<Rightarrow> (string \<rightharpoonup> u32 \<times> u32 \<times> u32) \<Rightarrow> (string \<rightharpoonup> u32 \<times> u32 \<times> u32)" where
  "count_entry sectors e counts =
     (case e of (sy, s) \<Rightarrow> case sectors sy of
        None \<Rightarrow> counts
      | Some sector \<Rightarrow>
          if bs_prev_close_paise s = 0 then counts
          else let (adv, dec, tot) = (case counts sector of Some c \<Rightarrow> c | None \<Rightarrow> (0, 0, 0));
                   adv = (if bs_last_ltp_paise s > bs_prev_close_paise s then adv + 1 else adv);
                   dec = (if bs_last_ltp_paise s < bs_prev_close_paise s then dec + 1 else dec)
               in counts(sector \<mapsto> (adv, dec, tot + 1)))"

definition sector_ratio :: "u32 \<times> u32 \<times> u32 \<Rightarrow> flt" where
  "sector_ratio c = (case c of (adv, dec, tot) \<Rightarrow>
     if tot = 0 then Fin 0
     else fdiv F32 (fsub F32 (flt_of_int F32 (uint adv)) (flt_of_int F32 (uint dec))) (flt_of_int F32 (uint tot)))"

definition compute_sector :: "(breadth_entry list \<Rightarrow> breadth_entry list) \<Rightarrow> u64 \<Rightarrow> breadth_aggregator \<Rightarrow> sector_breadth" where
  "compute_sector order now b =
     \<lparr>sb_sectors = map_option sector_ratio \<circ> fold (count_entry (ba_sectors b)) (order (ba_state b)) (\<lambda>_. None), sb_ts_ns = now\<rparr>"

definition compute_volatility :: "libm \<Rightarrow> (breadth_entry list \<Rightarrow> breadth_entry list) \<Rightarrow> u64 \<Rightarrow> breadth_aggregator \<Rightarrow> volatility_breadth" where
  "compute_volatility lm order now b =
     (let xs = concat (map (\<lambda>(sy, s). rw_iter (bs_returns s)) (order (ba_state b)));
          sum = foldl (fadd F64) (Fin 0) xs; sum_sq = foldl (\<lambda>a x. fadd F64 a (fmul F64 x x)) (Fin 0) xs;
          n = length xs; mean = fdiv F64 sum (f64_of (int n));
          variance = fsub F64 (fdiv F64 sum_sq (f64_of (int n))) (fmul F64 mean mean)
      in \<lparr>vb_stdev = (if n \<ge> 2 then f64_to_f32 (lm_sqrt lm (flt_max variance (Fin 0))) else Fin 0),
          vb_sample_count = of_nat (min n 4294967295), vb_ts_ns = now\<rparr>)"

text \<open>\<open>on_tick\<close>, with the readings it makes: the elapsed time at the check, \<open>now_ns\<close> and the instant of the publication.\<close>

definition on_tick :: "libm \<Rightarrow> (breadth_entry list \<Rightarrow> breadth_entry list) \<Rightarrow> u64 \<times> u64 \<times> u64 \<Rightarrow> tick \<Rightarrow> breadth_aggregator
    \<Rightarrow> breadth_aggregator \<times> (sector_breadth \<times> volatility_breadth) option" where
  "on_tick lm order now t b =
     (case now of (at_check, now_ns, at_publish) \<Rightarrow>
        let b = b\<lparr>ba_state := entry_put (tk_symbol t) (breadth_fold t (symbol_state (tk_symbol t) b)) (ba_state b),
                  ba_ticks_since_publish := usat_add (ba_ticks_since_publish b) 1\<rparr>
        in if ba_ticks_since_publish b \<ge> ba_batch_ticks b \<or> usat_sub at_check (ba_last_publish b) \<ge> ba_batch_interval b
           then (b\<lparr>ba_ticks_since_publish := 0, ba_last_publish := at_publish\<rparr>,
                 Some (compute_sector order now_ns b, compute_volatility lm order now_ns b))
           else (b, None))"

section \<open>The adapter (adapter.rs)\<close>

definition RECONNECT_BACKOFF_MS :: "u64 list" where
  "RECONNECT_BACKOFF_MS = [100, 200, 400, 800, 1600, 3200, 6400, 12800, 25600]"

definition RECONNECT_CAP_MS :: u64 where "RECONNECT_CAP_MS = 30000"

definition reconnect_delay_for :: "u32 \<Rightarrow> u64" where
  "reconnect_delay_for attempt =
     (if unat attempt < length RECONNECT_BACKOFF_MS then RECONNECT_BACKOFF_MS ! unat attempt else RECONNECT_CAP_MS)"

datatype connection_status = ConnDisconnected | ConnReconnected

record connection_event =
  ce_source :: string
  ce_status :: connection_status
  ce_reason :: "string option"
  ce_attempt :: u32
  ce_at :: string

definition build_disconnected_event :: "string \<Rightarrow> u32 \<Rightarrow> string \<Rightarrow> string \<Rightarrow> connection_event" where
  "build_disconnected_event source attempt reason at_time = \<lparr>ce_source = source, ce_status = ConnDisconnected, ce_reason = Some reason,
     ce_attempt = attempt, ce_at = at_time\<rparr>"

definition build_reconnected_event :: "string \<Rightarrow> u32 \<Rightarrow> string \<Rightarrow> connection_event" where
  "build_reconnected_event source attempt at_time = \<lparr>ce_source = source, ce_status = ConnReconnected, ce_reason = None,
     ce_attempt = attempt, ce_at = at_time\<rparr>"

text \<open>What a connection delivers, in order; its end is the end of the stream. A close frame carries its rendered code and
  reason.\<close>

datatype ws_frame = WsText "u8 list" | WsBinary "u8 list" | WsPing "u8 list" | WsPong | WsRaw | WsClose "string option" | WsErr string

record ws_adapter =
  wa_source :: string
  wa_protocol :: md_protocol
  wa_stream :: "ws_frame list option"
  wa_attempts :: u32

fun next_frame :: "tick_json \<Rightarrow> string \<Rightarrow> md_protocol \<Rightarrow> ws_frame list \<Rightarrow> ws_frame list \<times> (market_data_error + raw_tick)" where
  "next_frame js src p [] = ([], Inl (MdWebSocket src ''stream ended''))"
| "next_frame js src p (WsText b # fs) = (fs, protocol_parse js p b)"
| "next_frame js src p (WsBinary b # fs) = (fs, protocol_parse js p b)"
| "next_frame js src p (WsPing _ # fs) = next_frame js src p fs"
| "next_frame js src p (WsPong # fs) = next_frame js src p fs"
| "next_frame js src p (WsRaw # fs) = next_frame js src p fs"
| "next_frame js src p (WsClose r # fs) = (fs, Inl (MdWebSocket src (case r of Some m \<Rightarrow> ''close: '' @ m | None \<Rightarrow> ''close: no reason'')))"
| "next_frame js src p (WsErr e # fs) = (fs, Inl (MdWebSocket src e))"

definition next_message :: "tick_json \<Rightarrow> ws_adapter \<Rightarrow> ws_adapter \<times> (market_data_error + raw_tick)" where
  "next_message js a =
     (case wa_stream a of
        None \<Rightarrow> (a, Inl (MdWebSocket (wa_source a) ''stream is None''))
      | Some fs \<Rightarrow> let (fs, r) = next_frame js (wa_source a) (wa_protocol a) fs in (a\<lparr>wa_stream := Some fs\<rparr>, r))"

section \<open>The engine (engine.rs)\<close>

datatype md_message =
    MdTickMsg string "u8 list"
  | MdConnMsg string connection_event
  | MdSectorMsg sector_breadth
  | MdVolMsg volatility_breadth

text \<open>The surroundings of a run: the bus, the outcomes of the dials to come, the clock and wall-clock readings, the ULIDs;
  and what the run has done there.\<close>

record md_world =
  mw_bus :: "md_message ops_world"
  mw_dials :: "(string + ws_frame list) list"
  mw_now :: "nat \<Rightarrow> u64"
  mw_wall :: "nat \<Rightarrow> string"
  mw_ulid :: "nat \<Rightarrow> correlation_id"
  mw_reads :: nat
  mw_minted :: nat
  mw_sleeps :: "u64 list"
  mw_drops :: nat
  mw_latency :: "latency_emit list"

definition mw_publish :: "md_message \<Rightarrow> md_world \<Rightarrow> md_world \<times> bus_error option" where
  "mw_publish m w = (let (b, r) = ops_publish m (mw_bus w) in (w\<lparr>mw_bus := b\<rparr>, r))"

definition mw_tick :: "md_world \<Rightarrow> md_world \<times> u64" where
  "mw_tick w = (w\<lparr>mw_reads := mw_reads w + 1\<rparr>, mw_now w (mw_reads w))"

definition mw_wall_read :: "md_world \<Rightarrow> md_world \<times> string" where
  "mw_wall_read w = (w\<lparr>mw_reads := mw_reads w + 1\<rparr>, mw_wall w (mw_reads w))"

text \<open>\<open>reconnect\<close>; a world without further dials is where the observed run ends.\<close>

definition reconnect :: "ws_adapter \<Rightarrow> md_world \<Rightarrow> (ws_adapter \<times> md_world \<times> market_data_error option) option" where
  "reconnect a w =
     (let w = w\<lparr>mw_drops := mw_drops w + 1\<rparr>;
          (w, at_time) = mw_wall_read w;
          (w, _) = mw_publish (MdConnMsg (md_connection (wa_source a))
             (build_disconnected_event (wa_source a) (wa_attempts a) ''transport drop'' at_time)) w;
          w = w\<lparr>mw_sleeps := mw_sleeps w @ [reconnect_delay_for (wa_attempts a)]\<rparr>;
          attempt_for_event = wa_attempts a;
          a = a\<lparr>wa_stream := None, wa_attempts := usat_add (wa_attempts a) 1\<rparr>
      in case mw_dials w of
           [] \<Rightarrow> None
         | Inl e # ds \<Rightarrow> Some (a, w\<lparr>mw_dials := ds\<rparr>, Some (MdWebSocket (wa_source a) e))
         | Inr fs # ds \<Rightarrow>
             (let (w, at_time) = mw_wall_read (w\<lparr>mw_dials := ds\<rparr>);
                  (w, _) = mw_publish (MdConnMsg (md_connection (wa_source a))
                     (build_reconnected_event (wa_source a) attempt_for_event at_time)) w
              in Some (a\<lparr>wa_stream := Some fs, wa_attempts := 0\<rparr>, w, None)))"

definition TICK_INGEST_BUDGET_NS :: u64 where "TICK_INGEST_BUDGET_NS = 2000000"

record 'c md_engine =
  me_interner :: symbol_interner
  me_distributor :: "'c distributor"

record ('c, 'r) md_env =
  mv_json :: tick_json
  mv_broadcast :: "('c, 'r) broadcast_api"
  mv_libm :: libm
  mv_order :: "breadth_entry list \<Rightarrow> breadth_entry list"

text \<open>The publication is awaited first: when it fails, the tick is neither broadcast nor counted.\<close>

definition md_ingest_tick :: "('c, 'r) md_env \<Rightarrow> tick \<Rightarrow> 'c md_engine \<times> breadth_aggregator \<times> md_world
    \<Rightarrow> ('c md_engine \<times> breadth_aggregator \<times> md_world) \<times> (market_data_error + (sector_breadth \<times> volatility_breadth) option)" where
  "md_ingest_tick env t s =
     (case s of (e, b, w) \<Rightarrow>
        let (w, r) = mw_publish (MdTickMsg (md_tick (tk_symbol t)) (tick_to_raw_bytes t)) w
        in case r of
             Some err \<Rightarrow> ((e, b, w), Inl (MdBus err))
           | None \<Rightarrow>
               (let e = e\<lparr>me_distributor := fst (db_broadcast (mv_broadcast env) t (me_distributor e))\<rparr>;
                    (w, c) = mw_tick w; (w, n) = mw_tick w; (w, p) = mw_tick w;
                    (b, snap) = on_tick (mv_libm env) (mv_order env) (c, n, p) t b
                in ((e, b, w), Inr snap)))"

definition publish_breadth :: "(sector_breadth \<times> volatility_breadth) option \<Rightarrow> md_world \<Rightarrow> md_world" where
  "publish_breadth snap w = (case snap of
     None \<Rightarrow> w
   | Some (sec, vol) \<Rightarrow> fst (mw_publish (MdVolMsg vol) (fst (mw_publish (MdSectorMsg sec) w))))"

definition tick_ingest_latency :: "correlation_id \<Rightarrow> u64 \<Rightarrow> latency_emit list" where
  "tick_ingest_latency cid elapsed =
     (let breach = elapsed > TICK_INGEST_BUDGET_NS;
          rec = \<lparr>lr_correlation_id = u128_be cid, lr_stage = stage_as_u8 TickIngest, lr_nanos = elapsed,
                 lr_budget_nanos = TICK_INGEST_BUDGET_NS, lr_breach = breach\<rparr>
      in EmitRecord TickIngest rec # (if breach then [EmitBreach TickIngest rec] else []))"

definition handle_raw_tick :: "('c, 'r) md_env \<Rightarrow> md_exchange \<Rightarrow> raw_tick \<Rightarrow> 'c md_engine \<times> breadth_aggregator \<times> md_world
    \<Rightarrow> 'c md_engine \<times> breadth_aggregator \<times> md_world" where
  "handle_raw_tick env ex raw s =
     (case s of (e, b, w) \<Rightarrow>
        let cid = mw_ulid w (mw_minted w); w = w\<lparr>mw_minted := mw_minted w + 1\<rparr>;
            (w, started) = mw_tick w; (w, recv) = mw_tick w;
            (i, t) = normalize_with_correlation raw ex cid recv (me_interner e);
            ((e, b, w), r) = md_ingest_tick env t (e\<lparr>me_interner := i\<rparr>, b, w);
            w = (case r of Inl err \<Rightarrow> w | Inr snap \<Rightarrow> publish_breadth snap w);
            (w, finished) = mw_tick w
        in (e, b, w\<lparr>mw_latency := mw_latency w @ tick_ingest_latency cid (usat_sub finished started)\<rparr>))"

lemma next_frame_shorter: "next_frame js src p fs = (fs', Inr raw) \<Longrightarrow> length fs' < length fs"
  by (induction js src p fs rule: next_frame.induct) auto

lemma handle_raw_tick_dials [simp]: "mw_dials (snd (snd (handle_raw_tick env ex raw (e, b, w)))) = mw_dials w"
  by (simp add: handle_raw_tick_def md_ingest_tick_def publish_breadth_def mw_publish_def mw_tick_def Let_def split_beta split: option.split sum.split)

lemma reconnect_dials: "reconnect a w = Some (a', w', r) \<Longrightarrow> length (mw_dials w') < length (mw_dials w)"
  by (auto simp: reconnect_def Let_def split_beta mw_publish_def mw_wall_read_def split: list.splits sum.splits)

lemma handle_raw_tick_keeps: "handle_raw_tick env ex raw (e, b, w) = (e', b', w') \<Longrightarrow> mw_dials w' = mw_dials w"
  using handle_raw_tick_dials [of env ex raw e b w] by simp

definition frames_left :: "ws_adapter \<Rightarrow> nat" where
  "frames_left a = (case wa_stream a of None \<Rightarrow> 0 | Some fs \<Rightarrow> length fs)"

lemma next_message_shorter: "next_message js a = (a', Inr raw) \<Longrightarrow> frames_left a' < frames_left a"
  by (auto simp: next_message_def frames_left_def split: option.splits prod.splits dest!: next_frame_shorter)

text \<open>The loop of \<open>run_adapter_loop\<close>, as far as the observed dials go.\<close>

function run_adapter_loop :: "('c, 'r) md_env \<Rightarrow> md_exchange \<Rightarrow> ws_adapter \<Rightarrow> 'c md_engine \<Rightarrow> breadth_aggregator \<Rightarrow> md_world
    \<Rightarrow> 'c md_engine \<times> breadth_aggregator \<times> md_world" where
  "run_adapter_loop env ex a e b w =
     (case next_message (mv_json env) a of
        (a, Inr raw) \<Rightarrow> (case handle_raw_tick env ex raw (e, b, w) of (e, b, w) \<Rightarrow> run_adapter_loop env ex a e b w)
      | (a, Inl err) \<Rightarrow> (case reconnect a w of None \<Rightarrow> (e, b, w) | Some (a, w, _) \<Rightarrow> run_adapter_loop env ex a e b w))"
  by pat_completeness auto
termination
  by (relation "measures [\<lambda>(env, ex, a, e, b, w). length (mw_dials w), \<lambda>(env, ex, a, e, b, w). frames_left a]")
    (auto dest: reconnect_dials dest!: next_message_shorter [OF sym] handle_raw_tick_keeps [OF sym] simp: split_beta)

declare run_adapter_loop.simps [simp del]

end
