(* ===== verification/Market_Facts.thy ===== *)
theory Market_Facts
  imports Market_Data Feature_Facts
begin

text \<open>
  Theorems about the Market_Data_Engine (\<open>Market_Data\<close>): interning under concurrency as an invariant of the interleaved steps,
  recovery from an outage, what a malformed frame costs, the correspondence of received frames and published ticks over a whole
  run, and sector breadth against its batch definition.
\<close>

section \<open>Interning under interleaving\<close>

fun past :: "intern_call \<Rightarrow> bool" where
  "past (s, Looking) = False"
| "past (s, Missed) = False"
| "past (s, Holding c) = True"
| "past (s, Got v) = True"

definition past_count :: "intern_call list \<Rightarrow> nat" where
  "past_count ts = length (filter past ts)"

text \<open>The invariant: the counter has moved once per call past its lookup, ids in use lie below it, the map is injective, ids
  held back are fresh and pairwise different, and a finished call holds the id the map has for its symbol.\<close>

definition ids_ok :: "symbol_interner \<Rightarrow> bool" where
  "ids_ok i \<longleftrightarrow> 1 \<le> unat (si_next i) \<and> (\<forall>s v. si_map i s = Some v \<longrightarrow> 1 \<le> unat v \<and> unat v < unat (si_next i))
     \<and> (\<forall>s t v. si_map i s = Some v \<longrightarrow> si_map i t = Some v \<longrightarrow> s = t)"

definition holds_back :: "intern_call list \<Rightarrow> nat \<Rightarrow> u32 \<Rightarrow> bool" where
  "holds_back ts k c \<longleftrightarrow> k < length ts \<and> snd (ts ! k) = Holding c"

lemma holds_back_update: "holds_back (ts[k := (s, p)]) j c \<longleftrightarrow> (if j = k then k < length ts \<and> p = Holding c else holds_back ts j c)"
  by (auto simp: holds_back_def nth_list_update)

definition held_ok :: "symbol_interner \<Rightarrow> intern_call list \<Rightarrow> bool" where
  "held_ok i ts \<longleftrightarrow>
     (\<forall>k c. holds_back ts k c \<longrightarrow> 1 \<le> unat c \<and> unat c < unat (si_next i) \<and> (\<forall>t. si_map i t \<noteq> Some c))
     \<and> (\<forall>j k c. holds_back ts j c \<longrightarrow> holds_back ts k c \<longrightarrow> j = k)"

definition got_ok :: "symbol_interner \<Rightarrow> intern_call list \<Rightarrow> bool" where
  "got_ok i ts \<longleftrightarrow> (\<forall>k < length ts. \<forall>s v. ts ! k = (s, Got v) \<longrightarrow> si_map i s = Some v)"

definition intern_ok :: "symbol_interner \<times> intern_call list \<Rightarrow> bool" where
  "intern_ok x \<longleftrightarrow> (case x of (i, ts) \<Rightarrow> ids_ok i \<and> unat (si_next i) \<le> 1 + past_count ts \<and> held_ok i ts \<and> got_ok i ts)"

lemma held_update: "held_ok i ts \<Longrightarrow> \<forall>c. p \<noteq> Holding c \<Longrightarrow> held_ok i (ts[k := (s, p)])"
  unfolding held_ok_def by (simp add: holds_back_update)

lemma got_update: "got_ok i ts \<Longrightarrow> (\<And>v. p = Got v \<Longrightarrow> si_map i s = Some v) \<Longrightarrow> got_ok i (ts[k := (s, p)])"
  unfolding got_ok_def by (cases "k < length ts") (auto simp: nth_list_update)

lemma past_count_update:
  assumes "k < length ts" "past x"
  shows "past_count ts \<le> past_count (ts[k := x])" "\<not> past (ts ! k) \<Longrightarrow> past_count (ts[k := x]) = Suc (past_count ts)"
proof -
  have split: "ts = take k ts @ ts ! k # drop (Suc k) ts" using assms(1) by (simp add: id_take_nth_drop)
  have upd: "ts[k := x] = take k ts @ x # drop (Suc k) ts" using assms(1) by (simp add: upd_conv_take_nth_drop)
  have "past_count ts = past_count (take k ts) + (if past (ts ! k) then 1 else 0) + past_count (drop (Suc k) ts)"
    by (subst split) (simp add: past_count_def)
  moreover have "past_count (ts[k := x]) = past_count (take k ts) + 1 + past_count (drop (Suc k) ts)"
    using assms(2) by (simp add: upd past_count_def)
  ultimately show "past_count ts \<le> past_count (ts[k := x])" "\<not> past (ts ! k) \<Longrightarrow> past_count (ts[k := x]) = Suc (past_count ts)"
    by auto
qed

lemma past_count_missed:
  assumes "k < length ts" "\<not> past (ts ! k)" "\<not> past x"
  shows "past_count (ts[k := x]) = past_count ts"
proof -
  have "past_count ts = past_count (take k ts) + past_count (drop (Suc k) ts)"
    using assms by (subst id_take_nth_drop [OF assms(1)]) (simp add: past_count_def)
  then show ?thesis using assms by (simp add: upd_conv_take_nth_drop past_count_def)
qed

lemma past_count_le: "past_count ts \<le> length ts"
  by (simp add: past_count_def)

lemma next_increment: "unat (n :: u32) < 2 ^ 32 - 1 \<Longrightarrow> unat (n + 1) = unat n + 1"
  by (simp add: unat_word_ariths)

lemma held_fresh:
  assumes "held_ok i ts" "ids_ok i" "unat (si_next i + 1) = unat (si_next i) + 1" "k < length ts"
  shows "held_ok (i\<lparr>si_next := si_next i + 1\<rparr>) (ts[k := (s, Holding (si_next i))])"
proof -
  have free: "1 \<le> unat (si_next i)" "\<And>t. si_map i t \<noteq> Some (si_next i)" using assms(2) by (auto simp: ids_ok_def)
  have held: "1 \<le> unat c" "unat c < unat (si_next i)" "si_map i t \<noteq> Some c" if "holds_back ts j c" for j t c
    using assms(1) that unfolding held_ok_def by blast+
  have "\<not> holds_back ts j (si_next i)" for j using held(2) by blast
  moreover have "j = l" if "holds_back ts j c" "holds_back ts l c" for j l c using assms(1) that unfolding held_ok_def by blast
  ultimately show ?thesis
    using free held assms(3) unfolding held_ok_def
    by (auto simp: holds_back_update simp del: One_nat_def split: if_splits intro: trans_less_add1)
qed

lemma held_insert:
  assumes "held_ok i ts" "k < length ts" "ts ! k = (s, Holding c)"
  shows "held_ok (i\<lparr>si_map := (si_map i)(s \<mapsto> c)\<rparr>) (ts[k := (s, Got c)])"
proof -
  have "holds_back ts k c" using assms(2,3) by (simp add: holds_back_def)
  then have "c \<noteq> d" if "j \<noteq> k" "holds_back ts j d" for j d using assms(1) that unfolding held_ok_def by blast
  then show ?thesis using assms(1) by (auto simp: held_ok_def holds_back_update split: if_splits)
qed

lemma ids_insert:
  assumes "ids_ok i" "held_ok i ts" "k < length ts" "ts ! k = (s, Holding c)"
  shows "ids_ok (i\<lparr>si_map := (si_map i)(s \<mapsto> c)\<rparr>)"
proof -
  have "holds_back ts k c" using assms(3,4) by (simp add: holds_back_def)
  then have "1 \<le> unat c" "unat c < unat (si_next i)" "\<And>t. si_map i t \<noteq> Some c" using assms(2) unfolding held_ok_def by blast+
  then show ?thesis using assms(1) by (auto simp: ids_ok_def)
qed

lemma got_insert: "got_ok i ts \<Longrightarrow> si_map i s = None \<Longrightarrow> got_ok (i\<lparr>si_map := (si_map i)(s \<mapsto> c)\<rparr>) ts"
  by (auto simp: got_ok_def)

lemma intern_step_ok:
  assumes "intern_step x y" "intern_ok x" "length (snd x) < 2 ^ 32 - 2"
  shows "intern_ok y"
  using assms(1)
proof cases
  case (look_hit k ts s i v)
  then show ?thesis using assms(2) past_count_update(1) [of k ts "(s, Got v)"]
    by (auto simp: intern_ok_def intro!: held_update got_update)
next
  case (look_miss k ts s i)
  then show ?thesis using assms(2) past_count_missed [of k ts "(s, Missed)"]
    by (auto simp: intern_ok_def intro!: held_update got_update)
next
  case (fetch_add k ts s i)
  have c: "past_count (ts[k := (s, Holding (si_next i))]) = Suc (past_count ts)"
    using fetch_add by (intro past_count_update(2)) simp_all
  have ok: "ids_ok i" "unat (si_next i) \<le> 1 + past_count ts" "held_ok i ts" "got_ok i ts"
    using assms(2) fetch_add by (simp_all add: intern_ok_def)
  have n: "unat (si_next i + 1) = unat (si_next i) + 1"
    using assms(3) fetch_add ok(2) past_count_le [of ts] by (intro next_increment) simp
  have "ids_ok (i\<lparr>si_next := si_next i + 1\<rparr>)" using ok(1) n by (auto simp: ids_ok_def less_Suc_eq)
  moreover have "got_ok (i\<lparr>si_next := si_next i + 1\<rparr>) (ts[k := (s, Holding (si_next i))])"
    using ok(4) by (intro got_update) (auto simp: got_ok_def)
  ultimately show ?thesis
    using held_fresh [OF ok(3,1) n fetch_add(3)] ok(2) by (simp add: intern_ok_def fetch_add(2) c n)
next
  case (or_insert_old k ts s c i v)
  then show ?thesis using assms(2) past_count_update(1) [of k ts "(s, Got v)"]
    by (auto simp: intern_ok_def intro!: held_update got_update)
next
  case (or_insert_new k ts s c i)
  have p: "past_count ts \<le> past_count (ts[k := (s, Got c)])" using or_insert_new by (intro past_count_update(1)) simp_all
  have ok: "ids_ok i" "unat (si_next i) \<le> 1 + past_count ts" "held_ok i ts" "got_ok i ts"
    using assms(2) or_insert_new by (simp_all add: intern_ok_def)
  have "got_ok (i\<lparr>si_map := (si_map i)(s \<mapsto> c)\<rparr>) (ts[k := (s, Got c)])"
    using ok(4) or_insert_new(5) by (intro got_update got_insert) simp_all
  then show ?thesis
    using p ok ids_insert [OF ok(1,3) or_insert_new(3,4)] held_insert [OF ok(3) or_insert_new(3,4)]
    by (simp add: intern_ok_def or_insert_new(2))
qed

lemma intern_step_length: "intern_step x y \<Longrightarrow> length (snd y) = length (snd x)"
  by (cases rule: intern_step.cases) auto

lemma intern_reach_ok:
  assumes "intern_step\<^sup>*\<^sup>* x y" "intern_ok x" "length (snd x) < 2 ^ 32 - 2"
  shows "intern_ok y \<and> length (snd y) = length (snd x)"
  using assms by (induction rule: rtranclp_induct) (auto simp: intern_step_length intro: intern_step_ok)

text \<open>C33: Interning is safe under concurrency. Any number of tasks (below \<open>2\<^sup>3\<^sup>2 - 2\<close>) intern symbols at the same time, their
  lookups, counter increments and insertions interleaved in any order; whenever two calls have returned, they
  returned the same id exactly when they asked for the same symbol, no id is the sentinel 0, and the table
  holds the returned id from then on.\<close>

theorem intern_concurrent:
  assumes "intern_step\<^sup>*\<^sup>* (interner_new, map (\<lambda>s. (s, Looking)) syms) (i, ts)" and "length syms < 2 ^ 32 - 2"
    and "j < length syms" and "k < length syms" and "ts ! j = (s, Got a)" and "ts ! k = (t, Got b)"
  shows "(a = b \<longleftrightarrow> s = t) \<and> a \<noteq> 0 \<and> interner_get s i = Some a"
proof -
  have "intern_ok (interner_new, map (\<lambda>s. (s, Looking)) syms)"
    by (auto simp: intern_ok_def ids_ok_def held_ok_def holds_back_def got_ok_def interner_new_def)
  from intern_reach_ok [OF assms(1) this] assms(2) have ok: "intern_ok (i, ts)" and l: "length ts = length syms" by simp_all
  have "si_map i s = Some a" "si_map i t = Some b" using ok l assms(3-6) by (auto simp: intern_ok_def got_ok_def)
  moreover have "1 \<le> unat a" using ok calculation(1) by (auto simp: intern_ok_def ids_ok_def)
  then have "a \<noteq> 0" by auto
  ultimately show ?thesis using ok by (auto simp: intern_ok_def ids_ok_def interner_get_def)
qed

theorem intern_concurrent_witness:
  "\<exists>i ts. intern_step\<^sup>*\<^sup>* (interner_new, map (\<lambda>s. (s, Looking)) [''INFY'', ''TCS'']) (i, ts)
     \<and> ts ! 0 = (''INFY'', Got 2) \<and> ts ! 1 = (''TCS'', Got 1) \<and> ((2 :: u32) = 1 \<longleftrightarrow> ''INFY'' = ''TCS'') \<and> interner_get ''INFY'' i = Some 2"
proof -
  let ?i1 = "interner_new\<lparr>si_next := 2\<rparr>"
  let ?i2 = "?i1\<lparr>si_next := 3\<rparr>"
  let ?i3 = "?i2\<lparr>si_map := (si_map ?i2)(''INFY'' \<mapsto> 2)\<rparr>"
  let ?i4 = "?i3\<lparr>si_map := (si_map ?i3)(''TCS'' \<mapsto> 1)\<rparr>"
  let ?a = "''INFY''" and ?b = "''TCS''"
  have s1: "intern_step (interner_new, [(?a, Looking), (?b, Looking)]) (interner_new, [(?a, Missed), (?b, Looking)])"
    using look_miss [of 0 "[(?a, Looking), (?b, Looking)]" ?a interner_new] by (simp add: interner_new_def)
  have s2: "intern_step (interner_new, [(?a, Missed), (?b, Looking)]) (interner_new, [(?a, Missed), (?b, Missed)])"
    using look_miss [of 1 "[(?a, Missed), (?b, Looking)]" ?b interner_new] by (simp add: interner_new_def)
  have s3: "intern_step (interner_new, [(?a, Missed), (?b, Missed)]) (?i1, [(?a, Missed), (?b, Holding 1)])"
    using fetch_add [of 1 "[(?a, Missed), (?b, Missed)]" ?b interner_new] by (simp add: interner_new_def)
  have s4: "intern_step (?i1, [(?a, Missed), (?b, Holding 1)]) (?i2, [(?a, Holding 2), (?b, Holding 1)])"
    using fetch_add [of 0 "[(?a, Missed), (?b, Holding 1)]" ?a ?i1] by (simp add: interner_new_def)
  have s5: "intern_step (?i2, [(?a, Holding 2), (?b, Holding 1)]) (?i3, [(?a, Got 2), (?b, Holding 1)])"
    using or_insert_new [of 0 "[(?a, Holding 2), (?b, Holding 1)]" ?a 2 ?i2] by (simp add: interner_new_def)
  have s6: "intern_step (?i3, [(?a, Got 2), (?b, Holding 1)]) (?i4, [(?a, Got 2), (?b, Got 1)])"
    using or_insert_new [of 1 "[(?a, Got 2), (?b, Holding 1)]" ?b 1 ?i3] by (simp add: interner_new_def)
  have r: "intern_step\<^sup>*\<^sup>* (interner_new, map (\<lambda>s. (s, Looking)) [?a, ?b]) (?i4, [(?a, Got 2), (?b, Got 1)])"
    using s1 s2 s3 s4 s5 s6 by (auto intro: converse_rtranclp_into_rtranclp)
  from intern_concurrent [OF r, of 0 1 ?a 2 ?b 1] r show ?thesis by (intro exI [of _ ?i4] exI [of _ "[(?a, Got 2), (?b, Got 1)]"]) simp
qed

text \<open>The ids depend on the order of arrival; they are not those of the static table the other services use.\<close>

lemma interner_ids_differ_from_table: "snd (intern ''INFY'' interner_new) \<noteq> symbol_id_for ''INFY''"
  by (simp add: intern_def interner_new_def symbol_id_for_def)

section \<open>Recovery from a lost connection\<close>

definition disconnected_at :: "ws_adapter \<Rightarrow> nat \<Rightarrow> string \<Rightarrow> md_message" where
  "disconnected_at a k at_time = MdConnMsg (md_connection (wa_source a)) (build_disconnected_event (wa_source a) (of_nat k) ''transport drop'' at_time)"

definition reconnected_at :: "ws_adapter \<Rightarrow> nat \<Rightarrow> string \<Rightarrow> md_message" where
  "reconnected_at a k at_time = MdConnMsg (md_connection (wa_source a)) (build_reconnected_event (wa_source a) (of_nat k) at_time)"

text \<open>What an outage of \<open>n\<close> failed dials followed by a good one leaves in the world, from attempt \<open>k\<close> on.\<close>

definition outage_world :: "ws_adapter \<Rightarrow> nat \<Rightarrow> nat \<Rightarrow> (string + ws_frame list) list \<Rightarrow> md_world \<Rightarrow> md_world" where
  "outage_world a k n ds w = w\<lparr>mw_drops := mw_drops w + n + 1, mw_reads := mw_reads w + n + 2, mw_dials := ds,
     mw_sleeps := mw_sleeps w @ map (\<lambda>j. reconnect_delay_for (of_nat j)) [k..<k + n + 1],
     mw_bus := (mw_bus w)\<lparr>attempts := attempts (mw_bus w)
       @ map (\<lambda>j. disconnected_at a (k + j) (mw_wall w (mw_reads w + j))) [0..<n + 1]
       @ [reconnected_at a (k + n) (mw_wall w (mw_reads w + n + 1))]\<rparr>\<rparr>"

lemma reconnect_fails:
  "mw_dials w = Inl err # ds \<Longrightarrow> reconnect a w = Some (a\<lparr>wa_stream := None, wa_attempts := usat_add (wa_attempts a) 1\<rparr>,
     w\<lparr>mw_drops := mw_drops w + 1, mw_reads := mw_reads w + 1, mw_dials := ds, mw_sleeps := mw_sleeps w @ [reconnect_delay_for (wa_attempts a)],
       mw_bus := (mw_bus w)\<lparr>attempts := attempts (mw_bus w) @ [MdConnMsg (md_connection (wa_source a))
         (build_disconnected_event (wa_source a) (wa_attempts a) ''transport drop'' (mw_wall w (mw_reads w)))]\<rparr>\<rparr>,
     Some (MdWebSocket (wa_source a) err))"
  by (simp add: reconnect_def Let_def mw_wall_read_def mw_publish_def ops_publish_def)

lemma reconnect_succeeds:
  "mw_dials w = Inr fs # ds \<Longrightarrow> wa_attempts a = of_nat k \<Longrightarrow>
   reconnect a w = Some (a\<lparr>wa_stream := Some fs, wa_attempts := 0\<rparr>, outage_world a k 0 ds w, None)"
  by (simp add: reconnect_def Let_def mw_wall_read_def mw_publish_def ops_publish_def outage_world_def disconnected_at_def reconnected_at_def)

lemma next_message_stream: "next_message js a = (a', r) \<Longrightarrow> \<exists>st. a' = a\<lparr>wa_stream := st\<rparr>"
  by (cases a) (auto simp: next_message_def split: option.splits prod.splits)

lemma reconnect_stream [simp]: "reconnect (a\<lparr>wa_stream := st\<rparr>) w = reconnect a w"
  by (simp add: reconnect_def)

lemma run_fails:
  assumes "next_message (mv_json env) a = (a', Inl err)"
  shows "run_adapter_loop env ex a e b w =
    (case reconnect a w of None \<Rightarrow> (e, b, w) | Some (a, w, _) \<Rightarrow> run_adapter_loop env ex a e b w)"
  using next_message_stream [OF assms] by (subst run_adapter_loop.simps) (auto simp: assms)

lemma usat_add_one_of_nat: "k + 1 < 2 ^ 32 \<Longrightarrow> usat_add (of_nat k :: u32) 1 = of_nat (k + 1)"
  by (simp add: usat_add_def unat_of_nat take_bit_nat_eq_self)

lemma outage_step:
  assumes "k + 1 < 2 ^ 32"
  shows "outage_world (a\<lparr>wa_stream := st, wa_attempts := n0\<rparr>) (k + 1) n ds
     (w\<lparr>mw_drops := mw_drops w + 1, mw_reads := mw_reads w + 1, mw_dials := ds', mw_sleeps := mw_sleeps w @ [reconnect_delay_for (of_nat k)],
       mw_bus := (mw_bus w)\<lparr>attempts := attempts (mw_bus w) @ [disconnected_at a k (mw_wall w (mw_reads w))]\<rparr>\<rparr>)
   = outage_world a k (Suc n) ds w"
proof -
  have "[k..<k + Suc n + 1] = k # [k + 1..<k + 1 + n + 1]" by (simp add: upt_conv_Cons)
  moreover have "[0..<Suc n + 1] = 0 # map Suc [0..<n + 1]" by (simp add: map_Suc_upt upt_conv_Cons del: upt_Suc)
  ultimately show ?thesis
    by (simp add: outage_world_def disconnected_at_def reconnected_at_def comp_def add.left_commute del: upt_Suc)
qed

lemma run_outage:
  assumes "mw_dials w = map Inl es @ Inr fs # ds" "k + length es < 2 ^ 32" "wa_attempts a = of_nat k"
    "next_message (mv_json env) a = (a', Inl err)"
  shows "run_adapter_loop env ex a e b w
    = run_adapter_loop env ex (a\<lparr>wa_stream := Some fs, wa_attempts := 0\<rparr>) e b (outage_world a k (length es) ds w)"
  using assms
proof (induction es arbitrary: w k a a' err)
  case Nil
  then show ?case using reconnect_succeeds [of w fs ds a k] by (simp add: run_fails [OF Nil.prems(4)])
next
  case (Cons x es)
  let ?a = "a\<lparr>wa_stream := None, wa_attempts := of_nat (k + 1)\<rparr>"
  let ?w = "w\<lparr>mw_drops := mw_drops w + 1, mw_reads := mw_reads w + 1, mw_dials := map Inl es @ Inr fs # ds,
      mw_sleeps := mw_sleeps w @ [reconnect_delay_for (of_nat k)],
      mw_bus := (mw_bus w)\<lparr>attempts := attempts (mw_bus w) @ [disconnected_at a k (mw_wall w (mw_reads w))]\<rparr>\<rparr>"
  have k: "k + 1 < 2 ^ 32" "k + 1 + length es < 2 ^ 32" using Cons.prems(2) by simp_all
  have "reconnect a w = Some (?a, ?w, Some (MdWebSocket (wa_source a) x))"
    using reconnect_fails [of w x "map Inl es @ Inr fs # ds" a] Cons.prems(1,3) usat_add_one_of_nat [OF k(1)]
    by (simp add: disconnected_at_def)
  then have "run_adapter_loop env ex a e b w = run_adapter_loop env ex ?a e b ?w" by (simp add: run_fails [OF Cons.prems(4)])
  also have "\<dots> = run_adapter_loop env ex (?a\<lparr>wa_stream := Some fs, wa_attempts := 0\<rparr>) e b (outage_world ?a (k + 1) (length es) ds ?w)"
    by (rule Cons.IH) (use k in \<open>simp_all add: next_message_def\<close>)
  also have "outage_world ?a (k + 1) (length es) ds ?w = outage_world a k (length (x # es)) ds w"
    using outage_step [OF k(1)] by simp
  finally show ?case by simp
qed

text \<open>C39: The adapter comes back from any outage. However many dials fail in a row (below \<open>2\<^sup>3\<^sup>2\<close>), once the stream errors the loop
  sleeps \<open>reconnect_delay_for\<close> of 0, 1, 2 and so on, announces each drop on the source's connection subject with its
  attempt number, announces the reconnection with the attempt that succeeded, and goes on reading the new stream
  with the schedule reset; the interner, the channels and the breadth state are untouched, no tick is published in
  between, and no sleep exceeds 30 seconds.\<close>

theorem adapter_recovers:
  assumes "mw_dials w = map Inl es @ Inr fs # ds" and "length es < 2 ^ 32" and "wa_attempts a = 0"
    and "next_message (mv_json env) a = (a', Inl err)"
  shows "run_adapter_loop env ex a e b w
      = run_adapter_loop env ex (a\<lparr>wa_stream := Some fs\<rparr>) e b
          (w\<lparr>mw_drops := mw_drops w + length es + 1, mw_reads := mw_reads w + length es + 2, mw_dials := ds,
             mw_sleeps := mw_sleeps w @ map (\<lambda>j. reconnect_delay_for (of_nat j)) [0..<length es + 1],
             mw_bus := (mw_bus w)\<lparr>attempts := attempts (mw_bus w)
               @ map (\<lambda>j. disconnected_at a j (mw_wall w (mw_reads w + j))) [0..<length es + 1]
               @ [reconnected_at a (length es) (mw_wall w (mw_reads w + length es + 1))]\<rparr>\<rparr>)
    \<and> reconnect_delay_for n \<le> 30000"
proof -
  have eq: "a\<lparr>wa_stream := Some fs, wa_attempts := 0\<rparr> = a\<lparr>wa_stream := Some fs\<rparr>" using assms(3) by (cases a) simp
  have 1: "run_adapter_loop env ex a e b w = run_adapter_loop env ex (a\<lparr>wa_stream := Some fs\<rparr>) e b (outage_world a 0 (length es) ds w)"
    using run_outage [of w es fs ds 0 a env a' err ex e b] assms unfolding eq by simp
  have "reconnect_delay_for n \<le> 30000"
    by (auto simp: reconnect_delay_for_def RECONNECT_BACKOFF_MS_def RECONNECT_CAP_MS_def nth_Cons' word_le_nat_alt)
  with 1 show ?thesis by (simp add: outage_world_def)
qed

section \<open>What a connection contributes\<close>

text \<open>The ticks a stream yields before its first error.\<close>

fun readable :: "tick_json \<Rightarrow> md_protocol \<Rightarrow> ws_frame list \<Rightarrow> raw_tick list" where
  "readable js p [] = []"
| "readable js p (WsText b # fs) = (case protocol_parse js p b of Inl _ \<Rightarrow> [] | Inr r \<Rightarrow> r # readable js p fs)"
| "readable js p (WsBinary b # fs) = (case protocol_parse js p b of Inl _ \<Rightarrow> [] | Inr r \<Rightarrow> r # readable js p fs)"
| "readable js p (WsPing _ # fs) = readable js p fs"
| "readable js p (WsPong # fs) = readable js p fs"
| "readable js p (WsRaw # fs) = readable js p fs"
| "readable js p (WsClose _ # fs) = []"
| "readable js p (WsErr _ # fs) = []"

lemma next_frame_readable:
  "case next_frame js src p fs of (fs', Inl err) \<Rightarrow> readable js p fs = [] | (fs', Inr r) \<Rightarrow> readable js p fs = r # readable js p fs'"
  by (induction js src p fs rule: next_frame.induct) (auto split: sum.split)

lemma run_connection:
  "wa_stream a = Some fs \<Longrightarrow>
   run_adapter_loop env ex a e b w =
     (case fold (handle_raw_tick env ex) (readable (mv_json env) (wa_protocol a) fs) (e, b, w) of (e, b, w) \<Rightarrow>
        case reconnect a w of None \<Rightarrow> (e, b, w) | Some (a, w, _) \<Rightarrow> run_adapter_loop env ex a e b w)"
proof (induction "length fs" arbitrary: fs a e b w rule: less_induct)
  case less
  obtain fs' r where n: "next_frame (mv_json env) (wa_source a) (wa_protocol a) fs = (fs', r)" by fastforce
  then have m: "next_message (mv_json env) a = (a\<lparr>wa_stream := Some fs'\<rparr>, r)" using less.prems by (simp add: next_message_def)
  have rd: "case r of Inl err \<Rightarrow> readable (mv_json env) (wa_protocol a) fs = []
      | Inr x \<Rightarrow> readable (mv_json env) (wa_protocol a) fs = x # readable (mv_json env) (wa_protocol a) fs'"
    using next_frame_readable [where js = "mv_json env" and src = "wa_source a" and p = "wa_protocol a" and fs = fs] n by simp
  show ?case
  proof (cases r)
    case (Inl err)
    then show ?thesis using run_fails [OF m [unfolded Inl]] rd by simp
  next
    case (Inr x)
    obtain e' b' w' where h: "handle_raw_tick env ex x (e, b, w) = (e', b', w')" by (metis prod_cases3)
    have "length fs' < length fs" using n Inr by (blast dest: next_frame_shorter)
    from less.hyps [OF this, of "a\<lparr>wa_stream := Some fs'\<rparr>" e' b' w']
    show ?thesis using rd Inr h by (subst run_adapter_loop.simps) (simp add: m)
  qed
qed

lemma readable_stops: "js b = Inl err \<Longrightarrow> readable js p (pre @ WsText b # post) = readable js p pre"
  by (induction js p pre rule: readable.induct) (auto simp: protocol_parse_def parse_canonical_json_def split: sum.split)

text \<open>A malformed frame costs the rest of its connection. A frame that does not parse is handled like a transport failure:
  the loop ends as if the stream had stopped before it, so every frame behind it on a healthy connection is
  dropped, and the adapter sleeps and dials again.\<close>

theorem malformed_frame_drops_connection:
  assumes "mv_json env bad = Inl err" and "wa_stream a = Some (pre @ WsText bad # post)"
  shows "run_adapter_loop env ex a e b w = run_adapter_loop env ex (a\<lparr>wa_stream := Some pre\<rparr>) e b w
    \<and> run_adapter_loop env ex a e b w =
     (case fold (handle_raw_tick env ex) (readable (mv_json env) (wa_protocol a) pre) (e, b, w) of (e, b, w) \<Rightarrow>
        case reconnect a w of None \<Rightarrow> (e, b, w) | Some (a, w, _) \<Rightarrow> run_adapter_loop env ex a e b w)"
proof -
  have r: "readable (mv_json env) (wa_protocol a) (pre @ WsText bad # post) = readable (mv_json env) (wa_protocol a) pre"
    by (rule readable_stops) (rule assms(1))
  have 1: "run_adapter_loop env ex (a\<lparr>wa_stream := Some pre\<rparr>) e b w =
     (case fold (handle_raw_tick env ex) (readable (mv_json env) (wa_protocol a) pre) (e, b, w) of (e, b, w) \<Rightarrow>
        case reconnect a w of None \<Rightarrow> (e, b, w) | Some (a, w, _) \<Rightarrow> run_adapter_loop env ex a e b w)"
    by (subst run_connection) simp_all
  show ?thesis unfolding 1 using run_connection [OF assms(2), of env ex e b w] unfolding r by blast
qed

section \<open>One tick per frame\<close>

fun is_tick_msg :: "md_message \<Rightarrow> bool" where
  "is_tick_msg (MdTickMsg _ _) = True"
| "is_tick_msg (MdConnMsg _ _) = False"
| "is_tick_msg (MdSectorMsg _) = False"
| "is_tick_msg (MdVolMsg _) = False"

definition tick_msgs :: "md_world \<Rightarrow> md_message list" where
  "tick_msgs w = filter is_tick_msg (attempts (mw_bus w))"

definition tick_of :: "raw_tick \<Rightarrow> md_exchange \<Rightarrow> correlation_id \<Rightarrow> u32 \<Rightarrow> tick \<Rightarrow> bool" where
  "tick_of raw ex cid sy t \<longleftrightarrow> tk_correlation_id t = u128_be cid \<and> tk_symbol t = sy \<and> tk_exchange t = exchange_as_byte ex
     \<and> tk_ltp_paise t = rt_ltp_paise raw \<and> tk_bid_paise t = rt_bid_paise raw \<and> tk_ask_paise t = rt_ask_paise raw
     \<and> tk_ltq t = rt_ltq raw \<and> tk_total_buy_qty t = rt_total_buy_qty raw \<and> tk_total_sell_qty t = rt_total_sell_qty raw"

text \<open>The message of the \<open>k\<close>-th tick, in an interner that still knows its symbol.\<close>

definition published_as :: "(nat \<Rightarrow> correlation_id) \<Rightarrow> symbol_interner \<Rightarrow> md_exchange \<Rightarrow> nat \<times> raw_tick \<Rightarrow> md_message \<Rightarrow> bool" where
  "published_as ulid i ex kr m \<longleftrightarrow> (\<exists>sy t. interner_get (rt_symbol (snd kr)) i = Some sy \<and> tick_of (snd kr) ex (ulid (fst kr)) sy t
     \<and> m = MdTickMsg (md_tick sy) (tick_to_raw_bytes t))"

lemma published_mono: "si_map i \<subseteq>\<^sub>m si_map j \<Longrightarrow> published_as u i ex kr m \<Longrightarrow> published_as u j ex kr m"
  by (fastforce simp: published_as_def interner_get_def map_le_def dom_def)

lemma normalize_facts:
  assumes "normalize_with_correlation raw ex cid now i = (i', t)"
  shows "si_map i \<subseteq>\<^sub>m si_map i'" "\<exists>sy. interner_get (rt_symbol raw) i' = Some sy \<and> tick_of raw ex cid sy t"
  using assms by (auto simp: normalize_with_correlation_def intern_def interner_get_def tick_of_def map_le_def dom_def split: option.splits)

lemma publish_breadth_ticks [simp]:
  "tick_msgs (publish_breadth snap w) = tick_msgs w" "mw_minted (publish_breadth snap w) = mw_minted w"
  "mw_ulid (publish_breadth snap w) = mw_ulid w"
  by (simp_all add: publish_breadth_def tick_msgs_def mw_publish_def ops_publish_def Let_def split: option.split prod.split)

lemma handle_publishes:
  assumes "handle_raw_tick env ex raw (e, b, w) = (e', b', w')"
  shows "si_map (me_interner e) \<subseteq>\<^sub>m si_map (me_interner e')" "mw_minted w' = mw_minted w + 1" "mw_ulid w' = mw_ulid w"
    "\<exists>m. tick_msgs w' = tick_msgs w @ [m] \<and> published_as (mw_ulid w) (me_interner e') ex (mw_minted w, raw) m"
proof -
  let ?cid = "mw_ulid w (mw_minted w)"
  obtain i t where n: "normalize_with_correlation raw ex ?cid (mw_now w (Suc (mw_reads w))) (me_interner e) = (i, t)" by fastforce
  have i: "me_interner e' = i" and min: "mw_minted w' = mw_minted w + 1" "mw_ulid w' = mw_ulid w"
    and "tick_msgs w' = tick_msgs w @ [MdTickMsg (md_tick (tk_symbol t)) (tick_to_raw_bytes t)]"
    using assms n by (auto simp: handle_raw_tick_def md_ingest_tick_def mw_tick_def mw_publish_def ops_publish_def tick_msgs_def Let_def
        split_beta publish_breadth_def split: option.splits)
  then show "\<exists>m. tick_msgs w' = tick_msgs w @ [m] \<and> published_as (mw_ulid w) (me_interner e') ex (mw_minted w, raw) m"
    using normalize_facts(2) [OF n] by (auto simp: published_as_def tick_of_def)
  show "si_map (me_interner e) \<subseteq>\<^sub>m si_map (me_interner e')" "mw_minted w' = mw_minted w + 1" "mw_ulid w' = mw_ulid w"
    using normalize_facts(1) [OF n] i min by simp_all
qed

lemma fold_publishes:
  "fold (handle_raw_tick env ex) raws (e, b, w) = (e', b', w') \<Longrightarrow>
   si_map (me_interner e) \<subseteq>\<^sub>m si_map (me_interner e') \<and> mw_minted w' = mw_minted w + length raws \<and> mw_ulid w' = mw_ulid w
   \<and> mw_dials w' = mw_dials w
   \<and> (\<exists>ms. tick_msgs w' = tick_msgs w @ ms \<and> list_all2 (published_as (mw_ulid w) (me_interner e') ex) (enumerate (mw_minted w) raws) ms)"
proof (induction raws arbitrary: e b w)
  case (Cons raw raws)
  obtain e1 b1 w1 where h: "handle_raw_tick env ex raw (e, b, w) = (e1, b1, w1)" by (metis prod_cases3)
  note one = handle_publishes [OF h] handle_raw_tick_keeps [OF h]
  from Cons.IH [of e1 b1 w1] Cons.prems h
  have rest: "si_map (me_interner e1) \<subseteq>\<^sub>m si_map (me_interner e')" "mw_minted w' = mw_minted w1 + length raws" "mw_ulid w' = mw_ulid w1"
    "mw_dials w' = mw_dials w1" and "\<exists>ms. tick_msgs w' = tick_msgs w1 @ ms
      \<and> list_all2 (published_as (mw_ulid w1) (me_interner e') ex) (enumerate (mw_minted w1) raws) ms" by simp_all
  then obtain ms where ms: "tick_msgs w' = tick_msgs w1 @ ms"
    "list_all2 (published_as (mw_ulid w) (me_interner e') ex) (enumerate (Suc (mw_minted w)) raws) ms" using one(2,3) by auto
  obtain m where m: "tick_msgs w1 = tick_msgs w @ [m]" "published_as (mw_ulid w) (me_interner e') ex (mw_minted w, raw) m"
    using one(4) published_mono [OF rest(1)] by blast
  have "tick_msgs w' = tick_msgs w @ (m # ms)" using m(1) ms(1) by simp
  moreover have "list_all2 (published_as (mw_ulid w) (me_interner e') ex) (enumerate (mw_minted w) (raw # raws)) (m # ms)"
    using m(2) ms(2) by simp
  ultimately show ?case using one(1-3,5) rest map_le_trans [OF one(1) rest(1)] by auto
qed (simp add: map_le_refl)

lemma reconnect_ticks:
  assumes "reconnect a w = Some (a', w', r)"
  shows "tick_msgs w' = tick_msgs w" "mw_ulid w' = mw_ulid w" "mw_minted w' = mw_minted w" "wa_protocol a' = wa_protocol a"
    "\<exists>d. mw_dials w = d # mw_dials w' \<and> wa_stream a' = (case d of Inl _ \<Rightarrow> None | Inr fs \<Rightarrow> Some fs)"
  using assms by (auto simp: reconnect_def tick_msgs_def mw_publish_def ops_publish_def mw_wall_read_def Let_def split: list.splits sum.splits)

lemma reconnect_none: "reconnect a w = None \<Longrightarrow> mw_dials w = []"
  by (auto simp: reconnect_def mw_publish_def ops_publish_def mw_wall_read_def Let_def split: list.splits sum.splits)

definition stream_ticks :: "tick_json \<Rightarrow> md_protocol \<Rightarrow> ws_frame list option \<Rightarrow> raw_tick list" where
  "stream_ticks js p st = (case st of None \<Rightarrow> [] | Some fs \<Rightarrow> readable js p fs)"

definition dialled_ticks :: "tick_json \<Rightarrow> md_protocol \<Rightarrow> (string + ws_frame list) list \<Rightarrow> raw_tick list" where
  "dialled_ticks js p ds = concat (map (\<lambda>d. case d of Inl _ \<Rightarrow> [] | Inr fs \<Rightarrow> readable js p fs) ds)"

lemma run_stream:
  "run_adapter_loop env ex a e b w =
     (case fold (handle_raw_tick env ex) (stream_ticks (mv_json env) (wa_protocol a) (wa_stream a)) (e, b, w) of (e, b, w) \<Rightarrow>
        case reconnect a w of None \<Rightarrow> (e, b, w) | Some (a, w, _) \<Rightarrow> run_adapter_loop env ex a e b w)"
proof (cases "wa_stream a")
  case None
  then have "\<exists>err. next_message (mv_json env) a = (a, Inl err)" by (simp add: next_message_def)
  then show ?thesis using None by (auto simp: stream_ticks_def run_fails)
qed (subst run_connection; simp add: stream_ticks_def)

lemma run_publishes:
  "run_adapter_loop env ex a e b w = (e', b', w') \<Longrightarrow>
   si_map (me_interner e) \<subseteq>\<^sub>m si_map (me_interner e') \<and> (\<exists>ms. tick_msgs w' = tick_msgs w @ ms
     \<and> list_all2 (published_as (mw_ulid w) (me_interner e') ex)
        (enumerate (mw_minted w) (stream_ticks (mv_json env) (wa_protocol a) (wa_stream a) @ dialled_ticks (mv_json env) (wa_protocol a) (mw_dials w))) ms)"
proof (induction "mw_dials w" arbitrary: a e b w)
  case Nil
  obtain e1 b1 w1 where f: "fold (handle_raw_tick env ex) (stream_ticks (mv_json env) (wa_protocol a) (wa_stream a)) (e, b, w) = (e1, b1, w1)"
    by (metis prod_cases3)
  note one = fold_publishes [OF f]
  have "reconnect a w1 = None" using one Nil.hyps reconnect_ticks(5) [of a w1] by (cases "reconnect a w1") auto
  then have "(e1, b1, w1) = (e', b', w')" using Nil.prems f by (subst (asm) run_stream) simp
  then show ?case using one Nil.hyps by (auto simp: dialled_ticks_def)
next
  case (Cons d ds)
  let ?raws = "stream_ticks (mv_json env) (wa_protocol a) (wa_stream a)"
  obtain e1 b1 w1 where f: "fold (handle_raw_tick env ex) ?raws (e, b, w) = (e1, b1, w1)" by (metis prod_cases3)
  note one = fold_publishes [OF f]
  obtain a2 w2 r where rc: "reconnect a w1 = Some (a2, w2, r)" using one Cons.hyps(2) reconnect_none [of a w1] by (cases "reconnect a w1") auto
  note two = reconnect_ticks [OF rc]
  have ds: "ds = mw_dials w2" "stream_ticks (mv_json env) (wa_protocol a2) (wa_stream a2) @ dialled_ticks (mv_json env) (wa_protocol a2) (mw_dials w2)
      = dialled_ticks (mv_json env) (wa_protocol a) (mw_dials w)"
    using one two(4,5) Cons.hyps(2) by (auto simp: stream_ticks_def dialled_ticks_def split: sum.split)
  have "run_adapter_loop env ex a2 e1 b1 w2 = (e', b', w')" using Cons.prems f rc by (subst (asm) run_stream) simp
  from Cons.hyps(1) [OF ds(1) this] obtain ms where rest: "si_map (me_interner e1) \<subseteq>\<^sub>m si_map (me_interner e')" "tick_msgs w' = tick_msgs w2 @ ms"
    "list_all2 (published_as (mw_ulid w2) (me_interner e') ex) (enumerate (mw_minted w2) (dialled_ticks (mv_json env) (wa_protocol a) (mw_dials w))) ms"
    unfolding ds(2) by blast
  from one obtain ns where ns: "tick_msgs w1 = tick_msgs w @ ns" "list_all2 (published_as (mw_ulid w) (me_interner e1) ex) (enumerate (mw_minted w) ?raws) ns"
    by blast
  have "list_all2 (published_as (mw_ulid w) (me_interner e') ex) (enumerate (mw_minted w) ?raws) ns"
    using ns(2) by (rule list_all2_mono) (rule published_mono [OF rest(1)])
  then have "list_all2 (published_as (mw_ulid w) (me_interner e') ex)
      (enumerate (mw_minted w) (?raws @ dialled_ticks (mv_json env) (wa_protocol a) (mw_dials w))) (ns @ ms)"
    using rest(3) one two by (simp add: enumerate_append_eq list_all2_appendI)
  moreover have "tick_msgs w' = tick_msgs w @ (ns @ ms)" using rest(2) two(1) ns(1) by simp
  ultimately show ?case using one map_le_trans [OF _ rest(1)] by blast
qed

text \<open>C16: Every tick that arrives is published, once and in order. Over a whole run of the adapter loop, across all the
  connections dialled, the tick messages handed to the bus are in one-to-one correspondence, in order, with the frames
  that parsed before the first error of their connection: each is the fixed-width encoding of its frame's prices and quantities under the id the
  interner holds for its symbol at the end of the run, on that symbol's subject, with the correlation id minted for it.\<close>

theorem ticks_published_once_in_order:
  assumes "run_adapter_loop env ex a e b w = (e', b', w')"
  shows "\<exists>ms. tick_msgs w' = tick_msgs w @ ms
    \<and> list_all2 (published_as (mw_ulid w) (me_interner e') ex)
        (enumerate (mw_minted w) (stream_ticks (mv_json env) (wa_protocol a) (wa_stream a) @ dialled_ticks (mv_json env) (wa_protocol a) (mw_dials w))) ms"
  using run_publishes [OF assms] by blast

section \<open>Sector breadth against its batch definition\<close>

lemma rnd_F32_int:
  assumes "\<bar>n\<bar> \<le> 16777216"
  shows "rnd F32 (of_int n) = Fin (of_int n)"
proof -
  have "of_int \<bar>n\<bar> \<le> (of_int 16777216 :: rat)" using assms by (simp only: of_int_le_iff)
  then have b: "\<bar>of_int n\<bar> \<le> (16777216 :: rat)" by simp
  then have "rnd_rat F32 (of_int n) = of_int n" by (intro rnd_rat_int) simp
  moreover have "(16777216 :: rat) \<le> ftop F32" by simp
  ultimately show ?thesis using b unfolding rnd_def Let_def by (simp del: ftop.simps) linarith
qed

lemma sector_ratio_exact:
  assumes "a + d \<le> t" "0 < t" "t \<le> 16777216"
  shows "sector_ratio (of_nat a, of_nat d, of_nat t) = rnd F32 ((of_nat a - of_nat d) / of_nat t)"
proof -
  have u: "uint (of_nat n :: u32) = int n" if "n \<le> 16777216" for n using that by (simp add: unsigned_of_nat take_bit_nat_eq_self)
  have f: "flt_of_int F32 (int n) = Fin (of_nat n)" if "n \<le> 16777216" for n
    unfolding flt_of_int_def using rnd_F32_int [of "int n"] that by simp
  have "rnd F32 (of_int (int a - int d)) = Fin (of_int (int a - int d))" using assms by (intro rnd_F32_int) linarith
  then have "rnd F32 (of_nat a - of_nat d) = Fin (of_nat a - of_nat d)" by simp
  moreover have "(of_nat t :: u32) \<noteq> 0" using u [of t] assms by force
  ultimately show ?thesis using assms by (simp add: sector_ratio_def u f fsub_def)
qed

lemma breadth_ratio_bounds:
  assumes "a + d \<le> t" "0 < t"
  shows "\<exists>x. rnd F32 ((of_nat a - of_nat d) / of_nat t) = Fin x \<and> - 1 \<le> x \<and> x \<le> 1"
proof -
  have t: "(0 :: rat) < of_nat t" using assms(2) by simp
  have ad: "of_nat a + of_nat d \<le> (of_nat t :: rat)" using assms(1) by (metis of_nat_add of_nat_le_iff)
  have "(of_nat a - of_nat d) / of_nat t \<le> (1 :: rat)" "(- 1 :: rat) \<le> (of_nat a - of_nat d) / of_nat t"
    using t ad by (simp_all add: divide_le_eq le_divide_eq)
  from rnd_mono [OF this(1), of F32] rnd_mono [OF this(2), of F32] rnd_F32_int [of 1] rnd_F32_int [of "- 1"]
  show ?thesis by (cases "rnd F32 ((of_nat a - of_nat d) / of_nat t)") auto
qed

text \<open>The entries of a sector, and those of them that moved.\<close>

definition in_sector :: "(u32 \<rightharpoonup> string) \<Rightarrow> string \<Rightarrow> breadth_entry \<Rightarrow> bool" where
  "in_sector sectors sec e \<longleftrightarrow> sectors (fst e) = Some sec \<and> bs_prev_close_paise (snd e) \<noteq> 0"

definition advanced :: "breadth_entry \<Rightarrow> bool" where
  "advanced e \<longleftrightarrow> bs_prev_close_paise (snd e) < bs_last_ltp_paise (snd e)"

definition declined :: "breadth_entry \<Rightarrow> bool" where
  "declined e \<longleftrightarrow> bs_last_ltp_paise (snd e) < bs_prev_close_paise (snd e)"

lemma count_entry_at:
  "count_entry sectors e counts sec =
     (if in_sector sectors sec e
      then case (case counts sec of Some c \<Rightarrow> c | None \<Rightarrow> (0, 0, 0)) of (adv, dec, tot) \<Rightarrow>
        Some (if advanced e then adv + 1 else adv, if declined e then dec + 1 else dec, tot + 1)
      else counts sec)"
  by (auto simp: count_entry_def in_sector_def advanced_def declined_def Let_def split: prod.split option.split)

lemma count_fold:
  "fold (count_entry sectors) xs (\<lambda>_. None) sec =
     (let es = filter (in_sector sectors sec) xs
      in if es = [] then None else Some (of_nat (length (filter advanced es)), of_nat (length (filter declined es)), of_nat (length es)))"
proof (induction xs rule: rev_induct)
  case (snoc x xs)
  then show ?case by (cases "filter (in_sector sectors sec) xs = []") (simp_all add: count_entry_at Let_def del: filter_filter)
qed simp

lemma filter_length_mset: "mset xs = mset ys \<Longrightarrow> length (filter P xs) = length (filter P ys)"
  by (metis mset_filter size_mset)

text \<open>What the aggregator knows after the ticks \<open>ts\<close>: the latest price of every symbol seen, and its previous close.\<close>

definition last_price :: "tick list \<Rightarrow> u32 \<Rightarrow> i64" where
  "last_price ts sy = tk_ltp_paise (last (filter (\<lambda>t. tk_symbol t = sy) ts))"

definition close_of :: "(u32 \<rightharpoonup> i64) \<Rightarrow> u32 \<Rightarrow> i64" where
  "close_of pc sy = (case pc sy of Some p \<Rightarrow> p | None \<Rightarrow> 0)"

definition breadth_knows :: "tick list \<Rightarrow> breadth_aggregator \<Rightarrow> bool" where
  "breadth_knows ts b \<longleftrightarrow> distinct (map fst (ba_state b)) \<and> fst ` set (ba_state b) = tk_symbol ` set ts
     \<and> (\<forall>(sy, s) \<in> set (ba_state b). bs_last_ltp_paise s = last_price ts sy \<and> bs_prev_close_paise s = close_of (ba_prev_close b) sy)"

lemma entry_put_keys: "map fst (entry_put k v es) = (if k \<in> fst ` set es then map fst es else map fst es @ [k])"
  by (induction k v es rule: entry_put.induct) auto

lemma entry_put_set: "distinct (map fst es) \<Longrightarrow> set (entry_put k v es) = insert (k, v) {e \<in> set es. fst e \<noteq> k}"
  by (induction k v es rule: entry_put.induct) force+

lemma on_tick_state:
  assumes "on_tick lm order now t b = (b', snap)"
  shows "ba_state b' = entry_put (tk_symbol t) (breadth_fold t (symbol_state (tk_symbol t) b)) (ba_state b)"
    "ba_sectors b' = ba_sectors b" "ba_prev_close b' = ba_prev_close b" "ba_batch_ticks b' = ba_batch_ticks b"
  using assms by (auto simp: on_tick_def Let_def split: prod.splits if_splits)

lemma on_tick_knows:
  assumes "breadth_knows ts b" "on_tick lm order now t b = (b', snap)"
  shows "breadth_knows (ts @ [t]) b'"
proof -
  note st = on_tick_state [OF assms(2)]
  let ?k = "tk_symbol t" and ?s = "breadth_fold t (symbol_state (tk_symbol t) b)"
  have d: "distinct (map fst (ba_state b))" and keys: "fst ` set (ba_state b) = tk_symbol ` set ts"
    and vals: "\<And>sy s. (sy, s) \<in> set (ba_state b) \<Longrightarrow> bs_last_ltp_paise s = last_price ts sy \<and> bs_prev_close_paise s = close_of (ba_prev_close b) sy"
    using assms(1) by (auto simp: breadth_knows_def)
  have d': "distinct (map fst (ba_state b'))" using d by (simp add: st entry_put_keys)
  have set': "set (ba_state b') = insert (?k, ?s) {e \<in> set (ba_state b). fst e \<noteq> ?k}" using entry_put_set [OF d] st by simp
  have "bs_last_ltp_paise ?s = tk_ltp_paise t" by (simp add: breadth_fold_def Let_def)
  moreover have "bs_prev_close_paise ?s = close_of (ba_prev_close b) ?k"
    using vals by (auto simp: breadth_fold_def symbol_state_def symbol_breadth_new_def close_of_def Let_def
        dest: map_of_SomeD split: option.split)
  ultimately have "bs_last_ltp_paise s = last_price (ts @ [t]) sy \<and> bs_prev_close_paise s = close_of (ba_prev_close b') sy"
    if "(sy, s) \<in> set (ba_state b')" for sy s
    using that vals unfolding set' by (auto simp: last_price_def st)
  moreover have "fst ` set (ba_state b') = tk_symbol ` set (ts @ [t])"
    using keys arg_cong [OF entry_put_keys, of set ?k ?s "ba_state b"] by (auto simp: st)
  ultimately show ?thesis using d' by (auto simp: breadth_knows_def)
qed

text \<open>The aggregator after a list of ticks, each with its clock readings.\<close>

definition breadth_run :: "libm \<Rightarrow> (breadth_entry list \<Rightarrow> breadth_entry list) \<Rightarrow> ((u64 \<times> u64 \<times> u64) \<times> tick) list \<Rightarrow> breadth_aggregator \<Rightarrow> breadth_aggregator" where
  "breadth_run lm order ts b = fold (\<lambda>(now, t) b. fst (on_tick lm order now t b)) ts b"

lemma breadth_run_knows:
  "breadth_knows us b \<Longrightarrow> breadth_knows (us @ map snd ts) (breadth_run lm order ts b)
     \<and> ba_sectors (breadth_run lm order ts b) = ba_sectors b \<and> ba_prev_close (breadth_run lm order ts b) = ba_prev_close b"
proof (induction ts arbitrary: us b)
  case (Cons x ts)
  obtain now t b' snap where x: "x = (now, t)" "on_tick lm order now t b = (b', snap)" by (metis prod.exhaust)
  show ?case using Cons.IH [OF on_tick_knows [OF Cons.prems x(2)]] x on_tick_state [OF x(2)] by (simp add: breadth_run_def)
qed (simp add: breadth_run_def)

text \<open>The batch definition: over the symbols seen, those of the sector with a previous close, and how their last prices
  compare with it.\<close>

definition sector_members :: "(u32 \<rightharpoonup> string) \<Rightarrow> (u32 \<rightharpoonup> i64) \<Rightarrow> tick list \<Rightarrow> string \<Rightarrow> u32 set" where
  "sector_members sectors pc ts sec = {sy \<in> tk_symbol ` set ts. sectors sy = Some sec \<and> close_of pc sy \<noteq> 0}"

definition batch_breadth :: "(u32 \<rightharpoonup> string) \<Rightarrow> (u32 \<rightharpoonup> i64) \<Rightarrow> tick list \<Rightarrow> string \<Rightarrow> flt option" where
  "batch_breadth sectors pc ts sec =
     (let ms = sector_members sectors pc ts sec
      in if ms = {} then None
         else Some (rnd F32 ((of_nat (card {sy \<in> ms. close_of pc sy < last_price ts sy}) - of_nat (card {sy \<in> ms. last_price ts sy < close_of pc sy}))
                             / of_nat (card ms))))"

lemma key_count:
  assumes "distinct (map fst es)"
  shows "length (filter P es) = card {k. \<exists>e \<in> set es. fst e = k \<and> P e}"
proof -
  have "distinct (map fst (filter P es))" using assms by (induction es) auto
  from distinct_card [OF this] have "length (filter P es) = card (fst ` set (filter P es))" by simp
  moreover have "fst ` set (filter P es) = {k. \<exists>e \<in> set es. fst e = k \<and> P e}" by auto
  ultimately show ?thesis by simp
qed

lemma breadth_counts:
  assumes "breadth_knows ts b"
  shows "length (filter (in_sector (ba_sectors b) sec) (ba_state b)) = card (sector_members (ba_sectors b) (ba_prev_close b) ts sec)"
    and "length (filter advanced (filter (in_sector (ba_sectors b) sec) (ba_state b)))
      = card {sy \<in> sector_members (ba_sectors b) (ba_prev_close b) ts sec. close_of (ba_prev_close b) sy < last_price ts sy}"
    and "length (filter declined (filter (in_sector (ba_sectors b) sec) (ba_state b)))
      = card {sy \<in> sector_members (ba_sectors b) (ba_prev_close b) ts sec. last_price ts sy < close_of (ba_prev_close b) sy}"
proof -
  have d: "distinct (map fst (ba_state b))" and keys: "tk_symbol ` set ts = fst ` set (ba_state b)"
    and vals: "\<And>sy s. (sy, s) \<in> set (ba_state b) \<Longrightarrow> bs_last_ltp_paise s = last_price ts sy \<and> bs_prev_close_paise s = close_of (ba_prev_close b) sy"
    using assms by (auto simp: breadth_knows_def)
  show "length (filter (in_sector (ba_sectors b) sec) (ba_state b)) = card (sector_members (ba_sectors b) (ba_prev_close b) ts sec)"
    unfolding key_count [OF d] sector_members_def keys by (rule arg_cong [of _ _ card]) (use vals in \<open>force simp: in_sector_def\<close>)
  show "length (filter advanced (filter (in_sector (ba_sectors b) sec) (ba_state b)))
      = card {sy \<in> sector_members (ba_sectors b) (ba_prev_close b) ts sec. close_of (ba_prev_close b) sy < last_price ts sy}"
    unfolding filter_filter key_count [OF d] sector_members_def keys
    by (rule arg_cong [of _ _ card]) (use vals in \<open>force simp: in_sector_def advanced_def\<close>)
  show "length (filter declined (filter (in_sector (ba_sectors b) sec) (ba_state b)))
      = card {sy \<in> sector_members (ba_sectors b) (ba_prev_close b) ts sec. last_price ts sy < close_of (ba_prev_close b) sy}"
    unfolding filter_filter key_count [OF d] sector_members_def keys
    by (rule arg_cong [of _ _ card]) (use vals in \<open>force simp: in_sector_def declined_def\<close>)
qed

text \<open>Sector breadth is what its definition says. After any sequence of ticks, however the publications fell
  and whatever order the hash map is iterated in, the published breadth of a sector is the number of its symbols whose last price is above the previous
  close less the number below, over the number that have a previous close, rounded once to single precision; a sector
  none of whose symbols has ticked is absent; and the value lies between -1 and 1 (at most \<open>2\<^sup>2\<^sup>4\<close> symbols).\<close>

theorem sector_breadth_matches_batch:
  assumes "\<And>es. mset (order es) = mset es" and "card (tk_symbol ` set (map snd ts)) \<le> 2 ^ 24"
    and b_def: "b = breadth_run lm order ts (breadth_with_thresholds sectors pc n interval t0)"
  shows "sb_sectors (compute_sector order now b) sec = batch_breadth sectors pc (map snd ts) sec
    \<and> (\<forall>v. sb_sectors (compute_sector order now b) sec = Some v \<longrightarrow> (\<exists>x. v = Fin x \<and> - 1 \<le> x \<and> x \<le> 1))"
proof -
  let ?ts = "map snd ts" and ?ms = "sector_members sectors pc (map snd ts) sec"
  let ?u = "{sy \<in> ?ms. close_of pc sy < last_price ?ts sy}" and ?d = "{sy \<in> ?ms. last_price ?ts sy < close_of pc sy}"
  have "breadth_knows [] (breadth_with_thresholds sectors pc n interval t0)" by (simp add: breadth_knows_def breadth_with_thresholds_def)
  from breadth_run_knows [OF this, of ts lm order] have k: "breadth_knows ?ts b" and c: "ba_sectors b = sectors" "ba_prev_close b = pc"
    by (simp_all add: b_def breadth_with_thresholds_def)
  note counts = breadth_counts [OF k, of sec, unfolded c]
  have fin: "finite ?ms" and le: "card ?ms \<le> 2 ^ 24"
    using assms(2) card_mono [of "tk_symbol ` set ?ts" ?ms] by (auto simp: sector_members_def)
  have "?u \<inter> ?d = {}" "?u \<union> ?d \<subseteq> ?ms" by auto
  then have ud: "card ?u + card ?d \<le> card ?ms" using fin card_mono [OF fin, of "?u \<union> ?d"] card_Un_disjoint [of ?u ?d] by simp
  have "fold (count_entry sectors) (order (ba_state b)) (\<lambda>_. None) sec =
      (if card ?ms = 0 then None else Some (of_nat (card ?u), of_nat (card ?d), of_nat (card ?ms)))"
    using counts filter_length_mset [OF assms(1), of _ "ba_state b"]
    by (simp add: count_fold Let_def filter_filter flip: length_0_conv)
  then have v: "sb_sectors (compute_sector order now b) sec = batch_breadth sectors pc ?ts sec"
    using sector_ratio_exact [OF ud] le fin by (simp add: compute_sector_def c batch_breadth_def Let_def card_gt_0_iff)
  show ?thesis unfolding v using breadth_ratio_bounds [OF ud] fin by (auto simp: batch_breadth_def Let_def card_gt_0_iff)
qed

section \<open>Witnesses\<close>

text \<open>A feed whose parser accepts one text, a bus that takes everything, and a hash map iterated backwards.\<close>

definition one_raw :: canonical_json_tick where
  "one_raw = \<lparr>cj_symbol = ''INFY'', cj_ltp = 150000, cj_bid = 149990, cj_ask = 150010, cj_ltq = 5, cj_total_buy_qty = 100,
     cj_total_sell_qty = 90, cj_ts_exchange_ms = 7\<rparr>"

definition one_env :: "(unit, unit) md_env" where
  "one_env = \<lparr>mv_json = (\<lambda>b. if b = [1] then Inr one_raw else Inl ''expected value''),
     mv_broadcast = \<lparr>bc_channel = (\<lambda>_. ()), bc_subscribe = (\<lambda>_. ((), ())), bc_send = (\<lambda>_ _. ((), True))\<rparr>,
     mv_libm = plain_libm, mv_order = rev\<rparr>"

definition one_adapter :: "ws_frame list \<Rightarrow> ws_adapter" where
  "one_adapter fs = \<lparr>wa_source = ''nse'', wa_protocol = NseProtocolPlaceholder, wa_stream = Some fs, wa_attempts = 0\<rparr>"

definition one_engine :: "unit md_engine" where
  "one_engine = \<lparr>me_interner = interner_new, me_distributor = distributor_new\<rparr>"

definition one_breadth :: breadth_aggregator where
  "one_breadth = breadth_with_thresholds [1 \<mapsto> ''IT''] [1 \<mapsto> 140000] 100 250000000 0"

definition one_world :: "(string + ws_frame list) list \<Rightarrow> md_world" where
  "one_world ds = \<lparr>mw_bus = \<lparr>now_at = (\<lambda>_. 0), answer_at = (\<lambda>_. None), attempts = []\<rparr>, mw_dials = ds, mw_now = (\<lambda>_. 0),
     mw_wall = (\<lambda>_. ''t''), mw_ulid = (\<lambda>k. of_nat k), mw_reads = 0, mw_minted = 0, mw_sleeps = [], mw_drops = 0, mw_latency = []\<rparr>"

lemmas one_defs = one_env_def one_adapter_def one_world_def

lemma one_run_ends: "mw_dials w = [] \<Longrightarrow> run_adapter_loop env ex (one_adapter []) e b w = (e, b, w)"
  by (subst run_fails [where err = "MdWebSocket ''nse'' ''stream ended''"]) (auto simp: next_message_def one_adapter_def reconnect_def
      mw_wall_read_def mw_publish_def ops_publish_def Let_def)

theorem adapter_recovers_witness:
  "mw_sleeps (snd (snd (run_adapter_loop one_env MdNse (one_adapter []) one_engine one_breadth
      (one_world [Inl ''refused'', Inl ''timed out'', Inr []])))) = [100, 200, 400]"
proof -
  have "next_message (mv_json one_env) (one_adapter []) = (one_adapter [], Inl (MdWebSocket ''nse'' ''stream ended''))"
    by (simp add: next_message_def one_adapter_def)
  from adapter_recovers [of "one_world [Inl ''refused'', Inl ''timed out'', Inr []]" "[''refused'', ''timed out'']" "[]" "[]", OF _ _ _ this]
  obtain w' where "run_adapter_loop one_env MdNse (one_adapter []) one_engine one_breadth (one_world [Inl ''refused'', Inl ''timed out'', Inr []])
      = run_adapter_loop one_env MdNse (one_adapter []) one_engine one_breadth w'"
    "mw_dials w' = []" "mw_sleeps w' = map (\<lambda>j. reconnect_delay_for (of_nat j)) [0..<3]"
    by (fastforce simp: one_world_def one_adapter_def numeral_3_eq_3)
  then show ?thesis by (simp add: one_run_ends upt_rec reconnect_delay_for_def RECONNECT_BACKOFF_MS_def)
qed

theorem malformed_frame_drops_connection_witness:
  "mv_json one_env [1] = Inr one_raw
   \<and> run_adapter_loop one_env MdNse (one_adapter [WsText [0], WsText [1]]) one_engine one_breadth (one_world [])
     = (one_engine, one_breadth, one_world [])"
proof -
  have "mv_json one_env [0] = Inl ''expected value''" "mv_json one_env [1] = Inr one_raw" by (simp_all add: one_env_def)
  then show ?thesis
    using malformed_frame_drops_connection [of one_env "[0]" "''expected value''" "one_adapter [WsText [0], WsText [1]]" "[]" "[WsText [1]]"
        MdNse one_engine one_breadth "one_world []"] one_run_ends [of "one_world []"]
    by (simp add: one_adapter_def one_world_def)
qed

theorem ticks_published_once_in_order_witness:
  "\<exists>e b w m. run_adapter_loop one_env MdNse (one_adapter [WsText [1], WsPong]) one_engine one_breadth (one_world []) = (e, b, w)
     \<and> tick_msgs w = [m] \<and> published_as (\<lambda>k. of_nat k) (me_interner e) MdNse (0, raw_tick_from one_raw) m"
proof -
  obtain e b w where r: "run_adapter_loop one_env MdNse (one_adapter [WsText [1], WsPong]) one_engine one_breadth (one_world []) = (e, b, w)"
    by (metis prod_cases3)
  from ticks_published_once_in_order [OF r] show ?thesis
    unfolding r by (auto simp: one_defs tick_msgs_def stream_ticks_def dialled_ticks_def protocol_parse_def parse_canonical_json_def list_all2_Cons1)
qed

theorem sector_breadth_matches_batch_witness:
  "\<exists>b. b = breadth_run plain_libm rev [((0, 0, 0), sample_tick\<lparr>tk_symbol := 1, tk_ltp_paise := 150000\<rparr>)] one_breadth
     \<and> sb_sectors (compute_sector rev 0 b) ''IT'' = Some (Fin 1)"
proof -
  let ?ts = "[((0, 0, 0), sample_tick\<lparr>tk_symbol := 1, tk_ltp_paise := 150000\<rparr>)] :: ((u64 \<times> u64 \<times> u64) \<times> tick) list"
  have m: "sector_members [1 \<mapsto> ''IT''] [1 \<mapsto> 140000] (map snd ?ts) ''IT'' = {1}" by (auto simp: sector_members_def close_of_def)
  have sets: "{sy \<in> {1}. close_of [1 \<mapsto> 140000] sy < last_price (map snd ?ts) sy} = {1}"
    "{sy \<in> {1}. last_price (map snd ?ts) sy < close_of [1 \<mapsto> 140000] sy} = {}"
    by (auto simp: last_price_def close_of_def)
  have "batch_breadth [1 \<mapsto> ''IT''] [1 \<mapsto> 140000] (map snd ?ts) ''IT'' = Some (Fin 1)"
    unfolding batch_breadth_def m Let_def sets using rnd_F32_int [of 1] by simp
  with sector_breadth_matches_batch [of rev ?ts _ plain_libm "[1 \<mapsto> ''IT'']" "[1 \<mapsto> 140000]" 100 250000000 0 0 "''IT''"]
  show ?thesis by (simp add: one_breadth_def)
qed

end
