(* ===== verification/Orderflow.thy ===== *)
theory Orderflow
  imports Features Exec_Service
begin

text \<open>
  The Orderflow_Engine (\<open>hedge-orderflow/src\<close>): the depth book (\<open>book.rs\<close>), the detectors (\<open>events.rs\<close>), the rolling delta and
  the book metrics (\<open>metrics.rs\<close>), the heatmap (\<open>heatmap.rs\<close>), the engine (\<open>engine.rs\<close>) and the two receive loops of the binary
  (\<open>bin/main.rs\<close>), with the bounded event batch of \<open>hedge-core/src/payload.rs\<close>. JSON accessors and clock readings are inputs; the watch channel of a
  heatmap is its current value. The counts that \<open>observe_book\<close> and \<open>observe_trade\<close> return are dropped by their callers and left out.
\<close>

section \<open>Bounded event batches (hedge-core payload.rs)\<close>

definition try_push :: "nat \<Rightarrow> 'a \<Rightarrow> 'a list \<Rightarrow> 'a list \<times> bool" where
  "try_push n v xs = (if length xs \<ge> n then (xs, False) else (xs @ [v], True))"

section \<open>The depth book (book.rs)\<close>

definition MAX_BOOK_LEVELS :: nat where "MAX_BOOK_LEVELS = 20"

record l2_level =
  lv_price_paise :: i64
  lv_qty :: u64
  lv_orders :: u32

record l2_update =
  up_correlation_id :: "u8 list"
  up_symbol :: u32
  up_exchange :: u8
  up_bid_levels :: "l2_level list"
  up_ask_levels :: "l2_level list"
  up_ts_ns :: u64

record live_book =
  bk_bids :: "l2_level list"
  bk_asks :: "l2_level list"
  bk_last_seq :: u64

definition live_book_new :: live_book where
  "live_book_new = \<lparr>bk_bids = [], bk_asks = [], bk_last_seq = 0\<rparr>"

definition top_level :: "l2_level list \<Rightarrow> l2_level option" where
  "top_level ls = (case ls of [] \<Rightarrow> None | l # _ \<Rightarrow> Some l)"

definition top_bid :: "live_book \<Rightarrow> l2_level option" where
  "top_bid b = top_level (bk_bids b)"

definition top_ask :: "live_book \<Rightarrow> l2_level option" where
  "top_ask b = top_level (bk_asks b)"

text \<open>Pushes of the first 20 levels onto a cleared side of capacity 20.\<close>

definition push_levels :: "l2_level list \<Rightarrow> l2_level list" where
  "push_levels ls = fold (\<lambda>l xs. fst (try_push MAX_BOOK_LEVELS l xs)) (take MAX_BOOK_LEVELS ls) []"

definition book_apply :: "l2_update \<Rightarrow> live_book \<Rightarrow> live_book \<times> bool" where
  "book_apply u b =
     (if up_ts_ns u \<le> bk_last_seq b \<and> bk_last_seq b \<noteq> 0 then (b, False)
      else (\<lparr>bk_bids = push_levels (up_bid_levels u), bk_asks = push_levels (up_ask_levels u), bk_last_seq = up_ts_ns u\<rparr>, True))"

definition book_clear :: "live_book \<Rightarrow> live_book" where
  "book_clear b = b\<lparr>bk_bids := [], bk_asks := [], bk_last_seq := 0\<rparr>"

section \<open>Detectors (events.rs)\<close>

datatype orderflow_event =
    LiquidityGap side i64 u64
  | Absorption side i64 u64
  | HiddenLiquidity side i64
  | Spoofing side i64 flt

definition LIQUIDITY_GAP_TICKS :: i64 where "LIQUIDITY_GAP_TICKS = 3"
definition DEFAULT_TICK_SIZE_PAISE :: i64 where "DEFAULT_TICK_SIZE_PAISE = 1"
definition SPOOF_QTY_MULTIPLIER :: u64 where "SPOOF_QTY_MULTIPLIER = 5"
definition SPOOF_WINDOW_NS :: u64 where "SPOOF_WINDOW_NS = 500000000"
definition SPOOF_MEDIAN_WINDOW :: nat where "SPOOF_MEDIAN_WINDOW = 64"
definition SPOOF_PENDING_CAPACITY :: nat where "SPOOF_PENDING_CAPACITY = 32"

record pending_order =
  po_side :: side
  po_price_paise :: i64
  po_qty :: u64
  po_placed_ts_ns :: u64
  po_filled_qty :: u64

record detector =
  dt_tick_size_paise :: i64
  dt_qty_history :: "u64 ring_window"
  dt_pending :: "pending_order list"
  dt_last_top_bid :: "l2_level option"
  dt_last_top_ask :: "l2_level option"

definition detector_with_tick_size :: "i64 \<Rightarrow> detector" where
  "detector_with_tick_size n = \<lparr>dt_tick_size_paise = max n 1, dt_qty_history = fresh_window SPOOF_MEDIAN_WINDOW 0, dt_pending = [],
     dt_last_top_bid = None, dt_last_top_ask = None\<rparr>"

definition detector_new :: detector where
  "detector_new = detector_with_tick_size DEFAULT_TICK_SIZE_PAISE"

definition rolling_median_qty :: "detector \<Rightarrow> u64" where
  "rolling_median_qty d =
     (if rw_is_empty (dt_qty_history d) then 0
      else let buf = sort (rw_iter (dt_qty_history d)); n = length buf
           in if n = 0 then 0
              else if n mod 2 = 0 then of_nat ((unat (buf ! (n div 2 - 1)) + unat (buf ! (n div 2))) div 2)
              else buf ! (n div 2))"

definition detect_liquidity_gap :: "side \<Rightarrow> l2_level list \<Rightarrow> i64 \<Rightarrow> orderflow_event option" where
  "detect_liquidity_gap side levels tick_size =
     (case levels of
        best # nxt # _ \<Rightarrow>
          if i64_abs_diff (lv_price_paise best) (lv_price_paise nxt) > sat_i64 (LIQUIDITY_GAP_TICKS * tick_size)
          then Some (LiquidityGap side (lv_price_paise best) (lv_qty best)) else None
      | _ \<Rightarrow> None)"

definition push_event :: "orderflow_event \<Rightarrow> orderflow_event list \<Rightarrow> orderflow_event list" where
  "push_event e out = fst (try_push 4 e out)"

definition top_of :: "side \<Rightarrow> live_book \<Rightarrow> l2_level option" where
  "top_of s b = (case s of Buy \<Rightarrow> top_bid b | Sell \<Rightarrow> top_ask b)"

definition still_present :: "pending_order \<Rightarrow> live_book \<Rightarrow> bool" where
  "still_present p b = (case top_of (po_side p) b of
     Some l \<Rightarrow> lv_price_paise l = po_price_paise p \<and> lv_qty l \<ge> po_qty p div 2 | None \<Rightarrow> False)"

definition spoof_evidence :: "pending_order \<Rightarrow> flt" where
  "spoof_evidence p = flt_clamp (fdiv F32 (flt_of_int F32 (uint (usat_sub (po_qty p) (po_filled_qty p)))) (flt_of_int F32 (uint (max (po_qty p) 1))))
     (Fin 0) (Fin 1)"

text \<open>The loop of \<open>advance_spoofing\<close>: the candidates kept, and the batch after the emissions.\<close>

fun advance_loop :: "live_book \<Rightarrow> u64 \<Rightarrow> pending_order list \<Rightarrow> orderflow_event list \<Rightarrow> pending_order list \<times> orderflow_event list" where
  "advance_loop b now [] out = ([], out)"
| "advance_loop b now (p # ps) out =
     (let age = usat_sub now (po_placed_ts_ns p)
      in if \<not> still_present p b \<and> age \<le> SPOOF_WINDOW_NS \<and> po_filled_qty p < po_qty p div 4
         then advance_loop b now ps (push_event (Spoofing (po_side p) (po_price_paise p) (spoof_evidence p)) out)
         else if age > SPOOF_WINDOW_NS then advance_loop b now ps out
         else let (kept, out) = advance_loop b now ps out in (p # kept, out))"

definition advance_spoofing :: "live_book \<Rightarrow> u64 \<Rightarrow> detector \<Rightarrow> orderflow_event list \<Rightarrow> detector \<times> orderflow_event list" where
  "advance_spoofing b now d out = (let (kept, out) = advance_loop b now (dt_pending d) out in (d\<lparr>dt_pending := kept\<rparr>, out))"

text \<open>The index of the first entry with the smallest time below the running minimum.\<close>

fun oldest_from :: "nat \<Rightarrow> nat \<Rightarrow> u64 \<Rightarrow> pending_order list \<Rightarrow> nat" where
  "oldest_from i best ts [] = best"
| "oldest_from i best ts (p # ps) =
     (if po_placed_ts_ns p < ts then oldest_from (Suc i) i (po_placed_ts_ns p) ps else oldest_from (Suc i) best ts ps)"

definition try_register_pending :: "side \<Rightarrow> l2_level \<Rightarrow> u64 \<Rightarrow> detector \<Rightarrow> detector" where
  "try_register_pending s best now d =
     (if \<exists>p \<in> set (dt_pending d). po_side p = s \<and> po_price_paise p = lv_price_paise best then d
      else let entry = \<lparr>po_side = s, po_price_paise = lv_price_paise best, po_qty = lv_qty best, po_placed_ts_ns = now, po_filled_qty = 0\<rparr>;
               (ps, ok) = try_push SPOOF_PENDING_CAPACITY entry (dt_pending d)
           in if ok then d\<lparr>dt_pending := ps\<rparr>
              else d\<lparr>dt_pending := (dt_pending d)[oldest_from 0 0 (- 1) (dt_pending d) := entry]\<rparr>)"

definition qty_of :: "l2_level option \<Rightarrow> u64" where
  "qty_of l = (case l of Some l \<Rightarrow> lv_qty l | None \<Rightarrow> 0)"

definition register_large :: "side \<Rightarrow> u64 \<Rightarrow> live_book \<Rightarrow> u64 \<Rightarrow> detector \<Rightarrow> detector" where
  "register_large s threshold b now d = (case top_of s b of
     Some best \<Rightarrow> if lv_qty best > threshold then try_register_pending s best now d else d | None \<Rightarrow> d)"

definition push_opt :: "orderflow_event option \<Rightarrow> orderflow_event list \<Rightarrow> orderflow_event list" where
  "push_opt e out = (case e of None \<Rightarrow> out | Some e \<Rightarrow> push_event e out)"

definition observe_book :: "live_book \<Rightarrow> u64 \<Rightarrow> detector \<Rightarrow> orderflow_event list \<Rightarrow> detector \<times> orderflow_event list" where
  "observe_book b now d out =
     (let out = push_opt (detect_liquidity_gap Buy (bk_bids b) (dt_tick_size_paise d)) out;
          out = push_opt (detect_liquidity_gap Sell (bk_asks b) (dt_tick_size_paise d)) out;
          (d, out) = advance_spoofing b now d out;
          d = d\<lparr>dt_qty_history := rw_push (max (qty_of (top_bid b)) (qty_of (top_ask b))) (dt_qty_history d)\<rparr>;
          median = rolling_median_qty d; threshold = usat_mul median SPOOF_QTY_MULTIPLIER;
          d = (if median > 0 then register_large Sell threshold b now (register_large Buy threshold b now d) else d)
      in (d\<lparr>dt_last_top_bid := top_bid b, dt_last_top_ask := top_ask b\<rparr>, out))"

definition aggressor_side :: "i64 \<Rightarrow> live_book \<Rightarrow> side option" where
  "aggressor_side px b =
     (case top_ask b of
        None \<Rightarrow> None
      | Some ask \<Rightarrow> if px \<ge> lv_price_paise ask then Some Buy
          else (case top_bid b of None \<Rightarrow> None | Some bid \<Rightarrow> if px \<le> lv_price_paise bid then Some Sell else None))"

definition account_fill :: "i64 \<Rightarrow> u64 \<Rightarrow> pending_order \<Rightarrow> pending_order" where
  "account_fill px q p = (if po_price_paise p = px then p\<lparr>po_filled_qty := usat_add (po_filled_qty p) q\<rparr> else p)"

definition observe_trade :: "tick \<Rightarrow> live_book \<Rightarrow> detector \<Rightarrow> orderflow_event list \<Rightarrow> detector \<times> orderflow_event list" where
  "observe_trade t b d out =
     (if tk_ltq t = 0 then (d, out)
      else let out = (case aggressor_side (tk_ltp_paise t) b of
                 None \<Rightarrow> out
               | Some aggr \<Rightarrow> (case top_of (side_opposite aggr) b of
                     None \<Rightarrow> out
                   | Some level \<Rightarrow> if tk_ltq t > lv_qty level
                       then push_event (HiddenLiquidity (side_opposite aggr) (lv_price_paise level))
                              (push_event (Absorption (side_opposite aggr) (lv_price_paise level) (tk_ltq t)) out)
                       else out))
           in (d\<lparr>dt_pending := filter (\<lambda>p. po_filled_qty p < po_qty p) (map (account_fill (tk_ltp_paise t) (tk_ltq t)) (dt_pending d))\<rparr>, out))"

section \<open>Rolling delta and book metrics (metrics.rs)\<close>

definition LIQUIDITY_PRESSURE_DEPTH :: nat where "LIQUIDITY_PRESSURE_DEPTH = 5"
definition DEFAULT_ROLLING_DELTA_WINDOW_NS :: u64 where "DEFAULT_ROLLING_DELTA_WINDOW_NS = 30 * 1000000000"
definition ROLLING_DELTA_BUCKETS :: nat where "ROLLING_DELTA_BUCKETS = 300"

record delta_bucket =
  db_bucket_start_ns :: u64
  db_buyer_volume :: u64
  db_seller_volume :: u64

definition delta_bucket_default :: delta_bucket where
  "delta_bucket_default = \<lparr>db_bucket_start_ns = 0, db_buyer_volume = 0, db_seller_volume = 0\<rparr>"

record rolling_delta =
  rd_window_ns :: u64
  rd_bucket_size_ns :: u64
  rd_buckets :: "delta_bucket ring_window"
  rd_open :: delta_bucket
  rd_open_initialised :: bool

definition delta_with_window :: "u64 \<Rightarrow> rolling_delta" where
  "delta_with_window window = \<lparr>rd_window_ns = window, rd_bucket_size_ns = max (window div of_nat ROLLING_DELTA_BUCKETS) 1,
     rd_buckets = fresh_window ROLLING_DELTA_BUCKETS delta_bucket_default, rd_open = delta_bucket_default, rd_open_initialised = False\<rparr>"

definition delta_record :: "u64 \<Rightarrow> u64 \<Rightarrow> u64 \<Rightarrow> rolling_delta \<Rightarrow> rolling_delta" where
  "delta_record now buyer seller r =
     (let bucket_start = (now div rd_bucket_size_ns r) * rd_bucket_size_ns r;
          fresh = \<lparr>db_bucket_start_ns = bucket_start, db_buyer_volume = buyer, db_seller_volume = seller\<rparr>
      in if \<not> rd_open_initialised r then r\<lparr>rd_open := fresh, rd_open_initialised := True\<rparr>
         else if bucket_start = db_bucket_start_ns (rd_open r)
           then r\<lparr>rd_open := (rd_open r)\<lparr>db_buyer_volume := usat_add (db_buyer_volume (rd_open r)) buyer,
                                          db_seller_volume := usat_add (db_seller_volume (rd_open r)) seller\<rparr>\<rparr>
         else r\<lparr>rd_buckets := rw_push (rd_open r) (rd_buckets r), rd_open := fresh\<rparr>)"

text \<open>The \<open>u128\<close> total of the buckets from the cutoff on, which saturates, and its narrowing.\<close>

definition window_total :: "(delta_bucket \<Rightarrow> u64) \<Rightarrow> u64 \<Rightarrow> rolling_delta \<Rightarrow> nat" where
  "window_total vol now r =
     (let cutoff = usat_sub now (rd_window_ns r);
          add = (\<lambda>b total. if db_bucket_start_ns b \<ge> cutoff then min (total + unat (vol b)) (2 ^ 128 - 1) else total);
          total = fold add (rw_iter (rd_buckets r)) 0
      in if rd_open_initialised r then add (rd_open r) total else total)"

definition buyer_volume :: "u64 \<Rightarrow> rolling_delta \<Rightarrow> u64" where
  "buyer_volume now r = of_nat (min (window_total db_buyer_volume now r) 18446744073709551615)"

definition seller_volume :: "u64 \<Rightarrow> rolling_delta \<Rightarrow> u64" where
  "seller_volume now r = of_nat (min (window_total db_seller_volume now r) 18446744073709551615)"

definition signed_delta :: "u64 \<Rightarrow> rolling_delta \<Rightarrow> i64" where
  "signed_delta now r = sat_i64 (uint (buyer_volume now r) - uint (seller_volume now r))"

record orderflow_snapshot =
  os_symbol :: u32
  os_bid_ask_imbalance :: flt
  os_aggressive_buyer_volume :: u64
  os_aggressive_seller_volume :: u64
  os_rolling_delta :: i64
  os_liquidity_pressure :: flt
  os_events :: "orderflow_event list"

definition bid_ask_imbalance :: "live_book \<Rightarrow> flt" where
  "bid_ask_imbalance b =
     (let bid_qty = f64_of (uint (qty_of (top_bid b))); ask_qty = f64_of (uint (qty_of (top_ask b))); total = fadd F64 bid_qty ask_qty
      in if flt_le total (Fin 0) then Fin 0
         else flt_clamp (f64_to_f32 (fdiv F64 (fsub F64 bid_qty ask_qty) total)) (Fin (- 1)) (Fin 1))"

definition depth_sum :: "l2_level list \<Rightarrow> int" where
  "depth_sum ls = (\<Sum>l \<leftarrow> take LIQUIDITY_PRESSURE_DEPTH ls. uint (lv_qty l))"

definition liquidity_pressure :: "live_book \<Rightarrow> flt" where
  "liquidity_pressure b =
     (let bid_sum = depth_sum (bk_bids b); ask_sum = depth_sum (bk_asks b); total = bid_sum + ask_sum
      in if total = 0 then Fin 0
         else flt_clamp (f64_to_f32 (fdiv F64 (fsub F64 (f64_of bid_sum) (f64_of ask_sum)) (f64_of total))) (Fin (- 1)) (Fin 1))"

section \<open>Heatmap (heatmap.rs)\<close>

record heatmap_row =
  hr_bid_price_paise :: i64
  hr_bid_qty :: u64
  hr_ask_price_paise :: i64
  hr_ask_qty :: u64

definition heatmap_row_default :: heatmap_row where
  "heatmap_row_default = \<lparr>hr_bid_price_paise = 0, hr_bid_qty = 0, hr_ask_price_paise = 0, hr_ask_qty = 0\<rparr>"

record heatmap_snapshot =
  hs_symbol :: u32
  hs_ts_ns :: u64
  hs_rows :: "heatmap_row list"

definition heatmap_empty :: "u32 \<Rightarrow> heatmap_snapshot" where
  "heatmap_empty sy = \<lparr>hs_symbol = sy, hs_ts_ns = 0, hs_rows = replicate MAX_BOOK_LEVELS heatmap_row_default\<rparr>"

definition level_at :: "l2_level list \<Rightarrow> nat \<Rightarrow> i64 \<times> u64" where
  "level_at ls i = (if i < length ls then (lv_price_paise (ls ! i), lv_qty (ls ! i)) else (0, 0))"

definition heatmap_fill_from :: "live_book \<Rightarrow> u64 \<Rightarrow> heatmap_snapshot \<Rightarrow> heatmap_snapshot" where
  "heatmap_fill_from b ts s = s\<lparr>hs_ts_ns := ts, hs_rows := map (\<lambda>i.
     \<lparr>hr_bid_price_paise = fst (level_at (bk_bids b) i), hr_bid_qty = snd (level_at (bk_bids b) i),
      hr_ask_price_paise = fst (level_at (bk_asks b) i), hr_ask_qty = snd (level_at (bk_asks b) i)\<rparr>) [0..<MAX_BOOK_LEVELS]\<rparr>"

definition heatmap_from_book :: "u32 \<Rightarrow> live_book \<Rightarrow> u64 \<Rightarrow> heatmap_snapshot" where
  "heatmap_from_book sy b ts = heatmap_fill_from b ts (heatmap_empty sy)"

section \<open>The engine (engine.rs)\<close>

record orderflow_state =
  ot_symbol :: u32
  ot_book :: live_book
  ot_detector :: detector
  ot_delta :: rolling_delta
  ot_heatmap :: heatmap_snapshot

definition orderflow_state_with_window :: "u32 \<Rightarrow> u64 \<Rightarrow> orderflow_state" where
  "orderflow_state_with_window sy window = \<lparr>ot_symbol = sy, ot_book = live_book_new, ot_detector = detector_new,
     ot_delta = delta_with_window window, ot_heatmap = heatmap_empty sy\<rparr>"

definition orderflow_snapshot_of :: "u64 \<Rightarrow> orderflow_state \<Rightarrow> orderflow_event list \<Rightarrow> orderflow_snapshot" where
  "orderflow_snapshot_of now s events = \<lparr>os_symbol = ot_symbol s, os_bid_ask_imbalance = bid_ask_imbalance (ot_book s),
     os_aggressive_buyer_volume = buyer_volume now (ot_delta s), os_aggressive_seller_volume = seller_volume now (ot_delta s),
     os_rolling_delta = signed_delta now (ot_delta s), os_liquidity_pressure = liquidity_pressure (ot_book s), os_events = events\<rparr>"

definition state_ingest_book :: "l2_update \<Rightarrow> u64 \<Rightarrow> orderflow_state \<Rightarrow> orderflow_state \<times> orderflow_snapshot option" where
  "state_ingest_book u now s =
     (let (b, ok) = book_apply u (ot_book s); s = s\<lparr>ot_book := b\<rparr>
      in if \<not> ok then (s, None)
         else let s = s\<lparr>ot_heatmap := heatmap_from_book (ot_symbol s) b now\<rparr>;
                  (d, events) = observe_book b now (ot_detector s) []; s = s\<lparr>ot_detector := d\<rparr>
              in (s, Some (orderflow_snapshot_of now s events)))"

definition aggressor_volumes :: "tick \<Rightarrow> live_book \<Rightarrow> u64 \<times> u64" where
  "aggressor_volumes t b =
     (case top_ask b of Some ask \<Rightarrow> if tk_ltp_paise t \<ge> lv_price_paise ask then tk_ltq t else 0 | None \<Rightarrow> 0,
      case top_bid b of Some bid \<Rightarrow> if tk_ltp_paise t \<le> lv_price_paise bid then tk_ltq t else 0 | None \<Rightarrow> 0)"

definition state_ingest_tick :: "tick \<Rightarrow> u64 \<Rightarrow> orderflow_state \<Rightarrow> orderflow_state \<times> orderflow_snapshot" where
  "state_ingest_tick t now s =
     (let (buyer, seller) = aggressor_volumes t (ot_book s);
          s = (if buyer \<noteq> 0 \<or> seller \<noteq> 0 then s\<lparr>ot_delta := delta_record now buyer seller (ot_delta s)\<rparr> else s);
          (d, events) = observe_trade t (ot_book s) (ot_detector s) []; s = s\<lparr>ot_detector := d\<rparr>
      in (s, orderflow_snapshot_of now s events))"

record orderflow_engine =
  oe_inner :: "u32 \<rightharpoonup> orderflow_state"
  oe_window_ns :: u64
  oe_war_mode :: war_mode_profile

definition orderflow_engine_with_window :: "u64 \<Rightarrow> orderflow_engine" where
  "orderflow_engine_with_window window = \<lparr>oe_inner = (\<lambda>_. None), oe_window_ns = window, oe_war_mode = wp_inactive\<rparr>"

definition orderflow_engine_new :: orderflow_engine where
  "orderflow_engine_new = orderflow_engine_with_window DEFAULT_ROLLING_DELTA_WINDOW_NS"

definition state_or_new :: "u32 \<Rightarrow> orderflow_engine \<Rightarrow> orderflow_state" where
  "state_or_new sy e = (case oe_inner e sy of Some s \<Rightarrow> s | None \<Rightarrow> orderflow_state_with_window sy (oe_window_ns e))"

definition ensure_symbol :: "u32 \<Rightarrow> orderflow_engine \<Rightarrow> orderflow_engine" where
  "ensure_symbol sy e = e\<lparr>oe_inner := (oe_inner e)(sy \<mapsto> state_or_new sy e)\<rparr>"

definition current_heatmap :: "u32 \<Rightarrow> orderflow_engine \<Rightarrow> heatmap_snapshot option" where
  "current_heatmap sy e = map_option ot_heatmap (oe_inner e sy)"

definition engine_ingest_book :: "l2_update \<Rightarrow> u64 \<Rightarrow> orderflow_engine \<Rightarrow> orderflow_engine \<times> orderflow_snapshot option" where
  "engine_ingest_book u now e =
     (let (s, r) = state_ingest_book u now (state_or_new (up_symbol u) e) in (e\<lparr>oe_inner := (oe_inner e)(up_symbol u \<mapsto> s)\<rparr>, r))"

definition engine_ingest_tick :: "tick \<Rightarrow> u64 \<Rightarrow> orderflow_engine \<Rightarrow> orderflow_engine \<times> orderflow_snapshot" where
  "engine_ingest_tick t now e =
     (let (s, r) = state_ingest_tick t now (state_or_new (tk_symbol t) e) in (e\<lparr>oe_inner := (oe_inner e)(tk_symbol t \<mapsto> s)\<rparr>, r))"

text \<open>The factor that detectors are meant to scale their thresholds with (\<open>war_mode.rs\<close>).\<close>

definition sensitivity_factor :: "war_mode_profile \<Rightarrow> flt" where
  "sensitivity_factor p = (if wp_active p then if flt_lt (Fin 0) (wp_scan_multiplier p) then wp_scan_multiplier p else Fin 1 else Fin 1)"

section \<open>The binary (bin/main.rs)\<close>

datatype orderflow_message = HeatmapMsg string heatmap_snapshot | FlowEventMsg string orderflow_event

definition book_of_json :: "'v json_api \<Rightarrow> u32 \<Rightarrow> u64 \<Rightarrow> 'v \<Rightarrow> l2_update" where
  "book_of_json js sy default_ts data =
     (let bid_paise = opt_or (js_field js (js_as_i64 js) data ''bid_paise'') 0; bid_qty = opt_or (js_field js (js_as_u64 js) data ''bid_qty'') 0;
          ask_paise = opt_or (js_field js (js_as_i64 js) data ''ask_paise'') 0; ask_qty = opt_or (js_field js (js_as_u64 js) data ''ask_qty'') 0
      in \<lparr>up_correlation_id = replicate 16 0, up_symbol = sy, up_exchange = 0,
          up_bid_levels = (if bid_qty > 0 then [\<lparr>lv_price_paise = bid_paise, lv_qty = bid_qty, lv_orders = 1\<rparr>] else []),
          up_ask_levels = (if ask_qty > 0 then [\<lparr>lv_price_paise = ask_paise, lv_qty = ask_qty, lv_orders = 1\<rparr>] else []),
          up_ts_ns = opt_or (js_field js (js_as_u64 js) data ''ts_ns'') default_ts\<rparr>)"

type_synonym orderflow_sys = "orderflow_engine \<times> orderflow_message list"

definition publish_flow :: "u32 \<Rightarrow> orderflow_snapshot \<Rightarrow> orderflow_sys \<Rightarrow> orderflow_sys" where
  "publish_flow sy snap x =
     (case x of (e, out) \<Rightarrow> (e, out @ (case current_heatmap sy e of Some h \<Rightarrow> [HeatmapMsg (of_heatmap sy) h] | None \<Rightarrow> [])
        @ map (FlowEventMsg (of_event sy)) (os_events snap)))"

text \<open>One envelope of \<open>md.book.>\<close>, with the two readings of the clock it may take.\<close>

definition handle_book :: "'v json_api \<Rightarrow> u64 \<times> u64 \<Rightarrow> 'v \<Rightarrow> orderflow_sys \<Rightarrow> orderflow_sys" where
  "handle_book js now envelope x =
     (case x of (e, out) \<Rightarrow>
        case js_get js envelope ''data'' of
          None \<Rightarrow> x
        | Some data \<Rightarrow> (case js_field js (js_as_str js) data ''symbol'' of
              None \<Rightarrow> x
            | Some symbol_str \<Rightarrow>
                let sy = symbol_id_for symbol_str
                in if sy = 0 then x
                   else let (e, r) = engine_ingest_book (book_of_json js sy (fst now) data) (snd now) e
                        in (case r of None \<Rightarrow> (e, out) | Some snap \<Rightarrow> publish_flow sy snap (e, out))))"

definition decode_tick_77 :: "u8 list \<Rightarrow> tick option" where
  "decode_tick_77 bs =
     (if length bs \<noteq> 77 then None
      else Some \<lparr>tk_correlation_id = replicate 16 0, tk_symbol = read_u32 16 bs, tk_exchange = bs ! 20, tk_ltp_paise = read_i64 21 bs,
        tk_bid_paise = read_i64 29 bs, tk_ask_paise = read_i64 37 bs, tk_ltq = read_u64 45 bs, tk_total_buy_qty = read_u64 53 bs,
        tk_total_sell_qty = read_u64 61 bs, tk_ts_exchange_ns = read_u64 69 bs, tk_ts_recv_ns = read_u64 69 bs\<rparr>)"

definition handle_tick_payload :: "u8 list \<Rightarrow> orderflow_sys \<Rightarrow> orderflow_sys" where
  "handle_tick_payload bs x =
     (case x of (e, out) \<Rightarrow> case decode_tick_77 bs of
        None \<Rightarrow> x
      | Some t \<Rightarrow> let (e, snap) = engine_ingest_tick t (tk_ts_recv_ns t) e in publish_flow (tk_symbol t) snap (e, out))"

text \<open>The two loops share the engine's mutex, so the run is a sequence of receptions; the first failed one ends the process.\<close>

datatype 'v orderflow_reception = BookRecv "u64 \<times> u64" 'v | TickRecv "u8 list" | RecvErr bus_error

fun orderflow_service :: "'v json_api \<Rightarrow> 'v orderflow_reception list \<Rightarrow> orderflow_sys \<Rightarrow> orderflow_sys" where
  "orderflow_service js [] x = x"
| "orderflow_service js (BookRecv now v # rs) x = orderflow_service js rs (handle_book js now v x)"
| "orderflow_service js (TickRecv bs # rs) x = orderflow_service js rs (handle_tick_payload bs x)"
| "orderflow_service js (RecvErr e # rs) x = x"

end
