(* ===== verification/Orderflow_Facts.thy ===== *)
theory Orderflow_Facts
  imports Orderflow Feature_Facts
begin

text \<open>
  Theorems about the Orderflow_Engine (\<open>Orderflow\<close>): books under reordering, the rolling delta against the trades it records, the
  spoofing detector against its history, the ranges of the metrics, and what the deployed service does with its inputs.
\<close>

section \<open>The book\<close>

lemma push_all_levels: "length xs + length ls \<le> n \<Longrightarrow> fold (\<lambda>l xs. fst (try_push n l xs)) ls xs = xs @ ls"
  by (induction ls arbitrary: xs) (auto simp: try_push_def)

lemma push_levels_take: "push_levels ls = take MAX_BOOK_LEVELS ls"
  unfolding push_levels_def by (subst push_all_levels) simp_all

text \<open>What an accepted update leaves.\<close>

definition book_after :: "l2_update \<Rightarrow> live_book" where
  "book_after u = \<lparr>bk_bids = take 20 (up_bid_levels u), bk_asks = take 20 (up_ask_levels u), bk_last_seq = up_ts_ns u\<rparr>"

lemma book_apply_eq: "book_apply u b = (if up_ts_ns u \<le> bk_last_seq b \<and> bk_last_seq b \<noteq> 0 then (b, False) else (book_after u, True))"
  by (simp add: book_apply_def push_levels_take book_after_def MAX_BOOK_LEVELS_def)

lemma book_newest:
  assumes "us \<noteq> []" "\<forall>u \<in> set us. up_ts_ns u \<noteq> 0"
  shows "\<exists>u \<in> set us. (\<forall>v \<in> set us. up_ts_ns v \<le> up_ts_ns u) \<and> fold (\<lambda>u b. fst (book_apply u b)) us live_book_new = book_after u"
  using assms
proof (induction us rule: rev_induct)
  case (snoc x us)
  show ?case
  proof (cases "us = []")
    case True
    then show ?thesis by (simp add: book_apply_eq live_book_new_def)
  next
    case False
    with snoc obtain u where u: "u \<in> set us" "\<forall>v \<in> set us. up_ts_ns v \<le> up_ts_ns u"
      "fold (\<lambda>u b. fst (book_apply u b)) us live_book_new = book_after u" by auto
    have "up_ts_ns u \<noteq> 0" using snoc.prems(2) u(1) by simp
    then show ?thesis using u by (cases "up_ts_ns x \<le> up_ts_ns u") (auto simp: book_apply_eq book_after_def)
  qed
qed simp

section \<open>The engine as independent symbols\<close>

text \<open>A run of the engine: book updates and ticks, each with the engine's time.\<close>

datatype flow_input = FlowBook l2_update u64 | FlowTick tick u64

fun flow_step :: "flow_input \<Rightarrow> orderflow_engine \<Rightarrow> orderflow_engine" where
  "flow_step (FlowBook u now) e = fst (engine_ingest_book u now e)"
| "flow_step (FlowTick t now) e = fst (engine_ingest_tick t now e)"

fun updates_of :: "u32 \<Rightarrow> flow_input \<Rightarrow> l2_update list" where
  "updates_of sy (FlowBook u now) = (if up_symbol u = sy then [u] else [])"
| "updates_of sy (FlowTick t now) = []"

definition flow_rows :: "live_book \<Rightarrow> heatmap_row list" where
  "flow_rows b = hs_rows (heatmap_from_book 0 b 0)"

text \<open>The book of a symbol is the fold of its own updates, and its heatmap shows that book.\<close>

definition flow_tracks :: "u32 \<Rightarrow> l2_update list \<Rightarrow> orderflow_engine \<Rightarrow> bool" where
  "flow_tracks sy us e \<longleftrightarrow> ot_book (state_or_new sy e) = fold (\<lambda>u b. fst (book_apply u b)) us live_book_new
     \<and> hs_rows (ot_heatmap (state_or_new sy e)) = flow_rows (ot_book (state_or_new sy e))"

lemma state_ingest_book_book:
  "state_ingest_book u now s = (s', r) \<Longrightarrow> ot_book s' = fst (book_apply u (ot_book s))
     \<and> (hs_rows (ot_heatmap s) = flow_rows (ot_book s) \<longrightarrow> hs_rows (ot_heatmap s') = flow_rows (ot_book s'))"
  by (auto simp: state_ingest_book_def book_apply_eq Let_def flow_rows_def heatmap_from_book_def heatmap_fill_from_def split: prod.splits if_splits)

lemma state_ingest_tick_book: "state_ingest_tick t now s = (s', r) \<Longrightarrow> ot_book s' = ot_book s \<and> ot_heatmap s' = ot_heatmap s"
  by (auto simp: state_ingest_tick_def Let_def split: prod.splits if_splits)

lemma state_or_new_update: "state_or_new sy (e\<lparr>oe_inner := (oe_inner e)(k \<mapsto> s)\<rparr>) = (if sy = k then s else state_or_new sy e)"
  by (simp add: state_or_new_def split: option.split)

lemma flow_step_tracks: "flow_tracks sy us e \<Longrightarrow> flow_tracks sy (us @ updates_of sy i) (flow_step i e)"
proof (cases i)
  case (FlowBook u now)
  obtain s r where s: "state_ingest_book u now (state_or_new (up_symbol u) e) = (s, r)" by fastforce
  assume "flow_tracks sy us e"
  then show ?thesis using state_ingest_book_book [OF s] s FlowBook by (auto simp: flow_tracks_def engine_ingest_book_def state_or_new_update)
next
  case (FlowTick t now)
  obtain s r where s: "state_ingest_tick t now (state_or_new (tk_symbol t) e) = (s, r)" by fastforce
  assume "flow_tracks sy us e"
  then show ?thesis using state_ingest_tick_book [OF s] s FlowTick by (auto simp: flow_tracks_def engine_ingest_tick_def state_or_new_update)
qed

lemma flow_run_tracks: "flow_tracks sy us e \<Longrightarrow> flow_tracks sy (us @ concat (map (updates_of sy) is)) (fold flow_step is e)"
proof (induction "is" arbitrary: us e)
  case (Cons i rest)
  then show ?case using Cons.IH [OF flow_step_tracks [OF Cons.prems]] by simp
qed simp

lemma flow_new_tracks: "flow_tracks sy [] (orderflow_engine_with_window window)"
  by (simp add: flow_tracks_def state_or_new_def orderflow_engine_with_window_def orderflow_state_with_window_def flow_rows_def heatmap_from_book_def
      heatmap_fill_from_def heatmap_empty_def live_book_new_def level_at_def heatmap_row_default_def map_replicate_const)

text \<open>The engine shows the newest book of every symbol. After any interleaving of book updates and ticks of any symbols, a
  symbol's book is the update with the greatest exchange time among its own (at most twenty levels a side), in
  whatever order the updates arrived and whatever happened to other symbols, and its heatmap shows exactly that book.
  Timestamps are distinct and not zero.\<close>

theorem book_is_newest_update:
  assumes "concat (map (updates_of sy) inputs) = us" and "distinct (map up_ts_ns us)" and "\<forall>u \<in> set us. up_ts_ns u \<noteq> 0"
    and "u \<in> set us" and "\<forall>v \<in> set us. up_ts_ns v \<le> up_ts_ns u"
  shows "\<exists>s. oe_inner (fold flow_step inputs (orderflow_engine_with_window window)) sy = Some s
    \<and> ot_book s = book_after u \<and> hs_rows (ot_heatmap s) = hs_rows (heatmap_from_book sy (book_after u) 0)"
proof -
  let ?e = "fold flow_step inputs (orderflow_engine_with_window window)"
  have t: "flow_tracks sy us ?e" using flow_run_tracks [OF flow_new_tracks, of sy inputs window] assms(1) by simp
  have "us \<noteq> []" using assms(4) by auto
  from book_newest [OF this assms(3)] obtain w where w: "w \<in> set us" "\<forall>v \<in> set us. up_ts_ns v \<le> up_ts_ns w"
    "fold (\<lambda>u b. fst (book_apply u b)) us live_book_new = book_after w" by blast
  have "up_ts_ns u = up_ts_ns w" using w(1,2) assms(4,5) by (meson order_antisym)
  then have "w = u" using assms(2,4) w(1) by (auto simp: distinct_map dest: inj_onD)
  then have b: "ot_book (state_or_new sy ?e) = book_after u" "hs_rows (ot_heatmap (state_or_new sy ?e)) = flow_rows (book_after u)"
    using t w(3) by (simp_all add: flow_tracks_def)
  have "book_after u \<noteq> live_book_new" using assms(3,4) by (auto simp: book_after_def live_book_new_def)
  then obtain s where "oe_inner ?e sy = Some s" using b(1) by (auto simp: state_or_new_def orderflow_state_with_window_def split: option.splits)
  with b show ?thesis by (simp add: state_or_new_def flow_rows_def heatmap_from_book_def heatmap_fill_from_def)
qed

section \<open>The deployed service\<close>

fun is_spoofing :: "orderflow_event \<Rightarrow> bool" where
  "is_spoofing (Spoofing _ _ _) = True"
| "is_spoofing (LiquidityGap _ _ _) = False"
| "is_spoofing (Absorption _ _ _) = False"
| "is_spoofing (HiddenLiquidity _ _) = False"

lemma push_event_set: "x \<in> set (push_event e out) \<Longrightarrow> x = e \<or> x \<in> set out"
  by (auto simp: push_event_def try_push_def split: if_splits)

text \<open>The events of the spoofing pass, each with the candidate it is about.\<close>

definition spoofs :: "live_book \<Rightarrow> u64 \<Rightarrow> pending_order \<Rightarrow> bool" where
  "spoofs b now p \<longleftrightarrow> \<not> still_present p b \<and> usat_sub now (po_placed_ts_ns p) \<le> SPOOF_WINDOW_NS \<and> po_filled_qty p < po_qty p div 4"

definition spoof_event :: "pending_order \<Rightarrow> orderflow_event" where
  "spoof_event p = Spoofing (po_side p) (po_price_paise p) (spoof_evidence p)"

lemma advance_loop_Cons:
  "advance_loop b now (p # ps) out =
     (if spoofs b now p then advance_loop b now ps (push_event (spoof_event p) out)
      else if usat_sub now (po_placed_ts_ns p) > SPOOF_WINDOW_NS then advance_loop b now ps out
      else (p # fst (advance_loop b now ps out), snd (advance_loop b now ps out)))"
  by (simp add: spoofs_def spoof_event_def Let_def split_beta)

declare advance_loop.simps(2) [simp del]

lemma advance_loop_events: "e \<in> set (snd (advance_loop b now ps out)) \<Longrightarrow> e \<in> set out \<or> (\<exists>p \<in> set ps. spoofs b now p \<and> e = spoof_event p)"
proof (induction ps arbitrary: out)
  case (Cons p ps)
  then show ?case using Cons.IH [of "push_event (spoof_event p) out"] Cons.IH [of out]
    by (fastforce simp: advance_loop_Cons dest: push_event_set split: if_splits)
qed simp

lemma advance_loop_kept: "set (fst (advance_loop b now ps out)) \<subseteq> set ps" "length (fst (advance_loop b now ps out)) \<le> length ps"
  by (induction ps arbitrary: out) (auto simp: advance_loop_Cons le_SucI dest!: subsetD)

lemma is_spoofing_event [simp]: "is_spoofing (spoof_event p)"
  by (simp add: spoof_event_def)

lemma single_level_no_gap: "length ls \<le> 1 \<Longrightarrow> detect_liquidity_gap s ls n = None"
  by (auto simp: detect_liquidity_gap_def split: list.split)

lemma observe_book_out:
  "snd (observe_book b now d out) = snd (advance_loop b now (dt_pending d)
     (push_opt (detect_liquidity_gap Sell (bk_asks b) (dt_tick_size_paise d)) (push_opt (detect_liquidity_gap Buy (bk_bids b) (dt_tick_size_paise d)) out)))"
  by (simp add: observe_book_def advance_spoofing_def Let_def split_beta)

lemma single_level_spoofs:
  assumes "length (bk_bids b) \<le> 1" "length (bk_asks b) \<le> 1" "e \<in> set (snd (observe_book b now d []))"
  shows "is_spoofing e"
  using assms advance_loop_events [of e b now "dt_pending d" "[]"] by (auto simp: observe_book_out single_level_no_gap push_opt_def)

fun spoof_or_map :: "orderflow_message \<Rightarrow> bool" where
  "spoof_or_map (HeatmapMsg _ _) = True"
| "spoof_or_map (FlowEventMsg _ e) = is_spoofing e"

lemma json_book_spoofs:
  assumes "state_ingest_book (book_of_json js sy t data) n s = (s', Some snap)" "x \<in> set (os_events snap)"
  shows "is_spoofing x"
proof -
  let ?b = "book_after (book_of_json js sy t data)"
  have "os_events snap = snd (observe_book ?b n (ot_detector s) [])"
    using assms(1) by (auto simp: state_ingest_book_def book_apply_eq orderflow_snapshot_of_def Let_def split_beta split: if_splits)
  then show ?thesis using assms(2) single_level_spoofs [of ?b x n "ot_detector s"] by (simp add: book_after_def book_of_json_def Let_def)
qed

lemma publish_flow_out:
  "m \<in> set (snd (publish_flow sy snap (e, out))) \<Longrightarrow> m \<in> set out \<or> (\<exists>h. m = HeatmapMsg (of_heatmap sy) h) \<or> (\<exists>x \<in> set (os_events snap). m = FlowEventMsg (of_event sy) x)"
  by (auto simp: publish_flow_def split: option.splits)

lemma handle_book_cases:
  "handle_book js now v (e, out) = (e, out)
   \<or> (\<exists>sy data s' r. state_ingest_book (book_of_json js sy (fst now) data) (snd now) (state_or_new sy e) = (s', r)
        \<and> handle_book js now v (e, out) = (let e' = e\<lparr>oe_inner := (oe_inner e)(sy \<mapsto> s')\<rparr> in case r of None \<Rightarrow> (e', out) | Some snap \<Rightarrow> publish_flow sy snap (e', out)))"
proof -
  have [simp]: "up_symbol (book_of_json js sy t data) = sy" for sy t data by (simp add: book_of_json_def Let_def)
  show ?thesis
    by (auto simp: handle_book_def engine_ingest_book_def Let_def split: option.splits prod.split) (metis surj_pair)?
qed

lemma handle_book_spoofs:
  assumes "\<forall>m \<in> set out. spoof_or_map m"
  shows "\<forall>m \<in> set (snd (handle_book js now v (e, out))). spoof_or_map m"
  using handle_book_cases [of js now v e out]
proof (elim disjE exE conjE)
  fix sy data s' r
  let ?e = "e\<lparr>oe_inner := (oe_inner e)(sy \<mapsto> s')\<rparr>"
  assume s: "state_ingest_book (book_of_json js sy (fst now) data) (snd now) (state_or_new sy e) = (s', r)"
    and h: "handle_book js now v (e, out) = (let e' = ?e in case r of None \<Rightarrow> (e', out) | Some snap \<Rightarrow> publish_flow sy snap (e', out))"
  show ?thesis
  proof (cases r)
    case (Some snap)
    then have "\<forall>x \<in> set (os_events snap). is_spoofing x" using json_book_spoofs [OF s [unfolded Some]] by simp
    then show ?thesis using assms Some h by (auto simp: Let_def dest!: publish_flow_out)
  qed (use assms h in \<open>simp add: Let_def\<close>)
qed (use assms in simp)

fun tick_recv :: "'v orderflow_reception \<Rightarrow> bool" where
  "tick_recv (TickRecv _) = True"
| "tick_recv (BookRecv _ _) = False"
| "tick_recv (RecvErr _) = False"

definition wire_ticks_only :: "'v orderflow_reception list \<Rightarrow> bool" where
  "wire_ticks_only rs \<longleftrightarrow> (\<forall>bs. TickRecv bs \<in> set rs \<longrightarrow> (\<exists>t. tick_ok t \<and> bs = tick_to_raw_bytes t))"

lemma wire_tick_skipped: "tick_ok t \<Longrightarrow> handle_tick_payload (tick_to_raw_bytes t) x = x"
  by (cases x) (simp add: handle_tick_payload_def decode_tick_77_def tick_to_raw_bytes_def tick_ok_def)

text \<open>The deployed Orderflow_Engine sees no trades. The tick loop accepts payloads of 77 bytes only, and a tick on the wire has 85: for
  any run whose tick payloads are encoded ticks, the service behaves as if they had not arrived. Since the book loop passes
  one level a side, every event it publishes is a spoofing event: absorption, hidden liquidity and liquidity
  gaps are never reported.\<close>

theorem deployed_orderflow_ignores_ticks:
  assumes "wire_ticks_only rs" and "\<forall>m \<in> set out. spoof_or_map m"
  shows "orderflow_service js rs (e, out) = orderflow_service js (filter (\<lambda>r. \<not> tick_recv r) rs) (e, out)
    \<and> (\<forall>m \<in> set (snd (orderflow_service js rs (e, out))). spoof_or_map m)"
  using assms
proof (induction rs arbitrary: e out)
  case (Cons r rs)
  show ?case
  proof (cases r)
    case (BookRecv now v)
    obtain e' out' where h: "handle_book js now v (e, out) = (e', out')" by fastforce
    then show ?thesis using Cons.IH [of out' e'] Cons.prems handle_book_spoofs [OF Cons.prems(2), of js now v e] BookRecv
      by (simp add: wire_ticks_only_def)
  next
    case (TickRecv bs)
    then obtain t where "tick_ok t" "bs = tick_to_raw_bytes t" using Cons.prems(1) by (auto simp: wire_ticks_only_def)
    then show ?thesis using Cons.IH [of out e] Cons.prems TickRecv by (simp add: wire_ticks_only_def wire_tick_skipped)
  next
    case (RecvErr err)
    then show ?thesis using Cons.prems by simp
  qed
qed simp

section \<open>The spoofing detector against its history\<close>

text \<open>What a detector has seen: the books it observed, with the times, oldest first.\<close>

datatype sighting = SawBook live_book u64 | SawTrade tick live_book

fun detector_step :: "sighting \<Rightarrow> detector \<Rightarrow> detector" where
  "detector_step (SawBook b now) d = fst (observe_book b now d [])"
| "detector_step (SawTrade t b) d = fst (observe_trade t b d [])"

text \<open>A candidate goes back to a book it was the best quote of.\<close>

definition placed_in :: "sighting list \<Rightarrow> pending_order \<Rightarrow> bool" where
  "placed_in h p \<longleftrightarrow> (\<exists>b. SawBook b (po_placed_ts_ns p) \<in> set h
     \<and> (\<exists>l. top_of (po_side p) b = Some l \<and> lv_price_paise l = po_price_paise p \<and> lv_qty l = po_qty p))"

definition distinct_quotes :: "pending_order list \<Rightarrow> bool" where
  "distinct_quotes ps \<longleftrightarrow> distinct (map (\<lambda>p. (po_side p, po_price_paise p)) ps)"

definition detector_ok :: "sighting list \<Rightarrow> detector \<Rightarrow> bool" where
  "detector_ok h d \<longleftrightarrow> length (dt_pending d) \<le> SPOOF_PENDING_CAPACITY \<and> distinct_quotes (dt_pending d) \<and> (\<forall>p \<in> set (dt_pending d). placed_in h p)"

lemma advance_loop_distinct: "distinct_quotes ps \<Longrightarrow> distinct_quotes (fst (advance_loop b now ps out))"
proof (induction ps arbitrary: out)
  case (Cons p ps)
  then show ?case using advance_loop_kept(1) [of b now ps out] by (fastforce simp: distinct_quotes_def advance_loop_Cons)
qed simp

lemma advance_spoofing_ok: "detector_ok h d \<Longrightarrow> detector_ok h (fst (advance_spoofing b now d out))"
  using advance_loop_kept [of b now "dt_pending d" out] advance_loop_distinct [of "dt_pending d" b now out]
  by (fastforce simp: detector_ok_def advance_spoofing_def split_beta)

lemma oldest_from_range: "best < i + length ps \<or> ps = [] \<Longrightarrow> best \<le> i \<Longrightarrow> oldest_from i best ts ps < i + length ps \<or> oldest_from i best ts ps = best"
  by (induction i best ts ps rule: oldest_from.induct) auto

lemma oldest_from_less: "ps \<noteq> [] \<Longrightarrow> oldest_from 0 0 ts ps < length ps"
  using oldest_from_range [of 0 0 ps ts] by auto

lemma try_register_ok:
  assumes "detector_ok h d" "SawBook b now \<in> set h" "top_of s b = Some l"
  shows "detector_ok h (try_register_pending s l now d)"
proof (cases "\<exists>p \<in> set (dt_pending d). po_side p = s \<and> po_price_paise p = lv_price_paise l")
  case True
  then show ?thesis using assms(1) by (simp add: try_register_pending_def)
next
  case False
  let ?ps = "dt_pending d" and ?k = "oldest_from 0 0 (- 1) (dt_pending d)"
  let ?p = "\<lparr>po_side = s, po_price_paise = lv_price_paise l, po_qty = lv_qty l, po_placed_ts_ns = now, po_filled_qty = 0\<rparr>"
  have ok: "length ?ps \<le> SPOOF_PENDING_CAPACITY" "distinct_quotes ?ps" "\<forall>p \<in> set ?ps. placed_in h p" using assms(1) by (simp_all add: detector_ok_def)
  have new: "placed_in h ?p" using assms(2,3) by (auto simp: placed_in_def)
  show ?thesis
  proof (cases "length ?ps < SPOOF_PENDING_CAPACITY")
    case True
    then have "try_register_pending s l now d = d\<lparr>dt_pending := ?ps @ [?p]\<rparr>" using False by (simp add: try_register_pending_def try_push_def Let_def)
    then show ?thesis using ok new True False by (auto simp: detector_ok_def distinct_quotes_def)
  next
    case full: False
    then have "?k < length ?ps" by (intro oldest_from_less) (auto simp: SPOOF_PENDING_CAPACITY_def)
    moreover have eq: "try_register_pending s l now d = d\<lparr>dt_pending := ?ps[?k := ?p]\<rparr>"
      unfolding try_register_pending_def if_not_P [OF False] using full by (simp add: try_push_def Let_def)
    moreover have "distinct_quotes (?ps[?k := ?p])"
      using ok(2) False unfolding distinct_quotes_def map_update by (intro distinct_list_update) (auto simp: image_iff)
    moreover have "\<forall>p \<in> set (?ps[?k := ?p]). placed_in h p" using ok(3) new set_update_subset_insert [of ?ps ?k ?p] by blast
    ultimately show ?thesis using ok(1) by (simp add: detector_ok_def)
  qed
qed

lemma register_large_ok: "detector_ok h d \<Longrightarrow> SawBook b now \<in> set h \<Longrightarrow> detector_ok h (register_large s threshold b now d)"
  by (auto simp: register_large_def try_register_ok split: option.split)

lemma detector_ok_mono: "detector_ok h d \<Longrightarrow> set h \<subseteq> set h' \<Longrightarrow> detector_ok h' d"
  unfolding detector_ok_def placed_in_def by blast

lemma detector_ok_frame: "dt_pending d' = dt_pending d \<Longrightarrow> detector_ok h d \<Longrightarrow> detector_ok h d'"
  by (simp add: detector_ok_def)

lemma observe_book_ok: "detector_ok h d \<Longrightarrow> detector_ok (h @ [SawBook b now]) (fst (observe_book b now d out))"
proof -
  assume "detector_ok h d"
  then have ok: "detector_ok (h @ [SawBook b now]) d" by (rule detector_ok_mono) auto
  define out' where "out' = push_opt (detect_liquidity_gap Sell (bk_asks b) (dt_tick_size_paise d)) (push_opt (detect_liquidity_gap Buy (bk_bids b) (dt_tick_size_paise d)) out)"
  define d1 where "d1 = (fst (advance_spoofing b now d out'))\<lparr>dt_qty_history :=
    rw_push (max (qty_of (top_bid b)) (qty_of (top_ask b))) (dt_qty_history (fst (advance_spoofing b now d out')))\<rparr>"
  define n where "n = usat_mul (rolling_median_qty d1) SPOOF_QTY_MULTIPLIER"
  define d2 where "d2 = (if rolling_median_qty d1 > 0 then register_large Sell n b now (register_large Buy n b now d1) else d1)"
  have "detector_ok (h @ [SawBook b now]) d1" using advance_spoofing_ok [OF ok, of b now out'] by (simp add: d1_def detector_ok_frame)
  then have "detector_ok (h @ [SawBook b now]) d2" unfolding d2_def by (simp add: register_large_ok)
  moreover have "fst (observe_book b now d out) = d2\<lparr>dt_last_top_bid := top_bid b, dt_last_top_ask := top_ask b\<rparr>"
    by (simp add: observe_book_def split_beta d1_def d2_def n_def out'_def Let_def)
  ultimately show ?thesis by (simp add: detector_ok_frame)
qed

lemma account_fill_keeps [simp]:
  "po_side (account_fill px q p) = po_side p" "po_price_paise (account_fill px q p) = po_price_paise p" "po_qty (account_fill px q p) = po_qty p"
  "po_placed_ts_ns (account_fill px q p) = po_placed_ts_ns p"
  by (simp_all add: account_fill_def)

lemma distinct_quotes_account: "distinct_quotes ps \<Longrightarrow> distinct_quotes (filter P (map (account_fill px q) ps))"
  by (induction ps) (auto simp: distinct_quotes_def)

lemma observe_trade_ok: "detector_ok h d \<Longrightarrow> detector_ok h (fst (observe_trade t b d out))"
proof -
  assume ok: "detector_ok h d"
  let ?ps = "filter (\<lambda>p. po_filled_qty p < po_qty p) (map (account_fill (tk_ltp_paise t) (tk_ltq t)) (dt_pending d))"
  have "length ?ps \<le> SPOOF_PENDING_CAPACITY"
    by (rule order_trans [OF length_filter_le]) (use ok in \<open>simp add: detector_ok_def\<close>)
  then have "detector_ok h (d\<lparr>dt_pending := ?ps\<rparr>)"
    using ok distinct_quotes_account [of "dt_pending d"] by (auto simp: detector_ok_def placed_in_def)
  then show ?thesis using ok by (simp add: observe_trade_def Let_def)
qed

lemma detector_run_ok: "detector_ok h0 d \<Longrightarrow> detector_ok (h0 @ h) (fold detector_step h d)"
proof (induction h arbitrary: h0 d)
  case (Cons x h)
  have "detector_ok (h0 @ [x]) (detector_step x d)"
    using Cons.prems by (cases x) (auto intro: observe_book_ok detector_ok_mono [OF observe_trade_ok])
  from Cons.IH [OF this] show ?case by simp
qed simp

lemma detector_new_ok: "detector_ok [] detector_new"
  by (simp add: detector_ok_def detector_new_def detector_with_tick_size_def distinct_quotes_def)

section \<open>Ranges of the metrics\<close>

lemma rnd_finite:
  assumes "\<bar>q\<bar> \<le> 2 ^ 100"
  shows "rnd fmt q = Fin (rnd_rat fmt q)"
proof -
  have big: "rnd_rat fmt (2 ^ 100) = 2 ^ 100"
    using prec_ge [of fmt] emin_le [of fmt] pow2_mono [of 0 "prec fmt"] by (intro rnd_rat_exact [where k = 1 and e = 100]) simp_all
  have "rnd_rat fmt q \<le> 2 ^ 100" "- (2 ^ 100) \<le> rnd_rat fmt q"
    using rnd_rat_mono [of q "2 ^ 100" fmt] rnd_rat_mono [of "- (2 ^ 100)" q fmt] rnd_rat_minus [of fmt "2 ^ 100"] big assms by auto
  moreover have "(2 :: rat) ^ 100 \<le> ftop fmt" by (cases fmt) simp_all
  ultimately show ?thesis by (simp add: rnd_def Let_def del: ftop.simps)
qed

lemma count_float:
  assumes "0 \<le> n" "n \<le> 2 ^ 90"
  shows "flt_of_int fmt n = Fin (rnd_rat fmt (of_int n))" "0 \<le> rnd_rat fmt (of_int n)" "0 < n \<Longrightarrow> 1 \<le> rnd_rat fmt (of_int n)"
    "rnd_rat fmt (of_int n) \<le> 2 ^ 90"
proof -
  have le: "(of_int n :: rat) \<le> 2 ^ 90" using assms(2) by (metis of_int_le_iff of_int_numeral of_int_power)
  then show "flt_of_int fmt n = Fin (rnd_rat fmt (of_int n))" unfolding flt_of_int_def using assms(1) by (intro rnd_finite) simp
  show "0 \<le> rnd_rat fmt (of_int n)" using assms(1) by (intro rnd_rat_nonneg) simp
  have "rnd_rat fmt (2 ^ 90) = 2 ^ 90"
    using prec_ge [of fmt] emin_le [of fmt] pow2_mono [of 0 "prec fmt"] by (intro rnd_rat_exact [where k = 1 and e = 90]) simp_all
  then show "rnd_rat fmt (of_int n) \<le> 2 ^ 90" using rnd_rat_mono [OF le, of fmt] by simp
  have "rnd_rat fmt 1 = 1" using rnd_rat_int [of 1 fmt] pow2_mono [of 0 "prec fmt"] prec_ge [of fmt] by simp
  then show "1 \<le> rnd_rat fmt (of_int n)" if "0 < n" using rnd_rat_mono [of 1 "of_int n" fmt] that by simp
qed

definition unit_range :: "flt \<Rightarrow> bool" where
  "unit_range x \<longleftrightarrow> (\<exists>q. x = Fin q \<and> - 1 \<le> q \<and> q \<le> 1)"

lemma clamp_unit: "x \<noteq> NaN \<Longrightarrow> unit_range (flt_clamp x (Fin (- 1)) (Fin 1))"
  by (cases x) (auto simp: flt_clamp_def unit_range_def)

lemma f64_to_f32_not_NaN: "x \<noteq> NaN \<Longrightarrow> f64_to_f32 x \<noteq> NaN"
  by (cases x) (simp_all add: f64_to_f32_def)

lemma fdiv_Fin_not_NaN: "t \<noteq> 0 \<Longrightarrow> x \<noteq> NaN \<Longrightarrow> fdiv fmt x (Fin t) \<noteq> NaN"
  by (cases x) (auto simp: inf_of_def sgn_if)

lemma fsub_Fin_not_NaN: "fsub fmt (Fin a) (Fin b) \<noteq> NaN"
  by (simp add: fsub_def)

lemma bid_ask_imbalance_range: "unit_range (bid_ask_imbalance b)"
proof -
  let ?x = "uint (qty_of (top_bid b))" and ?y = "uint (qty_of (top_ask b))"
  have bound: "uint (w :: u64) \<le> 2 ^ 90" for w using uint_u64_bound [of w] by simp
  note x = count_float [OF _ bound, of "qty_of (top_bid b)" F64] and y = count_float [OF _ bound, of "qty_of (top_ask b)" F64]
  let ?t = "rnd_rat F64 (of_int ?x) + rnd_rat F64 (of_int ?y)"
  have "0 \<le> ?t" "?t \<le> 2 ^ 100" using x(2,4) y(2,4) by auto
  then have t: "fadd F64 (f64_of ?x) (f64_of ?y) = Fin (rnd_rat F64 ?t)" using rnd_finite [of ?t F64] x(1) y(1) by simp
  show ?thesis
  proof (cases "rnd_rat F64 ?t \<le> 0")
    case True
    then show ?thesis by (simp add: bid_ask_imbalance_def t Let_def unit_range_def)
  next
    case False
    then have "fdiv F64 (fsub F64 (f64_of ?x) (f64_of ?y)) (Fin (rnd_rat F64 ?t)) \<noteq> NaN"
      using x(1) y(1) by (intro fdiv_Fin_not_NaN) (simp_all add: fsub_Fin_not_NaN)
    with False show ?thesis by (simp add: bid_ask_imbalance_def t Let_def clamp_unit f64_to_f32_not_NaN)
  qed
qed

lemma depth_sum_bounds: "0 \<le> depth_sum ls" "depth_sum ls \<le> 2 ^ 67"
proof -
  have "(\<Sum>l \<leftarrow> xs. uint (lv_qty l)) \<le> int (length xs) * 2 ^ 64" for xs
  proof (induction xs)
    case (Cons l xs)
    then show ?case using uint_u64_bound [of "lv_qty l"] by (simp add: algebra_simps)
  qed simp
  from this [of "take LIQUIDITY_PRESSURE_DEPTH ls"] show "depth_sum ls \<le> 2 ^ 67"
    by (simp add: depth_sum_def LIQUIDITY_PRESSURE_DEPTH_def)
  show "0 \<le> depth_sum ls" by (auto simp: depth_sum_def intro!: sum_list_nonneg)
qed

lemma liquidity_pressure_range: "unit_range (liquidity_pressure b)"
proof -
  let ?x = "depth_sum (bk_bids b)" and ?y = "depth_sum (bk_asks b)"
  have b: "0 \<le> ?x" "?x \<le> 2 ^ 90" "0 \<le> ?y" "?y \<le> 2 ^ 90" "?x + ?y \<le> 2 ^ 90"
    using depth_sum_bounds [of "bk_bids b"] depth_sum_bounds [of "bk_asks b"] by simp_all
  note x = count_float [OF b(1,2), of F64] and y = count_float [OF b(3,4), of F64] and t = count_float [OF _ b(5), of F64]
  show ?thesis
  proof (cases "?x + ?y = 0")
    case False
    then have "fdiv F64 (fsub F64 (f64_of ?x) (f64_of ?y)) (f64_of (?x + ?y)) \<noteq> NaN"
      using x(1) y(1) t(1,3) b by (simp del: of_int_add fdiv.simps) (intro fdiv_Fin_not_NaN; force simp: fsub_Fin_not_NaN)
    with False show ?thesis by (simp add: liquidity_pressure_def Let_def clamp_unit f64_to_f32_not_NaN)
  qed (simp add: liquidity_pressure_def unit_range_def)
qed

lemma spoof_evidence_range: "\<exists>q. spoof_evidence p = Fin q \<and> 0 \<le> q \<and> q \<le> 1"
proof -
  let ?u = "uint (usat_sub (po_qty p) (po_filled_qty p))" and ?t = "uint (max (po_qty p) 1)"
  have bound: "uint (w :: u64) \<le> 2 ^ 90" for w using uint_u64_bound [of w] by simp
  have t1: "1 \<le> ?t" by (metis max.cobounded2 uint_1 word_le_def)
  have "usat_sub (po_qty p) (po_filled_qty p) \<le> max (po_qty p) 1"
    by (auto simp: word_le_nat_alt unat_usat_sub max_def)
  then have ut: "?u \<le> ?t" by (simp add: word_le_def)
  note u = count_float [OF _ bound, of "usat_sub (po_qty p) (po_filled_qty p)" F32] and t = count_float [OF _ bound, of "max (po_qty p) 1" F32]
  let ?q = "rnd_rat F32 (of_int ?u) / rnd_rat F32 (of_int ?t)"
  have le: "rnd_rat F32 (of_int ?u) \<le> rnd_rat F32 (of_int ?t)" using ut by (intro rnd_rat_mono) (simp only: of_int_le_iff)
  have pos: "1 \<le> rnd_rat F32 (of_int ?t)" using t(3) t1 by simp
  have "0 \<le> ?q" "?q \<le> 1" using le pos u(2) by (simp_all add: divide_le_eq)
  then have "rnd F32 ?q = Fin (rnd_rat F32 ?q)" "0 \<le> rnd_rat F32 ?q" "rnd_rat F32 ?q \<le> 1"
    using rnd_finite [of ?q F32] rnd_rat_nonneg [of ?q F32] rnd_rat_mono [of ?q 1 F32] rnd_rat_int [of 1 F32] by auto
  then show ?thesis using pos u(1) t(1) by (auto simp: spoof_evidence_def flt_clamp_def)
qed

text \<open>C22: A spoofing report has its evidence. Whatever books and trades a detector has seen, when it reports spoofing of a side
  at a price then a book it saw no more than 500 ms before had its best quote of that side at that price, for at least four units, and the current
  best quote of the side is elsewhere or less than half as large; the evidence score is a number between 0 and 1; and
  the detector never watches more than 32 quotes, nor one quote twice.\<close>

theorem spoofing_has_evidence:
  assumes "d = fold detector_step seen detector_new" and "Spoofing s px ev \<in> set (snd (observe_book b now d []))"
  shows "(\<exists>b' t l. SawBook b' t \<in> set seen \<and> top_of s b' = Some l \<and> lv_price_paise l = px \<and> unat now - unat t \<le> 500000000 \<and> 4 \<le> unat (lv_qty l)
       \<and> (\<forall>l'. top_of s b = Some l' \<longrightarrow> lv_price_paise l' = px \<longrightarrow> unat (lv_qty l') < unat (lv_qty l) div 2))
    \<and> (\<exists>q. ev = Fin q \<and> 0 \<le> q \<and> q \<le> 1)
    \<and> length (dt_pending d) \<le> 32 \<and> distinct (map (\<lambda>p. (po_side p, po_price_paise p)) (dt_pending d))"
proof -
  have ok: "detector_ok seen d" using detector_run_ok [OF detector_new_ok, of seen] assms(1) by simp
  have gap: "Spoofing s px ev \<notin> set (push_opt (detect_liquidity_gap s1 l1 n) (push_opt (detect_liquidity_gap s2 l2 n) []))" for s1 s2 l1 l2 n
    by (auto simp: push_opt_def detect_liquidity_gap_def dest!: push_event_set split: option.splits list.splits if_splits)
  from assms(2) advance_loop_events [of "Spoofing s px ev" b now "dt_pending d"] gap
  obtain p where p: "p \<in> set (dt_pending d)" "spoofs b now p" "Spoofing s px ev = spoof_event p" unfolding observe_book_out by blast
  then have e: "s = po_side p" "px = po_price_paise p" "ev = spoof_evidence p" by (simp_all add: spoof_event_def)
  from ok p(1) obtain b' l where l: "SawBook b' (po_placed_ts_ns p) \<in> set seen" "top_of s b' = Some l" "lv_price_paise l = px" "lv_qty l = po_qty p"
    unfolding detector_ok_def placed_in_def e by blast
  have age: "unat now - unat (po_placed_ts_ns p) \<le> 500000000"
    using p(2) by (simp add: spoofs_def word_le_nat_alt unat_usat_sub SPOOF_WINDOW_NS_def)
  have "po_filled_qty p < po_qty p div 4" using p(2) by (simp add: spoofs_def)
  then have "0 < unat (po_qty p) div 4" by (simp add: word_less_nat_alt unat_div)
  then have four: "4 \<le> unat (lv_qty l)" using l(4) by (simp add: div_greater_zero_iff)
  have "unat (lv_qty l') < unat (lv_qty l) div 2" if "top_of s b = Some l'" "lv_price_paise l' = px" for l'
    using p(2) that e l(4) by (auto simp: spoofs_def still_present_def word_le_nat_alt unat_div not_le)
  then show ?thesis
    using l age four spoof_evidence_range [of p] e(3) ok by (fastforce simp: detector_ok_def distinct_quotes_def SPOOF_PENDING_CAPACITY_def)
qed

section \<open>The rolling delta against the trades\<close>

text \<open>Recorded trades: time, aggressive buyer and seller volume.\<close>

type_synonym flow_trade = "u64 \<times> u64 \<times> u64"

definition bucket_of :: "nat \<Rightarrow> flow_trade \<Rightarrow> nat" where
  "bucket_of sz tr = unat (fst tr) div sz * sz"

definition delta_run :: "flow_trade list \<Rightarrow> rolling_delta \<Rightarrow> rolling_delta" where
  "delta_run trs r = fold (\<lambda>(now, b, s). delta_record now b s) trs r"

text \<open>Volume in the buckets, and of the trades, whose bucket satisfies a condition.\<close>

definition bsum :: "(delta_bucket \<Rightarrow> u64) \<Rightarrow> (nat \<Rightarrow> bool) \<Rightarrow> delta_bucket list \<Rightarrow> nat" where
  "bsum vol P bs = (\<Sum>b \<leftarrow> bs. if P (unat (db_bucket_start_ns b)) then unat (vol b) else 0)"

definition tsum :: "(flow_trade \<Rightarrow> u64) \<Rightarrow> nat \<Rightarrow> (nat \<Rightarrow> bool) \<Rightarrow> flow_trade list \<Rightarrow> nat" where
  "tsum vol sz P trs = (\<Sum>tr \<leftarrow> trs. if P (bucket_of sz tr) then unat (vol tr) else 0)"

lemma bsum_simps [simp]: "bsum vol P [] = 0" "bsum vol P (b # bs) = (if P (unat (db_bucket_start_ns b)) then unat (vol b) else 0) + bsum vol P bs"
  "bsum vol P (bs @ cs) = bsum vol P bs + bsum vol P cs"
  by (simp_all add: bsum_def)

lemma tsum_simps [simp]: "tsum vol sz P [] = 0" "tsum vol sz P (t # ts) = (if P (bucket_of sz t) then unat (vol t) else 0) + tsum vol sz P ts"
  "tsum vol sz P (ts @ us) = tsum vol sz P ts + tsum vol sz P us"
  by (simp_all add: tsum_def)

abbreviation bought :: "flow_trade \<Rightarrow> u64" where "bought tr \<equiv> fst (snd tr)"
abbreviation sold :: "flow_trade \<Rightarrow> u64" where "sold tr \<equiv> snd (snd tr)"

text \<open>All buckets ever closed and the open one, for a run that has started: the volume of a bucket is that of its trades.\<close>

definition buckets_hold :: "nat \<Rightarrow> flow_trade list \<Rightarrow> delta_bucket list \<Rightarrow> delta_bucket \<Rightarrow> bool" where
  "buckets_hold sz trs hist ob \<longleftrightarrow>
     sorted_wrt (<) (map (\<lambda>b. unat (db_bucket_start_ns b)) (hist @ [ob]))
     \<and> (\<forall>b \<in> set (hist @ [ob]). sz dvd unat (db_bucket_start_ns b))
     \<and> unat (db_bucket_start_ns ob) = bucket_of sz (last trs)
     \<and> (\<forall>P. bsum db_buyer_volume P (hist @ [ob]) = tsum bought sz P trs)
     \<and> (\<forall>P. bsum db_seller_volume P (hist @ [ob]) = tsum sold sz P trs)"

definition delta_holds :: "flow_trade list \<Rightarrow> rolling_delta \<Rightarrow> bool" where
  "delta_holds trs r \<longleftrightarrow> (\<exists>hist. rw_ok (rd_buckets r) \<and> rw_capacity (rd_buckets r) = 300 \<and> rw_iter (rd_buckets r) = last_n 300 hist
     \<and> (if trs = [] then \<not> rd_open_initialised r \<and> hist = []
        else rd_open_initialised r \<and> buckets_hold (unat (rd_bucket_size_ns r)) trs hist (rd_open r)))"

lemma bucket_start_nat: "unat ((now div sz) * sz :: u64) = unat now div unat sz * unat sz"
proof -
  have "unat now div unat sz * unat sz \<le> unat now" by simp
  then have "unat now div unat sz * unat sz < 18446744073709551616" using unat_u64_bound [of now] by linarith
  then show ?thesis by (subst unat_mult_lem [THEN iffD1]) (simp_all add: unat_div)
qed

lemma buckets_hold_same:
  assumes h: "buckets_hold sz trs hist ob" and b: "bucket_of sz (now, v, w) = unat (db_bucket_start_ns ob)"
    and v: "tsum bought sz (\<lambda>_. True) (trs @ [(now, v, w)]) < 2 ^ 64" "tsum sold sz (\<lambda>_. True) (trs @ [(now, v, w)]) < 2 ^ 64"
  shows "buckets_hold sz (trs @ [(now, v, w)]) hist
    (ob\<lparr>db_buyer_volume := usat_add (db_buyer_volume ob) v, db_seller_volume := usat_add (db_seller_volume ob) w\<rparr>)"
proof -
  have buy: "bsum db_buyer_volume P (hist @ [ob]) = tsum bought sz P trs" and sell: "bsum db_seller_volume P (hist @ [ob]) = tsum sold sz P trs" for P
    using h unfolding buckets_hold_def by blast+
  have "unat (db_buyer_volume ob) \<le> tsum bought sz (\<lambda>_. True) trs" "unat (db_seller_volume ob) \<le> tsum sold sz (\<lambda>_. True) trs"
    using buy [of "\<lambda>_. True"] sell [of "\<lambda>_. True"] by simp_all
  then have sum: "unat (usat_add (db_buyer_volume ob) v) = unat (db_buyer_volume ob) + unat v"
    "unat (usat_add (db_seller_volume ob) w) = unat (db_seller_volume ob) + unat w"
    using v by (simp_all add: unat_usat_add)
  have "bsum db_buyer_volume P (hist @ [ob\<lparr>db_buyer_volume := usat_add (db_buyer_volume ob) v, db_seller_volume := usat_add (db_seller_volume ob) w\<rparr>])
      = tsum bought sz P (trs @ [(now, v, w)])"
    "bsum db_seller_volume P (hist @ [ob\<lparr>db_buyer_volume := usat_add (db_buyer_volume ob) v, db_seller_volume := usat_add (db_seller_volume ob) w\<rparr>])
      = tsum sold sz P (trs @ [(now, v, w)])" for P
    using buy [of P] sell [of P] by (auto simp: b sum split: if_splits)
  moreover have "sorted_wrt (<) (map (\<lambda>b. unat (db_bucket_start_ns b)) (hist @ [ob]))" "\<forall>b \<in> set (hist @ [ob]). sz dvd unat (db_bucket_start_ns b)"
    using h unfolding buckets_hold_def by blast+
  ultimately show ?thesis using b unfolding buckets_hold_def by simp
qed

lemma buckets_hold_new:
  assumes h: "buckets_hold sz trs hist ob" and ob': "unat (db_bucket_start_ns ob') = bucket_of sz (now, v, w)"
    "db_buyer_volume ob' = v" "db_seller_volume ob' = w" and less: "unat (db_bucket_start_ns ob) < unat (db_bucket_start_ns ob')"
  shows "buckets_hold sz (trs @ [(now, v, w)]) (hist @ [ob]) ob'"
proof -
  have "\<forall>b \<in> set hist. unat (db_bucket_start_ns b) < unat (db_bucket_start_ns ob)" using h by (auto simp: buckets_hold_def sorted_wrt_append)
  then have "sorted_wrt (<) (map (\<lambda>b. unat (db_bucket_start_ns b)) ((hist @ [ob]) @ [ob']))"
    using h less by (fastforce simp: buckets_hold_def sorted_wrt_append)
  moreover have "sz dvd unat (db_bucket_start_ns ob')" by (simp add: ob' bucket_of_def)
  moreover have "bsum db_buyer_volume P (hist @ [ob]) = tsum bought sz P trs" "bsum db_seller_volume P (hist @ [ob]) = tsum sold sz P trs"
    "\<forall>b \<in> set (hist @ [ob]). sz dvd unat (db_bucket_start_ns b)" for P
    using h unfolding buckets_hold_def by blast+
  ultimately show ?thesis using ob' unfolding buckets_hold_def bsum_simps(3) [of _ _ "hist @ [ob]"] by simp
qed

lemma buckets_hold_first:
  "unat (db_bucket_start_ns ob) = bucket_of sz (now, v, w) \<Longrightarrow> db_buyer_volume ob = v \<Longrightarrow> db_seller_volume ob = w \<Longrightarrow>
   buckets_hold sz [(now, v, w)] [] ob"
  by (simp add: buckets_hold_def bucket_of_def)

lemma delta_record_holds:
  assumes "delta_holds trs r" and "\<forall>tr \<in> set trs. unat (fst tr) \<le> unat now"
    and "tsum bought (unat (rd_bucket_size_ns r)) (\<lambda>_. True) (trs @ [(now, v, w)]) < 2 ^ 64"
    and "tsum sold (unat (rd_bucket_size_ns r)) (\<lambda>_. True) (trs @ [(now, v, w)]) < 2 ^ 64"
  shows "delta_holds (trs @ [(now, v, w)]) (delta_record now v w r)"
    "rd_bucket_size_ns (delta_record now v w r) = rd_bucket_size_ns r" "rd_window_ns (delta_record now v w r) = rd_window_ns r"
proof -
  let ?sz = "rd_bucket_size_ns r"
  let ?fresh = "\<lparr>db_bucket_start_ns = (now div ?sz) * ?sz, db_buyer_volume = v, db_seller_volume = w\<rparr>"
  have start: "unat (db_bucket_start_ns ?fresh) = bucket_of (unat ?sz) (now, v, w)" by (simp add: bucket_start_nat bucket_of_def)
  obtain hist where ring: "rw_ok (rd_buckets r)" "rw_capacity (rd_buckets r) = 300" "rw_iter (rd_buckets r) = last_n 300 hist"
    and st: "if trs = [] then \<not> rd_open_initialised r \<and> hist = [] else rd_open_initialised r \<and> buckets_hold (unat ?sz) trs hist (rd_open r)"
    using assms(1) by (auto simp: delta_holds_def)
  show "delta_holds (trs @ [(now, v, w)]) (delta_record now v w r)"
  proof (cases "trs = []")
    case True
    then show ?thesis using ring st buckets_hold_first [OF start] by (auto simp: delta_record_def delta_holds_def Let_def intro!: exI [of _ "[]"])
  next
    case False
    then have h: "rd_open_initialised r" "buckets_hold (unat ?sz) trs hist (rd_open r)" using st by simp_all
    show ?thesis
    proof (cases "(now div ?sz) * ?sz = db_bucket_start_ns (rd_open r)")
      case True
      then have "bucket_of (unat ?sz) (now, v, w) = unat (db_bucket_start_ns (rd_open r))" using start by simp
      from buckets_hold_same [OF h(2) this assms(3,4)] show ?thesis using ring h True by (auto simp: delta_record_def delta_holds_def Let_def)
    next
      case ne: False
      have "unat (db_bucket_start_ns (rd_open r)) \<le> unat (db_bucket_start_ns ?fresh)"
        using h(2) assms(2) False unfolding start by (simp add: buckets_hold_def bucket_of_def div_le_mono)
      then have "unat (db_bucket_start_ns (rd_open r)) < unat (db_bucket_start_ns ?fresh)" using ne by (simp add: le_less word_unat_eq_iff)
      from buckets_hold_new [OF h(2) start _ _ this]
      have "buckets_hold (unat ?sz) (trs @ [(now, v, w)]) (hist @ [rd_open r]) ?fresh" by simp
      moreover have "rw_iter (rw_push (rd_open r) (rd_buckets r)) = last_n 300 (hist @ [rd_open r])"
        using rw_iter_push [OF ring(1), of "rd_open r"] ring by (simp add: fifo_push_last_n)
      ultimately show ?thesis using ring h ne rw_ok_push [OF ring(1)]
        by (auto simp: delta_record_def delta_holds_def rw_capacity_push Let_def intro!: exI [of _ "hist @ [rd_open r]"])
    qed
  qed
qed (simp_all add: delta_record_def Let_def)

lemma delta_run_holds:
  assumes "sorted (map (\<lambda>tr. unat (fst tr)) trs)" "tsum bought 0 (\<lambda>_. True) trs < 2 ^ 64" "tsum sold 0 (\<lambda>_. True) trs < 2 ^ 64"
  shows "delta_holds trs (delta_run trs (delta_with_window window))
    \<and> rd_bucket_size_ns (delta_run trs (delta_with_window window)) = rd_bucket_size_ns (delta_with_window window)
    \<and> rd_window_ns (delta_run trs (delta_with_window window)) = window"
  using assms
proof (induction trs rule: rev_induct)
  case Nil
  then show ?case using fresh_window [of 300 delta_bucket_default]
    by (simp add: delta_holds_def delta_run_def delta_with_window_def ROLLING_DELTA_BUCKETS_def)
next
  case (snoc tr trs)
  obtain now v w where tr: "tr = (now, v, w)" by (cases tr)
  have any: "tsum vol m (\<lambda>_. True) xs = tsum vol n (\<lambda>_. True) xs" for vol m n xs by (simp add: tsum_def)
  have "sorted (map (\<lambda>tr. unat (fst tr)) trs)" "\<forall>x \<in> set trs. unat (fst x) \<le> unat now" using snoc.prems(1) tr by (auto simp: sorted_append)
  then show ?case using snoc tr delta_record_holds [of trs "delta_run trs (delta_with_window window)" now v w]
    by (auto simp: delta_run_def any [of _ "unat _" _ 0])
qed

text \<open>Of strictly increasing multiples of \<open>sz\<close> below \<open>top\<close>, those from \<open>top - n * sz\<close> on are among the last \<open>n\<close>.\<close>

lemma recent_multiples:
  assumes "sorted_wrt (<) ks" "\<forall>k \<in> set ks. sz dvd k \<and> k < t" "sz dvd t" "0 < sz" "x \<in> set ks" "t \<le> x + n * sz"
  shows "x \<in> set (last_n n ks)"
  using assms
proof (induction ks arbitrary: n t rule: rev_induct)
  case (snoc k ks)
  have k: "sz dvd k" "k < t" using snoc.prems(2) by auto
  then have step: "k + sz \<le> t" using snoc.prems(3,4) by (metis dvd_diff_nat dvd_imp_le le_add_diff_inverse add_le_cancel_left less_imp_le_nat zero_less_diff)
  show ?case
  proof (cases n)
    case 0
    have "x < t" using snoc.prems(2,5) by auto
    then show ?thesis using 0 snoc.prems(6) by simp
  next
    case (Suc m)
    have "x = k \<or> x \<in> set (last_n m ks)"
    proof (cases "x = k")
      case False
      then have "x \<in> set ks" using snoc.prems(5) by simp
      moreover have "\<forall>j \<in> set ks. sz dvd j \<and> j < k" using snoc.prems(1,2) by (auto simp: sorted_wrt_append)
      moreover have "k \<le> x + m * sz" using step snoc.prems(6) Suc by simp
      ultimately show ?thesis using snoc.IH [of k m] snoc.prems(1,4) k(1) by (simp add: sorted_wrt_append)
    qed simp
    then show ?thesis using Suc by (auto simp: last_n_def)
  qed
qed simp

lemma window_fold:
  assumes "t + bsum vol (\<lambda>k. unat cutoff \<le> k) bs \<le> 2 ^ 128 - 1"
  shows "fold (\<lambda>b total. if db_bucket_start_ns b \<ge> cutoff then min (total + unat (vol b)) (2 ^ 128 - 1) else total) bs t
    = t + bsum vol (\<lambda>k. unat cutoff \<le> k) bs"
  using assms
proof (induction bs arbitrary: t)
  case (Cons b bs)
  then show ?case by (cases "cutoff \<le> db_bucket_start_ns b") (simp_all add: word_le_nat_alt)
qed simp

lemma bsum_recent:
  assumes "buckets_hold sz trs hist ob" "0 < sz" "unat (db_bucket_start_ns ob) \<le> c + 300 * sz"
  shows "bsum vol (\<lambda>k. c \<le> k) (last_n 300 hist) = bsum vol (\<lambda>k. c \<le> k) hist"
proof -
  let ?f = "\<lambda>b. unat (db_bucket_start_ns b)" and ?m = "length hist - 300"
  have srt: "sorted_wrt (<) (map ?f (hist @ [ob]))" and dv: "\<forall>b \<in> set (hist @ [ob]). sz dvd ?f b" using assms(1) unfolding buckets_hold_def by blast+
  have hist: "sorted_wrt (<) (map ?f hist)" "\<forall>k \<in> set (map ?f hist). sz dvd k \<and> k < ?f ob" using srt dv by (auto simp: sorted_wrt_append)
  have old: "\<not> c \<le> ?f b" if "b \<in> set (take ?m hist)" for b
  proof
    assume "c \<le> ?f b"
    then have "?f b \<in> set (last_n 300 (map ?f hist))"
      using assms(2,3) that dv by (intro recent_multiples [OF hist]) (auto dest: in_set_takeD)
    then obtain b' where b': "b' \<in> set (drop ?m hist)" "?f b' = ?f b" by (auto simp: last_n_def drop_map)
    have "sorted_wrt (<) (map ?f (take ?m hist @ drop ?m hist))" using hist(1) by simp
    then have "?f b < ?f b'" using that b'(1) unfolding map_append sorted_wrt_append by auto
    then show False using b'(2) by simp
  qed
  then have "bsum vol (\<lambda>k. c \<le> k) (take ?m hist) = 0" by (simp add: bsum_def)
  then show ?thesis using bsum_simps(3) [of vol "\<lambda>k. c \<le> k" "take ?m hist" "drop ?m hist"] by (simp add: last_n_def)
qed

lemma window_total_exact:
  assumes "delta_holds trs r" "unat (rd_window_ns r) = 300 * unat (rd_bucket_size_ns r)" "0 < unat (rd_bucket_size_ns r)"
    "\<forall>tr \<in> set trs. unat (fst tr) \<le> unat now"
    and vol: "\<And>hist P. buckets_hold (unat (rd_bucket_size_ns r)) trs hist (rd_open r) \<Longrightarrow> bsum vol P (hist @ [rd_open r]) = tsum tvol (unat (rd_bucket_size_ns r)) P trs"
    and le: "tsum tvol (unat (rd_bucket_size_ns r)) (\<lambda>_. True) trs < 2 ^ 64"
  shows "window_total vol now r = tsum tvol (unat (rd_bucket_size_ns r)) (\<lambda>k. unat now - unat (rd_window_ns r) \<le> k) trs"
proof (cases "trs = []")
  case True
  then show ?thesis using assms(1) by (auto simp: delta_holds_def window_total_def)
next
  case False
  let ?sz = "unat (rd_bucket_size_ns r)" and ?c = "usat_sub now (rd_window_ns r)"
  have c: "unat ?c = unat now - unat (rd_window_ns r)" by (rule unat_usat_sub)
  obtain hist where h: "rw_iter (rd_buckets r) = last_n 300 hist" "rd_open_initialised r" "buckets_hold ?sz trs hist (rd_open r)"
    using assms(1) False by (auto simp: delta_holds_def)
  have "unat (db_bucket_start_ns (rd_open r)) = unat (fst (last trs)) div ?sz * ?sz" using h(3) by (simp add: buckets_hold_def bucket_of_def)
  also have "\<dots> \<le> unat (fst (last trs))" by simp
  also have "\<dots> \<le> unat now" using assms(4) False by simp
  finally have "unat (db_bucket_start_ns (rd_open r)) \<le> unat ?c + 300 * ?sz" using c assms(2) by linarith
  from bsum_recent [OF h(3) assms(3) this]
  have sum: "bsum vol (\<lambda>k. unat ?c \<le> k) (last_n 300 hist @ [rd_open r]) = tsum tvol ?sz (\<lambda>k. unat ?c \<le> k) trs"
    using vol [OF h(3), of "\<lambda>k. unat ?c \<le> k"] by simp
  have "tsum tvol ?sz (\<lambda>k. unat ?c \<le> k) trs \<le> tsum tvol ?sz (\<lambda>_. True) trs" unfolding tsum_def by (intro sum_list_mono) simp
  then have "tsum tvol ?sz (\<lambda>k. unat ?c \<le> k) trs \<le> 2 ^ 128 - 1" using le by simp
  from window_fold [of 0 vol ?c "last_n 300 hist @ [rd_open r]"] this sum
  show ?thesis using h(1,2) c by (simp add: window_total_def Let_def)
qed

lemma narrow_u64: "n \<le> 18446744073709551615 \<Longrightarrow> unat (of_nat n :: u64) = n"
  by (simp add: unat_of_nat)

text \<open>C23: The rolling delta is the volume of the recent trades. For trades recorded in order of time, and a window of 300 whole buckets such as
  the default of 30 s in buckets of 100 ms, the aggressive buyer and seller volumes at any later time are exactly the sums over
  the trades whose bucket starts within the window, although only 300 closed buckets are kept: none that counts has been
  overwritten. The signed delta is their difference, saturated at the range of \<open>i64\<close>. The total volume fits 64 bits.\<close>

theorem rolling_delta_exact:
  assumes "sorted (map (\<lambda>tr. unat (fst tr)) trs)" and "\<forall>tr \<in> set trs. unat (fst tr) \<le> unat now"
    and "unat window = 300 * sz" and "0 < sz"
    and "(\<Sum>(t, b, s) \<leftarrow> trs. unat b) < 2 ^ 64" and "(\<Sum>(t, b, s) \<leftarrow> trs. unat s) < 2 ^ 64"
    and "r = fold (\<lambda>(t, b, s). delta_record t b s) trs (delta_with_window window)"
  shows "unat (buyer_volume now r) = (\<Sum>(t, b, s) \<leftarrow> trs. if unat now - unat window \<le> unat t div sz * sz then unat b else 0)
    \<and> unat (seller_volume now r) = (\<Sum>(t, b, s) \<leftarrow> trs. if unat now - unat window \<le> unat t div sz * sz then unat s else 0)
    \<and> signed_delta now r = sat_i64 (int (unat (buyer_volume now r)) - int (unat (seller_volume now r)))"
proof -
  have sums: "(\<Sum>(t, b, s) \<leftarrow> xs. f t b s) = (\<Sum>tr \<leftarrow> xs. f (fst tr) (fst (snd tr)) (snd (snd tr)))" for f and xs :: "flow_trade list"
    by (simp add: case_prod_beta')
  have tot: "tsum bought n (\<lambda>_. True) trs < 2 ^ 64" "tsum sold n (\<lambda>_. True) trs < 2 ^ 64" for n
    using assms(5,6) by (simp_all add: tsum_def sums)
  note run = delta_run_holds [OF assms(1) tot, unfolded delta_run_def, of window, folded assms(7)]
  have "300 * sz div 300 = sz" by simp
  then have "unat (window div of_nat ROLLING_DELTA_BUCKETS) = sz" using assms(3) by (simp add: unat_div ROLLING_DELTA_BUCKETS_def)
  then have sz: "unat (rd_bucket_size_ns r) = sz"
    using run assms(4) by (simp add: delta_with_window_def max_def word_le_nat_alt) 
  have w: "unat (rd_window_ns r) = 300 * unat (rd_bucket_size_ns r)" using run assms(3) sz by simp
  have "window_total db_buyer_volume now r = tsum bought sz (\<lambda>k. unat now - unat window \<le> k) trs"
    "window_total db_seller_volume now r = tsum sold sz (\<lambda>k. unat now - unat window \<le> k) trs"
    using window_total_exact [of trs r now db_buyer_volume bought] window_total_exact [of trs r now db_seller_volume sold] run w sz assms(2,4) tot
    by (auto simp: buckets_hold_def simp del: bsum_simps)
  moreover have part: "tsum bought sz P trs \<le> tsum bought sz (\<lambda>_. True) trs" "tsum sold sz P trs \<le> tsum sold sz (\<lambda>_. True) trs" for P
    unfolding tsum_def by (intro sum_list_mono; simp)+
  have "tsum bought sz P trs \<le> 18446744073709551615" "tsum sold sz P trs \<le> 18446744073709551615" for P
    using tot [of sz] part [of P] by simp_all
  ultimately have v: "unat (buyer_volume now r) = tsum bought sz (\<lambda>k. unat now - unat window \<le> k) trs"
    "unat (seller_volume now r) = tsum sold sz (\<lambda>k. unat now - unat window \<le> k) trs"
    by (simp_all add: buyer_volume_def seller_volume_def narrow_u64 min.absorb1)
  have "tsum bought sz P trs = (\<Sum>(t, b, s) \<leftarrow> trs. if P (unat t div sz * sz) then unat b else 0)"
    "tsum sold sz P trs = (\<Sum>(t, b, s) \<leftarrow> trs. if P (unat t div sz * sz) then unat s else 0)" for P
    by (simp_all add: tsum_def bucket_of_def sums)
  then show ?thesis unfolding v by (simp add: signed_delta_def uint_nat v)
qed

section \<open>Snapshots\<close>

lemma push_event_length: "length out \<le> 4 \<Longrightarrow> length (push_event e out) \<le> 4"
  by (simp add: push_event_def try_push_def)

lemma push_opt_length: "length out \<le> 4 \<Longrightarrow> length (push_opt e out) \<le> 4"
  by (simp add: push_opt_def push_event_length split: option.split)

lemma advance_loop_length: "length out \<le> 4 \<Longrightarrow> length (snd (advance_loop b now ps out)) \<le> 4"
  by (induction ps arbitrary: out) (simp_all add: advance_loop_Cons push_event_length)

lemma observe_book_length: "length (snd (observe_book b now d [])) \<le> 4"
  unfolding observe_book_out by (intro advance_loop_length push_opt_length) simp

lemma observe_trade_length: "length (snd (observe_trade t b d [])) \<le> 4"
  by (simp add: observe_trade_def Let_def push_event_length split: option.split)

definition snapshot_ok :: "orderflow_snapshot \<Rightarrow> bool" where
  "snapshot_ok s \<longleftrightarrow> unit_range (os_bid_ask_imbalance s) \<and> unit_range (os_liquidity_pressure s) \<and> length (os_events s) \<le> 4
     \<and> os_rolling_delta s = sat_i64 (uint (os_aggressive_buyer_volume s) - uint (os_aggressive_seller_volume s))"

lemma snapshot_of_ok: "length ev \<le> 4 \<Longrightarrow> snapshot_ok (orderflow_snapshot_of now s ev)"
  by (simp add: snapshot_ok_def orderflow_snapshot_of_def bid_ask_imbalance_range liquidity_pressure_range signed_delta_def)

text \<open>Every snapshot of the Orderflow_Engine is well formed. Whatever the engine holds, the snapshot it returns for a tick or an accepted
  book has an imbalance and a liquidity pressure that are numbers between -1 and 1 (quantities up to \<open>2\<^sup>6\<^sup>4\<close> a level included), at
  most four events, and a rolling delta that is the saturated difference of its two volumes; and a book is refused exactly when it is not newer
  than the one held, leaving every other symbol as it was.\<close>

theorem orderflow_snapshots_well_formed:
  "snapshot_ok (snd (engine_ingest_tick t now e))
   \<and> (case engine_ingest_book u now e of
        (e', Some snap) \<Rightarrow> snapshot_ok snap \<and> ot_book (state_or_new (up_symbol u) e') = book_after u
      | (e', None) \<Rightarrow> up_ts_ns u \<le> bk_last_seq (ot_book (state_or_new (up_symbol u) e)) \<and> state_or_new (up_symbol u) e' = state_or_new (up_symbol u) e)
   \<and> oe_inner (fst (engine_ingest_book u now e)) = (oe_inner e)(up_symbol u := oe_inner (fst (engine_ingest_book u now e)) (up_symbol u))"
proof -
  have "snapshot_ok (snd (engine_ingest_tick t now e))"
    using observe_trade_length by (simp add: engine_ingest_tick_def state_ingest_tick_def Let_def split_beta snapshot_of_ok)
  moreover have "case engine_ingest_book u now e of
        (e', Some snap) \<Rightarrow> snapshot_ok snap \<and> ot_book (state_or_new (up_symbol u) e') = book_after u
      | (e', None) \<Rightarrow> up_ts_ns u \<le> bk_last_seq (ot_book (state_or_new (up_symbol u) e)) \<and> state_or_new (up_symbol u) e' = state_or_new (up_symbol u) e"
    using observe_book_length
    by (simp add: engine_ingest_book_def state_ingest_book_def book_apply_eq Let_def split_beta snapshot_of_ok state_or_new_update)
  ultimately show ?thesis by (simp add: engine_ingest_book_def Let_def split_beta)
qed

section \<open>Witnesses\<close>

definition quote :: "i64 \<Rightarrow> u64 \<Rightarrow> l2_level" where
  "quote p q = \<lparr>lv_price_paise = p, lv_qty = q, lv_orders = 1\<rparr>"

definition update_at :: "u64 \<Rightarrow> i64 \<Rightarrow> u64 \<Rightarrow> l2_update" where
  "update_at ts p q = \<lparr>up_correlation_id = [], up_symbol = 1, up_exchange = 0, up_bid_levels = [quote p q], up_ask_levels = [quote (p + 10) 10], up_ts_ns = ts\<rparr>"

text \<open>The newer update arrives first, with a tick in between.\<close>

theorem book_is_newest_update_witness:
  "\<exists>s. oe_inner (fold flow_step [FlowBook (update_at 9 100 5) 1, FlowTick sample_tick 2, FlowBook (update_at 7 90 5) 3] (orderflow_engine_with_window 30000000000)) 1 = Some s
     \<and> bk_bids (ot_book s) = [quote 100 5]"
proof -
  have "concat (map (updates_of 1) [FlowBook (update_at 9 100 5) 1, FlowTick sample_tick 2, FlowBook (update_at 7 90 5) 3]) = [update_at 9 100 5, update_at 7 90 5]"
    by (simp add: update_at_def)
  from book_is_newest_update [OF this, of "update_at 9 100 5" 30000000000] show ?thesis by (force simp: update_at_def book_after_def)
qed

theorem deployed_orderflow_ignores_ticks_witness:
  "orderflow_service sample_js [TickRecv (tick_to_raw_bytes sample_tick), RecvErr (DecodeErr ''eof'')] (orderflow_engine_new, []) = (orderflow_engine_new, [])"
proof -
  have "tick_ok sample_tick" by (simp add: tick_ok_def sample_tick_def in_i64_def i64_max_def i64_min_def)
  then have "wire_ticks_only [TickRecv (tick_to_raw_bytes sample_tick), RecvErr (DecodeErr ''eof'')]"
    by (auto simp: wire_ticks_only_def)
  from deployed_orderflow_ignores_ticks [OF this, of "[]" sample_js orderflow_engine_new] show ?thesis by simp
qed

text \<open>A bid of 100 units appears above a book of tens and is gone a moment later.\<close>

definition calm_book :: live_book where
  "calm_book = \<lparr>bk_bids = [quote 100 10], bk_asks = [quote 110 10], bk_last_seq = 1\<rparr>"

definition large_book :: live_book where
  "large_book = calm_book\<lparr>bk_bids := [quote 101 100]\<rparr>"

definition seen_large :: "sighting list" where
  "seen_large = [SawBook calm_book 1, SawBook calm_book 2, SawBook calm_book 3, SawBook large_book 4]"

definition detector_at :: "u64 list \<Rightarrow> pending_order list \<Rightarrow> l2_level option \<Rightarrow> l2_level option \<Rightarrow> detector" where
  "detector_at h ps tb ta = \<lparr>dt_tick_size_paise = 1, dt_qty_history = fold rw_push h (fresh_window 64 0), dt_pending = ps, dt_last_top_bid = tb, dt_last_top_ask = ta\<rparr>"

lemma detector_at_median:
  assumes "h \<noteq> []" "length h \<le> 64"
  shows "rolling_median_qty (detector_at h ps tb ta) = (let buf = sort h; n = length buf in
    if n mod 2 = 0 then of_nat ((unat (buf ! (n div 2 - 1)) + unat (buf ! (n div 2))) div 2) else buf ! (n div 2))"
proof -
  have it: "rw_ok (fold rw_push h (fresh_window 64 0))" "rw_iter (fold rw_push h (fresh_window 64 0)) = h"
    using window_items [of 64 h 0] assms(2) by simp_all
  then have "rw_len (fold rw_push h (fresh_window 64 0)) = length h" using length_rw_iter [OF it(1)] by simp
  then have "\<not> rw_is_empty (fold rw_push h (fresh_window 64 0))" using assms(1) by (simp add: rw_is_empty_def)
  moreover have "sort h \<noteq> []" using assms(1) by (metis length_0_conv length_sort)
  ultimately show ?thesis using it assms(1) by (simp add: rolling_median_qty_def detector_at_def Let_def)
qed

lemma single_books [simp]:
  "bk_bids calm_book = [quote 100 10]" "bk_asks calm_book = [quote 110 10]" "bk_bids large_book = [quote 101 100]" "bk_asks large_book = [quote 110 10]"
  "lv_qty (quote p q) = q" "lv_price_paise (quote p q) = p"
  by (simp_all add: calm_book_def large_book_def quote_def)

lemma calm_register [simp]: "register_large s 50 calm_book now d = d"
  by (cases s) (simp_all add: register_large_def top_of_def top_bid_def top_ask_def top_level_def)

lemma calm_step:
  assumes "rolling_median_qty (detector_at (h @ [10]) [] tb ta) = 10"
  shows "detector_step (SawBook calm_book now) (detector_at h [] tb ta) = detector_at (h @ [10]) [] (Some (quote 100 10)) (Some (quote 110 10))"
proof -
  have eq: "detector_at h [] tb ta\<lparr>dt_qty_history := rw_push 10 (dt_qty_history (detector_at h [] tb ta))\<rparr> = detector_at (h @ [10]) [] tb ta"
    by (simp add: detector_at_def)
  have "dt_pending (detector_at h [] tb ta) = []" by (simp add: detector_at_def)
  then show ?thesis
    using assms by (simp add: observe_book_def advance_spoofing_def single_level_no_gap push_opt_def top_bid_def top_ask_def top_level_def qty_of_def eq
        register_large_def top_of_def usat_mul_def SPOOF_QTY_MULTIPLIER_def) (simp add: detector_at_def)
qed

lemma large_pending: "dt_pending (fold detector_step seen_large detector_new) = [\<lparr>po_side = Buy, po_price_paise = 101, po_qty = 100, po_placed_ts_ns = 4, po_filled_qty = 0\<rparr>]"
proof -
  have new: "detector_new = detector_at [] [] None None"
    by (simp add: detector_new_def detector_with_tick_size_def detector_at_def SPOOF_MEDIAN_WINDOW_def DEFAULT_TICK_SIZE_PAISE_def)
  let ?d = "detector_at [10, 10, 10] [] (Some (quote 100 10)) (Some (quote 110 10))"
  have calm: "fold detector_step [SawBook calm_book 1, SawBook calm_book 2, SawBook calm_book 3] detector_new = ?d"
    by (simp add: new calm_step detector_at_median del: detector_step.simps)
  have m: "rolling_median_qty (detector_at [10, 10, 10, 100] [] tb ta) = 10" for tb ta by (simp add: detector_at_median)
  have eq: "?d\<lparr>dt_pending := [], dt_qty_history := rw_push 100 (dt_qty_history ?d)\<rparr> = detector_at [10, 10, 10, 100] [] (Some (quote 100 10)) (Some (quote 110 10))"
    by (simp add: detector_at_def)
  have "dt_pending (detector_at h [] tb ta) = []" for h tb ta by (simp add: detector_at_def)
  then have "dt_pending (detector_step (SawBook large_book 4) ?d) = [\<lparr>po_side = Buy, po_price_paise = 101, po_qty = 100, po_placed_ts_ns = 4, po_filled_qty = 0\<rparr>]"
    by (simp add: observe_book_def advance_spoofing_def single_level_no_gap push_opt_def top_bid_def top_ask_def top_level_def qty_of_def eq m
        register_large_def top_of_def usat_mul_def SPOOF_QTY_MULTIPLIER_def try_register_pending_def try_push_def SPOOF_PENDING_CAPACITY_def Let_def)
  then show ?thesis using calm by (simp add: seen_large_def)
qed

theorem spoofing_has_evidence_witness:
  "\<exists>ev b' t l. Spoofing Buy 101 ev \<in> set (snd (observe_book calm_book 5 (fold detector_step seen_large detector_new) []))
     \<and> SawBook b' t \<in> set seen_large \<and> top_of Buy b' = Some l \<and> lv_price_paise l = 101 \<and> 4 \<le> unat (lv_qty l)"
proof -
  let ?d = "fold detector_step seen_large detector_new"
  have "detect_liquidity_gap s [l] n = None" for s l n by (simp add: detect_liquidity_gap_def)
  then have "snd (observe_book calm_book 5 ?d []) = [spoof_event (hd (dt_pending ?d))]"
    unfolding observe_book_out large_pending
    by (simp add: advance_loop_Cons spoofs_def still_present_def top_of_def top_bid_def top_level_def calm_book_def quote_def push_opt_def push_event_def
        try_push_def SPOOF_WINDOW_NS_def usat_sub_def)
  then have "Spoofing Buy 101 (spoof_evidence (hd (dt_pending ?d))) \<in> set (snd (observe_book calm_book 5 ?d []))"
    by (simp add: spoof_event_def large_pending)
  with spoofing_has_evidence [OF refl this] show ?thesis by blast
qed

theorem rolling_delta_exact_witness:
  "unat (buyer_volume 31000000000 (fold (\<lambda>(t, b, s). delta_record t b s) [(100000000, 7, 0), (2000000000, 0, 4), (2050000000, 3, 0)]
     (delta_with_window 30000000000))) = 3"
  using rolling_delta_exact [of "[(100000000, 7, 0), (2000000000, 0, 4), (2050000000, 3, 0)]" 31000000000 30000000000 100000000 "fold (\<lambda>(t, b, s). delta_record t b s) [(100000000, 7, 0), (2000000000, 0, 4), (2050000000, 3, 0)]
     (delta_with_window 30000000000)"] by simp

end
