(* ===== verification/Replay.thy ===== *)
theory Replay
  imports Warm_Cache Wire_Codec Exec_Service "HOL-Library.Char_ord" "HOL-Library.List_Lexorder" "HOL-Library.AList"
begin

text \<open>
  The Replay_Engine (\<open>hedge-replay/src\<close>): records and framing (\<open>record.rs\<close>), segment files (\<open>segments.rs\<close>), the recorder
  (\<open>recorder.rs\<close>), the player and its paced stream (\<open>player.rs\<close>), the control-plane conversions (\<open>command.rs\<close>), the command-line tool
  (\<open>main.rs\<close>), the fixture generator and the regression run (\<open>bin\<close>). The rkyv archive format, the ChaCha20 generator, the clocks and Redis are
  parameters. The directory tree below \<open>base_dir\<close> is explicit state, with the buffering of \<open>BufWriter\<close> and \<open>BufReader\<close>, and a device that may fail.
\<close>

section \<open>Records (record.rs)\<close>

datatype ai_source = AiRanking | AiRegime | AiNews | AiPsychology | AiPriority | AiJournal | AiGovernance | AiOther

datatype record_kind = TickRec | OrderBookRec | OpenInterestRec | NewsEventRec | SignalEmittedRec | RiskDecisionRec
  | OrderSubmittedRec | OrderModifiedRec | OrderCancelledRec | FillRec | TraderActionRec | AIDecisionRec ai_source
  | MarketConditionSnapshotRec

record replay_record =
  rr_session_id :: u64
  rr_sequence_no :: u64
  rr_monotonic_ns :: u64
  rr_wallclock_utc :: i64
  rr_kind :: record_kind
  rr_payload :: "u8 list"

text \<open>The rkyv archive of a record: its serialiser, and \<open>check_archived_root\<close> followed by the deserialiser.\<close>

record rkyv =
  encode_record :: "replay_record \<Rightarrow> u8 list"
  decode_record :: "u8 list \<Rightarrow> replay_record option"

datatype io_error = AlreadyExists | NotFound | NotADirectory | UnexpectedEof | InvalidData | DeviceError

datatype replay_error =
    SegmentIo io_error
  | ReplayDecode string
  | ReplayBus bus_error
  | SequenceInvariant u64 u64 u64
  | SeekNotFound u64
  | BadCommand string
  | ReplayConfigErr string

text \<open>\<open>ReplayRecordCodec\<close>, the bus codec of \<open>codec.rs\<close>.\<close>

definition replay_codec_encode :: "rkyv \<Rightarrow> replay_record \<Rightarrow> bus_error + u8 list" where
  "replay_codec_encode rk r = Inr (encode_record rk r)"

definition replay_codec_decode :: "rkyv \<Rightarrow> u8 list \<Rightarrow> bus_error + replay_record" where
  "replay_codec_decode rk bs = (case decode_record rk bs of Some r \<Rightarrow> Inr r | None \<Rightarrow> Inl (DecodeErr ''rkyv check_archived_root failed''))"

section \<open>The ledger directory\<close>

text \<open>
  The entries of \<open>base_dir\<close> in the order the system lists them: a plain file, or a session directory with its files and their contents. While
  \<open>dk_ok\<close> is false every system call on the device fails.
\<close>

datatype base_entry = BaseFile | SessionDir "(string \<times> u8 list) list"

record disk =
  dk_base :: "(string \<times> base_entry) list"
  dk_ok :: bool

definition dir_files :: "disk \<Rightarrow> string \<Rightarrow> (string \<times> u8 list) list" where
  "dir_files d dir = (case map_of (dk_base d) dir of Some (SessionDir fs) \<Rightarrow> fs | _ \<Rightarrow> [])"

definition file_contents :: "disk \<Rightarrow> string \<Rightarrow> string \<Rightarrow> u8 list option" where
  "file_contents d dir f = map_of (dir_files d dir) f"

definition put_files :: "string \<Rightarrow> (string \<times> u8 list) list \<Rightarrow> disk \<Rightarrow> disk" where
  "put_files dir fs d = d\<lparr>dk_base := AList.update dir (SessionDir fs) (dk_base d)\<rparr>"

definition create_dir_all :: "string \<Rightarrow> disk \<Rightarrow> (io_error + unit) \<times> disk" where
  "create_dir_all dir d =
     (if \<not> dk_ok d then (Inl DeviceError, d)
      else case map_of (dk_base d) dir of
        Some (SessionDir _) \<Rightarrow> (Inr (), d)
      | Some BaseFile \<Rightarrow> (Inl AlreadyExists, d)
      | None \<Rightarrow> (Inr (), put_files dir [] d))"

text \<open>\<open>OpenOptions::new().create_new(true).write(true).open(path)\<close>.\<close>

definition create_new :: "string \<Rightarrow> string \<Rightarrow> disk \<Rightarrow> (io_error + unit) \<times> disk" where
  "create_new dir f d =
     (if \<not> dk_ok d then (Inl DeviceError, d)
      else if file_contents d dir f \<noteq> None then (Inl AlreadyExists, d)
      else (Inr (), put_files dir (dir_files d dir @ [(f, [])]) d))"

definition file_append :: "string \<Rightarrow> string \<Rightarrow> u8 list \<Rightarrow> disk \<Rightarrow> (io_error + unit) \<times> disk" where
  "file_append dir f bs d =
     (if \<not> dk_ok d then (Inl DeviceError, d)
      else (Inr (), put_files dir (AList.update f ((case file_contents d dir f of Some old \<Rightarrow> old | None \<Rightarrow> []) @ bs) (dir_files d dir)) d))"

text \<open>\<open>BufWriter\<close>: writes collect in a buffer of 8192 bytes; one that does not fit flushes it first.\<close>

definition BUF_CAP :: nat where "BUF_CAP = 8192"

record buf_writer =
  bw_dir :: string
  bw_name :: string
  bw_buf :: "u8 list"

definition bw_flush_buf :: "buf_writer \<Rightarrow> disk \<Rightarrow> (io_error + unit) \<times> buf_writer \<times> disk" where
  "bw_flush_buf w d =
     (if bw_buf w = [] then (Inr (), w, d)
      else case file_append (bw_dir w) (bw_name w) (bw_buf w) d of
        (Inl e, d') \<Rightarrow> (Inl e, w, d')
      | (Inr _, d') \<Rightarrow> (Inr (), w\<lparr>bw_buf := []\<rparr>, d'))"

definition bw_write_all :: "u8 list \<Rightarrow> buf_writer \<Rightarrow> disk \<Rightarrow> (io_error + unit) \<times> buf_writer \<times> disk" where
  "bw_write_all bs w d =
     (let spare = BUF_CAP - length (bw_buf w) in
      if length bs < spare then (Inr (), w\<lparr>bw_buf := bw_buf w @ bs\<rparr>, d)
      else case (if length bs > spare then bw_flush_buf w d else (Inr (), w, d)) of
        (Inl e, w', d') \<Rightarrow> (Inl e, w', d')
      | (Inr _, w', d') \<Rightarrow>
          if length bs \<ge> BUF_CAP
          then (case file_append (bw_dir w') (bw_name w') bs d' of (r, d'') \<Rightarrow> (r, w', d''))
          else (Inr (), w'\<lparr>bw_buf := bw_buf w' @ bs\<rparr>, d'))"

text \<open>\<open>flush()\<close> and then \<open>sync_data()\<close> on the file below.\<close>

definition bw_flush_sync :: "buf_writer \<Rightarrow> disk \<Rightarrow> (io_error + unit) \<times> buf_writer \<times> disk" where
  "bw_flush_sync w d =
     (case bw_flush_buf w d of
        (Inl e, w', d') \<Rightarrow> (Inl e, w', d')
      | (Inr _, w', d') \<Rightarrow> (if dk_ok d' then Inr () else Inl DeviceError, w', d'))"

text \<open>\<open>BufReader\<close>: an empty buffer is refilled with up to 8192 bytes; a read that large bypasses it.\<close>

record buf_reader =
  br_buf :: "u8 list"
  br_rest :: "u8 list"

definition br_read :: "nat \<Rightarrow> buf_reader \<Rightarrow> u8 list \<times> buf_reader" where
  "br_read n r =
     (if br_buf r = [] \<and> n \<ge> BUF_CAP then (take n (br_rest r), r\<lparr>br_rest := drop n (br_rest r)\<rparr>)
      else let r' = (if br_buf r = [] then \<lparr>br_buf = take BUF_CAP (br_rest r), br_rest = drop BUF_CAP (br_rest r)\<rparr> else r)
           in (take n (br_buf r'), r'\<lparr>br_buf := drop n (br_buf r')\<rparr>))"

lemma take_drop_append: "take n xs @ drop n xs @ ys = xs @ ys"
  by (simp flip: append.assoc)

lemma br_read_bytes:
  "br_read n r = (got, r') \<Longrightarrow> br_buf r @ br_rest r = got @ br_buf r' @ br_rest r'"
  using take_drop_append [of n "take BUF_CAP (br_rest r)" "drop BUF_CAP (br_rest r)"]
  by (auto simp: br_read_def Let_def take_drop_append split: if_splits)

lemma br_read_length: "br_read n r = (got, r') \<Longrightarrow> length got \<le> n"
  by (auto simp: br_read_def Let_def split: if_splits)

lemma br_read_progress: "br_read n r = (got, r') \<Longrightarrow> 0 < n \<Longrightarrow> got = [] \<longleftrightarrow> br_buf r @ br_rest r = []"
  by (auto simp: br_read_def Let_def BUF_CAP_def split: if_splits)

text \<open>\<open>read_exact\<close>: reads until the slice is full, a read of nothing being the end of the file.\<close>

function read_exact :: "nat \<Rightarrow> buf_reader \<Rightarrow> (io_error + u8 list) \<times> buf_reader" where
  "read_exact n r =
     (if n = 0 then (Inr [], r)
      else case br_read n r of (got, r') \<Rightarrow>
        if got = [] then (Inl UnexpectedEof, r')
        else case read_exact (n - length got) r' of
          (Inl e, r'') \<Rightarrow> (Inl e, r'')
        | (Inr tail_bs, r'') \<Rightarrow> (Inr (got @ tail_bs), r''))"
  by pat_completeness auto

termination
  by (relation "measure fst") (auto simp: neq_Nil_conv)

declare read_exact.simps [simp del]

section \<open>Framing (record.rs, mod framed)\<close>

definition write_framed :: "u8 list \<Rightarrow> buf_writer \<Rightarrow> disk \<Rightarrow> (io_error + unit) \<times> buf_writer \<times> disk" where
  "write_framed archive w d =
     (case bw_write_all (u32_be (of_nat (length archive))) w d of
        (Inl e, w', d') \<Rightarrow> (Inl e, w', d')
      | (Inr _, w', d') \<Rightarrow> bw_write_all archive w' d')"

text \<open>The loop that completes a length prefix of which \<open>filled\<close> bytes have been read.\<close>

function fill_prefix :: "u8 list \<Rightarrow> buf_reader \<Rightarrow> (io_error + u8 list) \<times> buf_reader" where
  "fill_prefix filled r =
     (if 4 \<le> length filled then (Inr filled, r)
      else case br_read (4 - length filled) r of (tail_bs, r') \<Rightarrow>
        if tail_bs = [] then (Inl UnexpectedEof, r') else fill_prefix (filled @ tail_bs) r')"
  by pat_completeness auto

termination
  by (relation "measure (\<lambda>(filled, r). 4 - length filled)") (auto simp: neq_Nil_conv)

declare fill_prefix.simps [simp del]

definition read_framed :: "buf_reader \<Rightarrow> (io_error + u8 list option) \<times> buf_reader" where
  "read_framed r =
     (case br_read 4 r of (got, r1) \<Rightarrow>
        if got = [] then (Inr None, r1)
        else case (if length got = 4 then (Inr got, r1) else fill_prefix got r1) of
          (Inl e, r2) \<Rightarrow> (Inl e, r2)
        | (Inr len_buf, r2) \<Rightarrow>
            (case read_exact (from_be len_buf) r2 of
               (Inl e, r3) \<Rightarrow> (Inl e, r3)
             | (Inr buf, r3) \<Rightarrow> (Inr (Some buf), r3)))"

text \<open>What a reader still has to deliver, and the frame at its front.\<close>

definition br_left :: "buf_reader \<Rightarrow> u8 list" where
  "br_left r = br_buf r @ br_rest r"

lemma fill_prefix_spec:
  "length filled \<le> 4 \<Longrightarrow> fill_prefix filled r = (res, r') \<Longrightarrow>
     (case res of
        Inr bs \<Rightarrow> length bs = 4 \<and> filled @ br_left r = bs @ br_left r'
      | Inl e \<Rightarrow> e = UnexpectedEof \<and> length (filled @ br_left r) < 4 \<and> br_left r' = [])"
proof (induction filled r arbitrary: res r' rule: fill_prefix.induct)
  case (1 filled r)
  obtain tail_bs r1 where m: "br_read (4 - length filled) r = (tail_bs, r1)" by (metis surj_pair)
  note facts = br_read_bytes [OF m] br_read_length [OF m]
  show ?case
  proof (cases "4 \<le> length filled")
    case True
    then show ?thesis using "1.prems" by (auto simp: fill_prefix.simps [of filled r])
  next
    case False
    note progress = br_read_progress [OF m]
    show ?thesis
    proof (cases "tail_bs = []")
      case True
      with "1.prems" False m progress facts show ?thesis
        by (auto simp: fill_prefix.simps [of filled r] br_left_def)
    next
      case ne: False
      with "1.prems" False m have "fill_prefix (filled @ tail_bs) r1 = (res, r')"
        by (auto simp: fill_prefix.simps [of filled r])
      from "1.IH" [OF False m [symmetric] ne _ this] facts False show ?thesis
        by (auto simp: br_left_def split: sum.splits)
    qed
  qed
qed

lemma read_exact_spec:
  "read_exact n r = (res, r') \<Longrightarrow>
     (case res of
        Inr bs \<Rightarrow> length bs = n \<and> br_left r = bs @ br_left r'
      | Inl e \<Rightarrow> e = UnexpectedEof \<and> length (br_left r) < n \<and> br_left r' = [])"
proof (induction n r arbitrary: res r' rule: read_exact.induct)
  case (1 n r)
  obtain got r1 where m: "br_read n r = (got, r1)" by (metis surj_pair)
  note facts = br_read_bytes [OF m] br_read_length [OF m] br_read_progress [OF m]
  obtain res2 r2 where rest: "read_exact (n - length got) r1 = (res2, r2)" by (metis surj_pair)
  show ?case
  proof (cases "n = 0 \<or> got = []")
    case True
    then show ?thesis using "1.prems" m facts
      by (auto simp: read_exact.simps [of n r] br_left_def split: if_splits)
  next
    case False
    then have IH: "case res2 of
        Inr bs \<Rightarrow> length bs = n - length got \<and> br_left r1 = bs @ br_left r2
      | Inl e \<Rightarrow> e = UnexpectedEof \<and> length (br_left r1) < n - length got \<and> br_left r2 = []"
      using "1.IH" [OF _ m [symmetric] _ rest] by simp
    from "1.prems" False m rest have "(res, r') = (case res2 of Inl e \<Rightarrow> (Inl e, r2) | Inr tail_bs \<Rightarrow> (Inr (got @ tail_bs), r2))"
      by (auto simp: read_exact.simps [of n r] split: sum.splits)
    with IH facts show ?thesis by (auto simp: br_left_def split: sum.splits)
  qed
qed

text \<open>\<open>read_framed\<close> does not depend on how the reads are cut up by the buffer.\<close>

definition frame_at :: "u8 list \<Rightarrow> io_error + (u8 list \<times> u8 list) option" where
  "frame_at bs =
     (if bs = [] then Inr None
      else if length bs < 4 + from_be (take 4 bs) \<or> length bs < 4 then Inl UnexpectedEof
      else Inr (Some (take (from_be (take 4 bs)) (drop 4 bs), drop (4 + from_be (take 4 bs)) bs)))"

lemma read_framed_frame_at:
  assumes "read_framed r = (res, r')"
  shows "res = (case frame_at (br_left r) of Inl e \<Rightarrow> Inl e | Inr x \<Rightarrow> Inr (map_option fst x))"
    and "frame_at (br_left r) = Inr (Some (b, rest)) \<Longrightarrow> br_left r' = rest"
    and "length (br_left r') \<le> length (br_left r)"
    and "res = Inr (Some b) \<Longrightarrow> length (br_left r') < length (br_left r)"
proof -
  obtain got r1 where m: "br_read 4 r = (got, r1)" by (metis surj_pair)
  note facts = br_read_bytes [OF m, folded br_left_def] br_read_length [OF m] br_read_progress [OF m, folded br_left_def]
  define pre where "pre = (if length got = 4 then (Inr got, r1) else fill_prefix got r1)"
  obtain pres r2 where p: "pre = (pres, r2)" by (metis surj_pair)
  have pre_spec: "case pres of
      Inr bs \<Rightarrow> length bs = 4 \<and> br_left r = bs @ br_left r2
    | Inl e \<Rightarrow> e = UnexpectedEof \<and> length (br_left r) < 4 \<and> br_left r2 = []"
    using fill_prefix_spec [of got r1 pres r2] facts p unfolding pre_def by (auto split: if_splits sum.splits)
  have "res = (case frame_at (br_left r) of Inl e \<Rightarrow> Inl e | Inr x \<Rightarrow> Inr (map_option fst x))
    \<and> (\<forall>b rest. frame_at (br_left r) = Inr (Some (b, rest)) \<longrightarrow> br_left r' = rest)
    \<and> length (br_left r') \<le> length (br_left r)
    \<and> (\<forall>b. res = Inr (Some b) \<longrightarrow> length (br_left r') < length (br_left r))"
  proof (cases "got = []")
    case True
    with assms m facts show ?thesis by (auto simp: read_framed_def frame_at_def)
  next
    case ne: False
    with facts have ne2: "br_left r \<noteq> []" by simp
    show ?thesis
    proof (cases pres)
      case (Inl e)
      with assms m ne p pre_spec ne2 show ?thesis
        by (auto simp: read_framed_def pre_def frame_at_def split: if_splits)
    next
      case (Inr len_buf)
      obtain xres r3 where x: "read_exact (from_be len_buf) r2 = (xres, r3)" by (metis surj_pair)
      have "(res, r') = (case xres of Inl e \<Rightarrow> (Inl e, r3) | Inr buf \<Rightarrow> (Inr (Some buf), r3))"
        using assms m ne p Inr x by (auto simp: read_framed_def pre_def split: sum.splits)
      with read_exact_spec [OF x] pre_spec Inr ne show ?thesis
        by (auto simp: frame_at_def split: sum.splits)
    qed
  qed
  then show "res = (case frame_at (br_left r) of Inl e \<Rightarrow> Inl e | Inr x \<Rightarrow> Inr (map_option fst x))"
    and "frame_at (br_left r) = Inr (Some (b, rest)) \<Longrightarrow> br_left r' = rest"
    and "length (br_left r') \<le> length (br_left r)"
    and "res = Inr (Some b) \<Longrightarrow> length (br_left r') < length (br_left r)" by blast+
qed

section \<open>Segment files (segments.rs)\<close>

definition DEFAULT_MAX_SEGMENT_BYTES :: u64 where
  "DEFAULT_MAX_SEGMENT_BYTES = 1073741824"

record segment_writer =
  sw_max_segment_bytes :: u64
  sw_session :: "u64 option"
  sw_segment_idx :: u32
  sw_file :: "buf_writer option"
  sw_bytes :: u64

definition segment_writer_new :: "u64 \<Rightarrow> segment_writer" where
  "segment_writer_new mx = \<lparr>sw_max_segment_bytes = mx, sw_session = None, sw_segment_idx = 0, sw_file = None, sw_bytes = 0\<rparr>"

text \<open>\<open>format!("{:04}", n)\<close>.\<close>

definition pad_left :: "char \<Rightarrow> nat \<Rightarrow> string \<Rightarrow> string" where
  "pad_left c w s = replicate (w - length s) c @ s"

definition segment_name :: "u32 \<Rightarrow> string" where
  "segment_name idx = ''seg-'' @ pad_left (CHR ''0'') 4 (show_nat (unat idx)) @ ''.rkyv''"

definition session_dir :: "u64 \<Rightarrow> string" where
  "session_dir s = show_nat (unat s)"

text \<open>\<open>flush\<close>, \<open>close_active\<close> and \<open>open_next_segment\<close>; the path of the active segment is its directory and name.\<close>

definition sw_flush :: "segment_writer \<Rightarrow> disk \<Rightarrow> (io_error + unit) \<times> segment_writer \<times> disk" where
  "sw_flush sw d =
     (case sw_file sw of
        None \<Rightarrow> (Inr (), sw, d)
      | Some w \<Rightarrow> (case bw_flush_sync w d of (res, w', d') \<Rightarrow> (res, sw\<lparr>sw_file := Some w'\<rparr>, d')))"

definition close_active :: "segment_writer \<Rightarrow> disk \<Rightarrow> (io_error + unit) \<times> segment_writer \<times> disk" where
  "close_active sw d =
     (case sw_file sw of
        None \<Rightarrow> (Inr (), sw\<lparr>sw_bytes := 0\<rparr>, d)
      | Some w \<Rightarrow>
          (case bw_flush_sync w d of
             (Inl e, _, d') \<Rightarrow> (Inl e, sw\<lparr>sw_file := None\<rparr>, d')
           | (Inr _, _, d') \<Rightarrow> (Inr (), sw\<lparr>sw_file := None, sw_bytes := 0\<rparr>, d')))"

definition open_next_segment :: "u64 \<Rightarrow> segment_writer \<Rightarrow> disk \<Rightarrow> (io_error + unit) \<times> segment_writer \<times> disk" where
  "open_next_segment session sw d =
     (let sw = sw\<lparr>sw_segment_idx := usat_add (sw_segment_idx sw) 1\<rparr>; dir = session_dir session; name = segment_name (sw_segment_idx sw) in
      case create_dir_all dir d of
        (Inl e, d') \<Rightarrow> (Inl e, sw, d')
      | (Inr _, d') \<Rightarrow>
          (case create_new dir name d' of
             (Inl e, d'') \<Rightarrow> (Inl e, sw, d'')
           | (Inr _, d'') \<Rightarrow> (Inr (), sw\<lparr>sw_file := Some \<lparr>bw_dir = dir, bw_name = name, bw_buf = []\<rparr>, sw_bytes := 0\<rparr>, d'')))"

text \<open>\<open>Drop\<close>: a last \<open>close_active\<close> whose error is swallowed.\<close>

definition sw_drop :: "segment_writer \<Rightarrow> disk \<Rightarrow> disk" where
  "sw_drop sw d = (case close_active sw d of (_, _, d') \<Rightarrow> d')"

text \<open>The choice of \<open>append\<close>: a new session, a full segment, no open file, or the segment already open.\<close>

definition prepare_segment :: "u64 \<Rightarrow> u64 \<Rightarrow> segment_writer \<Rightarrow> disk \<Rightarrow> (io_error + unit) \<times> segment_writer \<times> disk" where
  "prepare_segment session frame_size sw d =
     (if sw_session sw \<noteq> Some session then
        (case close_active sw d of
           (Inl e, sw', d') \<Rightarrow> (Inl e, sw', d')
         | (Inr _, sw', d') \<Rightarrow> open_next_segment session (sw'\<lparr>sw_session := Some session, sw_segment_idx := 0\<rparr>) d')
      else if sw_file sw \<noteq> None \<and> usat_add (sw_bytes sw) frame_size > sw_max_segment_bytes sw then
        (case close_active sw d of
           (Inl e, sw', d') \<Rightarrow> (Inl e, sw', d')
         | (Inr _, sw', d') \<Rightarrow> open_next_segment session sw' d')
      else if sw_file sw = None then open_next_segment session (sw\<lparr>sw_segment_idx := 0\<rparr>) d
      else (Inr (), sw, d))"

definition sw_append :: "rkyv \<Rightarrow> replay_record \<Rightarrow> segment_writer \<Rightarrow> disk \<Rightarrow> (io_error + string \<times> string) \<times> segment_writer \<times> disk" where
  "sw_append rk r sw d =
     (let archive = encode_record rk r; frame_size = 4 + of_nat (length archive) in
      case prepare_segment (rr_session_id r) frame_size sw d of
        (Inl e, sw', d') \<Rightarrow> (Inl e, sw', d')
      | (Inr _, sw', d') \<Rightarrow>
          (case sw_file sw' of
             None \<Rightarrow> (Inl DeviceError, sw', d')
           | Some w \<Rightarrow>
               (case write_framed archive w d' of
                  (Inl e, w', d'') \<Rightarrow> (Inl e, sw'\<lparr>sw_file := Some w'\<rparr>, d'')
                | (Inr _, w', d'') \<Rightarrow>
                    (Inr (session_dir (rr_session_id r), segment_name (sw_segment_idx sw')),
                     sw'\<lparr>sw_file := Some w', sw_bytes := usat_add (sw_bytes sw') frame_size\<rparr>, d''))))"

text \<open>After \<open>prepare_segment\<close> succeeds a file is open, so the \<open>expect\<close> of \<open>append\<close> never fires.\<close>

lemma prepare_opens: "prepare_segment s n sw d = (Inr (), sw', d') \<Longrightarrow> sw_file sw' \<noteq> None"
  by (auto simp: prepare_segment_def open_next_segment_def Let_def split: if_splits prod.splits sum.splits)

subsection \<open>Reading a session\<close>

record segment_reader =
  sr_dir :: string
  sr_segments :: "string list"
  sr_active :: "buf_reader option"
  sr_active_idx :: nat

definition is_segment_name :: "string \<Rightarrow> bool" where
  "is_segment_name n \<longleftrightarrow> take 4 n = ''seg-'' \<and> 5 \<le> length n \<and> drop (length n - 5) n = ''.rkyv''"

definition open_session :: "disk \<Rightarrow> u64 \<Rightarrow> io_error + segment_reader" where
  "open_session d s =
     (let dir = session_dir s; reader = (\<lambda>ps. \<lparr>sr_dir = dir, sr_segments = ps, sr_active = None, sr_active_idx = 0\<rparr>) in
      case map_of (dk_base d) dir of
        None \<Rightarrow> Inr (reader [])
      | Some BaseFile \<Rightarrow> Inl NotADirectory
      | Some (SessionDir fs) \<Rightarrow>
          if dk_ok d then Inr (reader (sort (filter is_segment_name (map fst fs)))) else Inl DeviceError)"

definition open_file :: "disk \<Rightarrow> string \<Rightarrow> string \<Rightarrow> io_error + buf_reader" where
  "open_file d dir f =
     (if \<not> dk_ok d then Inl DeviceError
      else case file_contents d dir f of
        None \<Rightarrow> Inl NotFound
      | Some bs \<Rightarrow> Inr \<lparr>br_buf = [], br_rest = bs\<rparr>)"

text \<open>The first half of an iteration of \<open>next_record\<close>: the open reader, the next segment opened, or the end.\<close>

definition active_reader :: "disk \<Rightarrow> segment_reader \<Rightarrow> io_error + buf_reader option" where
  "active_reader d sr =
     (case sr_active sr of
        Some r \<Rightarrow> Inr (Some r)
      | None \<Rightarrow>
          if length (sr_segments sr) \<le> sr_active_idx sr then Inr None
          else (case open_file d (sr_dir sr) (sr_segments sr ! sr_active_idx sr) of Inl e \<Rightarrow> Inl e | Inr r \<Rightarrow> Inr (Some r)))"

function next_record :: "rkyv \<Rightarrow> disk \<Rightarrow> segment_reader \<Rightarrow> (io_error + replay_record option) \<times> segment_reader" where
  "next_record rk d sr =
     (case active_reader d sr of
        Inl e \<Rightarrow> (Inl e, sr)
      | Inr None \<Rightarrow> (Inr None, sr)
      | Inr (Some r) \<Rightarrow>
          (case read_framed r of
             (Inl e, r') \<Rightarrow> (Inl e, sr\<lparr>sr_active := Some r'\<rparr>)
           | (Inr (Some bytes), r') \<Rightarrow>
               (case decode_record rk bytes of
                  Some rec \<Rightarrow> (Inr (Some rec), sr\<lparr>sr_active := Some r'\<rparr>)
                | None \<Rightarrow> (Inl InvalidData, sr\<lparr>sr_active := Some r'\<rparr>))
           | (Inr None, _) \<Rightarrow> next_record rk d (sr\<lparr>sr_active := None, sr_active_idx := sr_active_idx sr + 1\<rparr>)))"
  by pat_completeness auto

termination
  by (relation "measure (\<lambda>(rk, d, sr). 2 * (length (sr_segments sr) - sr_active_idx sr) + (if sr_active sr = None then 0 else 1))")
    (auto simp: active_reader_def split: option.splits if_splits)

declare next_record.simps [simp del]

text \<open>The bytes a reader has not yet delivered: they shrink with every record, so \<open>read_all\<close> ends.\<close>

definition seg_bytes :: "disk \<Rightarrow> string \<Rightarrow> string \<Rightarrow> u8 list" where
  "seg_bytes d dir f = (case file_contents d dir f of Some bs \<Rightarrow> bs | None \<Rightarrow> [])"

definition sr_left :: "disk \<Rightarrow> segment_reader \<Rightarrow> u8 list" where
  "sr_left d sr =
     (case sr_active sr of
        Some r \<Rightarrow> br_left r @ concat (map (seg_bytes d (sr_dir sr)) (drop (sr_active_idx sr + 1) (sr_segments sr)))
      | None \<Rightarrow> concat (map (seg_bytes d (sr_dir sr)) (drop (sr_active_idx sr) (sr_segments sr))))"

lemma active_reader_left:
  assumes "active_reader d sr = Inr (Some r)"
  shows "sr_left d sr = br_left r @ concat (map (seg_bytes d (sr_dir sr)) (drop (sr_active_idx sr + 1) (sr_segments sr)))"
proof (cases "sr_active sr")
  case None
  with assms have lt: "sr_active_idx sr < length (sr_segments sr)"
    and op: "open_file d (sr_dir sr) (sr_segments sr ! sr_active_idx sr) = Inr r"
    by (auto simp: active_reader_def split: if_splits sum.splits)
  from op have "seg_bytes d (sr_dir sr) (sr_segments sr ! sr_active_idx sr) = br_left r"
    by (auto simp: open_file_def seg_bytes_def br_left_def split: if_splits option.splits)
  then show ?thesis using None lt by (simp add: sr_left_def Cons_nth_drop_Suc [symmetric])
qed (use assms in \<open>auto simp: active_reader_def sr_left_def\<close>)

lemma next_record_shrinks:
  "next_record rk d sr = (Inr (Some rec), sr') \<Longrightarrow> length (sr_left d sr') < length (sr_left d sr)"
proof (induction rk d sr arbitrary: rec sr' rule: next_record.induct)
  case (1 rk d sr)
  from "1.prems" obtain r where r: "active_reader d sr = Inr (Some r)"
    by (auto simp: next_record.simps [of rk d sr] split: sum.splits option.splits)
  obtain res r' where f: "read_framed r = (res, r')" by (metis surj_pair)
  note left = active_reader_left [OF r]
  show ?case
  proof (cases "res = Inr None")
    case True
    let ?sr = "sr\<lparr>sr_active := None, sr_active_idx := sr_active_idx sr + 1\<rparr>"
    have "next_record rk d ?sr = (Inr (Some rec), sr')"
      using "1.prems" r f True by (simp add: next_record.simps [of rk d sr])
    from "1.IH" [OF r refl f [symmetric] True refl this] left show ?thesis by (simp add: sr_left_def)
  next
    case False
    with "1.prems" r f obtain bytes where "res = Inr (Some bytes)" "sr' = sr\<lparr>sr_active := Some r'\<rparr>"
      by (auto simp: next_record.simps [of rk d sr] split: sum.splits option.splits)
    then show ?thesis using left read_framed_frame_at(4) [OF f] by (simp add: sr_left_def)
  qed
qed

function read_all :: "rkyv \<Rightarrow> disk \<Rightarrow> segment_reader \<Rightarrow> io_error + replay_record list" where
  "read_all rk d sr =
     (case next_record rk d sr of
        (Inl e, _) \<Rightarrow> Inl e
      | (Inr None, _) \<Rightarrow> Inr []
      | (Inr (Some r), sr') \<Rightarrow> (case read_all rk d sr' of Inl e \<Rightarrow> Inl e | Inr rs \<Rightarrow> Inr (r # rs)))"
  by pat_completeness auto

termination
  by (relation "measure (\<lambda>(rk, d, sr). length (sr_left d sr))") (auto dest: next_record_shrinks [OF sym])

declare read_all.simps [simp del]

definition list_sessions :: "disk \<Rightarrow> io_error + u64 list" where
  "list_sessions d =
     (if dk_ok d
      then Inr (map of_nat (sort (List.map_filter
             (\<lambda>(n, e). case e of BaseFile \<Rightarrow> None | SessionDir _ \<Rightarrow> parse_unsigned 10 (2 ^ 64 - 1) n) (dk_base d))))
      else Inl DeviceError)"

section \<open>The recorder (recorder.rs)\<close>

record recorder_config =
  rcf_segment_dir :: string
  rcf_max_segment_bytes :: u64

definition default_recorder_config :: recorder_config where
  "default_recorder_config = \<lparr>rcf_segment_dir = ''./replay'', rcf_max_segment_bytes = DEFAULT_MAX_SEGMENT_BYTES\<rparr>"

record recorder =
  rc_session_id :: u64
  rc_writer :: segment_writer
  rc_redis :: bool
  rc_next_seq :: u64
  rc_bytes_written :: u64
  rc_records_appended :: u64

text \<open>What a recorder acts on: the ledger directory, the Redis stream, and the error Redis answers with while it is unreachable.\<close>

record replay_io =
  ri_disk :: disk
  ri_stream :: "u8 list list"
  ri_redis_fault :: "string option"

definition recorder_new :: "u64 \<Rightarrow> recorder_config \<Rightarrow> recorder" where
  "recorder_new s cfg = \<lparr>rc_session_id = s, rc_writer = segment_writer_new (rcf_max_segment_bytes cfg), rc_redis = False,
     rc_next_seq = 0, rc_bytes_written = 0, rc_records_appended = 0\<rparr>"

definition recorder_with_redis :: "u64 \<Rightarrow> recorder_config \<Rightarrow> recorder" where
  "recorder_with_redis s cfg = (recorder_new s cfg)\<lparr>rc_redis := True\<rparr>"

definition attach_redis :: "recorder \<Rightarrow> recorder" where
  "attach_redis rc = rc\<lparr>rc_redis := True\<rparr>"

definition xadd_record :: "u8 list \<Rightarrow> replay_io \<Rightarrow> (bus_error + unit) \<times> replay_io" where
  "xadd_record archive io =
     (case ri_redis_fault io of
        None \<Rightarrow> (Inr (), io\<lparr>ri_stream := ri_stream io @ [archive]\<rparr>)
      | Some e \<Rightarrow> (Inl (RedisErr STREAM_HOT_REPLAY_RECORD e), io))"

definition recorder_flush :: "recorder \<Rightarrow> replay_io \<Rightarrow> (replay_error + unit) \<times> recorder \<times> replay_io" where
  "recorder_flush rc io =
     (case sw_flush (rc_writer rc) (ri_disk io) of
        (res, sw, d) \<Rightarrow> (map_sum SegmentIo id res, rc\<lparr>rc_writer := sw\<rparr>, io\<lparr>ri_disk := d\<rparr>))"

text \<open>\<open>Drop\<close> of the recorder: a flush whose error is swallowed, then the drop of its writer.\<close>

definition recorder_drop :: "recorder \<Rightarrow> replay_io \<Rightarrow> replay_io" where
  "recorder_drop rc io = (case recorder_flush rc io of (_, rc', io') \<Rightarrow> io'\<lparr>ri_disk := sw_drop (rc_writer rc') (ri_disk io')\<rparr>)"

definition config_mismatch :: "u64 \<Rightarrow> u64 \<Rightarrow> string" where
  "config_mismatch got want = ''record.session_id ('' @ show_nat (unat got) @ '') does not match recorder.session_id (''
     @ show_nat (unat want) @ '')''"

definition record_raw :: "rkyv \<Rightarrow> replay_record \<Rightarrow> recorder \<Rightarrow> replay_io \<Rightarrow> (replay_error + u64) \<times> recorder \<times> replay_io" where
  "record_raw rk r rc io =
     (if rr_sequence_no r \<noteq> rc_next_seq rc
      then (Inl (SequenceInvariant (rc_session_id rc) (rc_next_seq rc) (rr_sequence_no r)), rc, io)
      else if rr_session_id r \<noteq> rc_session_id rc
      then (Inl (ReplayConfigErr (config_mismatch (rr_session_id r) (rc_session_id rc))), rc, io)
      else case sw_append rk r (rc_writer rc) (ri_disk io) of
        (Inl e, sw, d) \<Rightarrow> (Inl (SegmentIo e), rc\<lparr>rc_writer := sw\<rparr>, io\<lparr>ri_disk := d\<rparr>)
      | (Inr _, sw, d) \<Rightarrow>
          let frame_size = 4 + of_nat (length (encode_record rk r));
              rc = rc\<lparr>rc_writer := sw, rc_bytes_written := usat_add (rc_bytes_written rc) frame_size\<rparr>;
              io = io\<lparr>ri_disk := d\<rparr> in
          case (if rc_redis rc then xadd_record (encode_record rk r) io else (Inr (), io)) of
            (Inl e, io') \<Rightarrow> (Inl (ReplayBus e), rc, io')
          | (Inr _, io') \<Rightarrow>
              (Inr (rc_next_seq rc),
               rc\<lparr>rc_next_seq := usat_add (rc_next_seq rc) 1, rc_records_appended := usat_add (rc_records_appended rc) 1\<rparr>, io'))"

text \<open>\<open>record\<close> at monotonic time \<open>mono_ns\<close> and wall-clock time \<open>wall\<close>.\<close>

definition record_event :: "rkyv \<Rightarrow> u64 \<Rightarrow> i64 \<Rightarrow> record_kind \<Rightarrow> u8 list \<Rightarrow> recorder \<Rightarrow> replay_io \<Rightarrow> (replay_error + u64) \<times> recorder \<times> replay_io" where
  "record_event rk mono_ns wall kind payload rc io =
     record_raw rk \<lparr>rr_session_id = rc_session_id rc, rr_sequence_no = rc_next_seq rc, rr_monotonic_ns = mono_ns,
       rr_wallclock_utc = wall, rr_kind = kind, rr_payload = payload\<rparr> rc io"

definition active_segment_path :: "recorder \<Rightarrow> (string \<times> string) option" where
  "active_segment_path rc =
     (if sw_segment_idx (rc_writer rc) = 0 then None
      else map_option (\<lambda>s. (session_dir s, segment_name (sw_segment_idx (rc_writer rc)))) (sw_session (rc_writer rc)))"

section \<open>The player (player.rs)\<close>

record player_config =
  pc_segment_dir :: string
  pc_default_speed :: replay_speed
  pc_rng_seed :: u64

definition default_player_config :: player_config where
  "default_player_config = \<lparr>pc_segment_dir = ''./replay'', pc_default_speed = X1, pc_rng_seed = 0\<rparr>"

text \<open>The seeded generator: \<open>ChaCha20Rng::seed_from_u64\<close> and \<open>next_u64\<close>.\<close>

record 'g rng_api =
  seed_from_u64 :: "u64 \<Rightarrow> 'g"
  next_u64 :: "'g \<Rightarrow> u64 \<times> 'g"

record 'g player =
  pl_session_id :: u64
  pl_records :: "replay_record list"
  pl_cursor :: nat
  pl_default_speed :: replay_speed
  pl_rng :: 'g

fun check_sequence :: "u64 \<Rightarrow> u64 \<Rightarrow> replay_record list \<Rightarrow> replay_error option" where
  "check_sequence s i [] = None"
| "check_sequence s i (r # rs) =
     (if rr_sequence_no r \<noteq> i then Some (SequenceInvariant s i (rr_sequence_no r)) else check_sequence s (i + 1) rs)"

definition from_records :: "'g rng_api \<Rightarrow> u64 \<Rightarrow> replay_record list \<Rightarrow> replay_speed \<Rightarrow> u64 \<Rightarrow> replay_error + 'g player" where
  "from_records rng s rs speed seed =
     (case check_sequence s 0 rs of
        Some e \<Rightarrow> Inl e
      | None \<Rightarrow> Inr \<lparr>pl_session_id = s, pl_records = rs, pl_cursor = 0, pl_default_speed = speed, pl_rng = seed_from_u64 rng seed\<rparr>)"

definition player_open :: "'g rng_api \<Rightarrow> rkyv \<Rightarrow> disk \<Rightarrow> u64 \<Rightarrow> player_config \<Rightarrow> replay_error + 'g player" where
  "player_open rng rk d s cfg =
     (case open_session d s of
        Inl e \<Rightarrow> Inl (SegmentIo e)
      | Inr reader \<Rightarrow>
          (case read_all rk d reader of
             Inl e \<Rightarrow> Inl (SegmentIo e)
           | Inr rs \<Rightarrow>
               (case check_sequence s 0 rs of
                  Some e \<Rightarrow> Inl e
                | None \<Rightarrow> Inr \<lparr>pl_session_id = s, pl_records = rs, pl_cursor = 0, pl_default_speed = pc_default_speed cfg,
                            pl_rng = seed_from_u64 rng (pc_rng_seed cfg)\<rparr>)))"

definition total_records :: "'g player \<Rightarrow> nat" where
  "total_records p = length (pl_records p)"

definition at_end :: "'g player \<Rightarrow> bool" where
  "at_end p \<longleftrightarrow> length (pl_records p) \<le> pl_cursor p"

definition player_step :: "'g player \<Rightarrow> replay_record option \<times> 'g player" where
  "player_step p =
     (if length (pl_records p) \<le> pl_cursor p then (None, p)
      else (Some (pl_records p ! pl_cursor p), p\<lparr>pl_cursor := pl_cursor p + 1\<rparr>))"

text \<open>The standard library's \<open>binary_search_by_key\<close>: the halving loop, then the comparison at its base.\<close>

function bsearch_base :: "(nat \<Rightarrow> u64) \<Rightarrow> u64 \<Rightarrow> nat \<Rightarrow> nat \<Rightarrow> nat" where
  "bsearch_base key target base sz =
     (if sz \<le> 1 then base
      else let half = sz div 2; mid = base + half
           in bsearch_base key target (if key mid > target then base else mid) (sz - half))"
  by pat_completeness auto

termination
  by (relation "measure (\<lambda>(key, target, base, sz). sz)") auto

declare bsearch_base.simps [simp del]

definition binary_search :: "u64 list \<Rightarrow> u64 \<Rightarrow> nat + nat" where
  "binary_search ks target =
     (if ks = [] then Inl 0
      else let base = bsearch_base (nth ks) target 0 (length ks) in
        if ks ! base = target then Inr base
        else Inl (base + (if ks ! base < target then 1 else 0)))"

definition player_seek :: "u64 \<Rightarrow> 'g player \<Rightarrow> (replay_error + unit) \<times> 'g player" where
  "player_seek target p =
     (if unat target > length (pl_records p) then (Inl (SeekNotFound target), p)
      else case binary_search (map rr_sequence_no (pl_records p)) target of
        Inr idx \<Rightarrow> (Inr (), p\<lparr>pl_cursor := idx\<rparr>)
      | Inl _ \<Rightarrow>
          if unat target = length (pl_records p) then (Inr (), p\<lparr>pl_cursor := length (pl_records p)\<rparr>)
          else (Inl (SeekNotFound target), p))"

definition player_rewind :: "'g player \<Rightarrow> 'g player" where
  "player_rewind p = p\<lparr>pl_cursor := 0\<rparr>"

text \<open>The paced stream. A sleep is its deadline on the timer's clock; polling reads that clock.\<close>

record 'g paced_replay =
  pr_player :: "'g player"
  pr_speed :: replay_speed
  pr_sleep :: "nat option"
  pr_last_monotonic_ns :: "u64 option"

datatype poll_result = PollPending | PollReady "replay_record option"

definition player_play :: "replay_speed \<Rightarrow> 'g player \<Rightarrow> 'g paced_replay" where
  "player_play speed p = \<lparr>pr_player = p, pr_speed = speed, pr_sleep = None, pr_last_monotonic_ns = None\<rparr>"

definition play_default :: "'g player \<Rightarrow> 'g paced_replay" where
  "play_default p = player_play (pl_default_speed p) p"

definition pacing_delay :: "replay_speed \<Rightarrow> u64 option \<Rightarrow> u64 \<Rightarrow> nat" where
  "pacing_delay speed previous now_ns =
     (case (speed_divisor speed, previous) of
        (None, _) \<Rightarrow> 0
      | (Some _, None) \<Rightarrow> 0
      | (Some dv, Some prev) \<Rightarrow> if now_ns > prev then unat ((now_ns - prev) div ucast dv) else 0)"

definition poll_next :: "nat \<Rightarrow> 'g paced_replay \<Rightarrow> poll_result \<times> 'g paced_replay" where
  "poll_next now q =
     (if (case pr_sleep q of Some deadline \<Rightarrow> now < deadline | None \<Rightarrow> False) then (PollPending, q)
      else let q = q\<lparr>pr_sleep := None\<rparr> in
        case player_step (pr_player q) of
          (None, p) \<Rightarrow> (PollReady None, q\<lparr>pr_player := p\<rparr>)
        | (Some r, p) \<Rightarrow>
            let delay = pacing_delay (pr_speed q) (pr_last_monotonic_ns q) (rr_monotonic_ns r);
                q = q\<lparr>pr_player := p, pr_last_monotonic_ns := Some (rr_monotonic_ns r)\<rparr> in
            (PollReady (Some r), if delay = 0 then q else q\<lparr>pr_sleep := Some (now + delay)\<rparr>))"

section \<open>Replay mode (mode.rs)\<close>

datatype replay_mode_flag = ReplayFlagOff | ReplayFlagOn

definition is_replay :: "replay_mode_flag \<Rightarrow> bool" where
  "is_replay m \<longleftrightarrow> m = ReplayFlagOn"

fun mode_as_str :: "replay_mode_flag \<Rightarrow> string" where
  "mode_as_str ReplayFlagOff = ''off''"
| "mode_as_str ReplayFlagOn = ''on''"

section \<open>Control plane (command.rs)\<close>

datatype ai_source_wire = RankingW | RegimeW | NewsW | PsychologyW | PriorityW | JournalW | GovernanceW | OtherW

datatype record_kind_wire = TickW | OrderBookW | OpenInterestW | NewsEventW | SignalEmittedW | RiskDecisionW
  | OrderSubmittedW | OrderModifiedW | OrderCancelledW | FillW | TraderActionW | AiDecisionW ai_source_wire
  | MarketConditionSnapshotW

record replay_record_wire =
  rw_session_id :: u64
  rw_sequence_no :: u64
  rw_monotonic_ns :: u64
  rw_wallclock_utc :: i64
  rw_kind :: record_kind_wire
  rw_payload_b64 :: string

fun ai_source_to_wire :: "ai_source \<Rightarrow> ai_source_wire" where
  "ai_source_to_wire AiRanking = RankingW"
| "ai_source_to_wire AiRegime = RegimeW"
| "ai_source_to_wire AiNews = NewsW"
| "ai_source_to_wire AiPsychology = PsychologyW"
| "ai_source_to_wire AiPriority = PriorityW"
| "ai_source_to_wire AiJournal = JournalW"
| "ai_source_to_wire AiGovernance = GovernanceW"
| "ai_source_to_wire AiOther = OtherW"

fun kind_to_wire :: "record_kind \<Rightarrow> record_kind_wire" where
  "kind_to_wire TickRec = TickW"
| "kind_to_wire OrderBookRec = OrderBookW"
| "kind_to_wire OpenInterestRec = OpenInterestW"
| "kind_to_wire NewsEventRec = NewsEventW"
| "kind_to_wire SignalEmittedRec = SignalEmittedW"
| "kind_to_wire RiskDecisionRec = RiskDecisionW"
| "kind_to_wire OrderSubmittedRec = OrderSubmittedW"
| "kind_to_wire OrderModifiedRec = OrderModifiedW"
| "kind_to_wire OrderCancelledRec = OrderCancelledW"
| "kind_to_wire FillRec = FillW"
| "kind_to_wire TraderActionRec = TraderActionW"
| "kind_to_wire (AIDecisionRec src) = AiDecisionW (ai_source_to_wire src)"
| "kind_to_wire MarketConditionSnapshotRec = MarketConditionSnapshotW"

unbundle bit_operations_syntax

definition BASE64_TABLE :: string where
  "BASE64_TABLE = ''ABCDEFGHIJKLMNOPQRSTUVWXYZabcdefghijklmnopqrstuvwxyz0123456789+/''"

text \<open>The table entry of the six bits of \<open>n\<close> from bit \<open>k\<close> on.\<close>

definition base64_digit :: "nat \<Rightarrow> u32 \<Rightarrow> char" where
  "base64_digit k n = BASE64_TABLE ! unat (drop_bit k n AND 0x3F)"

fun base64_encode :: "u8 list \<Rightarrow> string" where
  "base64_encode (a # b # c # rest) =
     (let n = (push_bit 16 (ucast a) OR push_bit 8 (ucast b)) OR ucast c
      in base64_digit 18 n # base64_digit 12 n # base64_digit 6 n # base64_digit 0 n # base64_encode rest)"
| "base64_encode [a, b] =
     (let n = push_bit 16 (ucast a) OR push_bit 8 (ucast b)
      in [base64_digit 18 n, base64_digit 12 n, base64_digit 6 n, CHR ''=''])"
| "base64_encode [a] = (let n = push_bit 16 (ucast a) in [base64_digit 18 n, base64_digit 12 n, CHR ''='', CHR ''=''])"
| "base64_encode [] = []"

definition record_to_wire :: "replay_record \<Rightarrow> replay_record_wire" where
  "record_to_wire r = \<lparr>rw_session_id = rr_session_id r, rw_sequence_no = rr_sequence_no r, rw_monotonic_ns = rr_monotonic_ns r,
     rw_wallclock_utc = rr_wallclock_utc r, rw_kind = kind_to_wire (rr_kind r), rw_payload_b64 = base64_encode (rr_payload r)\<rparr>"

section \<open>The command-line tool (main.rs)\<close>

datatype cli_error =
    CliMsg string
  | CliParse string string
  | CliIo string io_error
  | CliReplay string replay_error

datatype cli_args = ListArgs string | InfoArgs string u64 | DumpArgs string u64 | PlayArgs string u64 replay_speed | HelpArgs

text \<open>The option loop: \<open>None\<close> is \<open>--help\<close>.\<close>

fun scan_args :: "string list \<Rightarrow> string option \<Rightarrow> string list \<Rightarrow> cli_error + (string option \<times> string list) option" where
  "scan_args [] dir pos = Inr (Some (dir, rev pos))"
| "scan_args (a # args) dir pos =
     (if a = ''--dir'' then
        (case args of [] \<Rightarrow> Inl (CliMsg ''--dir requires a value'') | v # args' \<Rightarrow> scan_args args' (Some v) pos)
      else if a = ''-h'' \<or> a = ''--help'' then Inr None
      else scan_args args dir (a # pos))"

definition parse_session_arg :: "string \<Rightarrow> string list \<Rightarrow> cli_error + u64" where
  "parse_session_arg cmd rest =
     (case rest of
        [] \<Rightarrow> Inl (CliMsg (cmd @ '' requires <session_id>''))
      | s # _ \<Rightarrow> (case parse_unsigned 10 (2 ^ 64 - 1) s of None \<Rightarrow> Inl (CliParse ''invalid session_id: '' s) | Some n \<Rightarrow> Inr (of_nat n)))"

definition parse_args :: "string \<Rightarrow> string list \<Rightarrow> cli_error + cli_args" where
  "parse_args default_dir args =
     (case scan_args args None [] of
        Inl e \<Rightarrow> Inl e
      | Inr None \<Rightarrow> Inr HelpArgs
      | Inr (Some (dir, positional)) \<Rightarrow>
          let dir = opt_or dir default_dir in
          (case positional of
             [] \<Rightarrow> Inl (CliMsg ''missing command (try `hedge-replay --help`)'')
           | cmd # rest \<Rightarrow>
               if cmd = ''list'' then Inr (ListArgs dir)
               else if cmd = ''info'' then map_sum id (InfoArgs dir) (parse_session_arg cmd rest)
               else if cmd = ''dump'' then map_sum id (DumpArgs dir) (parse_session_arg cmd rest)
               else if cmd = ''play'' then
                 map_sum id (\<lambda>s. PlayArgs dir s
                   (case drop 1 rest of
                      sp # _ \<Rightarrow> if sp = ''x10'' then X10 else if sp = ''max'' then MaxSpeed else X1
                    | [] \<Rightarrow> X1)) (parse_session_arg cmd rest)
               else Inl (CliMsg (''unknown command: '' @ cmd))))"

fun fmt_kind :: "record_kind \<Rightarrow> string" where
  "fmt_kind TickRec = ''Tick''"
| "fmt_kind OrderBookRec = ''OrderBook''"
| "fmt_kind OpenInterestRec = ''OpenInterest''"
| "fmt_kind NewsEventRec = ''NewsEvent''"
| "fmt_kind SignalEmittedRec = ''SignalEmitted''"
| "fmt_kind RiskDecisionRec = ''RiskDecision''"
| "fmt_kind OrderSubmittedRec = ''OrderSubmitted''"
| "fmt_kind OrderModifiedRec = ''OrderModified''"
| "fmt_kind OrderCancelledRec = ''OrderCancelled''"
| "fmt_kind FillRec = ''Fill''"
| "fmt_kind TraderActionRec = ''TraderAction''"
| "fmt_kind (AIDecisionRec _) = ''AIDecision''"
| "fmt_kind MarketConditionSnapshotRec = ''MarketConditionSnapshot''"

text \<open>The printed lines of \<open>list\<close>, \<open>info\<close> and \<open>dump\<close>.\<close>

definition run_list :: "string \<Rightarrow> disk \<Rightarrow> cli_error + string list" where
  "run_list dir d =
     (case list_sessions d of
        Inl e \<Rightarrow> Inl (CliIo ''list sessions failed: '' e)
      | Inr ss \<Rightarrow> Inr (if ss = [] then [''(no sessions recorded under '' @ dir @ '')''] else map (\<lambda>s. show_nat (unat s)) ss))"

definition read_session :: "rkyv \<Rightarrow> disk \<Rightarrow> u64 \<Rightarrow> cli_error + nat \<times> replay_record list" where
  "read_session rk d s =
     (case open_session d s of
        Inl e \<Rightarrow> Inl (CliIo ''open session: '' e)
      | Inr reader \<Rightarrow>
          (case read_all rk d reader of
             Inl e \<Rightarrow> Inl (CliIo ''read records: '' e)
           | Inr rs \<Rightarrow> Inr (length (sr_segments reader), rs)))"

definition run_info :: "rkyv \<Rightarrow> disk \<Rightarrow> u64 \<Rightarrow> cli_error + string list" where
  "run_info rk d s =
     map_sum id (\<lambda>(segs, rs).
       [''session_id    : '' @ show_nat (unat s), ''segments      : '' @ show_nat segs, ''records       : '' @ show_nat (length rs)]
       @ (if rs = [] then []
          else [''first_seq     : '' @ show_nat (unat (rr_sequence_no (hd rs))),
                ''first_mono_ns : '' @ show_nat (unat (rr_monotonic_ns (hd rs))),
                ''last_seq      : '' @ show_nat (unat (rr_sequence_no (last rs))),
                ''last_mono_ns  : '' @ show_nat (unat (rr_monotonic_ns (last rs)))])) (read_session rk d s)"

definition dump_line :: "replay_record \<Rightarrow> string" where
  "dump_line r = pad_left (CHR '' '') 8 (show_nat (unat (rr_sequence_no r))) @ '' ''
     @ pad_left (CHR '' '') 20 (show_nat (unat (rr_monotonic_ns r))) @ '' '' @ fmt_kind (rr_kind r)
     @ '' (payload: '' @ show_nat (length (rr_payload r)) @ '' bytes)''"

definition run_dump :: "rkyv \<Rightarrow> disk \<Rightarrow> u64 \<Rightarrow> cli_error + string list" where
  "run_dump rk d s = map_sum id (\<lambda>(_, rs). map dump_line rs) (read_session rk d s)"

subsection \<open>Playing to the bus\<close>

text \<open>\<open>while let Some(r) = stream.next().await\<close>, for a consumer that polls whenever the timer allows: the records with their release times.\<close>

function drain_paced :: "nat \<Rightarrow> 'g paced_replay \<Rightarrow> (nat \<times> replay_record) list" where
  "drain_paced now q =
     (let t = (case pr_sleep q of Some deadline \<Rightarrow> max now deadline | None \<Rightarrow> now) in
      case poll_next t q of
        (PollReady (Some r), q') \<Rightarrow> (t, r) # drain_paced t q'
      | _ \<Rightarrow> [])"
  by pat_completeness auto

termination
  by (relation "measure (\<lambda>(now, q). length (pl_records (pr_player q)) - pl_cursor (pr_player q))")
    (auto simp: poll_next_def player_step_def Let_def split: if_splits option.splits)

declare drain_paced.simps [simp del]

record play_tick_json =
  pt_kind :: string
  pt_symbol :: string
  pt_ltp_paise :: i64
  pt_bid_paise :: i64
  pt_ask_paise :: i64
  pt_ts_recv_ns :: i64
  pt_data_synth :: bool
  pt_synth :: bool

datatype play_msg = PlayBytes string "u8 list" | PlayTickJson string play_tick_json

definition play_tick :: "u8 list \<Rightarrow> play_msg list" where
  "play_tick payload =
     (if length payload = 85 then
        let symbol_str = opt_or (symbol_for_id (read_u32 16 payload)) ''UNKNOWN'' in
        [PlayBytes (''md.tick.bin.'' @ symbol_str) payload,
         PlayTickJson (''md.tick.'' @ symbol_str)
           \<lparr>pt_kind = ''tick'', pt_symbol = symbol_str, pt_ltp_paise = read_i64 21 payload, pt_bid_paise = read_i64 29 payload,
            pt_ask_paise = read_i64 37 payload, pt_ts_recv_ns = sint (read_u64 77 payload),
            pt_data_synth = True, pt_synth = True\<rparr>]
      else [PlayBytes (md_tick 1) payload])"

text \<open>The subject of a record that is not a tick (the \<open>Tick\<close> arm is \<open>unreachable!\<close>).\<close>

fun play_subject :: "record_kind \<Rightarrow> string option" where
  "play_subject OrderBookRec = Some (md_book 1)"
| "play_subject OpenInterestRec = Some (md_oi 1)"
| "play_subject SignalEmittedRec = Some SIG_EMITTED"
| "play_subject RiskDecisionRec = Some RISK_DECISION_APPROVED"
| "play_subject OrderSubmittedRec = Some (exec_order ''submitted'')"
| "play_subject OrderModifiedRec = Some (exec_order ''modified'')"
| "play_subject OrderCancelledRec = Some (exec_order ''cancelled'')"
| "play_subject FillRec = Some (exec_fill 0)"
| "play_subject (AIDecisionRec _) = Some ''ai.replay''"
| "play_subject TraderActionRec = Some ''trader.replay''"
| "play_subject MarketConditionSnapshotRec = Some ''md.replay''"
| "play_subject NewsEventRec = Some ''news.replay''"
| "play_subject TickRec = None"

definition play_record :: "replay_record \<Rightarrow> play_msg list" where
  "play_record r =
     (case play_subject (rr_kind r) of
        None \<Rightarrow> play_tick (rr_payload r)
      | Some subject \<Rightarrow> [PlayBytes subject (rr_payload r)])"

definition join_sessions :: "string list \<Rightarrow> string" where
  "join_sessions xs = (case xs of [] \<Rightarrow> [] | x # rest \<Rightarrow> x @ concat (map (\<lambda>y. '', '' @ y) rest))"

definition available_sessions :: "disk \<Rightarrow> string" where
  "available_sessions d =
     (case list_sessions d of
        Inl _ \<Rightarrow> ''(failed to list sessions)''
      | Inr ss \<Rightarrow> if ss = [] then ''(no sessions found)'' else join_sessions (map (\<lambda>s. show_nat (unat s)) ss))"

text \<open>\<open>run_play\<close> on a connected client: the messages in publication order with the release time of their record.\<close>

definition run_play :: "'g rng_api \<Rightarrow> rkyv \<Rightarrow> disk \<Rightarrow> string \<Rightarrow> u64 \<Rightarrow> replay_speed \<Rightarrow> cli_error + (nat \<times> play_msg) list" where
  "run_play rng rk d dir s speed =
     (case player_open rng rk d s \<lparr>pc_segment_dir = dir, pc_default_speed = speed, pc_rng_seed = 0\<rparr> of
        Inl e \<Rightarrow> Inl (CliReplay ''open player: '' e)
      | Inr p \<Rightarrow>
          if total_records p = 0
          then Inl (CliMsg (''Session '' @ show_nat (unat s) @ '' has 0 records. Available sessions: '' @ available_sessions d))
          else Inr (concat (map (\<lambda>(t, r). map (Pair t) (play_record r)) (drain_paced 0 (play_default p)))))"

section \<open>The canonical fixture (bin/gen\_canonical.rs)\<close>

record gen_args =
  ga_out :: string
  ga_session_id :: u64
  ga_records :: u64

definition DEFAULT_FIXTURE_DIR :: string where "DEFAULT_FIXTURE_DIR = ''tests/fixtures/replay/canonical''"

definition DEFAULT_SESSION_ID :: u64 where "DEFAULT_SESSION_ID = 20251130"

definition DEFAULT_RECORD_COUNT :: u64 where "DEFAULT_RECORD_COUNT = 64"

text \<open>The value of an option: the next argument, read as an unsigned 64-bit number.\<close>

definition u64_value :: "string \<Rightarrow> string \<Rightarrow> cli_error + u64" where
  "u64_value opt v =
     (case parse_unsigned 10 (2 ^ 64 - 1) v of Some n \<Rightarrow> Inr (of_nat n) | None \<Rightarrow> Inl (CliParse (''invalid '' @ opt @ '': '') v))"

text \<open>The option loop of the generator; \<open>None\<close> is \<open>--help\<close>, which exits.\<close>

fun gen_parse_args :: "string list \<Rightarrow> gen_args \<Rightarrow> cli_error + gen_args option" where
  "gen_parse_args [] ga = Inr (Some ga)"
| "gen_parse_args (a # args) ga =
     (if a = ''-h'' \<or> a = ''--help'' then Inr None
      else if a \<in> {''--out'', ''--session-id'', ''--records''} then
        (case args of
           [] \<Rightarrow> Inl (CliMsg (a @ '' requires a value''))
         | v # args' \<Rightarrow>
             if a = ''--out'' then gen_parse_args args' (ga\<lparr>ga_out := v\<rparr>)
             else (case u64_value a v of
               Inl e \<Rightarrow> Inl e
             | Inr n \<Rightarrow> gen_parse_args args' (if a = ''--session-id'' then ga\<lparr>ga_session_id := n\<rparr> else ga\<lparr>ga_records := n\<rparr>)))
      else Inl (CliMsg (''unknown argument: '' @ a)))"

definition gen_default_args :: gen_args where
  "gen_default_args = \<lparr>ga_out = DEFAULT_FIXTURE_DIR, ga_session_id = DEFAULT_SESSION_ID, ga_records = DEFAULT_RECORD_COUNT\<rparr>"

definition ANCHOR_MONOTONIC_NS :: u64 where "ANCHOR_MONOTONIC_NS = 5000000"

definition ANCHOR_WALLCLOCK_NS :: i64 where "ANCHOR_WALLCLOCK_NS = 1764493200000000000"

definition TICK_GAP_NS :: u64 where "TICK_GAP_NS = 1000000"

definition kind_for_index :: "u64 \<Rightarrow> record_kind" where
  "kind_for_index i =
     (let m = unat (i mod 10) in
      if m = 0 \<or> m = 1 then TickRec else if m = 2 then SignalEmittedRec else if m = 3 then RiskDecisionRec
      else if m = 4 then OrderSubmittedRec else if m = 5 then OrderModifiedRec else if m = 6 then FillRec
      else if m = 7 then OrderCancelledRec else if m = 8 then AIDecisionRec AiRanking else MarketConditionSnapshotRec)"

definition payload_for :: "u64 \<Rightarrow> u8 \<Rightarrow> u8 list" where
  "payload_for seq kind =
     (let x = (seq * 0x9E3779B97F4A7C15) XOR ucast kind;
          x = x XOR drop_bit 27 x;
          x = x * 0x94D049BB133111EB
      in u64_be seq @ replicate 4 kind @ u32_be (ucast x))"

fun kind_discriminant :: "record_kind \<Rightarrow> u8" where
  "kind_discriminant TickRec = 0"
| "kind_discriminant OrderBookRec = 1"
| "kind_discriminant OpenInterestRec = 2"
| "kind_discriminant NewsEventRec = 3"
| "kind_discriminant SignalEmittedRec = 4"
| "kind_discriminant RiskDecisionRec = 5"
| "kind_discriminant OrderSubmittedRec = 6"
| "kind_discriminant OrderModifiedRec = 7"
| "kind_discriminant OrderCancelledRec = 8"
| "kind_discriminant FillRec = 9"
| "kind_discriminant TraderActionRec = 10"
| "kind_discriminant (AIDecisionRec _) = 11"
| "kind_discriminant MarketConditionSnapshotRec = 12"

definition canonical_record :: "u64 \<Rightarrow> u64 \<Rightarrow> replay_record" where
  "canonical_record s i =
     (let kind = kind_for_index i in
      \<lparr>rr_session_id = s, rr_sequence_no = i, rr_monotonic_ns = ANCHOR_MONOTONIC_NS + i * TICK_GAP_NS,
       rr_wallclock_utc = wrap_i64 (ANCHOR_WALLCLOCK_NS + wrap_i64 (sint i * sint TICK_GAP_NS)),
       rr_kind = kind, rr_payload = payload_for i (kind_discriminant kind)\<rparr>)"

text \<open>The \<open>for\<close> loop over the records, stopping at the first error.\<close>

fun record_list :: "rkyv \<Rightarrow> replay_record list \<Rightarrow> recorder \<Rightarrow> replay_io \<Rightarrow> (replay_error + unit) \<times> recorder \<times> replay_io" where
  "record_list rk [] rc io = (Inr (), rc, io)"
| "record_list rk (r # rs) rc io =
     (case record_raw rk r rc io of
        (Inl e, rc', io') \<Rightarrow> (Inl e, rc', io')
      | (Inr _, rc', io') \<Rightarrow> record_list rk rs rc' io')"

definition clear_session_dir :: "u64 \<Rightarrow> disk \<Rightarrow> (io_error + unit) \<times> disk" where
  "clear_session_dir s d =
     (case map_of (dk_base d) (session_dir s) of
        None \<Rightarrow> (Inr (), d)
      | Some BaseFile \<Rightarrow> (Inl NotADirectory, d)
      | Some (SessionDir _) \<Rightarrow>
          if dk_ok d then (Inr (), d\<lparr>dk_base := AList.delete (session_dir s) (dk_base d)\<rparr>) else (Inl DeviceError, d))"

definition gen_canonical :: "rkyv \<Rightarrow> u64 \<Rightarrow> u64 \<Rightarrow> string \<Rightarrow> replay_io \<Rightarrow> (cli_error + unit) \<times> replay_io" where
  "gen_canonical rk s n out io =
     (if \<not> dk_ok (ri_disk io) then (Inl (CliIo ''create out dir'' DeviceError), io)
      else case clear_session_dir s (ri_disk io) of
        (Inl e, d) \<Rightarrow> (Inl (CliIo ''clear session dir'' e), io\<lparr>ri_disk := d\<rparr>)
      | (Inr _, d) \<Rightarrow>
          (case record_list rk (map (\<lambda>i. canonical_record s (of_nat i)) [0..<unat n])
                  (recorder_new s \<lparr>rcf_segment_dir = out, rcf_max_segment_bytes = DEFAULT_MAX_SEGMENT_BYTES\<rparr>) (io\<lparr>ri_disk := d\<rparr>) of
             (Inl e, _, io') \<Rightarrow> (Inl (CliReplay ''record_raw'' e), io')
           | (Inr _, rc, io') \<Rightarrow>
               (case recorder_flush rc io' of
                  (Inl e, _, io'') \<Rightarrow> (Inl (CliReplay ''flush recorder: '' e), io'')
                | (Inr _, _, io'') \<Rightarrow> (Inr (), io''))))"

section \<open>The regression run (bin/regression.rs)\<close>

record regression_args =
  ra_dir :: string
  ra_session_id :: u64
  ra_seed :: u64

fun regression_parse_args :: "string list \<Rightarrow> regression_args \<Rightarrow> cli_error + regression_args option" where
  "regression_parse_args [] ra = Inr (Some ra)"
| "regression_parse_args (a # args) ra =
     (if a = ''-h'' \<or> a = ''--help'' then Inr None
      else if a \<in> {''--dir'', ''--session-id'', ''--seed''} then
        (case args of
           [] \<Rightarrow> Inl (CliMsg (a @ '' requires a value''))
         | v # args' \<Rightarrow>
             if a = ''--dir'' then regression_parse_args args' (ra\<lparr>ra_dir := v\<rparr>)
             else (case u64_value a v of
               Inl e \<Rightarrow> Inl e
             | Inr n \<Rightarrow> regression_parse_args args' (if a = ''--session-id'' then ra\<lparr>ra_session_id := n\<rparr> else ra\<lparr>ra_seed := n\<rparr>)))
      else Inl (CliMsg (''unknown argument: '' @ a)))"

definition regression_default_args :: regression_args where
  "regression_default_args = \<lparr>ra_dir = DEFAULT_FIXTURE_DIR, ra_session_id = DEFAULT_SESSION_ID, ra_seed = 0xDEADBEEFCAFEBABE\<rparr>"

definition RNG_COMPARE_SAMPLES :: nat where "RNG_COMPARE_SAMPLES = 1024"

fun source_label :: "ai_source \<Rightarrow> string" where
  "source_label AiRanking = ''AIDecision/Ranking''"
| "source_label AiRegime = ''AIDecision/Regime''"
| "source_label AiNews = ''AIDecision/News''"
| "source_label AiPsychology = ''AIDecision/Psychology''"
| "source_label AiPriority = ''AIDecision/Priority''"
| "source_label AiJournal = ''AIDecision/Journal''"
| "source_label AiGovernance = ''AIDecision/Governance''"
| "source_label AiOther = ''AIDecision/Other''"

definition kind_label :: "record_kind \<Rightarrow> string" where
  "kind_label k = (case k of AIDecisionRec src \<Rightarrow> source_label src | _ \<Rightarrow> fmt_kind k)"

record play_result =
  pv_records :: "replay_record list"
  pv_histogram :: "(string, u64) btree"
  pv_rng_samples :: "u64 list"

text \<open>\<open>while let Some(rec) = player.step()\<close>.\<close>

function step_all :: "'g player \<Rightarrow> (string, u64) btree \<Rightarrow> replay_record list \<Rightarrow> replay_record list \<times> (string, u64) btree \<times> 'g player" where
  "step_all p hist acc =
     (case player_step p of
        (None, p') \<Rightarrow> (rev acc, hist, p')
      | (Some r, p') \<Rightarrow>
          step_all p' (bt_insert (kind_label (rr_kind r)) (opt_or (bt_get hist (kind_label (rr_kind r))) 0 + 1) hist) (r # acc))"
  by pat_completeness auto

termination
  by (relation "measure (\<lambda>(p, hist, acc). length (pl_records p) - pl_cursor p)") (auto simp: player_step_def split: if_splits)

declare step_all.simps [simp del]

fun rng_samples :: "'g rng_api \<Rightarrow> nat \<Rightarrow> 'g \<Rightarrow> u64 list" where
  "rng_samples rng 0 g = []"
| "rng_samples rng (Suc n) g = (case next_u64 rng g of (x, g') \<Rightarrow> x # rng_samples rng n g')"

definition play_once :: "'g rng_api \<Rightarrow> rkyv \<Rightarrow> disk \<Rightarrow> string \<Rightarrow> u64 \<Rightarrow> u64 \<Rightarrow> cli_error + play_result" where
  "play_once rng rk d dir s seed =
     (case player_open rng rk d s \<lparr>pc_segment_dir = dir, pc_default_speed = MaxSpeed, pc_rng_seed = seed\<rparr> of
        Inl e \<Rightarrow> Inl (CliReplay ''Player::open failed: '' e)
      | Inr p \<Rightarrow>
          (case step_all p [] [] of
             (rs, hist, p') \<Rightarrow>
               if length rs \<noteq> total_records p
               then Inl (CliMsg (''player advertised '' @ show_nat (total_records p) @ '' records but step() yielded '' @ show_nat (length rs)))
               else Inr \<lparr>pv_records = rs, pv_histogram = hist, pv_rng_samples = rng_samples rng RNG_COMPARE_SAMPLES (pl_rng p')\<rparr>))"

datatype divergence =
    RecordCount nat nat
  | HistogramDiff
  | RngAt nat
  | RecordAt nat
  | EncodedAt nat nat nat

fun first_diff :: "nat \<Rightarrow> 'a list \<Rightarrow> 'a list \<Rightarrow> nat option" where
  "first_diff i (x # xs) (y # ys) = (if x \<noteq> y then Some i else first_diff (Suc i) xs ys)"
| "first_diff i _ _ = None"

fun diff_records :: "rkyv \<Rightarrow> nat \<Rightarrow> replay_record list \<Rightarrow> replay_record list \<Rightarrow> divergence option" where
  "diff_records rk i (r1 # as) (r2 # bs) =
     (if r1 \<noteq> r2 then Some (RecordAt i)
      else if encode_record rk r1 \<noteq> encode_record rk r2
      then Some (EncodedAt i (length (encode_record rk r1)) (length (encode_record rk r2)))
      else diff_records rk (Suc i) as bs)"
| "diff_records rk i _ _ = None"

definition diff_streams :: "rkyv \<Rightarrow> play_result \<Rightarrow> play_result \<Rightarrow> divergence + nat" where
  "diff_streams rk a b =
     (if length (pv_records a) \<noteq> length (pv_records b) then Inl (RecordCount (length (pv_records a)) (length (pv_records b)))
      else if pv_histogram a \<noteq> pv_histogram b then Inl HistogramDiff
      else if pv_rng_samples a \<noteq> pv_rng_samples b
      then Inl (RngAt (opt_or (first_diff 0 (pv_rng_samples a) (pv_rng_samples b)) (2 ^ 64 - 1)))
      else case diff_records rk 0 (pv_records a) (pv_records b) of
        Some e \<Rightarrow> Inl e
      | None \<Rightarrow> Inr (length (pv_records a)))"

text \<open>The outcome of the run: an early error, the first divergence, or the number of identical records.\<close>

definition regression_run :: "'g rng_api \<Rightarrow> rkyv \<Rightarrow> disk \<Rightarrow> string \<Rightarrow> u64 \<Rightarrow> u64 \<Rightarrow> cli_error + (divergence + nat)" where
  "regression_run rng rk d dir s seed =
     (if map_of (dk_base d) (session_dir s) = None then Inl (CliMsg ''canonical session directory does not exist'')
      else case play_once rng rk d dir s seed of
        Inl e \<Rightarrow> Inl e
      | Inr run1 \<Rightarrow>
          (case play_once rng rk d dir s seed of
             Inl e \<Rightarrow> Inl e
           | Inr run2 \<Rightarrow> Inr (diff_streams rk run1 run2)))"

end
