(* ===== verification/Replay_Facts.thy ===== *)
theory Replay_Facts
  imports Replay "HOL-Library.Multiset"
begin

text \<open>
  What the Replay_Engine guarantees. Segments: under the invariant \<open>writer_inv\<close> the ledger directory and the write buffer together hold the
  frames of the records appended so far, group by group. Recording, flushing and opening a session give back the recorded events; stepping, seeking and
  paced playback release them once and in order; a failed rotation and a failed Redis write are shown with their consequences.
\<close>

section \<open>Frames\<close>

definition frame :: "rkyv \<Rightarrow> replay_record \<Rightarrow> u8 list" where
  "frame rk r = u32_be (of_nat (length (encode_record rk r))) @ encode_record rk r"

definition frames :: "rkyv \<Rightarrow> replay_record list \<Rightarrow> u8 list" where
  "frames rk rs = concat (map (frame rk) rs)"

text \<open>What the ledger relies on of rkyv for the records at hand: an archive decodes to its record and its length fits the 32-bit prefix.\<close>

definition archives :: "rkyv \<Rightarrow> replay_record \<Rightarrow> bool" where
  "archives rk r \<longleftrightarrow> decode_record rk (encode_record rk r) = Some r \<and> length (encode_record rk r) < 2 ^ 32"

lemma frames_simps [simp]: "frames rk [] = []" "frames rk (r # rs) = frame rk r @ frames rk rs"
    "frames rk (as @ bs) = frames rk as @ frames rk bs"
  by (simp_all add: frames_def)

lemma frame_at_frame:
  assumes "archives rk r"
  shows "frame_at (frame rk r @ rest) = Inr (Some (encode_record rk r, rest))"
proof -
  have "from_be (u32_be (of_nat (length (encode_record rk r)))) = length (encode_record rk r)"
    using assms by (simp add: archives_def u32_be_def from_be_bytes unsigned_of_nat take_bit_nat_eq_self)
  moreover have "u32_be w \<noteq> []" for w by (metis length_fixed_be(1) list.size(3) zero_neq_numeral)
  ultimately show ?thesis by (auto simp: frame_at_def frame_def)
qed

section \<open>Reading a session back\<close>

lemma next_record_frame:
  assumes "active_reader d sr = Inr (Some r)" "br_left r = frame rk x @ rest" "archives rk x"
  shows "\<exists>r'. next_record rk d sr = (Inr (Some x), sr\<lparr>sr_active := Some r'\<rparr>) \<and> br_left r' = rest"
proof -
  obtain res r' where f: "read_framed r = (res, r')" by (metis surj_pair)
  have fa: "frame_at (br_left r) = Inr (Some (encode_record rk x, rest))"
    using assms by (simp add: frame_at_frame)
  from read_framed_frame_at(1,2) [OF f] fa have "res = Inr (Some (encode_record rk x))" "br_left r' = rest" by auto
  then show ?thesis using assms f by (auto simp: next_record.simps [of rk d sr] archives_def)
qed

lemma read_all_end_of_segment:
  assumes "sr_active sr = Some r" "br_left r = []"
  shows "read_all rk d sr = read_all rk d (sr\<lparr>sr_active := None, sr_active_idx := sr_active_idx sr + 1\<rparr>)"
proof -
  obtain res r' where f: "read_framed r = (res, r')" by (metis surj_pair)
  have "res = Inr None" using read_framed_frame_at(1) [OF f] assms by (simp add: frame_at_def)
  then have "next_record rk d sr = next_record rk d (sr\<lparr>sr_active := None, sr_active_idx := sr_active_idx sr + 1\<rparr>)"
    using assms f by (simp add: next_record.simps [of rk d sr] active_reader_def)
  then show ?thesis by (simp add: read_all.simps)
qed

lemma read_all_open_segment:
  assumes "sr_active sr = None" "active_reader d sr = Inr (Some r)"
  shows "read_all rk d sr = read_all rk d (sr\<lparr>sr_active := Some r\<rparr>)"
proof -
  have "next_record rk d sr = next_record rk d (sr\<lparr>sr_active := Some r\<rparr>)"
    using assms by (subst (1 2) next_record.simps) (simp add: active_reader_def split: prod.splits sum.splits option.splits)
  then show ?thesis by (simp add: read_all.simps)
qed

lemma read_all_segment:
  assumes "sr_active sr = Some r" "br_left r = frames rk g" "\<forall>x \<in> set g. archives rk x"
    and rest: "read_all rk d (sr\<lparr>sr_active := None, sr_active_idx := sr_active_idx sr + 1\<rparr>) = Inr later"
  shows "read_all rk d sr = Inr (g @ later)"
  using assms
proof (induction g arbitrary: sr r)
  case Nil
  then show ?case by (simp add: read_all_end_of_segment)
next
  case (Cons x g)
  then have "active_reader d sr = Inr (Some r)" by (simp add: active_reader_def)
  from next_record_frame [OF this, of rk x "frames rk g"] Cons.prems obtain r'
    where n: "next_record rk d sr = (Inr (Some x), sr\<lparr>sr_active := Some r'\<rparr>)" and l: "br_left r' = frames rk g" by auto
  have "read_all rk d (sr\<lparr>sr_active := Some r'\<rparr>) = Inr (g @ later)"
    using Cons.IH [of "sr\<lparr>sr_active := Some r'\<rparr>" r'] Cons.prems l by simp
  then show ?case using n by (simp add: read_all.simps [of rk d sr])
qed

lemma read_all_segments:
  assumes "dk_ok d" "sr_active sr = None" "\<forall>x \<in> set (concat gs). archives rk x"
    and "list_all2 (\<lambda>f g. file_contents d (sr_dir sr) f = Some (frames rk g)) (drop (sr_active_idx sr) (sr_segments sr)) gs"
  shows "read_all rk d sr = Inr (concat gs)"
  using assms
proof (induction gs arbitrary: sr)
  case Nil
  then have "next_record rk d sr = (Inr None, sr)"
    by (simp add: next_record.simps [of rk d sr] active_reader_def)
  then show ?case by (simp add: read_all.simps [of rk d sr])
next
  case (Cons g gs)
  let ?f = "sr_segments sr ! sr_active_idx sr"
  have "drop (sr_active_idx sr) (sr_segments sr) \<noteq> []" using Cons.prems(4) by auto
  then have lt: "sr_active_idx sr < length (sr_segments sr)" by simp
  have f: "file_contents d (sr_dir sr) ?f = Some (frames rk g)"
    and tl: "list_all2 (\<lambda>f g. file_contents d (sr_dir sr) f = Some (frames rk g)) (drop (sr_active_idx sr + 1) (sr_segments sr)) gs"
    using Cons.prems(4) by (simp_all flip: Cons_nth_drop_Suc [OF lt])
  let ?r = "\<lparr>br_buf = [], br_rest = frames rk g\<rparr>"
  have ar: "active_reader d sr = Inr (Some ?r)"
    using lt f Cons.prems(1,2) by (simp add: active_reader_def open_file_def)
  have "read_all rk d (sr\<lparr>sr_active := None, sr_active_idx := sr_active_idx sr + 1\<rparr>) = Inr (concat gs)"
    using Cons.prems tl by (intro Cons.IH) auto
  then have "read_all rk d (sr\<lparr>sr_active := Some ?r\<rparr>) = Inr (g @ concat gs)"
    using Cons.prems(3) by (intro read_all_segment [of _ ?r]) (auto simp: br_left_def)
  then show ?case using read_all_open_segment [OF Cons.prems(2) ar] by simp
qed

section \<open>Writing through the buffer\<close>

text \<open>The file a buffered writer is open on, as the last entry of its directory, with contents \<open>c\<close>.\<close>

definition open_on :: "buf_writer \<Rightarrow> disk \<Rightarrow> (string \<times> u8 list) list \<Rightarrow> u8 list \<Rightarrow> bool" where
  "open_on w d pre c \<longleftrightarrow> dk_ok d \<and> bw_name w \<notin> fst ` set pre
     \<and> map_of (dk_base d) (bw_dir w) = Some (SessionDir (pre @ [(bw_name w, c)]))"

lemma update_last: "k \<notin> fst ` set pre \<Longrightarrow> AList.update k v (pre @ [(k, c)]) = pre @ [(k, v)]"
  by (induction pre) auto

lemma map_of_last: "k \<notin> fst ` set pre \<Longrightarrow> map_of (pre @ [(k, c)]) k = Some c"
  by (induction pre) auto

lemma map_add_last: "k \<notin> fst ` set pre \<Longrightarrow> ([k \<mapsto> c] ++ map_of pre) k = Some c"
  using map_of_last [of k pre c] by simp

lemma file_append_last:
  assumes "open_on w d pre c"
  shows "\<exists>d'. file_append (bw_dir w) (bw_name w) bs d = (Inr (), d') \<and> open_on w d' pre (c @ bs)"
  using assms
  by (simp add: open_on_def file_append_def dir_files_def file_contents_def put_files_def map_add_last update_last update_conv')

lemma bw_flush_buf_ok:
  assumes "open_on w d pre c"
  shows "\<exists>d'. bw_flush_buf w d = (Inr (), w\<lparr>bw_buf := []\<rparr>, d') \<and> open_on (w\<lparr>bw_buf := []\<rparr>) d' pre (c @ bw_buf w)"
proof (cases "bw_buf w = []")
  case True
  with assms show ?thesis by (auto simp: bw_flush_buf_def open_on_def)
next
  case False
  with file_append_last [OF assms, of "bw_buf w"] show ?thesis by (auto simp: bw_flush_buf_def open_on_def)
qed

text \<open>A write extends the contents on disk followed by the buffer by exactly its bytes.\<close>

lemma bw_write_all_ok:
  assumes "open_on w d pre c"
  shows "\<exists>w' d' c'. bw_write_all bs w d = (Inr (), w', d') \<and> bw_dir w' = bw_dir w \<and> bw_name w' = bw_name w
     \<and> open_on w' d' pre c' \<and> c' @ bw_buf w' = c @ bw_buf w @ bs"
proof (cases "length bs < BUF_CAP - length (bw_buf w)")
  case True
  with assms show ?thesis by (auto simp: bw_write_all_def open_on_def)
next
  case False
  obtain w1 d1 c1 where fl: "(if length bs > BUF_CAP - length (bw_buf w) then bw_flush_buf w d else (Inr (), w, d)) = (Inr (), w1, d1)"
    and same: "bw_dir w1 = bw_dir w" "bw_name w1 = bw_name w" and on: "open_on w1 d1 pre c1"
    and c1: "c1 @ bw_buf w1 = c @ bw_buf w" and em: "length bs > BUF_CAP - length (bw_buf w) \<Longrightarrow> bw_buf w1 = []"
  proof (cases "length bs > BUF_CAP - length (bw_buf w)")
    case True
    from bw_flush_buf_ok [OF assms] obtain d1 where "bw_flush_buf w d = (Inr (), w\<lparr>bw_buf := []\<rparr>, d1)"
      "open_on (w\<lparr>bw_buf := []\<rparr>) d1 pre (c @ bw_buf w)" by blast
    then show thesis using True by (intro that [of "w\<lparr>bw_buf := []\<rparr>" d1 "c @ bw_buf w"]) simp_all
  next
    case False
    then show thesis using assms by (intro that [of w d c]) simp_all
  qed
  show ?thesis
  proof (cases "length bs \<ge> BUF_CAP")
    case big: True
    have "bw_buf w1 = []"
    proof (cases "bw_buf w = []")
      case True
      then show ?thesis using fl big em by (cases "length bs > BUF_CAP") auto
    next
      case ne: False
      then have "BUF_CAP - length (bw_buf w) < length bs" using big by (cases "bw_buf w") (auto simp: BUF_CAP_def)
      then show ?thesis using em by simp
    qed
    then show ?thesis using file_append_last [OF on, of bs] False big fl same c1 by (auto simp: bw_write_all_def)
  next
    case small: False
    then show ?thesis using False fl same c1 on by (auto simp: bw_write_all_def open_on_def)
  qed
qed

lemma write_framed_ok:
  assumes "open_on w d pre c" "archive = encode_record rk r"
  shows "\<exists>w' d' c'. write_framed archive w d = (Inr (), w', d') \<and> bw_dir w' = bw_dir w \<and> bw_name w' = bw_name w
     \<and> open_on w' d' pre c' \<and> c' @ bw_buf w' = c @ bw_buf w @ frame rk r"
proof -
  obtain w1 d1 c1 where 1: "bw_write_all (u32_be (of_nat (length archive))) w d = (Inr (), w1, d1)"
    "bw_dir w1 = bw_dir w" "bw_name w1 = bw_name w" "open_on w1 d1 pre c1"
    "c1 @ bw_buf w1 = c @ bw_buf w @ u32_be (of_nat (length archive))"
    using bw_write_all_ok [OF assms(1)] by blast
  obtain w2 d2 c2 where 2: "bw_write_all archive w1 d1 = (Inr (), w2, d2)"
    "bw_dir w2 = bw_dir w1" "bw_name w2 = bw_name w1" "open_on w2 d2 pre c2" "c2 @ bw_buf w2 = c1 @ bw_buf w1 @ archive"
    using bw_write_all_ok [OF 1(4)] by blast
  have "c2 @ bw_buf w2 = c @ bw_buf w @ frame rk r"
    using 2(5) 1(5) assms(2) by (metis append.assoc frame_def)
  then show ?thesis using 1 2 by (auto simp: write_framed_def)
qed

section \<open>Segment names\<close>

lemma read_nat_zeros [simp]: "read_nat (replicate n CHR ''0'' @ s) = read_nat s"
  by (induction n) (auto simp: read_nat_def)

lemma segment_name_inj [simp]: "segment_name i = segment_name j \<longleftrightarrow> i = j"
proof
  assume "segment_name i = segment_name j"
  then have "read_nat (pad_left CHR ''0'' 4 (show_nat (unat i))) = read_nat (pad_left CHR ''0'' 4 (show_nat (unat j)))"
    by (simp add: segment_name_def)
  then show "i = j" by (simp add: pad_left_def word_unat_eq_iff)
qed simp

lemma is_segment_name: "is_segment_name (segment_name i)"
  by (simp add: is_segment_name_def segment_name_def)

lemma digit_char_less: "a < 10 \<Longrightarrow> b < 10 \<Longrightarrow> digit_char a < digit_char b \<longleftrightarrow> a < b"
  by (simp add: digit_char_def less_char_def)

lemma pad_show_nat_Suc:
  assumes "0 < w"
  shows "pad_left CHR ''0'' (Suc w) (show_nat n) = pad_left CHR ''0'' w (show_nat (n div 10)) @ [digit_char (n mod 10)]"
proof (cases "n < 10")
  case True
  have "digit_char 0 = CHR ''0''" by code_simp
  then have "show_nat 0 = ''0''" by (simp add: show_nat.simps)
  then show ?thesis using True assms
    by (cases w) (simp_all add: pad_left_def show_nat.simps [of n] replicate_append_same)
next
  case False
  then show ?thesis by (simp add: pad_left_def show_nat.simps [of n])
qed

lemma length_pad_show_nat: "0 < w \<Longrightarrow> n < 10 ^ w \<Longrightarrow> length (pad_left CHR ''0'' w (show_nat n)) = w"
proof (induction w arbitrary: n rule: nat_induct_non_zero)
  case 1
  then show ?case by (simp add: pad_left_def show_nat.simps)
next
  case (Suc w)
  then show ?case by (simp add: pad_show_nat_Suc less_mult_imp_div_less mult.commute)
qed

lemma snoc_less_snoc:
  "length xs = length ys \<Longrightarrow> xs @ [a] < ys @ [b] \<longleftrightarrow> xs < ys \<or> xs = ys \<and> (a :: 'a::linorder) < b"
  by (induction xs ys rule: list_induct2) auto

text \<open>Zero-padded decimals of the same width sort like the numbers.\<close>

lemma pad_show_nat_less:
  "0 < w \<Longrightarrow> m < n \<Longrightarrow> n < 10 ^ w \<Longrightarrow> pad_left CHR ''0'' w (show_nat m) < pad_left CHR ''0'' w (show_nat n)"
proof (induction w arbitrary: m n rule: nat_induct_non_zero)
  case 1
  then show ?case by (simp add: pad_left_def show_nat.simps digit_char_less)
next
  case (Suc w)
  have b: "n div 10 < 10 ^ w" "m div 10 < 10 ^ w"
    using Suc.prems by (auto intro!: less_mult_imp_div_less simp: mult.commute)
  consider "m div 10 < n div 10" | "m div 10 = n div 10" "m mod 10 < n mod 10"
    using Suc.prems(1) by (metis div_le_mono le_neq_implies_less less_imp_le_nat mod_div_decomp nat_add_left_cancel_less)
  then show ?case
    using Suc.IH [of "m div 10" "n div 10"] b Suc.hyps
    by cases (simp_all add: pad_show_nat_Suc snoc_less_snoc length_pad_show_nat digit_char_less)
qed

lemma segment_name_less:
  assumes "m < n" "n < 10000"
  shows "segment_name (of_nat m) < segment_name (of_nat n)"
proof -
  have u: "unat (of_nat m :: u32) = m" "unat (of_nat n :: u32) = n"
    using assms by (simp_all add: unsigned_of_nat take_bit_nat_eq_self)
  let ?p = "\<lambda>n. pad_left CHR ''0'' 4 (show_nat n)"
  have "?p m < ?p n" "length (?p m) = length (?p n)"
    using assms by (auto intro!: pad_show_nat_less simp: length_pad_show_nat)
  moreover have "xs @ zs < ys @ zs" if "length xs = length ys" "xs < ys" for xs ys zs :: string
    using that by (induction xs ys rule: list_induct2) auto
  ultimately show ?thesis by (simp add: segment_name_def u)
qed

section \<open>The segment writer\<close>

text \<open>The files of finished segments, from index \<open>i\<close> on.\<close>

fun seg_files :: "rkyv \<Rightarrow> nat \<Rightarrow> replay_record list list \<Rightarrow> (string \<times> u8 list) list" where
  "seg_files rk i [] = []"
| "seg_files rk i (g # gs) = (segment_name (of_nat i), frames rk g) # seg_files rk (Suc i) gs"

lemma seg_files_snoc: "seg_files rk i (gs @ [g]) = seg_files rk i gs @ [(segment_name (of_nat (i + length gs)), frames rk g)]"
  by (induction gs arbitrary: i) auto

lemma seg_files_names: "map fst (seg_files rk i gs) = map (\<lambda>k. segment_name (of_nat k)) [i..<i + length gs]"
  by (induction gs arbitrary: i) (auto simp: upt_rec)

text \<open>
  The session \<open>s\<close> has finished segments \<open>old\<close> and the records \<open>cur\<close> in the open one; its directory holds nothing else, and what the open
  file lacks is in the buffer.
\<close>

definition writer_inv :: "rkyv \<Rightarrow> u64 \<Rightarrow> replay_record list list \<Rightarrow> replay_record list \<Rightarrow> segment_writer \<Rightarrow> disk \<Rightarrow> bool" where
  "writer_inv rk s old cur sw d \<longleftrightarrow> sw_session sw = Some s \<and> sw_segment_idx sw = of_nat (Suc (length old))
     \<and> (\<exists>w c. sw_file sw = Some w \<and> bw_dir w = session_dir s \<and> bw_name w = segment_name (of_nat (Suc (length old)))
            \<and> open_on w d (seg_files rk 1 old) c \<and> c @ bw_buf w = frames rk cur)"

text \<open>A session whose directory does not exist yet, or is empty.\<close>

definition fresh_session :: "u64 \<Rightarrow> disk \<Rightarrow> bool" where
  "fresh_session s d \<longleftrightarrow> dk_ok d \<and> (map_of (dk_base d) (session_dir s) = None \<or> map_of (dk_base d) (session_dir s) = Some (SessionDir []))"

lemma segment_name_fresh:
  "Suc (length gs) < 2 ^ 32 \<Longrightarrow> segment_name (of_nat (Suc (length gs))) \<notin> fst ` set (seg_files rk 1 gs)"
proof
  assume l: "Suc (length gs) < 2 ^ 32" and "segment_name (of_nat (Suc (length gs))) \<in> fst ` set (seg_files rk 1 gs)"
  then have "segment_name (of_nat (Suc (length gs))) \<in> set (map fst (seg_files rk 1 gs))" by simp
  then obtain k where k: "1 \<le> k" "k \<le> length gs" "(of_nat (Suc (length gs)) :: u32) = of_nat k"
    unfolding seg_files_names by auto
  then have "unat (of_nat (Suc (length gs)) :: u32) = unat (of_nat k :: u32)" by simp
  then have "Suc (length gs) = k" using l k(2) by (simp add: unsigned_of_nat take_bit_nat_eq_self del: of_nat_Suc)
  then show False using k by simp
qed

lemma open_next_fresh:
  assumes "sw_session sw = Some s" "sw_segment_idx sw = of_nat (length gs)" "Suc (length gs) < 2 ^ 32" "dk_ok d"
    and files: "map_of (dk_base d) (session_dir s) = Some (SessionDir (seg_files rk 1 gs)) \<or> gs = [] \<and> map_of (dk_base d) (session_dir s) = None"
  shows "\<exists>sw' d'. open_next_segment s sw d = (Inr (), sw', d') \<and> writer_inv rk s gs [] sw' d'
    \<and> sw_max_segment_bytes sw' = sw_max_segment_bytes sw \<and> sw_bytes sw' = 0"
proof -
  have idx: "usat_add (of_nat (length gs)) 1 = (of_nat (Suc (length gs)) :: u32)"
    using assms(3) by (simp add: word_unat_eq_iff unat_usat_add unsigned_of_nat take_bit_nat_eq_self del: of_nat_Suc)
  note fresh = segment_name_fresh [OF assms(3), of rk]
  then have none: "map_of (seg_files rk 1 gs) (segment_name (of_nat (Suc (length gs)))) = None"
    by (metis map_of_eq_None_iff)
  show ?thesis
    using assms(1,2,4) files none fresh
    by (auto simp: open_next_segment_def Let_def idx create_dir_all_def create_new_def file_contents_def dir_files_def
        put_files_def writer_inv_def open_on_def update_conv' simp del: of_nat_Suc)
qed

lemma bw_flush_sync_ok:
  assumes "open_on w d pre c"
  shows "\<exists>d'. bw_flush_sync w d = (Inr (), w\<lparr>bw_buf := []\<rparr>, d') \<and> open_on (w\<lparr>bw_buf := []\<rparr>) d' pre (c @ bw_buf w)"
  using bw_flush_buf_ok [OF assms] by (auto simp: bw_flush_sync_def open_on_def)

lemma close_active_ok:
  assumes "writer_inv rk s old cur sw d"
  shows "\<exists>d'. close_active sw d = (Inr (), sw\<lparr>sw_file := None, sw_bytes := 0\<rparr>, d') \<and> dk_ok d'
     \<and> map_of (dk_base d') (session_dir s) = Some (SessionDir (seg_files rk 1 (old @ [cur])))"
proof -
  from assms obtain w c where w: "sw_file sw = Some w" "bw_dir w = session_dir s" "bw_name w = segment_name (of_nat (Suc (length old)))"
    "open_on w d (seg_files rk 1 old) c" "c @ bw_buf w = frames rk cur" by (auto simp: writer_inv_def)
  from bw_flush_sync_ok [OF w(4)] w show ?thesis
    by (auto simp: close_active_def open_on_def seg_files_snoc)
qed

text \<open>The session's records so far: none with its directory still fresh, or those of the invariant.\<close>

definition ledger :: "rkyv \<Rightarrow> u64 \<Rightarrow> replay_record list \<Rightarrow> segment_writer \<Rightarrow> disk \<Rightarrow> bool" where
  "ledger rk s rs sw d \<longleftrightarrow>
     rs = [] \<and> fresh_session s d \<and> sw_session sw = None \<and> sw_file sw = None \<and> sw_segment_idx sw = 0
     \<or> (\<exists>old cur. writer_inv rk s old cur sw d \<and> concat old @ cur = rs \<and> length old < length rs)"

lemma ledger_new: "fresh_session s d \<Longrightarrow> ledger rk s [] (segment_writer_new mx) d"
  by (simp add: ledger_def segment_writer_new_def)

lemma prepare_segment_ok:
  assumes "ledger rk s rs sw d" "length rs + 1 < 2 ^ 32"
  shows "\<exists>sw' d' old cur. prepare_segment s n sw d = (Inr (), sw', d') \<and> writer_inv rk s old cur sw' d'
    \<and> concat old @ cur = rs \<and> length old \<le> length rs"
proof (cases "sw_session sw = None")
  case True
  with assms(1) have f: "rs = []" "fresh_session s d" "sw_file sw = None" by (auto simp: ledger_def writer_inv_def)
  let ?sw = "sw\<lparr>sw_bytes := 0, sw_session := Some s, sw_segment_idx := 0\<rparr>"
  from open_next_fresh [of ?sw s "[]" d rk] f obtain sw' d'
    where "open_next_segment s ?sw d = (Inr (), sw', d')" "writer_inv rk s [] [] sw' d'"
    by (auto simp: fresh_session_def)
  then show ?thesis using True f by (auto simp: prepare_segment_def close_active_def)
next
  case False
  with assms(1) obtain old cur where inv: "writer_inv rk s old cur sw d" and rs: "concat old @ cur = rs" "length old < length rs"
    by (auto simp: ledger_def)
  then have s: "sw_session sw = Some s" "sw_file sw \<noteq> None" by (auto simp: writer_inv_def)
  show ?thesis
  proof (cases "usat_add (sw_bytes sw) n > sw_max_segment_bytes sw")
    case True
    obtain d1 where cl: "close_active sw d = (Inr (), sw\<lparr>sw_file := None, sw_bytes := 0\<rparr>, d1)" "dk_ok d1"
      "map_of (dk_base d1) (session_dir s) = Some (SessionDir (seg_files rk 1 (old @ [cur])))"
      using close_active_ok [OF inv] by blast
    from open_next_fresh [of "sw\<lparr>sw_file := None, sw_bytes := 0\<rparr>" s "old @ [cur]" d1 rk] cl inv rs assms(2) obtain sw' d'
      where op: "open_next_segment s (sw\<lparr>sw_file := None, sw_bytes := 0\<rparr>) d1 = (Inr (), sw', d')" "writer_inv rk s (old @ [cur]) [] sw' d'"
      by (auto simp: writer_inv_def simp del: of_nat_Suc)
    moreover have "concat (old @ [cur]) @ [] = rs" "length (old @ [cur]) \<le> length rs" using rs by auto
    moreover have "prepare_segment s n sw d = (Inr (), sw', d')" using True s cl op by (simp add: prepare_segment_def)
    ultimately show ?thesis by blast
  next
    case False
    then have "prepare_segment s n sw d = (Inr (), sw, d)" using s by (auto simp: prepare_segment_def)
    then show ?thesis using inv rs less_imp_le by blast
  qed
qed

lemma sw_append_ok:
  assumes "ledger rk (rr_session_id r) rs sw d" "length rs + 1 < 2 ^ 32"
  shows "\<exists>path sw' d'. sw_append rk r sw d = (Inr path, sw', d') \<and> ledger rk (rr_session_id r) (rs @ [r]) sw' d'"
proof -
  let ?n = "4 + of_nat (length (encode_record rk r))"
  obtain sw1 d1 old cur where p: "prepare_segment (rr_session_id r) ?n sw d = (Inr (), sw1, d1)"
    and inv: "writer_inv rk (rr_session_id r) old cur sw1 d1" and rs: "concat old @ cur = rs" "length old \<le> length rs"
    using prepare_segment_ok [OF assms] by blast
  from inv obtain w c where w: "sw_file sw1 = Some w" "bw_dir w = session_dir (rr_session_id r)"
    "bw_name w = segment_name (of_nat (Suc (length old)))" "open_on w d1 (seg_files rk 1 old) c" "c @ bw_buf w = frames rk cur"
    by (auto simp: writer_inv_def)
  obtain w' d' c' where f: "write_framed (encode_record rk r) w d1 = (Inr (), w', d')" "bw_dir w' = bw_dir w" "bw_name w' = bw_name w"
    "open_on w' d' (seg_files rk 1 old) c'" "c' @ bw_buf w' = c @ bw_buf w @ frame rk r"
    using write_framed_ok [OF w(4) refl] by blast
  let ?sw = "sw1\<lparr>sw_file := Some w', sw_bytes := usat_add (sw_bytes sw1) ?n\<rparr>"
  have "c' @ bw_buf w' = frames rk (cur @ [r])" using f(5) w(5) by (metis append.assoc append_Nil2 frames_simps)
  then have "writer_inv rk (rr_session_id r) old (cur @ [r]) ?sw d'"
    using inv w f by (auto simp: writer_inv_def)
  moreover have "concat old @ cur @ [r] = rs @ [r]" "length old < length (rs @ [r])" using rs by auto
  ultimately have "ledger rk (rr_session_id r) (rs @ [r]) ?sw d'" unfolding ledger_def by blast
  then show ?thesis using p w f by (simp add: sw_append_def Let_def)
qed

section \<open>Recording and opening a session\<close>

text \<open>The recorder of session \<open>s\<close> after \<open>rs\<close>, with a Redis sink that answers or none.\<close>

definition recorder_inv :: "rkyv \<Rightarrow> replay_record list \<Rightarrow> recorder \<Rightarrow> replay_io \<Rightarrow> bool" where
  "recorder_inv rk rs rc io \<longleftrightarrow> ledger rk (rc_session_id rc) rs (rc_writer rc) (ri_disk io)
     \<and> rc_next_seq rc = of_nat (length rs) \<and> (rc_redis rc \<longrightarrow> ri_redis_fault io = None)"

definition stamped :: "u64 \<Rightarrow> replay_record list \<Rightarrow> bool" where
  "stamped s rs \<longleftrightarrow> (\<forall>i < length rs. rr_session_id (rs ! i) = s \<and> rr_sequence_no (rs ! i) = of_nat i)"

lemma record_raw_ok:
  assumes "recorder_inv rk rs rc io" "length rs + 1 < 2 ^ 32" "rr_session_id r = rc_session_id rc" "rr_sequence_no r = of_nat (length rs)"
  shows "\<exists>rc' io'. record_raw rk r rc io = (Inr (of_nat (length rs)), rc', io') \<and> recorder_inv rk (rs @ [r]) rc' io'
    \<and> rc_session_id rc' = rc_session_id rc"
proof -
  have "ledger rk (rr_session_id r) rs (rc_writer rc) (ri_disk io)" using assms by (simp add: recorder_inv_def)
  from sw_append_ok [OF this assms(2)] obtain path sw d
    where a: "sw_append rk r (rc_writer rc) (ri_disk io) = (Inr path, sw, d)" "ledger rk (rr_session_id r) (rs @ [r]) sw d" by blast
  have "usat_add (of_nat (length rs)) 1 = (of_nat (length (rs @ [r])) :: u64)"
    using assms(2) by (simp add: word_unat_eq_iff unat_usat_add unsigned_of_nat take_bit_nat_eq_self del: of_nat_Suc)
  then show ?thesis using a assms by (auto simp: record_raw_def recorder_inv_def xadd_record_def Let_def)
qed

lemma record_list_ok:
  assumes "recorder_inv rk done rc io" "stamped (rc_session_id rc) (done @ rs)" "length (done @ rs) < 2 ^ 32"
  shows "\<exists>rc' io'. record_list rk rs rc io = (Inr (), rc', io') \<and> recorder_inv rk (done @ rs) rc' io'
    \<and> rc_session_id rc' = rc_session_id rc"
  using assms
proof (induction rs arbitrary: "done" rc io)
  case (Cons r rs)
  have "rr_session_id r = rc_session_id rc" "rr_sequence_no r = of_nat (length done)"
    using Cons.prems(2) by (auto simp: stamped_def dest: spec [of _ "length done"])
  from record_raw_ok [OF Cons.prems(1) _ this] Cons.prems(3) obtain rc1 io1
    where "record_raw rk r rc io = (Inr (of_nat (length done)), rc1, io1)" "recorder_inv rk (done @ [r]) rc1 io1"
      "rc_session_id rc1 = rc_session_id rc" by auto
  then show ?case using Cons.IH [of "done @ [r]" rc1 io1] Cons.prems by auto
qed auto

text \<open>What a flush leaves on disk: the groups of the session's records as segment files.\<close>

definition stored :: "rkyv \<Rightarrow> u64 \<Rightarrow> replay_record list list \<Rightarrow> disk \<Rightarrow> bool" where
  "stored rk s gs d \<longleftrightarrow> dk_ok d
     \<and> (map_of (dk_base d) (session_dir s) = Some (SessionDir (seg_files rk 1 gs)) \<or> gs = [] \<and> map_of (dk_base d) (session_dir s) = None)"

lemma sw_flush_ok:
  assumes "ledger rk s rs sw d"
  shows "\<exists>sw' d' gs. sw_flush sw d = (Inr (), sw', d') \<and> stored rk s gs d' \<and> concat gs = rs \<and> length gs \<le> length rs
    \<and> sw_segment_idx sw = of_nat (length gs)"
proof (cases "sw_file sw")
  case None
  with assms have f: "rs = []" "fresh_session s d" "sw_segment_idx sw = 0" by (auto simp: ledger_def writer_inv_def)
  then have "stored rk s [] d" by (auto simp: stored_def fresh_session_def)
  then show ?thesis using None f by (intro exI [of _ sw] exI [of _ d] exI [of _ "[]"]) (simp add: sw_flush_def)
next
  case (Some w)
  with assms obtain old cur c where inv: "sw_segment_idx sw = of_nat (Suc (length old))" "concat old @ cur = rs" "length old < length rs"
    "bw_dir w = session_dir s" "bw_name w = segment_name (of_nat (Suc (length old)))"
    "open_on w d (seg_files rk 1 old) c" "c @ bw_buf w = frames rk cur" by (auto simp: ledger_def writer_inv_def)
  obtain d' where d': "bw_flush_sync w d = (Inr (), w\<lparr>bw_buf := []\<rparr>, d')"
    "open_on (w\<lparr>bw_buf := []\<rparr>) d' (seg_files rk 1 old) (c @ bw_buf w)" using bw_flush_sync_ok [OF inv(6)] by blast
  then have "stored rk s (old @ [cur]) d'" using inv by (simp add: stored_def open_on_def seg_files_snoc)
  then show ?thesis using Some d' inv
    by (intro exI [of _ "sw\<lparr>sw_file := Some (w\<lparr>bw_buf := []\<rparr>)\<rparr>"] exI [of _ d'] exI [of _ "old @ [cur]"]) (auto simp: sw_flush_def)
qed

text \<open>The same directory as \<open>read_dir\<close> may list it: its entries in any order.\<close>

definition relisted :: "u64 \<Rightarrow> disk \<Rightarrow> disk \<Rightarrow> bool" where
  "relisted s d d' \<longleftrightarrow> dk_ok d' = dk_ok d
     \<and> (case map_of (dk_base d) (session_dir s) of
          Some (SessionDir fs) \<Rightarrow> \<exists>fs'. mset fs' = mset fs \<and> map_of (dk_base d') (session_dir s) = Some (SessionDir fs')
        | x \<Rightarrow> map_of (dk_base d') (session_dir s) = x)"

lemma relisted_refl [simp]: "relisted s d d"
  by (auto simp: relisted_def split: option.splits base_entry.splits)

lemma segment_names_sorted: "k < 10000 \<Longrightarrow> sorted (map (\<lambda>i. segment_name (of_nat i)) [1..<Suc k])"
  unfolding sorted_map
  by (rule sorted_wrt_mono_rel [OF _ sorted_wrt_upt]) (auto intro!: less_imp_le segment_name_less simp del: upt_Suc)

lemma segment_names_distinct: "k < 2 ^ 32 \<Longrightarrow> distinct (map (\<lambda>i. segment_name (of_nat i)) [1..<Suc k])"
  by (auto simp: distinct_map inj_on_def word_unat_eq_iff unsigned_of_nat take_bit_nat_eq_self)

lemma seg_files_nth: "i < length gs \<Longrightarrow> seg_files rk k gs ! i = (segment_name (of_nat (k + i)), frames rk (gs ! i))"
  by (induction gs arbitrary: k i) (auto simp: nth_Cons split: nat.splits)

lemma length_seg_files [simp]: "length (seg_files rk k gs) = length gs"
  by (induction gs arbitrary: k) auto

lemma read_stored:
  assumes "stored rk s gs d" "relisted s d d'" "length gs \<le> 9999" "\<forall>x \<in> set (concat gs). archives rk x"
  shows "\<exists>sr. open_session d' s = Inr sr \<and> read_all rk d' sr = Inr (concat gs) \<and> length (sr_segments sr) = length gs"
proof (cases "map_of (dk_base d) (session_dir s) = None")
  case True
  then have "gs = []" "map_of (dk_base d') (session_dir s) = None" "dk_ok d'"
    using assms by (auto simp: stored_def relisted_def)
  then show ?thesis by (auto simp: open_session_def Let_def read_all_segments [where gs = "[]"])
next
  case False
  let ?names = "map (\<lambda>i. segment_name (of_nat i)) [1..<Suc (length gs)]"
  obtain fs where fs: "mset fs = mset (seg_files rk 1 gs)" "map_of (dk_base d') (session_dir s) = Some (SessionDir fs)" "dk_ok d'"
    using False assms by (auto simp: stored_def relisted_def split: option.splits base_entry.splits)
  have names: "map fst (seg_files rk 1 gs) = ?names" by (simp add: seg_files_names)
  have "mset (map fst fs) = mset (map fst (seg_files rk 1 gs))" using fs(1) by (metis mset_map)
  then have m: "mset (map fst fs) = mset ?names" by (simp only: names)
  have dist: "distinct (map fst fs)"
    using mset_eq_imp_distinct_iff [OF m] segment_names_distinct [of "length gs"] assms(3) by simp
  have "filter is_segment_name (map fst fs) = map fst fs"
    using m by (metis (no_types, lifting) filter_True imageE is_segment_name list.set_map set_mset_mset)
  moreover have "sort (map fst fs) = ?names"
    using m segment_names_sorted [of "length gs"] assms(3) by (intro properties_for_sort) auto
  moreover define sr where "sr = \<lparr>sr_dir = session_dir s, sr_segments = ?names, sr_active = None, sr_active_idx = 0\<rparr>"
  ultimately have sr: "open_session d' s = Inr sr" "sr_dir sr = session_dir s" "sr_segments sr = ?names"
    "sr_active sr = None" "sr_active_idx sr = 0"
    using fs by (simp_all add: open_session_def Let_def del: upt_Suc)
  have "file_contents d' (session_dir s) (?names ! i) = Some (frames rk (gs ! i))" if "i < length gs" for i
  proof -
    have "seg_files rk 1 gs ! i \<in> set (seg_files rk 1 gs)" using that by (intro nth_mem) simp
    then have "(?names ! i, frames rk (gs ! i)) \<in> set fs"
      using that fs(1) by (metis (no_types, lifting) length_map length_upt names nth_map seg_files_nth length_seg_files fst_conv set_mset_mset)
    then show ?thesis using dist fs by (simp add: file_contents_def dir_files_def)
  qed
  then have "list_all2 (\<lambda>f g. file_contents d' (sr_dir sr) f = Some (frames rk g)) (drop (sr_active_idx sr) (sr_segments sr)) gs"
    using sr by (simp add: list_all2_conv_all_nth del: upt_Suc)
  then have "read_all rk d' sr = Inr (concat gs)" using sr fs assms(4) by (intro read_all_segments) auto
  then show ?thesis using sr by (simp del: upt_Suc)
qed

lemma check_sequence_ok:
  "\<forall>i < length rs. rr_sequence_no (rs ! i) = k + of_nat i \<Longrightarrow> check_sequence s k rs = None"
proof (induction rs arbitrary: k)
  case (Cons r rs)
  have "rr_sequence_no r = k" using Cons.prems by force
  moreover have "\<forall>i < length rs. rr_sequence_no (rs ! i) = (k + 1) + of_nat i"
    using Cons.prems by (auto simp: algebra_simps dest: spec [of _ "Suc i" for i])
  ultimately show ?case using Cons.IH by simp
qed simp

lemma open_stored:
  assumes "stored rk s gs d" "relisted s d d'" "length gs \<le> 9999" "\<forall>x \<in> set (concat gs). archives rk x"
  shows "player_open rng rk d' s cfg = from_records rng s (concat gs) (pc_default_speed cfg) (pc_rng_seed cfg)"
  using read_stored [OF assms] by (auto simp: player_open_def from_records_def)

lemma from_records_stamped:
  "stamped s rs \<Longrightarrow> from_records rng s rs speed seed =
     Inr \<lparr>pl_session_id = s, pl_records = rs, pl_cursor = 0, pl_default_speed = speed, pl_rng = seed_from_u64 rng seed\<rparr>"
  by (simp add: from_records_def check_sequence_ok stamped_def)

lemma recorder_flush_stored:
  assumes "recorder_inv rk rs rc io"
  shows "\<exists>rc' io' gs. recorder_flush rc io = (Inr (), rc', io') \<and> stored rk (rc_session_id rc) gs (ri_disk io') \<and> concat gs = rs
    \<and> length gs \<le> length rs \<and> sw_segment_idx (rc_writer rc) = of_nat (length gs)"
proof -
  from assms have "ledger rk (rc_session_id rc) rs (rc_writer rc) (ri_disk io)" by (simp add: recorder_inv_def)
  from sw_flush_ok [OF this] obtain sw d gs where "sw_flush (rc_writer rc) (ri_disk io) = (Inr (), sw, d)"
    "stored rk (rc_session_id rc) gs d" "concat gs = rs" "length gs \<le> length rs" "sw_segment_idx (rc_writer rc) = of_nat (length gs)"
    by blast
  then show ?thesis
    by (intro exI [of _ "rc\<lparr>rc_writer := sw\<rparr>"] exI [of _ "io\<lparr>ri_disk := d\<rparr>"] exI [of _ gs]) (simp add: recorder_flush_def)
qed

definition start_recorder :: "bool \<Rightarrow> u64 \<Rightarrow> recorder_config \<Rightarrow> recorder" where
  "start_recorder redis s cfg = (if redis then recorder_with_redis s cfg else recorder_new s cfg)"

lemma start_recorder_inv:
  assumes "fresh_session s (ri_disk io)" "redis \<longrightarrow> ri_redis_fault io = None"
  shows "recorder_inv rk [] (start_recorder redis s cfg) io"
  using assms by (auto simp: start_recorder_def recorder_inv_def recorder_with_redis_def recorder_new_def ledger_new)

lemma start_recorder_session [simp]: "rc_session_id (start_recorder redis s cfg) = s"
  by (simp add: start_recorder_def recorder_with_redis_def recorder_new_def)

text \<open>C15: Replay ledger round trip. On a working device, recording the events of a fresh session (sequence numbers from 0, segments rotating at any
  size limit, with or without a Redis sink that answers) succeeds, and so does the flush. If at most 9999 segments were written, then opening the session
  gives a player positioned at the start with exactly the recorded events, in whatever order the system lists the directory.\<close>

theorem recorder_player_roundtrip:
  assumes "fresh_session s (ri_disk io)" "redis \<longrightarrow> ri_redis_fault io = None"
    and "stamped s rs" "length rs < 2 ^ 32" "\<forall>r \<in> set rs. archives rk r"
  shows "\<exists>rc1 io1 rc2 io2. record_list rk rs (start_recorder redis s cfg) io = (Inr (), rc1, io1)
     \<and> recorder_flush rc1 io1 = (Inr (), rc2, io2)
     \<and> (sw_segment_idx (rc_writer rc1) \<le> 9999 \<longrightarrow> (\<forall>d'. relisted s (ri_disk io2) d' \<longrightarrow>
          player_open rng rk d' s pcfg = Inr \<lparr>pl_session_id = s, pl_records = rs, pl_cursor = 0,
            pl_default_speed = pc_default_speed pcfg, pl_rng = seed_from_u64 rng (pc_rng_seed pcfg)\<rparr>))"
proof -
  obtain rc1 io1 where r: "record_list rk rs (start_recorder redis s cfg) io = (Inr (), rc1, io1)" "recorder_inv rk rs rc1 io1"
    "rc_session_id rc1 = s"
    using record_list_ok [OF start_recorder_inv [OF assms(1,2), of rk cfg], of rs] assms(3,4) by auto
  obtain rc2 io2 gs where f: "recorder_flush rc1 io1 = (Inr (), rc2, io2)" "stored rk s gs (ri_disk io2)" "concat gs = rs"
    "length gs \<le> length rs" "sw_segment_idx (rc_writer rc1) = of_nat (length gs)"
    using recorder_flush_stored [OF r(2)] r(3) by auto
  have "length gs \<le> 9999" if "sw_segment_idx (rc_writer rc1) \<le> 9999"
    using that f(4,5) assms(4) by (simp add: word_le_nat_alt unsigned_of_nat take_bit_nat_eq_self)
  then have "player_open rng rk d' s pcfg = from_records rng s rs (pc_default_speed pcfg) (pc_rng_seed pcfg)"
    if "sw_segment_idx (rc_writer rc1) \<le> 9999" "relisted s (ri_disk io2) d'" for d'
    using that open_stored [OF f(2)] f(3) assms(5) by blast
  then show ?thesis using r f from_records_stamped [OF assms(3)] by fastforce
qed

section \<open>The canonical fixture\<close>

lemma step_all_records:
  "step_all p hist acc = (rs, hist', p') \<Longrightarrow> rs = rev acc @ drop (pl_cursor p) (pl_records p) \<and> pl_rng p' = pl_rng p"
proof (induction p hist acc arbitrary: rs hist' p' rule: step_all.induct)
  case (1 p hist acc)
  show ?case
  proof (cases "length (pl_records p) \<le> pl_cursor p")
    case True
    then show ?thesis using "1.prems" by (simp add: step_all.simps [of p] player_step_def)
  next
    case False
    then have st: "player_step p = (Some (pl_records p ! pl_cursor p), p\<lparr>pl_cursor := pl_cursor p + 1\<rparr>)" by (simp add: player_step_def)
    show ?thesis using "1.IH" [OF st [symmetric] refl] "1.prems" False st
      by (simp add: step_all.simps [of p] Cons_nth_drop_Suc)
  qed
qed

lemma diff_records_refl: "diff_records rk i rs rs = None"
  by (induction rs arbitrary: i) auto

lemma diff_streams_refl: "diff_streams rk a a = Inr (length (pv_records a))"
  by (simp add: diff_streams_def diff_records_refl)

lemma regression_stored:
  assumes "stored rk s gs d" "gs \<noteq> []" "length gs \<le> 9999" "\<forall>x \<in> set (concat gs). archives rk x" "stamped s (concat gs)"
  shows "regression_run rng rk d dir s seed = Inr (Inr (length (concat gs)))"
proof -
  let ?p = "\<lparr>pl_session_id = s, pl_records = concat gs, pl_cursor = 0, pl_default_speed = MaxSpeed, pl_rng = seed_from_u64 rng seed\<rparr>"
  have op: "player_open rng rk d s \<lparr>pc_segment_dir = dir, pc_default_speed = MaxSpeed, pc_rng_seed = seed\<rparr> = Inr ?p"
    by (simp add: open_stored [OF assms(1) relisted_refl assms(3,4)] from_records_stamped [OF assms(5)])
  obtain rs hist p' where st: "step_all ?p [] [] = (rs, hist, p')" by (metis surj_pair)
  have "rs = concat gs" using step_all_records [OF st] by simp
  then obtain run where "play_once rng rk d dir s seed = Inr run" "pv_records run = concat gs"
    using op st by (simp add: play_once_def total_records_def)
  then show ?thesis using assms(1,2) by (auto simp: regression_run_def diff_streams_refl stored_def)
qed

lemma canonical_stamped: "stamped s (map (\<lambda>i. canonical_record s (of_nat i)) [0..<n])"
  by (simp add: stamped_def canonical_record_def Let_def)

text \<open>C19: Canonical fixture and regression run. On a working device where the session name is not taken by a plain file, the fixture generator
  writes its \<open>n\<close> records (1 to 9999) over whatever the session directory held, and the regression run on the result reports \<open>n\<close> identical records.\<close>

theorem canonical_regression_passes:
  assumes "dk_ok (ri_disk io)" "map_of (dk_base (ri_disk io)) (session_dir s) \<noteq> Some BaseFile"
    and "0 < unat n" "unat n \<le> 9999" "\<forall>i < unat n. archives rk (canonical_record s (of_nat i))"
  shows "\<exists>io'. gen_canonical rk s n out io = (Inr (), io') \<and> regression_run rng rk (ri_disk io') dir s seed = Inr (Inr (unat n))"
proof -
  let ?rs = "map (\<lambda>i. canonical_record s (of_nat i)) [0..<unat n]"
  let ?cfg = "\<lparr>rcf_segment_dir = out, rcf_max_segment_bytes = DEFAULT_MAX_SEGMENT_BYTES\<rparr>"
  obtain d where d: "clear_session_dir s (ri_disk io) = (Inr (), d)" "fresh_session s d"
  proof (cases "map_of (dk_base (ri_disk io)) (session_dir s)")
    case None
    then show thesis using assms(1) by (intro that [of "ri_disk io"]) (simp_all add: clear_session_dir_def fresh_session_def)
  next
    case (Some e)
    let ?d = "(ri_disk io)\<lparr>dk_base := AList.delete (session_dir s) (dk_base (ri_disk io))\<rparr>"
    obtain fs where "e = SessionDir fs" using Some assms(2) by (cases e) auto
    then show thesis using assms(1) Some by (intro that [of ?d]) (simp_all add: clear_session_dir_def fresh_session_def delete_conv')
  qed
  have "recorder_inv rk [] (recorder_new s ?cfg) (io\<lparr>ri_disk := d\<rparr>)"
    using start_recorder_inv [of s "io\<lparr>ri_disk := d\<rparr>" False rk ?cfg] d(2) by (simp add: start_recorder_def)
  from record_list_ok [OF this, of ?rs] canonical_stamped [of s "unat n"] assms(4) obtain rc1 io1
    where r: "record_list rk ?rs (recorder_new s ?cfg) (io\<lparr>ri_disk := d\<rparr>) = (Inr (), rc1, io1)" "recorder_inv rk ?rs rc1 io1" "rc_session_id rc1 = s"
    by (auto simp: recorder_new_def)
  obtain rc2 io2 gs where f: "recorder_flush rc1 io1 = (Inr (), rc2, io2)" "stored rk s gs (ri_disk io2)" "concat gs = ?rs"
    "length gs \<le> length ?rs" using recorder_flush_stored [OF r(2)] r(3) by auto
  have "gs \<noteq> []" using f(3) assms(3) by auto
  then have "regression_run rng rk (ri_disk io2) dir s seed = Inr (Inr (length (concat gs)))"
    using f assms(4,5) canonical_stamped [of s "unat n"] by (intro regression_stored) auto
  moreover have "gen_canonical rk s n out io = (Inr (), io2)" using assms(1) d r f by (simp add: gen_canonical_def)
  ultimately show ?thesis using f(3) by simp
qed

section \<open>Failures while recording\<close>

text \<open>Two events recorded one after the other through the public entry point, Redis failing with \<open>e\<close> on the first only.\<close>

definition redis_blip :: "rkyv \<Rightarrow> string \<Rightarrow> u64 \<times> i64 \<times> record_kind \<times> u8 list \<Rightarrow> u64 \<times> i64 \<times> record_kind \<times> u8 list \<Rightarrow> recorder \<Rightarrow> replay_io
    \<Rightarrow> (replay_error + u64) \<times> (replay_error + u64) \<times> recorder \<times> replay_io" where
  "redis_blip rk e a b rc io =
     (case a of (t1, w1, k1, p1) \<Rightarrow> case b of (t2, w2, k2, p2) \<Rightarrow>
        case record_event rk t1 w1 k1 p1 rc (io\<lparr>ri_redis_fault := Some e\<rparr>) of (r1, rc1, io1) \<Rightarrow>
        case record_event rk t2 w2 k2 p2 rc1 (io1\<lparr>ri_redis_fault := None\<rparr>) of (r2, rc2, io2) \<Rightarrow> (r1, r2, rc2, io2))"

definition event_record :: "u64 \<Rightarrow> nat \<Rightarrow> u64 \<times> i64 \<times> record_kind \<times> u8 list \<Rightarrow> replay_record" where
  "event_record s n ev = (case ev of (t, w, k, p) \<Rightarrow>
     \<lparr>rr_session_id = s, rr_sequence_no = of_nat n, rr_monotonic_ns = t, rr_wallclock_utc = w, rr_kind = k, rr_payload = p\<rparr>)"

lemma record_event_ok:
  assumes "recorder_inv rk rs rc io" "length rs + 1 < 2 ^ 32"
  shows "\<exists>rc' io'. record_event rk t w k p rc io = (Inr (of_nat (length rs)), rc', io')
    \<and> recorder_inv rk (rs @ [event_record (rc_session_id rc) (length rs) (t, w, k, p)]) rc' io' \<and> rc_session_id rc' = rc_session_id rc"
proof -
  have "rc_next_seq rc = of_nat (length rs)" using assms by (simp add: recorder_inv_def)
  then show ?thesis
    using record_raw_ok [OF assms, of "event_record (rc_session_id rc) (length rs) (t, w, k, p)"]
    by (simp add: record_event_def event_record_def)
qed

text \<open>A record that reached the disk while Redis was down is not counted.\<close>

lemma record_event_redis_down:
  assumes "ledger rk (rc_session_id rc) rs (rc_writer rc) (ri_disk io)" "rc_next_seq rc = of_nat n" "rc_redis rc" "ri_redis_fault io = Some e"
    and "length rs + 1 < 2 ^ 32"
  shows "\<exists>rc' io'. record_event rk t w k p rc io = (Inl (ReplayBus (RedisErr STREAM_HOT_REPLAY_RECORD e)), rc', io')
    \<and> ledger rk (rc_session_id rc) (rs @ [event_record (rc_session_id rc) n (t, w, k, p)]) (rc_writer rc') (ri_disk io')
    \<and> rc_session_id rc' = rc_session_id rc \<and> rc_next_seq rc' = of_nat n"
proof -
  let ?r = "event_record (rc_session_id rc) n (t, w, k, p)"
  have "rr_session_id ?r = rc_session_id rc" by (simp add: event_record_def)
  with sw_append_ok [of rk ?r rs "rc_writer rc" "ri_disk io"] assms obtain path sw d
    where "sw_append rk ?r (rc_writer rc) (ri_disk io) = (Inr path, sw, d)" "ledger rk (rc_session_id rc) (rs @ [?r]) sw d" by auto
  then show ?thesis using assms
    by (auto simp: record_event_def record_raw_def event_record_def xadd_record_def Let_def)
qed

lemma record_event_disk:
  assumes "ledger rk (rc_session_id rc) rs (rc_writer rc) (ri_disk io)" "rc_next_seq rc = of_nat n" "ri_redis_fault io = None"
    and "length rs + 1 < 2 ^ 32"
  shows "\<exists>rc' io'. record_event rk t w k p rc io = (Inr (of_nat n), rc', io')
    \<and> ledger rk (rc_session_id rc) (rs @ [event_record (rc_session_id rc) n (t, w, k, p)]) (rc_writer rc') (ri_disk io')
    \<and> rc_session_id rc' = rc_session_id rc"
proof -
  let ?r = "event_record (rc_session_id rc) n (t, w, k, p)"
  have "rr_session_id ?r = rc_session_id rc" by (simp add: event_record_def)
  with sw_append_ok [of rk ?r rs "rc_writer rc" "ri_disk io"] assms obtain path sw d
    where "sw_append rk ?r (rc_writer rc) (ri_disk io) = (Inr path, sw, d)" "ledger rk (rc_session_id rc) (rs @ [?r]) sw d" by auto
  then show ?thesis using assms
    by (auto simp: record_event_def record_raw_def event_record_def xadd_record_def Let_def)
qed

lemma check_sequence_duplicate:
  assumes "stamped s rs" "length rs + 1 < 2 ^ 32"
  shows "check_sequence s 0 (rs @ [event_record s (length rs) a, event_record s (length rs) b])
    = Some (SequenceInvariant s (of_nat (length rs) + 1) (of_nat (length rs)))"
proof -
  have "check_sequence s k (rs @ xs) = check_sequence s (k + of_nat (length rs)) xs"
    if "\<forall>i < length rs. rr_sequence_no (rs ! i) = k + of_nat i" for k xs
    using that
  proof (induction rs arbitrary: k)
    case (Cons r rs)
    have "rr_sequence_no r = k" using Cons.prems by force
    moreover have "\<forall>i < length rs. rr_sequence_no (rs ! i) = (k + 1) + of_nat i"
      using Cons.prems by (auto simp: algebra_simps dest: spec [of _ "Suc i" for i])
    ultimately show ?case using Cons.IH [of "k + 1"] by (simp add: algebra_simps)
  qed simp
  then show ?thesis using assms(1) by (simp add: stamped_def event_record_def split: prod.splits)
qed

text \<open>A Redis outage of one record makes the session unreadable. While the recorder has written \<open>rs\<close>, let Redis fail for the next event and
  answer again for the one after. The first call reports the Redis error although its record is on disk, the second is accepted under the same sequence number,
  and after a flush the player refuses the whole session with \<open>SequenceInvariant\<close>.\<close>

theorem redis_failure_loses_session:
  assumes "recorder_inv rk rs rc io" "rc_redis rc" "stamped (rc_session_id rc) rs" "length rs + 2 \<le> 9999"
    and "\<forall>r \<in> set (rs @ [event_record (rc_session_id rc) (length rs) a, event_record (rc_session_id rc) (length rs) b]). archives rk r"
  shows "\<exists>rc2 io2 rc3 io3. redis_blip rk e a b rc io
       = (Inl (ReplayBus (RedisErr STREAM_HOT_REPLAY_RECORD e)), Inr (of_nat (length rs)), rc2, io2)
     \<and> recorder_flush rc2 io2 = (Inr (), rc3, io3)
     \<and> player_open rng rk (ri_disk io3) (rc_session_id rc) cfg
       = Inl (SequenceInvariant (rc_session_id rc) (of_nat (length rs) + 1) (of_nat (length rs)))"
proof -
  let ?s = "rc_session_id rc" and ?n = "length rs"
  obtain t1 w1 k1 p1 t2 w2 k2 p2 where ab: "a = (t1, w1, k1, p1)" "b = (t2, w2, k2, p2)" by (metis surj_pair)
  have inv: "ledger rk ?s rs (rc_writer rc) (ri_disk (io\<lparr>ri_redis_fault := Some e\<rparr>))" "rc_next_seq rc = of_nat ?n"
    using assms(1) by (simp_all add: recorder_inv_def)
  obtain rc1 io1 where 1: "record_event rk t1 w1 k1 p1 rc (io\<lparr>ri_redis_fault := Some e\<rparr>)
      = (Inl (ReplayBus (RedisErr STREAM_HOT_REPLAY_RECORD e)), rc1, io1)"
    "ledger rk ?s (rs @ [event_record ?s ?n a]) (rc_writer rc1) (ri_disk (io1\<lparr>ri_redis_fault := None\<rparr>))"
    "rc_session_id rc1 = ?s" "rc_next_seq rc1 = of_nat ?n"
    using record_event_redis_down [OF inv assms(2), of e t1 w1 k1 p1] assms(4) by (auto simp: ab)
  obtain rc2 io2 where 2: "record_event rk t2 w2 k2 p2 rc1 (io1\<lparr>ri_redis_fault := None\<rparr>) = (Inr (of_nat ?n), rc2, io2)"
    "ledger rk ?s (rs @ [event_record ?s ?n a, event_record ?s ?n b]) (rc_writer rc2) (ri_disk io2)" "rc_session_id rc2 = ?s"
    using record_event_disk [of rk rc1 "rs @ [event_record ?s ?n a]" "io1\<lparr>ri_redis_fault := None\<rparr>" ?n t2 w2 k2 p2] 1 assms(4) ab by auto
  obtain sw d gs where f: "sw_flush (rc_writer rc2) (ri_disk io2) = (Inr (), sw, d)" "stored rk ?s gs d"
    "concat gs = rs @ [event_record ?s ?n a, event_record ?s ?n b]" "length gs \<le> ?n + 2"
    using sw_flush_ok [OF 2(2)] by auto
  have "player_open rng rk d ?s cfg = Inl (SequenceInvariant ?s (of_nat ?n + 1) (of_nat ?n))"
    using open_stored [OF f(2) relisted_refl, of rng cfg] f(3,4) assms(4,5) check_sequence_duplicate [OF assms(3), of a b]
    by (simp add: from_records_def)
  moreover have "redis_blip rk e a b rc io = (Inl (ReplayBus (RedisErr STREAM_HOT_REPLAY_RECORD e)), Inr (of_nat ?n), rc2, io2)"
    using 1 2 by (simp add: redis_blip_def ab)
  ultimately show ?thesis using f(1)
    by (intro exI [of _ rc2] exI [of _ io2] exI [of _ "rc2\<lparr>rc_writer := sw\<rparr>"] exI [of _ "io2\<lparr>ri_disk := d\<rparr>"]) (simp add: recorder_flush_def)
qed

text \<open>The state in which an append can never succeed again: no open file, and a first segment on disk.\<close>

definition wedged :: "u64 \<Rightarrow> segment_writer \<Rightarrow> disk \<Rightarrow> bool" where
  "wedged s sw d \<longleftrightarrow> sw_session sw = Some s \<and> sw_file sw = None
     \<and> (\<exists>fs. map_of (dk_base d) (session_dir s) = Some (SessionDir fs) \<and> map_of fs (segment_name 1) \<noteq> None)"

fun append_list :: "rkyv \<Rightarrow> replay_record list \<Rightarrow> segment_writer \<Rightarrow> disk \<Rightarrow> (io_error + string \<times> string) list \<times> segment_writer \<times> disk" where
  "append_list rk [] sw d = ([], sw, d)"
| "append_list rk (r # rs) sw d =
     (case sw_append rk r sw d of (res, sw', d') \<Rightarrow>
        case append_list rk rs sw' d' of (more_res, sw'', d'') \<Rightarrow> (res # more_res, sw'', d''))"

lemma append_wedged:
  assumes "wedged (rr_session_id r) sw d"
  shows "sw_append rk r sw d = (Inl (if dk_ok d then AlreadyExists else DeviceError), sw\<lparr>sw_segment_idx := 1\<rparr>, d)"
proof -
  have "usat_add 0 1 = (1 :: u32)" by (simp add: usat_add_def)
  with assms show ?thesis
    by (auto simp: wedged_def sw_append_def prepare_segment_def open_next_segment_def create_dir_all_def create_new_def
        file_contents_def dir_files_def Let_def)
qed

lemma append_list_wedged:
  "wedged s sw d \<Longrightarrow> dk_ok d \<Longrightarrow> \<forall>r \<in> set rs. rr_session_id r = s \<Longrightarrow>
     \<exists>sw'. append_list rk rs sw d = (map (\<lambda>_. Inl AlreadyExists) rs, sw', d)"
proof (induction rs arbitrary: sw)
  case (Cons r rs)
  have "wedged s (sw\<lparr>sw_segment_idx := 1\<rparr>) d" using Cons.prems(1) by (simp add: wedged_def)
  from Cons.IH [OF this] Cons.prems append_wedged [of r sw d rk] show ?case by auto
qed simp

lemma first_segment_listed: "map_of (seg_files rk 1 old @ [(segment_name (of_nat (Suc (length old))), c)]) (segment_name 1) \<noteq> None"
  by (cases old) auto

text \<open>A failed rotation stops the ledger for good. When the device fails at the moment a full segment is closed, that append reports the error, and
  every later append to the session fails with \<open>AlreadyExists\<close> even though the device works again: the writer restarts at segment 1, whose file exists.\<close>

theorem failed_rotation_wedges:
  assumes "writer_inv rk s old cur sw d" "rr_session_id r = s"
    and "usat_add (sw_bytes sw) (4 + of_nat (length (encode_record rk r))) > sw_max_segment_bytes sw"
    and "\<forall>x \<in> set rs. rr_session_id x = s"
  shows "\<exists>sw1 d1 sw2. sw_append rk r sw (d\<lparr>dk_ok := False\<rparr>) = (Inl DeviceError, sw1, d1)
     \<and> append_list rk rs sw1 (d1\<lparr>dk_ok := True\<rparr>) = (map (\<lambda>_. Inl AlreadyExists) rs, sw2, d1\<lparr>dk_ok := True\<rparr>)"
proof -
  from assms(1) obtain w c where w: "sw_session sw = Some s" "sw_file sw = Some w" "bw_dir w = session_dir s"
    "bw_name w = segment_name (of_nat (Suc (length old)))" "open_on w d (seg_files rk 1 old) c" by (auto simp: writer_inv_def)
  let ?d = "d\<lparr>dk_ok := False\<rparr>" and ?sw = "sw\<lparr>sw_file := None\<rparr>"
  have "close_active sw ?d = (Inl DeviceError, ?sw, ?d)"
    using w by (simp add: close_active_def bw_flush_sync_def bw_flush_buf_def file_append_def)
  then have a: "sw_append rk r sw ?d = (Inl DeviceError, ?sw, ?d)"
    using w assms(2,3) by (simp add: sw_append_def prepare_segment_def Let_def)
  have "wedged s ?sw (?d\<lparr>dk_ok := True\<rparr>)"
    using w first_segment_listed [of rk old c] by (auto simp: wedged_def open_on_def simp del: of_nat_Suc)
  then show ?thesis using append_list_wedged [of s ?sw "?d\<lparr>dk_ok := True\<rparr>" rs rk] assms(4) a by auto
qed

text \<open>A recorder started again for a session that already has a segment: its first append fails, and so does every later one.\<close>

lemma restarted_recorder_wedges:
  assumes "dk_ok d" "map_of (dk_base d) (session_dir (rr_session_id r)) = Some (SessionDir fs)" "map_of fs (segment_name 1) \<noteq> None"
  shows "\<exists>sw'. sw_append rk r (segment_writer_new mx) d = (Inl AlreadyExists, sw', d) \<and> wedged (rr_session_id r) sw' d"
proof -
  have "usat_add 0 1 = (1 :: u32)" by (simp add: usat_add_def)
  with assms show ?thesis
    by (auto simp: wedged_def sw_append_def segment_writer_new_def prepare_segment_def close_active_def open_next_segment_def create_dir_all_def
        create_new_def file_contents_def dir_files_def Let_def)
qed

text \<open>Past four digits the names no longer sort like the indices: segment 10000 is read before segment 9999.\<close>

lemma segment_names_out_of_order: "segment_name 10000 < segment_name 9999"
  by (simp add: segment_name_def pad_left_def show_nat.simps digit_char_less)

section \<open>Seeking and stepping\<close>

lemma bsearch_base_finds:
  "\<forall>i < n. key i = of_nat i \<Longrightarrow> n < 2 ^ 64 \<Longrightarrow> base \<le> t \<Longrightarrow> t < base + sz \<Longrightarrow> base + sz \<le> n \<Longrightarrow>
     bsearch_base key (of_nat t) base sz = t"
proof (induction key "of_nat t :: u64" base sz rule: bsearch_base.induct)
  case (1 key base sz)
  show ?case
  proof (cases "sz \<le> 1")
    case True
    then show ?thesis using "1.prems" by (simp add: bsearch_base.simps)
  next
    case False
    let ?mid = "base + sz div 2"
    have lt: "key ?mid > of_nat t \<longleftrightarrow> t < ?mid"
      using "1.prems" False by (simp add: word_less_nat_alt unsigned_of_nat take_bit_nat_eq_self del: of_nat_add)
    then have "bsearch_base key (of_nat t) base sz = bsearch_base key (of_nat t) (if t < ?mid then base else ?mid) (sz - sz div 2)"
      using False by (simp add: bsearch_base.simps [of key _ base sz] Let_def)
    also have "\<dots> = t"
      using "1.prems"(3-5) False by (intro "1.hyps" [OF False refl refl, unfolded lt, OF "1.prems"(1,2)]) auto
    finally show ?thesis .
  qed
qed

lemma bsearch_base_less: "0 < sz \<Longrightarrow> bsearch_base key t base sz < base + sz"
proof (induction key t base sz rule: bsearch_base.induct)
  case (1 key t base sz)
  show ?case
  proof (cases "sz \<le> 1")
    case True
    then show ?thesis using "1.prems" by (simp add: bsearch_base.simps)
  next
    case False
    then show ?thesis using "1.IH" [OF False refl refl] by (auto simp: bsearch_base.simps [of key t base sz] Let_def split: if_splits)
  qed
qed

lemma binary_search_stamped:
  assumes "\<forall>i < length ks. ks ! i = of_nat i" "length ks < 2 ^ 64"
  shows "unat t < length ks \<Longrightarrow> binary_search ks t = Inr (unat t)"
    and "length ks \<le> unat t \<Longrightarrow> \<exists>i. binary_search ks t = Inl i"
proof -
  assume "unat t < length ks"
  then show "binary_search ks t = Inr (unat t)"
    using bsearch_base_finds [of "length ks" "nth ks" 0 "unat t" "length ks"] assms by (auto simp: binary_search_def)
next
  assume le: "length ks \<le> unat t"
  show "\<exists>i. binary_search ks t = Inl i"
  proof (cases "ks = []")
    case False
    let ?b = "bsearch_base (nth ks) t 0 (length ks)"
    have "?b < length ks" using bsearch_base_less [of "length ks" "nth ks" t 0] False by simp
    then have "unat (ks ! ?b) < unat t" using assms le by (simp add: unsigned_of_nat take_bit_nat_eq_self)
    then show ?thesis using False by (auto simp: binary_search_def Let_def)
  qed (simp add: binary_search_def)
qed

text \<open>Seeking. In an opened session of \<open>n\<close> records, \<open>seek t\<close> puts the cursor on the record with sequence number \<open>t\<close> (or parks it at the end for
  \<open>t = n\<close>), so that the next \<open>step\<close> returns that record; any larger target is refused and leaves the player as it was.\<close>

theorem seek_then_step:
  assumes "stamped s (pl_records p)" "length (pl_records p) < 2 ^ 64"
  shows "player_seek t p = (if unat t \<le> length (pl_records p) then (Inr (), p\<lparr>pl_cursor := unat t\<rparr>) else (Inl (SeekNotFound t), p))
    \<and> (unat t < length (pl_records p) \<longrightarrow>
        (\<exists>r p'. player_step (snd (player_seek t p)) = (Some r, p') \<and> rr_sequence_no r = t \<and> pl_cursor p' = unat t + 1))"
proof -
  let ?ks = "map rr_sequence_no (pl_records p)"
  have ks: "\<forall>i < length ?ks. ?ks ! i = of_nat i" "length ?ks < 2 ^ 64" using assms by (auto simp: stamped_def)
  have seek: "player_seek t p = (if unat t \<le> length (pl_records p) then (Inr (), p\<lparr>pl_cursor := unat t\<rparr>) else (Inl (SeekNotFound t), p))"
    using binary_search_stamped [OF ks, of t] by (cases "unat t" "length (pl_records p)" rule: linorder_cases) (auto simp: player_seek_def)
  then show ?thesis using assms(1) by (auto simp: player_step_def stamped_def)
qed

section \<open>Paced playback\<close>

text \<open>The release times of a list of records when the first is due at \<open>t\<close>.\<close>

fun release_plan :: "replay_speed \<Rightarrow> u64 option \<Rightarrow> nat \<Rightarrow> replay_record list \<Rightarrow> (nat \<times> replay_record) list" where
  "release_plan speed prev t [] = []"
| "release_plan speed prev t (r # rs) =
     (t, r) # release_plan speed (Some (rr_monotonic_ns r)) (t + pacing_delay speed prev (rr_monotonic_ns r)) rs"

definition due :: "nat \<Rightarrow> 'g paced_replay \<Rightarrow> nat" where
  "due now q = (case pr_sleep q of Some deadline \<Rightarrow> max now deadline | None \<Rightarrow> now)"

lemma poll_next_due:
  assumes "t = due now q"
  shows "pl_cursor (pr_player q) < length (pl_records (pr_player q)) \<Longrightarrow>
     \<exists>q'. poll_next t q = (PollReady (Some (pl_records (pr_player q) ! pl_cursor (pr_player q))), q')
       \<and> pr_player q' = (pr_player q)\<lparr>pl_cursor := pl_cursor (pr_player q) + 1\<rparr> \<and> pr_speed q' = pr_speed q
       \<and> pr_last_monotonic_ns q' = Some (rr_monotonic_ns (pl_records (pr_player q) ! pl_cursor (pr_player q)))
       \<and> due t q' = t + pacing_delay (pr_speed q) (pr_last_monotonic_ns q) (rr_monotonic_ns (pl_records (pr_player q) ! pl_cursor (pr_player q)))"
    and "length (pl_records (pr_player q)) \<le> pl_cursor (pr_player q) \<Longrightarrow> fst (poll_next t q) = PollReady None"
  using assms by (auto simp: due_def poll_next_def player_step_def Let_def split: option.splits)

lemma drain_paced_plan:
  "drain_paced now q = release_plan (pr_speed q) (pr_last_monotonic_ns q) (due now q) (drop (pl_cursor (pr_player q)) (pl_records (pr_player q)))"
proof (induction now q rule: drain_paced.induct)
  case (1 now q)
  let ?p = "pr_player q" and ?t = "due now q"
  have unf: "drain_paced now q = (case poll_next ?t q of (PollReady (Some r), q') \<Rightarrow> (?t, r) # drain_paced ?t q' | _ \<Rightarrow> [])"
    by (simp only: drain_paced.simps [of now q] due_def Let_def)
  show ?case
  proof (cases "pl_cursor ?p < length (pl_records ?p)")
    case True
    let ?r = "pl_records ?p ! pl_cursor ?p"
    from poll_next_due(1) [OF refl True, of now] obtain q' where q': "poll_next ?t q = (PollReady (Some ?r), q')"
      "pr_player q' = ?p\<lparr>pl_cursor := pl_cursor ?p + 1\<rparr>" "pr_speed q' = pr_speed q" "pr_last_monotonic_ns q' = Some (rr_monotonic_ns ?r)"
      "due ?t q' = ?t + pacing_delay (pr_speed q) (pr_last_monotonic_ns q) (rr_monotonic_ns ?r)" by blast
    have "drain_paced ?t q' = release_plan (pr_speed q') (pr_last_monotonic_ns q') (due ?t q') (drop (pl_cursor (pr_player q')) (pl_records (pr_player q')))"
      using "1.IH" [of ?t, OF _ q'(1) [symmetric] refl refl] by (simp add: due_def)
    then show ?thesis using unf q' True by (simp add: Cons_nth_drop_Suc [symmetric])
  next
    case False
    then have "fst (poll_next ?t q) = PollReady None" by (intro poll_next_due(2)) auto
    then show ?thesis using unf False by (cases "poll_next ?t q") auto
  qed
qed

lemma release_plan_records: "map snd (release_plan speed prev t rs) = rs"
  by (induction rs arbitrary: prev t) auto

lemma release_plan_times:
  "k < length rs \<Longrightarrow> fst (release_plan speed (Some m) t rs ! k)
     = t + (\<Sum>j<k. pacing_delay speed (Some (if j = 0 then m else rr_monotonic_ns (rs ! (j - 1)))) (rr_monotonic_ns (rs ! j)))"
proof (induction rs arbitrary: m t k)
  case (Cons r rs)
  show ?case
  proof (cases k)
    case (Suc i)
    let ?f = "\<lambda>j. pacing_delay speed (Some (if j = 0 then m else rr_monotonic_ns ((r # rs) ! (j - 1)))) (rr_monotonic_ns ((r # rs) ! j))"
    have "(\<Sum>j<k. ?f j) = ?f 0 + (\<Sum>j<i. ?f (Suc j))" using Suc by (simp add: sum.lessThan_Suc_shift del: sum.lessThan_Suc)
    moreover have "?f (Suc j) = pacing_delay speed (Some (if j = 0 then rr_monotonic_ns r else rr_monotonic_ns (rs ! (j - 1)))) (rr_monotonic_ns (rs ! j))" for j
      by (cases j) auto
    ultimately show ?thesis using Cons.IH [of i "rr_monotonic_ns r"] Cons.prems Suc by simp
  qed simp
qed simp

text \<open>What a consumer receives that polls at the times \<open>ts\<close>, whether or not they suit the timer.\<close>

fun poll_at :: "nat list \<Rightarrow> 'g paced_replay \<Rightarrow> replay_record list" where
  "poll_at [] q = []"
| "poll_at (t # ts) q =
     (case poll_next t q of
        (PollReady (Some r), q') \<Rightarrow> r # poll_at ts q'
      | (_, q') \<Rightarrow> poll_at ts q')"

lemma poll_at_prefix: "\<exists>m. poll_at ts q = take m (drop (pl_cursor (pr_player q)) (pl_records (pr_player q)))"
proof (induction ts arbitrary: q)
  case (Cons t ts)
  obtain res q' where p: "poll_next t q = (res, q')" by (metis surj_pair)
  from Cons.IH [of q'] obtain m where m: "poll_at ts q' = take m (drop (pl_cursor (pr_player q')) (pl_records (pr_player q')))" by blast
  show ?case
  proof (cases "\<exists>r. res = PollReady (Some r)")
    case True
    with p have "pl_cursor (pr_player q) < length (pl_records (pr_player q))"
      "res = PollReady (Some (pl_records (pr_player q) ! pl_cursor (pr_player q)))"
      "pr_player q' = (pr_player q)\<lparr>pl_cursor := pl_cursor (pr_player q) + 1\<rparr>"
      by (auto simp: poll_next_def player_step_def Let_def split: if_splits)
    then show ?thesis using p m by (intro exI [of _ "Suc m"]) (simp add: Cons_nth_drop_Suc [symmetric])
  next
    case False
    with p have "pr_player q' = pr_player q" by (auto simp: poll_next_def player_step_def Let_def split: if_splits)
    then show ?thesis using p m False by (cases res) (auto split: option.splits)
  qed
qed (auto intro: exI [of _ 0])

text \<open>Paced playback. From the cursor on, a consumer that awaits the stream gets every record once and in order, and one that polls at arbitrary times gets a
  prefix of them. Record \<open>k\<close> is released after the scaled gaps between the records \<open>0, ..., k - 1\<close>: the gap in front of a record is slept after its release,
  so every release comes one gap early. At \<open>Max\<close> there is no delay.\<close>

theorem paced_replay_schedule:
  fixes p :: "'g player" and speed :: replay_speed
  defines "rs \<equiv> drop (pl_cursor p) (pl_records p)"
  shows "map snd (drain_paced now (player_play speed p)) = rs
    \<and> (\<exists>m. poll_at ts (player_play speed p) = take m rs)
    \<and> (\<forall>k < length rs. fst (drain_paced now (player_play speed p) ! k)
         = now + (\<Sum>j = 1..<k. pacing_delay speed (Some (rr_monotonic_ns (rs ! (j - 1)))) (rr_monotonic_ns (rs ! j))))
    \<and> (speed = MaxSpeed \<longrightarrow> (\<forall>(t, r) \<in> set (drain_paced now (player_play speed p)). t = now))"
proof -
  let ?g = "\<lambda>j. pacing_delay speed (Some (rr_monotonic_ns (rs ! (j - 1)))) (rr_monotonic_ns (rs ! j))"
  have plan: "drain_paced now (player_play speed p) = release_plan speed None now rs"
    by (simp add: drain_paced_plan player_play_def due_def rs_def)
  have first: "pacing_delay speed None m = 0" for m by (simp add: pacing_delay_def split: option.splits)
  have times: "fst (release_plan speed None now rs ! k) = now + (\<Sum>j = 1..<k. ?g j)" if k: "k < length rs" for k
  proof (cases k)
    case 0
    then show ?thesis using k by (cases rs) auto
  next
    case (Suc i)
    obtain r rs' where rs: "rs = r # rs'" using k by (cases rs) auto
    have "?g (Suc j) = pacing_delay speed (Some (if j = 0 then rr_monotonic_ns r else rr_monotonic_ns (rs' ! (j - 1)))) (rr_monotonic_ns (rs' ! j))" for j
      by (cases j) (auto simp: rs)
    moreover have "(\<Sum>j = 1..<k. ?g j) = (\<Sum>j<i. ?g (Suc j))"
      using sum.shift_bounds_Suc_ivl [of ?g 0 i] Suc by (simp add: lessThan_atLeast0 del: sum.op_ivl_Suc)
    ultimately show ?thesis using release_plan_times [of i rs'] k Suc by (simp add: rs first)
  qed
  have "\<forall>(t, r) \<in> set (release_plan MaxSpeed prev now rs). t = now" for prev
    by (induction rs arbitrary: prev) (auto simp: pacing_delay_def)
  then have "speed = MaxSpeed \<longrightarrow> (\<forall>(t, r) \<in> set (release_plan speed None now rs). t = now)" by simp
  moreover have "\<exists>m. poll_at ts (player_play speed p) = take m rs"
    using poll_at_prefix [of ts "player_play speed p"] by (simp add: player_play_def rs_def)
  ultimately show ?thesis using times unfolding plan by (simp add: release_plan_records)
qed

section \<open>Payloads on the control plane\<close>

text \<open>A reference decoder of RFC 4648 with padding.\<close>

fun index_of :: "'a \<Rightarrow> 'a list \<Rightarrow> nat option" where
  "index_of x [] = None"
| "index_of x (y # ys) = (if x = y then Some 0 else map_option Suc (index_of x ys))"

definition base64_val :: "char \<Rightarrow> nat" where
  "base64_val c = (case index_of c BASE64_TABLE of Some i \<Rightarrow> i | None \<Rightarrow> 0)"

fun base64_decode :: "string \<Rightarrow> u8 list" where
  "base64_decode (p # q # r # s # rest) =
     (let x = base64_val p; y = base64_val q; z = base64_val r; w = base64_val s in
      of_nat (x * 4 + y div 16)
      # (if r = CHR ''='' then [] else [of_nat (y mod 16 * 16 + z div 4)])
      @ (if s = CHR ''='' then [] else [of_nat (z mod 4 * 64 + w)]) @ base64_decode rest)"
| "base64_decode _ = []"

lemma index_of_nth: "distinct xs \<Longrightarrow> i < length xs \<Longrightarrow> index_of (xs ! i) xs = Some i"
  by (induction xs arbitrary: i) (auto simp: nth_Cons split: nat.splits)

lemma base64_table: "length BASE64_TABLE = 64" "distinct BASE64_TABLE" "CHR ''='' \<notin> set BASE64_TABLE"
  by code_simp+

lemma six_bits: "unat (drop_bit k n AND 0x3F :: u32) = unat n div 2 ^ k mod 64"
proof -
  have "drop_bit k n AND 0x3F = take_bit 6 (drop_bit k n)" by (simp add: take_bit_eq_mask mask_eq_exp_minus_1)
  moreover have "unat (take_bit 6 (drop_bit k n)) = take_bit 6 (drop_bit k (unat n))"
    by (simp add: unsigned_take_bit_eq unat_drop_bit_eq del: drop_bit_eq_div take_bit_eq_mod)
  ultimately show ?thesis by (simp add: drop_bit_eq_div take_bit_eq_mod)
qed

lemma base64_digit_val:
  "base64_val (base64_digit k n) = unat n div 2 ^ k mod 64" "base64_digit k n \<noteq> CHR ''=''"
proof -
  have lt: "unat n div 2 ^ k mod 64 < length BASE64_TABLE" by (simp add: base64_table)
  then show "base64_val (base64_digit k n) = unat n div 2 ^ k mod 64"
    by (simp add: base64_digit_def six_bits base64_val_def index_of_nth base64_table)
  show "base64_digit k n \<noteq> CHR ''=''"
    using nth_mem [OF lt] base64_table(3) by (metis base64_digit_def six_bits)
qed

lemma unat_byte: "unat (a :: u8) < 256"
  using unat_less_len [of a] by simp

lemma unat_join:
  "unat ((push_bit 16 (ucast a) OR push_bit 8 (ucast b)) OR ucast c :: u32) = unat (a :: u8) * 65536 + unat (b :: u8) * 256 + unat (c :: u8)"
proof -
  have "(push_bit 16 (ucast a) OR push_bit 8 (ucast b)) OR ucast c = (push_bit 16 (ucast a) + push_bit 8 (ucast b) + ucast c :: u32)"
    by (subst (1 2) disjunctive_add [symmetric]) (auto simp: bit_simps dest!: bit_imp_le_length)
  also have "\<dots> = of_nat (unat a * 65536 + unat b * 256 + unat c)"
    by (simp add: push_bit_eq_mult mult.commute)
  finally show ?thesis
    using unat_byte [of a] unat_byte [of b] unat_byte [of c] by (simp add: unsigned_of_nat take_bit_nat_eq_self del: of_nat_add of_nat_mult)
qed

lemma unat_join2: "unat (push_bit 16 (ucast a) OR push_bit 8 (ucast b) :: u32) = unat (a :: u8) * 65536 + unat (b :: u8) * 256"
  using unat_join [of a b 0] by simp

lemma unat_join1: "unat (push_bit 16 (ucast a) :: u32) = unat (a :: u8) * 65536"
  using unat_join [of a 0 0] by simp

lemma sextet: "w < 64 \<Longrightarrow> n = q * 64 + (w :: nat) \<Longrightarrow> n div 64 = q \<and> n mod 64 = w"
  by simp

lemma regroup:
  assumes "a < 256" "b < 256" "c < 256" "n = a * 65536 + b * 256 + c"
  shows "n div 262144 mod 64 * 4 + n div 4096 mod 64 div 16 = a"
    "n div 4096 mod 64 mod 16 * 16 + n div 64 mod 64 div 4 = b" "n div 64 mod 64 mod 4 * 64 + n mod 64 = (c :: nat)"
proof -
  obtain a1 a0 where a: "a = a1 * 4 + a0" "a0 < 4" by (metis div_mult_mod_eq mod_less_divisor zero_less_numeral)
  obtain b1 b0 where b: "b = b1 * 16 + b0" "b0 < 16" by (metis div_mult_mod_eq mod_less_divisor zero_less_numeral)
  obtain c1 c0 where c: "c = c1 * 64 + c0" "c0 < 64" by (metis div_mult_mod_eq mod_less_divisor zero_less_numeral)
  have bnd: "a1 < 64" "b1 < 16" "c1 < 4" using assms(1-3) a b c by auto
  have "n = ((a1 * 64 + (a0 * 16 + b1)) * 64 + (b0 * 4 + c1)) * 64 + c0" using assms(4) a(1) b(1) c(1) by simp
  from sextet [OF c(2) this] have 1: "n div 64 = (a1 * 64 + (a0 * 16 + b1)) * 64 + (b0 * 4 + c1)" "n mod 64 = c0" by auto
  have "b0 * 4 + c1 < 64" using b bnd by simp
  from sextet [OF this 1(1)] have 2: "n div 64 div 64 = a1 * 64 + (a0 * 16 + b1)" "n div 64 mod 64 = b0 * 4 + c1" by auto
  have "a0 * 16 + b1 < 64" using a bnd by simp
  from sextet [OF this 2(1)] have "n div 64 div 64 div 64 = a1" "n div 64 div 64 mod 64 = a0 * 16 + b1" by auto
  then have 3: "n div 262144 = a1" "n div 4096 mod 64 = a0 * 16 + b1" by (simp_all flip: div_mult2_eq)
  show "n div 262144 mod 64 * 4 + n div 4096 mod 64 div 16 = a"
    "n div 4096 mod 64 mod 16 * 16 + n div 64 mod 64 div 4 = b" "n div 64 mod 64 mod 4 * 64 + n mod 64 = c"
    unfolding 3 2 1(2) using a b c bnd by simp_all
qed

text \<open>The payload of a record on the control plane can be recovered: decoding the padded base64 text of any payload gives the payload, and the text has four
  characters for every three bytes begun.\<close>

theorem base64_roundtrip:
  "base64_decode (base64_encode bs) = bs \<and> length (base64_encode bs) = (length bs + 2) div 3 * 4"
proof (induction bs rule: base64_encode.induct)
  case (1 a b c rest)
  note r = regroup [OF unat_byte [of a] unat_byte [of b] unat_byte [of c] refl]
  have "(length (a # b # c # rest) + 2) div 3 = Suc ((length rest + 2) div 3)" by simp
  then show ?case using 1 r by (simp add: Let_def base64_digit_val unat_join del: of_nat_add of_nat_mult)
next
  case (2 a b)
  define n where "n = unat a * 65536 + unat b * 256"
  have "unat (push_bit 16 (ucast a) OR push_bit 8 (ucast b) :: u32) = n" by (simp add: n_def unat_join2)
  with regroup [OF unat_byte [of a] unat_byte [of b], of 0 n] show ?case
    by (simp add: Let_def base64_digit_val n_def [symmetric] del: of_nat_add of_nat_mult)
next
  case (3 a)
  define n where "n = unat a * 65536"
  have "unat (push_bit 16 (ucast a) :: u32) = n" by (simp add: n_def unat_join1)
  with regroup [OF unat_byte [of a], of 0 0 n] show ?case
    by (simp add: Let_def base64_digit_val n_def [symmetric] del: of_nat_add of_nat_mult)
qed simp

section \<open>A concrete session\<close>

text \<open>An archive format for the records of a given list (their position as one byte), a generator that counts, and a short session.\<close>

definition table_rkyv :: "replay_record list \<Rightarrow> rkyv" where
  "table_rkyv rs = \<lparr>encode_record = \<lambda>r. (case index_of r rs of Some i \<Rightarrow> [of_nat i] | None \<Rightarrow> []),
     decode_record = \<lambda>bs. (case bs of [b] \<Rightarrow> if unat b < length rs then Some (rs ! unat b) else None | _ \<Rightarrow> None)\<rparr>"

definition counting_rng :: "u64 rng_api" where
  "counting_rng = \<lparr>seed_from_u64 = \<lambda>s. s, next_u64 = \<lambda>g. (g, g + 1)\<rparr>"

definition empty_io :: replay_io where
  "empty_io = \<lparr>ri_disk = \<lparr>dk_base = [], dk_ok = True\<rparr>, ri_stream = [], ri_redis_fault = None\<rparr>"

definition small_segments :: recorder_config where
  "small_segments = \<lparr>rcf_segment_dir = ''./replay'', rcf_max_segment_bytes = 8\<rparr>"

definition short_session :: "replay_record list" where
  "short_session = [event_record 7 0 (1000, 5, TickRec, [1, 2]), event_record 7 1 (3000, 6, FillRec, []), event_record 7 2 (4000, 7, TickRec, [3])]"

lemma table_archives:
  assumes "distinct rs" "length rs \<le> 256" "r \<in> set rs"
  shows "archives (table_rkyv rs) r"
proof -
  obtain i where i: "i < length rs" "rs ! i = r" using assms(3) by (metis in_set_conv_nth)
  then have "index_of r rs = Some i" using index_of_nth [OF assms(1)] by metis
  then show ?thesis using i assms(2) by (simp add: archives_def table_rkyv_def unsigned_of_nat take_bit_nat_eq_self)
qed

lemma short_session_facts: "distinct short_session" "length short_session = 3" "stamped 7 short_session"
    "\<forall>r \<in> set short_session. rr_session_id r = 7"
  by (auto simp: short_session_def event_record_def stamped_def less_Suc_eq numeral_eq_Suc nth_Cons split: nat.splits)

lemma empty_io_fresh: "fresh_session s (ri_disk empty_io)" "ri_redis_fault empty_io = None" "dk_ok (ri_disk empty_io)"
    "dk_base (ri_disk empty_io) = []"
  by (simp_all add: fresh_session_def empty_io_def)

theorem recorder_player_roundtrip_witness:
  "\<exists>rc1 io1 rc2 io2. record_list (table_rkyv short_session) short_session (start_recorder True 7 small_segments) empty_io = (Inr (), rc1, io1)
     \<and> recorder_flush rc1 io1 = (Inr (), rc2, io2)
     \<and> (sw_segment_idx (rc_writer rc1) \<le> 9999 \<longrightarrow> (\<forall>d'. relisted 7 (ri_disk io2) d' \<longrightarrow>
          player_open counting_rng (table_rkyv short_session) d' 7 default_player_config
          = Inr \<lparr>pl_session_id = 7, pl_records = short_session, pl_cursor = 0, pl_default_speed = pc_default_speed default_player_config,
              pl_rng = seed_from_u64 counting_rng (pc_rng_seed default_player_config)\<rparr>))"
  using short_session_facts empty_io_fresh by (intro recorder_player_roundtrip) (auto intro!: table_archives)

theorem canonical_regression_passes_witness:
  "\<exists>io'. gen_canonical (table_rkyv (map (canonical_record 7) [0, 1])) 7 2 ''out'' empty_io = (Inr (), io')
     \<and> regression_run counting_rng (table_rkyv (map (canonical_record 7) [0, 1])) (ri_disk io') ''out'' 7 42 = Inr (Inr (unat (2 :: u64)))"
proof (rule canonical_regression_passes)
  have "canonical_record 7 0 \<noteq> canonical_record 7 1" by (simp add: canonical_record_def Let_def)
  then have "archives (table_rkyv (map (canonical_record 7) [0, 1])) (canonical_record 7 (of_nat i))" if "i < 2" for i
    using that by (intro table_archives) (auto simp: less_2_cases_iff)
  then show "\<forall>i < unat (2 :: u64). archives (table_rkyv (map (canonical_record 7) [0, 1])) (canonical_record 7 (of_nat i))" by simp
qed (simp_all add: empty_io_fresh)

theorem redis_failure_loses_session_witness:
  "\<exists>rc2 io2 rc3 io3. redis_blip (table_rkyv [event_record 7 0 (1, 1, TickRec, []), event_record 7 0 (2, 2, FillRec, [])]) ''down''
       (1, 1, TickRec, []) (2, 2, FillRec, []) (start_recorder True 7 default_recorder_config) empty_io
       = (Inl (ReplayBus (RedisErr STREAM_HOT_REPLAY_RECORD ''down'')), Inr 0, rc2, io2)
     \<and> recorder_flush rc2 io2 = (Inr (), rc3, io3)
     \<and> player_open counting_rng (table_rkyv [event_record 7 0 (1, 1, TickRec, []), event_record 7 0 (2, 2, FillRec, [])]) (ri_disk io3) 7 default_player_config
       = Inl (SequenceInvariant 7 1 0)"
proof -
  let ?rc = "start_recorder True 7 default_recorder_config"
  let ?rk = "table_rkyv [event_record 7 0 (1, 1, TickRec, []), event_record 7 0 (2, 2, FillRec, [])]"
  have "event_record 7 0 (1, 1, TickRec, []) \<noteq> event_record 7 0 (2, 2, FillRec, [])" by (simp add: event_record_def)
  then have "\<forall>r \<in> set ([] @ [event_record (rc_session_id ?rc) (length ([] :: replay_record list)) (1, 1, TickRec, []),
      event_record (rc_session_id ?rc) (length ([] :: replay_record list)) (2, 2, FillRec, [])]). archives ?rk r"
    by (auto intro!: table_archives)
  from redis_failure_loses_session [OF start_recorder_inv [of 7 empty_io True, OF empty_io_fresh(1)] _ _ _ this, of "''down''" counting_rng default_player_config]
  show ?thesis by (simp add: empty_io_fresh start_recorder_def recorder_with_redis_def recorder_new_def stamped_def)
qed

text \<open>An open writer on session 7: one record in the buffer, and a limit of 8 bytes.\<close>

definition open_writer :: segment_writer where
  "open_writer = \<lparr>sw_max_segment_bytes = 8, sw_session = Some 7, sw_segment_idx = 1,
     sw_file = Some \<lparr>bw_dir = session_dir 7, bw_name = segment_name 1, bw_buf = frames (table_rkyv short_session) [short_session ! 0]\<rparr>, sw_bytes = 5\<rparr>"

definition open_disk :: disk where
  "open_disk = \<lparr>dk_base = [(session_dir 7, SessionDir [(segment_name 1, [])])], dk_ok = True\<rparr>"

theorem failed_rotation_wedges_witness:
  "\<exists>sw1 d1 sw2. sw_append (table_rkyv short_session) (short_session ! 1) open_writer (open_disk\<lparr>dk_ok := False\<rparr>) = (Inl DeviceError, sw1, d1)
     \<and> append_list (table_rkyv short_session) short_session sw1 (d1\<lparr>dk_ok := True\<rparr>)
       = (map (\<lambda>_. Inl AlreadyExists) short_session, sw2, d1\<lparr>dk_ok := True\<rparr>)"
proof (rule failed_rotation_wedges)
  show "writer_inv (table_rkyv short_session) 7 [] [short_session ! 0] open_writer open_disk"
    by (simp add: writer_inv_def open_on_def open_writer_def open_disk_def)
  show "rr_session_id (short_session ! 1) = 7" using short_session_facts by simp
  have "index_of (short_session ! 1) short_session = Some 1" using index_of_nth [of short_session 1] short_session_facts by simp
  then have "length (encode_record (table_rkyv short_session) (short_session ! 1)) = 1" by (simp add: table_rkyv_def)
  then show "sw_max_segment_bytes open_writer < usat_add (sw_bytes open_writer) (4 + of_nat (length (encode_record (table_rkyv short_session) (short_session ! 1))))"
    by (simp add: open_writer_def usat_add_def)
qed (rule short_session_facts(4))

theorem seek_then_step_witness:
  "player_seek 1 \<lparr>pl_session_id = 7, pl_records = short_session, pl_cursor = 0, pl_default_speed = X1, pl_rng = ()\<rparr>
     = (Inr (), \<lparr>pl_session_id = 7, pl_records = short_session, pl_cursor = 1, pl_default_speed = X1, pl_rng = ()\<rparr>)
   \<and> (\<exists>r p'. player_step (snd (player_seek 1 \<lparr>pl_session_id = 7, pl_records = short_session, pl_cursor = 0, pl_default_speed = X1, pl_rng = ()\<rparr>)) = (Some r, p')
        \<and> rr_sequence_no r = 1 \<and> pl_cursor p' = Suc (Suc 0))"
proof -
  let ?p = "\<lparr>pl_session_id = 7, pl_records = short_session, pl_cursor = 0, pl_default_speed = X1, pl_rng = ()\<rparr>"
  have h: "stamped 7 (pl_records ?p)" "length (pl_records ?p) < 2 ^ 64" using short_session_facts by simp_all
  note s = seek_then_step [OF h, of 1]
  show ?thesis using conjunct1 [OF s] conjunct2 [OF s] short_session_facts(2) by simp
qed

theorem paced_replay_schedule_witness:
  "map fst (drain_paced 10 (player_play X1 \<lparr>pl_session_id = 7, pl_records = short_session, pl_cursor = 0, pl_default_speed = X1, pl_rng = ()\<rparr>)) = [10, 10, 2010]"
proof -
  let ?p = "\<lparr>pl_session_id = 7, pl_records = short_session, pl_cursor = 0, pl_default_speed = X1, pl_rng = ()\<rparr>"
  let ?d = "drain_paced 10 (player_play X1 ?p)"
  note s = paced_replay_schedule [of 10 X1 ?p "[]"]
  have len: "length ?d = 3" using s short_session_facts(2) by (metis drop0 length_map player.select_convs(2,3))
  have gap: "pacing_delay X1 (Some (rr_monotonic_ns (short_session ! 0))) (rr_monotonic_ns (short_session ! 1)) = 2000"
    by (simp add: short_session_def event_record_def pacing_delay_def)
  have "fst (?d ! k) = 10 + (\<Sum>j = 1..<k. pacing_delay X1 (Some (rr_monotonic_ns (short_session ! (j - 1)))) (rr_monotonic_ns (short_session ! j)))" if "k < 3" for k
    using s that short_session_facts(2) by simp
  from this [of 0] this [of 1] this [of 2] have "fst (?d ! 0) = 10" "fst (?d ! 1) = 10" "fst (?d ! 2) = 2010"
    using gap by (simp_all add: numeral_2_eq_2)
  then show ?thesis using len by (intro nth_equalityI) (auto simp: less_Suc_eq numeral_eq_Suc)
qed

end
