(* ===== verification/Ui_Gateway.thy ===== *)
theory Ui_Gateway
  imports Wire_Codec Exec_Service Config_Loader Ordered_Map "HOL-Library.Char_ord" "HOL-Library.List_Lexorder" "HOL-Library.AList"
begin

text \<open>
  The cockpit gateway (\<open>hedge-ui-gateway/src\<close>): the protocol (\<open>protocol.rs\<close>), subject routing (\<open>channels.rs\<close>), subscriptions, the joiner of signals and
  rankings (\<open>signals_join.rs\<close>), alerts, the volatility mode, trader intents, the payload shim (\<open>decoder_shim.rs\<close>), the dispatcher of one connection over the
  state all connections share (\<open>dispatcher.rs\<close>) and the session loop (\<open>gateway.rs\<close>). JSON values are explicit; parsing and printing JSON text, the
  base64 crate, the clock readings and the answers of NATS are parameters.
\<close>

section \<open>JSON values\<close>

datatype json = JNull | JBool bool | JInt int | JFloat flt | JStr string | JArr "json list" | JObj "(string, json) btree"

definition jget :: "string \<Rightarrow> json \<Rightarrow> json option" where
  "jget k v = (case v of JObj m \<Rightarrow> bt_get m k | _ \<Rightarrow> None)"

definition jas_bool :: "json \<Rightarrow> bool option" where
  "jas_bool v = (case v of JBool b \<Rightarrow> Some b | _ \<Rightarrow> None)"

definition jas_str :: "json \<Rightarrow> string option" where
  "jas_str v = (case v of JStr s \<Rightarrow> Some s | _ \<Rightarrow> None)"

definition jas_i64 :: "json \<Rightarrow> i64 option" where
  "jas_i64 v = (case v of JInt n \<Rightarrow> if in_i64 n then Some n else None | _ \<Rightarrow> None)"

definition jas_u64 :: "json \<Rightarrow> u64 option" where
  "jas_u64 v = (case v of JInt n \<Rightarrow> if 0 \<le> n \<and> n < 2 ^ 64 then Some (of_int n) else None | _ \<Rightarrow> None)"

definition jas_f64 :: "json \<Rightarrow> flt option" where
  "jas_f64 v = (case v of JInt n \<Rightarrow> Some (flt_of_int F64 n) | JFloat x \<Rightarrow> Some x | _ \<Rightarrow> None)"

definition jas_array :: "json \<Rightarrow> json list option" where
  "jas_array v = (case v of JArr xs \<Rightarrow> Some xs | _ \<Rightarrow> None)"

text \<open>The \<open>json!\<close> object literal, and \<open>out["k"] = v\<close> on an object.\<close>

definition jobj :: "(string \<times> json) list \<Rightarrow> json" where
  "jobj kvs = JObj (fold (\<lambda>(k, v) m. bt_insert k v m) kvs [])"

definition jset :: "string \<Rightarrow> json \<Rightarrow> json \<Rightarrow> json" where
  "jset k x v = (case v of JObj m \<Rightarrow> JObj (bt_insert k x m) | _ \<Rightarrow> v)"

text \<open>A finite \<open>f32\<close> becomes a number, the others \<open>null\<close>.\<close>

definition json_of_flt :: "flt \<Rightarrow> json" where
  "json_of_flt x = (case x of Fin _ \<Rightarrow> JFloat x | _ \<Rightarrow> JNull)"

section \<open>Protocol (protocol.rs)\<close>

datatype channel = ChMarket | ChOrderflow | ChSignals | ChRisk | ChExec | ChNews | ChPsych | ChAlerts | ChReplay | ChLatency | ChControl

definition all_channels :: "channel list" where
  "all_channels = [ChMarket, ChOrderflow, ChSignals, ChRisk, ChExec, ChNews, ChPsych, ChAlerts, ChReplay, ChLatency, ChControl]"

fun channel_as_str :: "channel \<Rightarrow> string" where
  "channel_as_str ChMarket = ''market''"
| "channel_as_str ChOrderflow = ''orderflow''"
| "channel_as_str ChSignals = ''signals''"
| "channel_as_str ChRisk = ''risk''"
| "channel_as_str ChExec = ''exec''"
| "channel_as_str ChNews = ''news''"
| "channel_as_str ChPsych = ''psych''"
| "channel_as_str ChAlerts = ''alerts''"
| "channel_as_str ChReplay = ''replay''"
| "channel_as_str ChLatency = ''latency''"
| "channel_as_str ChControl = ''control''"

definition channel_parse :: "string \<Rightarrow> channel option" where
  "channel_parse name =
     (if name = ''market'' then Some ChMarket else if name = ''orderflow'' then Some ChOrderflow
      else if name = ''signals'' then Some ChSignals else if name = ''risk'' then Some ChRisk
      else if name = ''exec'' then Some ChExec else if name = ''news'' then Some ChNews
      else if name = ''psych'' then Some ChPsych else if name = ''alerts'' then Some ChAlerts
      else if name = ''replay'' then Some ChReplay else if name = ''latency'' then Some ChLatency
      else if name = ''control'' then Some ChControl else None)"

datatype intent_kind = IkKillswitch | IkStrategyToggle | IkPriority | IkOrder | IkTradingMode

fun intent_subject :: "intent_kind \<Rightarrow> string" where
  "intent_subject IkKillswitch = TRADER_INTENT_KILLSWITCH"
| "intent_subject IkStrategyToggle = TRADER_INTENT_STRATEGY_TOGGLE"
| "intent_subject IkPriority = TRADER_INTENT_PRIORITY"
| "intent_subject IkOrder = TRADER_INTENT_ORDER"
| "intent_subject IkTradingMode = TRADER_INTENT_TRADING_MODE"

datatype client_msg =
    Subscribe "string option" channel "string list"
  | Unsubscribe "string option" channel
  | IntentMsg "string option" intent_kind json
  | PingMsg "string option"

datatype error_code = BadFrame | UnknownChannel | IntentOnNonControl | InvalidIntent | UiInternal

datatype server_msg =
    EventMsg channel "string option" "u64 option" json
  | AckMsg "string option" channel
  | ErrorMsg error_code string "string option"
  | ModeMsgOut bool
  | PongMsg "string option"

section \<open>Routing (channels.rs)\<close>

fun nats_patterns :: "channel \<Rightarrow> string list" where
  "nats_patterns ChMarket = [''md.tick.>'', ''md.book.>'', ''md.oi.>'', ''md.connection.>'', ''md.breadth.sector'', ''md.breadth.volatility'']"
| "nats_patterns ChOrderflow = [''of.event.>'', ''of.heatmap.>'']"
| "nats_patterns ChSignals = [''sig.emitted'', ''ai.rank.>'']"
| "nats_patterns ChRisk = [''risk.decision.approved'', ''risk.decision.rejected'', ''risk.killswitch.activated'', ''risk.target.reached'',
     ''risk.cooldown.>'', ''pos.update.>'', ''pos.risk_state'']"
| "nats_patterns ChExec = [''exec.order.>'', ''exec.fill.>'', ''exec.broker.failover'', ''exec.trade.closed'']"
| "nats_patterns ChNews = [''ai.news.impact.>'']"
| "nats_patterns ChPsych = [''ai.psych.stability'', ''ai.psych.intervention'']"
| "nats_patterns ChAlerts = []"
| "nats_patterns ChReplay = [''ops.action.replay'']"
| "nats_patterns ChLatency = [''obs.latency.>'', ''obs.budget.breach.>'']"
| "nats_patterns ChControl = []"

text \<open>\<open>split('.')\<close>, \<open>starts_with\<close> and \<open>strip_prefix\<close>.\<close>

fun split_dot :: "string \<Rightarrow> string list" where
  "split_dot [] = [[]]"
| "split_dot (c # cs) =
     (if c = CHR ''.'' then [] # split_dot cs
      else (case split_dot cs of x # xs \<Rightarrow> (c # x) # xs | [] \<Rightarrow> [[c]]))"

definition starts_with :: "string \<Rightarrow> string \<Rightarrow> bool" where
  "starts_with pre s \<longleftrightarrow> take (length pre) s = pre"

definition strip_prefix :: "string \<Rightarrow> string \<Rightarrow> string option" where
  "strip_prefix pre s = (if starts_with pre s then Some (drop (length pre) s) else None)"

definition segment_at :: "nat \<Rightarrow> string \<Rightarrow> string option" where
  "segment_at i s = (if i < length (split_dot s) then Some (split_dot s ! i) else None)"

text \<open>The (at most one) channel of a subject; no arm of the source uses two.\<close>

definition classify_subject :: "string \<Rightarrow> channel list" where
  "classify_subject subject =
     (if subject = ''md.breadth.sector'' \<or> subject = ''md.breadth.volatility'' then [ChMarket]
      else let head = hd (split_dot subject) in
        if head = ''md'' then [ChMarket] else if head = ''of'' then [ChOrderflow] else if head = ''sig'' then [ChSignals]
        else if head = ''ai'' then
          (if segment_at 1 subject = Some ''rank'' then [ChSignals]
           else if segment_at 1 subject = Some ''news'' then (if segment_at 2 subject = Some ''impact'' then [ChNews] else [])
           else if segment_at 1 subject = Some ''psych'' then [ChPsych] else [])
        else if head = ''risk'' then [ChRisk] else if head = ''pos'' then [ChRisk] else if head = ''exec'' then [ChExec]
        else if head = ''obs'' then
          (if segment_at 1 subject = Some ''latency'' then [ChLatency]
           else if segment_at 1 subject = Some ''budget'' then (if segment_at 2 subject = Some ''breach'' then [ChLatency] else [])
           else [])
        else if head = ''ops'' then
          (if segment_at 1 subject = Some ''action'' then (if segment_at 2 subject = Some ''replay'' then [ChReplay] else []) else [])
        else [])"

section \<open>Subscriptions (subscriptions.rs)\<close>

type_synonym subscriptions = "channel \<Rightarrow> string list option"

definition subs_new :: subscriptions where "subs_new = (\<lambda>_. None)"

definition subs_subscribe :: "channel \<Rightarrow> string list \<Rightarrow> subscriptions \<Rightarrow> subscriptions" where
  "subs_subscribe ch topics subs = subs(ch := Some topics)"

definition subs_unsubscribe :: "channel \<Rightarrow> subscriptions \<Rightarrow> subscriptions" where
  "subs_unsubscribe ch subs = subs(ch := None)"

definition is_subscribed :: "subscriptions \<Rightarrow> channel \<Rightarrow> bool" where
  "is_subscribed subs ch \<longleftrightarrow> subs ch \<noteq> None"

definition subs_accepts :: "subscriptions \<Rightarrow> channel \<Rightarrow> string \<Rightarrow> bool" where
  "subs_accepts subs ch topic = (case subs ch of None \<Rightarrow> False | Some [] \<Rightarrow> True | Some ts \<Rightarrow> topic \<in> set ts)"

section \<open>Joining signals and rankings (signals\_join.rs)\<close>

text \<open>\<open>AiShadowFilter\<close>: the set of shadowed components.\<close>

definition is_shadowed :: "string set \<Rightarrow> string \<Rightarrow> bool" where
  "is_shadowed shadow c \<longleftrightarrow> c \<in> shadow"

definition shadow_component :: "string \<Rightarrow> string set \<Rightarrow> string set" where
  "shadow_component c shadow = insert c shadow"

definition unshadow_component :: "string \<Rightarrow> string set \<Rightarrow> string set" where
  "unshadow_component c shadow = shadow - {c}"

definition replace_components :: "string list \<Rightarrow> string set \<Rightarrow> string set" where
  "replace_components cs shadow = set cs"

datatype join_outcome = Joined json | PendingOutcome bool | SignalOnly json

record pending_join =
  pj_signal :: "json option"
  pj_ranks :: "json list"
  pj_shadowed_sources :: "string list"
  pj_inserted_at :: nat

record signals_joiner =
  jn_map :: "(string \<times> pending_join) list"
  jn_order :: "string list"
  jn_ttl :: nat
  jn_capacity :: nat
  jn_shadow :: "string set"

definition joiner_new :: "nat \<Rightarrow> nat \<Rightarrow> string set \<Rightarrow> signals_joiner" where
  "joiner_new ttl cap shadow = \<lparr>jn_map = [], jn_order = [], jn_ttl = ttl, jn_capacity = cap, jn_shadow = shadow\<rparr>"

definition merge_payload :: "string \<Rightarrow> json \<Rightarrow> json list \<Rightarrow> string list \<Rightarrow> json" where
  "merge_payload cid sig ranks shadowed =
     (let out = jobj [(''signal'', sig), (''ranks'', JArr ranks)];
          out = (if cid \<noteq> [] then jset ''correlation_id'' (JStr cid) out else out)
      in if shadowed \<noteq> [] then jset ''shadowed_sources'' (JArr (map JStr shadowed)) out else out)"

definition join_decide :: "pending_join \<Rightarrow> join_outcome" where
  "join_decide e =
     (case pj_signal e of
        Some sig \<Rightarrow>
          if pj_ranks e \<noteq> [] then Joined (merge_payload [] sig (pj_ranks e) (pj_shadowed_sources e))
          else PendingOutcome (pj_shadowed_sources e \<noteq> [] \<and> pj_ranks e = [])
      | None \<Rightarrow> PendingOutcome (pj_shadowed_sources e \<noteq> [] \<and> pj_ranks e = []))"

text \<open>\<open>HashMap::remove\<close> together with \<open>order_remove\<close>.\<close>

definition drop_entry :: "string \<Rightarrow> signals_joiner \<Rightarrow> signals_joiner" where
  "drop_entry k j = j\<lparr>jn_map := AList.delete k (jn_map j), jn_order := remove1 k (jn_order j)\<rparr>"

definition expired :: "nat \<Rightarrow> signals_joiner \<Rightarrow> pending_join \<Rightarrow> bool" where
  "expired now j e \<longleftrightarrow> now - pj_inserted_at e > jn_ttl j"

definition prune_expired :: "nat \<Rightarrow> signals_joiner \<Rightarrow> signals_joiner" where
  "prune_expired now j =
     fold drop_entry (map fst (filter (\<lambda>(k, e). expired now j e \<and> pj_signal e = None \<and> pj_ranks e = []) (jn_map j))) j"

fun enforce_loop :: "nat \<Rightarrow> (string \<times> pending_join) list \<Rightarrow> string list \<Rightarrow> (string \<times> pending_join) list \<times> string list" where
  "enforce_loop cap m [] = (m, [])"
| "enforce_loop cap m (k # order) = (if length m > cap then enforce_loop cap (AList.delete k m) order else (m, k # order))"

definition enforce_capacity :: "signals_joiner \<Rightarrow> signals_joiner" where
  "enforce_capacity j = (case enforce_loop (jn_capacity j) (jn_map j) (jn_order j) of (m, order) \<Rightarrow> j\<lparr>jn_map := m, jn_order := order\<rparr>)"

definition ensure_entry :: "nat \<Rightarrow> string \<Rightarrow> signals_joiner \<Rightarrow> signals_joiner" where
  "ensure_entry now cid j =
     (if map_of (jn_map j) cid \<noteq> None then j
      else j\<lparr>jn_map := jn_map j @ [(cid, \<lparr>pj_signal = None, pj_ranks = [], pj_shadowed_sources = [], pj_inserted_at = now\<rparr>)],
             jn_order := jn_order j @ [cid]\<rparr>)"

text \<open>The common tail of the two feeds: decide on the changed entry, drop it when joined, enforce the capacity.\<close>

definition feed_entry :: "nat \<Rightarrow> string \<Rightarrow> (pending_join \<Rightarrow> pending_join) \<Rightarrow> signals_joiner \<Rightarrow> join_outcome \<times> signals_joiner" where
  "feed_entry now cid f j =
     (let j = ensure_entry now cid (prune_expired now j);
          e = f (the (map_of (jn_map j) cid));
          j = j\<lparr>jn_map := AList.update cid e (jn_map j)\<rparr>;
          outcome = join_decide e;
          j = (case outcome of PendingOutcome _ \<Rightarrow> j | _ \<Rightarrow> drop_entry cid j)
      in (outcome, enforce_capacity j))"

definition feed_signal :: "nat \<Rightarrow> string \<Rightarrow> json \<Rightarrow> signals_joiner \<Rightarrow> join_outcome \<times> signals_joiner" where
  "feed_signal now cid sig j = feed_entry now cid (\<lambda>e. e\<lparr>pj_signal := Some sig\<rparr>) j"

definition rank_source :: "json \<Rightarrow> string" where
  "rank_source rank = opt_or (Option.bind (jget ''source'' rank) jas_str) []"

definition feed_rank :: "nat \<Rightarrow> string \<Rightarrow> json \<Rightarrow> signals_joiner \<Rightarrow> join_outcome \<times> signals_joiner" where
  "feed_rank now cid rank j =
     (let source = rank_source rank; shadowed = (source \<noteq> [] \<and> is_shadowed (jn_shadow j) source)
      in feed_entry now cid
           (\<lambda>e. if shadowed then e\<lparr>pj_shadowed_sources := pj_shadowed_sources e @ [source]\<rparr> else e\<lparr>pj_ranks := pj_ranks e @ [rank]\<rparr>) j)"

text \<open>The payloads come in the order of insertion; the source's \<open>HashMap\<close> gives them in an unspecified one.\<close>

definition flush_expired :: "nat \<Rightarrow> signals_joiner \<Rightarrow> json list \<times> signals_joiner" where
  "flush_expired now j =
     (let ex = filter (\<lambda>(k, e). expired now j e) (jn_map j)
      in (List.map_filter (\<lambda>(k, e). map_option (\<lambda>sig. merge_payload k sig (pj_ranks e) (pj_shadowed_sources e)) (pj_signal e)) ex,
          fold drop_entry (map fst ex) j))"

section \<open>Alerts (alerts.rs)\<close>

datatype severity = SevInfo | SevWarning | SevError | SevCritical

fun severity_rank :: "severity \<Rightarrow> nat" where
  "severity_rank SevInfo = 0"
| "severity_rank SevWarning = 1"
| "severity_rank SevError = 2"
| "severity_rank SevCritical = 3"

fun severity_as_str :: "severity \<Rightarrow> string" where
  "severity_as_str SevInfo = ''info''"
| "severity_as_str SevWarning = ''warning''"
| "severity_as_str SevError = ''error''"
| "severity_as_str SevCritical = ''critical''"

definition severity_for_subject :: "string \<Rightarrow> severity option" where
  "severity_for_subject s =
     (if s = ''risk.killswitch.activated'' then Some SevCritical
      else if s = ''risk.target.reached'' then Some SevInfo
      else if s = ''exec.broker.failover'' \<or> s = ''ai.ollama.degraded'' then Some SevWarning
      else if starts_with ''obs.budget.breach.'' s then Some SevWarning
      else if starts_with ''obs.error.'' s then Some SevError
      else if s = ''ai.gov.action'' \<or> s = ''ai.psych.intervention'' then Some SevWarning
      else if starts_with ''md.connection.'' s then Some SevWarning
      else None)"

record ui_alert =
  ua_severity :: severity
  ua_source :: string
  ua_ts_ns :: u128
  ua_payload :: json

definition alert_push :: "nat \<Rightarrow> ui_alert \<Rightarrow> ui_alert list \<Rightarrow> ui_alert list" where
  "alert_push cap a buf = (if length buf \<ge> cap then tl buf else buf) @ [a]"

text \<open>\<open>sort_by_key\<close> on \<open>(Reverse(rank), Reverse(ts_ns))\<close>, a stable sort.\<close>

definition alert_key :: "ui_alert \<Rightarrow> int" where
  "alert_key a = - (int (severity_rank (ua_severity a)) * 2 ^ 128 + uint (ua_ts_ns a))"

definition alerts_ordered :: "ui_alert list \<Rightarrow> ui_alert list" where
  "alerts_ordered buf = sort_key alert_key buf"

definition drain_ordered :: "ui_alert list \<Rightarrow> ui_alert list \<times> ui_alert list" where
  "drain_ordered buf = (alerts_ordered buf, [])"

definition alert_json :: "ui_alert \<Rightarrow> json" where
  "alert_json a = jobj [(''severity'', JStr (severity_as_str (ua_severity a))), (''source'', JStr (ua_source a)),
     (''ts_ns'', JInt (uint (ua_ts_ns a))), (''payload'', ua_payload a)]"

text \<open>\<open>to_value\<close> of the alerts, with \<open>null\<close> for its error: a \<open>u128\<close> above the \<open>u64\<close> range is not a JSON number.\<close>

definition alerts_value :: "ui_alert list \<Rightarrow> json" where
  "alerts_value as = (if list_all (\<lambda>a. uint (ua_ts_ns a) < 2 ^ 64) as then JArr (map alert_json as) else JNull)"

section \<open>High-volatility mode (volatility.rs)\<close>

record volatility_tracker =
  vt_threshold :: flt
  vt_in_high_vol :: bool

definition volatility_from_config :: "ui_config \<Rightarrow> volatility_tracker" where
  "volatility_from_config cfg = \<lparr>vt_threshold = high_vol_threshold cfg, vt_in_high_vol = False\<rparr>"

definition vt_set :: "bool \<Rightarrow> volatility_tracker \<Rightarrow> bool option \<times> volatility_tracker" where
  "vt_set nxt vt = (if vt_in_high_vol vt \<noteq> nxt then Some nxt else None, vt\<lparr>vt_in_high_vol := nxt\<rparr>)"

definition vt_observe :: "json \<Rightarrow> volatility_tracker \<Rightarrow> bool option \<times> volatility_tracker" where
  "vt_observe payload vt =
     (case Option.bind (jget ''value'' payload) jas_f64 of
        None \<Rightarrow> (None, vt)
      | Some raw \<Rightarrow> vt_set (flt_lt (vt_threshold vt) (f64_to_f32 (if raw = NaN then Fin 0 else flt_max raw (Fin 0)))) vt)"

record refresh_cadence =
  cad_normal :: nat
  cad_critical_high_vol :: nat
  cad_secondary_high_vol :: nat

definition default_cadence :: refresh_cadence where
  "default_cadence = \<lparr>cad_normal = 33, cad_critical_high_vol = 16, cad_secondary_high_vol = 100\<rparr>"

definition cadence_for_channel :: "refresh_cadence \<Rightarrow> channel \<Rightarrow> bool \<Rightarrow> nat" where
  "cadence_for_channel c ch high_vol =
     (if \<not> high_vol then cad_normal c
      else if ch \<in> {ChRisk, ChExec, ChLatency, ChAlerts, ChMarket, ChOrderflow} then cad_critical_high_vol c
      else cad_secondary_high_vol c)"

section \<open>Trader intents (intents.rs)\<close>

datatype intent_error = InvalidPayload intent_kind string | PublishFailed string string

definition jfield :: "(json \<Rightarrow> 'a option) \<Rightarrow> string \<Rightarrow> json \<Rightarrow> 'a option" where
  "jfield cast k v = Option.bind (jget k v) cast"

fun validate_intent :: "intent_kind \<Rightarrow> json \<Rightarrow> intent_error + unit" where
  "validate_intent IkKillswitch p =
     (case jfield jas_bool ''active'' p of None \<Rightarrow> Inl (InvalidPayload IkKillswitch ''missing boolean field `active`'') | Some _ \<Rightarrow> Inr ())"
| "validate_intent IkStrategyToggle p =
     (if jfield jas_str ''strategy_id'' p = None then Inl (InvalidPayload IkStrategyToggle ''missing string field `strategy_id`'')
      else if jfield jas_bool ''enabled'' p = None then Inl (InvalidPayload IkStrategyToggle ''missing boolean field `enabled`'')
      else Inr ())"
| "validate_intent IkPriority p =
     (if jfield jas_str ''symbol'' p = None then Inl (InvalidPayload IkPriority ''missing string field `symbol`'')
      else case jfield jas_str ''tier'' p of
        None \<Rightarrow> Inl (InvalidPayload IkPriority ''missing string field `tier`'')
      | Some t \<Rightarrow> if t \<in> {''P1'', ''P2'', ''P3'', ''P4''} then Inr () else Inl (InvalidPayload IkPriority ''`tier` must be one of P1/P2/P3/P4''))"
| "validate_intent IkOrder p =
     (if jfield jas_str ''symbol'' p = None then Inl (InvalidPayload IkOrder ''missing string field `symbol`'')
      else case jfield jas_str ''side'' p of
        None \<Rightarrow> Inl (InvalidPayload IkOrder ''missing string field `side`'')
      | Some sd \<Rightarrow>
          if sd \<notin> {''buy'', ''sell''} then Inl (InvalidPayload IkOrder ''`side` must be `buy` or `sell`'')
          else (case jfield jas_i64 ''quantity'' p of
            None \<Rightarrow> Inl (InvalidPayload IkOrder ''missing integer field `quantity`'')
          | Some q \<Rightarrow> if q \<le> 0 then Inl (InvalidPayload IkOrder ''`quantity` must be positive'') else Inr ()))"
| "validate_intent IkTradingMode p =
     (case jfield jas_bool ''live'' p of None \<Rightarrow> Inl (InvalidPayload IkTradingMode ''missing boolean field `live`'') | Some _ \<Rightarrow> Inr ())"

text \<open>JSON text and the publisher: serialisation, parsing, and the error NATS answers a publication with.\<close>

record ui_env =
  ue_to_vec :: "json \<Rightarrow> bytes"
  ue_from_slice :: "bytes \<Rightarrow> json option"
  ue_b64 :: "bytes \<Rightarrow> string"
  ue_publish_error :: "string \<Rightarrow> bytes \<Rightarrow> string option"

definition publish_intent :: "ui_env \<Rightarrow> intent_kind \<Rightarrow> json \<Rightarrow> (string \<times> bytes) list \<Rightarrow> (intent_error + unit) \<times> (string \<times> bytes) list" where
  "publish_intent env kind payload sent =
     (case validate_intent kind payload of
        Inl e \<Rightarrow> (Inl e, sent)
      | Inr _ \<Rightarrow>
          let subject = intent_subject kind; bs = ue_to_vec env payload in
          (case ue_publish_error env subject bs of
             Some m \<Rightarrow> (Inl (PublishFailed subject m), sent)
           | None \<Rightarrow> (Inr (), sent @ [(subject, bs)])))"

section \<open>Payload shim (decoder\_shim.rs)\<close>

definition heatmap_cells :: "json list \<Rightarrow> (i64 \<times> json) list" where
  "heatmap_cells rows = concat (map (\<lambda>row.
     let bid_price = opt_or (jfield jas_i64 ''bid_price_paise'' row) 0; ask_price = opt_or (jfield jas_i64 ''ask_price_paise'' row) 0;
         bid_qty = opt_or (jfield jas_u64 ''bid_qty'' row) 0; ask_qty = opt_or (jfield jas_u64 ''ask_qty'' row) 0
     in (if bid_qty > 0 then [(bid_price, jobj [(''price_paise'', JInt bid_price), (''buy_qty'', JInt (uint bid_qty)), (''sell_qty'', JInt 0)])] else [])
      @ (if ask_qty > 0 then [(ask_price, jobj [(''price_paise'', JInt ask_price), (''buy_qty'', JInt 0), (''sell_qty'', JInt (uint ask_qty))])] else [])) rows)"

definition heatmap_json :: "string \<Rightarrow> json \<Rightarrow> json" where
  "heatmap_json subject v =
     jobj [(''kind'', JStr ''heatmap''),
       (''data'', jobj [(''symbol'', JStr (opt_or (strip_prefix ''of.heatmap.'' subject) ''UNKNOWN'')),
          (''cells'', JArr (map snd (sort_key fst (heatmap_cells (opt_or (jfield jas_array ''rows'' v) []))))),
          (''ts_ns'', opt_or (jget ''ts_ns'' v) (JInt 0))])]"

definition shim_tick :: "bytes \<Rightarrow> string \<Rightarrow> json" where
  "shim_tick bs subject =
     jobj [(''kind'', JStr ''tick''),
       (''data'', jobj [(''symbol'', JStr (opt_or (strip_prefix ''md.tick.'' subject) ''UNKNOWN'')), (''ltp_paise'', JInt (read_i64 21 bs)),
          (''bid_paise'', JInt (read_i64 29 bs)), (''ask_paise'', JInt (read_i64 37 bs)), (''ts_recv_ns'', JInt (uint (read_u64 69 bs)))])]"

definition shim_signal :: "bytes \<Rightarrow> json" where
  "shim_signal bs =
     jobj [(''kind'', JStr ''signal''),
       (''data'', jobj [(''strategy'', JInt (uint (bs ! 16))), (''symbol'', JInt (uint (read_u32 17 bs))), (''side'', JInt (uint (bs ! 21))),
          (''confidence'', json_of_flt (read_f32 26 bs)), (''ts_ns'', JInt (uint (read_u64 58 bs)))])]"

definition decode_payload_shim :: "ui_env \<Rightarrow> string \<Rightarrow> bytes \<Rightarrow> json" where
  "decode_payload_shim env subject bs =
     (case ue_from_slice env bs of
        Some v \<Rightarrow>
          if starts_with ''of.heatmap.'' subject then heatmap_json subject v
          else if starts_with ''of.event.'' subject then jobj [(''kind'', JStr ''event''), (''data'', v)]
          else v
      | None \<Rightarrow>
          if starts_with ''md.tick.'' subject \<and> length bs = 77 then shim_tick bs subject
          else if starts_with ''sig.emitted'' subject \<and> length bs = 66 then shim_signal bs
          else jobj [(''_raw_b64'', JStr (ue_b64 env bs))])"

section \<open>The dispatcher (dispatcher.rs)\<close>

record nats_event =
  ne_subject :: string
  ne_topic_suffix :: string
  ne_payload :: json
  ne_ts_ns :: u128

record dispatcher_state =
  ds_signals :: signals_joiner
  ds_alerts :: "ui_alert list"
  ds_alert_capacity :: nat
  ds_volatility :: volatility_tracker
  ds_published :: "(string \<times> bytes) list"

text \<open>The message a subscription task of the binary forwards.\<close>

definition to_nats_event :: "ui_env \<Rightarrow> string \<Rightarrow> bytes \<Rightarrow> u128 \<Rightarrow> nats_event" where
  "to_nats_event env subject bs ts =
     \<lparr>ne_subject = subject, ne_topic_suffix = last (split_dot subject), ne_payload = decode_payload_shim env subject bs, ne_ts_ns = ts\<rparr>"

definition handle_intent :: "ui_env \<Rightarrow> subscriptions \<Rightarrow> string option \<Rightarrow> intent_kind \<Rightarrow> json \<Rightarrow> dispatcher_state \<Rightarrow> server_msg list \<times> dispatcher_state" where
  "handle_intent env subs rid kind payload st =
     (if \<not> is_subscribed subs ChControl
      then ([ErrorMsg IntentOnNonControl ''client must subscribe to /control before publishing intents'' rid], st)
      else case publish_intent env kind payload (ds_published st) of
        (Inr _, sent) \<Rightarrow> ([AckMsg rid ChControl], st\<lparr>ds_published := sent\<rparr>)
      | (Inl (InvalidPayload _ reason), sent) \<Rightarrow> ([ErrorMsg InvalidIntent reason rid], st\<lparr>ds_published := sent\<rparr>)
      | (Inl (PublishFailed _ m), sent) \<Rightarrow> ([ErrorMsg UiInternal (''nats publish failed: '' @ m) rid], st\<lparr>ds_published := sent\<rparr>))"

fun handle_client :: "ui_env \<Rightarrow> client_msg \<Rightarrow> subscriptions \<Rightarrow> dispatcher_state \<Rightarrow> server_msg list \<times> subscriptions \<times> dispatcher_state" where
  "handle_client env (Subscribe rid ch topics) subs st = ([AckMsg rid ch], subs_subscribe ch topics subs, st)"
| "handle_client env (Unsubscribe rid ch) subs st = ([AckMsg rid ch], subs_unsubscribe ch subs, st)"
| "handle_client env (IntentMsg rid kind payload) subs st =
     (case handle_intent env subs rid kind payload st of (out, st') \<Rightarrow> (out, subs, st'))"
| "handle_client env (PingMsg rid) subs st = ([PongMsg rid], subs, st)"

definition wrap_outcome :: "join_outcome \<Rightarrow> json list option" where
  "wrap_outcome oc = (case oc of Joined p \<Rightarrow> Some [p] | SignalOnly p \<Rightarrow> Some [p] | PendingOutcome _ \<Rightarrow> None)"

definition signal_cid :: "json \<Rightarrow> string" where
  "signal_cid payload = opt_or (jfield jas_str ''correlation_id'' payload) []"

definition feed_signals_join :: "nat \<Rightarrow> nats_event \<Rightarrow> signals_joiner \<Rightarrow> json list option \<times> signals_joiner" where
  "feed_signals_join now ev j =
     (if ne_subject ev = ''sig.emitted'' then
        (case feed_signal now (signal_cid (ne_payload ev)) (ne_payload ev) j of (oc, j') \<Rightarrow> (wrap_outcome oc, j'))
      else if starts_with ''ai.rank.'' (ne_subject ev) then
        (case feed_rank now (ne_topic_suffix ev) (ne_payload ev) j of (oc, j') \<Rightarrow> (wrap_outcome oc, j'))
      else (None, j))"

text \<open>One channel of the routing loop.\<close>

definition route_channel :: "nat \<Rightarrow> nats_event \<Rightarrow> subscriptions \<Rightarrow> channel \<Rightarrow> dispatcher_state \<Rightarrow> server_msg list \<times> dispatcher_state" where
  "route_channel now ev subs ch st =
     (if \<not> is_subscribed subs ch then ([], st)
      else if ch = ChSignals then
        (case feed_signals_join now ev (ds_signals st) of
           (ps, j) \<Rightarrow> (map (EventMsg ChSignals (Some (ne_subject ev)) (Some (ucast (ne_ts_ns ev)))) (opt_or ps []), st\<lparr>ds_signals := j\<rparr>))
      else if \<not> subs_accepts subs ch (ne_topic_suffix ev) then ([], st)
      else ([EventMsg ch (Some (ne_subject ev)) (Some (ucast (ne_ts_ns ev))) (ne_payload ev)], st))"

definition observe_breadth :: "nats_event \<Rightarrow> subscriptions \<Rightarrow> dispatcher_state \<Rightarrow> server_msg list \<times> dispatcher_state" where
  "observe_breadth ev subs st =
     (if ne_subject ev = ''md.breadth.volatility'' then
        (case vt_observe (ne_payload ev) (ds_volatility st) of
           (flipped, vt) \<Rightarrow>
             ((case flipped of Some b \<Rightarrow> if is_subscribed subs ChMarket then [ModeMsgOut b] else [] | None \<Rightarrow> []), st\<lparr>ds_volatility := vt\<rparr>))
      else ([], st))"

definition handle_nats_event :: "nat \<Rightarrow> nats_event \<Rightarrow> subscriptions \<Rightarrow> dispatcher_state \<Rightarrow> server_msg list \<times> dispatcher_state" where
  "handle_nats_event now ev subs st =
     fold (\<lambda>ch (out, st). case route_channel now ev subs ch st of (ms, st') \<Rightarrow> (out @ ms, st'))
       (classify_subject (ne_subject ev)) (observe_breadth ev subs st)"

definition ingest_for_alerts :: "nats_event \<Rightarrow> subscriptions \<Rightarrow> dispatcher_state \<Rightarrow> server_msg list \<times> dispatcher_state" where
  "ingest_for_alerts ev subs st =
     (case severity_for_subject (ne_subject ev) of
        None \<Rightarrow> ([], st)
      | Some sev \<Rightarrow>
          let a = \<lparr>ua_severity = sev, ua_source = ne_subject ev, ua_ts_ns = ne_ts_ns ev, ua_payload = ne_payload ev\<rparr>;
              st = st\<lparr>ds_alerts := alert_push (ds_alert_capacity st) a (ds_alerts st)\<rparr>
          in (if is_subscribed subs ChAlerts
              then [EventMsg ChAlerts (Some ''alerts'') None (alerts_value (alerts_ordered (ds_alerts st)))] else [], st))"

definition drain_signal_flushes :: "nat \<Rightarrow> subscriptions \<Rightarrow> dispatcher_state \<Rightarrow> server_msg list \<times> dispatcher_state" where
  "drain_signal_flushes now subs st =
     (if \<not> is_subscribed subs ChSignals then ([], st)
      else case flush_expired now (ds_signals st) of
        (ps, j) \<Rightarrow> (map (EventMsg ChSignals (Some ''sig.emitted'') None) ps, st\<lparr>ds_signals := j\<rparr>))"

section \<open>The session loop (gateway.rs)\<close>

text \<open>What one iteration of the loop of a connection receives; a text frame carries the result of parsing it.\<close>

datatype session_input =
    TextFrame "string + client_msg"
  | BinaryFrame
  | PingFrame bytes
  | CloseFrame
  | OtherFrame
  | StreamEnd
  | RecvFailed
  | NatsIn nat nats_event
  | LaggedIn nat
  | ClosedIn
  | FlushTick nat

datatype session_output = Reply server_msg | PongFrame bytes

text \<open>One iteration: what is handed to the socket, the state after it, and whether the loop goes on (a failed send would also end it).\<close>

fun session_step :: "ui_env \<Rightarrow> session_input \<Rightarrow> subscriptions \<times> dispatcher_state \<Rightarrow> session_output list \<times> (subscriptions \<times> dispatcher_state) \<times> bool" where
  "session_step env (TextFrame (Inr m)) (subs, st) =
     (case handle_client env m subs st of (out, subs', st') \<Rightarrow> (map Reply out, (subs', st'), True))"
| "session_step env (TextFrame (Inl e)) s = ([Reply (ErrorMsg BadFrame (''malformed client message: '' @ e) None)], s, True)"
| "session_step env BinaryFrame s = ([Reply (ErrorMsg BadFrame ''binary frames are not supported'' None)], s, True)"
| "session_step env (PingFrame p) s = ([PongFrame p], s, True)"
| "session_step env CloseFrame s = ([], s, False)"
| "session_step env OtherFrame s = ([], s, True)"
| "session_step env StreamEnd s = ([], s, False)"
| "session_step env RecvFailed s = ([], s, False)"
| "session_step env (NatsIn now ev) (subs, st) =
     (case handle_nats_event now ev subs st of (out1, st1) \<Rightarrow>
      case ingest_for_alerts ev subs st1 of (out2, st2) \<Rightarrow> (map Reply (out1 @ out2), (subs, st2), True))"
| "session_step env (LaggedIn n) s = ([], s, True)"
| "session_step env ClosedIn s = ([], s, False)"
| "session_step env (FlushTick now) (subs, st) =
     (case drain_signal_flushes now subs st of (out, st') \<Rightarrow> (map Reply out, (subs, st'), True))"

fun run_session :: "ui_env \<Rightarrow> session_input list \<Rightarrow> subscriptions \<times> dispatcher_state \<Rightarrow> session_output list \<times> subscriptions \<times> dispatcher_state" where
  "run_session env [] s = ([], s)"
| "run_session env (i # is) s =
     (case session_step env i s of
        (out, s', True) \<Rightarrow> (case run_session env is s' of (out', s'') \<Rightarrow> (out @ out', s''))
      | (out, s', False) \<Rightarrow> (out, s'))"

text \<open>Many connections share one dispatcher state: an input of connection \<open>c\<close> acts on its own subscriptions and the shared state.\<close>

definition gateway_step :: "ui_env \<Rightarrow> nat \<times> session_input \<Rightarrow> (nat \<Rightarrow> subscriptions) \<times> dispatcher_state
    \<Rightarrow> (nat \<times> session_output) list \<times> (nat \<Rightarrow> subscriptions) \<times> dispatcher_state" where
  "gateway_step env ci s =
     (case session_step env (snd ci) (fst s (fst ci), snd s) of
        (out, (subs', st'), _) \<Rightarrow> (map (Pair (fst ci)) out, (fst s)(fst ci := subs'), st'))"

fun run_gateway :: "ui_env \<Rightarrow> (nat \<times> session_input) list \<Rightarrow> (nat \<Rightarrow> subscriptions) \<times> dispatcher_state
    \<Rightarrow> (nat \<times> session_output) list \<times> (nat \<Rightarrow> subscriptions) \<times> dispatcher_state" where
  "run_gateway env [] s = ([], s)"
| "run_gateway env (ci # inps) s =
     (case gateway_step env ci s of (out, s') \<Rightarrow> case run_gateway env inps s' of (out', s'') \<Rightarrow> (out @ out', s''))"

text \<open>The state the binary starts with.\<close>

definition gateway_state :: "hedge_config \<Rightarrow> dispatcher_state" where
  "gateway_state cfg =
     \<lparr>ds_signals = joiner_new (max (unat (rank_p95_budget_ms (hc_ai cfg) * 4)) 2000 * 1000000) 4096 (set (shadow_components (hc_ai cfg))),
      ds_alerts = [], ds_alert_capacity = 256, ds_volatility = volatility_from_config (hc_ui cfg), ds_published = []\<rparr>"

end
