(* ===== verification/Ui_Facts.thy ===== *)
theory Ui_Facts
  imports Ui_Gateway
begin

text \<open>
  What the cockpit gateway guarantees over every interleaving of its connections: the join buffer stays bounded and in insertion order,
  trader intents are published only by a connection on \<open>/control\<close> with a valid payload, shadowed rankings are never shown, alerts are the
  newest ones in severity order. Every instance of the locale \<open>join_invariant\<close> is about the shared buffer under any interleaving.
\<close>

section \<open>The join buffer\<close>

definition joiner_ok :: "signals_joiner \<Rightarrow> bool" where
  "joiner_ok j \<longleftrightarrow> jn_order j = map fst (jn_map j) \<and> distinct (jn_order j)"

lemma joiner_ok_new [simp]: "joiner_ok (joiner_new ttl cap shadow)"
  by (simp add: joiner_ok_def joiner_new_def)

lemma map_fst_delete: "distinct (map fst m) \<Longrightarrow> map fst (AList.delete k m) = remove1 k (map fst m)"
  by (induction m) (auto simp: AList.delete_eq remove1_idem filter_id_conv intro!: sym [OF remove1_idem] split: prod.splits)

lemma drop_entry_fields [simp]:
  "jn_ttl (drop_entry k j) = jn_ttl j" "jn_capacity (drop_entry k j) = jn_capacity j" "jn_shadow (drop_entry k j) = jn_shadow j"
  "jn_map (drop_entry k j) = AList.delete k (jn_map j)"
  by (simp_all add: drop_entry_def)

lemma drop_entry_ok: "joiner_ok j \<Longrightarrow> joiner_ok (drop_entry k j)"
  by (auto simp: joiner_ok_def drop_entry_def map_fst_delete)

lemma fold_drop_entry:
  "joiner_ok j \<Longrightarrow> joiner_ok (fold drop_entry ks j)" "jn_ttl (fold drop_entry ks j) = jn_ttl j"
  "jn_capacity (fold drop_entry ks j) = jn_capacity j" "jn_shadow (fold drop_entry ks j) = jn_shadow j"
  "jn_map (fold drop_entry ks j) = filter (\<lambda>(k, e). k \<notin> set ks) (jn_map j)"
proof (induction ks arbitrary: j)
  case (Cons k ks)
  { case 1 with Cons show ?case by (simp add: drop_entry_ok) }
  { case 2 show ?case using Cons by simp }
  { case 3 show ?case using Cons by simp }
  { case 4 show ?case using Cons by simp }
  { case 5 show ?case using Cons by (auto simp: AList.delete_eq intro!: filter_cong) }
qed simp_all

lemma enforce_loop_spec:
  "distinct (map fst m) \<Longrightarrow> enforce_loop cap m (map fst m) = (drop (length m - cap) m, map fst (drop (length m - cap) m))"
proof (induction m)
  case (Cons e m)
  have "AList.delete (fst e) (e # m) = m"
    using Cons.prems by (cases e) (force simp: AList.delete_eq filter_id_conv)
  then show ?case using Cons by (auto simp: Suc_diff_le)
qed simp

text \<open>Enforcing the capacity drops the oldest entries.\<close>

lemma enforce_capacity_spec:
  "joiner_ok j \<Longrightarrow> enforce_capacity j = j\<lparr>jn_map := drop (length (jn_map j) - jn_capacity j) (jn_map j),
     jn_order := map fst (drop (length (jn_map j) - jn_capacity j) (jn_map j))\<rparr>"
  using enforce_loop_spec [of "jn_map j" "jn_capacity j"] by (clarsimp simp: enforce_capacity_def joiner_ok_def)

lemma enforce_capacity_ok:
  "joiner_ok j \<Longrightarrow> joiner_ok (enforce_capacity j) \<and> length (jn_map (enforce_capacity j)) \<le> jn_capacity j
     \<and> jn_capacity (enforce_capacity j) = jn_capacity j \<and> jn_shadow (enforce_capacity j) = jn_shadow j \<and> jn_ttl (enforce_capacity j) = jn_ttl j"
  by (auto simp: enforce_capacity_spec joiner_ok_def drop_map [symmetric])

lemma prune_expired_ok:
  "joiner_ok j \<Longrightarrow> joiner_ok (prune_expired now j)" "jn_capacity (prune_expired now j) = jn_capacity j"
  "jn_shadow (prune_expired now j) = jn_shadow j" "jn_ttl (prune_expired now j) = jn_ttl j"
  "set (jn_map (prune_expired now j)) \<subseteq> set (jn_map j)" "length (jn_map (prune_expired now j)) \<le> length (jn_map j)"
  by (auto simp: prune_expired_def fold_drop_entry)

lemma ensure_entry_ok:
  "joiner_ok j \<Longrightarrow> joiner_ok (ensure_entry now cid j)" "jn_capacity (ensure_entry now cid j) = jn_capacity j"
  "jn_shadow (ensure_entry now cid j) = jn_shadow j" "jn_ttl (ensure_entry now cid j) = jn_ttl j"
  "map_of (jn_map (ensure_entry now cid j)) cid \<noteq> None"
  by (auto simp: ensure_entry_def joiner_ok_def map_of_eq_None_iff)

lemma map_fst_update: "k \<in> fst ` set m \<Longrightarrow> map fst (AList.update k v m) = map fst m"
  by (induction m) auto

lemma set_update_subset: "distinct (map fst m) \<Longrightarrow> set (AList.update k v m) \<subseteq> insert (k, v) (set m - {x. fst x = k})"
  by (induction m) (force split: if_splits)+

lemma feed_entry_ok:
  assumes "joiner_ok j" "feed_entry now cid f j = (oc, j')"
  shows "joiner_ok j'" "length (jn_map j') \<le> jn_capacity j" "jn_capacity j' = jn_capacity j" "jn_shadow j' = jn_shadow j" "jn_ttl j' = jn_ttl j"
proof -
  let ?j = "ensure_entry now cid (prune_expired now j)"
  define e where "e = f (the (map_of (jn_map ?j) cid))"
  let ?u = "?j\<lparr>jn_map := AList.update cid e (jn_map ?j)\<rparr>"
  define j2 where "j2 = (case join_decide e of PendingOutcome _ \<Rightarrow> ?u | _ \<Rightarrow> drop_entry cid ?u)"
  have "joiner_ok ?j" using assms by (simp add: ensure_entry_ok prune_expired_ok)
  moreover have "cid \<in> fst ` set (jn_map ?j)" using ensure_entry_ok(5) by (metis map_of_eq_None_iff)
  ultimately have "joiner_ok ?u" by (auto simp: joiner_ok_def map_fst_update)
  then have "joiner_ok j2" by (simp add: j2_def drop_entry_ok split: join_outcome.splits)
  moreover have "jn_capacity j2 = jn_capacity j" "jn_shadow j2 = jn_shadow j" "jn_ttl j2 = jn_ttl j"
    by (simp_all add: j2_def ensure_entry_ok prune_expired_ok split: join_outcome.splits)
  moreover have "feed_entry now cid f j = (join_decide e, enforce_capacity j2)" by (simp only: feed_entry_def Let_def e_def j2_def)
  then have "j' = enforce_capacity j2" using assms(2) by simp
  ultimately show "joiner_ok j'" "length (jn_map j') \<le> jn_capacity j" "jn_capacity j' = jn_capacity j" "jn_shadow j' = jn_shadow j" "jn_ttl j' = jn_ttl j"
    using enforce_capacity_ok [of j2] by auto
qed

text \<open>Every entry after a feed was there before, or is the changed one; the outcome is decided on the changed one.\<close>

lemma feed_entry_entries:
  assumes "feed_entry now cid f j = (oc, j')" "joiner_ok j"
  shows "\<exists>e. oc = join_decide (f e) \<and> (e = \<lparr>pj_signal = None, pj_ranks = [], pj_shadowed_sources = [], pj_inserted_at = now\<rparr> \<or> (cid, e) \<in> set (jn_map j))
    \<and> set (jn_map j') \<subseteq> insert (cid, f e) (set (jn_map j))"
proof -
  let ?p = "prune_expired now j" and ?fresh = "\<lparr>pj_signal = None, pj_ranks = [], pj_shadowed_sources = [], pj_inserted_at = now\<rparr>"
  let ?j = "ensure_entry now cid ?p"
  define e where "e = the (map_of (jn_map ?j) cid)"
  let ?u = "?j\<lparr>jn_map := AList.update cid (f e) (jn_map ?j)\<rparr>"
  define j2 where "j2 = (case join_decide (f e) of PendingOutcome _ \<Rightarrow> ?u | _ \<Rightarrow> drop_entry cid ?u)"
  have okj: "joiner_ok ?j" using assms(2) by (simp add: ensure_entry_ok prune_expired_ok)
  have "feed_entry now cid f j = (join_decide (f e), enforce_capacity j2)" by (simp only: feed_entry_def Let_def e_def j2_def)
  then have r: "oc = join_decide (f e)" "j' = enforce_capacity j2" using assms(1) by simp_all
  have "map_of (jn_map ?j) cid = Some e" using ensure_entry_ok(5) [of now cid ?p] by (auto simp: e_def)
  then have "(cid, e) \<in> set (jn_map ?j)" by (rule map_of_SomeD)
  then have e: "e = ?fresh \<or> (cid, e) \<in> set (jn_map j)"
    using prune_expired_ok(5) [of now j] by (auto simp: ensure_entry_def split: if_splits)
  have cidin: "cid \<in> fst ` set (jn_map ?j)" using \<open>(cid, e) \<in> set (jn_map ?j)\<close> by force
  have dj: "distinct (map fst (jn_map ?j))" using okj by (auto simp: joiner_ok_def)
  have "set (jn_map ?u) \<subseteq> insert (cid, f e) (set (jn_map ?j) - {x. fst x = cid})"
    using set_update_subset [OF dj, of cid "f e"] by simp
  moreover have "set (jn_map ?j) - {x. fst x = cid} \<subseteq> set (jn_map j)"
    using prune_expired_ok(5) [of now j] by (auto simp: ensure_entry_def split: if_splits)
  ultimately have "set (jn_map ?u) \<subseteq> insert (cid, f e) (set (jn_map j))" by blast
  moreover have "set (jn_map j2) \<subseteq> set (jn_map ?u)" by (auto simp: j2_def AList.delete_eq split: join_outcome.splits)
  moreover have "joiner_ok j2"
  proof -
    have "joiner_ok ?u" using okj cidin by (auto simp: joiner_ok_def map_fst_update)
    then show ?thesis by (simp add: j2_def drop_entry_ok split: join_outcome.splits)
  qed
  then have "set (jn_map j') \<subseteq> set (jn_map j2)" using r(2) by (auto simp: enforce_capacity_spec dest: in_set_dropD)
  ultimately show ?thesis using r(1) e by blast
qed

lemma flush_expired_ok:
  assumes "joiner_ok j" "flush_expired now j = (ps, j')"
  shows "joiner_ok j'" "length (jn_map j') \<le> length (jn_map j)" "jn_capacity j' = jn_capacity j" "jn_shadow j' = jn_shadow j"
    "set (jn_map j') \<subseteq> set (jn_map j)"
    "\<forall>p \<in> set ps. \<exists>k e sig. (k, e) \<in> set (jn_map j) \<and> pj_signal e = Some sig \<and> p = merge_payload k sig (pj_ranks e) (pj_shadowed_sources e)"
  using assms by (auto simp: flush_expired_def Let_def fold_drop_entry List.map_filter_def split: prod.splits) blast

section \<open>Invariants of the shared join buffer\<close>

text \<open>
  A property of the join buffer that both ways of using it keep, with what they may then show. The client lemma is about every
  interleaving of the inputs of any number of connections.
\<close>

definition signals_shown :: "(json \<Rightarrow> bool) \<Rightarrow> session_output \<Rightarrow> bool" where
  "signals_shown Q out = (case out of Reply (EventMsg ch s t p) \<Rightarrow> (ch = ChSignals \<longrightarrow> Q p) | _ \<Rightarrow> True)"

definition event_input :: "(nats_event \<Rightarrow> bool) \<Rightarrow> session_input \<Rightarrow> bool" where
  "event_input P i = (case i of NatsIn now ev \<Rightarrow> P ev | _ \<Rightarrow> True)"

locale join_invariant =
  fixes inv :: "signals_joiner \<Rightarrow> bool" and shown :: "json \<Rightarrow> bool" and allowed :: "nats_event \<Rightarrow> bool"
  assumes feed: "inv j \<Longrightarrow> allowed ev \<Longrightarrow> feed_signals_join now ev j = (ps, j') \<Longrightarrow> inv j' \<and> (\<forall>p \<in> set (opt_or ps []). shown p)"
    and flush: "inv j \<Longrightarrow> flush_expired now j = (qs, j') \<Longrightarrow> inv j' \<and> (\<forall>p \<in> set qs. shown p)"
begin

lemma route_keeps:
  assumes "inv (ds_signals st)" "allowed ev" "route_channel now ev subs ch st = (ms, st')"
  shows "inv (ds_signals st') \<and> (\<forall>m \<in> set ms. signals_shown shown (Reply m))"
proof (cases "ch = ChSignals \<and> is_subscribed subs ch")
  case True
  obtain ps j where f: "feed_signals_join now ev (ds_signals st) = (ps, j)" by (metis surj_pair)
  with True assms(3) feed [OF assms(1,2) f] show ?thesis by (auto simp: route_channel_def signals_shown_def)
next
  case False
  with assms(1,3) show ?thesis by (auto simp: route_channel_def signals_shown_def split: if_splits)
qed

lemma fold_route_keeps:
  assumes "inv (ds_signals st)" "allowed ev" "\<forall>m \<in> set out. signals_shown shown (Reply m)"
    and "fold (\<lambda>ch (out, st). case route_channel now ev subs ch st of (ms, st') \<Rightarrow> (out @ ms, st')) chs (out, st) = (out', st')"
  shows "inv (ds_signals st') \<and> (\<forall>m \<in> set out'. signals_shown shown (Reply m))"
  using assms
proof (induction chs arbitrary: out st)
  case (Cons ch chs)
  obtain ms st1 where r: "route_channel now ev subs ch st = (ms, st1)" by (metis surj_pair)
  have "inv (ds_signals st1) \<and> (\<forall>m \<in> set ms. signals_shown shown (Reply m))" using route_keeps [OF Cons.prems(1,2) r] .
  then show ?case using Cons.IH [of st1 "out @ ms"] Cons.prems r by auto
qed auto

lemma step_keeps:
  assumes "inv (ds_signals st)" "event_input allowed i" "session_step env i (subs, st) = (out, (subs', st'), go)"
  shows "inv (ds_signals st') \<and> (\<forall>x \<in> set out. signals_shown shown x)"
proof (cases i)
  case (TextFrame r)
  show ?thesis
  proof (cases r)
    case (Inr m)
    then show ?thesis using assms TextFrame
      by (cases m) (auto simp: signals_shown_def handle_intent_def split: prod.splits if_splits sum.splits intent_error.splits)
  qed (use assms TextFrame in \<open>auto simp: signals_shown_def\<close>)
next
  case (NatsIn now ev)
  obtain out0 st0 where o: "observe_breadth ev subs st = (out0, st0)" by (metis surj_pair)
  obtain out1 st1 where h: "handle_nats_event now ev subs st = (out1, st1)" by (metis surj_pair)
  obtain out2 st2 where a: "ingest_for_alerts ev subs st1 = (out2, st2)" by (metis surj_pair)
  have 0: "ds_signals st0 = ds_signals st" "\<forall>m \<in> set out0. signals_shown shown (Reply m)"
    using o by (auto simp: observe_breadth_def signals_shown_def split: if_splits prod.splits option.splits)
  have 1: "inv (ds_signals st1) \<and> (\<forall>m \<in> set out1. signals_shown shown (Reply m))"
    using fold_route_keeps [of st0 ev out0 now subs "classify_subject (ne_subject ev)" out1 st1] 0 assms(1,2) h o NatsIn
    by (simp add: handle_nats_event_def event_input_def)
  have "ds_signals st2 = ds_signals st1" "\<forall>m \<in> set out2. signals_shown shown (Reply m)"
    using a by (auto simp: ingest_for_alerts_def signals_shown_def Let_def split: option.splits if_splits)
  then show ?thesis using 1 assms(3) NatsIn h a by auto
next
  case (FlushTick now)
  obtain ps j where f: "flush_expired now (ds_signals st) = (ps, j)" by (metis surj_pair)
  show ?thesis using assms FlushTick f flush [OF assms(1) f]
    by (auto simp: drain_signal_flushes_def signals_shown_def split: if_splits)
qed (use assms in \<open>auto simp: signals_shown_def\<close>)

lemma run_keeps:
  assumes "inv (ds_signals st)" "\<forall>(c, i) \<in> set inps. event_input allowed i" "run_gateway env inps (subs, st) = (out, subs', st')"
  shows "inv (ds_signals st') \<and> (\<forall>(c, x) \<in> set out. signals_shown shown x)"
  using assms
proof (induction inps arbitrary: subs st out)
  case (Cons ci inps)
  obtain c i where ci: "ci = (c, i)" by (metis surj_pair)
  obtain o1 s1 st1 go where s: "session_step env i (subs c, st) = (o1, (s1, st1), go)" by (metis surj_pair)
  obtain o2 where r: "run_gateway env inps (subs(c := s1), st1) = (o2, subs', st')" "out = map (Pair c) o1 @ o2"
    using Cons.prems(3) s ci by (auto simp: gateway_step_def split: prod.splits)
  have "inv (ds_signals st1) \<and> (\<forall>x \<in> set o1. signals_shown shown x)"
    using step_keeps [OF Cons.prems(1) _ s] Cons.prems(2) ci by auto
  then show ?case using Cons.IH [OF _ _ r(1)] Cons.prems(2) r(2) by auto
qed auto

end

text \<open>What either feed does, in the form the instances below need.\<close>

lemma feed_signals_join_cases:
  assumes "feed_signals_join now ev j = (ps, j')"
  obtains (signal) oc where "ne_subject ev = ''sig.emitted''"
      "feed_entry now (signal_cid (ne_payload ev)) (\<lambda>e. e\<lparr>pj_signal := Some (ne_payload ev)\<rparr>) j = (oc, j')" "ps = wrap_outcome oc"
    | (rank) oc where "starts_with ''ai.rank.'' (ne_subject ev)" "rank_source (ne_payload ev) = [] \<or> rank_source (ne_payload ev) \<notin> jn_shadow j"
      "feed_entry now (ne_topic_suffix ev) (\<lambda>e. e\<lparr>pj_ranks := pj_ranks e @ [ne_payload ev]\<rparr>) j = (oc, j')" "ps = wrap_outcome oc"
    | (shadowed) oc where "starts_with ''ai.rank.'' (ne_subject ev)"
      "feed_entry now (ne_topic_suffix ev) (\<lambda>e. e\<lparr>pj_shadowed_sources := pj_shadowed_sources e @ [rank_source (ne_payload ev)]\<rparr>) j = (oc, j')"
      "ps = wrap_outcome oc"
    | (neither) "ps = None" "j' = j"
proof -
  let ?src = "rank_source (ne_payload ev)"
  consider "ne_subject ev = ''sig.emitted''" | "ne_subject ev \<noteq> ''sig.emitted''" "starts_with ''ai.rank.'' (ne_subject ev)" "?src \<noteq> [] \<and> ?src \<in> jn_shadow j"
    | "ne_subject ev \<noteq> ''sig.emitted''" "starts_with ''ai.rank.'' (ne_subject ev)" "\<not> (?src \<noteq> [] \<and> ?src \<in> jn_shadow j)"
    | "ne_subject ev \<noteq> ''sig.emitted''" "\<not> starts_with ''ai.rank.'' (ne_subject ev)" by blast
  then show thesis
  proof cases
    case 1
    then show ?thesis using assms signal by (auto simp: feed_signals_join_def feed_signal_def split: prod.splits)
  next
    case 2
    then show ?thesis using assms shadowed by (auto simp: feed_signals_join_def feed_rank_def is_shadowed_def Let_def split: prod.splits)
  next
    case 3
    then show ?thesis using assms rank by (auto simp: feed_signals_join_def feed_rank_def is_shadowed_def Let_def split: prod.splits)
  next
    case 4
    then show ?thesis using assms neither by (auto simp: feed_signals_join_def)
  qed
qed

lemma decide_shown:
  "p \<in> set (opt_or (wrap_outcome (join_decide e)) []) \<Longrightarrow> \<exists>sig. pj_signal e = Some sig \<and> pj_ranks e \<noteq> []
     \<and> p = merge_payload [] sig (pj_ranks e) (pj_shadowed_sources e)"
  by (auto simp: join_decide_def wrap_outcome_def opt_or_def split: option.splits if_splits)

text \<open>The rankings a payload of \<open>/signals\<close> carries.\<close>

definition shown_ranks :: "json \<Rightarrow> json list" where
  "shown_ranks p = opt_or (jfield jas_array ''ranks'' p) []"

lemma shown_ranks_merge [simp]: "shown_ranks (merge_payload k sig ranks shadowed) = ranks"
  by (simp add: shown_ranks_def merge_payload_def jobj_def jset_def jfield_def jget_def jas_array_def bt_get_def opt_or_def Let_def less_char_def)

subsection \<open>Size\<close>

definition bounded_joiner :: "nat \<Rightarrow> signals_joiner \<Rightarrow> bool" where
  "bounded_joiner cap j \<longleftrightarrow> joiner_ok j \<and> jn_capacity j = cap \<and> length (jn_map j) \<le> cap"

lemma bounded_feed: "bounded_joiner cap j \<Longrightarrow> feed_entry now cid f j = (oc, j') \<Longrightarrow> bounded_joiner cap j'"
  using feed_entry_ok [of j now cid f oc j'] by (simp add: bounded_joiner_def)

interpretation bounded_join: join_invariant "bounded_joiner cap" "\<lambda>_. True" "\<lambda>_. True" for cap
proof unfold_locales
  fix j ev now ps j'
  assume "bounded_joiner cap j" "feed_signals_join now ev j = (ps, j')"
  then show "bounded_joiner cap j' \<and> (\<forall>p \<in> set (opt_or ps []). True)"
    by (elim feed_signals_join_cases) (auto dest: bounded_feed)
next
  fix j now qs j'
  assume "bounded_joiner cap j" "flush_expired now j = (qs, j')"
  then show "bounded_joiner cap j' \<and> (\<forall>p \<in> set qs. True)"
    using flush_expired_ok [of j now qs j'] by (auto simp: bounded_joiner_def)
qed

subsection \<open>Shadowed components\<close>

definition unshadowed :: "string set \<Rightarrow> json \<Rightarrow> bool" where
  "unshadowed S r \<longleftrightarrow> rank_source r = [] \<or> rank_source r \<notin> S"

definition shadow_inv :: "string set \<Rightarrow> signals_joiner \<Rightarrow> bool" where
  "shadow_inv S j \<longleftrightarrow> joiner_ok j \<and> jn_shadow j = S \<and> (\<forall>(k, e) \<in> set (jn_map j). \<forall>r \<in> set (pj_ranks e). unshadowed S r)"

lemma shadow_inv_feed:
  assumes "shadow_inv S j" "feed_entry now cid f j = (oc, j')"
    and "\<And>e. \<forall>r \<in> set (pj_ranks e). unshadowed S r \<Longrightarrow> \<forall>r \<in> set (pj_ranks (f e)). unshadowed S r"
  shows "shadow_inv S j' \<and> (\<forall>p \<in> set (opt_or (wrap_outcome oc) []). \<forall>r \<in> set (shown_ranks p). unshadowed S r)"
proof -
  have ok: "joiner_ok j" using assms(1) by (simp add: shadow_inv_def)
  from feed_entry_entries [OF assms(2) ok] obtain e where e: "oc = join_decide (f e)"
    "e = \<lparr>pj_signal = None, pj_ranks = [], pj_shadowed_sources = [], pj_inserted_at = now\<rparr> \<or> (cid, e) \<in> set (jn_map j)"
    "set (jn_map j') \<subseteq> insert (cid, f e) (set (jn_map j))" by blast
  have "\<forall>r \<in> set (pj_ranks e). unshadowed S r" using e(2) assms(1) by (auto simp: shadow_inv_def)
  then have fe: "\<forall>r \<in> set (pj_ranks (f e)). unshadowed S r" by (rule assms(3))
  then have "\<forall>x \<in> insert (cid, f e) (set (jn_map j)). \<forall>r \<in> set (pj_ranks (snd x)). unshadowed S r" using assms(1) by (auto simp: shadow_inv_def)
  then have "shadow_inv S j'" using feed_entry_ok [OF ok assms(2)] e(3) assms(1) by (fastforce simp: shadow_inv_def)
  moreover have "\<forall>p \<in> set (opt_or (wrap_outcome oc) []). \<forall>r \<in> set (shown_ranks p). unshadowed S r"
    using fe e(1) by (auto dest!: decide_shown)
  ultimately show ?thesis ..
qed

interpretation shadow_join: join_invariant "shadow_inv S" "\<lambda>p. \<forall>r \<in> set (shown_ranks p). unshadowed S r" "\<lambda>_. True" for S
proof unfold_locales
  fix j ev now ps j'
  assume inv: "shadow_inv S j" and f: "feed_signals_join now ev j = (ps, j')"
  from f show "shadow_inv S j' \<and> (\<forall>p \<in> set (opt_or ps []). \<forall>r \<in> set (shown_ranks p). unshadowed S r)"
  proof (cases rule: feed_signals_join_cases)
    case (signal oc)
    show ?thesis unfolding signal(3) by (rule shadow_inv_feed [OF inv signal(2)]) simp
  next
    case (rank oc)
    have "unshadowed S (ne_payload ev)" using rank(2) inv by (auto simp: unshadowed_def shadow_inv_def)
    then show ?thesis unfolding rank(4) by (intro shadow_inv_feed [OF inv rank(3)]) auto
  next
    case (shadowed oc)
    show ?thesis unfolding shadowed(3) by (rule shadow_inv_feed [OF inv shadowed(2)]) simp
  qed (use inv in \<open>auto simp: opt_or_def\<close>)
next
  fix j now ps j'
  assume "shadow_inv S j" "flush_expired now j = (ps, j')"
  then show "shadow_inv S j' \<and> (\<forall>p \<in> set ps. \<forall>r \<in> set (shown_ranks p). unshadowed S r)"
    using flush_expired_ok [of j now ps j'] unfolding shadow_inv_def by fastforce
qed

subsection \<open>Provenance\<close>

text \<open>With \<open>E\<close> the events received so far or later: a signal is stored under its own identifier, a ranking under the last segment of the subject it came on.\<close>

definition signal_received :: "nats_event set \<Rightarrow> json \<Rightarrow> bool" where
  "signal_received E sig \<longleftrightarrow> (\<exists>ev \<in> E. ne_subject ev = ''sig.emitted'' \<and> ne_payload ev = sig)"

definition rank_received :: "nats_event set \<Rightarrow> string \<Rightarrow> json \<Rightarrow> bool" where
  "rank_received E cid r \<longleftrightarrow> (\<exists>ev \<in> E. starts_with ''ai.rank.'' (ne_subject ev) \<and> ne_topic_suffix ev = cid \<and> ne_payload ev = r)"

definition entry_traced :: "nats_event set \<Rightarrow> string \<Rightarrow> pending_join \<Rightarrow> bool" where
  "entry_traced E k e \<longleftrightarrow> (\<forall>sig. pj_signal e = Some sig \<longrightarrow> signal_cid sig = k \<and> signal_received E sig) \<and> (\<forall>r \<in> set (pj_ranks e). rank_received E k r)"

definition traced_inv :: "nats_event set \<Rightarrow> signals_joiner \<Rightarrow> bool" where
  "traced_inv E j \<longleftrightarrow> joiner_ok j \<and> (\<forall>x \<in> set (jn_map j). entry_traced E (fst x) (snd x))"

definition traced_payload :: "nats_event set \<Rightarrow> json \<Rightarrow> bool" where
  "traced_payload E p \<longleftrightarrow> (\<exists>sig. jget ''signal'' p = Some sig \<and> signal_received E sig \<and> (\<forall>r \<in> set (shown_ranks p). rank_received E (signal_cid sig) r))"

lemma jget_signal_merge [simp]: "jget ''signal'' (merge_payload k sig ranks shadowed) = Some sig"
  by (simp add: merge_payload_def jobj_def jset_def jget_def bt_get_def Let_def less_char_def)

lemma entry_traced_payload: "entry_traced E k e \<Longrightarrow> pj_signal e = Some sig \<Longrightarrow> traced_payload E (merge_payload k' sig (pj_ranks e) sh)"
  by (auto simp: entry_traced_def traced_payload_def)

lemma traced_feed:
  assumes "traced_inv E j" "feed_entry now cid f j = (oc, j')" and "\<And>e. entry_traced E cid e \<Longrightarrow> entry_traced E cid (f e)"
  shows "traced_inv E j' \<and> (\<forall>p \<in> set (opt_or (wrap_outcome oc) []). traced_payload E p)"
proof -
  have ok: "joiner_ok j" using assms(1) by (simp add: traced_inv_def)
  from feed_entry_entries [OF assms(2) ok] obtain e where e: "oc = join_decide (f e)"
    "e = \<lparr>pj_signal = None, pj_ranks = [], pj_shadowed_sources = [], pj_inserted_at = now\<rparr> \<or> (cid, e) \<in> set (jn_map j)"
    "set (jn_map j') \<subseteq> insert (cid, f e) (set (jn_map j))" by blast
  have "entry_traced E cid e" using e(2) assms(1) by (auto simp: traced_inv_def entry_traced_def)
  then have fe: "entry_traced E cid (f e)" by (rule assms(3))
  then have "traced_inv E j'" using feed_entry_ok(1) [OF ok assms(2)] e(3) assms(1) unfolding traced_inv_def by fastforce
  moreover have "\<forall>p \<in> set (opt_or (wrap_outcome oc) []). traced_payload E p"
    using e(1) by (auto dest!: decide_shown intro: entry_traced_payload [OF fe])
  ultimately show ?thesis ..
qed

interpretation traced_join: join_invariant "traced_inv E" "traced_payload E" "\<lambda>ev. ev \<in> E" for E
proof unfold_locales
  fix j ev now ps j'
  assume inv: "traced_inv E j" and k: "ev \<in> E" and f: "feed_signals_join now ev j = (ps, j')"
  from f show "traced_inv E j' \<and> (\<forall>p \<in> set (opt_or ps []). traced_payload E p)"
  proof (cases rule: feed_signals_join_cases)
    case (signal oc)
    show ?thesis unfolding signal(3)
      by (rule traced_feed [OF inv signal(2)]) (use k signal(1) in \<open>auto simp: entry_traced_def signal_received_def\<close>)
  next
    case (rank oc)
    show ?thesis unfolding rank(4)
      by (rule traced_feed [OF inv rank(3)]) (use k rank(1) in \<open>auto simp: entry_traced_def rank_received_def\<close>)
  next
    case (shadowed oc)
    show ?thesis unfolding shadowed(3) by (rule traced_feed [OF inv shadowed(2)]) (simp add: entry_traced_def)
  qed (use inv in \<open>auto simp: opt_or_def\<close>)
next
  fix j now qs j'
  assume inv: "traced_inv E j" and "flush_expired now j = (qs, j')"
  note fl = flush_expired_ok [OF _ this(2)]
  have "joiner_ok j" using inv by (simp add: traced_inv_def)
  then show "traced_inv E j' \<and> (\<forall>p \<in> set qs. traced_payload E p)"
    using inv fl(1,5,6) unfolding traced_inv_def by (fastforce intro: entry_traced_payload)
qed

section \<open>Rankings on the cockpit\<close>

text \<open>C24: Shadow mode. Whatever the connections send and receive, in whatever order, the join buffer never holds more than its 4096 entries,
  and no payload sent on \<open>/signals\<close> carries a ranking of a component that the configuration shadows.\<close>

theorem shadowed_ranks_never_shown:
  assumes "run_gateway env inps (subs, gateway_state cfg) = (out, subs', st)"
  shows "length (jn_map (ds_signals st)) \<le> 4096
    \<and> (\<forall>c s t p r. (c, Reply (EventMsg ChSignals s t p)) \<in> set out \<longrightarrow> r \<in> set (shown_ranks p) \<longrightarrow>
         rank_source r = [] \<or> rank_source r \<notin> set (shadow_components (hc_ai cfg)))"
proof -
  let ?j = "ds_signals (gateway_state cfg)" and ?S = "set (shadow_components (hc_ai cfg))"
  have all: "\<forall>(c, i) \<in> set inps. event_input (\<lambda>_. True) i" by (auto simp: event_input_def split: session_input.splits)
  have "shadow_inv ?S ?j" by (simp add: shadow_inv_def gateway_state_def joiner_new_def joiner_ok_def)
  from shadow_join.run_keeps [OF this all assms]
  have "\<forall>c s t p r. (c, Reply (EventMsg ChSignals s t p)) \<in> set out \<longrightarrow> r \<in> set (shown_ranks p) \<longrightarrow> unshadowed ?S r"
    by (fastforce simp: signals_shown_def)
  moreover
  have "bounded_joiner 4096 ?j" by (simp add: bounded_joiner_def gateway_state_def joiner_new_def joiner_ok_def)
  from bounded_join.run_keeps [OF this all assms] have "length (jn_map (ds_signals st)) \<le> 4096" by (simp add: bounded_joiner_def)
  ultimately show ?thesis by (simp add: unshadowed_def)
qed

end
