(* ===== verification/Ui_Control.thy ===== *)
theory Ui_Control
  imports Ui_Facts "HOL-Library.Multiset"
begin

text \<open>
  The control plane and the alerts of the cockpit gateway over every interleaving of its connections: the publications are exactly the
  accepted intents, the trading mode of the execution service is the one last accepted, an alert frame holds the newest alerts in order, and a ranking
  is only shown with the signal whose identifier it was published under.
\<close>

section \<open>Accepted intents\<close>

text \<open>The specification: a log of intents that depends only on the client messages, one flag per connection for \<open>/control\<close>.\<close>

definition intent_accepted :: "ui_env \<Rightarrow> intent_kind \<Rightarrow> json \<Rightarrow> bool" where
  "intent_accepted env kind p \<longleftrightarrow> validate_intent kind p = Inr () \<and> ue_publish_error env (intent_subject kind) (ue_to_vec env p) = None"

fun accepted_intents :: "ui_env \<Rightarrow> (nat \<times> session_input) list \<Rightarrow> (nat \<Rightarrow> bool) \<Rightarrow> (intent_kind \<times> json) list" where
  "accepted_intents env [] on = []"
| "accepted_intents env ((c, TextFrame (Inr (Subscribe rid ch ts))) # inps) on = accepted_intents env inps (if ch = ChControl then on(c := True) else on)"
| "accepted_intents env ((c, TextFrame (Inr (Unsubscribe rid ch))) # inps) on = accepted_intents env inps (if ch = ChControl then on(c := False) else on)"
| "accepted_intents env ((c, TextFrame (Inr (IntentMsg rid kind p))) # inps) on =
     (if on c \<and> intent_accepted env kind p then [(kind, p)] else []) @ accepted_intents env inps on"
| "accepted_intents env (_ # inps) on = accepted_intents env inps on"

definition intent_wire :: "ui_env \<Rightarrow> intent_kind \<times> json \<Rightarrow> string \<times> bytes" where
  "intent_wire env i = (intent_subject (fst i), ue_to_vec env (snd i))"

text \<open>The connections on \<open>/control\<close>.\<close>

definition on_control :: "(nat \<Rightarrow> subscriptions) \<Rightarrow> nat \<Rightarrow> bool" where
  "on_control subs c \<longleftrightarrow> is_subscribed (subs c) ChControl"

lemma on_control_upd:
  "on_control (subs(c := s)) = (on_control subs)(c := is_subscribed s ChControl)"
  "(on_control subs)(c := is_subscribed (subs c) ChControl) = on_control subs"
  by (auto simp: on_control_def fun_eq_iff)

lemma is_subscribed_subs:
  "is_subscribed (subs_subscribe ch ts subs) ch' = (ch' = ch \<or> is_subscribed subs ch')"
  "is_subscribed (subs_unsubscribe ch subs) ch' = (ch' \<noteq> ch \<and> is_subscribed subs ch')"
  by (auto simp: is_subscribed_def subs_subscribe_def subs_unsubscribe_def)

lemma handle_intent_published:
  "ds_published (snd (handle_intent env subs rid kind p st)) =
     ds_published st @ (if is_subscribed subs ChControl \<and> intent_accepted env kind p then [intent_wire env (kind, p)] else [])"
  by (auto simp: handle_intent_def publish_intent_def intent_accepted_def intent_wire_def Let_def split: sum.splits intent_error.splits option.splits)

lemma handle_nats_published:
  "ds_published (snd (handle_nats_event now ev subs st)) = ds_published st"
proof -
  have r: "ds_published (snd (route_channel now ev subs ch s)) = ds_published s" for ch s
    by (auto simp: route_channel_def split: prod.splits)
  have "ds_published (snd (fold (\<lambda>ch (out, st). case route_channel now ev subs ch st of (ms, st') \<Rightarrow> (out @ ms, st')) chs os)) = ds_published (snd os)" for chs os
    by (induction chs arbitrary: os) (auto simp: split_beta r)
  moreover have "ds_published (snd (observe_breadth ev subs st)) = ds_published st" by (auto simp: observe_breadth_def split: prod.splits)
  ultimately show ?thesis by (simp add: handle_nats_event_def)
qed

lemma ingest_published: "ds_published (snd (ingest_for_alerts ev subs st)) = ds_published st"
  by (auto simp: ingest_for_alerts_def Let_def split: option.splits)

lemma drain_published: "ds_published (snd (drain_signal_flushes now subs st)) = ds_published st"
  by (auto simp: drain_signal_flushes_def split: prod.splits)

text \<open>One input acts on the log and on the flag of its connection as the specification says.\<close>

lemma gateway_step_control:
  assumes "gateway_step env ci (subs, st) = (out, subs', st')"
  shows "ds_published st @ map (intent_wire env) (accepted_intents env (ci # inps) (on_control subs))
    = ds_published st' @ map (intent_wire env) (accepted_intents env inps (on_control subs'))"
proof -
  obtain c i where ci: "ci = (c, i)" by (metis surj_pair)
  show ?thesis
  proof (cases i)
    case (TextFrame r)
    show ?thesis
    proof (cases r)
      case (Inr m)
      show ?thesis
      proof (cases m)
        case (Subscribe rid ch ts)
        then show ?thesis using assms ci TextFrame Inr
          by (cases "ch = ChControl") (auto simp: gateway_step_def on_control_upd is_subscribed_subs)
      next
        case (Unsubscribe rid ch)
        then show ?thesis using assms ci TextFrame Inr
          by (cases "ch = ChControl") (auto simp: gateway_step_def on_control_upd is_subscribed_subs)
      next
        case (IntentMsg rid kind p)
        then show ?thesis using assms ci TextFrame Inr handle_intent_published [of env "subs c" rid kind p st]
          by (auto simp: gateway_step_def split_beta on_control_def split: if_splits)
      next
        case (PingMsg rid)
        then show ?thesis using assms ci TextFrame Inr by (auto simp: gateway_step_def)
      qed
    qed (use assms ci TextFrame in \<open>auto simp: gateway_step_def\<close>)
  next
    case (NatsIn now ev)
    then show ?thesis using assms ci handle_nats_published [of now ev "subs c" st] ingest_published
      by (auto simp: gateway_step_def split_beta)
  next
    case (FlushTick now)
    then show ?thesis using assms ci drain_published [of now "subs c" st] by (auto simp: gateway_step_def split_beta)
  qed (use assms ci in \<open>auto simp: gateway_step_def\<close>)
qed

lemma published_intents:
  "ds_published (snd (snd (run_gateway env inps (subs, st)))) =
     ds_published st @ map (intent_wire env) (accepted_intents env inps (on_control subs))"
proof (induction inps arbitrary: subs st)
  case (Cons ci inps)
  obtain out subs' st' where s: "gateway_step env ci (subs, st) = (out, subs', st')" by (metis surj_pair)
  then show ?case using Cons.IH [of subs' st'] gateway_step_control [OF s] by (auto simp: split_beta)
qed simp

text \<open>C11: Authority of the control plane. Over every interleaving of any number of connections, what the gateway has published is exactly the
  sequence of the accepted intents: those sent by a connection that was then subscribed to \<open>/control\<close>, with a valid payload and a publisher
  that took it. No market event, alert, flush, malformed frame or other connection adds, drops or reorders one.\<close>

theorem intents_exactly_accepted:
  "ds_published (snd (snd (run_gateway env inps (subs, st)))) =
     ds_published st @ map (intent_wire env) (accepted_intents env inps (on_control subs))"
  by (rule published_intents)

section \<open>The trading mode\<close>

text \<open>The typed JSON access of the execution service, on the same JSON values.\<close>

definition ui_json :: "ui_env \<Rightarrow> json json_api" where
  "ui_json env = \<lparr>js_from_slice = ue_from_slice env, js_get = (\<lambda>v k. jget k v), js_as_str = jas_str, js_as_u64 = jas_u64,
     js_as_i64 = jas_i64, js_as_bool = jas_bool\<rparr>"

definition mode_wanted :: "intent_kind \<times> json \<Rightarrow> bool" where
  "mode_wanted i = the (jfield jas_bool ''live'' (snd i))"

definition is_mode_intent :: "intent_kind \<times> json \<Rightarrow> bool" where
  "is_mode_intent i \<longleftrightarrow> fst i = IkTradingMode"

lemma accepted_intents_accepted: "i \<in> set (accepted_intents env inps on) \<Longrightarrow> intent_accepted env (fst i) (snd i)"
  by (induction env inps on rule: accepted_intents.induct) (auto split: if_splits)

lemma intent_subject_mode: "intent_subject k = TRADER_INTENT_TRADING_MODE \<longleftrightarrow> k = IkTradingMode"
  by (cases k) (simp_all add: TRADER_INTENT_KILLSWITCH_def TRADER_INTENT_STRATEGY_TOGGLE_def TRADER_INTENT_PRIORITY_def TRADER_INTENT_ORDER_def
      TRADER_INTENT_TRADING_MODE_def)

lemma live_after_intents:
  assumes "\<forall>i \<in> set acc. intent_accepted env (fst i) (snd i) \<and> ue_from_slice env (ue_to_vec env (snd i)) = Some (snd i)"
  shows "live_after (ui_json env) live (map (ModeMsg \<circ> snd) (filter (\<lambda>m. fst m = TRADER_INTENT_TRADING_MODE) (map (intent_wire env) acc)))
    = last (live # map mode_wanted (filter is_mode_intent acc))"
  using assms
proof (induction acc arbitrary: live)
  case (Cons i acc)
  obtain k p where i: "i = (k, p)" by (metis surj_pair)
  show ?case
  proof (cases "k = IkTradingMode")
    case True
    then obtain b where "jfield jas_bool ''live'' p = Some b" using Cons.prems i by (auto simp: intent_accepted_def split: option.splits)
    then show ?thesis using Cons i True
      by (simp add: intent_wire_def intent_subject_mode is_mode_intent_def mode_wanted_def ui_json_def js_field_def jfield_def opt_or_def)
  next
    case False
    then show ?thesis using Cons i by (simp add: intent_wire_def intent_subject_mode is_mode_intent_def)
  qed
qed simp

text \<open>C12: Composition of the gateway with the execution service. When the execution service has received every message that the gateway published on
  \<open>trader.intent.trading_mode\<close>, its live flag is the \<open>live\<close> field of the last accepted mode intent, and the flag it started with when there is
  none. Any connection that subscribed to \<open>/control\<close> can therefore put it in live mode: no confirmation is part of the protocol.\<close>

theorem cockpit_mode_reaches_exec:
  assumes "acc = accepted_intents env inps (on_control subs)"
    and "\<forall>i \<in> set acc. ue_from_slice env (ue_to_vec env (snd i)) = Some (snd i)"
    and "ds_published st = []" "run_gateway env inps (subs, st) = (out, subs', st')"
  shows "fst (exec_service (ui_json env) br cap
      (map (ModeMsg \<circ> snd) (filter (\<lambda>m. fst m = TRADER_INTENT_TRADING_MODE) (ds_published st'))) (live, io))
    = last (live # map mode_wanted (filter is_mode_intent acc))"
proof -
  have "ds_published st' = map (intent_wire env) acc" using published_intents [of env inps subs st] assms by simp
  moreover have "\<forall>i \<in> set acc. intent_accepted env (fst i) (snd i) \<and> ue_from_slice env (ue_to_vec env (snd i)) = Some (snd i)"
    using assms(1,2) accepted_intents_accepted by blast
  ultimately show ?thesis using live_after_intents by (simp add: exec_service_mode)
qed

section \<open>Alerts\<close>

text \<open>The alerts the received events raise, one per connection that receives one.\<close>

definition alert_of :: "nats_event \<Rightarrow> ui_alert option" where
  "alert_of ev = map_option (\<lambda>sev. \<lparr>ua_severity = sev, ua_source = ne_subject ev, ua_ts_ns = ne_ts_ns ev, ua_payload = ne_payload ev\<rparr>)
     (severity_for_subject (ne_subject ev))"

fun alert_log :: "(nat \<times> session_input) list \<Rightarrow> ui_alert list" where
  "alert_log [] = []"
| "alert_log ((c, NatsIn now ev) # inps) = (case alert_of ev of Some a \<Rightarrow> [a] | None \<Rightarrow> []) @ alert_log inps"
| "alert_log (_ # inps) = alert_log inps"

definition newest :: "nat \<Rightarrow> 'a list \<Rightarrow> 'a list" where
  "newest n xs = drop (length xs - n) xs"

lemma newest_push: "0 < cap \<Longrightarrow> alert_push cap a (newest cap xs) = newest cap (xs @ [a])"
  by (auto simp: alert_push_def newest_def Suc_diff_le tl_drop drop_Suc)

lemma alert_log_append: "alert_log (xs @ ys) = alert_log xs @ alert_log ys"
  by (induction xs rule: alert_log.induct) auto

lemma no_alert_route: "ChAlerts \<notin> set (classify_subject s)"
  by (simp add: classify_subject_def Let_def)

lemma handle_nats_alerts:
  assumes "handle_nats_event now ev subs st = (out, st')"
  shows "ds_alerts st' = ds_alerts st" "ds_alert_capacity st' = ds_alert_capacity st" "EventMsg ChAlerts s t p \<notin> set out"
proof -
  let ?f = "\<lambda>ch (out, st). case route_channel now ev subs ch st of (ms, st') \<Rightarrow> (out @ ms, st')"
  have "ds_alerts (snd (fold ?f chs os)) = ds_alerts (snd os) \<and> ds_alert_capacity (snd (fold ?f chs os)) = ds_alert_capacity (snd os)
     \<and> (ChAlerts \<notin> set chs \<longrightarrow> EventMsg ChAlerts s t p \<notin> set (fst os) \<longrightarrow> EventMsg ChAlerts s t p \<notin> set (fst (fold ?f chs os)))" for chs os
  proof (induction chs arbitrary: os)
    case (Cons ch chs)
    obtain o0 s0 ms s1 where o: "os = (o0, s0)" "route_channel now ev subs ch s0 = (ms, s1)" by (metis surj_pair)
    then have "ds_alerts s1 = ds_alerts s0" "ds_alert_capacity s1 = ds_alert_capacity s0" "ch \<noteq> ChAlerts \<longrightarrow> EventMsg ChAlerts s t p \<notin> set ms"
      by (auto simp: route_channel_def split: if_splits prod.splits)
    then show ?case using Cons.IH [of "(o0 @ ms, s1)"] o by auto
  qed simp
  moreover have "ds_alerts (snd (observe_breadth ev subs st)) = ds_alerts st" "ds_alert_capacity (snd (observe_breadth ev subs st)) = ds_alert_capacity st"
    "EventMsg ChAlerts s t p \<notin> set (fst (observe_breadth ev subs st))"
    by (auto simp: observe_breadth_def split: prod.splits option.splits)
  ultimately show "ds_alerts st' = ds_alerts st" "ds_alert_capacity st' = ds_alert_capacity st" "EventMsg ChAlerts s t p \<notin> set out"
    using assms no_alert_route by (metis handle_nats_event_def fst_conv snd_conv)+
qed

lemma ingest_alerts:
  assumes "0 < ds_alert_capacity st" "ds_alerts st = newest (ds_alert_capacity st) L" "ingest_for_alerts ev subs st = (out, st')"
  shows "ds_alerts st' = newest (ds_alert_capacity st) (L @ alert_log [(c, NatsIn now ev)])" "ds_alert_capacity st' = ds_alert_capacity st"
    "EventMsg ChAlerts s t p \<in> set out \<Longrightarrow> p = alerts_value (alerts_ordered (ds_alerts st')) \<and> is_subscribed subs ChAlerts \<and> alert_of ev \<noteq> None"
  using assms by (auto simp: ingest_for_alerts_def alert_of_def newest_push Let_def split: option.splits if_splits)

text \<open>One input keeps the buffer the newest alerts of the log; a frame shows them.\<close>

lemma gateway_step_alerts:
  assumes "gateway_step env ci (subs, st) = (out, subs', st')" "0 < ds_alert_capacity st" "ds_alerts st = newest (ds_alert_capacity st) L"
  shows "ds_alerts st' = newest (ds_alert_capacity st) (L @ alert_log [ci])" "ds_alert_capacity st' = ds_alert_capacity st"
    "(c, Reply (EventMsg ChAlerts s t p)) \<in> set out \<Longrightarrow> fst ci = c \<and> is_subscribed (subs c) ChAlerts \<and> (\<exists>a. alert_log [ci] = [a])
       \<and> p = alerts_value (alerts_ordered (ds_alerts st'))"
proof -
  obtain d i where ci: "ci = (d, i)" by (metis surj_pair)
  have "ds_alerts st' = newest (ds_alert_capacity st) (L @ alert_log [ci]) \<and> ds_alert_capacity st' = ds_alert_capacity st
    \<and> ((c, Reply (EventMsg ChAlerts s t p)) \<in> set out \<longrightarrow> fst ci = c \<and> is_subscribed (subs c) ChAlerts \<and> (\<exists>a. alert_log [ci] = [a])
       \<and> p = alerts_value (alerts_ordered (ds_alerts st')))"
  proof (cases i)
    case (TextFrame r)
    show ?thesis
    proof (cases r)
      case (Inr m)
      then show ?thesis using assms ci TextFrame
        by (cases m) (auto simp: gateway_step_def handle_intent_def split: prod.splits if_splits sum.splits intent_error.splits)
    qed (use assms ci TextFrame in \<open>auto simp: gateway_step_def\<close>)
  next
    case (NatsIn now ev)
    obtain out1 st1 where h: "handle_nats_event now ev (subs d) st = (out1, st1)" by (metis surj_pair)
    obtain out2 st2 where a: "ingest_for_alerts ev (subs d) st1 = (out2, st2)" by (metis surj_pair)
    have r: "out = map (Pair d) (map Reply (out1 @ out2))" "st' = st2" using assms(1) ci NatsIn h a by (auto simp: gateway_step_def)
    note 1 = handle_nats_alerts [OF h]
    show ?thesis using ingest_alerts [OF _ _ a, of L] 1 r assms(2,3) ci NatsIn by (auto split: option.splits)
  next
    case (FlushTick now)
    then show ?thesis using assms ci by (auto simp: gateway_step_def drain_signal_flushes_def split: prod.splits if_splits)
  qed (use assms ci in \<open>auto simp: gateway_step_def\<close>)
  then show "ds_alerts st' = newest (ds_alert_capacity st) (L @ alert_log [ci])" "ds_alert_capacity st' = ds_alert_capacity st"
    "(c, Reply (EventMsg ChAlerts s t p)) \<in> set out \<Longrightarrow> fst ci = c \<and> is_subscribed (subs c) ChAlerts \<and> (\<exists>a. alert_log [ci] = [a])
       \<and> p = alerts_value (alerts_ordered (ds_alerts st'))" by blast+
qed

lemma run_gateway_alerts:
  assumes "0 < ds_alert_capacity st" "ds_alerts st = newest (ds_alert_capacity st) L" "run_gateway env inps (subs, st) = (out, subs', st')"
  shows "ds_alerts st' = newest (ds_alert_capacity st) (L @ alert_log inps)
    \<and> ((c, Reply (EventMsg ChAlerts s t p)) \<in> set out \<longrightarrow> (\<exists>pre i post. inps = pre @ (c, i) # post \<and> alert_log [(c, i)] \<noteq> []
       \<and> p = alerts_value (alerts_ordered (newest (ds_alert_capacity st) (L @ alert_log (pre @ [(c, i)]))))))"
  using assms
proof (induction inps arbitrary: subs st L out)
  case (Cons ci inps)
  obtain o1 s1 st1 where g: "gateway_step env ci (subs, st) = (o1, s1, st1)" by (metis surj_pair)
  obtain o2 where r: "run_gateway env inps (s1, st1) = (o2, subs', st')" "out = o1 @ o2" using Cons.prems(3) g by (auto split: prod.splits)
  note 1 = gateway_step_alerts [OF g Cons.prems(1,2)]
  have log: "alert_log (ci # xs) = alert_log [ci] @ alert_log xs" for xs using alert_log_append [of "[ci]" xs] by simp
  have ih: "ds_alerts st' = newest (ds_alert_capacity st) (L @ alert_log (ci # inps))
    \<and> ((c, Reply (EventMsg ChAlerts s t p)) \<in> set o2 \<longrightarrow> (\<exists>pre i post. inps = pre @ (c, i) # post \<and> alert_log [(c, i)] \<noteq> []
       \<and> p = alerts_value (alerts_ordered (newest (ds_alert_capacity st) (L @ alert_log ((ci # pre) @ [(c, i)]))))))"
    using Cons.IH [of st1 "L @ alert_log [ci]" s1 o2] Cons.prems(1) 1(1,2) r(1) by (simp add: log [of inps] log [of "_ @ _"])
  show ?case
  proof (intro conjI impI)
    assume "(c, Reply (EventMsg ChAlerts s t p)) \<in> set out"
    then consider "(c, Reply (EventMsg ChAlerts s t p)) \<in> set o1" | "(c, Reply (EventMsg ChAlerts s t p)) \<in> set o2" using r(2) by auto
    then show "\<exists>pre i post. ci # inps = pre @ (c, i) # post \<and> alert_log [(c, i)] \<noteq> []
       \<and> p = alerts_value (alerts_ordered (newest (ds_alert_capacity st) (L @ alert_log (pre @ [(c, i)]))))"
    proof cases
      case 1
      then show ?thesis using gateway_step_alerts [OF g Cons.prems(1,2)]
        by (intro exI [of _ "[]"] exI [of _ "snd ci"] exI [of _ inps]) (cases ci; fastforce)
    next
      case 2
      then obtain pre i post where "inps = pre @ (c, i) # post" "alert_log [(c, i)] \<noteq> []"
        "p = alerts_value (alerts_ordered (newest (ds_alert_capacity st) (L @ alert_log ((ci # pre) @ [(c, i)]))))" using ih by blast
      then show ?thesis by (intro exI [of _ "ci # pre"] exI [of _ i] exI [of _ post]) simp
    qed
  qed (use ih in blast)
qed simp

lemma alert_key_le:
  "alert_key a \<le> alert_key b \<Longrightarrow> severity_rank (ua_severity b) < severity_rank (ua_severity a)
     \<or> severity_rank (ua_severity a) = severity_rank (ua_severity b) \<and> ua_ts_ns b \<le> ua_ts_ns a"
proof -
  assume le: "alert_key a \<le> alert_key b"
  have r: "0 \<le> uint (ua_ts_ns a)" "uint (ua_ts_ns a) < 2 ^ 128" "0 \<le> uint (ua_ts_ns b)" "uint (ua_ts_ns b) < 2 ^ 128"
    using uint_lt2p [of "ua_ts_ns a"] uint_lt2p [of "ua_ts_ns b"] by simp_all
  show ?thesis
    using le r by (cases "ua_severity a"; cases "ua_severity b") (auto simp: alert_key_def word_le_def)
qed

lemma alerts_ordered_sorted: "sorted_wrt (\<lambda>a b. alert_key a \<le> alert_key b) (alerts_ordered buf)"
  using sorted_sort_key [of alert_key buf] by (simp add: alerts_ordered_def sorted_map)

text \<open>C25: Alerts. Every frame on \<open>/alerts\<close> is sent when its own connection receives an alert-raising event and shows exactly the 256 newest
  alerts raised so far over all connections, by falling severity and, within one severity, from the most recent. When the clock stays in the
  64-bit range the frame is an array of them.\<close>

theorem alert_frames_exact:
  assumes "run_gateway env inps (subs, gateway_state cfg) = (out, subs', st)" "(c, Reply (EventMsg ChAlerts s t p)) \<in> set out"
    and "\<forall>a \<in> set (alert_log inps). ua_ts_ns a < 2 ^ 64"
  shows "\<exists>pre i post shown. inps = pre @ (c, i) # post \<and> alert_log [(c, i)] \<noteq> [] \<and> p = JArr (map alert_json shown)
    \<and> mset shown = mset (newest 256 (alert_log (pre @ [(c, i)])))
    \<and> sorted_wrt (\<lambda>a b. severity_rank (ua_severity b) < severity_rank (ua_severity a)
         \<or> severity_rank (ua_severity a) = severity_rank (ua_severity b) \<and> ua_ts_ns b \<le> ua_ts_ns a) shown"
proof -
  have st: "0 < ds_alert_capacity (gateway_state cfg)" "ds_alerts (gateway_state cfg) = newest (ds_alert_capacity (gateway_state cfg)) []"
    by (simp_all add: gateway_state_def newest_def)
  from run_gateway_alerts [OF st assms(1), of c s t p] assms(2) obtain pre i post where w: "inps = pre @ (c, i) # post" "alert_log [(c, i)] \<noteq> []"
    "p = alerts_value (alerts_ordered (newest 256 (alert_log (pre @ [(c, i)]))))" by (auto simp: gateway_state_def)
  let ?b = "newest 256 (alert_log (pre @ [(c, i)]))"
  have "set ?b \<subseteq> set (alert_log inps)"
    using alert_log_append [of "pre @ [(c, i)]" post] w(1) by (auto simp: newest_def dest: in_set_dropD)
  then have small: "\<forall>a \<in> set ?b. ua_ts_ns a < 2 ^ 64" using assms(3) by blast
  have "uint (ua_ts_ns a) < 2 ^ 64" if "a \<in> set ?b" for a using small that by (force simp: word_less_def)
  then have "p = JArr (map alert_json (alerts_ordered ?b))" using w(3) by (simp add: alerts_value_def list_all_iff alerts_ordered_def)
  moreover have "mset (alerts_ordered ?b) = mset ?b" by (simp add: alerts_ordered_def)
  moreover have "sorted_wrt (\<lambda>a b. severity_rank (ua_severity b) < severity_rank (ua_severity a)
         \<or> severity_rank (ua_severity a) = severity_rank (ua_severity b) \<and> ua_ts_ns b \<le> ua_ts_ns a) (alerts_ordered ?b)"
    by (rule sorted_wrt_mono_rel [OF _ alerts_ordered_sorted]) (simp add: alert_key_le)
  ultimately show ?thesis using w(1,2) by blast
qed

text \<open>Connections in step: each alert is in the buffer once per connection, so \<open>n\<close> connections keep the newest \<open>256 / n\<close> alerts only.\<close>

theorem alert_copies:
  assumes "run_gateway env (concat (map (\<lambda>ev. map (\<lambda>c. (c, NatsIn now ev)) [0..<n]) evs)) (subs, gateway_state cfg) = (out, subs', st)"
  shows "ds_alerts st = newest 256 (concat (map (replicate n) (List.map_filter alert_of evs)))"
proof -
  have one: "alert_log (map (\<lambda>c. (c, NatsIn now ev)) cs) = (case alert_of ev of None \<Rightarrow> [] | Some a \<Rightarrow> replicate (length cs) a)" for ev and cs :: "nat list"
    by (induction cs) (auto split: option.splits)
  have "alert_log (concat (map (\<lambda>ev. map (\<lambda>c. (c, NatsIn now ev)) [0..<n]) evs)) = concat (map (replicate n) (List.map_filter alert_of evs))"
    by (induction evs) (auto simp: alert_log_append one List.map_filter_simps split: option.splits)
  moreover have "0 < ds_alert_capacity (gateway_state cfg)" "ds_alerts (gateway_state cfg) = newest (ds_alert_capacity (gateway_state cfg)) []"
    by (simp_all add: gateway_state_def newest_def)
  ultimately show ?thesis using run_gateway_alerts [OF _ _ assms, of "[]"] by (simp add: gateway_state_def)
qed

section \<open>Provenance of the joined payloads\<close>

text \<open>A signal as the signal engine publishes it: 66 bytes. The shim does not keep their correlation identifier.\<close>

lemma engine_signal_shim:
  assumes "length (sg_correlation_id s) = 16" "ue_from_slice env (encode_signal s) = None"
  shows "ne_payload (to_nats_event env ''sig.emitted'' (encode_signal s) ts) = shim_signal (encode_signal s)"
  using assms by (simp add: to_nats_event_def decode_payload_shim_def starts_with_def encode_signal_def)

lemma shim_signal_cid [simp]: "signal_cid (shim_signal bs) = []"
  by (simp add: shim_signal_def signal_cid_def jfield_def jget_def jobj_def bt_get_def opt_or_def less_char_def)

definition received :: "(nat \<times> session_input) list \<Rightarrow> nats_event set" where
  "received inps = {ev. \<exists>c now. (c, NatsIn now ev) \<in> set inps}"

text \<open>C20: Provenance of \<open>/signals\<close>. Over every interleaving, a payload sent on \<open>/signals\<close> shows a signal that was received on \<open>sig.emitted\<close>, and every
  ranking it shows was received on an \<open>ai.rank\<close> subject whose last segment is the \<open>correlation_id\<close> of that very signal: rankings are never shown with
  another signal. In particular a signal of the signal engine, whose 66 bytes the shim decodes without an identifier, can only be shown with rankings whose
  subject ends in an empty segment; the JSON signals of the demonstration traffic carry one and do join (\<open>two_cockpits_join\<close>).\<close>

theorem joined_ranks_match_signal:
  assumes "run_gateway env inps (subs, gateway_state cfg) = (out, subs', st)" "(c, Reply (EventMsg ChSignals s t p)) \<in> set out"
  shows "\<exists>sig. jget ''signal'' p = Some sig
    \<and> (\<exists>ev \<in> received inps. ne_subject ev = ''sig.emitted'' \<and> ne_payload ev = sig)
    \<and> (\<forall>r \<in> set (shown_ranks p). \<exists>ev \<in> received inps. starts_with ''ai.rank.'' (ne_subject ev) \<and> ne_payload ev = r
         \<and> ne_topic_suffix ev = signal_cid sig \<and> (sig \<in> range shim_signal \<longrightarrow> ne_topic_suffix ev = []))"
proof -
  let ?E = "received inps"
  have "traced_inv ?E (ds_signals (gateway_state cfg))" by (simp add: traced_inv_def gateway_state_def joiner_new_def joiner_ok_def)
  moreover have "\<forall>(c, i) \<in> set inps. event_input (\<lambda>ev. ev \<in> ?E) i" by (fastforce simp: event_input_def received_def split: session_input.splits)
  ultimately have "traced_payload ?E p" using traced_join.run_keeps [OF _ _ assms(1)] assms(2) by (fastforce simp: signals_shown_def)
  then obtain sig where "jget ''signal'' p = Some sig" "signal_received ?E sig" "\<forall>r \<in> set (shown_ranks p). rank_received ?E (signal_cid sig) r"
    by (auto simp: traced_payload_def)
  then show ?thesis by (intro exI [of _ sig]) (fastforce simp: signal_received_def rank_received_def)
qed

section \<open>Two cockpits\<close>

definition fresh_pending :: "nat \<Rightarrow> pending_join" where
  "fresh_pending now = \<lparr>pj_signal = None, pj_ranks = [], pj_shadowed_sources = [], pj_inserted_at = now\<rparr>"

definition only_entry :: "string \<Rightarrow> pending_join \<Rightarrow> signals_joiner \<Rightarrow> signals_joiner" where
  "only_entry cid e j = j\<lparr>jn_map := [(cid, e)], jn_order := [cid]\<rparr>"

definition empty_joiner :: "signals_joiner \<Rightarrow> bool" where
  "empty_joiner j \<longleftrightarrow> jn_map j = [] \<and> jn_order j = [] \<and> 0 < jn_capacity j"

lemma feed_empty:
  assumes "empty_joiner j" "join_decide (f (fresh_pending now)) = PendingOutcome b"
  shows "feed_entry now cid f j = (PendingOutcome b, only_entry cid (f (fresh_pending now)) j)"
  using assms by (auto simp: empty_joiner_def feed_entry_def prune_expired_def ensure_entry_def enforce_capacity_def fresh_pending_def only_entry_def Let_def)

lemma feed_only:
  assumes "0 < jn_capacity j" "pj_signal e \<noteq> None \<or> pj_ranks e \<noteq> []"
  shows "feed_entry now cid f (only_entry cid e j) =
    (join_decide (f e), case join_decide (f e) of PendingOutcome _ \<Rightarrow> only_entry cid (f e) j | _ \<Rightarrow> j\<lparr>jn_map := [], jn_order := []\<rparr>)"
  using assms by (auto simp: feed_entry_def prune_expired_def ensure_entry_def enforce_capacity_def only_entry_def drop_entry_def AList.delete_eq Let_def
      split: join_outcome.splits)

definition pending_signal :: "nat \<Rightarrow> json \<Rightarrow> pending_join" where
  "pending_signal now sig = (fresh_pending now)\<lparr>pj_signal := Some sig\<rparr>"

definition pending_rank :: "nat \<Rightarrow> json \<Rightarrow> pending_join" where
  "pending_rank now r = (fresh_pending now)\<lparr>pj_ranks := [r]\<rparr>"

lemma feed_signals_empty:
  assumes "empty_joiner j"
  shows "feed_signal now cid sig j = (PendingOutcome False, only_entry cid (pending_signal now sig) j)"
    "\<not> is_shadowed (jn_shadow j) (rank_source r) \<Longrightarrow> feed_rank now cid r j = (PendingOutcome False, only_entry cid (pending_rank now r) j)"
  by (simp_all add: feed_signal_def feed_rank_def Let_def feed_empty [OF assms, where b = False] join_decide_def fresh_pending_def pending_signal_def
      pending_rank_def)

lemma feed_signals_pending:
  assumes "0 < jn_capacity j"
  shows "feed_signal now' cid sig (only_entry cid (pending_signal now sig) j) = (PendingOutcome False, only_entry cid (pending_signal now sig) j)"
    "\<not> is_shadowed (jn_shadow j) (rank_source r) \<Longrightarrow> feed_rank now' cid r (only_entry cid (pending_signal now sig) j)
       = (Joined (merge_payload [] sig [r] []), j\<lparr>jn_map := [], jn_order := []\<rparr>)"
proof -
  have sh: "jn_shadow (only_entry cid e j) = jn_shadow j" for e by (simp add: only_entry_def)
  show "feed_signal now' cid sig (only_entry cid (pending_signal now sig) j) = (PendingOutcome False, only_entry cid (pending_signal now sig) j)"
    by (simp add: feed_signal_def feed_only [OF assms] pending_signal_def fresh_pending_def join_decide_def)
  assume "\<not> is_shadowed (jn_shadow j) (rank_source r)"
  then show "feed_rank now' cid r (only_entry cid (pending_signal now sig) j) = (Joined (merge_payload [] sig [r] []), j\<lparr>jn_map := [], jn_order := []\<rparr>)"
    by (simp add: feed_rank_def Let_def sh feed_only [OF assms] pending_signal_def fresh_pending_def join_decide_def)
qed

text \<open>The signal and the ranking of one identifier.\<close>

definition signal_event :: "json \<Rightarrow> u128 \<Rightarrow> nats_event" where
  "signal_event sig ts = \<lparr>ne_subject = ''sig.emitted'', ne_topic_suffix = ''emitted'', ne_payload = sig, ne_ts_ns = ts\<rparr>"

definition rank_event :: "string \<Rightarrow> json \<Rightarrow> u128 \<Rightarrow> nats_event" where
  "rank_event cid r ts = \<lparr>ne_subject = ''ai.rank.'' @ cid, ne_topic_suffix = cid, ne_payload = r, ne_ts_ns = ts\<rparr>"

lemma signal_event_step:
  assumes "is_subscribed (subs c) ChSignals" "feed_signal now (signal_cid sig) sig (ds_signals st) = (oc, j)"
  shows "gateway_step env (c, NatsIn now (signal_event sig ts)) (subs, st) =
    (map (\<lambda>p. (c, Reply (EventMsg ChSignals (Some ''sig.emitted'') (Some (ucast ts)) p))) (opt_or (wrap_outcome oc) []), subs, st\<lparr>ds_signals := j\<rparr>)"
  using assms by (simp add: gateway_step_def handle_nats_event_def observe_breadth_def classify_subject_def route_channel_def feed_signals_join_def
      ingest_for_alerts_def severity_for_subject_def starts_with_def signal_event_def)

lemma rank_event_step:
  assumes "is_subscribed (subs c) ChSignals" "feed_rank now cid r (ds_signals st) = (oc, j)"
  shows "gateway_step env (c, NatsIn now (rank_event cid r ts)) (subs, st) =
    (map (\<lambda>p. (c, Reply (EventMsg ChSignals (Some (''ai.rank.'' @ cid)) (Some (ucast ts)) p))) (opt_or (wrap_outcome oc) []), subs, st\<lparr>ds_signals := j\<rparr>)"
  using assms by (cases "split_dot cid") (simp_all add: gateway_step_def handle_nats_event_def observe_breadth_def classify_subject_def segment_at_def route_channel_def
      feed_signals_join_def ingest_for_alerts_def severity_for_subject_def starts_with_def rank_event_def)

lemma two_cockpits_frames:
  assumes "is_subscribed (subs 0) ChSignals" "is_subscribed (subs 1) ChSignals"
    and "empty_joiner (ds_signals st)" "\<not> is_shadowed (jn_shadow (ds_signals st)) (rank_source r)" "signal_cid sig = cid"
    and "frame = Reply (EventMsg ChSignals (Some (''ai.rank.'' @ cid)) (Some (ucast ts)) (merge_payload [] sig [r] []))"
    and "S = NatsIn now (signal_event sig ts)" "R = NatsIn now (rank_event cid r ts)"
  shows "run_gateway env [(0, S), (1, S), (0, R), (1, R)] (subs, st)
      = ([(0, frame)], subs, st\<lparr>ds_signals := only_entry cid (pending_rank now r) (ds_signals st)\<rparr>)
    \<and> run_gateway env [(0, S), (0, R), (1, S), (1, R)] (subs, st) = ([(0, frame), (1, frame)], subs, st)"
proof -
  let ?j = "ds_signals st"
  have cap: "0 < jn_capacity ?j" and same: "?j\<lparr>jn_map := [], jn_order := []\<rparr> = ?j" using assms(3) by (auto simp: empty_joiner_def)
  note steps = signal_event_step [where subs = subs and c = 0, OF assms(1)] signal_event_step [where subs = subs and c = 1, OF assms(2)]
    rank_event_step [where subs = subs and c = 0, OF assms(1)] rank_event_step [where subs = subs and c = 1, OF assms(2)]
  note feeds = feed_signals_empty(1) [OF assms(3)] feed_signals_empty(2) [OF assms(3,4)] feed_signals_pending(1) [OF cap]
    feed_signals_pending(2) [OF cap assms(4)]
  have "run_gateway env [(0, S), (1, S), (0, R), (1, R)] (subs, st)
      = ([(0, frame)], subs, st\<lparr>ds_signals := only_entry cid (pending_rank now r) (ds_signals st)\<rparr>)"
    by (simp add: assms(5-) steps feeds same wrap_outcome_def opt_or_def del: One_nat_def)
  moreover have "run_gateway env [(0, S), (0, R), (1, S), (1, R)] (subs, st) = ([(0, frame), (1, frame)], subs, st)"
    by (simp add: assms(5-) steps feeds same wrap_outcome_def opt_or_def del: One_nat_def)
  ultimately show ?thesis ..
qed

text \<open>The join buffer is shared by all connections, but every connection feeds it. When two cockpits on \<open>/signals\<close> receive a signal and its ranking
  in step, only the first is sent the joined payload, and the ranking fed by the second stays behind in the buffer; when the first has received both
  before the second receives either, both are sent it.\<close>

theorem two_cockpits_join:
  assumes "is_subscribed (subs 0) ChSignals" "is_subscribed (subs 1) ChSignals"
    and "empty_joiner (ds_signals st)" "\<not> is_shadowed (jn_shadow (ds_signals st)) (rank_source r)" "signal_cid sig = cid"
    and "frame = Reply (EventMsg ChSignals (Some (''ai.rank.'' @ cid)) (Some (ucast ts)) (merge_payload [] sig [r] []))"
    and "S = NatsIn now (signal_event sig ts)" "R = NatsIn now (rank_event cid r ts)"
  shows "run_gateway env [(0, S), (1, S), (0, R), (1, R)] (subs, st)
      = ([(0, frame)], subs, st\<lparr>ds_signals := only_entry cid (pending_rank now r) (ds_signals st)\<rparr>)
    \<and> run_gateway env [(0, S), (0, R), (1, S), (1, R)] (subs, st) = ([(0, frame), (1, frame)], subs, st)"
  using assms by (rule two_cockpits_frames)

section \<open>What the cockpit does not receive\<close>

text \<open>The mode message goes to the first connection that observes a reading: a second observation of the same reading is no flip.\<close>

lemma observe_again: "vt_observe payload vt = (r, vt') \<Longrightarrow> vt_observe payload vt' = (None, vt')"
  by (auto simp: vt_observe_def vt_set_def split: option.splits)

text \<open>A tick as the market-data service publishes it has eight bytes more than the decoder expects and is sent on undecoded.\<close>

lemma deployed_ticks_undecoded:
  assumes "length (tk_correlation_id t) = 16" "ue_from_slice env (tick_to_raw_bytes t) = None" "starts_with ''md.tick.'' subject"
  shows "decode_payload_shim env subject (tick_to_raw_bytes t) = jobj [(''_raw_b64'', JStr (ue_b64 env (tick_to_raw_bytes t)))]"
proof -
  have "\<not> starts_with ''sig.emitted'' subject" using assms(3) by (cases subject) (auto simp: starts_with_def)
  then show ?thesis using assms by (simp add: decode_payload_shim_def tick_to_raw_bytes_def)
qed

text \<open>NATS delivers a subject to a pattern that equals it or that ends in \<open>>\<close> after a prefix of it. Then none of the patterns of the gateway delivers the
  confirmation of the trading mode, nor three of the subjects that raise an alert.\<close>

lemma unsubscribed_subjects:
  assumes "\<And>pat s. nats_matches pat s \<Longrightarrow> pat = s \<or> (\<exists>pre. pat = pre @ ''>'' \<and> starts_with pre s)"
    and "pat \<in> set (nats_patterns ch)" "s \<in> {''exec.mode.confirmed'', ''ai.gov.action'', ''ai.ollama.degraded'', ''obs.error.'' @ component}"
  shows "\<not> nats_matches pat s"
proof
  have none: "list_all (\<lambda>pat. pat \<noteq> s' \<and> \<not> starts_with (butlast pat) s') (nats_patterns ch)"
    if "s' = ''exec.mode.confirmed'' \<or> s' = ''ai.gov.action'' \<or> s' = ''ai.ollama.degraded'' \<or> s' = ''obs.error.'' @ component" for s'
    using that by (elim disjE; cases ch) (simp_all add: starts_with_def)
  assume "nats_matches pat s"
  then have "pat = s \<or> starts_with (butlast pat) s" using assms(1) [of pat s] by (auto simp: butlast_append)
  then show False using none [of s] assms(2,3) by (auto simp: list_all_iff)
qed

section \<open>Sample runs\<close>

definition live_on :: json where "live_on = jobj [(''live'', JBool True)]"

definition sample_ui_env :: ui_env where
  "sample_ui_env = \<lparr>ue_to_vec = (\<lambda>v. if v = live_on then [1] else [2]), ue_from_slice = (\<lambda>b. if b = [1] then Some live_on else None),
     ue_b64 = (\<lambda>b. []), ue_publish_error = (\<lambda>s b. None)\<rparr>"

definition sample_gateway :: dispatcher_state where "sample_gateway = gateway_state default_hedge_config"

definition no_subs :: "nat \<Rightarrow> subscriptions" where "no_subs = (\<lambda>_. subs_new)"

definition mode_inputs :: "(nat \<times> session_input) list" where
  "mode_inputs = [(7, TextFrame (Inr (IntentMsg None IkTradingMode live_on))), (7, TextFrame (Inr (Subscribe None ChControl []))),
     (7, TextFrame (Inr (IntentMsg None IkTradingMode live_on)))]"

lemma live_on_valid: "validate_intent IkTradingMode live_on = Inr ()" "jfield jas_bool ''live'' live_on = Some True"
  by (simp_all add: live_on_def jobj_def jfield_def jget_def jas_bool_def bt_get_def)

theorem cockpit_mode_reaches_exec_witness:
  "fst (exec_service (ui_json sample_ui_env) (recording sample_live) 50000 (map (ModeMsg \<circ> snd) (filter (\<lambda>m. fst m = TRADER_INTENT_TRADING_MODE)
     (ds_published (snd (snd (run_gateway sample_ui_env mode_inputs (no_subs, sample_gateway))))))) (False, sample_io))"
proof -
  have acc: "accepted_intents sample_ui_env mode_inputs (on_control no_subs) = [(IkTradingMode, live_on)]"
    by (simp add: mode_inputs_def on_control_def no_subs_def subs_new_def is_subscribed_def intent_accepted_def live_on_valid del: validate_intent.simps)
      (simp add: sample_ui_env_def)
  show ?thesis
    using cockpit_mode_reaches_exec [OF acc [symmetric], of sample_gateway _ _ _ "recording sample_live" 50000 False sample_io]
    by (cases "run_gateway sample_ui_env mode_inputs (no_subs, sample_gateway)")
      (auto simp: sample_ui_env_def sample_gateway_def gateway_state_def is_mode_intent_def mode_wanted_def live_on_valid)
qed

definition failover_notice :: nats_event where
  "failover_notice = \<lparr>ne_subject = ''exec.broker.failover'', ne_topic_suffix = ''failover'', ne_payload = JNull, ne_ts_ns = 5\<rparr>"

definition alert_inputs :: "(nat \<times> session_input) list" where
  "alert_inputs = [(0, NatsIn 1 failover_notice), (1, TextFrame (Inr (Subscribe None ChAlerts []))), (1, NatsIn 1 failover_notice)]"

definition failover_alert :: ui_alert where
  "failover_alert = \<lparr>ua_severity = SevWarning, ua_source = ''exec.broker.failover'', ua_ts_ns = 5, ua_payload = JNull\<rparr>"

lemma alert_inputs_run:
  "fst (run_gateway sample_ui_env alert_inputs (no_subs, sample_gateway)) =
     [(1, Reply (AckMsg None ChAlerts)), (1, Reply (EventMsg ChAlerts (Some ''alerts'') None (JArr [alert_json failover_alert, alert_json failover_alert])))]"
  "alert_log alert_inputs = [failover_alert, failover_alert]"
  by (simp_all add: alert_inputs_def failover_notice_def gateway_step_def handle_nats_event_def observe_breadth_def classify_subject_def route_channel_def
      no_subs_def subs_new_def subs_subscribe_def is_subscribed_def ingest_for_alerts_def severity_for_subject_def starts_with_def alert_of_def
      sample_gateway_def gateway_state_def alert_push_def alerts_ordered_def alerts_value_def failover_alert_def Let_def)

theorem alert_frames_exact_witness:
  "\<exists>pre i post shown. alert_inputs = pre @ (1, i) # post \<and> alert_log [(1, i)] \<noteq> []
    \<and> JArr [alert_json failover_alert, alert_json failover_alert] = JArr (map alert_json shown)
    \<and> mset shown = mset (newest 256 (alert_log (pre @ [(1, i)])))
    \<and> sorted_wrt (\<lambda>a b. severity_rank (ua_severity b) < severity_rank (ua_severity a)
         \<or> severity_rank (ua_severity a) = severity_rank (ua_severity b) \<and> ua_ts_ns b \<le> ua_ts_ns a) shown"
proof -
  obtain out subs st where r: "run_gateway sample_ui_env alert_inputs (no_subs, gateway_state default_hedge_config) = (out, subs, st)" by (metis surj_pair)
  then have "(1, Reply (EventMsg ChAlerts (Some ''alerts'') None (JArr [alert_json failover_alert, alert_json failover_alert]))) \<in> set out"
    using alert_inputs_run(1) by (simp add: sample_gateway_def)
  moreover have "\<forall>a \<in> set (alert_log alert_inputs). ua_ts_ns a < 2 ^ 64" by (simp add: alert_inputs_run(2) failover_alert_def)
  ultimately show ?thesis by (rule alert_frames_exact [OF r])
qed

definition shown_signal :: json where "shown_signal = shim_signal (encode_signal sample_signal)"

lemma shown_signal_cid: "signal_cid shown_signal = []"
  by (simp add: shown_signal_def)

definition ranking :: "string \<Rightarrow> json" where "ranking src = jobj [(''source'', JStr src)]"

lemma rank_source_ranking [simp]: "rank_source (ranking src) = src"
  by (simp add: rank_source_def ranking_def jobj_def jget_def jas_str_def bt_get_def opt_or_def)

definition shadow_config :: hedge_config where
  "shadow_config = default_hedge_config\<lparr>hc_ai := default_ai\<lparr>shadow_components := [''ollama'']\<rparr>\<rparr>"

definition shadow_inputs :: "(nat \<times> session_input) list" where
  "shadow_inputs = [(0, TextFrame (Inr (Subscribe None ChSignals []))), (0, NatsIn 0 (signal_event shown_signal 6)),
     (0, NatsIn 0 (rank_event [] (ranking ''ollama'') 5)), (0, NatsIn 0 (rank_event [] (ranking ''local'') 7))]"

lemma shadow_inputs_run:
  "(0, Reply (EventMsg ChSignals (Some ''ai.rank.'') (Some 7) (merge_payload [] shown_signal [ranking ''local''] [''ollama''])))
     \<in> set (fst (run_gateway sample_ui_env shadow_inputs (no_subs, gateway_state shadow_config)))"
proof -
  define st where "st = gateway_state shadow_config"
  let ?j = "ds_signals st" and ?subs = "no_subs(0 := subs_subscribe ChSignals [] subs_new)"
  let ?e = "(pending_signal 0 shown_signal)\<lparr>pj_shadowed_sources := [''ollama'']\<rparr>"
  have j: "empty_joiner ?j" "jn_shadow ?j = {''ollama''}"
    by (simp_all add: empty_joiner_def st_def gateway_state_def joiner_new_def shadow_config_def)
  then have cap: "0 < jn_capacity ?j" by (simp add: empty_joiner_def)
  have on: "is_subscribed (?subs 0) ChSignals" by (simp add: is_subscribed_subs)
  have sh: "jn_shadow (only_entry cid e ?j) = {''ollama''}" for cid e using j(2) by (simp add: only_entry_def)
  have s0: "gateway_step sample_ui_env (0, TextFrame (Inr (Subscribe None ChSignals []))) (no_subs, st) = ([(0, Reply (AckMsg None ChSignals))], ?subs, st)"
    by (simp add: gateway_step_def no_subs_def)
  have s1: "gateway_step sample_ui_env (0, NatsIn 0 (signal_event shown_signal 6)) (?subs, st)
      = ([], ?subs, st\<lparr>ds_signals := only_entry [] (pending_signal 0 shown_signal) ?j\<rparr>)"
    by (simp add: signal_event_step [where subs = ?subs and c = 0, OF on] shown_signal_cid feed_signals_empty(1) [OF j(1)] wrap_outcome_def opt_or_def)
  have f2: "feed_rank 0 [] (ranking ''ollama'') (only_entry [] (pending_signal 0 shown_signal) ?j) = (PendingOutcome True, only_entry [] ?e ?j)"
    by (simp add: feed_rank_def sh is_shadowed_def feed_only [OF cap] pending_signal_def fresh_pending_def join_decide_def)
  have f3: "feed_rank 0 [] (ranking ''local'') (only_entry [] ?e ?j)
      = (Joined (merge_payload [] shown_signal [ranking ''local''] [''ollama'']), ?j\<lparr>jn_map := [], jn_order := []\<rparr>)"
    by (simp add: feed_rank_def sh is_shadowed_def feed_only [OF cap] pending_signal_def fresh_pending_def join_decide_def)
  show ?thesis unfolding shadow_inputs_def st_def [symmetric]
    by (simp add: s0 s1 f2 f3 rank_event_step [where subs = ?subs and c = 0, OF on] wrap_outcome_def opt_or_def)
qed

theorem shadowed_ranks_never_shown_witness:
  "ranking ''local'' \<in> set (shown_ranks (merge_payload [] shown_signal [ranking ''local''] [''ollama'']))
    \<and> rank_source (ranking ''local'') \<notin> set (shadow_components (hc_ai shadow_config))
    \<and> length (jn_map (ds_signals (snd (snd (run_gateway sample_ui_env shadow_inputs (no_subs, gateway_state shadow_config)))))) \<le> 4096"
proof -
  obtain out subs st where r: "run_gateway sample_ui_env shadow_inputs (no_subs, gateway_state shadow_config) = (out, subs, st)" by (metis surj_pair)
  then have "(0, Reply (EventMsg ChSignals (Some ''ai.rank.'') (Some 7) (merge_payload [] shown_signal [ranking ''local''] [''ollama'']))) \<in> set out"
    using shadow_inputs_run by simp
  with shadowed_ranks_never_shown [OF r] have "rank_source (ranking ''local'') = [] \<or> rank_source (ranking ''local'') \<notin> set (shadow_components (hc_ai shadow_config))"
    by (fastforce simp del: rank_source_ranking)
  then show ?thesis using shadowed_ranks_never_shown [OF r] r by simp
qed

text \<open>A JSON signal with an identifier, as \<open>hedge-demo-synth\<close> sends it, and its ranking.\<close>

definition json_signal :: json where "json_signal = jobj [(''correlation_id'', JStr ''ab'')]"

lemma json_signal_cid: "signal_cid json_signal = ''ab''"
  by (simp add: json_signal_def signal_cid_def jfield_def jget_def jas_str_def jobj_def bt_get_def opt_or_def)

definition join_inputs :: "(nat \<times> session_input) list" where
  "join_inputs = [(0, NatsIn 0 (signal_event json_signal 7)), (0, NatsIn 0 (rank_event ''ab'' (ranking ''local'') 7)),
     (1, NatsIn 0 (signal_event json_signal 7)), (1, NatsIn 0 (rank_event ''ab'' (ranking ''local'') 7))]"

lemma join_inputs_run:
  "(0, Reply (EventMsg ChSignals (Some ''ai.rank.ab'') (Some 7) (merge_payload [] json_signal [ranking ''local''] [])))
     \<in> set (fst (run_gateway sample_ui_env join_inputs (\<lambda>c. subs_subscribe ChSignals [] subs_new, gateway_state default_hedge_config)))"
proof -
  have "empty_joiner (ds_signals (gateway_state default_hedge_config))"
    "\<not> is_shadowed (jn_shadow (ds_signals (gateway_state default_hedge_config))) (rank_source (ranking ''local''))"
    by (simp_all add: empty_joiner_def gateway_state_def joiner_new_def is_shadowed_def default_hedge_config_def default_ai_def)
  then show ?thesis unfolding join_inputs_def
    using two_cockpits_frames [of "\<lambda>c. subs_subscribe ChSignals [] subs_new" "gateway_state default_hedge_config" "ranking ''local''" json_signal "''ab''",
        OF _ _ _ _ json_signal_cid refl refl refl]
    by (simp add: is_subscribed_subs del: run_gateway.simps One_nat_def)
qed

theorem joined_ranks_match_signal_witness:
  "\<exists>ev \<in> received join_inputs. starts_with ''ai.rank.'' (ne_subject ev) \<and> ne_payload ev = ranking ''local'' \<and> ne_topic_suffix ev = ''ab''"
proof -
  obtain out subs st where r: "run_gateway sample_ui_env join_inputs (\<lambda>c. subs_subscribe ChSignals [] subs_new, gateway_state default_hedge_config)
      = (out, subs, st)" by (metis surj_pair)
  then have "(0, Reply (EventMsg ChSignals (Some ''ai.rank.ab'') (Some 7) (merge_payload [] json_signal [ranking ''local''] []))) \<in> set out"
    using join_inputs_run by simp
  from joined_ranks_match_signal [OF r this] show ?thesis by (auto simp: json_signal_cid)
qed

theorem two_cockpits_join_witness:
  "fst (run_gateway sample_ui_env [(0, NatsIn 0 (signal_event shown_signal 7)), (1, NatsIn 0 (signal_event shown_signal 7)),
      (0, NatsIn 0 (rank_event [] (ranking ''local'') 7)), (1, NatsIn 0 (rank_event [] (ranking ''local'') 7))]
      (\<lambda>c. subs_subscribe ChSignals [] subs_new, sample_gateway))
    = [(0, Reply (EventMsg ChSignals (Some ''ai.rank.'') (Some 7) (merge_payload [] shown_signal [ranking ''local''] [])))]"
proof -
  have "empty_joiner (ds_signals sample_gateway)" "\<not> is_shadowed (jn_shadow (ds_signals sample_gateway)) (rank_source (ranking ''local''))"
    by (simp_all add: empty_joiner_def sample_gateway_def gateway_state_def joiner_new_def is_shadowed_def default_hedge_config_def default_ai_def)
  then show ?thesis
    using two_cockpits_join [of "\<lambda>c. subs_subscribe ChSignals [] subs_new" sample_gateway "ranking ''local''" shown_signal "[]", OF _ _ _ _ shown_signal_cid refl refl refl]
    by (simp add: is_subscribed_subs del: run_gateway.simps One_nat_def)
qed

end
