(* ===== verification/Spec2Isabelle.thy ===== *)
theory Spec2Isabelle
  imports Risk_Engine Exec_Safety Exec_Service Position Session Supervisor Warm_Cache Signal_Facts Risk_Service Market_Facts Orderflow_Facts Replay_Facts Ui_Control
begin

text \<open>
  HEDGE-OS is an intraday trading system of Rust services (\<open>src/crates\<close>) connected by a NATS bus and a
  Redis stream. Market data becomes features, features become signals, the Risk_Engine approves or
  rejects a signal, the Execution_Engine turns an approval into broker orders, the Position_Engine
  folds the fills; the session manager announces the phases of the day and the supervisor reacts to
  failures. This development models the path from the payload of a tick to the position: features,
  signals, risk decision, order, fill, together with the bus, the configuration,
  the session clock and the supervisor around it.

  \<^bold>\<open>Theories and the code they model.\<close>

  \<^item> \<open>Hedge_Prelude\<close>, \<open>Ordered_Map\<close>, \<open>Hedge_Float\<close>: the language and its standard library as far as the
    sources use them: integer types with wrapping, saturating and checked operations, byte arrays,
    formatting; \<open>BTreeMap\<close>; \<open>f32\<close> and \<open>f64\<close> as rationals rounded to nearest even.
  \<^item> \<open>Core_Types\<close>, \<open>Ring_Window\<close>: \<open>hedge-core\<close> (\<open>price.rs\<close>, \<open>enums.rs\<close>, \<open>ids.rs\<close>, \<open>window.rs\<close>) and the wire
    discriminants of \<open>hedge-schemas\<close>. The rolling window refines a bounded FIFO list.
  \<^item> \<open>Config_Models\<close>, \<open>Config_Loader\<close>: \<open>hedge-config\<close>: the typed sections, the loading
    pipeline and the holders; the built-in defaults pass the cross-field checks, and an installed configuration stays.
  \<^item> \<open>Kill_Switch\<close>, \<open>Risk_State\<close>, \<open>Approval\<close>, \<open>Risk_Engine\<close>: \<open>hedge-risk\<close>. The switch is an object and a
    transition system of interleaved atomic actions (exactly one activation is announced). \<open>evaluate\<close> runs the fifteen gates in order, with its side effects; an approval
    respects the configured limits, its size is bounded, and its token binds the order it was made for.
  \<^item> \<open>Broker_Api\<close>, \<open>Order_Lifecycle\<close>, \<open>Retry\<close>, \<open>Broker_Router\<close>, \<open>Exec_Engine\<close>, \<open>Exec_Safety\<close>:
    \<open>hedge-broker-api\<close> and the library half of \<open>hedge-exec\<close>. Over every sequence of calls and whatever
    the brokers answer, an order reaches a broker only with a verified, unused token, the published
    lifecycles follow the legal edges, and the published fill deltas sum to the fill.
  \<^item> \<open>Exec_Service\<close>: the binary of \<open>hedge-exec\<close>: the trading-mode toggle, the paper route and the live
    route with its notional cap and its bounded polling.
  \<^item> \<open>Sim_Broker\<close>: \<open>hedge-broker-simulated\<close>: order book sweeps and the adapter operations.
  \<^item> \<open>Position\<close>: \<open>hedge-position\<close>: realised plus unrealised profit is the mark-to-market value of the
    fills, and the registry refines independent per-symbol ledgers.
  \<^item> \<open>Message_Bus\<close>: \<open>hedge-bus\<close>: subjects, codecs, the symbol table, Redis stream batches.
  \<^item> \<open>Session\<close>: \<open>hedge-session\<close>: both controllers, their edge-triggered runs and their polling.
  \<^item> \<open>Supervisor\<close>: \<open>hedge-supervisor\<close>: detection, policy, persisted state, actuation, restart.
  \<^item> \<open>Warm_Cache\<close>: \<open>hedge-warmcache\<close>: the bounded score tables, the cache the Risk_Engine reads and the task that
    feeds it; every score it shows is in range, whatever arrives.
  \<^item> \<open>Wire_Codec\<close>: the fixed-length payloads of ticks, feature snapshots and signals, with the bit patterns
    of \<open>f32\<close>; what one service writes the next reads back.
  \<^item> \<open>Features\<close>, \<open>Feature_Facts\<close>: \<open>hedge-features\<close>: the per-symbol state, the fourteen indicators, the fold of a tick,
    the engine and its service. Price, VWAP, ATR, EMAs, volatility, Donchian bounds and momentum are the formulas over the
    whole history, every snapshot fits the wire, and some indicators are shown to be constant.
  \<^item> \<open>Signals\<close>, \<open>Signal_Facts\<close>: \<open>hedge-signals\<close>: the strategies, the gates, the engine and its service. Every strategy
    meets one contract, the output is the registry filtered by the gates, and the two services
    composed over the wire behave as the functions they wrap.
  \<^item> \<open>Risk_Service\<close>: the binary of \<open>hedge-risk\<close> and its Redis persistence. The decisions of the running service are
    characterised exactly, its approvals are followed into the execution service, and a restart forgets.
  \<^item> \<open>Market_Data\<close>, \<open>Market_Facts\<close>: \<open>hedge-market-data\<close>: the interner, the canonical tick, normalisation, the distributor,
    breadth, the WebSocket adapter and the ingest loop. Interning is safe under interleaving, an outage ends in a resumed
    stream, every frame that parses is published once and in order, and sector breadth equals its batch definition.
  \<^item> \<open>Orderflow\<close>, \<open>Orderflow_Facts\<close>: \<open>hedge-orderflow\<close>: the depth book, the detectors, the rolling delta, the heatmap, the engine
    and its service. A book is its newest update under any reordering, the rolling delta is the volume of the recent trades,
    a spoofing report has its evidence in the history, and the deployed service is shown to see no trades.
  \<^item> \<open>Replay\<close>, \<open>Replay_Facts\<close>: \<open>hedge-replay\<close>: framing, segment files, recorder, player, paced stream, control-plane encoding and the
    tools, on an explicit directory with buffered files. A recorded session reads back exactly, seeking and playback release the
    records in order, and two failures are shown to cost the session.
  \<^item> \<open>Ui_Gateway\<close>, \<open>Ui_Facts\<close>, \<open>Ui_Control\<close>: \<open>hedge-ui-gateway\<close>: the protocol, routing, the buffer that joins signals and rankings,
    alerts, trader intents, the payload decoder, the dispatcher and the session loop, over any interleaving of connections. The published
    intents are exactly the accepted ones and set the mode of the execution service, shadowed rankings are never shown, an alert frame holds the
    newest alerts, and a ranking is only shown with the signal of its identifier.
  \<^item> This theory: the composition of Risk_Engine, Execution_Engine and simulated broker.

  \<^bold>\<open>Conventions.\<close> A struct is a record, an enum a datatype, a method a function of the state that
  returns the state after it. Unsigned integers are words of their width, \<open>usize\<close> is \<^typ>\<open>nat\<close>; a
  signed integer is an \<^typ>\<open>int\<close> with the wrap-around (release profile), clamp or check written where the
  source has it. Strings are character lists, \<open>HashMap\<close> and \<open>DashMap\<close> are HOL maps, or association
  lists where they are iterated over, \<open>Result\<close> is a sum with the error on the left. Clock readings, broker
  adapters, the publisher's answers, HMAC, \<open>serde\<close>, \<open>chrono\<close>, YAML and (outside \<open>Replay\<close>) the file system are arguments of the
  definitions that use them; what a theorem needs of them is a hypothesis with a witness.
  A call runs to completion, except in the Kill_Switch, where the atomic actions interleave.

  \<^bold>\<open>Interfaces.\<close> The contracts a component relies on are locales, interpreted on the model:
  \<open>rolling_window\<close> (ring and adapter statistics), \<open>key_value\<close> (ordered maps), \<open>edge_latch\<close> (Kill_Switch and
  profit target), \<open>mac_scheme\<close> (tokens), \<open>jitter_source\<close> (retry), \<open>broker_adapter\<close> (simulated broker),
  \<open>window_controller\<close> (both session controllers), \<open>bounded_store\<close> (score tables), \<open>wire_codec\<close> (payloads),
  \<open>strategy_contract\<close> (the eight strategies),
  \<open>join_invariant\<close> (join buffer of the cockpit).

  \<^bold>\<open>Termination and fuel.\<close> Every loop is a total function: list and \<open>nat\<close> recursions, the retry loop on
  the remaining attempts (at least one), fill polling on the ten polls of the source, the session
  run on the finite list of steps a run makes. The day searches of the session clock are
  \<open>partial_function\<close>s, and are proved to return.

  \<^bold>\<open>What the theorems show beyond correctness.\<close> Several state behaviour that the comments do not promise
  or deny: the trade-frequency gate never fires, an outage of the broker never causes a failover, signals of the
  signal engine reach the cockpit without their identifier, a
  second token for one correlation id places a second order, the jittered backoff can exceed its cap
  by rounding, the unpriced live order escapes the notional cap, the Redis alarm of the supervisor
  sustains itself, the sweep-reversal strategy reads its feature with the wrong sign, three strategies
  never emit as the service is started.

  \<^bold>\<open>Not modelled.\<close>
  The live broker adapters (\<open>hedge-broker-angelone\<close>, \<open>-dhan\<close>, \<open>-shoonya\<close>, \<open>-upstox\<close>, \<open>-zerodha\<close>) are HTTP clients of
  remote services; the Execution_Engine is proved for arbitrary adapters instead. Of \<open>hedge-market-data\<close> the
  Upstox feed binary (protobuf frames of a vendor socket) is left out. \<open>hedge-obs\<close>
  and \<open>hedge-demo-synth\<close> observe or imitate the services and decide nothing. The
  binaries of \<open>hedge-position\<close>, \<open>hedge-session\<close> and \<open>hedge-supervisor\<close> are process startup and I/O;
  \<open>hedge-core\<close>'s clock, lock-free rings and allocation harness, ULID generation, \<open>serde\<close>, the
  JSON schemas and the generated FlatBuffers accessors are not modelled.
\<close>

section \<open>From a signal to an order\<close>

text \<open>The submission that carries an approval of the Risk_Engine to the Execution_Engine.\<close>

definition approval_request ::
  "hmac_fn \<Rightarrow> warm_cache_view \<Rightarrow> eval_clock \<Rightarrow> signal \<Rightarrow> i64 \<Rightarrow> risk_engine \<Rightarrow> u64 \<Rightarrow> u64 \<Rightarrow> u64 \<Rightarrow> submit_request" where
  "approval_request hmac wc now sig px re start submit_now stop =
     (let d = snd (evaluate hmac wc now sig px re); q = decision_quantity d
      in \<lparr>sr_token = the (decision_token d), sr_intent = minted_intent sig q, sr_sized_quantity = q,
          sr_ts_ns = now_ns_mint now, sr_sequence = re_sequence re,
          sr_start = start, sr_submit_now = submit_now, sr_end = stop\<rparr>)"

lemma approval_request_verified:
  assumes "is_approved (snd (evaluate hmac wc now sig px re))" and "key = re_signer_key re"
  shows "request_verified hmac key (approval_request hmac wc now sig px re t1 t2 t3)"
  using evaluate_approved(1,2) [OF assms(1)] assms(2)
  by (simp add: approval_request_def request_verified_def approval_sign_def approval_verify_def Let_def)

lemma approval_request_translates:
  assumes "is_approved (snd (evaluate hmac wc now sig px re))" and "sg_side sig = 0 \<or> sg_side sig = 1"
    and "rq = approval_request hmac wc now sig px re t1 t2 t3"
  shows "translate_intent (sr_intent rq) (sr_sized_quantity rq) =
    Inr \<lparr>bi_correlation_id = cid_of_bytes (sg_correlation_id sig), bi_symbol_raw = sg_symbol sig,
         bi_side = (if sg_side sig = 0 then Buy else Sell), bi_quantity = approved_qty wc sig px re,
         bi_order_type = Market, bi_limit_paise = take_profit_paise (sg_risk_profile sig), bi_exchange = Nse\<rparr>"
  using assms(2) evaluate_approved(1) [OF assms(1)]
  by (auto simp: assms(3) approval_request_def translate_intent_def minted_intent_def order_type_from_u8_def
      exchange_from_i8_def Let_def)

text \<open>A first submission that the active adapter acknowledges at once.\<close>

lemma exec_submit_acked:
  assumes "request_verified hmac (xe_verifier_key e) rq" "sr_token rq \<notin> xe_consumed_tokens e"
    and "translate_intent (sr_intent rq) (sr_sized_quantity rq) = Inr i" "xe_trackers e (request_cid rq) = None"
    and "ad_submit ad (br_active (xe_router e)) i (ev_world env) = (w', Inr ack)"
  shows "\<exists>e' env' ev fo. exec_submit hmac ad nx rq e env = (e', env', Inr (EventLifecycle ev # failover_events fo))
    \<and> ev_world env' = w' \<and> le_state ev = Submitted \<and> le_correlation_id ev = request_cid rq
    \<and> le_broker_order_id ev = Some (sa_broker_order_id ack)
    \<and> xe_trackers e' (request_cid rq) = Some ((ot_new (request_cid rq) (active_id (xe_router e)) (sr_sized_quantity rq))
         \<lparr>ot_broker_order_id := Some (sa_broker_order_id ack), ot_state := Submitted\<rparr>)"
proof -
  have retry: "retry_with_backoff (xe_retry_policy e) nx (submit_op ad (br_active (xe_router e)) (active_id (xe_router e)) i)
      (ev_world env) (ev_jitter env) = (Inr ack, w', ev_jitter env, [])"
    using assms(5) by (intro retry_first_success) (simp add: submit_op_def)
  show ?thesis
    using assms(1-4) retry
    by (simp add: exec_submit_def admit_fresh submit_route_def handle_submit_ok_def admitted_def Let_def ot_submit_def
        transition_no_fill_def ot_new_def case_prod_beta) (auto simp: ot_event_def)
qed

text \<open>C3: From signal to fill. A signal the Risk_Engine approves, carried unchanged to an
  Execution_Engine with the same key whose active slot is a ready simulated broker with a
  well-formed book for the symbol, is accepted on the first presentation of its token: the engine
  publishes \<open>Submitted\<close> under the signal's correlation id, and the broker holds one new order for
  exactly the approved quantity and side, filled by the smaller of that quantity and what the other
  side of the book offers.\<close>

theorem approved_signal_places_order:
  assumes "is_approved (snd (evaluate hmac wc now sig px re))" and "xe_verifier_key e = re_signer_key re"
    and "sg_side sig = 0 \<or> sg_side sig = 1"
    and "rq = approval_request hmac wc now sig px re t1 t2 t3"
    and "sr_token rq \<notin> xe_consumed_tokens e" and "xe_trackers e (request_cid rq) = None"
    and "br_active (xe_router e) = Primary" and "ev_world env = (p, b)"
    and "sb_ready p = ReadyOk" and "sb_books p (sg_symbol sig) = Some book" and "wf_book book"
  shows "\<exists>e' env' ev fo p' rc oid. exec_submit hmac (sim_adapters ck) nx rq e env = (e', env', Inr (EventLifecycle ev # failover_events fo))
    \<and> le_state ev = Submitted \<and> le_correlation_id ev = cid_of_bytes (sg_correlation_id sig) \<and> le_broker_order_id ev = Some oid
    \<and> ev_world env' = (p', b) \<and> sb_orders p' = (sb_orders p)(oid \<mapsto> rc)
    \<and> bi_quantity (rc_intent rc) = decision_quantity (snd (evaluate hmac wc now sig px re))
    \<and> bi_side (rc_intent rc) = (if sg_side sig = 0 then Buy else Sell)
    \<and> unat (rc_filled_qty rc) = min (unat (bi_quantity (rc_intent rc))) (available (rc_intent rc) book)"
proof -
  note tr = approval_request_translates [OF assms(1,3,4)]
  obtain i where i: "translate_intent (sr_intent rq) (sr_sized_quantity rq) = Inr i" "bi_symbol_raw i = sg_symbol sig"
    "bi_side i = (if sg_side sig = 0 then Buy else Sell)" "bi_quantity i = approved_qty wc sig px re"
    using tr by simp
  obtain book' fills where c: "consume_book i book = (book', fills)" by fastforce
  obtain p' r where run: "sim_submit ck i p = (p', r)" by fastforce
  have bk: "sb_books p (bi_symbol_raw i) = Some book" using assms(10) i(2) by simp
  note placed = sim_submit_spec [OF assms(9) bk assms(11) refl c refl run]
  define oid where "oid = ''SIM-'' @ show_nat (unat (usat_add (sb_next_id p) 1))"
  obtain rc where rc: "sb_orders p' = (sb_orders p)(oid \<mapsto> rc)" "rc_intent rc = i"
    "unat (rc_filled_qty rc) = min (unat (bi_quantity i)) (available i book)"
    using placed(2) unfolding oid_def by blast
  have ack: "ad_submit (sim_adapters ck) (br_active (xe_router e)) i (ev_world env) =
      ((p', b), Inr \<lparr>sa_broker_order_id = oid, sa_broker_ts_ns = Some (rq_start ck)\<rparr>)"
    using run placed(1) assms(7,8) by (simp add: sim_adapters_def oid_def)
  have ver: "request_verified hmac (xe_verifier_key e) rq"
    using approval_request_verified [OF assms(1,2)] assms(4) by simp
  have cid: "request_cid rq = cid_of_bytes (sg_correlation_id sig)"
    by (simp add: assms(4) request_cid_def approval_request_def minted_intent_def Let_def)
  show ?thesis
    using exec_submit_acked [OF ver assms(5) i(1) assms(6) ack, of nx] rc i(3,4) cid evaluate_approved(1) [OF assms(1)]
    by fastforce
qed

definition sample_route :: exec_engine where
  "sample_route = xe_new (router_new Simulated Simulated \<lparr>th_error_rate_bps = 2000, th_p99_latency_ms = 500, th_min_samples = 8\<rparr>)
     (re_signer_key sample_engine) default_retry_policy ReplayOn"

theorem approved_signal_places_order_witness:
  "\<exists>e' env' ev fo p' rc oid. exec_submit (\<lambda>k m. k @ m) (sim_adapters sample_request) no_jitter_next
      (approval_request (\<lambda>k m. k @ m) (mock_view mock_neutral) sample_clock sample_signal 5000 sample_engine 1 2 3)
      sample_route (sample_env (set_book (sg_symbol sample_signal) sample_book (sim_new default_sim_config), sample_broker))
      = (e', env', Inr (EventLifecycle ev # failover_events fo))
    \<and> le_state ev = Submitted \<and> ev_world env' = (p', sample_broker) \<and> sb_orders p' oid = Some rc
    \<and> unat (rc_filled_qty rc) = min (unat (bi_quantity (rc_intent rc))) (available (rc_intent rc) sample_book)"
proof -
  let ?p = "set_book (sg_symbol sample_signal) sample_book (sim_new default_sim_config)"
  let ?rq = "approval_request (\<lambda>k m. k @ m) (mock_view mock_neutral) sample_clock sample_signal 5000 sample_engine 1 2 3"
  have p: "sb_ready ?p = ReadyOk" "sb_books ?p (sg_symbol sample_signal) = Some sample_book"
    by (simp_all add: set_book_def sim_new_def default_sim_config_def)
  have e: "xe_verifier_key sample_route = re_signer_key sample_engine" "sr_token ?rq \<notin> xe_consumed_tokens sample_route"
    "xe_trackers sample_route (request_cid ?rq) = None" "br_active (xe_router sample_route) = Primary"
    by (simp_all add: sample_route_def xe_new_def router_new_def)
  have side: "sg_side sample_signal = 0 \<or> sg_side sample_signal = 1" by (simp add: sample_signal_def)
  have w: "ev_world (sample_env (?p, sample_broker)) = (?p, sample_broker)" by (simp add: sample_env_def)
  show ?thesis
    using approved_signal_places_order [OF sample_approved e(1) side refl e(2,3,4) w p sample_book_wf, of sample_request no_jitter_next]
    by fastforce
qed


end
